(* ===== verification/Prelude.thy ===== *)
theory Prelude
  imports Main "HOL-Library.Word" "HOL-Library.Sublist"
begin

text \<open>
  Shared vocabulary of the development: the names of the machine types the Go code uses,
  the lemma collections the component theories add to, and the generic facts on lists,
  options and maps that more than one component needs.
\<close>

unbundle bit_operations_syntax

section \<open>Types\<close>

type_synonym u8 = "8 word"
type_synonym u16 = "16 word"
type_synonym u32 = "32 word"
type_synonym u64 = "64 word"
type_synonym bytes = "8 word list"

text \<open>
  A Go function that returns \<open>(T, error)\<close> and whose first result is ignored when the
  second is set returns \<open>'e + 'a\<close> here: \<open>Inl\<close> the error, \<open>Inr\<close> the value.
\<close>

abbreviation is_err :: "'e + 'a \<Rightarrow> bool" where
  "is_err r \<equiv> (\<exists>e. r = Inl e)"

fun bindE :: "'e + 'a \<Rightarrow> ('a \<Rightarrow> 'e + 'b) \<Rightarrow> 'e + 'b" where
  "bindE (Inl e) f = Inl e"
| "bindE (Inr x) f = f x"

section \<open>Lemma collections\<close>

named_theorems path_simps \<open>evaluation of the Windows path helpers\<close>
named_theorems port_defs \<open>the definitions of the world's port operations\<close>
named_theorems mux_defs \<open>the definitions of the session's atomic actions\<close>
named_theorems go_eval \<open>equations that evaluate the Go standard library's functions\<close>

section \<open>Results\<close>

lemma bindE_Inr_iff: "bindE r f = Inr y \<longleftrightarrow> (\<exists>x. r = Inr x \<and> f x = Inr y)"
  by (cases r) auto

lemma bindE_Inl_iff:
  "bindE r f = Inl e \<longleftrightarrow> r = Inl e \<or> (\<exists>x. r = Inr x \<and> f x = Inl e)"
  by (cases r) auto

section \<open>Lists\<close>

lemma take_append_exact [simp]: "n = length xs \<Longrightarrow> take n (xs @ ys) = xs"
  by simp

lemma drop_append_exact [simp]: "n = length xs \<Longrightarrow> drop n (xs @ ys) = ys"
  by simp

lemma length_4_conv:
  "length xs = 4 \<longleftrightarrow> (\<exists>a b c d. xs = [a, b, c, d])"
  by (auto simp: numeral_eq_Suc length_Suc_conv)

lemma prefix_take_drop: "prefix xs ys \<longleftrightarrow> take (length xs) ys = xs"
  by (metis append_eq_conv_conj prefix_def append_take_drop_id)

lemma suffix_length_drop: "suffix xs ys \<Longrightarrow> drop (length ys - length xs) ys = xs"
  by (auto simp: suffix_def)

lemma takeWhile_all: "(\<And>x. x \<in> set xs \<Longrightarrow> P x) \<Longrightarrow> takeWhile P xs = xs"
  by (induction xs) auto

lemma dropWhile_none: "xs = [] \<or> \<not> P (hd xs) \<Longrightarrow> dropWhile P xs = xs"
  by (cases xs) auto

lemma takeWhile_append_stop:
  "(\<And>x. x \<in> set xs \<Longrightarrow> P x) \<Longrightarrow> \<not> P y \<Longrightarrow> takeWhile P (xs @ y # ys) = xs"
  by (induction xs) auto

lemma dropWhile_append_stop:
  "(\<And>x. x \<in> set xs \<Longrightarrow> P x) \<Longrightarrow> \<not> P y \<Longrightarrow> dropWhile P (xs @ y # ys) = y # ys"
  by (induction xs) auto

lemma map_filter_concat:
  "concat (map f (filter P xs)) = concat (map (\<lambda>x. if P x then f x else []) xs)"
  by (induction xs) auto

section \<open>Maps\<close>

lemma map_upd_cancel: "m k = Some v \<Longrightarrow> (m(k := w))(k := Some v) = m"
  by (rule ext) auto

lemma map_upd_cancel_None: "m k = None \<Longrightarrow> (m(k := w))(k := None) = m"
  by (rule ext) auto

end
