(* ===== verification/GoStd.thy ===== *)
theory GoStd
  imports Prelude "HOL-Library.Char_ord"
begin

text \<open>
  What the code uses of Go's standard library: package \<open>strings\<close> (\<open>HasPrefix\<close>,
  \<open>TrimSpace\<close>, \<open>Index\<close>, \<open>Split\<close>, \<open>ReplaceAll\<close>, \<open>ToLower\<close>, \<open>EqualFold\<close>),
  package \<open>strconv\<close> (\<open>ParseUint\<close>, \<open>Atoi\<close>, \<open>FormatUint\<close>) and package
  \<open>encoding/binary\<close>.
  A Go string is a sequence of bytes, so it is a \<open>char list\<close> here. The functions that
  fold case or look for white space are given on the ASCII range, which is where every
  keyword, path prefix and number of this program lies; a byte above 127 is left as it is.
\<close>

section \<open>Characters\<close>

definition is_upper :: "char \<Rightarrow> bool" where
  "is_upper c \<longleftrightarrow> 65 \<le> (of_char c :: nat) \<and> (of_char c :: nat) \<le> 90"

definition lower_char :: "char \<Rightarrow> char" where
  "lower_char c = (if is_upper c then char_of ((of_char c :: nat) + 32) else c)"

definition is_space :: "char \<Rightarrow> bool" where
  "is_space c \<longleftrightarrow> c = CHR '' '' \<or> 9 \<le> (of_char c :: nat) \<and> (of_char c :: nat) \<le> 13"

definition is_digit :: "char \<Rightarrow> bool" where
  "is_digit c \<longleftrightarrow> 48 \<le> (of_char c :: nat) \<and> (of_char c :: nat) \<le> 57"

definition digit_val :: "char \<Rightarrow> nat" where
  "digit_val c = of_char c - 48"

definition newline :: char where
  "newline = CHR 0x0A"

definition carriage_return :: char where
  "carriage_return = CHR 0x0D"

definition tab_char :: char where
  "tab_char = CHR 0x09"

section \<open>Package strings\<close>

definition to_lower :: "string \<Rightarrow> string" where
  "to_lower s = map lower_char s"

definition equal_fold :: "string \<Rightarrow> string \<Rightarrow> bool" where
  "equal_fold a b \<longleftrightarrow> to_lower a = to_lower b"

definition has_prefix :: "string \<Rightarrow> string \<Rightarrow> bool" where
  "has_prefix s p \<longleftrightarrow> take (length p) s = p"

definition has_suffix :: "string \<Rightarrow> string \<Rightarrow> bool" where
  "has_suffix s p \<longleftrightarrow> length p \<le> length s \<and> drop (length s - length p) s = p"

definition trim_prefix :: "string \<Rightarrow> string \<Rightarrow> string" where
  "trim_prefix s p = (if has_prefix s p then drop (length p) s else s)"

definition trim_suffix :: "string \<Rightarrow> string \<Rightarrow> string" where
  "trim_suffix s p = (if has_suffix s p then take (length s - length p) s else s)"

definition trim_left :: "(char \<Rightarrow> bool) \<Rightarrow> string \<Rightarrow> string" where
  "trim_left p s = dropWhile p s"

definition trim_right :: "(char \<Rightarrow> bool) \<Rightarrow> string \<Rightarrow> string" where
  "trim_right p s = rev (dropWhile p (rev s))"

definition trim_space :: "string \<Rightarrow> string" where
  "trim_space s = trim_right is_space (trim_left is_space s)"

fun index_byte :: "string \<Rightarrow> char \<Rightarrow> nat option" where
  "index_byte [] c = None"
| "index_byte (x # xs) c = (if x = c then Some 0 else map_option Suc (index_byte xs c))"

fun index_sub :: "string \<Rightarrow> string \<Rightarrow> nat option" where
  "index_sub [] p = (if p = [] then Some 0 else None)"
| "index_sub (x # xs) p =
     (if has_prefix (x # xs) p then Some 0 else map_option Suc (index_sub xs p))"

definition contains :: "string \<Rightarrow> string \<Rightarrow> bool" where
  "contains s p \<longleftrightarrow> index_sub s p \<noteq> None"

fun split_on :: "char \<Rightarrow> string \<Rightarrow> string list" where
  "split_on c [] = [[]]"
| "split_on c (x # xs) =
     (if x = c then [] # split_on c xs
      else (case split_on c xs of [] \<Rightarrow> [[x]] | y # ys \<Rightarrow> (x # y) # ys))"

fun join_with :: "string \<Rightarrow> string list \<Rightarrow> string" where
  "join_with sep [] = []"
| "join_with sep [x] = x"
| "join_with sep (x # y # ys) = x @ sep @ join_with sep (y # ys)"

text \<open>\<open>strings.ReplaceAll\<close> of one byte by one byte, and of \<open>"\r\n"\<close> by \<open>"\n"\<close>.\<close>

definition replace_char :: "char \<Rightarrow> char \<Rightarrow> string \<Rightarrow> string" where
  "replace_char a b s = map (\<lambda>c. if c = a then b else c) s"

fun crlf_to_lf :: "string \<Rightarrow> string" where
  "crlf_to_lf [] = []"
| "crlf_to_lf [c] = [c]"
| "crlf_to_lf (c # d # s) =
     (if c = carriage_return \<and> d = newline then newline # crlf_to_lf s
      else c # crlf_to_lf (d # s))"

text \<open>\<open>strings.LastIndexAny\<close> for a predicate on bytes.\<close>

fun last_index :: "(char \<Rightarrow> bool) \<Rightarrow> string \<Rightarrow> nat option" where
  "last_index p [] = None"
| "last_index p (x # xs) =
     (case last_index p xs of Some i \<Rightarrow> Some (Suc i)
      | None \<Rightarrow> if p x then Some 0 else None)"

text \<open>\<open>strings.Fields\<close>: the maximal runs of bytes that are not white space.\<close>

function fields :: "string \<Rightarrow> string list" where
  "fields s =
     (let t = dropWhile is_space s
      in if t = [] then []
         else takeWhile (\<lambda>c. \<not> is_space c) t # fields (dropWhile (\<lambda>c. \<not> is_space c) t))"
  by pat_completeness auto
termination
proof (relation "measure length")
  fix s t assume t: "t = dropWhile is_space s" and ne: "\<not> t = []"
  obtain x xs where x: "t = x # xs" using ne by (cases t) blast+
  have "\<not> is_space (hd t)" using t ne by (simp add: hd_dropWhile)
  then have "\<not> is_space x" using x by simp
  then have "dropWhile (\<lambda>c. \<not> is_space c) t = dropWhile (\<lambda>c. \<not> is_space c) xs"
    using x by simp
  then have "length (dropWhile (\<lambda>c. \<not> is_space c) t) \<le> length xs"
    by (simp add: length_dropWhile_le)
  also have "length xs < length t" using x by simp
  also have "length t \<le> length s" using t by (simp add: length_dropWhile_le)
  finally show "(dropWhile (\<lambda>c. \<not> is_space c) t, s) \<in> measure length" by simp
qed simp

declare fields.simps [simp del]

section \<open>Package strconv\<close>

fun digits10 :: "nat \<Rightarrow> string" where
  "digits10 n =
     (if n < 10 then [char_of (48 + n)] else digits10 (n div 10) @ [char_of (48 + n mod 10)])"

declare digits10.simps [simp del]

definition format_uint :: "nat \<Rightarrow> string" where
  "format_uint n = digits10 n"

definition digits_val :: "string \<Rightarrow> nat" where
  "digits_val s = foldl (\<lambda>n c. n * 10 + digit_val c) 0 s"

text \<open>\<open>strconv.ParseUint(s, 10, bits)\<close>: digits only, and in range.\<close>

definition parse_uint :: "nat \<Rightarrow> string \<Rightarrow> nat option" where
  "parse_uint bits s =
     (if s \<noteq> [] \<and> list_all is_digit s \<and> digits_val s < 2 ^ bits
      then Some (digits_val s) else None)"

text \<open>\<open>strconv.Atoi\<close> on a 64-bit platform: an optional sign, then digits, in range.\<close>

definition atoi :: "string \<Rightarrow> int option" where
  "atoi s =
     (let neg = (s \<noteq> [] \<and> hd s = CHR ''-'');
          body = (if s \<noteq> [] \<and> (hd s = CHR ''-'' \<or> hd s = CHR ''+'') then tl s else s)
      in if body = [] \<or> \<not> list_all is_digit body then None
         else if neg
              then (if digits_val body \<le> 2 ^ 63 then Some (- int (digits_val body)) else None)
              else (if digits_val body < 2 ^ 63 then Some (int (digits_val body)) else None))"

section \<open>Package encoding/binary\<close>

definition put_u32_be :: "u32 \<Rightarrow> bytes" where
  "put_u32_be v =
     [ucast (drop_bit 24 v), ucast (drop_bit 16 v), ucast (drop_bit 8 v), ucast v]"

definition get_u32_be :: "bytes \<Rightarrow> u32" where
  "get_u32_be b =
     ucast (b ! 3) OR push_bit 8 (ucast (b ! 2)) OR push_bit 16 (ucast (b ! 1))
       OR push_bit 24 (ucast (b ! 0))"

text \<open>Little endian: the value of a run of bytes, least significant first.\<close>

fun le_val :: "bytes \<Rightarrow> nat" where
  "le_val [] = 0"
| "le_val (b # bs) = unat b + 256 * le_val bs"

definition u16_le :: "bytes \<Rightarrow> nat \<Rightarrow> u16" where
  "u16_le b off = of_nat (le_val (take 2 (drop off b)))"

definition u32_le :: "bytes \<Rightarrow> nat \<Rightarrow> u32" where
  "u32_le b off = of_nat (le_val (take 4 (drop off b)))"

definition u64_le :: "bytes \<Rightarrow> nat \<Rightarrow> u64" where
  "u64_le b off = of_nat (le_val (take 8 (drop off b)))"

fun le_bytes :: "nat \<Rightarrow> nat \<Rightarrow> bytes" where
  "le_bytes 0 v = []"
| "le_bytes (Suc n) v = of_nat (v mod 256) # le_bytes n (v div 256)"


section \<open>Facts about strings\<close>

lemma lower_char_idem [simp]: "lower_char (lower_char c) = lower_char c"
  by (cases "is_upper c") (auto simp: lower_char_def is_upper_def of_char_of)

lemma to_lower_idem [simp]: "to_lower (to_lower s) = to_lower s"
  by (simp add: to_lower_def)

lemma to_lower_append [simp]: "to_lower (a @ b) = to_lower a @ to_lower b"
  by (simp add: to_lower_def)

lemma to_lower_Nil [simp]: "to_lower [] = []"
  by (simp add: to_lower_def)

lemma to_lower_Cons [simp]: "to_lower (c # s) = lower_char c # to_lower s"
  by (simp add: to_lower_def)

lemma length_to_lower [simp]: "length (to_lower s) = length s"
  by (simp add: to_lower_def)

lemma equal_fold_refl [simp]: "equal_fold a a"
  by (simp add: equal_fold_def)

lemma equal_fold_sym: "equal_fold a b \<Longrightarrow> equal_fold b a"
  by (simp add: equal_fold_def)

lemma equal_fold_trans: "equal_fold a b \<Longrightarrow> equal_fold b c \<Longrightarrow> equal_fold a c"
  by (simp add: equal_fold_def)

lemma has_prefix_iff: "has_prefix s p \<longleftrightarrow> (\<exists>t. s = p @ t)"
  by (metis append_eq_conv_conj has_prefix_def append_take_drop_id)

lemma has_prefix_append [simp]: "has_prefix (p @ s) p"
  by (auto simp: has_prefix_iff)

lemma has_prefix_Nil [simp]: "has_prefix s []"
  by (simp add: has_prefix_def)

lemma has_suffix_iff: "has_suffix s p \<longleftrightarrow> (\<exists>t. s = t @ p)"
proof
  assume "has_suffix s p"
  then have "s = take (length s - length p) s @ p"
    unfolding has_suffix_def by (metis append_take_drop_id)
  then show "\<exists>t. s = t @ p" by blast
qed (auto simp: has_suffix_def)

lemma has_suffix_append [simp]: "has_suffix (s @ p) p"
  by (auto simp: has_suffix_iff)

lemma trim_prefix_append [simp]: "trim_prefix (p @ s) p = s"
  by (simp add: trim_prefix_def)

lemma trim_suffix_append [simp]: "trim_suffix (s @ p) p = s"
  by (simp add: trim_suffix_def)

lemma replace_char_idem: "b \<noteq> a \<Longrightarrow> replace_char a b (replace_char a b s) = replace_char a b s"
  by (simp add: replace_char_def)

lemma trim_right_id: "s = [] \<or> \<not> p (last s) \<Longrightarrow> trim_right p s = s"
  by (cases s rule: rev_cases) (auto simp: trim_right_def)

lemma trim_right_append_stop:
  "(\<And>c. c \<in> set t \<Longrightarrow> p c) \<Longrightarrow> s = [] \<or> \<not> p (last s) \<Longrightarrow> trim_right p (s @ t) = s"
proof (induction t rule: rev_induct)
  case Nil
  then show ?case by (simp add: trim_right_id)
next
  case (snoc c t)
  then have "trim_right p ((s @ t) @ [c]) = trim_right p (s @ t)"
    by (simp add: trim_right_def)
  with snoc show ?case by simp
qed

lemma trim_space_id:
  "s = [] \<or> \<not> is_space (hd s) \<and> \<not> is_space (last s) \<Longrightarrow> trim_space s = s"
  by (auto simp: trim_space_def trim_left_def dropWhile_none trim_right_id)

lemma trim_space_Nil [simp]: "trim_space [] = []"
  by (simp add: trim_space_def trim_left_def trim_right_def)

lemma trim_space_lead:
  "(\<And>c. c \<in> set l \<Longrightarrow> is_space c) \<Longrightarrow> trim_space (l @ s) = trim_space s"
  by (induction l) (auto simp: trim_space_def trim_left_def)

lemma trim_right_last: "trim_right p s = [] \<or> \<not> p (last (trim_right p s))"
proof -
  have "dropWhile p (rev s) = [] \<or> \<not> p (hd (dropWhile p (rev s)))"
    using hd_dropWhile by blast
  then show ?thesis by (auto simp: trim_right_def last_rev)
qed

lemma index_byte_None: "index_byte s c = None \<longleftrightarrow> c \<notin> set s"
  by (induction s) auto

lemma index_byte_append_stop: "c \<notin> set a \<Longrightarrow> index_byte (a @ c # b) c = Some (length a)"
  by (induction a) auto

lemma index_byte_Some:
  "index_byte s c = Some i \<Longrightarrow> i < length s \<and> s ! i = c \<and> c \<notin> set (take i s)"
proof (induction s arbitrary: i)
  case (Cons x xs)
  then show ?case
    by (auto split: if_splits simp: less_Suc_eq_0_disj)
qed simp

lemma index_byte_split: "index_byte s c = Some i \<Longrightarrow> s = take i s @ c # drop (Suc i) s"
  by (metis Cons_nth_drop_Suc append_take_drop_id index_byte_Some)

lemma last_index_None: "last_index p s = None \<longleftrightarrow> (\<forall>c \<in> set s. \<not> p c)"
  by (induction s) (auto split: option.splits)

lemma last_index_append_stop:
  "p c \<Longrightarrow> (\<And>d. d \<in> set b \<Longrightarrow> \<not> p d) \<Longrightarrow> last_index p (a @ c # b) = Some (length a)"
  by (induction a) (auto split: option.splits simp: last_index_None)

lemma last_index_Some:
  "last_index p s = Some i \<Longrightarrow> i < length s \<and> p (s ! i) \<and> (\<forall>c \<in> set (drop (Suc i) s). \<not> p c)"
proof (induction s arbitrary: i)
  case (Cons x xs)
  then show ?case
    by (auto split: option.splits if_splits simp: last_index_None)
qed simp

lemma split_on_nonempty [simp]: "split_on c s \<noteq> []"
  by (induction s) (auto split: list.splits)

lemma split_on_no_sep: "c \<notin> set s \<Longrightarrow> split_on c s = [s]"
  by (induction s) auto

lemma split_on_append: "c \<notin> set a \<Longrightarrow> split_on c (a @ c # b) = a # split_on c b"
  by (induction a) auto

lemma split_on_join:
  "xs \<noteq> [] \<Longrightarrow> (\<And>x. x \<in> set xs \<Longrightarrow> c \<notin> set x) \<Longrightarrow> split_on c (join_with [c] xs) = xs"
  by (induction "[c]" xs rule: join_with.induct) (auto simp: split_on_no_sep split_on_append)

lemma crlf_to_lf_id: "carriage_return \<notin> set s \<Longrightarrow> crlf_to_lf s = s"
  by (induction s rule: crlf_to_lf.induct) auto

section \<open>Facts about numbers\<close>

lemma is_digit_of: "d < 10 \<Longrightarrow> is_digit (char_of (48 + d :: nat))"
  by (simp add: is_digit_def of_char_of)

lemma digit_val_of: "d < 10 \<Longrightarrow> digit_val (char_of (48 + d :: nat)) = d"
  by (simp add: digit_val_def of_char_of)

lemma digits10_all: "list_all is_digit (digits10 n)"
proof (induction n rule: digits10.induct)
  case (1 n)
  show ?case
    using 1 by (subst digits10.simps) (auto simp: is_digit_of)
qed

lemma digits10_nonempty [simp]: "digits10 n \<noteq> []"
  by (subst digits10.simps) simp

lemma digits_val_snoc: "digits_val (s @ [c]) = digits_val s * 10 + digit_val c"
  by (simp add: digits_val_def)

lemma digits_val_digits10: "digits_val (digits10 n) = n"
proof (induction n rule: digits10.induct)
  case (1 n)
  show ?case
  proof (cases "n < 10")
    case True
    then show ?thesis
      by (subst digits10.simps) (simp add: digits_val_def digit_val_of)
  next
    case False
    with 1 show ?thesis
      by (subst digits10.simps) (simp add: digits_val_snoc digit_val_of)
  qed
qed

lemma parse_format_uint: "n < 2 ^ bits \<Longrightarrow> parse_uint bits (format_uint n) = Some n"
  by (simp add: parse_uint_def format_uint_def digits10_all digits_val_digits10)

lemma digit_not_sign: "is_digit c \<Longrightarrow> c \<noteq> CHR ''-'' \<and> c \<noteq> CHR ''+''"
  by (auto simp: is_digit_def)

lemma digit_not_space: "is_digit c \<Longrightarrow> \<not> is_space c"
  by (auto simp: is_digit_def is_space_def)

lemma format_uint_not_space: "c \<in> set (format_uint n) \<Longrightarrow> \<not> is_space c"
  using digits10_all [of n] digit_not_space by (auto simp: format_uint_def list_all_iff)

lemma format_uint_nonempty [simp]: "format_uint n \<noteq> []"
  by (simp add: format_uint_def)

lemma trim_space_format_uint [simp]: "trim_space (format_uint n) = format_uint n"
  by (rule trim_space_id) (metis format_uint_nonempty format_uint_not_space hd_in_set last_in_set)

lemma atoi_format_uint: "n < 2 ^ 63 \<Longrightarrow> atoi (format_uint n) = Some (int n)"
proof -
  assume n: "n < 2 ^ 63"
  have "is_digit (hd (format_uint n))"
    using digits10_all [of n] by (cases "digits10 n") (auto simp: format_uint_def)
  then have "hd (format_uint n) \<noteq> CHR ''-'' \<and> hd (format_uint n) \<noteq> CHR ''+''"
    by (rule digit_not_sign)
  with n show ?thesis
    by (simp add: atoi_def Let_def) (simp add: format_uint_def digits10_all digits_val_digits10)
qed

lemma get_put_u32_be: "get_u32_be (put_u32_be v @ r) = v"
  unfolding get_u32_be_def put_u32_be_def
proof (simp, rule bit_eqI)
  fix n :: nat
  assume "possible_bit TYPE(32 word) n"
  then have n: "n < 32" by simp
  consider "n < 8" | "8 \<le> n" "n < 16" | "16 \<le> n" "n < 24" | "24 \<le> n" by linarith
  then show "bit ((ucast (ucast v :: u8) :: u32) OR push_bit 8 (ucast (ucast (drop_bit 8 v) :: u8))
      OR push_bit 16 (ucast (ucast (drop_bit 16 v) :: u8))
      OR push_bit 24 (ucast (ucast (drop_bit 24 v) :: u8))) n = bit v n"
    using n by cases (simp_all add: bit_simps, linarith+)
qed

lemma length_put_u32_be [simp]: "length (put_u32_be v) = 4"
  by (simp add: put_u32_be_def)

lemma put_get_u32_be: "length b = 4 \<Longrightarrow> put_u32_be (get_u32_be b) = b"
proof -
  assume "length b = 4"
  then obtain p q r s where b: "b = [p, q, r, s]" by (auto simp: length_4_conv)
  show ?thesis
    unfolding get_u32_be_def put_u32_be_def b
    by (simp; intro conjI; rule bit_eqI) (auto simp: bit_simps dest: bit_imp_le_length)
qed

lemma le_val_bound: "le_val bs < 256 ^ length bs"
proof (induction bs)
  case (Cons b bs)
  have "unat b < 256" using unsigned_less [of b] by simp
  moreover have "256 * (le_val bs + 1) \<le> 256 * 256 ^ length bs" using Cons by simp
  ultimately show ?case by simp
qed simp

lemma length_le_bytes [simp]: "length (le_bytes n v) = n"
  by (induction n arbitrary: v) auto

lemma le_val_le_bytes: "le_val (le_bytes n v) = v mod 256 ^ n"
proof (induction n arbitrary: v)
  case (Suc n)
  have "unat (of_nat (v mod 256) :: u8) = v mod 256"
    by (simp add: unat_of_nat)
  with Suc show ?case
    by (simp add: mod_mult2_eq)
qed simp

end
