(* ===== verification/Proto.thy ===== *)
theory Proto
  imports GoStd
begin

text \<open>
  \<open>internal/agent/proto/proto.go\<close>: the wire format between the Windows daemon and the
  guest agent. A connection is the sequence of bytes that arrive on it; a read takes bytes
  from its front. The JSON payloads of the handshake and of OPEN go through
  \<open>encoding/json\<close>, which is an argument of the definitions that use it.
\<close>

section \<open>Constants and data\<close>

definition proto_version :: int where "proto_version = 1"

definition proto_magic :: string where "proto_magic = ''wslkit-agent''"

definition max_payload :: nat where "max_payload = 64 * 1024"

definition header_size :: nat where "header_size = 10"

abbreviation type_hello :: u8 where "type_hello \<equiv> 1"
abbreviation type_open :: u8 where "type_open \<equiv> 2"
abbreviation type_open_ok :: u8 where "type_open_ok \<equiv> 3"
abbreviation type_open_err :: u8 where "type_open_err \<equiv> 4"
abbreviation type_data :: u8 where "type_data \<equiv> 5"
abbreviation type_close :: u8 where "type_close \<equiv> 6"
abbreviation type_ping :: u8 where "type_ping \<equiv> 7"
abbreviation type_pong :: u8 where "type_pong \<equiv> 8"

abbreviation flag_close_write :: u8 where "flag_close_write \<equiv> 1"

definition role_host :: string where "role_host = ''host''"

definition role_guest :: string where "role_guest = ''guest''"

record frame =
  f_type :: u8
  f_flags :: u8
  f_stream :: u32
  f_payload :: bytes

record hello =
  h_magic :: string
  h_version :: int
  h_role :: string
  h_name :: string
  h_agent_version :: string
  h_caps :: "string list"

record open_msg =
  o_target :: string
  o_meta :: "(string \<times> string) list"

datatype proto_error =
    EOF
  | UnexpectedEOF
  | FrameTooLarge
  | NotHello u8
  | BadJSON
  | BadMagic
  | VersionMismatch int
  | UnknownRole string
  | OpenWithoutTarget

section \<open>Frames\<close>

text \<open>\<open>WriteFrame\<close>: the buffer it hands to the connection in one call.\<close>

definition write_frame :: "frame \<Rightarrow> proto_error + bytes" where
  "write_frame f =
     (if length (f_payload f) > max_payload then Inl FrameTooLarge
      else Inr ([f_type f, f_flags f] @ put_u32_be (f_stream f)
                 @ put_u32_be (of_nat (length (f_payload f))) @ f_payload f))"

text \<open>\<open>io.ReadFull\<close>: all of the bytes asked for, or an error.\<close>

definition read_full :: "nat \<Rightarrow> bytes \<Rightarrow> proto_error + bytes \<times> bytes" where
  "read_full n s =
     (if n \<le> length s then Inr (take n s, drop n s)
      else if s = [] then Inl EOF else Inl UnexpectedEOF)"

definition read_frame :: "bytes \<Rightarrow> proto_error + frame \<times> bytes" where
  "read_frame s =
     (case read_full header_size s of
        Inl e \<Rightarrow> Inl e
      | Inr (hdr, rest) \<Rightarrow>
          (let n = get_u32_be (take 4 (drop 6 hdr))
           in if unat n > max_payload then Inl FrameTooLarge
              else (let f = \<lparr>f_type = hdr ! 0, f_flags = hdr ! 1,
                             f_stream = get_u32_be (take 4 (drop 2 hdr)), f_payload = []\<rparr>
                    in if unat n > 0
                       then (case read_full (unat n) rest of
                               Inl e \<Rightarrow> Inl e
                             | Inr (p, rest') \<Rightarrow> Inr (f\<lparr>f_payload := p\<rparr>, rest'))
                       else Inr (f, rest))))"

section \<open>Handshake and open messages\<close>

definition encode_hello :: "(hello \<Rightarrow> bytes) \<Rightarrow> hello \<Rightarrow> frame" where
  "encode_hello marshal h =
     \<lparr>f_type = type_hello, f_flags = 0, f_stream = 0,
      f_payload = marshal (h\<lparr>h_magic := proto_magic, h_version := proto_version\<rparr>)\<rparr>"

definition decode_hello :: "(bytes \<Rightarrow> hello option) \<Rightarrow> frame \<Rightarrow> proto_error + hello" where
  "decode_hello unmarshal f =
     (if f_type f \<noteq> type_hello then Inl (NotHello (f_type f))
      else case unmarshal (f_payload f) of
             None \<Rightarrow> Inl BadJSON
           | Some h \<Rightarrow>
               if h_magic h \<noteq> proto_magic then Inl BadMagic
               else if h_version h \<noteq> proto_version then Inl (VersionMismatch (h_version h))
               else if h_role h \<noteq> role_host \<and> h_role h \<noteq> role_guest
                    then Inl (UnknownRole (h_role h))
               else Inr h)"

definition encode_open :: "(open_msg \<Rightarrow> bytes) \<Rightarrow> u32 \<Rightarrow> open_msg \<Rightarrow> frame" where
  "encode_open marshal i m =
     \<lparr>f_type = type_open, f_flags = 0, f_stream = i, f_payload = marshal m\<rparr>"

definition decode_open :: "(bytes \<Rightarrow> open_msg option) \<Rightarrow> frame \<Rightarrow> proto_error + open_msg" where
  "decode_open unmarshal f =
     (case unmarshal (f_payload f) of
        None \<Rightarrow> Inl BadJSON
      | Some m \<Rightarrow> if o_target m = [] then Inl OpenWithoutTarget else Inr m)"

definition encode_open_err :: "(string \<Rightarrow> bytes) \<Rightarrow> u32 \<Rightarrow> string \<Rightarrow> frame" where
  "encode_open_err marshal i msg =
     \<lparr>f_type = type_open_err, f_flags = 0, f_stream = i, f_payload = marshal msg\<rparr>"

section \<open>Reading a connection to its end\<close>

text \<open>
  What a reader that calls \<open>ReadFrame\<close> until it fails sees, as the session's read loop
  does: the frames, and the error that ended it.
\<close>

lemma read_full_rest:
  "read_full n s = Inr (a, r) \<longleftrightarrow> n \<le> length s \<and> a = take n s \<and> r = drop n s"
  by (auto simp: read_full_def)

lemma read_frame_shorter: "read_frame s = Inr (f, r) \<Longrightarrow> length r < length s"
  by (auto simp: read_frame_def Let_def read_full_rest header_size_def
      split: sum.splits prod.splits if_splits)

function read_frames :: "bytes \<Rightarrow> frame list \<times> proto_error" where
  "read_frames s =
     (case read_frame s of
        Inl e \<Rightarrow> ([], e)
      | Inr (f, r) \<Rightarrow> (let (fs, e) = read_frames r in (f # fs, e)))"
  by pat_completeness auto
termination
  by (relation "measure length") (auto dest: read_frame_shorter)

declare read_frames.simps [simp del]

section \<open>Facts\<close>

definition frame_ok :: "frame \<Rightarrow> bool" where
  "frame_ok f \<longleftrightarrow> length (f_payload f) \<le> max_payload"

definition frame_bytes :: "frame \<Rightarrow> bytes" where
  "frame_bytes f = [f_type f, f_flags f] @ put_u32_be (f_stream f)
     @ put_u32_be (of_nat (length (f_payload f))) @ f_payload f"

lemma write_frame_ok: "frame_ok f \<Longrightarrow> write_frame f = Inr (frame_bytes f)"
  by (simp add: write_frame_def frame_ok_def frame_bytes_def)

lemma write_frame_Inr: "write_frame f = Inr b \<longleftrightarrow> frame_ok f \<and> b = frame_bytes f"
  by (auto simp: write_frame_def frame_ok_def frame_bytes_def)

lemma length_frame_bytes [simp]:
  "length (frame_bytes f) = header_size + length (f_payload f)"
  by (simp add: frame_bytes_def header_size_def)

lemma frame_bytes_nonempty [simp]: "frame_bytes f \<noteq> []"
  by (simp add: frame_bytes_def)

lemma unat_len_payload:
  "n \<le> max_payload \<Longrightarrow> unat (of_nat n :: u32) = n"
  by (simp add: unat_of_nat max_payload_def)

definition header_len :: "bytes \<Rightarrow> nat" where
  "header_len s = unat (get_u32_be (take 4 (drop 6 s)))"

lemma read_frame_short_header:
  "length s < 10 \<Longrightarrow> read_frame s = Inl (if s = [] then EOF else UnexpectedEOF)"
  by (simp add: read_frame_def read_full_def header_size_def)

lemma read_frame_unfold:
  assumes "10 \<le> length s"
  shows "read_frame s =
     (if header_len s > max_payload then Inl FrameTooLarge
      else if header_len s \<le> length s - 10
      then Inr (\<lparr>f_type = s ! 0, f_flags = s ! 1, f_stream = get_u32_be (take 4 (drop 2 s)),
                 f_payload = take (header_len s) (drop 10 s)\<rparr>, drop (10 + header_len s) s)
      else Inl (if length s = 10 then EOF else UnexpectedEOF))"
proof -
  have "take 4 (drop 6 (take 10 s)) = take 4 (drop 6 s)"
    and "take 4 (drop 2 (take 10 s)) = take 4 (drop 2 s)"
    by (simp_all add: drop_take)
  then show ?thesis
    using assms
    by (simp add: read_frame_def read_full_def header_size_def header_len_def Let_def add.commute)
qed

lemma ten_bytes:
  assumes "10 \<le> length s"
  shows "s = [s ! 0, s ! 1] @ take 4 (drop 2 s) @ take 4 (drop 6 s) @ drop 10 s"
  using assms by (auto simp: numeral_eq_Suc Suc_le_length_iff)

lemma frame_bytes_head:
  "frame_bytes f @ r = [f_type f, f_flags f] @ put_u32_be (f_stream f)
     @ put_u32_be (of_nat (length (f_payload f))) @ (f_payload f @ r)"
  by (simp add: frame_bytes_def)

lemma frame_bytes_parts:
  "(frame_bytes f @ r) ! 0 = f_type f" "(frame_bytes f @ r) ! 1 = f_flags f"
  "take 4 (drop 2 (frame_bytes f @ r)) = put_u32_be (f_stream f)"
  "take 4 (drop 6 (frame_bytes f @ r)) = put_u32_be (of_nat (length (f_payload f)))"
  "drop 10 (frame_bytes f @ r) = f_payload f @ r"
  unfolding frame_bytes_head by (simp_all add: put_u32_be_def)

lemma header_len_frame_bytes:
  "frame_ok f \<Longrightarrow> header_len (frame_bytes f @ r) = length (f_payload f)"
  using get_put_u32_be [of _ "[]"]
  by (simp only: header_len_def frame_bytes_parts) (simp add: frame_ok_def unat_len_payload)

lemma read_frame_bytes:
  assumes ok: "frame_ok f"
  shows "read_frame (frame_bytes f @ r) = Inr (f, r)"
proof -
  have "drop (10 + length (f_payload f)) (frame_bytes f @ r) = r"
    by (simp add: header_size_def)
  moreover have "get_u32_be (put_u32_be (f_stream f)) = f_stream f"
    using get_put_u32_be [of _ "[]"] by simp
  moreover have "10 \<le> length (frame_bytes f @ r)" by (simp add: header_size_def)
  moreover have "length (f_payload f) \<le> max_payload" using ok by (simp add: frame_ok_def)
  ultimately show ?thesis
    by (simp only: read_frame_unfold header_len_frame_bytes [OF ok] frame_bytes_parts)
      (simp add: header_size_def)
qed

lemma read_frame_Inr:
  assumes "read_frame s = Inr (f, r)"
  shows "frame_ok f \<and> s = frame_bytes f @ r"
proof -
  have long: "10 \<le> length s"
    using assms read_frame_short_header [of s] by (cases "length s < 10") auto
  have le: "header_len s \<le> max_payload" "header_len s \<le> length s - 10"
    and f: "f = \<lparr>f_type = s ! 0, f_flags = s ! 1, f_stream = get_u32_be (take 4 (drop 2 s)),
                  f_payload = take (header_len s) (drop 10 s)\<rparr>"
    and r: "r = drop (header_len s) (drop 10 s)"
    using assms by (auto simp: read_frame_unfold [OF long] add.commute split: if_splits)
  have len: "length (f_payload f) = header_len s"
    using le by (simp add: f)
  have "put_u32_be (of_nat (header_len s)) = take 4 (drop 6 s)"
    using long by (simp add: header_len_def put_get_u32_be)
  moreover have "put_u32_be (f_stream f) = take 4 (drop 2 s)"
    using long by (simp add: f put_get_u32_be)
  moreover have "f_payload f @ r = drop 10 s"
    unfolding r by (simp only: f frame.select_convs append_take_drop_id)
  ultimately have "frame_bytes f @ r = s"
    using ten_bytes [OF long] unfolding frame_bytes_head len by (simp add: f)
  with le(1) len show ?thesis by (simp add: frame_ok_def)
qed

text \<open>Reading is the exact inverse of writing: what is read is what some writer wrote.\<close>

lemma read_frame_iff: "read_frame s = Inr (f, r) \<longleftrightarrow> frame_ok f \<and> s = frame_bytes f @ r"
  using read_frame_Inr read_frame_bytes by blast

text \<open>Nothing less than a whole frame is ever taken for one.\<close>

lemma read_frame_short:
  assumes ok: "frame_ok f" and s: "frame_bytes f = s @ t" and t: "t \<noteq> []"
  shows "read_frame s \<in> {Inl EOF, Inl UnexpectedEOF}"
proof (cases "length s < 10")
  case True
  then show ?thesis by (simp add: read_frame_short_header)
next
  case False
  have "take 4 (drop 6 s) = take 4 (drop 6 (frame_bytes f))"
    using s False by simp
  then have "header_len s = header_len (frame_bytes f)"
    by (simp add: header_len_def)
  also have "\<dots> = length (f_payload f)"
    using header_len_frame_bytes [OF ok, of "[]"] by simp
  finally have n: "header_len s = length (f_payload f)" .
  have "length s + length t = 10 + length (f_payload f)"
    using arg_cong [OF s, of length] by (simp add: header_size_def)
  then have "length s - 10 < length (f_payload f)" using t False by (cases t) auto
  then show ?thesis
    using False n ok by (simp add: read_frame_unfold frame_ok_def)
qed

section \<open>Streams of frames\<close>

lemma read_frames_Cons:
  "frame_ok f \<Longrightarrow> read_frames (frame_bytes f @ r) = (let (fs, e) = read_frames r in (f # fs, e))"
  by (subst read_frames.simps) (simp add: read_frame_bytes)

lemma read_frames_Nil [simp]: "read_frames [] = ([], EOF)"
  by (subst read_frames.simps) (simp add: read_frame_short_header)

lemma read_frames_short:
  "frame_ok f \<Longrightarrow> frame_bytes f = s @ t \<Longrightarrow> t \<noteq> [] \<Longrightarrow>
     \<exists>e \<in> {EOF, UnexpectedEOF}. read_frames s = ([], e)"
  using read_frame_short [of f s t] by (auto simp: read_frames.simps [of s])

text \<open>The number of whole frames in the first \<open>k\<close> bytes.\<close>

fun whole_frames :: "nat \<Rightarrow> frame list \<Rightarrow> nat" where
  "whole_frames k [] = 0"
| "whole_frames k (f # fs) =
     (if length (frame_bytes f) \<le> k then Suc (whole_frames (k - length (frame_bytes f)) fs) else 0)"

lemma read_frames_take:
  "list_all frame_ok fs \<Longrightarrow>
     \<exists>e \<in> {EOF, UnexpectedEOF}.
       read_frames (take k (concat (map frame_bytes fs))) = (take (whole_frames k fs) fs, e)"
proof (induction fs arbitrary: k)
  case (Cons f fs)
  let ?b = "frame_bytes f" and ?rest = "concat (map frame_bytes fs)"
  have ok: "frame_ok f" using Cons.prems by simp
  show ?case
  proof (cases "length ?b \<le> k")
    case True
    then have "take k (?b @ ?rest) = ?b @ take (k - length ?b) ?rest" by simp
    moreover obtain e where "e \<in> {EOF, UnexpectedEOF}"
      "read_frames (take (k - length ?b) ?rest) = (take (whole_frames (k - length ?b) fs) fs, e)"
      using Cons by auto
    ultimately show ?thesis
      using True read_frames_Cons [OF ok] by (auto simp del: length_frame_bytes take_append)
  next
    case False
    then have "take k (?b @ ?rest) = take k ?b" and "drop k ?b \<noteq> []" by simp_all
    moreover have "?b = take k ?b @ drop k ?b" by simp
    ultimately show ?thesis
      using read_frames_short [OF ok, of "take k ?b" "drop k ?b"] False
      by (auto simp del: length_frame_bytes take_append)
  qed
qed simp

lemma map_write_frame:
  "map write_frame fs = map Inr bs \<Longrightarrow> list_all frame_ok fs \<and> bs = map frame_bytes fs"
  by (induction fs arbitrary: bs) (auto simp: write_frame_Inr Cons_eq_map_conv)

section \<open>Properties\<close>

text \<open>C32: \<open>ReadFrame\<close> is the exact inverse of \<open>WriteFrame\<close>: it returns a frame and
  leaves a rest exactly when the bytes are what \<open>WriteFrame\<close> accepts to write for that
  frame, followed by that rest. So a frame is never misread, no frame above the payload
  bound is accepted, and there is one encoding of each frame.\<close>

theorem read_frame_inverts_write_frame:
  "read_frame s = Inr (f, r) \<longleftrightarrow> (\<exists>b. write_frame f = Inr b \<and> s = b @ r)"
  by (auto simp: read_frame_iff write_frame_Inr)

text \<open>However a connection that carries a sequence of written frames is cut, the reader sees a
  prefix of exactly those frames, the ones that arrived whole, and then an end-of-file error:
  a truncated frame is never delivered and no frame boundary is lost.\<close>

theorem read_frames_cut_stream:
  assumes "map write_frame fs = map Inr bs"
  shows "\<exists>n e. read_frames (take k (concat bs)) = (take n fs, e)
           \<and> e \<in> {EOF, UnexpectedEOF}
           \<and> length (concat (take n bs)) \<le> k
           \<and> (n < length fs \<longrightarrow> k < length (concat (take (Suc n) bs)))"
proof -
  have ok: "list_all frame_ok fs" and bs: "bs = map frame_bytes fs"
    using map_write_frame [OF assms] by simp_all
  have "length (concat (map frame_bytes (take (whole_frames k fs) fs))) \<le> k \<and>
        (whole_frames k fs < length fs \<longrightarrow>
          k < length (concat (map frame_bytes (take (Suc (whole_frames k fs)) fs))))"
    by (induction k fs rule: whole_frames.induct) (auto simp del: length_frame_bytes)
  then show ?thesis
    using read_frames_take [OF ok, of k] by (auto simp: bs take_map)
qed

theorem read_frames_cut_stream_witness:
  "\<exists>n e. read_frames (take 15 (concat [[5, 0, 0, 0, 0, 3, 0, 0, 0, 2, 7, 8],
       [6, 1, 0, 0, 0, 3, 0, 0, 0, 0]])) = (take n [\<lparr>f_type = 5, f_flags = 0, f_stream = 3,
         f_payload = [7, 8]\<rparr>, \<lparr>f_type = 6, f_flags = 1, f_stream = 3, f_payload = []\<rparr>], e)
     \<and> e \<in> {EOF, UnexpectedEOF} \<and> n = 1"
proof -
  let ?fs = "[\<lparr>f_type = 5, f_flags = 0, f_stream = 3, f_payload = [7, 8]\<rparr>,
      \<lparr>f_type = 6, f_flags = 1, f_stream = 3, f_payload = []\<rparr>]"
  let ?bs = "[[5, 0, 0, 0, 0, 3, 0, 0, 0, 2, 7, 8], [6, 1, 0, 0, 0, 3, 0, 0, 0, 0]] :: bytes list"
  have "map write_frame ?fs = map Inr ?bs"
    by (simp add: write_frame_def put_u32_be_def max_payload_def)
  from read_frames_cut_stream [OF this, of 15] obtain n e where
    *: "read_frames (take 15 (concat ?bs)) = (take n ?fs, e)" "e \<in> {EOF, UnexpectedEOF}"
      "length (concat (take n ?bs)) \<le> 15" "n < 2 \<longrightarrow> 15 < length (concat (take (Suc n) ?bs))"
    by auto
  have "n = 1"
  proof -
    consider "n = 0" | "n = 1" | "2 \<le> n" by linarith
    then show ?thesis using *(3,4) by cases (auto simp: take_Cons')
  qed
  with * show ?thesis by blast
qed

end
