(* ===== verification/Mux.thy ===== *)
theory Mux
  imports Proto
begin

text \<open>
  \<open>internal/agent/mux/mux.go\<close>: the session that multiplexes streams over one connection.
  The goroutines that share a \<open>Session\<close> are the read loop, any number of callers of
  \<open>Open\<close> and \<open>Accept\<close>, and the users of the streams. Each has a program point, and the
  step relation interleaves what they do between two synchronisation operations: a region
  under a mutex, a channel operation, a write to the connection. Streams and reply channels
  are shared objects, so they live in a heap and the maps hold their addresses. The two
  directions of \<open>Handshake\<close> run before the session exists and are a function.
\<close>

section \<open>Data\<close>

definition stream_buffer :: nat where "stream_buffer = 64"

definition max_pending_opens :: nat where "max_pending_opens = 1024"

datatype mux_error =
    ErrClosed
  | ErrStreamClosed
  | IoEOF
  | WriteFailed
  | CtxDone
  | OpenRefused bytes
  | ReadError proto_error
  | UnknownFrame u8

text \<open>
  A stream. \<open>st_in\<close> is the channel of chunks, in which the empty chunk is Go's \<open>nil\<close>, the
  end-of-file mark: \<open>ReadFrame\<close> gives a frame without payload the \<open>nil\<close> slice too.
  \<open>st_out\<close> is what a \<open>Write\<close> in progress has still to send. \<open>st_got\<close> (all bytes \<open>Read\<close>
  returned so far) and \<open>st_born\<close> (how many frames the read loop had dispatched when the
  stream was registered) are history variables: no operation depends on them.
\<close>

record stream =
  st_id :: u32
  st_target :: string
  st_in :: "bytes list"
  st_pending :: bytes
  st_eof :: bool
  st_closed :: bool
  st_err :: "mux_error option"
  st_wclosed :: bool
  st_out :: bytes
  st_got :: bytes
  st_born :: nat

text \<open>A channel of capacity one, for the answer to one \<open>Open\<close>.\<close>

record reply_chan =
  ch_content :: "frame option"
  ch_closed :: bool

record open_request =
  r_target :: string
  r_meta :: "(string \<times> string) list"
  r_id :: u32

text \<open>How far \<open>shutdown\<close> is: not called, connection closed, streams and channels swept,
  \<open>done\<close> closed.\<close>

datatype shut_phase = ShOpen | ShClosing | ShSwept | ShDone

datatype reader_pc =
    RIdle                       \<comment> \<open>in \<open>ReadFrame\<close>\<close>
  | RHand frame                 \<comment> \<open>at the switch, with the frame in hand\<close>
  | RAnswer frame               \<comment> \<open>about to write an answer\<close>
  | RSignal                     \<comment> \<open>in \<open>enqueue\<close>, about to wake an acceptor\<close>
  | RSend nat frame             \<comment> \<open>about to send the reply on a channel\<close>
  | RDeliver nat bytes          \<comment> \<open>in \<open>deliver\<close>\<close>
  | RFail nat u32               \<comment> \<open>about to fail the stream the peer closed\<close>
  | RRemove u32                 \<comment> \<open>about to remove it\<close>
  | RShut                       \<comment> \<open>in \<open>shutdown\<close>\<close>
  | RDone
  | RPanic

datatype opener_pc =
    OIdle
  | OSend u32 nat open_msg      \<comment> \<open>registered in \<open>pending\<close>, about to write OPEN\<close>
  | OWait u32 nat string        \<comment> \<open>in the select\<close>
  | OGot u32 string             \<comment> \<open>OPEN_OK received, about to register the stream\<close>
  | OStream nat
  | ODrop u32                   \<comment> \<open>the write failed, about to drop the entry\<close>
  | OCancel u32                 \<comment> \<open>the context ended, about to drop the entry\<close>
  | OClose u32                  \<comment> \<open>then about to write CLOSE\<close>
  | OErr mux_error

datatype acceptor_pc =
    AIdle
  | ATop                        \<comment> \<open>at the top of the loop, about to dequeue\<close>
  | AWait                       \<comment> \<open>in the select\<close>
  | ADrain                      \<comment> \<open>saw \<open>done\<close>, about to dequeue once more\<close>
  | AGot open_request
  | AAnswer open_request nat    \<comment> \<open>stream registered, about to write OPEN_OK\<close>
  | ARemove u32                 \<comment> \<open>the write failed, about to remove the stream\<close>
  | AStream nat
  | AErr mux_error

datatype closer_pc = CIdle | CRemoved | CWritten

record sess =
  s_odd :: bool
  s_next :: u32
  s_streams :: "u32 \<rightharpoonup> nat"
  s_pending :: "u32 \<rightharpoonup> nat"
  s_heap :: "nat \<Rightarrow> stream"
  s_fresh :: nat
  s_chans :: "nat \<Rightarrow> reply_chan"
  s_nchan :: nat
  s_queue :: "open_request list"
  s_signal :: bool
  s_phase :: shut_phase
  s_err :: "mux_error option"
  s_sent :: "frame list"
  s_reader :: reader_pc
  s_openers :: "nat \<Rightarrow> opener_pc"
  s_accs :: "nat \<Rightarrow> acceptor_pc"
  s_closers :: "nat \<Rightarrow> closer_pc"
  s_handled :: "frame list"     \<comment> \<open>history: the frames the read loop dispatched\<close>
  s_ids :: "u32 list"           \<comment> \<open>history: the ids \<open>Open\<close> took\<close>

section \<open>Handshake\<close>

datatype handshake_error =
    HandshakeTimeout
  | SendingHello
  | ReadingHello proto_error
  | BadHello proto_error
  | SameRole string

definition no_stream :: stream where
  "no_stream = \<lparr>st_id = 0, st_target = [], st_in = [], st_pending = [], st_eof = False,
     st_closed = False, st_err = None, st_wclosed = False, st_out = [], st_got = [], st_born = 0\<rparr>"

definition new_session :: "string \<Rightarrow> sess" where
  "new_session role =
     \<lparr>s_odd = (role = role_guest), s_next = (if role = role_guest then 1 else 2),
      s_streams = Map.empty, s_pending = Map.empty,
      s_heap = (\<lambda>_. no_stream), s_fresh = 0,
      s_chans = (\<lambda>_. \<lparr>ch_content = None, ch_closed = False\<rparr>), s_nchan = 0,
      s_queue = [], s_signal = False, s_phase = ShOpen, s_err = None, s_sent = [],
      s_reader = RIdle, s_openers = (\<lambda>_. OIdle), s_accs = (\<lambda>_. AIdle),
      s_closers = (\<lambda>_. CIdle), s_handled = [], s_ids = []\<rparr>"

text \<open>
  \<open>Handshake\<close>: what the two concurrent halves reported, if they did before the deadline.
  \<open>wrote\<close> says whether writing our HELLO succeeded; it is looked at first.
\<close>

definition handshake ::
  "(bytes \<Rightarrow> hello option) \<Rightarrow> hello \<Rightarrow> (bool \<times> (proto_error + frame)) option
     \<Rightarrow> handshake_error + hello \<times> sess"
where
  "handshake unmarshal ours halves =
     (case halves of
        None \<Rightarrow> Inl HandshakeTimeout
      | Some (wrote, got) \<Rightarrow>
          if \<not> wrote then Inl SendingHello
          else (case got of
                  Inl e \<Rightarrow> Inl (ReadingHello e)
                | Inr f \<Rightarrow>
                    (case decode_hello unmarshal f of
                       Inl e \<Rightarrow> Inl (BadHello e)
                     | Inr peer \<Rightarrow>
                         if h_role peer = h_role ours then Inl (SameRole (h_role ours))
                         else Inr (peer, new_session (h_role ours)))))"

section \<open>Streams\<close>

definition fail :: "mux_error \<Rightarrow> stream \<Rightarrow> stream" where
  "fail e st = (if st_closed st then st else st\<lparr>st_closed := True, st_err := Some e\<rparr>)"

text \<open>The two branches of \<open>deliver\<close>'s select: send when there is room, give up when closed.\<close>

definition deliver_send :: "bytes \<Rightarrow> stream \<Rightarrow> stream option" where
  "deliver_send b st =
     (if length (st_in st) < stream_buffer then Some (st\<lparr>st_in := st_in st @ [b]\<rparr>) else None)"

datatype read_outcome = Blocked | Got bytes | Failed mux_error

text \<open>
  \<open>Read\<close> into a buffer of \<open>n\<close> bytes. A stream has one reader, so what it does between two
  channel operations is one action; \<open>Blocked\<close> is the select with nothing ready.
\<close>

definition read_copy :: "nat \<Rightarrow> stream \<Rightarrow> read_outcome \<times> stream" where
  "read_copy n st =
     (Got (take n (st_pending st)),
      st\<lparr>st_got := st_got st @ take n (st_pending st), st_pending := drop n (st_pending st)\<rparr>)"

definition stream_read :: "nat \<Rightarrow> stream \<Rightarrow> read_outcome \<times> stream" where
  "stream_read n st =
     (if st_pending st \<noteq> [] then read_copy n st
      else if st_eof st then (Failed IoEOF, st)
      else (case st_in st of
              b # q \<Rightarrow>
                if b = [] then (Failed IoEOF, st\<lparr>st_in := q, st_eof := True\<rparr>)
                else read_copy n (st\<lparr>st_in := q, st_pending := b\<rparr>)
            | [] \<Rightarrow>
                if st_closed st
                then (Failed (case st_err st of Some e \<Rightarrow> e | None \<Rightarrow> ErrStreamClosed), st)
                else (Blocked, st)))"

definition data_frame :: "u32 \<Rightarrow> bytes \<Rightarrow> frame" where
  "data_frame i b = \<lparr>f_type = type_data, f_flags = 0, f_stream = i, f_payload = b\<rparr>"

definition close_frame :: "u8 \<Rightarrow> u32 \<Rightarrow> frame" where
  "close_frame fl i = \<lparr>f_type = type_close, f_flags = fl, f_stream = i, f_payload = []\<rparr>"

text \<open>
  The loop of \<open>Write\<close>, over the outcomes of the session's writes: the frames that went out,
  the number of bytes reported and whether it failed.
\<close>

function write_loop :: "u32 \<Rightarrow> bool list \<Rightarrow> bytes \<Rightarrow> nat \<Rightarrow> frame list \<times> nat \<times> bool" where
  "write_loop i oks p tot =
     (if p = [] then ([], tot, False)
      else (let n = (if length p > max_payload then max_payload else length p)
            in case oks of
                 True # oks' \<Rightarrow>
                   (let (fs, t, e) = write_loop i oks' (drop n p) (tot + n)
                    in (data_frame i (take n p) # fs, t, e))
               | _ \<Rightarrow> ([], tot, True)))"
  by pat_completeness auto
termination
  by (relation "measure (\<lambda>(i, oks, p, t). length p)") (auto simp: max_payload_def)

declare write_loop.simps [simp del]

definition stream_write :: "bool list \<Rightarrow> stream \<Rightarrow> bytes \<Rightarrow> frame list \<times> nat \<times> mux_error option" where
  "stream_write oks st p =
     (if st_wclosed st then ([], 0, Some ErrStreamClosed)
      else if st_closed st then ([], 0, Some ErrStreamClosed)
      else (case write_loop (st_id st) oks p 0 of
              (fs, n, e) \<Rightarrow> (fs, n, if e then Some WriteFailed else None)))"

section \<open>The session's atomic actions\<close>

definition new_stream :: "u32 \<Rightarrow> string \<Rightarrow> sess \<Rightarrow> nat \<times> sess" where
  "new_stream i target s =
     (s_fresh s,
      s\<lparr>s_heap := (s_heap s)(s_fresh s :=
           no_stream\<lparr>st_id := i, st_target := target, st_born := length (s_handled s)\<rparr>),
        s_fresh := Suc (s_fresh s),
        s_streams := (s_streams s)(i \<mapsto> s_fresh s)\<rparr>)"

definition remove_stream :: "u32 \<Rightarrow> sess \<Rightarrow> sess" where
  "remove_stream i s = s\<lparr>s_streams := (s_streams s)(i := None)\<rparr>"

definition lookup :: "u32 \<Rightarrow> sess \<Rightarrow> nat option" where
  "lookup i s = s_streams s i"

definition drop_pending :: "u32 \<Rightarrow> sess \<Rightarrow> sess" where
  "drop_pending i s = s\<lparr>s_pending := (s_pending s)(i := None)\<rparr>"

definition set_stream :: "nat \<Rightarrow> stream \<Rightarrow> sess \<Rightarrow> sess" where
  "set_stream r st s = s\<lparr>s_heap := (s_heap s)(r := st)\<rparr>"

definition fail_at :: "nat \<Rightarrow> mux_error \<Rightarrow> sess \<Rightarrow> sess" where
  "fail_at r e s = set_stream r (fail e (s_heap s r)) s"

text \<open>A write that succeeds; one that fails changes nothing. The connection must be open and
  \<open>WriteFrame\<close> must accept the frame.\<close>

definition sess_write :: "frame \<Rightarrow> sess \<Rightarrow> sess option" where
  "sess_write f s =
     (if s_phase s = ShOpen \<and> frame_ok f then Some (s\<lparr>s_sent := s_sent s @ [f]\<rparr>) else None)"

definition enqueue_req :: "open_request \<Rightarrow> sess \<Rightarrow> bool \<times> sess" where
  "enqueue_req r s =
     (if length (s_queue s) \<ge> max_pending_opens then (False, s)
      else (True, s\<lparr>s_queue := s_queue s @ [r]\<rparr>))"

definition dequeue :: "sess \<Rightarrow> open_request option \<times> sess" where
  "dequeue s =
     (case s_queue s of
        [] \<Rightarrow> (None, s)
      | r # q \<Rightarrow> (Some r, s\<lparr>s_queue := q, s_signal := (s_signal s \<or> q \<noteq> [])\<rparr>))"

text \<open>The first region of \<open>Open\<close>, under \<open>smu\<close>.\<close>

definition open_begin :: "sess \<Rightarrow> (u32 \<times> nat \<times> sess) option" where
  "open_begin s =
     (if s_phase s = ShDone then None
      else Some (s_next s, s_nchan s,
             s\<lparr>s_next := s_next s + 2,
               s_chans := (s_chans s)(s_nchan s := \<lparr>ch_content = None, ch_closed = False\<rparr>),
               s_nchan := Suc (s_nchan s),
               s_pending := (s_pending s)(s_next s \<mapsto> s_nchan s),
               s_ids := s_ids s @ [s_next s]\<rparr>))"

text \<open>The three parts of \<open>shutdown\<close>.\<close>

definition begin_shutdown :: "mux_error \<Rightarrow> sess \<Rightarrow> sess" where
  "begin_shutdown e s =
     (if s_phase s = ShOpen then s\<lparr>s_phase := ShClosing, s_err := Some e\<rparr> else s)"

definition sweep :: "sess \<Rightarrow> sess" where
  "sweep s = s\<lparr>s_phase := ShSwept,
     s_heap := (\<lambda>r. if r \<in> ran (s_streams s)
                    then fail (case s_err s of Some e \<Rightarrow> e | None \<Rightarrow> ErrClosed) (s_heap s r)
                    else s_heap s r),
     s_chans := (\<lambda>c. if c \<in> ran (s_pending s) then (s_chans s c)\<lparr>ch_closed := True\<rparr>
                     else s_chans s c)\<rparr>"

abbreviation at_reader :: "reader_pc \<Rightarrow> sess \<Rightarrow> sess" where
  "at_reader p s \<equiv> s\<lparr>s_reader := p\<rparr>"

abbreviation at_opener :: "nat \<Rightarrow> opener_pc \<Rightarrow> sess \<Rightarrow> sess" where
  "at_opener k p s \<equiv> s\<lparr>s_openers := (s_openers s)(k := p)\<rparr>"

abbreviation at_acc :: "nat \<Rightarrow> acceptor_pc \<Rightarrow> sess \<Rightarrow> sess" where
  "at_acc k p s \<equiv> s\<lparr>s_accs := (s_accs s)(k := p)\<rparr>"

abbreviation at_closer :: "nat \<Rightarrow> closer_pc \<Rightarrow> sess \<Rightarrow> sess" where
  "at_closer r p s \<equiv> s\<lparr>s_closers := (s_closers s)(r := p)\<rparr>"

text \<open>The switch of \<open>readLoop\<close>: from the frame in hand to the next program point.\<close>

definition dispatch ::
  "(bytes \<Rightarrow> open_msg option) \<Rightarrow> (string \<Rightarrow> bytes) \<Rightarrow> (proto_error \<Rightarrow> string) \<Rightarrow> frame \<Rightarrow> sess \<Rightarrow> sess"
where
  "dispatch unmarshal marsherr errtext f s0 =
     (let s = s0\<lparr>s_handled := s_handled s0 @ [f]\<rparr>; i = f_stream f
      in if f_type f = type_open
         then (case decode_open unmarshal f of
                 Inl e \<Rightarrow> at_reader (RAnswer (encode_open_err marsherr i (errtext e))) s
               | Inr m \<Rightarrow>
                   (case enqueue_req \<lparr>r_target = o_target m, r_meta = o_meta m, r_id = i\<rparr> s of
                      (True, s') \<Rightarrow> at_reader RSignal s'
                    | (False, s') \<Rightarrow> at_reader (RAnswer (encode_open_err marsherr i ''too many pending opens'')) s'))
         else if f_type f = type_open_ok \<or> f_type f = type_open_err
         then (case s_pending s i of
                 None \<Rightarrow> at_reader RIdle s
               | Some c \<Rightarrow> at_reader (RSend c f) (drop_pending i s))
         else if f_type f = type_data
         then (case lookup i s of
                 None \<Rightarrow> at_reader RIdle s
               | Some r \<Rightarrow> at_reader (RDeliver r (f_payload f)) s)
         else if f_type f = type_close
         then (case lookup i s of
                 None \<Rightarrow> at_reader RIdle s
               | Some r \<Rightarrow>
                   if f_flags f AND flag_close_write \<noteq> 0 then at_reader (RDeliver r []) s
                   else at_reader (RFail r i) s)
         else if f_type f = type_ping
         then at_reader (RAnswer \<lparr>f_type = type_pong, f_flags = 0, f_stream = 0,
                                  f_payload = f_payload f\<rparr>) s
         else if f_type f = type_pong then at_reader RIdle s
         else at_reader RShut (begin_shutdown (UnknownFrame (f_type f)) s))"

section \<open>The interleaving\<close>

text \<open>
  One action of one goroutine. The parameters are the JSON codec of OPEN and OPEN_ERR and the
  text of a decoding error. \<open>sess_write f s = Some s'\<close> is a write that went through; the
  network may also fail any write, so next to each there is the failing case.
\<close>

inductive step ::
  "(bytes \<Rightarrow> open_msg option) \<Rightarrow> (open_msg \<Rightarrow> bytes) \<Rightarrow> (string \<Rightarrow> bytes)
     \<Rightarrow> (proto_error \<Rightarrow> string) \<Rightarrow> sess \<Rightarrow> sess \<Rightarrow> bool"
  for um m me et
where
  \<comment> \<open>the read loop\<close>
  frame_read: "s_reader s = RIdle \<Longrightarrow> s_phase s = ShOpen \<Longrightarrow> frame_ok f
    \<Longrightarrow> step um m me et s (at_reader (RHand f) s)"
| frame_failed: "s_reader s = RIdle
    \<Longrightarrow> step um m me et s (at_reader RShut (begin_shutdown (ReadError e) s))"
| frame_dispatched: "s_reader s = RHand f \<Longrightarrow> step um m me et s (dispatch um me et f s)"
| answer_written: "s_reader s = RAnswer f \<Longrightarrow> sess_write f s = Some s'
    \<Longrightarrow> step um m me et s (at_reader RIdle s')"
| answer_failed: "s_reader s = RAnswer f \<Longrightarrow> step um m me et s (at_reader RIdle s)"
| acceptor_signalled: "s_reader s = RSignal
    \<Longrightarrow> step um m me et s (at_reader RIdle (s\<lparr>s_signal := True\<rparr>))"
| reply_sent: "s_reader s = RSend c f \<Longrightarrow> \<not> ch_closed (s_chans s c)
    \<Longrightarrow> ch_content (s_chans s c) = None
    \<Longrightarrow> step um m me et s (at_reader RIdle
          (s\<lparr>s_chans := (s_chans s)(c := (s_chans s c)\<lparr>ch_content := Some f\<rparr>)\<rparr>))"
| reply_panics: "s_reader s = RSend c f \<Longrightarrow> ch_closed (s_chans s c)
    \<Longrightarrow> step um m me et s (at_reader RPanic s)"
| delivered: "s_reader s = RDeliver r b \<Longrightarrow> deliver_send b (s_heap s r) = Some st
    \<Longrightarrow> step um m me et s (at_reader RIdle (set_stream r st s))"
| delivery_dropped: "s_reader s = RDeliver r b \<Longrightarrow> st_closed (s_heap s r)
    \<Longrightarrow> step um m me et s (at_reader RIdle s)"
| peer_close_failed: "s_reader s = RFail r i
    \<Longrightarrow> step um m me et s (at_reader (RRemove i) (fail_at r IoEOF s))"
| peer_close_removed: "s_reader s = RRemove i
    \<Longrightarrow> step um m me et s (at_reader RIdle (remove_stream i s))"
| reader_returns: "s_reader s = RShut \<Longrightarrow> s_phase s = ShDone
    \<Longrightarrow> step um m me et s (at_reader RDone s)"
  \<comment> \<open>shutdown\<close>
| close_called: "step um m me et s (begin_shutdown ErrClosed s)"
| swept: "s_phase s = ShClosing \<Longrightarrow> step um m me et s (sweep s)"
| done_closed: "s_phase s = ShSwept \<Longrightarrow> step um m me et s (s\<lparr>s_phase := ShDone\<rparr>)"
  \<comment> \<open>Open\<close>
| open_begun: "s_openers s k = OIdle \<Longrightarrow> open_begin s = Some (i, c, s')
    \<Longrightarrow> step um m me et s (at_opener k (OSend i c msg) s')"
| open_refused_closed: "s_openers s k = OIdle \<Longrightarrow> open_begin s = None
    \<Longrightarrow> step um m me et s (at_opener k (OErr ErrClosed) s)"
| open_written: "s_openers s k = OSend i c msg \<Longrightarrow> sess_write (encode_open m i msg) s = Some s'
    \<Longrightarrow> step um m me et s (at_opener k (OWait i c (o_target msg)) s')"
| open_write_failed: "s_openers s k = OSend i c msg
    \<Longrightarrow> step um m me et s (at_opener k (ODrop i) s)"
| open_dropped: "s_openers s k = ODrop i
    \<Longrightarrow> step um m me et s (at_opener k (OErr WriteFailed) (drop_pending i s))"
| open_answered: "s_openers s k = OWait i c t \<Longrightarrow> ch_content (s_chans s c) = Some f
    \<Longrightarrow> step um m me et s
          (at_opener k (if f_type f = type_open_err then OErr (OpenRefused (f_payload f)) else OGot i t)
             (s\<lparr>s_chans := (s_chans s)(c := (s_chans s c)\<lparr>ch_content := None\<rparr>)\<rparr>))"
| open_chan_closed: "s_openers s k = OWait i c t \<Longrightarrow> ch_content (s_chans s c) = None
    \<Longrightarrow> ch_closed (s_chans s c) \<Longrightarrow> step um m me et s (at_opener k (OErr ErrClosed) s)"
| open_registered: "s_openers s k = OGot i t \<Longrightarrow> new_stream i t s = (r, s')
    \<Longrightarrow> step um m me et s (at_opener k (OStream r) s')"
| open_cancelled: "s_openers s k = OWait i c t \<Longrightarrow> step um m me et s (at_opener k (OCancel i) s)"
| open_cancel_dropped: "s_openers s k = OCancel i
    \<Longrightarrow> step um m me et s (at_opener k (OClose i) (drop_pending i s))"
| open_cancel_written: "s_openers s k = OClose i \<Longrightarrow> sess_write (close_frame 0 i) s = Some s'
    \<Longrightarrow> step um m me et s (at_opener k (OErr CtxDone) s')"
| open_cancel_failed: "s_openers s k = OClose i
    \<Longrightarrow> step um m me et s (at_opener k (OErr CtxDone) s)"
| open_done: "s_openers s k = OWait i c t \<Longrightarrow> s_phase s = ShDone
    \<Longrightarrow> step um m me et s (at_opener k (OErr ErrClosed) s)"
  \<comment> \<open>Session.Accept and OpenRequest\<close>
| accept_called: "s_accs s k = AIdle \<Longrightarrow> step um m me et s (at_acc k ATop s)"
| accept_dequeued: "s_accs s k = ATop \<Longrightarrow> dequeue s = (Some r, s')
    \<Longrightarrow> step um m me et s (at_acc k (AGot r) s')"
| accept_empty: "s_accs s k = ATop \<Longrightarrow> dequeue s = (None, s')
    \<Longrightarrow> step um m me et s (at_acc k AWait s')"
| accept_woken: "s_accs s k = AWait \<Longrightarrow> s_signal s
    \<Longrightarrow> step um m me et s (at_acc k ATop (s\<lparr>s_signal := False\<rparr>))"
| accept_cancelled: "s_accs s k = AWait \<Longrightarrow> step um m me et s (at_acc k (AErr CtxDone) s)"
| accept_done: "s_accs s k = AWait \<Longrightarrow> s_phase s = ShDone
    \<Longrightarrow> step um m me et s (at_acc k ADrain s)"
| accept_drained: "s_accs s k = ADrain \<Longrightarrow> dequeue s = (x, s')
    \<Longrightarrow> step um m me et s
          (at_acc k (case x of Some r \<Rightarrow> AGot r | None \<Rightarrow> AErr ErrClosed) s')"
| accept_registered: "s_accs s k = AGot q \<Longrightarrow> new_stream (r_id q) (r_target q) s = (r, s')
    \<Longrightarrow> step um m me et s (at_acc k (AAnswer q r) s')"
| accept_written: "s_accs s k = AAnswer q r
    \<Longrightarrow> sess_write \<lparr>f_type = type_open_ok, f_flags = 0, f_stream = r_id q, f_payload = []\<rparr> s = Some s'
    \<Longrightarrow> step um m me et s (at_acc k (AStream r) s')"
| accept_write_failed: "s_accs s k = AAnswer q r
    \<Longrightarrow> step um m me et s (at_acc k (ARemove (r_id q)) s)"
| accept_removed: "s_accs s k = ARemove i
    \<Longrightarrow> step um m me et s (at_acc k (AErr WriteFailed) (remove_stream i s))"
| reject_written: "s_accs s k = AGot q
    \<Longrightarrow> sess_write (encode_open_err me (r_id q) text) s = Some s'
    \<Longrightarrow> step um m me et s (at_acc k AIdle s')"
| reject_failed: "s_accs s k = AGot q \<Longrightarrow> step um m me et s (at_acc k (AErr WriteFailed) s)"
| accept_again: "s_accs s k = AStream r \<or> s_accs s k = AErr e
    \<Longrightarrow> step um m me et s (at_acc k AIdle s)"
  \<comment> \<open>the streams\<close>
| stream_was_read: "r < s_fresh s \<Longrightarrow> stream_read n (s_heap s r) = (x, st) \<Longrightarrow> x \<noteq> Blocked
    \<Longrightarrow> step um m me et s (set_stream r st s)"
| write_begun: "r < s_fresh s \<Longrightarrow> \<not> st_wclosed (s_heap s r) \<Longrightarrow> \<not> st_closed (s_heap s r)
    \<Longrightarrow> st_out (s_heap s r) = []
    \<Longrightarrow> step um m me et s (set_stream r ((s_heap s r)\<lparr>st_out := p\<rparr>) s)"
| chunk_written: "r < s_fresh s \<Longrightarrow> st_out (s_heap s r) \<noteq> []
    \<Longrightarrow> sess_write (data_frame (st_id (s_heap s r)) (take max_payload (st_out (s_heap s r)))) s = Some s'
    \<Longrightarrow> step um m me et s
          (set_stream r ((s_heap s r)\<lparr>st_out := drop max_payload (st_out (s_heap s r))\<rparr>) s')"
| chunk_failed: "r < s_fresh s \<Longrightarrow> st_out (s_heap s r) \<noteq> []
    \<Longrightarrow> step um m me et s (set_stream r ((s_heap s r)\<lparr>st_out := []\<rparr>) s)"
| write_closed: "r < s_fresh s \<Longrightarrow> \<not> st_wclosed (s_heap s r) \<Longrightarrow> st_out (s_heap s r) = []
    \<Longrightarrow> sess_write (close_frame flag_close_write (st_id (s_heap s r))) s = Some s'
    \<Longrightarrow> step um m me et s (set_stream r ((s_heap s r)\<lparr>st_wclosed := True\<rparr>) s')"
| write_close_failed: "r < s_fresh s \<Longrightarrow> \<not> st_wclosed (s_heap s r) \<Longrightarrow> st_out (s_heap s r) = []
    \<Longrightarrow> step um m me et s (set_stream r ((s_heap s r)\<lparr>st_wclosed := True\<rparr>) s)"
| close_removed: "r < s_fresh s \<Longrightarrow> s_closers s r = CIdle
    \<Longrightarrow> step um m me et s (at_closer r CRemoved (remove_stream (st_id (s_heap s r)) s))"
| close_written: "s_closers s r = CRemoved
    \<Longrightarrow> sess_write (close_frame 0 (st_id (s_heap s r))) s = Some s'
    \<Longrightarrow> step um m me et s (at_closer r CWritten s')"
| close_write_failed: "s_closers s r = CRemoved \<Longrightarrow> step um m me et s (at_closer r CWritten s)"
| close_failed: "s_closers s r = CWritten
    \<Longrightarrow> step um m me et s (at_closer r CIdle (fail_at r ErrStreamClosed s))"
| pinged: "sess_write \<lparr>f_type = type_ping, f_flags = 0, f_stream = 0,
      f_payload = [0, 0, 0, 0, 0, 0, 0, 1]\<rparr> s = Some s'
    \<Longrightarrow> step um m me et s s'"

inductive reachable ::
  "(bytes \<Rightarrow> open_msg option) \<Rightarrow> (open_msg \<Rightarrow> bytes) \<Rightarrow> (string \<Rightarrow> bytes)
     \<Rightarrow> (proto_error \<Rightarrow> string) \<Rightarrow> string \<Rightarrow> sess \<Rightarrow> bool"
  for um m me et role
where
  started: "reachable um m me et role (new_session role)"
| stepped: "reachable um m me et role s \<Longrightarrow> step um m me et s s' \<Longrightarrow> reachable um m me et role s'"

lemma reachable_invariant:
  assumes "reachable um m me et role s"
    and "P (new_session role)"
    and "\<And>s s'. reachable um m me et role s \<Longrightarrow> P s \<Longrightarrow> step um m me et s s' \<Longrightarrow> P s'"
  shows "P s"
  using assms(1)
proof (induction rule: reachable.induct)
  case started
  show ?case by (rule assms(2))
next
  case (stepped s s')
  show ?case by (rule assms(3) [OF stepped.hyps(1) stepped.IH stepped.hyps(2)])
qed

section \<open>What each action does to the fields\<close>

lemma sess_write_Some [simp]:
  "sess_write f s = Some s' \<longleftrightarrow>
     s_phase s = ShOpen \<and> frame_ok f \<and> s' = s\<lparr>s_sent := s_sent s @ [f]\<rparr>"
  by (auto simp: sess_write_def)

lemma open_begin_Some [simp]:
  "open_begin s = Some (i, c, s') \<longleftrightarrow> s_phase s \<noteq> ShDone \<and> i = s_next s \<and> c = s_nchan s \<and>
     s' = s\<lparr>s_next := s_next s + 2,
            s_chans := (s_chans s)(s_nchan s := \<lparr>ch_content = None, ch_closed = False\<rparr>),
            s_nchan := Suc (s_nchan s),
            s_pending := (s_pending s)(s_next s \<mapsto> s_nchan s),
            s_ids := s_ids s @ [s_next s]\<rparr>"
  by (auto simp: open_begin_def)

lemma new_stream_eq [simp]:
  "new_stream i t s = (r, s') \<longleftrightarrow> r = s_fresh s \<and>
     s' = s\<lparr>s_heap := (s_heap s)(s_fresh s :=
              no_stream\<lparr>st_id := i, st_target := t, st_born := length (s_handled s)\<rparr>),
            s_fresh := Suc (s_fresh s),
            s_streams := (s_streams s)(i \<mapsto> s_fresh s)\<rparr>"
  by (auto simp: new_stream_def)

lemma deliver_send_Some [simp]:
  "deliver_send b st = Some st' \<longleftrightarrow>
     length (st_in st) < stream_buffer \<and> st' = st\<lparr>st_in := st_in st @ [b]\<rparr>"
  by (auto simp: deliver_send_def)

lemma dequeue_None [simp]: "dequeue s = (None, s') \<longleftrightarrow> s_queue s = [] \<and> s' = s"
  by (auto simp: dequeue_def split: list.splits)

lemma dequeue_Some [simp]:
  "dequeue s = (Some r, s') \<longleftrightarrow> (\<exists>q. s_queue s = r # q \<and>
     s' = s\<lparr>s_queue := q, s_signal := (s_signal s \<or> q \<noteq> [])\<rparr>)"
  by (auto simp: dequeue_def split: list.splits)

lemmas action_defs [mux_defs] =
  remove_stream_def drop_pending_def set_stream_def fail_at_def begin_shutdown_def sweep_def


section \<open>Bounds\<close>

definition bounded :: "sess \<Rightarrow> bool" where
  "bounded s \<longleftrightarrow> length (s_queue s) \<le> max_pending_opens
     \<and> (\<forall>r. length (st_in (s_heap s r)) \<le> stream_buffer)"

lemma length_st_in_fail [simp]: "st_in (fail e st) = st_in st"
  by (simp add: fail_def)

lemma stream_read_in: "stream_read n st = (x, st') \<Longrightarrow> length (st_in st') \<le> length (st_in st)"
  by (auto simp: stream_read_def read_copy_def split: if_splits list.splits)

lemma enqueue_req_bound:
  "enqueue_req r s = (b, s') \<Longrightarrow> length (s_queue s) \<le> max_pending_opens
     \<Longrightarrow> length (s_queue s') \<le> max_pending_opens \<and> s_heap s' = s_heap s"
  by (auto simp: enqueue_req_def split: if_splits)

lemma bounded_dispatch: "bounded s \<Longrightarrow> bounded (dispatch um me et f s)"
  by (auto simp: bounded_def dispatch_def Let_def mux_defs enqueue_req_def
      split: sum.splits option.splits bool.splits)

lemma bounded_step: "step um m me et s s' \<Longrightarrow> bounded s \<Longrightarrow> bounded s'"
proof (induction rule: step.induct)
  case (frame_dispatched s f)
  then show ?case by (simp add: bounded_dispatch)
next
  case (stream_was_read r s n x st)
  then show ?case using stream_read_in by (fastforce simp: bounded_def set_stream_def intro: le_trans)
qed (auto simp: bounded_def mux_defs no_stream_def dequeue_def split: list.splits)


section \<open>Addresses\<close>

definition addresses_ok :: "sess \<Rightarrow> bool" where
  "addresses_ok s \<longleftrightarrow>
     (\<forall>i r. s_streams s i = Some r \<longrightarrow> r < s_fresh s \<and> st_id (s_heap s r) = i)
     \<and> (\<forall>r b. s_reader s = RDeliver r b \<longrightarrow> r < s_fresh s)
     \<and> (\<forall>r i. s_reader s = RFail r i \<longrightarrow> r < s_fresh s)"

lemma fail_fields [simp]:
  "st_id (fail e st) = st_id st" "st_pending (fail e st) = st_pending st"
  "st_got (fail e st) = st_got st" "st_born (fail e st) = st_born st"
  "st_closed (fail e st)"
  by (simp_all add: fail_def)

lemma stream_read_fields:
  "stream_read n st = (x, st') \<Longrightarrow>
     st_id st' = st_id st \<and> st_born st' = st_born st \<and> st_closed st' = st_closed st
     \<and> st_got st' @ st_pending st' @ concat (st_in st') = st_got st @ st_pending st @ concat (st_in st)"
  by (auto simp: stream_read_def read_copy_def split: if_splits list.splits)

lemma dispatch_fields [simp]:
  "s_streams (dispatch um me et f s) = s_streams s"
  "s_heap (dispatch um me et f s) = s_heap s"
  "s_fresh (dispatch um me et f s) = s_fresh s"
  "s_handled (dispatch um me et f s) = s_handled s @ [f]"
  "s_chans (dispatch um me et f s) = s_chans s"
  "s_nchan (dispatch um me et f s) = s_nchan s"
  "s_next (dispatch um me et f s) = s_next s"
  "s_ids (dispatch um me et f s) = s_ids s"
  "s_signal (dispatch um me et f s) = s_signal s"
  "s_accs (dispatch um me et f s) = s_accs s"
  by (auto simp: dispatch_def Let_def mux_defs enqueue_req_def
      split: sum.splits option.splits bool.splits)

lemma dispatch_deliver:
  "s_reader (dispatch um me et f s) = RDeliver r b \<longleftrightarrow>
     s_streams s (f_stream f) = Some r \<and>
     (f_type f = type_data \<and> b = f_payload f \<or>
      f_type f = type_close \<and> f_flags f AND flag_close_write \<noteq> 0 \<and> b = [])"
  by (auto simp: dispatch_def Let_def mux_defs enqueue_req_def lookup_def
      split: sum.splits option.splits bool.splits)

lemma dispatch_fail:
  "s_reader (dispatch um me et f s) = RFail r i \<Longrightarrow> s_streams s i = Some r"
  by (auto simp: dispatch_def Let_def mux_defs enqueue_req_def lookup_def
      split: sum.splits option.splits bool.splits if_splits)

lemma addresses_step: "step um m me et s s' \<Longrightarrow> addresses_ok s \<Longrightarrow> addresses_ok s'"
proof (induction rule: step.induct)
  case (frame_dispatched s f)
  then show ?case by (auto simp: addresses_ok_def dispatch_deliver dest: dispatch_fail)
next
  case (stream_was_read r s n x st)
  then show ?case using stream_read_fields by (fastforce simp: addresses_ok_def set_stream_def)
next
  case (accept_drained s k x s')
  then show ?case by (cases x) (auto simp: addresses_ok_def mux_defs)
qed (auto simp: addresses_ok_def mux_defs no_stream_def less_Suc_eq split: if_splits)

section \<open>The bytes of a stream\<close>

definition data_for :: "u32 \<Rightarrow> frame list \<Rightarrow> bytes" where
  "data_for i fs = concat (map f_payload (filter (\<lambda>f. f_type f = type_data \<and> f_stream f = i) fs))"

definition in_hand :: "nat \<Rightarrow> sess \<Rightarrow> bytes" where
  "in_hand r s = (case s_reader s of RDeliver r' b \<Rightarrow> if r' = r then b else [] | _ \<Rightarrow> [])"

definition stream_sum :: "stream \<Rightarrow> bytes" where
  "stream_sum st = st_got st @ st_pending st @ concat (st_in st)"

definition flow :: "sess \<Rightarrow> bool" where
  "flow s \<longleftrightarrow> (\<forall>i r. s_streams s i = Some r \<longrightarrow> \<not> st_closed (s_heap s r) \<longrightarrow>
     st_born (s_heap s r) \<le> length (s_handled s) \<and>
     stream_sum (s_heap s r) @ in_hand r s
       = data_for i (drop (st_born (s_heap s r)) (s_handled s)))"

lemma data_for_simps [simp]:
  "data_for i [] = []"
  "data_for i (fs @ [f]) = data_for i fs @
     (if f_type f = type_data \<and> f_stream f = i then f_payload f else [])"
  by (simp_all add: data_for_def)

lemma flow_dispatch:
  assumes "s_reader s = RHand f" and "flow s" and "addresses_ok s"
  shows "flow (dispatch um me et f s)"
proof -
  have hand: "in_hand r s = []" for r using assms(1) by (simp add: in_hand_def)
  have "in_hand r (dispatch um me et f s) = (if f_type f = type_data \<and> f_stream f = i then f_payload f else [])"
    if "s_streams s i = Some r" for i r
  proof (cases "f_stream f = i")
    case True
    with that show ?thesis
      by (auto simp: in_hand_def dispatch_deliver split: reader_pc.splits)
        (auto simp: dispatch_def Let_def lookup_def)
  next
    case False
    then have "s_streams s (f_stream f) \<noteq> Some r"
      using that assms(3) unfolding addresses_ok_def by metis
    with False show ?thesis
      by (auto simp: in_hand_def dispatch_deliver split: reader_pc.splits)
  qed
  then show ?thesis using assms(2) hand by (auto simp: flow_def le_Suc_eq)
qed

text \<open>An action that neither dispatches a frame nor registers a stream keeps the equation of
  every stream it leaves open.\<close>

lemma flow_frame:
  assumes "flow s" and "s_handled s' = s_handled s"
    and "\<And>i r. s_streams s' i = Some r \<Longrightarrow> \<not> st_closed (s_heap s' r) \<Longrightarrow>
      s_streams s i = Some r \<and> \<not> st_closed (s_heap s r)
      \<and> st_born (s_heap s' r) = st_born (s_heap s r)
      \<and> stream_sum (s_heap s' r) @ in_hand r s' = stream_sum (s_heap s r) @ in_hand r s"
  shows "flow s'"
  using assms unfolding flow_def by metis

lemma flow_new_stream:
  assumes "flow s" and "addresses_ok s" and "new_stream i t s = (r, s')"
  shows "flow s'"
proof -
  have "in_hand (s_fresh s) s = []"
    using assms(2) by (auto simp: in_hand_def addresses_ok_def split: reader_pc.splits)
  moreover have "in_hand r' s' = in_hand r' s" for r'
    using assms(3) by (simp add: in_hand_def)
  moreover have "s_streams s j \<noteq> Some (s_fresh s)" for j
    using assms(2) by (auto simp: addresses_ok_def)
  ultimately show ?thesis
    using assms(1,3) by (auto simp: flow_def stream_sum_def no_stream_def)
qed

lemma flow_cong_opener [simp]:
  "flow (at_opener k p s) = flow s" "flow (at_acc k q s) = flow s"
  by (simp_all add: flow_def in_hand_def)

lemma flow_step:
  "step um m me et s s' \<Longrightarrow> flow s \<Longrightarrow> addresses_ok s \<Longrightarrow> flow s'"
proof (induction rule: step.induct)
  case (frame_dispatched s f)
  then show ?case by (simp add: flow_dispatch)
next
  case (open_registered s k i t r s')
  show ?case by (simp only: flow_cong_opener)
      (rule flow_new_stream [OF open_registered(3,4,2)])
next
  case (accept_registered s k q r s')
  show ?case by (simp only: flow_cong_opener)
      (rule flow_new_stream [OF accept_registered(3,4,2)])
next
  case (stream_was_read r s n x st)
  note st = stream_read_fields [OF stream_was_read.hyps(2)]
  show ?case using stream_was_read(4)
    by (rule flow_frame) (auto simp: in_hand_def set_stream_def stream_sum_def st split: if_splits)
next
  case (accept_drained s k x s')
  then show ?case by (cases x) (auto simp: flow_def in_hand_def)
qed (erule flow_frame;
      auto simp: stream_sum_def in_hand_def mux_defs split: if_splits reader_pc.splits)+

end
