(* ===== verification/MuxSafety.thy ===== *)
theory MuxSafety
  imports Mux
begin

text \<open>
  What holds in every reachable state of a session: the answers to \<open>Open\<close>, the stream ids,
  the wake-up of \<open>Accept\<close>, and the properties of \<open>internal/agent/mux\<close>; and three runs that
  reach states the code does not mean to reach.
\<close>

section \<open>Reply channels\<close>

definition swept_phase :: "sess \<Rightarrow> bool" where
  "swept_phase s \<longleftrightarrow> s_phase s = ShSwept \<or> s_phase s = ShDone"

definition channels_ok :: "sess \<Rightarrow> bool" where
  "channels_ok s \<longleftrightarrow>
     (\<forall>i c. s_pending s i = Some c \<longrightarrow> c < s_nchan s \<and> ch_content (s_chans s c) = None)
     \<and> (\<forall>i j c. s_pending s i = Some c \<longrightarrow> s_pending s j = Some c \<longrightarrow> i = j)
     \<and> (\<forall>c f. s_reader s = RSend c f \<longrightarrow>
          c < s_nchan s \<and> ch_content (s_chans s c) = None \<and> (\<forall>i. s_pending s i \<noteq> Some c))
     \<and> (\<forall>c. ch_closed (s_chans s c) \<longrightarrow> swept_phase s)
     \<and> (s_reader s = RPanic \<longrightarrow> swept_phase s)"

lemma dispatch_send:
  "s_reader (dispatch um me et f s) = RSend c g \<longleftrightarrow>
     (f_type f = type_open_ok \<or> f_type f = type_open_err) \<and> g = f
     \<and> s_pending s (f_stream f) = Some c"
  by (auto simp: dispatch_def Let_def mux_defs enqueue_req_def lookup_def
      split: sum.splits option.splits bool.splits)

lemma dispatch_pending:
  "s_pending (dispatch um me et f s) =
     (if f_type f = type_open_ok \<or> f_type f = type_open_err
      then (s_pending s)(f_stream f := None) else s_pending s)"
  by (auto simp: dispatch_def Let_def mux_defs enqueue_req_def lookup_def fun_upd_idem
      split: sum.splits option.splits bool.splits)

lemma dispatch_no_panic: "s_reader (dispatch um me et f s) \<noteq> RPanic"
  by (auto simp: dispatch_def Let_def mux_defs enqueue_req_def lookup_def
      split: sum.splits option.splits bool.splits)

lemma dispatch_swept: "swept_phase (dispatch um me et f s) = swept_phase s"
  by (auto simp: dispatch_def Let_def mux_defs enqueue_req_def lookup_def swept_phase_def
      split: sum.splits option.splits bool.splits)

lemma channels_step: "step um m me et s s' \<Longrightarrow> channels_ok s \<Longrightarrow> channels_ok s'"
proof (induction rule: step.induct)
  case (frame_dispatched s f)
  then show ?case
    by (simp add: channels_ok_def dispatch_send dispatch_pending dispatch_no_panic dispatch_swept)
      metis
next
  case (accept_drained s k x s')
  then show ?case by (cases x) (auto simp: channels_ok_def swept_phase_def)
qed (auto simp: channels_ok_def mux_defs swept_phase_def ran_def less_Suc_eq
      split: if_splits reader_pc.splits)

section \<open>Stream ids\<close>

definition first_id :: "string \<Rightarrow> nat" where
  "first_id role = (if role = role_guest then 1 else 2)"

definition ids_ok :: "string \<Rightarrow> sess \<Rightarrow> bool" where
  "ids_ok role s \<longleftrightarrow>
     s_ids s = map (\<lambda>k. of_nat (first_id role + 2 * k)) [0..<length (s_ids s)]
     \<and> s_next s = of_nat (first_id role + 2 * length (s_ids s))"

lemma ids_step: "step um m me et s s' \<Longrightarrow> ids_ok role s \<Longrightarrow> ids_ok role s'"
proof (induction rule: step.induct)
  case (open_begun s k i c s' msg)
  then have ids: "s_ids s = map (\<lambda>k. of_nat (first_id role + 2 * k)) [0..<length (s_ids s)]"
    and nxt: "s_next s = of_nat (first_id role + 2 * length (s_ids s))"
    by (simp_all add: ids_ok_def)
  have "s_ids s' = map (\<lambda>k. of_nat (first_id role + 2 * k)) [0..<length (s_ids s)]
      @ [of_nat (first_id role + 2 * length (s_ids s))]"
    using open_begun(2) ids nxt by simp
  moreover have "s_next s' = of_nat (first_id role + 2 * Suc (length (s_ids s)))"
    using open_begun(2) nxt by simp
  moreover have "length (s_ids s') = Suc (length (s_ids s))" using open_begun(2) by simp
  ultimately show ?case by (simp add: ids_ok_def)
next
  case (accept_drained s k x s')
  then show ?case by (cases x) (auto simp: ids_ok_def)
qed (auto simp: ids_ok_def mux_defs)

lemma of_nat_u32_inj: "a < 2 ^ 32 \<Longrightarrow> b < 2 ^ 32 \<Longrightarrow> (of_nat a :: u32) = of_nat b \<Longrightarrow> a = b"
proof -
  assume "a < 2 ^ 32" "b < 2 ^ 32" and eq: "(of_nat a :: u32) = of_nat b"
  have "unat (of_nat a :: u32) = a" using \<open>a < 2 ^ 32\<close> by (simp add: unat_of_nat)
  moreover have "unat (of_nat b :: u32) = b" using \<open>b < 2 ^ 32\<close> by (simp add: unat_of_nat)
  ultimately show "a = b" using eq by metis
qed

section \<open>The wake-up of acceptors\<close>

definition has_top :: "(nat \<Rightarrow> acceptor_pc) \<Rightarrow> bool" where
  "has_top f \<longleftrightarrow> (\<exists>k. f k = ATop)"

lemma has_top_upd [simp]: "f k \<noteq> ATop \<Longrightarrow> has_top (f(k := p)) \<longleftrightarrow> p = ATop \<or> has_top f"
  unfolding has_top_def by (metis fun_upd_apply)

lemma has_top_to_top [simp]: "has_top (f(k := ATop))"
  by (auto simp: has_top_def)

definition woken :: "sess \<Rightarrow> bool" where
  "woken s \<longleftrightarrow> (s_queue s \<noteq> [] \<longrightarrow> s_signal s \<or> s_reader s = RSignal \<or> has_top (s_accs s))"

lemma dispatch_queue:
  "s_queue (dispatch um me et f s) = s_queue s \<or> s_reader (dispatch um me et f s) = RSignal"
  by (auto simp: dispatch_def Let_def mux_defs enqueue_req_def lookup_def
      split: sum.splits option.splits bool.splits)

lemma woken_step: "step um m me et s s' \<Longrightarrow> woken s \<Longrightarrow> woken s'"
proof (induction rule: step.induct)
  case (frame_dispatched s f)
  then show ?case using dispatch_queue [of um me et f s] by (auto simp: woken_def)
next
  case (accept_drained s k x s')
  then show ?case by (cases x) (auto simp: woken_def)
qed (auto simp: woken_def mux_defs split: if_splits)

section \<open>Runs\<close>

text \<open>The frames of the runs below: the peer accepts stream 2, then sends one byte on it.\<close>

abbreviation ok_frame :: frame where
  "ok_frame \<equiv> \<lparr>f_type = type_open_ok, f_flags = 0, f_stream = 2, f_payload = []\<rparr>"

abbreviation byte_frame :: frame where
  "byte_frame \<equiv> data_frame 2 [7]"

text \<open>A host that has sent its first OPEN, for a stream to \<open>t\<close>.\<close>

definition asked :: "string \<Rightarrow> sess" where
  "asked t = (new_session role_host)\<lparr>
     s_next := 4, s_nchan := 1, s_pending := [2 \<mapsto> 0], s_ids := [2],
     s_chans := (\<lambda>_. \<lparr>ch_content = None, ch_closed = False\<rparr>),
     s_openers := (\<lambda>_. OIdle)(0 := OWait 2 0 t),
     s_sent := [encode_open (\<lambda>_. []) 2 \<lparr>o_target = t, o_meta = []\<rparr>]\<rparr>"

lemma role_host_neq [simp]: "role_host \<noteq> role_guest" "role_guest \<noteq> role_host"
  by (simp_all add: role_host_def role_guest_def)

lemma step_to: "step um m me et s s' \<Longrightarrow> s' = t \<Longrightarrow> step um m me et s t"
  by simp

lemma asked_reachable: "reachable um (\<lambda>_. []) me et role_host (asked t)"
proof -
  let ?R = "reachable um (\<lambda>_. []) me et role_host"
  let ?msg = "\<lparr>o_target = t, o_meta = []\<rparr>"
  let ?s1 = "at_opener 0 (OSend 2 0 ?msg) (new_session role_host)\<lparr>s_next := 4,
      s_chans := (\<lambda>_. \<lparr>ch_content = None, ch_closed = False\<rparr>), s_nchan := 1,
      s_pending := [2 \<mapsto> 0], s_ids := [2]\<rparr>"
  have "step um (\<lambda>_. []) me et (new_session role_host) ?s1"
    by (rule step_to, rule step.open_begun [where k = 0 and c = 0 and i = 2 and msg = ?msg])
      (auto simp: new_session_def)
  then have "?R ?s1" by (rule stepped [OF started])
  moreover have "step um (\<lambda>_. []) me et ?s1 (asked t)"
    by (rule step_to, rule step.open_written [where k = 0 and c = 0 and i = 2 and msg = ?msg])
      (auto simp: asked_def new_session_def encode_open_def frame_ok_def)
  ultimately show ?thesis by (rule stepped)
qed


text \<open>The same host about to send the reply on the channel, and once it has.\<close>

definition replying :: "string \<Rightarrow> sess" where
  "replying t = at_reader (RSend 0 ok_frame) (asked t)\<lparr>s_pending := Map.empty, s_handled := [ok_frame]\<rparr>"

definition replied :: "string \<Rightarrow> sess" where
  "replied t = (asked t)\<lparr>s_pending := Map.empty,
     s_chans := (\<lambda>_. \<lparr>ch_content = None, ch_closed = False\<rparr>)(0 := \<lparr>ch_content = Some ok_frame, ch_closed = False\<rparr>),
     s_handled := [ok_frame]\<rparr>"

lemma replying_reachable: "reachable um (\<lambda>_. []) me et role_host (replying t)"
proof -
  let ?s1 = "at_reader (RHand ok_frame) (asked t)"
  have "step um (\<lambda>_. []) me et (asked t) ?s1"
    by (rule step.frame_read) (auto simp: asked_def new_session_def frame_ok_def)
  moreover have "step um (\<lambda>_. []) me et ?s1 (replying t)"
    by (rule step_to, rule step.frame_dispatched [where f = ok_frame])
      (auto simp: asked_def new_session_def dispatch_def drop_pending_def replying_def)
  ultimately show ?thesis by (blast intro: stepped asked_reachable)
qed

lemma replied_reachable: "reachable um (\<lambda>_. []) me et role_host (replied t)"
proof (rule stepped [OF replying_reachable])
  show "step um (\<lambda>_. []) me et (replying t) (replied t)"
    by (rule step_to, rule step.reply_sent [where c = 0 and f = ok_frame])
      (auto simp: asked_def new_session_def replied_def replying_def)
qed

text \<open>Then the opener returns the stream, and the peer's byte arrives and is delivered.\<close>

definition streaming :: "string \<Rightarrow> sess" where
  "streaming t = (replied t)\<lparr>
     s_chans := (\<lambda>_. \<lparr>ch_content = None, ch_closed = False\<rparr>),
     s_openers := (\<lambda>_. OIdle)(0 := OStream 0),
     s_heap := (\<lambda>_. no_stream)(0 := no_stream\<lparr>st_id := 2, st_target := t, st_born := 1, st_in := [[7]]\<rparr>),
     s_fresh := 1, s_streams := [2 \<mapsto> 0], s_handled := [ok_frame, byte_frame]\<rparr>"

lemma streaming_reachable: "reachable um (\<lambda>_. []) me et role_host (streaming t)"
proof -
  let ?R = "reachable um (\<lambda>_. []) me et role_host"
  let ?s1 = "(replied t)\<lparr>s_chans := (\<lambda>_. \<lparr>ch_content = None, ch_closed = False\<rparr>),
      s_openers := (\<lambda>_. OIdle)(0 := OGot 2 t)\<rparr>"
  let ?s2 = "?s1\<lparr>s_openers := (\<lambda>_. OIdle)(0 := OStream 0),
      s_heap := (\<lambda>_. no_stream)(0 := no_stream\<lparr>st_id := 2, st_target := t, st_born := 1\<rparr>),
      s_fresh := 1, s_streams := [2 \<mapsto> 0]\<rparr>"
  let ?s3 = "at_reader (RHand byte_frame) ?s2"
  let ?s4 = "at_reader (RDeliver 0 [7]) ?s2\<lparr>s_handled := [ok_frame, byte_frame]\<rparr>"
  have e1: "step um (\<lambda>_. []) me et (replied t) ?s1"
    by (rule step_to, rule step.open_answered [where k = 0 and i = 2 and c = 0 and t = t and f = ok_frame])
      (auto simp: replied_def asked_def new_session_def)
  have e2: "step um (\<lambda>_. []) me et ?s1 ?s2"
    by (rule step_to, rule step.open_registered [where k = 0 and i = 2 and t = t and r = 0])
      (auto simp: replied_def asked_def new_session_def)
  have e3: "step um (\<lambda>_. []) me et ?s2 ?s3"
    by (rule step.frame_read)
      (auto simp: replied_def asked_def new_session_def data_frame_def frame_ok_def max_payload_def)
  have e4: "step um (\<lambda>_. []) me et ?s3 ?s4"
    by (rule step_to, rule step.frame_dispatched [where f = byte_frame])
      (auto simp: replied_def asked_def new_session_def data_frame_def dispatch_def lookup_def)
  have e5: "step um (\<lambda>_. []) me et ?s4 (streaming t)"
    by (rule step_to, rule step.delivered [where r = 0 and b = "[7]"])
      (auto simp: streaming_def replied_def asked_def new_session_def set_stream_def no_stream_def
        stream_buffer_def)
  show ?thesis
    by (rule stepped [OF stepped [OF stepped [OF stepped [OF stepped
      [OF replied_reachable e1] e2] e3] e4] e5])
qed

text \<open>A guest with one acceptor waiting, to whom the host has just offered a stream.\<close>

abbreviation offer :: open_msg where
  "offer \<equiv> \<lparr>o_target = ''ssh-agent'', o_meta = []\<rparr>"

abbreviation offer_frame :: frame where
  "offer_frame \<equiv> \<lparr>f_type = type_open, f_flags = 0, f_stream = 2, f_payload = []\<rparr>"

definition offered :: sess where
  "offered = at_acc 0 AWait (new_session role_guest)\<lparr>s_signal := True, s_handled := [offer_frame],
     s_queue := [\<lparr>r_target = ''ssh-agent'', r_meta = [], r_id = 2\<rparr>]\<rparr>"

lemma offered_reachable: "reachable (\<lambda>_. Some offer) m me et role_guest offered"
proof -
  let ?s0 = "new_session role_guest"
  let ?s1 = "at_acc 0 ATop ?s0"
  let ?s2 = "at_acc 0 AWait ?s0"
  let ?s3 = "at_reader (RHand offer_frame) ?s2"
  let ?s4 = "at_reader RSignal ?s2\<lparr>s_handled := [offer_frame],
     s_queue := [\<lparr>r_target = ''ssh-agent'', r_meta = [], r_id = 2\<rparr>]\<rparr>"
  note st = step_to [where um = "\<lambda>_. Some offer" and m = m and me = me and et = et]
  have e1: "step (\<lambda>_. Some offer) m me et ?s0 ?s1"
    by (rule step.accept_called) (simp add: new_session_def)
  have e2: "step (\<lambda>_. Some offer) m me et ?s1 ?s2"
    by (rule st, rule step.accept_empty [where k = 0]) (auto simp: new_session_def)
  have e3: "step (\<lambda>_. Some offer) m me et ?s2 ?s3"
    by (rule step.frame_read) (auto simp: new_session_def frame_ok_def)
  have e4: "step (\<lambda>_. Some offer) m me et ?s3 ?s4"
    by (rule st, rule step.frame_dispatched [where f = offer_frame])
      (auto simp: new_session_def dispatch_def decode_open_def enqueue_req_def max_pending_opens_def)
  have e5: "step (\<lambda>_. Some offer) m me et ?s4 offered"
    by (rule st, rule step.acceptor_signalled) (auto simp: new_session_def offered_def)
  show ?thesis
    by (rule stepped [OF stepped [OF stepped [OF stepped [OF stepped [OF started e1] e2] e3] e4] e5])
qed

section \<open>Properties\<close>

text \<open>C1: In every reachable state of a session, under any interleaving, a registered stream that
  has not been closed holds the bytes of its peer without loss, duplication or reordering: what
  was read, what is buffered and what the read loop is about to deliver are, in this order,
  exactly the payloads of the DATA frames the read loop dispatched for it since it was
  registered.\<close>

theorem stream_bytes_in_order:
  assumes "reachable um m me et role s" and "s_streams s i = Some r" and "\<not> st_closed (s_heap s r)"
  shows "st_got (s_heap s r) @ st_pending (s_heap s r) @ concat (st_in (s_heap s r)) @ in_hand r s
    = data_for i (drop (st_born (s_heap s r)) (s_handled s))"
proof -
  have "flow s \<and> addresses_ok s"
    using assms(1)
  proof (rule reachable_invariant)
    show "flow (new_session role) \<and> addresses_ok (new_session role)"
      by (simp add: flow_def addresses_ok_def new_session_def)
  qed (use flow_step addresses_step in blast)
  with assms(2,3) show ?thesis by (auto simp: flow_def stream_sum_def)
qed

theorem stream_bytes_in_order_witness:
  "st_got (s_heap (streaming ''t'') 0) @ st_pending (s_heap (streaming ''t'') 0)
     @ concat (st_in (s_heap (streaming ''t'') 0)) @ in_hand 0 (streaming ''t'')
   = data_for 2 (drop (st_born (s_heap (streaming ''t'') 0)) (s_handled (streaming ''t'')))"
  by (rule stream_bytes_in_order [OF streaming_reachable])
    (simp_all add: streaming_def no_stream_def)

text \<open>C18: No peer can make a session's queues grow without limit: in every reachable state at
  most 1024 open requests are queued and at most 64 chunks are buffered in each stream.\<close>

theorem session_memory_bounded:
  assumes "reachable um m me et role s"
  shows "length (s_queue s) \<le> 1024 \<and> (\<forall>r. length (st_in (s_heap s r)) \<le> 64)"
proof -
  have "bounded s"
    using assms by (rule reachable_invariant)
      (auto simp: bounded_def new_session_def no_stream_def dest: bounded_step [unfolded bounded_def])
  then show ?thesis by (simp add: bounded_def max_pending_opens_def stream_buffer_def)
qed

theorem session_memory_bounded_witness:
  "length (s_queue (streaming ''t'')) \<le> 1024
   \<and> (\<forall>r. length (st_in (s_heap (streaming ''t'') r)) \<le> 64)"
  by (rule session_memory_bounded [OF streaming_reachable])

text \<open>C37: The read loop never blocks handing an answer to a caller of \<open>Open\<close>: whenever it is
  about to send one, the channel is empty, and until a shutdown has swept the session the send
  goes through; the loop can only panic on a closed channel after such a sweep.\<close>

theorem open_reply_never_blocks:
  assumes "reachable um m me et role s"
  shows "(s_reader s = RPanic \<longrightarrow> swept_phase s)
    \<and> (\<forall>c f. s_reader s = RSend c f \<longrightarrow> ch_content (s_chans s c) = None \<and>
         (\<not> swept_phase s \<longrightarrow> (\<exists>s'. step um m me et s s' \<and> s_reader s' = RIdle
            \<and> ch_content (s_chans s' c) = Some f)))"
proof -
  have ok: "channels_ok s"
    using assms by (rule reachable_invariant)
      (simp add: channels_ok_def new_session_def, rule channels_step)
  have "\<exists>s'. step um m me et s s' \<and> s_reader s' = RIdle \<and> ch_content (s_chans s' c) = Some f"
    if "s_reader s = RSend c f" and "\<not> swept_phase s" for c f
  proof -
    have "\<not> ch_closed (s_chans s c)" and "ch_content (s_chans s c) = None"
      using ok that by (auto simp: channels_ok_def)
    from step.reply_sent [where s = s, OF that(1) this] show ?thesis
      by (intro exI conjI) auto
  qed
  with ok show ?thesis by (auto simp: channels_ok_def)
qed

theorem open_reply_never_blocks_witness:
  "ch_content (s_chans (replying ''t'') 0) = None
    \<and> (\<exists>s'. step (\<lambda>_. None) (\<lambda>_. []) (\<lambda>_. []) (\<lambda>_. []) (replying ''t'') s' \<and> s_reader s' = RIdle
          \<and> ch_content (s_chans s' 0) = Some ok_frame)"
  using open_reply_never_blocks [OF replying_reachable [where um = "\<lambda>_. None" and me = "\<lambda>_. []" and et = "\<lambda>_. []" and t = "''t''"]]
  by (simp add: replying_def asked_def new_session_def swept_phase_def)

text \<open>The ids a session takes for its own streams are odd on the guest and even on the host,
  so the two sides never take the same one, and the first 2^31 of them are pairwise distinct
  although the counter is 32 bits wide.\<close>

theorem stream_ids_unique:
  assumes "reachable um m me et role s"
  shows "(\<forall>i \<in> set (s_ids s). odd (unat i) = (role = role_guest))
    \<and> (length (s_ids s) \<le> 2 ^ 31 \<longrightarrow> distinct (s_ids s))"
proof -
  have "ids_ok role s"
    using assms by (rule reachable_invariant)
      (simp add: ids_ok_def new_session_def first_id_def, rule ids_step)
  then obtain n where ids: "s_ids s = map (\<lambda>k. of_nat (first_id role + 2 * k)) [0..<n]"
    and n: "length (s_ids s) = n"
    by (auto simp: ids_ok_def)
  have "odd (unat (of_nat (first_id role + 2 * k) :: u32)) = (role = role_guest)" for k
    by (simp only: unat_of_nat take_bit_eq_mod) (simp add: dvd_mod_iff first_id_def)
  moreover have "inj_on (\<lambda>k. of_nat (first_id role + 2 * k) :: u32) {0..<n}" if "n \<le> 2 ^ 31"
  proof (rule inj_onI)
    fix a b
    assume "a \<in> {0..<n}" "b \<in> {0..<n}"
      and eq: "(of_nat (first_id role + 2 * a) :: u32) = of_nat (first_id role + 2 * b)"
    then have "a < 2 ^ 31" "b < 2 ^ 31" using that by auto
    show "a = b"
    proof (cases "role = role_guest")
      case True
      then have "first_id role + 2 * a = first_id role + 2 * b"
        using \<open>a < 2 ^ 31\<close> \<open>b < 2 ^ 31\<close>
        by (intro of_nat_u32_inj [OF _ _ eq]) (simp_all add: first_id_def)
      then show ?thesis by simp
    next
      case False
      have "(of_nat (2 * a) :: u32) = of_nat (2 * b)" using eq by simp
      then have "2 * a = 2 * b"
        using \<open>a < 2 ^ 31\<close> \<open>b < 2 ^ 31\<close> by (intro of_nat_u32_inj) simp_all
      then show ?thesis by simp
    qed
  qed
  ultimately show ?thesis using ids n by (auto simp: distinct_map)
qed

theorem stream_ids_unique_witness:
  "even (unat (hd (s_ids (streaming ''t'')))) \<and> distinct (s_ids (streaming ''t''))"
  using stream_ids_unique [OF streaming_reachable [where t = "''t''"]]
  by (simp add: streaming_def replied_def asked_def)

text \<open>Wake-ups of \<open>Accept\<close> are never lost, although the signal channel holds only one token
  and enqueueing and signalling are two operations: when a request is queued and neither the
  read loop nor another acceptor is on its way to it, a waiting acceptor can be woken and then
  takes the oldest request.\<close>

theorem accept_wakeup_never_lost:
  assumes "reachable um m me et role s" and "s_queue s \<noteq> []"
    and "s_reader s \<noteq> RSignal" and "\<forall>j. s_accs s j \<noteq> ATop" and "s_accs s k = AWait"
  shows "\<exists>s1 s2. step um m me et s s1 \<and> step um m me et s1 s2
    \<and> s_accs s2 k = AGot (hd (s_queue s)) \<and> s_queue s2 = tl (s_queue s)"
proof -
  have "woken s"
    using assms(1) by (rule reachable_invariant)
      (simp add: woken_def new_session_def, rule woken_step)
  then have sig: "s_signal s" using assms(2-4) by (auto simp: woken_def has_top_def)
  let ?s1 = "at_acc k ATop (s\<lparr>s_signal := False\<rparr>)"
  obtain r q where q: "s_queue s = r # q" using assms(2) by (cases "s_queue s") auto
  let ?s2 = "at_acc k (AGot r) (?s1\<lparr>s_queue := q, s_signal := (q \<noteq> [])\<rparr>)"
  have "step um m me et s ?s1" by (rule step.accept_woken [OF assms(5) sig])
  moreover have "step um m me et ?s1 ?s2"
    by (rule step.accept_dequeued) (use q in \<open>simp_all add: dequeue_def\<close>)
  ultimately show ?thesis using q by (intro exI [of _ ?s1] exI [of _ ?s2] conjI) simp_all
qed

theorem accept_wakeup_never_lost_witness:
  "\<exists>s1 s2. step (\<lambda>_. Some offer) (\<lambda>_. []) (\<lambda>_. []) (\<lambda>_. []) offered s1
    \<and> step (\<lambda>_. Some offer) (\<lambda>_. []) (\<lambda>_. []) (\<lambda>_. []) s1 s2
    \<and> s_accs s2 0 = AGot (hd (s_queue offered)) \<and> s_queue s2 = tl (s_queue offered)"
  by (rule accept_wakeup_never_lost [OF offered_reachable])
    (simp_all add: offered_def new_session_def)

text \<open>A run of a host session in which the byte of an accepted stream is lost: the answer and
  the byte arrive one after the other, the caller of \<open>Open\<close> registers the stream only when it
  runs again, and by then the read loop has looked the byte's stream up and dropped it. The
  stream is open, the byte was dispatched for it, and its \<open>Read\<close> blocks.\<close>

theorem opened_stream_loses_data:
  "\<exists>s. reachable um (\<lambda>_. []) me et role_host s \<and> s_openers s 0 = OStream 0
    \<and> s_handled s = [ok_frame, byte_frame] \<and> s_reader s = RIdle
    \<and> s_phase s = ShOpen \<and> s_streams s 2 = Some 0
    \<and> (\<forall>n. stream_read n (s_heap s 0) = (Blocked, s_heap s 0))"
proof -
  let ?s1 = "at_reader (RHand byte_frame) (replied ''t'')"
  let ?s2 = "(replied ''t'')\<lparr>s_handled := [ok_frame, byte_frame]\<rparr>"
  let ?s3 = "?s2\<lparr>s_chans := (\<lambda>_. \<lparr>ch_content = None, ch_closed = False\<rparr>),
      s_openers := (\<lambda>_. OIdle)(0 := OGot 2 ''t'')\<rparr>"
  let ?s4 = "?s3\<lparr>s_openers := (\<lambda>_. OIdle)(0 := OStream 0),
      s_heap := (\<lambda>_. no_stream)(0 := no_stream\<lparr>st_id := 2, st_target := ''t'', st_born := 2\<rparr>),
      s_fresh := 1, s_streams := [2 \<mapsto> 0]\<rparr>"
  note defs = replied_def asked_def new_session_def data_frame_def
  have e1: "step um (\<lambda>_. []) me et (replied ''t'') ?s1"
    by (rule step.frame_read) (auto simp: defs frame_ok_def max_payload_def)
  have e2: "step um (\<lambda>_. []) me et ?s1 ?s2"
    by (rule step_to, rule step.frame_dispatched [where f = byte_frame])
      (auto simp: defs dispatch_def lookup_def)
  have e3: "step um (\<lambda>_. []) me et ?s2 ?s3"
    by (rule step_to, rule step.open_answered [where k = 0 and i = 2 and c = 0 and t = "''t''" and f = ok_frame])
      (auto simp: defs)
  have e4: "step um (\<lambda>_. []) me et ?s3 ?s4"
    by (rule step_to, rule step.open_registered [where k = 0 and i = 2 and t = "''t''" and r = 0])
      (auto simp: defs numeral_2_eq_2)
  have "reachable um (\<lambda>_. []) me et role_host ?s4"
    by (rule stepped [OF stepped [OF stepped [OF stepped [OF replied_reachable e1] e2] e3] e4])
  then show ?thesis
    by (intro exI [of _ ?s4] conjI) (simp_all add: defs stream_read_def no_stream_def)
qed

text \<open>A run of a host session that ends in a panic: the read loop has the answer to an OPEN in
  hand when another goroutine closes the session, which closes the reply channel but leaves it
  in \<open>pending\<close>; the loop then finds it there and sends on a closed channel.\<close>

theorem close_can_panic_read_loop:
  "\<exists>s. reachable um (\<lambda>_. []) me et role_host s \<and> s_reader s = RPanic \<and> s_err s = Some ErrClosed"
proof -
  let ?s1 = "at_reader (RHand ok_frame) (asked ''t'')"
  let ?s2 = "?s1\<lparr>s_phase := ShClosing, s_err := Some ErrClosed\<rparr>"
  let ?s3 = "?s2\<lparr>s_phase := ShSwept, s_chans := (s_chans ?s2)(0 := \<lparr>ch_content = None, ch_closed = True\<rparr>)\<rparr>"
  let ?s4 = "at_reader (RSend 0 ok_frame) ?s3\<lparr>s_pending := Map.empty, s_handled := [ok_frame]\<rparr>"
  note defs = asked_def new_session_def
  have e1: "step um (\<lambda>_. []) me et (asked ''t'') ?s1"
    by (rule step.frame_read) (auto simp: defs frame_ok_def)
  have e2: "step um (\<lambda>_. []) me et ?s1 ?s2"
    by (rule step_to, rule step.close_called) (auto simp: defs begin_shutdown_def)
  have e3: "step um (\<lambda>_. []) me et ?s2 ?s3"
    by (rule step_to, rule step.swept) (auto simp: defs sweep_def fun_eq_iff)
  have e4: "step um (\<lambda>_. []) me et ?s3 ?s4"
    by (rule step_to, rule step.frame_dispatched [where f = ok_frame])
      (auto simp: defs dispatch_def drop_pending_def)
  have e5: "step um (\<lambda>_. []) me et ?s4 (at_reader RPanic ?s4)"
    by (rule step.reply_panics [where c = 0 and f = ok_frame]) (auto simp: defs)
  have "reachable um (\<lambda>_. []) me et role_host (at_reader RPanic ?s4)"
    by (rule stepped [OF stepped [OF stepped [OF stepped [OF stepped [OF asked_reachable e1] e2] e3] e4] e5])
  then show ?thesis by (intro exI [of _ "at_reader RPanic ?s4"] conjI) simp_all
qed

section \<open>Stream operations\<close>

lemma write_loop_spec:
  "write_loop i oks p tot = (fs, n, e) \<Longrightarrow>
     tot \<le> n \<and> n - tot \<le> length p \<and> concat (map f_payload fs) = take (n - tot) p
     \<and> (\<forall>f \<in> set fs. f = data_frame i (f_payload f) \<and> f_payload f \<noteq> [] \<and> frame_ok f)
     \<and> (e \<longleftrightarrow> n - tot < length p)"
proof (induction i oks p tot arbitrary: fs n e rule: write_loop.induct)
  case (1 i oks p tot)
  show ?case
  proof (cases "p = []")
    case True
    then show ?thesis using 1(2) by (subst (asm) write_loop.simps) auto
  next
    case False
    define k where "k = (if length p > max_payload then max_payload else length p)"
    have k: "0 < k" "k \<le> length p" "k \<le> max_payload"
      using False by (auto simp: max_payload_def k_def)
    show ?thesis
    proof (cases "\<exists>oks'. oks = True # oks'")
      case False
      then show ?thesis using 1(2) \<open>p \<noteq> []\<close>
        by (subst (asm) write_loop.simps) (auto simp: Let_def split: list.splits bool.splits)
    next
      case True
      then obtain oks' where oks: "oks = True # oks'" by blast
      obtain fs' n' e' where rec: "write_loop i oks' (drop k p) (tot + k) = (fs', n', e')"
        by (metis prod_cases3)
      have "write_loop i oks p tot = (data_frame i (take k p) # fs', n', e')"
        using \<open>p \<noteq> []\<close> rec by (subst write_loop.simps) (simp add: oks Let_def k_def)
      then have res: "fs = data_frame i (take k p) # fs'" "n = n'" "e = e'" using 1(2) by simp_all
      have ih: "tot + k \<le> n' \<and> n' - (tot + k) \<le> length (drop k p)
         \<and> concat (map f_payload fs') = take (n' - (tot + k)) (drop k p)
         \<and> (\<forall>f \<in> set fs'. f = data_frame i (f_payload f) \<and> f_payload f \<noteq> [] \<and> frame_ok f)
         \<and> (e' \<longleftrightarrow> n' - (tot + k) < length (drop k p))"
        using 1(1) [OF \<open>p \<noteq> []\<close> k_def oks refl] rec by simp
      then have sum: "n - tot = k + (n' - (tot + k))" using res by linarith
      have "take (n - tot) p = take k p @ take (n' - (tot + k)) (drop k p)"
        by (simp only: sum take_add)
      moreover have "f_payload (data_frame i (take k p)) = take k p"
        and "take k p \<noteq> []" and "frame_ok (data_frame i (take k p))"
        using k \<open>p \<noteq> []\<close> by (simp_all add: data_frame_def frame_ok_def)
      moreover have "e \<longleftrightarrow> n - tot < length p" using ih res k sum by auto
      moreover have "n' - tot \<le> length p" using ih res(2) k sum by auto
      ultimately show ?thesis using ih res sum k by simp
    qed
  qed
qed

text \<open>\<open>Write\<close> cuts its argument into DATA frames of the stream that are never empty (an
  empty one would mean end of file) and never larger than a frame may be, whose payloads are in
  order exactly the bytes it reports as written; on an open stream it reports success if and
  only if that is everything.\<close>

theorem write_frames_carry_bytes:
  assumes "stream_write oks st p = (fs, n, err)"
  shows "concat (map f_payload fs) = take n p \<and> n \<le> length p
    \<and> (\<forall>f \<in> set fs. f = data_frame (st_id st) (f_payload f) \<and> f_payload f \<noteq> []
         \<and> length (f_payload f) \<le> 65536)
    \<and> (st_wclosed st \<or> st_closed st \<longrightarrow> fs = [] \<and> err = Some ErrStreamClosed)
    \<and> (\<not> st_wclosed st \<and> \<not> st_closed st \<longrightarrow> (err = None \<longleftrightarrow> n = length p))"
proof (cases "st_wclosed st \<or> st_closed st")
  case True
  with assms show ?thesis by (auto simp: stream_write_def split: if_splits)
next
  case False
  obtain fs' n' e where rec: "write_loop (st_id st) oks p 0 = (fs', n', e)" by (metis prod_cases3)
  with False assms have "fs = fs'" "n = n'" "err = (if e then Some WriteFailed else None)"
    by (simp_all add: stream_write_def)
  with write_loop_spec [OF rec] False show ?thesis
    by (auto simp: frame_ok_def max_payload_def)
qed

theorem write_frames_carry_bytes_witness:
  "concat (map f_payload [data_frame 0 [1, 2, 3]]) = take 3 [1, 2, 3 :: u8]
    \<and> f_payload (data_frame 0 [1, 2, 3]) \<noteq> []"
proof -
  have "write_loop 0 [True] [1, 2, 3] 0 = ([data_frame 0 [1, 2, 3]], 3, False)"
    by (subst write_loop.simps, simp add: max_payload_def, subst write_loop.simps, simp)
  then have "stream_write [True] no_stream [1, 2, 3] = ([data_frame 0 [1, 2, 3]], 3, None)"
    by (simp add: stream_write_def no_stream_def)
  from write_frames_carry_bytes [OF this] show ?thesis by simp
qed

lemma stream_read_Got:
  "stream_read n st = (Got b, st') \<Longrightarrow> 0 < n \<Longrightarrow>
     b \<noteq> [] \<and> b @ st_pending st' @ concat (st_in st') = st_pending st @ concat (st_in st)"
  by (auto simp: stream_read_def read_copy_def split: if_splits list.splits)

lemma stream_read_shorter:
  assumes "(Got b, st') = stream_read n st" and "0 < n"
  shows "length (st_pending st' @ concat (st_in st')) < length (st_pending st @ concat (st_in st))"
proof -
  have "b \<noteq> []" and eq: "b @ st_pending st' @ concat (st_in st') = st_pending st @ concat (st_in st)"
    using stream_read_Got [OF assms(1) [symmetric] assms(2)] by auto
  have "length b + length (st_pending st' @ concat (st_in st'))
      = length (st_pending st @ concat (st_in st))"
    by (simp only: eq length_append [symmetric])
  moreover from \<open>b \<noteq> []\<close> have "0 < length b" by simp
  ultimately show ?thesis by linarith
qed

text \<open>Reading with buffers of \<open>n\<close> bytes until \<open>Read\<close> has nothing more to return: the bytes and
  the last outcome.\<close>

function drain :: "nat \<Rightarrow> stream \<Rightarrow> bytes \<times> read_outcome" where
  "drain n st =
     (if n = 0 then ([], Blocked)
      else (case stream_read n st of
              (Got b, st') \<Rightarrow> (let (bs, r) = drain n st' in (b @ bs, r))
            | (r, st') \<Rightarrow> ([], r)))"
  by pat_completeness auto

termination
  by (relation "measure (\<lambda>(n, st). length (st_pending st @ concat (st_in st)))")
    (simp, simp del: length_append add: stream_read_shorter)

declare drain.simps [simp del]

definition last_outcome :: "stream \<Rightarrow> read_outcome" where
  "last_outcome st =
     (if st_eof st \<or> [] \<in> set (st_in st) then Failed IoEOF
      else if st_closed st
      then Failed (case st_err st of Some e \<Rightarrow> e | None \<Rightarrow> ErrStreamClosed) else Blocked)"

lemma drain_stop:
  "n \<noteq> 0 \<Longrightarrow> stream_read n st = (r, st') \<Longrightarrow> \<forall>b. r \<noteq> Got b \<Longrightarrow> drain n st = ([], r)"
  by (subst drain.simps) (auto split: read_outcome.splits)

lemma drain_got:
  "n \<noteq> 0 \<Longrightarrow> stream_read n st = (Got b, st') \<Longrightarrow> drain n st = (b @ fst (drain n st'), snd (drain n st'))"
  by (subst drain.simps) (auto simp: case_prod_beta)

abbreviation queued :: "stream \<Rightarrow> bytes" where
  "queued st \<equiv> (if st_eof st then [] else concat (takeWhile (\<lambda>b. b \<noteq> []) (st_in st)))"

lemma stream_read_step:
  assumes "stream_read n st = (Got b, st')" and "n \<noteq> 0"
  shows "b @ st_pending st' @ queued st' = st_pending st @ queued st"
    and "last_outcome st' = last_outcome st"
  using assms by (auto simp: stream_read_def read_copy_def last_outcome_def split: if_splits list.splits)

lemma drain_spec: "n \<noteq> 0 \<Longrightarrow> drain n st = (st_pending st @ queued st, last_outcome st)"
proof (induction n st rule: drain.induct)
  case (1 n st)
  obtain r st' where rd: "stream_read n st = (r, st')" by (cases "stream_read n st")
  show ?case
  proof (cases r)
    case (Got b)
    then have "drain n st' = (st_pending st' @ queued st', last_outcome st')"
      using 1 rd by simp
    then show ?thesis
      using drain_got [of n st b st'] stream_read_step [of n st b st'] 1(2) rd Got by simp
  qed (use drain_stop [OF 1(2) rd] rd 1(2) in
      \<open>auto simp: stream_read_def read_copy_def last_outcome_def split: if_splits list.splits\<close>)
qed

text \<open>However a stream ends, its reader first gets every byte that had arrived: with buffers
  of any positive size, successive \<open>Read\<close>s return the pending bytes and all chunks queued before
  the peer's end-of-file mark, in order and byte for byte, and only then end of file, the error
  the stream was closed with, or, on a stream that is still open, nothing yet.\<close>

theorem reader_gets_everything_first:
  "drain (Suc n) st =
     (st_pending st @ (if st_eof st then [] else concat (takeWhile (\<lambda>b. b \<noteq> []) (st_in st))),
      if st_eof st \<or> [] \<in> set (st_in st) then Failed IoEOF
      else if st_closed st
      then Failed (case st_err st of Some e \<Rightarrow> e | None \<Rightarrow> ErrStreamClosed) else Blocked)"
  using drain_spec [of "Suc n" st] by (simp add: last_outcome_def)

text \<open>When a host and a guest that use the same codec and protocol version exchange their
  HELLOs, both handshakes succeed, each learns the other's HELLO, and exactly the guest takes
  the odd ids; two sides that claim the same role are both refused.\<close>

theorem handshakes_agree:
  assumes "unmarshal (marshal (h\<lparr>h_magic := proto_magic, h_version := proto_version\<rparr>)) =
      Some (h\<lparr>h_magic := proto_magic, h_version := proto_version\<rparr>)"
    and "unmarshal (marshal (g\<lparr>h_magic := proto_magic, h_version := proto_version\<rparr>)) =
      Some (g\<lparr>h_magic := proto_magic, h_version := proto_version\<rparr>)"
    and "h_role h = role_host" and "h_role g = role_guest"
  shows "\<exists>sh sg. handshake unmarshal h (Some (True, Inr (encode_hello marshal g))) =
        Inr (g\<lparr>h_magic := proto_magic, h_version := proto_version\<rparr>, sh)
      \<and> handshake unmarshal g (Some (True, Inr (encode_hello marshal h))) =
        Inr (h\<lparr>h_magic := proto_magic, h_version := proto_version\<rparr>, sg)
      \<and> \<not> s_odd sh \<and> s_odd sg \<and> s_next sh = 2 \<and> s_next sg = 1
      \<and> handshake unmarshal h (Some (True, Inr (encode_hello marshal h))) = Inl (SameRole role_host)
      \<and> handshake unmarshal g (Some (True, Inr (encode_hello marshal g))) = Inl (SameRole role_guest)"
  using assms by (simp add: handshake_def encode_hello_def decode_hello_def new_session_def)

theorem handshakes_agree_witness:
  "let mk = (\<lambda>r. \<lparr>h_magic = proto_magic, h_version = proto_version, h_role = r, h_name = '''',
         h_agent_version = '''', h_caps = []\<rparr>);
       marshal = (\<lambda>h :: hello. if h_role h = role_host then [0] else [1]);
       unmarshal = (\<lambda>b. if b = [0] then Some (mk role_host) else Some (mk role_guest))
   in \<exists>sh sg. handshake unmarshal (mk role_host) (Some (True, Inr (encode_hello marshal (mk role_guest)))) =
        Inr ((mk role_guest)\<lparr>h_magic := proto_magic, h_version := proto_version\<rparr>, sh)
      \<and> handshake unmarshal (mk role_guest) (Some (True, Inr (encode_hello marshal (mk role_host)))) =
        Inr ((mk role_host)\<lparr>h_magic := proto_magic, h_version := proto_version\<rparr>, sg)
      \<and> \<not> s_odd sh \<and> s_odd sg \<and> s_next sh = 2 \<and> s_next sg = 1
      \<and> handshake unmarshal (mk role_host) (Some (True, Inr (encode_hello marshal (mk role_host))))
          = Inl (SameRole role_host)
      \<and> handshake unmarshal (mk role_guest) (Some (True, Inr (encode_hello marshal (mk role_guest))))
          = Inl (SameRole role_guest)"
  unfolding Let_def by (rule handshakes_agree) simp_all

end
