(* ===== verification/GoText.thy ===== *)
theory GoText
  imports GoStd "HOL-Library.Multiset"
begin

text \<open>
  More of package \<open>strings\<close>: searching from the end, cutting at a separator, and the facts
  about cutting and joining lines that the readers of text files share.
\<close>

fun last_index_sub :: "string \<Rightarrow> string \<Rightarrow> nat option" where
  "last_index_sub [] p = (if p = [] then Some 0 else None)"
| "last_index_sub (x # xs) p =
     (case last_index_sub xs p of
        Some i \<Rightarrow> Some (Suc i)
      | None \<Rightarrow> if has_prefix (x # xs) p then Some 0 else None)"

lemma last_index_sub_Some: "last_index_sub s p = Some i \<Longrightarrow> has_prefix (drop i s) p \<and> i \<le> length s"
  by (induction s arbitrary: i) (auto split: if_splits option.splits)

text \<open>\<open>strings.Cut\<close> at a byte.\<close>

definition cut_byte :: "char \<Rightarrow> string \<Rightarrow> string \<times> string \<times> bool" where
  "cut_byte c s =
     (case index_byte s c of
        Some i \<Rightarrow> (take i s, drop (Suc i) s, True)
      | None \<Rightarrow> (s, [], False))"

lemma cut_byte_append: "c \<notin> set a \<Longrightarrow> cut_byte c (a @ c # b) = (a, b, True)"
  by (simp add: cut_byte_def index_byte_append_stop)

lemma cut_byte_none: "c \<notin> set s \<Longrightarrow> cut_byte c s = (s, [], False)"
  using index_byte_None [of s c] by (simp add: cut_byte_def)

lemma trim_space_empty: "trim_space s = [] \<longleftrightarrow> (\<forall>c \<in> set s. is_space c)"
proof
  assume "trim_space s = []"
  then have "\<forall>c \<in> set (dropWhile is_space s). is_space c"
    by (simp add: trim_space_def trim_right_def trim_left_def)
  then have "dropWhile is_space s = []"
    by (metis hd_dropWhile hd_in_set)
  then show "\<forall>c \<in> set s. is_space c" by simp
next
  assume "\<forall>c \<in> set s. is_space c"
  then show "trim_space s = []"
    by (auto simp: trim_space_def trim_right_def trim_left_def dest: set_dropWhileD)
qed

lemma set_join_with: "c \<in> set (join_with sep xs) \<Longrightarrow> c \<in> set sep \<or> (\<exists>x \<in> set xs. c \<in> set x)"
  by (induction sep xs rule: join_with.induct) auto

text \<open>\<open>time.Time.Sub\<close> saturates at the range of an \<open>int64\<close>.\<close>

definition sub_time :: "int \<Rightarrow> int \<Rightarrow> int" where
  "sub_time a b = max (- (2 ^ 63)) (min (2 ^ 63 - 1) (a - b))"

text \<open>\<open>strconv.Itoa\<close>.\<close>

definition format_int :: "int \<Rightarrow> string" where
  "format_int n = (if n < 0 then CHR ''-'' # format_uint (nat (- n)) else format_uint (nat n))"

section \<open>Package path\<close>

text \<open>\<open>path.Split\<close> and \<open>path.Base\<close>.\<close>

definition split_path :: "string \<Rightarrow> string \<times> string" where
  "split_path p =
     (case last_index (\<lambda>c. c = CHR ''/'') p of None \<Rightarrow> ([], p) | Some i \<Rightarrow> (take (Suc i) p, drop (Suc i) p))"

definition base_name :: "string \<Rightarrow> string" where
  "base_name p =
     (if p = [] then ''.''
      else let q = trim_right (\<lambda>c. c = CHR ''/'') p in if q = [] then ''/'' else snd (split_path q))"

text \<open>\<open>path.Clean\<close> of a rooted path, by its elements, and \<open>path.Dir\<close> of one.\<close>

fun clean_elements :: "string list \<Rightarrow> string list \<Rightarrow> string list" where
  "clean_elements kept [] = kept"
| "clean_elements kept (e # es) =
     (if e = [] \<or> e = ''.'' then clean_elements kept es
      else if e = ''..'' then clean_elements (butlast kept) es
      else clean_elements (kept @ [e]) es)"

definition clean_rooted :: "string \<Rightarrow> string" where
  "clean_rooted p = CHR ''/'' # join_with ''/'' (clean_elements [] (split_on CHR ''/'' p))"

definition dir_rooted :: "string \<Rightarrow> string" where
  "dir_rooted p = clean_rooted (fst (split_path p))"

section \<open>Package sort\<close>

text \<open>A stable sort by a comparison: each element goes before the first that does not come before it.\<close>

fun insert_stable :: "('a \<Rightarrow> 'a \<Rightarrow> bool) \<Rightarrow> 'a \<Rightarrow> 'a list \<Rightarrow> 'a list" where
  "insert_stable lt x [] = [x]"
| "insert_stable lt x (y # ys) = (if lt y x then y # insert_stable lt x ys else x # y # ys)"

definition stable_sort_by :: "('a \<Rightarrow> 'a \<Rightarrow> bool) \<Rightarrow> 'a list \<Rightarrow> 'a list" where
  "stable_sort_by lt xs = foldr (insert_stable lt) xs []"

lemma insert_stable_insort:
  "(\<And>a b. lt a b \<longleftrightarrow> f a < f b) \<Longrightarrow> insert_stable lt x xs = insort_key f x xs"
  for f :: "'a \<Rightarrow> 'b :: linorder"
  by (induction xs) auto

lemma stable_sort_by_key:
  "(\<And>a b. lt a b \<longleftrightarrow> f a < f b) \<Longrightarrow> stable_sort_by lt xs = sort_key f xs"
  for f :: "'a \<Rightarrow> 'b :: linorder"
  unfolding stable_sort_by_def sort_key_def
  by (induction xs) (simp_all add: insert_stable_insort)

lemma mset_insert_stable: "mset (insert_stable lt x xs) = add_mset x (mset xs)"
  by (induction xs) auto

lemma mset_stable_sort_by: "mset (stable_sort_by lt xs) = mset xs"
  unfolding stable_sort_by_def by (induction xs) (simp_all add: mset_insert_stable)

text \<open>Sorting by a falling key: the first element has the largest.\<close>

lemma set_insert_stable [simp]: "set (insert_stable lt x xs) = insert x (set xs)"
  using mset_insert_stable[of lt x xs] by (metis set_mset_add_mset_insert set_mset_mset)

lemma insert_stable_falling:
  "(\<And>a b. lt a b \<longleftrightarrow> g b < g a) \<Longrightarrow> sorted_wrt (\<lambda>a b. g b \<le> g a) xs \<Longrightarrow>
   sorted_wrt (\<lambda>a b. g b \<le> g a) (insert_stable lt x xs)"
  for g :: "'a \<Rightarrow> 'b :: linorder"
  by (induction xs) (auto simp: not_less intro: order.trans)

lemma stable_sort_falling:
  "(\<And>a b. lt a b \<longleftrightarrow> g b < g a) \<Longrightarrow> sorted_wrt (\<lambda>a b. g b \<le> g a) (stable_sort_by lt xs)"
  for g :: "'a \<Rightarrow> 'b :: linorder"
  unfolding stable_sort_by_def by (induction xs) (simp_all add: insert_stable_falling)

end
