(* ===== verification/GoNet.thy ===== *)
theory GoNet
  imports GoText
begin

text \<open>
  The parts of Go's standard library that handle network addresses and quoted text:
  \<open>strings.Cut\<close>, \<open>strings.FieldsFunc\<close>, the verb \<open>%q\<close> of package \<open>fmt\<close> (on ASCII text; a
  byte above 127 is left as it is), \<open>net.SplitHostPort\<close>, \<open>net.JoinHostPort\<close> and
  \<open>net.ParseIP\<close>.
\<close>

section \<open>Package strings\<close>

definition cut_sub :: "string \<Rightarrow> string \<Rightarrow> string \<times> string \<times> bool" where
  "cut_sub s sep =
     (case index_sub s sep of
        Some i \<Rightarrow> (take i s, drop (i + length sep) s, True)
      | None \<Rightarrow> (s, [], False))"

fun runs :: "(char \<Rightarrow> bool) \<Rightarrow> string \<Rightarrow> string \<Rightarrow> string list" where
  "runs sep cur [] = (if cur = [] then [] else [cur])"
| "runs sep cur (c # s) =
     (if \<not> sep c then runs sep (cur @ [c]) s
      else if cur = [] then runs sep [] s else cur # runs sep [] s)"

definition fields_func :: "(char \<Rightarrow> bool) \<Rightarrow> string \<Rightarrow> string list" where
  "fields_func sep s = runs sep [] s"

definition to_upper :: "string \<Rightarrow> string" where
  "to_upper s = map (\<lambda>c. let n = of_char c :: nat in
     if 97 \<le> n \<and> n \<le> 122 then char_of (n - 32) else c) s"

lemma runs_nonempty: "f \<in> set (runs sep cur s) \<Longrightarrow> f \<noteq> []"
  by (induction sep cur s rule: runs.induct) (auto split: if_splits)

lemma index_sub_split:
  assumes "index_sub s p = Some i"
  shows "s = take i s @ p @ drop (i + length p) s"
  using assms
proof (induction s arbitrary: i)
  case (Cons x s)
  show ?case
  proof (cases "has_prefix (x # s) p")
    case True
    then have "i = 0" using Cons.prems by simp
    moreover obtain t where "x # s = p @ t" using True by (auto simp: has_prefix_iff)
    ultimately show ?thesis by simp
  next
    case False
    then obtain j where "index_sub s p = Some j" "i = Suc j" using Cons.prems by auto
    then show ?thesis using Cons.IH [of j] by simp
  qed
qed (simp split: if_splits)

lemma index_sub_append:
  "index_sub (p @ s) p = Some 0"
proof (cases "p @ s")
  case (Cons x t)
  then have "has_prefix (x # t) p" by (metis has_prefix_append)
  then show ?thesis using Cons by simp
qed simp

lemma contains_append: "contains (a @ p @ b) p"
proof (induction a)
  case Nil show ?case by (simp add: contains_def index_sub_append)
next
  case (Cons x a) then show ?case by (auto simp: contains_def)
qed

lemma contains_iff: "contains s p \<longleftrightarrow> (\<exists>a b. s = a @ p @ b)"
proof
  assume "contains s p"
  then obtain i where "index_sub s p = Some i" by (auto simp: contains_def)
  from index_sub_split [OF this] show "\<exists>a b. s = a @ p @ b" by blast
qed (auto simp: contains_append)

lemma index_sub_None: "index_sub s p = None \<longleftrightarrow> \<not> contains s p"
  by (simp add: contains_def)

text \<open>The first occurrence: a separator that first shows up after \<open>a\<close> is found there.\<close>

lemma cut_sub_first:
  assumes "\<And>i. i < length a \<Longrightarrow> \<not> has_prefix (drop i (a @ p @ b)) p"
  shows "cut_sub (a @ p @ b) p = (a, b, True)"
proof -
  have "index_sub (a @ p @ b) p = Some (length a)"
    using assms
  proof (induction a)
    case Nil show ?case by (simp add: index_sub_append)
  next
    case (Cons x a)
    have no: "\<not> has_prefix (x # a @ p @ b) p" using Cons.prems [of 0] by simp
    have "\<not> has_prefix (drop i (a @ p @ b)) p" if "i < length a" for i
      using Cons.prems [of "Suc i"] that by simp
    from Cons.IH [OF this] no show ?case by simp
  qed
  then show ?thesis by (simp add: cut_sub_def)
qed

lemma cut_sub_none: "\<not> contains s p \<Longrightarrow> cut_sub s p = (s, [], False)"
  by (simp add: cut_sub_def contains_def)

section \<open>Package fmt: the verb q\<close>

definition hex_digit :: "nat \<Rightarrow> char" where
  "hex_digit n = (if n < 10 then char_of (48 + n) else char_of (87 + n))"

definition quoted_char :: "char \<Rightarrow> string" where
  "quoted_char c =
     (let n = of_char c :: nat in
      if c = CHR 0x22 \<or> c = CHR 0x5C then [CHR 0x5C, c]
      else if n = 7 then [CHR 0x5C, CHR ''a'']
      else if n = 8 then [CHR 0x5C, CHR ''b'']
      else if n = 12 then [CHR 0x5C, CHR ''f'']
      else if n = 10 then [CHR 0x5C, CHR ''n'']
      else if n = 13 then [CHR 0x5C, CHR ''r'']
      else if n = 9 then [CHR 0x5C, CHR ''t'']
      else if n = 11 then [CHR 0x5C, CHR ''v'']
      else if n < 32 \<or> n = 127 then [CHR 0x5C, CHR ''x'', hex_digit (n div 16), hex_digit (n mod 16)]
      else [c])"

definition go_quote :: "string \<Rightarrow> string" where
  "go_quote s = [CHR 0x22] @ concat (map quoted_char s) @ [CHR 0x22]"

lemma hex_digit_no_newline: "n < 16 \<Longrightarrow> hex_digit n \<noteq> newline"
proof
  assume n: "n < 16" and eq: "hex_digit n = newline"
  from eq have "(of_char (hex_digit n) :: nat) = 10" by (simp add: newline_def)
  then show False using n by (simp add: hex_digit_def split: if_splits)
qed

lemma quoted_char_no_newline: "newline \<notin> set (quoted_char c)"
proof -
  have "(of_char c :: nat) div 16 < 16" by (simp add: less_mult_imp_div_less)
  then have "hex_digit (of_char c div 16) \<noteq> newline" "hex_digit (of_char c mod 16) \<noteq> newline"
    by (simp_all add: hex_digit_no_newline)
  moreover have "c = newline \<Longrightarrow> (of_char c :: nat) = 10" by (simp add: newline_def)
  ultimately show ?thesis
    by (auto simp: quoted_char_def Let_def) (auto simp: newline_def)
qed

lemma go_quote_no_newline: "newline \<notin> set (go_quote s)"
  using quoted_char_no_newline by (auto simp: go_quote_def newline_def)

section \<open>Package net\<close>

definition colon :: char where "colon = CHR '':''"
definition open_bracket :: char where "open_bracket = CHR ''[''"
definition close_bracket :: char where "close_bracket = CHR '']''"

definition split_host_port :: "string \<Rightarrow> (string \<times> string) option" where
  "split_host_port hp =
     (case last_index (\<lambda>c. c = colon) hp of
        None \<Rightarrow> None
      | Some i \<Rightarrow>
          if hd hp = open_bracket then
            (case index_byte hp close_bracket of
               None \<Rightarrow> None
             | Some e \<Rightarrow>
                 if e + 1 \<noteq> i then None
                 else if open_bracket \<in> set (drop 1 hp) \<or> close_bracket \<in> set (drop (e + 1) hp) then None
                 else Some (take (e - 1) (drop 1 hp), drop (i + 1) hp))
          else if colon \<in> set (take i hp) \<or> open_bracket \<in> set hp \<or> close_bracket \<in> set hp then None
          else Some (take i hp, drop (i + 1) hp))"

definition join_host_port :: "string \<Rightarrow> string \<Rightarrow> string" where
  "join_host_port host port =
     (if colon \<in> set host then open_bracket # host @ [close_bracket, colon] @ port
      else host @ [colon] @ port)"

lemma host_port_neq:
  "colon \<noteq> open_bracket" "close_bracket \<noteq> open_bracket" "colon \<noteq> close_bracket"
  by (simp_all add: colon_def open_bracket_def close_bracket_def)

lemma split_join_host_port:
  assumes "open_bracket \<notin> set host" and "close_bracket \<notin> set host"
    and "colon \<notin> set port" and "open_bracket \<notin> set port" and "close_bracket \<notin> set port"
  shows "split_host_port (join_host_port host port) = Some (host, port)"
proof (cases "colon \<in> set host")
  case True
  have last: "last_index (\<lambda>c. c = colon) ((open_bracket # host @ [close_bracket]) @ colon # port)
      = Some (length (open_bracket # host @ [close_bracket]))"
    by (rule last_index_append_stop) (use assms in auto)
  have idx: "index_byte ((open_bracket # host) @ close_bracket # colon # port) close_bracket
      = Some (length (open_bracket # host))"
    by (rule index_byte_append_stop) (use assms host_port_neq in auto)
  show ?thesis using True assms last idx host_port_neq
    by (simp add: split_host_port_def join_host_port_def)
next
  case False
  have last: "last_index (\<lambda>c. c = colon) (host @ colon # port) = Some (length host)"
    by (rule last_index_append_stop) (use assms in auto)
  have "hd (host @ colon # port) \<noteq> open_bracket" using assms host_port_neq by (cases host) auto
  then show ?thesis using False assms last host_port_neq host_port_neq [symmetric]
    by (simp add: split_host_port_def join_host_port_def)
qed

text \<open>\<open>net.ParseIP\<close>: the sixteen bytes of an address, an IPv4 address in its mapped form.\<close>

definition parse_octet :: "string \<Rightarrow> nat option" where
  "parse_octet s =
     (if s = [] \<or> \<not> list_all is_digit s \<or> length s > 3
        \<or> length s > 1 \<and> hd s = CHR ''0'' \<or> digits_val s > 255 then None
      else Some (digits_val s))"

definition parse_ipv4 :: "string \<Rightarrow> nat list option" where
  "parse_ipv4 s =
     (let fs = map parse_octet (split_on CHR ''.'' s)
      in if length fs = 4 \<and> None \<notin> set fs then Some (map the fs) else None)"

definition hex_val :: "char \<Rightarrow> nat option" where
  "hex_val c =
     (let n = of_char c :: nat in
      if 48 \<le> n \<and> n \<le> 57 then Some (n - 48)
      else if 97 \<le> n \<and> n \<le> 102 then Some (n - 87)
      else if 65 \<le> n \<and> n \<le> 70 then Some (n - 55)
      else None)"

definition hex_run :: "string \<Rightarrow> string" where
  "hex_run s = takeWhile (\<lambda>c. hex_val c \<noteq> None) s"

definition hex_number :: "string \<Rightarrow> nat" where
  "hex_number s = foldl (\<lambda>n c. n * 16 + (case hex_val c of Some v \<Rightarrow> v | None \<Rightarrow> 0)) 0 s"

text \<open>The loop over the fields of an IPv6 address: what is left, the bytes so far and the
  position of the ellipsis.\<close>

fun ipv6_fields :: "nat \<Rightarrow> string \<Rightarrow> nat list \<Rightarrow> nat option \<Rightarrow> (string \<times> nat list \<times> nat option) option" where
  "ipv6_fields 0 s ip el = Some (s, ip, el)"
| "ipv6_fields (Suc n) s ip el =
     (let run = hex_run s; rest = drop (length run) s in
      if length run > 4 \<or> run = [] then None
      else if rest \<noteq> [] \<and> hd rest = CHR ''.'' then
        (if el = None \<and> length ip \<noteq> 12 \<or> length ip + 4 > 16 then None
         else (case parse_ipv4 s of None \<Rightarrow> None | Some b \<Rightarrow> Some ([], ip @ b, el)))
      else
        (let ip' = ip @ [hex_number run div 256, hex_number run mod 256] in
         case rest of
           [] \<Rightarrow> Some ([], ip', el)
         | c # r \<Rightarrow>
             if c \<noteq> CHR '':'' \<or> r = [] then None
             else if hd r = CHR '':'' then
               (if el \<noteq> None then None
                else if tl r = [] then Some ([], ip', Some (length ip'))
                else if length ip' \<ge> 16 then Some (tl r, ip', Some (length ip'))
                else ipv6_fields n (tl r) ip' (Some (length ip')))
             else if length ip' \<ge> 16 then Some (r, ip', el)
             else ipv6_fields n r ip' el))"

definition parse_ipv6 :: "string \<Rightarrow> nat list option" where
  "parse_ipv6 s =
     (let start = has_prefix s ''::'' in
      if start \<and> drop 2 s = [] then Some (replicate 16 0)
      else
        (case ipv6_fields 8 (if start then drop 2 s else s) [] (if start then Some 0 else None) of
           None \<Rightarrow> None
         | Some (rest, ip, el) \<Rightarrow>
             if rest \<noteq> [] then None
             else
               (case el of
                  None \<Rightarrow> if length ip < 16 then None else Some ip
                | Some e \<Rightarrow>
                    if length ip < 16 then Some (take e ip @ replicate (16 - length ip) 0 @ drop e ip)
                    else None)))"

definition parse_ip :: "string \<Rightarrow> nat list option" where
  "parse_ip s =
     (case find (\<lambda>c. c = CHR ''.'' \<or> c = CHR '':'' \<or> c = CHR ''%'') s of
        None \<Rightarrow> None
      | Some c \<Rightarrow>
          if c = CHR ''.'' then
            map_option (\<lambda>b. replicate 10 0 @ [255, 255] @ b) (parse_ipv4 s)
          else if c = CHR '':'' \<and> CHR ''%'' \<notin> set s then parse_ipv6 s
          else None)"

definition ip_is_loopback :: "nat list \<Rightarrow> bool" where
  "ip_is_loopback ip \<longleftrightarrow>
     (if take 12 ip = replicate 10 0 @ [255, 255] then ip ! 12 = 127
      else ip = replicate 15 0 @ [1])"

end
