(* ===== verification/Relay.thy ===== *)
theory Relay
  imports Prelude
begin

text \<open>
  \<open>internal/agent/relay/relay.go\<close>: copying bytes between two duplex endpoints. An endpoint
  being read is the list of results its \<open>Read\<close> calls return, in order; an endpoint being
  written is a sink that records the writes it accepted and may start to fail. A list of
  reads that ends without an error is an endpoint that has nothing to say yet: the loop is
  then still blocked in \<open>Read\<close>.
\<close>

section \<open>Endpoints\<close>

datatype read_end = ReadEOF | ReadErr

type_synonym read_result = "bytes \<times> read_end option"

text \<open>The accepted writes in order, and how many more succeed (\<open>None\<close>: all of them).\<close>

type_synonym sink = "bytes list \<times> nat option"

fun sink_write :: "sink \<Rightarrow> bytes \<Rightarrow> sink option" where
  "sink_write (ws, None) b = Some (ws @ [b], None)"
| "sink_write (ws, Some 0) b = None"
| "sink_write (ws, Some (Suc n)) b = Some (ws @ [b], Some n)"

abbreviation sink_bytes :: "sink \<Rightarrow> bytes" where
  "sink_bytes k \<equiv> concat (fst k)"

text \<open>
  \<open>Filter.Forward\<close>: from the filter's state, the data and the writer for replies to
  whether it failed, the bytes to forward, the new state and the writer afterwards.
\<close>

type_synonym 'f forward = "'f \<Rightarrow> bytes \<Rightarrow> sink \<Rightarrow> bool \<times> bytes \<times> 'f \<times> sink"

datatype copy_result = Running | CopyDone | FilterError | WriteError | SourceError

record 'f direction =
  d_filter :: 'f
  d_src :: sink   \<comment> \<open>replies the filter wrote back to the source\<close>
  d_dst :: sink   \<comment> \<open>what was written to the destination\<close>
  d_half_closed :: bool   \<comment> \<open>\<open>CloseWrite\<close> was called on the destination\<close>

section \<open>copyDir and Pipe\<close>

text \<open>The size of the buffer \<open>copyDir\<close> reads into, so of the longest read.\<close>

definition relay_buffer :: nat where "relay_buffer = 32 * 1024"

fun copy_dir ::
  "'f forward option \<Rightarrow> read_result list \<Rightarrow> 'f direction \<Rightarrow> copy_result \<times> 'f direction"
where
  "copy_dir flt [] d = (Running, d)"
| "copy_dir flt ((buf, err) # reads) d =
     (let (ferr, out, d1) =
        (if buf = [] then (False, [], d)
         else case flt of
                None \<Rightarrow> (False, buf, d)
              | Some fwd \<Rightarrow>
                  (case fwd (d_filter d) buf (d_src d) of
                     (fe, o1, f', s') \<Rightarrow> (fe, o1, d\<lparr>d_filter := f', d_src := s'\<rparr>)))
      in if ferr then (FilterError, d1)
         else case (if out = [] then Some (d_dst d1) else sink_write (d_dst d1) out) of
                None \<Rightarrow> (WriteError, d1)
              | Some dst \<Rightarrow>
                  (let d2 = d1\<lparr>d_dst := dst\<rparr>
                   in case err of
                        None \<Rightarrow> copy_dir flt reads d2
                      | Some ReadEOF \<Rightarrow> (CopyDone, d2\<lparr>d_half_closed := True\<rparr>)
                      | Some ReadErr \<Rightarrow> (SourceError, d2\<lparr>d_half_closed := True\<rparr>)))"

text \<open>
  \<open>Pipe\<close> starts one copy per direction, waits for both (\<open>wg.Wait\<close>), closes both ends and
  returns the first error it receives. \<open>None\<close>: it is still waiting. \<open>first\<close> says whether
  the a-to-b copy was the first to report.
\<close>

definition copy_error :: "copy_result \<Rightarrow> copy_result option" where
  "copy_error r = (if r = CopyDone then None else Some r)"

definition pipe_result ::
  "bool \<Rightarrow> copy_result \<Rightarrow> copy_result \<Rightarrow> copy_result option option"
where
  "pipe_result first ab ba =
     (if ab = Running \<or> ba = Running then None
      else (let es = (if first then [copy_error ab, copy_error ba]
                      else [copy_error ba, copy_error ab])
            in Some (case es ! 0 of Some e \<Rightarrow> Some e | None \<Rightarrow> es ! 1)))"

section \<open>The contract of a filter\<close>

text \<open>
  What the relay needs of a filter for the reader not to notice how the traffic was cut into
  reads: on acceptable input it does not fail, and forwarding two pieces one after the other
  is forwarding them at once. Acceptability \<open>ok f b\<close> says that \<open>b\<close> may arrive in state \<open>f\<close>;
  \<open>small b\<close> that \<open>b\<close> is no longer than one read of the copy loop may return.
\<close>

locale stream_filter =
  fixes fwd :: "'f forward"
    and ok :: "'f \<Rightarrow> bytes \<Rightarrow> bool"
    and small :: "bytes \<Rightarrow> bool"
    and out_of :: "'f \<Rightarrow> bytes \<Rightarrow> bytes"
    and replies_of :: "'f \<Rightarrow> bytes \<Rightarrow> bytes list"
    and next_of :: "'f \<Rightarrow> bytes \<Rightarrow> 'f"
  assumes fwd_ok: "ok f b \<Longrightarrow> small b \<Longrightarrow> fwd f b (ws, None) =
            (False, out_of f b, next_of f b, (ws @ replies_of f b, None))"
    and ok_append: "ok f (a @ b) \<Longrightarrow> ok f a \<and> ok (next_of f a) b"
    and out_append: "ok f (a @ b) \<Longrightarrow> out_of f (a @ b) = out_of f a @ out_of (next_of f a) b"
    and replies_append:
      "ok f (a @ b) \<Longrightarrow> replies_of f (a @ b) = replies_of f a @ replies_of (next_of f a) b"
    and next_append: "ok f (a @ b) \<Longrightarrow> next_of f (a @ b) = next_of (next_of f a) b"
    and ok_Nil: "ok f b \<Longrightarrow> out_of f [] = [] \<and> replies_of f [] = [] \<and> next_of f [] = f"
begin

text \<open>
  The copy loop over any cutting of an acceptable input: the destination gets what the
  filter makes of the whole input, the source gets the replies, and the end of the input is
  passed on as a half-close.
\<close>

lemma copy_dir_ok:
  assumes "ok (d_filter d) (concat cs)" and "list_all small cs" and "snd (d_src d) = None" and "snd (d_dst d) = None"
  shows "\<exists>d'. copy_dir (Some fwd) (map (\<lambda>c. (c, None)) cs @ [([], Some ReadEOF)]) d = (CopyDone, d')
     \<and> sink_bytes (d_dst d') = sink_bytes (d_dst d) @ out_of (d_filter d) (concat cs)
     \<and> fst (d_src d') = fst (d_src d) @ replies_of (d_filter d) (concat cs)
     \<and> d_filter d' = next_of (d_filter d) (concat cs)
     \<and> d_half_closed d'"
  using assms
proof (induction cs arbitrary: d)
  case Nil
  obtain ws where "d_dst d = (ws, None)" using Nil by (cases "d_dst d") auto
  then show ?case using ok_Nil [of "d_filter d" "[]"] Nil by (auto simp: Let_def)
next
  case (Cons c cs)
  obtain ws rs where ws: "d_dst d = (ws, None)" and rs: "d_src d = (rs, None)"
    using Cons.prems by (cases "d_dst d"; cases "d_src d") auto
  let ?f = "d_filter d"
  have ok: "ok ?f (c @ concat cs)" and small: "small c" using Cons.prems by simp_all
  have "ok ?f c" using ok_append [OF ok] by blast
  note laws = ok_append [OF ok] out_append [OF ok] replies_append [OF ok] next_append [OF ok]
    fwd_ok [OF \<open>ok ?f c\<close> small, of rs]
  show ?case
  proof (cases "c = []")
    case True
    with Cons.IH [of d] Cons.prems show ?thesis by (auto simp: Let_def ws)
  next
    case False
    let ?d2 = "d\<lparr>d_filter := next_of ?f c, d_src := (rs @ replies_of ?f c, None),
        d_dst := (if out_of ?f c = [] then (ws, None) else (ws @ [out_of ?f c], None))\<rparr>"
    have "copy_dir (Some fwd) (map (\<lambda>c. (c, None)) (c # cs) @ [([], Some ReadEOF)]) d =
          copy_dir (Some fwd) (map (\<lambda>c. (c, None)) cs @ [([], Some ReadEOF)]) ?d2"
      using False laws by (simp add: Let_def ws rs)
    moreover have "\<exists>d'. copy_dir (Some fwd) (map (\<lambda>c. (c, None)) cs @ [([], Some ReadEOF)]) ?d2
        = (CopyDone, d')
      \<and> sink_bytes (d_dst d') = sink_bytes (d_dst ?d2) @ out_of (d_filter ?d2) (concat cs)
      \<and> fst (d_src d') = fst (d_src ?d2) @ replies_of (d_filter ?d2) (concat cs)
      \<and> d_filter d' = next_of (d_filter ?d2) (concat cs) \<and> d_half_closed d'"
      by (rule Cons.IH) (use laws Cons.prems in simp_all)
    ultimately show ?thesis using laws by (auto simp: ws rs)
  qed
qed

end

text \<open>The absent filter is one too: everything is forwarded, nothing is answered.\<close>

definition no_filter :: "unit forward" where
  "no_filter u b s = (False, b, u, s)"

interpretation plain: stream_filter no_filter "\<lambda>u b. True" "\<lambda>b. True" "\<lambda>u b. b" "\<lambda>u b. []" "\<lambda>u b. u"
  by unfold_locales (auto simp: no_filter_def)

lemma direction_unit_filter [simp]: "(d :: unit direction)\<lparr>d_filter := (), d_src := d_src d\<rparr> = d"
  by (cases d) simp

lemma copy_dir_no_filter:
  "copy_dir (None :: unit forward option) rs d = copy_dir (Some no_filter) rs d"
  by (induction rs arbitrary: d)
    (auto simp: no_filter_def Let_def split: option.splits read_end.splits)

section \<open>Properties\<close>

text \<open>Without a filter, a copy direction that is fed any sequence of reads and then end of
  file completes, has written exactly the bytes it read, in order, and has passed the end of
  file on as a half-close.\<close>

theorem copy_dir_plain_complete:
  "\<exists>d'. copy_dir (None :: unit forward option) (map (\<lambda>c. (c, None)) cs @ [([], Some ReadEOF)])
          \<lparr>d_filter = (), d_src = ([], None), d_dst = ([], None), d_half_closed = False\<rparr>
        = (CopyDone, d')
      \<and> sink_bytes (d_dst d') = concat cs \<and> fst (d_src d') = [] \<and> d_half_closed d'"
  using plain.copy_dir_ok [where cs = cs and d = "\<lparr>d_filter = (), d_src = ([], None),
      d_dst = ([], None), d_half_closed = False\<rparr>"]
  by (auto simp: copy_dir_no_filter list_all_iff)

text \<open>\<open>Pipe\<close> does not return when one direction fails: with one copy stopped by a
  write error (which half-closes nothing) and the other still blocked in \<open>Read\<close>, it is
  still waiting, although its comment says it relays until both are done or one errors.\<close>

theorem pipe_outlives_an_error:
  "pipe_result first (fst (copy_dir (None :: unit forward option) [([1], None)]
       \<lparr>d_filter = (), d_src = ([], None), d_dst = ([], Some 0), d_half_closed = False\<rparr>))
     (fst (copy_dir (None :: unit forward option) []
       \<lparr>d_filter = (), d_src = ([], None), d_dst = ([], None), d_half_closed = False\<rparr>)) = None
   \<and> fst (copy_dir (None :: unit forward option) [([1], None)]
       \<lparr>d_filter = (), d_src = ([], None), d_dst = ([], Some 0), d_half_closed = False\<rparr>) = WriteError"
  by (simp add: pipe_result_def Let_def)

end
