(* ===== verification/AgentFilter.thy ===== *)
theory AgentFilter
  imports GoStd Relay
begin

text \<open>
  \<open>internal/agent/filter/filter.go\<close>: the SSH agent filter. It re-frames the length-prefixed
  agent messages out of the chunks that happen to arrive, answers extension requests itself
  and forwards everything else.
\<close>

section \<open>Constants\<close>

abbreviation ssh_agentc_extension :: u8 where "ssh_agentc_extension \<equiv> 27"
abbreviation ssh_agent_failure :: u8 where "ssh_agent_failure \<equiv> 5"

definition max_agent_message :: nat where "max_agent_message = 256 * 1024"

definition ssh_failure_reply :: bytes where
  "ssh_failure_reply = [0, 0, 0, 1, ssh_agent_failure]"

section \<open>The filter\<close>

datatype filter_kind = SSHAgent | NoFilter

definition new_filter :: "string \<Rightarrow> filter_kind option" where
  "new_filter name =
     (if name = ''ssh-agent'' then Some SSHAgent
      else if name = '''' then Some NoFilter else None)"

text \<open>The loop of \<open>Forward\<close>, over the buffer, the output so far and the reply writer.\<close>

function ssh_loop :: "bytes \<Rightarrow> bytes \<Rightarrow> sink \<Rightarrow> bool \<times> bytes \<times> bytes \<times> sink" where
  "ssh_loop buf out w =
     (if length buf < 4 then (False, out, buf, w)
      else (let n = get_u32_be (take 4 buf)
            in if n = 0 \<or> unat n > max_agent_message then (False, out @ buf, [], w)
               else if (of_nat (length buf - 4) :: u32) < n then (False, out, buf, w)
               else (let msg = take (4 + unat n) buf; rest = drop (4 + unat n) buf
                     in if msg ! 4 = ssh_agentc_extension
                        then (case sink_write w ssh_failure_reply of
                                None \<Rightarrow> (True, out, rest, w)
                              | Some w' \<Rightarrow> ssh_loop rest out w')
                        else ssh_loop rest (out @ msg) w)))"
  by pat_completeness auto
termination
  by (relation "measure (\<lambda>(buf, out, w). length buf)") auto

declare ssh_loop.simps [simp del]

definition ssh_forward :: "bytes forward" where
  "ssh_forward buf data w = ssh_loop (buf @ data) [] w"

section \<open>What it should do\<close>

text \<open>
  The specification: a buffer is a sequence of complete messages and an incomplete rest; the
  messages that are not extension requests are forwarded as they came, each extension request
  is answered with a failure.
\<close>

definition ssh_msg :: "bytes \<Rightarrow> bytes" where
  "ssh_msg m = put_u32_be (of_nat (length m)) @ m"

definition ssh_valid :: "bytes \<Rightarrow> bool" where
  "ssh_valid m \<longleftrightarrow> m \<noteq> [] \<and> length m \<le> max_agent_message"

definition ssh_forwards :: "bytes list \<Rightarrow> bytes" where
  "ssh_forwards ms = concat (map ssh_msg (filter (\<lambda>m. hd m \<noteq> ssh_agentc_extension) ms))"

definition ssh_replies :: "bytes list \<Rightarrow> bytes list" where
  "ssh_replies ms = map (\<lambda>m. ssh_failure_reply) (filter (\<lambda>m. hd m = ssh_agentc_extension) ms)"

text \<open>An incomplete rest: a proper prefix of some valid message's encoding.\<close>

definition ssh_partial :: "bytes \<Rightarrow> bool" where
  "ssh_partial r \<longleftrightarrow> (\<exists>m t. ssh_valid m \<and> t \<noteq> [] \<and> ssh_msg m = r @ t)"

lemma ssh_msg_len [simp]: "length (ssh_msg m) = 4 + length m"
  by (simp add: ssh_msg_def)

lemma max_agent_small: "max_agent_message < 2 ^ 32"
  by (simp add: max_agent_message_def)

lemma unat_u32_small: "k < 2 ^ 32 \<Longrightarrow> unat (of_nat k :: u32) = k"
  by (simp add: unat_of_nat)

lemma unat_msg_len: "ssh_valid m \<Longrightarrow> unat (of_nat (length m) :: u32) = length m"
  using max_agent_small by (simp add: ssh_valid_def unat_of_nat)

lemma ssh_msg_head:
  assumes "ssh_valid m"
  shows "unat (get_u32_be (take 4 (ssh_msg m @ r))) = length m"
  using get_put_u32_be [of "of_nat (length m)" "[]"] unat_msg_len [OF assms]
  by (simp add: ssh_msg_def)

lemma ssh_msg_body:
  "ssh_valid m \<Longrightarrow> (ssh_msg m @ r) ! 4 = hd m"
  by (cases m) (auto simp: ssh_msg_def put_u32_be_def ssh_valid_def)

lemma ssh_loop_msg:
  assumes v: "ssh_valid m" and small: "length (ssh_msg m @ r) < 2 ^ 32"
  shows "ssh_loop (ssh_msg m @ r) out (ws, None) =
    (if hd m = ssh_agentc_extension then ssh_loop r out (ws @ [ssh_failure_reply], None)
     else ssh_loop r (out @ ssh_msg m) (ws, None))"
proof -
  let ?n = "get_u32_be (take 4 (ssh_msg m @ r))"
  have n: "unat ?n = length m" by (rule ssh_msg_head [OF v])
  have pos: "?n \<noteq> 0" using n v by (auto simp: ssh_valid_def)
  have "unat (of_nat (length (ssh_msg m @ r) - 4) :: u32) = length (ssh_msg m @ r) - 4"
    by (rule unat_u32_small) (use small in simp)
  then have "\<not> (of_nat (length (ssh_msg m @ r) - 4) :: u32) < ?n"
    using n by (simp only: word_less_nat_alt) simp
  moreover have "take (4 + unat ?n) (ssh_msg m @ r) = ssh_msg m"
    and "drop (4 + unat ?n) (ssh_msg m @ r) = r"
    and "ssh_msg m ! 4 = hd m"
    using n ssh_msg_body [OF v, of "[]"] by simp_all
  moreover have "\<not> unat ?n > max_agent_message" using n v by (simp add: ssh_valid_def)
  moreover have "\<not> length (ssh_msg m @ r) < 4" by simp
  ultimately show ?thesis
    using pos by (subst ssh_loop.simps) (simp only: Let_def if_False sink_write.simps option.case simp_thms)
qed

lemma ssh_loop_partial:
  assumes "ssh_partial r"
  shows "ssh_loop r out w = (False, out, r, w)"
proof -
  obtain m t where v: "ssh_valid m" and t: "t \<noteq> []" and mt: "ssh_msg m = r @ t"
    using assms by (auto simp: ssh_partial_def)
  have len: "length r < 4 + length m"
    using arg_cong [OF mt, of length] t by (cases t) auto
  show ?thesis
  proof (cases "length r < 4")
    case True
    then show ?thesis by (subst ssh_loop.simps) simp
  next
    case False
    let ?n = "get_u32_be (take 4 r)"
    have "take 4 (ssh_msg m @ []) = take 4 r" using mt False by simp
    then have n: "unat ?n = length m" using ssh_msg_head [OF v, of "[]"] by simp
    have "length m < 2 ^ 32" using v max_agent_small by (simp add: ssh_valid_def)
    then have "unat (of_nat (length r - 4) :: u32) = length r - 4"
      using len by (intro unat_u32_small) linarith
    then have "(of_nat (length r - 4) :: u32) < ?n"
      using n len False by (simp add: word_less_nat_alt)
    moreover have "?n \<noteq> 0" using n v by (auto simp: ssh_valid_def)
    moreover have "\<not> unat ?n > max_agent_message" using n v by (simp add: ssh_valid_def)
    ultimately show ?thesis using False by (subst ssh_loop.simps) (simp add: Let_def)
  qed
qed

text \<open>One call on a buffer that is some messages and a rest.\<close>

lemma ssh_loop_all:
  assumes "list_all ssh_valid ms" and "ssh_partial r"
    and "length (concat (map ssh_msg ms) @ r) < 2 ^ 32"
  shows "ssh_loop (concat (map ssh_msg ms) @ r) out (ws, None) =
    (False, out @ ssh_forwards ms, r, (ws @ ssh_replies ms, None))"
  using assms
proof (induction ms arbitrary: out ws)
  case Nil
  then show ?case by (simp add: ssh_loop_partial ssh_forwards_def ssh_replies_def)
next
  case (Cons m ms)
  have v: "ssh_valid m" and small: "length (ssh_msg m @ concat (map ssh_msg ms) @ r) < 2 ^ 32"
    using Cons.prems by simp_all
  have rest: "length (concat (map ssh_msg ms) @ r) < 2 ^ 32"
    using small by simp
  show ?case
    using ssh_loop_msg [OF v small, of out ws] Cons.IH [OF _ Cons.prems(2) rest] Cons.prems(1)
    by (simp add: ssh_forwards_def ssh_replies_def)
qed

section \<open>Independence of the chunks\<close>

lemma ssh_partial_Nil: "ssh_partial []"
proof -
  have "ssh_valid [0] \<and> ssh_msg [0] \<noteq> [] \<and> ssh_msg [0] = [] @ ssh_msg [0]"
    by (simp add: ssh_valid_def max_agent_message_def ssh_msg_def put_u32_be_def)
  then show ?thesis unfolding ssh_partial_def by blast
qed

lemma ssh_partial_prefix: "ssh_partial (x @ y) \<Longrightarrow> ssh_partial x"
  by (auto simp: ssh_partial_def)

lemma ssh_partial_length: "ssh_partial r \<Longrightarrow> length r < 4 + max_agent_message"
proof -
  assume "ssh_partial r"
  then obtain m t where "length m \<le> max_agent_message" "t \<noteq> []" "ssh_msg m = r @ t"
    by (auto simp: ssh_partial_def ssh_valid_def)
  moreover then have "4 + length m = length r + length t"
    by (metis length_append ssh_msg_len)
  ultimately show ?thesis by (cases t) auto
qed

text \<open>Cutting a stream anywhere leaves messages and a rest before the cut, and a rest that the
  bytes after the cut complete.\<close>

lemma ssh_cut:
  assumes "list_all ssh_valid ms" and "ssh_partial r" and "concat (map ssh_msg ms) @ r = x @ y"
  shows "\<exists>k r'. x = concat (map ssh_msg (take k ms)) @ r' \<and> ssh_partial r'
           \<and> r' @ y = concat (map ssh_msg (drop k ms)) @ r"
  using assms
proof (induction ms arbitrary: x)
  case Nil
  then have "ssh_partial x" by (auto intro: ssh_partial_prefix)
  with Nil show ?case by (intro exI [of _ 0] exI [of _ x]) simp
next
  case (Cons m ms)
  let ?rest = "concat (map ssh_msg ms) @ r"
  have eq: "ssh_msg m @ ?rest = x @ y" using Cons.prems(3) by simp
  show ?case
  proof (cases "length (ssh_msg m) \<le> length x")
    case True
    let ?x = "drop (length (ssh_msg m)) x"
    have "take (length (ssh_msg m)) x = ssh_msg m"
      using eq True by (metis append_eq_append_conv_if append_eq_conv_conj)
    then have x: "x = ssh_msg m @ ?x" by (metis append_take_drop_id)
    have rest: "?rest = ?x @ y"
      using arg_cong [OF eq, of "drop (length (ssh_msg m))"] True by simp
    obtain k r' where "?x = concat (map ssh_msg (take k ms)) @ r'" "ssh_partial r'"
      "r' @ y = concat (map ssh_msg (drop k ms)) @ r"
      using Cons.IH [of ?x] Cons.prems(1,2) rest by auto
    then show ?thesis
      using x by (intro exI [of _ "Suc k"] exI [of _ r']) simp
  next
    case False
    then have "x = take (length x) (ssh_msg m)"
      using eq by (metis append_eq_append_conv_if linorder_le_cases)
    then have "ssh_msg m = x @ drop (length x) (ssh_msg m)"
      by (metis append_take_drop_id)
    moreover have "drop (length x) (ssh_msg m) \<noteq> []" using False by simp
    moreover have "ssh_valid m" using Cons.prems(1) by simp
    ultimately have "ssh_partial x" unfolding ssh_partial_def by blast
    then show ?thesis
      using eq by (intro exI [of _ 0] exI [of _ x]) simp
  qed
qed

text \<open>Data that may arrive while \<open>buf\<close> is pending, and what the loop makes of it.\<close>

definition ssh_ok :: "bytes \<Rightarrow> bytes \<Rightarrow> bool" where
  "ssh_ok buf b \<longleftrightarrow> ssh_partial buf \<and>
     (\<exists>ms r. list_all ssh_valid ms \<and> ssh_partial r \<and> buf @ b = concat (map ssh_msg ms) @ r)"

text \<open>The messages and the rest in a buffer, by the specification's own parser.\<close>

function ssh_parse :: "bytes \<Rightarrow> bytes list \<times> bytes" where
  "ssh_parse b =
     (let n = unat (get_u32_be (take 4 b))
      in if length b < 4 \<or> length b < 4 + n then ([], b)
         else (case ssh_parse (drop (4 + n) b) of
                 (ms, r) \<Rightarrow> (take n (drop 4 b) # ms, r)))"
  by pat_completeness auto
termination
  by (relation "measure length") auto

declare ssh_parse.simps [simp del]

lemma ssh_parse_all:
  "list_all ssh_valid ms \<Longrightarrow> ssh_partial r \<Longrightarrow>
     ssh_parse (concat (map ssh_msg ms) @ r) = (ms, r)"
proof (induction ms)
  case Nil
  then obtain m t where v: "ssh_valid m" and t: "t \<noteq> []" and mt: "ssh_msg m = r @ t"
    by (auto simp: ssh_partial_def)
  have len: "length r < 4 + length m"
    using arg_cong [OF mt, of length] t by (cases t) auto
  have "\<not> length r < 4 \<Longrightarrow> take 4 (ssh_msg m @ []) = take 4 r" using mt by simp
  then have "\<not> length r < 4 \<Longrightarrow> unat (get_u32_be (take 4 r)) = length m"
    using ssh_msg_head [OF v, of "[]"] by simp
  then show ?case using len by (subst ssh_parse.simps) (auto simp: Let_def)
next
  case (Cons m ms)
  then have "unat (get_u32_be (take 4 (ssh_msg m @ concat (map ssh_msg ms) @ r))) = length m"
    by (intro ssh_msg_head) simp
  moreover have "drop 4 (ssh_msg m @ concat (map ssh_msg ms) @ r) = m @ concat (map ssh_msg ms) @ r"
    by (simp add: ssh_msg_def)
  ultimately show ?case using Cons by (subst ssh_parse.simps) (simp add: Let_def del: drop_append take_append)
qed

abbreviation ssh_out where "ssh_out buf b \<equiv> ssh_forwards (fst (ssh_parse (buf @ b)))"
abbreviation ssh_rep where "ssh_rep buf b \<equiv> ssh_replies (fst (ssh_parse (buf @ b)))"
abbreviation ssh_next where "ssh_next buf b \<equiv> snd (ssh_parse (buf @ b))"

lemma ssh_forwards_append: "ssh_forwards (a @ b) = ssh_forwards a @ ssh_forwards b"
  by (simp add: ssh_forwards_def)

lemma ssh_replies_append: "ssh_replies (a @ b) = ssh_replies a @ ssh_replies b"
  by (simp add: ssh_replies_def)

lemma ssh_ok_cut:
  assumes "ssh_ok f (a @ b)"
  shows "\<exists>ms1 ms2 r' r. list_all ssh_valid ms1 \<and> list_all ssh_valid ms2
     \<and> ssh_partial f \<and> ssh_partial r' \<and> ssh_partial r
     \<and> f @ a = concat (map ssh_msg ms1) @ r'
     \<and> r' @ b = concat (map ssh_msg ms2) @ r
     \<and> f @ a @ b = concat (map ssh_msg (ms1 @ ms2)) @ r"
proof -
  obtain ms r where ms: "list_all ssh_valid ms" "ssh_partial r" "ssh_partial f"
    and eq: "f @ a @ b = concat (map ssh_msg ms) @ r"
    using assms by (auto simp: ssh_ok_def)
  obtain k r' where cut: "f @ a = concat (map ssh_msg (take k ms)) @ r'" "ssh_partial r'"
    "r' @ b = concat (map ssh_msg (drop k ms)) @ r"
    using ssh_cut [OF ms(1,2), of "f @ a" b] eq by auto
  have "list_all ssh_valid (take k ms)" "list_all ssh_valid (drop k ms)"
    using ms(1) by (auto simp: list_all_iff dest: in_set_takeD in_set_dropD)
  with cut ms eq show ?thesis
    by (intro exI [of _ "take k ms"] exI [of _ "drop k ms"] exI [of _ r'] exI [of _ r]) simp
qed

interpretation ssh: stream_filter ssh_forward ssh_ok "\<lambda>b. length b \<le> relay_buffer"
  ssh_out ssh_rep ssh_next
proof unfold_locales
  fix f b ws
  assume ok: "ssh_ok f b" and small: "length b \<le> relay_buffer"
  obtain ms r where ms: "list_all ssh_valid ms" "ssh_partial r" "ssh_partial f"
    and eq: "f @ b = concat (map ssh_msg ms) @ r"
    using ok by (auto simp: ssh_ok_def)
  have "length (f @ b) < 2 ^ 32"
    using ssh_partial_length [OF ms(3)] small by (simp add: relay_buffer_def max_agent_message_def)
  then show "ssh_forward f b (ws, None) =
      (False, ssh_out f b, ssh_next f b, (ws @ ssh_rep f b, None))"
    using ssh_loop_all [OF ms(1,2), of "[]" ws] ssh_parse_all [OF ms(1,2)] eq
    by (simp add: ssh_forward_def)
next
  fix f a b
  assume "ssh_ok f (a @ b)"
  then obtain ms1 ms2 r' r where c: "list_all ssh_valid ms1" "list_all ssh_valid ms2"
    "ssh_partial f" "ssh_partial r'" "ssh_partial r"
    and e1: "f @ a = concat (map ssh_msg ms1) @ r'"
    and e2: "r' @ b = concat (map ssh_msg ms2) @ r"
    and e3: "f @ a @ b = concat (map ssh_msg (ms1 @ ms2)) @ r"
    using ssh_ok_cut by blast
  have p1: "ssh_parse (f @ a) = (ms1, r')" and p2: "ssh_parse (r' @ b) = (ms2, r)"
    and p3: "ssh_parse (f @ a @ b) = (ms1 @ ms2, r)"
    using ssh_parse_all [OF c(1,4)] ssh_parse_all [OF c(2,5)]
      ssh_parse_all [of "ms1 @ ms2" r] c by (simp_all add: e1 e2 e3)
  show "ssh_ok f a \<and> ssh_ok (ssh_next f a) b"
    using c e1 e2 p1 by (auto simp: ssh_ok_def)
  show "ssh_out f (a @ b) = ssh_out f a @ ssh_out (ssh_next f a) b"
    and "ssh_rep f (a @ b) = ssh_rep f a @ ssh_rep (ssh_next f a) b"
    and "ssh_next f (a @ b) = ssh_next (ssh_next f a) b"
    by (simp_all add: p1 p2 p3 ssh_forwards_append ssh_replies_append)
next
  fix f b
  assume "ssh_ok f b"
  then have "ssh_parse f = ([], f)"
    using ssh_parse_all [of "[]" f] by (simp add: ssh_ok_def)
  then show "ssh_out f [] = [] \<and> ssh_rep f [] = [] \<and> ssh_next f [] = f"
    by (simp add: ssh_forwards_def ssh_replies_def)
qed

section \<open>Properties\<close>

text \<open>C36: However the agent protocol stream is cut into reads of at most the relay's buffer, the
  relay with the SSH filter forwards exactly the messages that are not extension requests, byte
  for byte and in order, answers each extension request with one failure reply, and is left
  holding exactly the incomplete rest.\<close>

theorem ssh_agent_relay:
  assumes "list_all ssh_valid ms" and "ssh_partial r"
    and "concat cs = concat (map ssh_msg ms) @ r"
    and "list_all (\<lambda>c. length c \<le> relay_buffer) cs"
  shows "\<exists>d'. copy_dir (Some ssh_forward) (map (\<lambda>c. (c, None)) cs @ [([], Some ReadEOF)])
          \<lparr>d_filter = [], d_src = ([], None), d_dst = ([], None), d_half_closed = False\<rparr>
        = (CopyDone, d')
      \<and> sink_bytes (d_dst d') = ssh_forwards ms \<and> fst (d_src d') = ssh_replies ms
      \<and> d_filter d' = r \<and> d_half_closed d'"
proof -
  have "ssh_ok [] (concat cs)"
    using assms(1-3) ssh_partial_Nil by (auto simp: ssh_ok_def)
  moreover have "ssh_parse (concat cs) = (ms, r)"
    using ssh_parse_all [OF assms(1,2)] assms(3) by simp
  ultimately show ?thesis
    using ssh.copy_dir_ok [where cs = cs and d = "\<lparr>d_filter = [], d_src = ([], None),
      d_dst = ([], None), d_half_closed = False\<rparr>"] assms(4)
    by simp
qed

text \<open>A sign request, an extension request and half of a length, cut inside the second.\<close>

theorem ssh_agent_relay_witness:
  "\<exists>d'. copy_dir (Some ssh_forward)
      (map (\<lambda>c. (c, None)) [[0, 0, 0, 2, 13, 7, 0, 0], [0, 3, 27, 1, 2, 0, 0]] @ [([], Some ReadEOF)])
      \<lparr>d_filter = [], d_src = ([], None), d_dst = ([], None), d_half_closed = False\<rparr>
    = (CopyDone, d')
    \<and> sink_bytes (d_dst d') = ssh_forwards [[13, 7], [27, 1, 2]]
    \<and> fst (d_src d') = ssh_replies [[13, 7], [27, 1, 2]]
    \<and> d_filter d' = [0, 0] \<and> d_half_closed d'"
proof (rule ssh_agent_relay)
  show "list_all ssh_valid [[13, 7], [27, 1, 2]]"
    by (simp add: ssh_valid_def max_agent_message_def)
  have "ssh_msg [0] = [0, 0] @ [0, 1, 0]" by code_simp
  moreover have "ssh_valid [0]" by (simp add: ssh_valid_def max_agent_message_def)
  ultimately show "ssh_partial [0, 0]" unfolding ssh_partial_def by blast
  show "concat [[0, 0, 0, 2, 13, 7, 0, 0], [0, 3, 27, 1, 2, 0, 0]] =
      concat (map ssh_msg [[13, 7], [27, 1, 2]]) @ [0, 0]"
    by code_simp
  show "list_all (\<lambda>c. length c \<le> relay_buffer)
      [[0, 0, 0, 2, 13, 7, 0, 0], [0, 3, 27, 1, 2, 0, 0]]"
    by (simp add: relay_buffer_def)
qed

text \<open>The pass-through mode is not sticky: after a length the filter cannot accept, its
  comment says everything passes untouched from here on, but the bytes of the next chunk are
  parsed as messages again, so an extension request in them is still intercepted, while in one
  chunk with the bad length it is passed on.\<close>

theorem ssh_passthrough_not_sticky:
  "ssh_forward [] ([0, 0, 0, 0] @ [0, 0, 0, 1, 27]) ([], None) =
     (False, [0, 0, 0, 0, 0, 0, 0, 1, 27], [], ([], None))
   \<and> (case ssh_forward [] [0, 0, 0, 0] ([], None) of (e, o1, f, w) \<Rightarrow>
        (o1, ssh_forward f [0, 0, 0, 1, 27] w)) =
     ([0, 0, 0, 0], (False, [], [], ([ssh_failure_reply], None)))"
  by (simp add: ssh_forward_def ssh_loop.simps get_u32_be_def max_agent_message_def Let_def)

end
