(* ===== verification/AgentConfig.thy ===== *)
theory AgentConfig
  imports GoNet AgentFilter "HOL-Library.List_Lexorder"
begin

text \<open>
  \<open>internal/agent/config\<close>, \<open>internal/agent/assuan\<close> and \<open>internal/sock/preset.go\<close>: what the two
  sides of the agent are configured with. The targets and their schemes, the allow list and the
  filters of the Windows daemon, the listeners of the guest, the presets and the listeners made
  of them, and the file gpg4win puts in place of a socket. Files and JSON are left out.
\<close>

section \<open>Targets\<close>

definition agent_default_port :: u32 where "agent_default_port = 51000"

datatype target_error = NotSchemeAddress | BadPipe | NoHostPort | NoAssuanPath | NotAbsolute | UnknownScheme string

definition parse_target :: "string \<Rightarrow> target_error + string \<times> string" where
  "parse_target t =
     (case index_byte t CHR '':'' of
        None \<Rightarrow> Inl NotSchemeAddress
      | Some i \<Rightarrow>
          if i = 0 \<or> i = length t - 1 then Inl NotSchemeAddress
          else
            (let scheme = to_lower (take i t); rest = drop (i + 1) t in
             if scheme = ''npipe'' then
               (if has_prefix (to_lower rest) [CHR 0x5C, CHR 0x5C, CHR ''.'', CHR 0x5C, CHR ''p'', CHR ''i'', CHR ''p'', CHR ''e'', CHR 0x5C]
                then Inr (scheme, rest) else Inl BadPipe)
             else if scheme = ''tcp'' then (if CHR '':'' \<in> set rest then Inr (scheme, rest) else Inl NoHostPort)
             else if scheme = ''assuan'' then (if rest = [] then Inl NoAssuanPath else Inr (scheme, rest))
             else if scheme = ''unix'' then (if has_prefix rest ''/'' then Inr (scheme, rest) else Inl NotAbsolute)
             else Inl (UnknownScheme scheme)))"

section \<open>The two configurations\<close>

text \<open>The filters are a map; it is a list here, in the order in which ranging over it happens to go.\<close>

record host_config =
  hc_port :: u32
  hc_allow :: "string list"
  hc_filters :: "(string \<times> string) list"

record listener =
  ln_name :: string
  ln_unix :: string
  ln_target :: string
  ln_owner :: int
  ln_mode :: u32
  ln_filter :: string

record guest_config =
  gc_port :: u32
  gc_listeners :: "listener list"

definition allowed :: "host_config \<Rightarrow> string \<Rightarrow> bool" where
  "allowed h t \<longleftrightarrow> list_ex (\<lambda>a. equal_fold a t) (hc_allow h)"

definition filter_for :: "host_config \<Rightarrow> string \<Rightarrow> string" where
  "filter_for h t = (case find (\<lambda>(k, v). equal_fold k t) (hc_filters h) of Some (k, v) \<Rightarrow> v | None \<Rightarrow> [])"

datatype agent_config_error =
    NoPort
  | BadAllow target_error
  | MissingName nat
  | RelativeSocket nat
  | DuplicateSocket nat
  | BadTarget nat target_error

definition validate_host :: "host_config \<Rightarrow> agent_config_error option" where
  "validate_host h =
     (if hc_port h = 0 then Some NoPort
      else
        (case find (\<lambda>a. isl (parse_target a)) (hc_allow h) of
           Some a \<Rightarrow> (case parse_target a of Inl e \<Rightarrow> Some (BadAllow e) | Inr _ \<Rightarrow> None)
         | None \<Rightarrow> None))"

fun validate_listeners :: "nat \<Rightarrow> string list \<Rightarrow> listener list \<Rightarrow> agent_config_error option" where
  "validate_listeners i seen [] = None"
| "validate_listeners i seen (l # ls) =
     (if ln_name l = [] \<or> ln_unix l = [] then Some (MissingName i)
      else if \<not> has_prefix (ln_unix l) ''/'' then Some (RelativeSocket i)
      else if ln_unix l \<in> set seen then Some (DuplicateSocket i)
      else
        (case parse_target (ln_target l) of
           Inl e \<Rightarrow> Some (BadTarget i e)
         | Inr _ \<Rightarrow> validate_listeners (i + 1) (ln_unix l # seen) ls))"

definition validate_guest :: "guest_config \<Rightarrow> agent_config_error option" where
  "validate_guest g = (if gc_port g = 0 then Some NoPort else validate_listeners 0 [] (gc_listeners g))"

definition default_host :: host_config where
  "default_host = \<lparr>hc_port = agent_default_port, hc_allow = [], hc_filters = []\<rparr>"

definition default_guest :: guest_config where
  "default_guest = \<lparr>gc_port = agent_default_port, gc_listeners = []\<rparr>"

section \<open>The socket file of gpg4win\<close>

datatype assuan_error = NoNewline | BadPort | BadNonce nat

definition assuan_parse :: "string \<Rightarrow> assuan_error + int \<times> string" where
  "assuan_parse b =
     (case index_byte b newline of
        None \<Rightarrow> Inl NoNewline
      | Some i \<Rightarrow>
          (case atoi (trim_right (\<lambda>c. c = carriage_return) (take i b)) of
             None \<Rightarrow> Inl BadPort
           | Some port \<Rightarrow>
               if port \<le> 0 \<or> port > 65535 then Inl BadPort
               else
                 (let rest = drop (i + 1) b in
                  if length rest \<noteq> 16 then Inl (BadNonce (length rest)) else Inr (port, rest))))"

section \<open>Presets\<close>

record preset =
  pr_name :: string
  pr_target :: string
  pr_unix :: string
  pr_env :: "(string \<times> string) list"
  pr_filter :: string

definition all_presets :: "preset list" where
  "all_presets =
     [\<lparr>pr_name = ''ssh-agent'',
       pr_target = ''npipe:'' @ [CHR 0x5C, CHR 0x5C, CHR ''.'', CHR 0x5C] @ ''pipe'' @ [CHR 0x5C] @ ''openssh-ssh-agent'',
       pr_unix = ''%r/wslkit/ssh-agent.sock'', pr_env = [(''SSH_AUTH_SOCK'', ''%r/wslkit/ssh-agent.sock'')],
       pr_filter = ''ssh-agent''\<rparr>,
      \<lparr>pr_name = ''gpg-agent'', pr_target = [], pr_unix = ''%r/gnupg/S.gpg-agent'', pr_env = [], pr_filter = []\<rparr>,
      \<lparr>pr_name = ''gpg-agent-ssh'', pr_target = [], pr_unix = ''%r/gnupg/S.gpg-agent.ssh'',
       pr_env = [(''SSH_AUTH_SOCK'', ''%r/gnupg/S.gpg-agent.ssh'')], pr_filter = []\<rparr>,
      \<lparr>pr_name = ''gpg-agent-extra'', pr_target = [], pr_unix = ''%r/gnupg/S.gpg-agent.extra'', pr_env = [],
       pr_filter = []\<rparr>]"

definition lookup_preset :: "string \<Rightarrow> preset option" where
  "lookup_preset name = find (\<lambda>p. equal_fold (pr_name p) name) all_presets"

definition preset_names :: "string list" where
  "preset_names = map pr_name all_presets"

text \<open>The replacer goes through the path once: what it puts in is not looked at again.\<close>

fun replace_both :: "string \<Rightarrow> string \<Rightarrow> string \<Rightarrow> string" where
  "replace_both r u (c # d # s) =
     (if c = CHR ''%'' \<and> d = CHR ''r'' then r @ replace_both r u s
      else if c = CHR ''%'' \<and> d = CHR ''u'' then u @ replace_both r u s
      else c # replace_both r u (d # s))"
| "replace_both r u s = s"

definition expand_path :: "string \<Rightarrow> nat \<Rightarrow> string \<Rightarrow> string" where
  "expand_path path uid runtime_dir =
     replace_both (if runtime_dir = [] then ''/run/user/'' @ format_uint uid else runtime_dir) (format_uint uid) path"

definition preset_listener :: "preset \<Rightarrow> string \<Rightarrow> nat \<Rightarrow> string \<Rightarrow> listener" where
  "preset_listener p target uid runtime_dir =
     \<lparr>ln_name = pr_name p, ln_unix = expand_path (pr_unix p) uid runtime_dir, ln_target = target,
      ln_owner = int uid, ln_mode = 384, ln_filter = pr_filter p\<rparr>"

definition env_lines :: "preset \<Rightarrow> nat \<Rightarrow> string \<Rightarrow> string list" where
  "env_lines p uid runtime_dir =
     map (\<lambda>k. ''export '' @ k @ ''='' @ expand_path (the (map_of (pr_env p) k)) uid runtime_dir)
       (sort (map fst (pr_env p)))"

section \<open>What a valid configuration gives\<close>

lemma replace_both_plain: "CHR ''%'' \<notin> set t \<Longrightarrow> replace_both r u t = t"
  by (induction r u t rule: replace_both.induct) auto

lemma expand_runtime:
  "CHR ''%'' \<notin> set t \<Longrightarrow>
     expand_path (''%r'' @ t) uid rd = (if rd = [] then ''/run/user/'' @ format_uint uid else rd) @ t"
  by (simp add: expand_path_def replace_both_plain)

definition preset_tail :: "preset \<Rightarrow> string" where
  "preset_tail p = drop 2 (pr_unix p)"

lemma preset_facts:
  assumes "p \<in> set all_presets"
  shows "pr_unix p = ''%r'' @ preset_tail p" and "CHR ''%'' \<notin> set (preset_tail p)" and "pr_name p \<noteq> []"
  using assms by (auto simp: all_presets_def preset_tail_def)

lemma preset_tails_distinct: "inj_on preset_tail (set all_presets)"
  by (auto simp: inj_on_def all_presets_def preset_tail_def)

lemma preset_unix:
  "p \<in> set all_presets \<Longrightarrow> ln_unix (preset_listener p t uid rd)
     = (if rd = [] then ''/run/user/'' @ format_uint uid else rd) @ preset_tail p"
  using preset_facts(1,2) [of p] expand_runtime [of "preset_tail p" uid rd] by (simp add: preset_listener_def)

lemma validate_listeners_ok:
  assumes "\<forall>l \<in> set ls. ln_name l \<noteq> [] \<and> has_prefix (ln_unix l) ''/'' \<and> \<not> isl (parse_target (ln_target l))"
    and "distinct (map ln_unix ls)" and "\<forall>l \<in> set ls. ln_unix l \<notin> set seen"
  shows "validate_listeners i seen ls = None"
  using assms
proof (induction ls arbitrary: i seen)
  case (Cons l ls)
  have "ln_unix l \<noteq> []" using Cons.prems(1) by (auto simp: has_prefix_def)
  moreover obtain x where "parse_target (ln_target l) = Inr x"
    using Cons.prems(1) by (cases "parse_target (ln_target l)") auto
  moreover have "validate_listeners (i + 1) (ln_unix l # seen) ls = None"
    using Cons.prems by (intro Cons.IH) (auto simp: image_iff)
  ultimately show ?case using Cons.prems by simp
qed simp



text \<open>The listeners a valid configuration has: their targets can be read, and no two share a socket.\<close>

lemma validate_listeners_None:
  "validate_listeners i seen ls = None \<Longrightarrow>
     (\<forall>l \<in> set ls. \<not> isl (parse_target (ln_target l)) \<and> ln_unix l \<notin> set seen) \<and> distinct (map ln_unix ls)"
proof (induction ls arbitrary: i seen)
  case (Cons l ls)
  obtain x where "parse_target (ln_target l) = Inr x" "ln_unix l \<notin> set seen"
      "validate_listeners (i + 1) (ln_unix l # seen) ls = None"
    using Cons.prems by (auto split: if_splits sum.splits)
  then show ?case using Cons.IH [of "i + 1" "ln_unix l # seen"] by auto
qed simp

text \<open>Two spellings of one target with different filters: the order of the map decides.\<close>

lemma filter_depends_on_map_order:
  "filter_for \<lparr>hc_port = 1, hc_allow = [], hc_filters = [(''tcp:A:1'', ''ssh-agent''), (''tcp:a:1'', [])]\<rparr> ''tcp:a:1''
     \<noteq> filter_for \<lparr>hc_port = 1, hc_allow = [], hc_filters = [(''tcp:a:1'', []), (''tcp:A:1'', ''ssh-agent'')]\<rparr> ''tcp:a:1''"
proof -
  have "to_lower ''tcp:A:1'' = ''tcp:a:1''" "to_lower ''tcp:a:1'' = ''tcp:a:1''" by code_simp+
  then show ?thesis by (simp add: filter_for_def equal_fold_def del: to_lower_Cons to_lower_Nil)
qed

lemma assuan_parse_ok:
  assumes "length nonce = 16" and "0 < p" and "p \<le> 65535"
  shows "assuan_parse (format_uint p @ newline # nonce) = Inr (int p, nonce)"
proof -
  have "newline \<notin> set (format_uint p)"
    using format_uint_not_space [of newline p] by (auto simp: is_space_def newline_def)
  then have "index_byte (format_uint p @ newline # nonce) newline = Some (length (format_uint p))"
    by (rule index_byte_append_stop)
  moreover have "trim_right (\<lambda>c. c = carriage_return) (format_uint p) = format_uint p"
  proof (rule trim_right_id)
    have "last (format_uint p) \<in> set (format_uint p)" by simp
    from format_uint_not_space [OF this] show "format_uint p = [] \<or> last (format_uint p) \<noteq> carriage_return"
      by (auto simp: is_space_def carriage_return_def)
  qed
  ultimately show ?thesis using assms atoi_format_uint [of p] by (simp add: assuan_parse_def)
qed

end
