(* ===== verification/AgentDaemon.thy ===== *)
theory AgentDaemon
  imports AgentConfig
begin

text \<open>
  \<open>internal/agent/host/host.go\<close> and \<open>internal/agent/guest/guest.go\<close>: the two programs around a
  session. The Windows daemon is a state machine: its sessions with their counters, and the
  handlers that answer OPEN requests, each at some stage of \<open>Daemon.open\<close>; the steps of different
  handlers interleave. The guest is the loop that reconnects, what it answers to an OPEN, and how
  long a local connection waits for a session. The log, the heartbeat, the status file and the
  sockets are left out.
\<close>

section \<open>The daemon\<close>

record dsession =
  ds_distro :: string
  ds_streams :: "32 word"
  ds_opened :: "64 word"
  ds_refused :: "64 word"

datatype stage = Received | Dialling | Piping | Finished

record handler =
  ha_session :: nat
  ha_target :: string
  ha_stage :: stage

record daemon =
  dm_sessions :: "nat \<Rightarrow> dsession option"
  dm_handlers :: "handler list"
  dm_dials :: "(string \<times> string) list"    \<comment> \<open>what has been dialled, and the filter it goes through\<close>
  dm_vm_id :: string
  dm_listening :: string
  dm_last_error :: string
  dm_reconnects :: nat

definition start_daemon :: "string \<Rightarrow> daemon" where
  "start_daemon listening = \<lparr>dm_sessions = Map.empty, dm_handlers = [], dm_dials = [], dm_vm_id = [],
     dm_listening = listening, dm_last_error = [], dm_reconnects = 0\<rparr>"

definition set_vm_id :: "string \<Rightarrow> daemon \<Rightarrow> daemon" where
  "set_vm_id vm d = d\<lparr>dm_vm_id := vm, dm_reconnects := dm_reconnects d + 1\<rparr>"

definition set_error :: "string \<Rightarrow> daemon \<Rightarrow> daemon" where
  "set_error e d = d\<lparr>dm_last_error := e\<rparr>"

definition add_session :: "nat \<Rightarrow> string \<Rightarrow> daemon \<Rightarrow> daemon" where
  "add_session n distro d =
     d\<lparr>dm_sessions := (dm_sessions d)(n \<mapsto> \<lparr>ds_distro = distro, ds_streams = 0, ds_opened = 0, ds_refused = 0\<rparr>)\<rparr>"

definition on_session :: "(dsession \<Rightarrow> dsession) \<Rightarrow> nat \<Rightarrow> daemon \<Rightarrow> daemon" where
  "on_session f n d = d\<lparr>dm_sessions := (dm_sessions d)(n := map_option f (dm_sessions d n))\<rparr>"

definition set_stage :: "nat \<Rightarrow> stage \<Rightarrow> daemon \<Rightarrow> daemon" where
  "set_stage i st d = d\<lparr>dm_handlers := (dm_handlers d)[i := (dm_handlers d ! i)\<lparr>ha_stage := st\<rparr>]\<rparr>"

definition count_refused :: "dsession \<Rightarrow> dsession" where "count_refused s = s\<lparr>ds_refused := ds_refused s + 1\<rparr>"
definition count_opened :: "dsession \<Rightarrow> dsession" where
  "count_opened s = s\<lparr>ds_opened := ds_opened s + 1, ds_streams := ds_streams s + 1\<rparr>"
definition count_closed :: "dsession \<Rightarrow> dsession" where "count_closed s = s\<lparr>ds_streams := ds_streams s - 1\<rparr>"

text \<open>What \<open>Daemon.open\<close> does before it dials: refuse, reject a filter it does not know, or dial.\<close>

datatype verdict = Refuse | RejectFilter | DialThrough string

definition open_verdict :: "host_config \<Rightarrow> string \<Rightarrow> verdict" where
  "open_verdict cfg target =
     (if \<not> allowed cfg target then Refuse
      else if new_filter (filter_for cfg target) = None then RejectFilter
      else DialThrough (filter_for cfg target))"

definition refuse_open :: "nat \<Rightarrow> daemon \<Rightarrow> daemon" where
  "refuse_open i d = set_stage i Finished (on_session count_refused (ha_session (dm_handlers d ! i)) d)"

definition begin_dial :: "nat \<Rightarrow> string \<Rightarrow> daemon \<Rightarrow> daemon" where
  "begin_dial i flt d =
     set_stage i Dialling (d\<lparr>dm_dials := dm_dials d @ [(ha_target (dm_handlers d ! i), flt)]\<rparr>)"

definition begin_pipe :: "nat \<Rightarrow> daemon \<Rightarrow> daemon" where
  "begin_pipe i d = set_stage i Piping (on_session count_opened (ha_session (dm_handlers d ! i)) d)"

definition end_pipe :: "nat \<Rightarrow> daemon \<Rightarrow> daemon" where
  "end_pipe i d = set_stage i Finished (on_session count_closed (ha_session (dm_handlers d ! i)) d)"

definition at_stage :: "daemon \<Rightarrow> nat \<Rightarrow> stage \<Rightarrow> bool" where
  "at_stage d i st \<longleftrightarrow> i < length (dm_handlers d) \<and> ha_stage (dm_handlers d ! i) = st"

text \<open>A session leaves the map only after its handlers have returned: of the two deferred calls of
  \<open>Daemon.handle\<close>, the one that waits for the streams runs first.\<close>

inductive daemon_step :: "host_config \<Rightarrow> daemon \<Rightarrow> daemon \<Rightarrow> bool" for cfg where
  connects: "dm_sessions d n = None \<Longrightarrow> \<forall>h \<in> set (dm_handlers d). ha_session h \<noteq> n \<Longrightarrow>
     daemon_step cfg d (add_session n distro d)"
| request: "dm_sessions d n \<noteq> None \<Longrightarrow>
     daemon_step cfg d (d\<lparr>dm_handlers := dm_handlers d @ [\<lparr>ha_session = n, ha_target = t, ha_stage = Received\<rparr>]\<rparr>)"
| refuses: "at_stage d i Received \<Longrightarrow> open_verdict cfg (ha_target (dm_handlers d ! i)) = Refuse \<Longrightarrow>
     daemon_step cfg d (refuse_open i d)"
| rejects: "at_stage d i Received \<Longrightarrow> open_verdict cfg (ha_target (dm_handlers d ! i)) = RejectFilter \<Longrightarrow>
     daemon_step cfg d (set_stage i Finished d)"
| dials: "at_stage d i Received \<Longrightarrow> open_verdict cfg (ha_target (dm_handlers d ! i)) = DialThrough f \<Longrightarrow>
     daemon_step cfg d (begin_dial i f d)"
| dial_fails: "at_stage d i Dialling \<Longrightarrow> daemon_step cfg d (refuse_open i d)"
| accept_fails: "at_stage d i Dialling \<Longrightarrow> daemon_step cfg d (set_stage i Finished d)"
| accepts: "at_stage d i Dialling \<Longrightarrow> daemon_step cfg d (begin_pipe i d)"
| pipe_ends: "at_stage d i Piping \<Longrightarrow> daemon_step cfg d (end_pipe i d)"
| disconnects: "\<forall>h \<in> set (dm_handlers d). ha_session h = n \<longrightarrow> ha_stage h = Finished \<Longrightarrow>
     daemon_step cfg d (d\<lparr>dm_sessions := (dm_sessions d)(n := None)\<rparr>)"
| rebinds: "daemon_step cfg d (set_vm_id vm d)"
| accept_error: "daemon_step cfg d (set_error e d)"

inductive daemon_reach :: "host_config \<Rightarrow> string \<Rightarrow> daemon \<Rightarrow> bool" for cfg l where
  started: "daemon_reach cfg l (start_daemon l)"
| stepped: "daemon_reach cfg l d \<Longrightarrow> daemon_step cfg d d' \<Longrightarrow> daemon_reach cfg l d'"

definition piping_of :: "nat \<Rightarrow> handler list \<Rightarrow> nat" where
  "piping_of n hs = length (filter (\<lambda>h. ha_session h = n \<and> ha_stage h = Piping) hs)"

text \<open>\<open>Alive\<close>: what a reader concludes from a status file.\<close>

definition status_alive :: "int \<Rightarrow> bool \<Rightarrow> int \<Rightarrow> int \<Rightarrow> nat \<Rightarrow> bool" where
  "status_alive pid exists_process now updated_at sessions \<longleftrightarrow>
     pid > 0 \<and> exists_process \<and> (now - updated_at < 120 * 10 ^ 9 \<or> sessions > 0)"

section \<open>The guest\<close>

datatype connect_event = Unreachable | HandshakeFailed | SessionEnded

text \<open>One turn of the loop of \<open>Agent.Run\<close>: how long it sleeps, and the next back-off.\<close>

definition reconnect :: "int \<Rightarrow> int \<Rightarrow> int \<Rightarrow> connect_event \<Rightarrow> int option \<times> int" where
  "reconnect min_b max_b b ev =
     (case ev of
        Unreachable \<Rightarrow> (Some b, min (b * 2) max_b)
      | HandshakeFailed \<Rightarrow> (Some b, b)
      | SessionEnded \<Rightarrow> (None, min_b))"

definition backoff_bounds :: "int \<Rightarrow> int \<Rightarrow> int \<times> int" where
  "backoff_bounds min_b max_b =
     (if min_b = 0 then 2 * 10 ^ 9 else min_b, if max_b = 0 then 30 * 10 ^ 9 else max_b)"

definition backoff_after :: "int \<Rightarrow> int \<Rightarrow> connect_event list \<Rightarrow> int" where
  "backoff_after min_b max_b evs = foldl (\<lambda>b ev. snd (reconnect min_b max_b b ev)) min_b evs"

definition guest_accepts :: "string \<Rightarrow> bool" where
  "guest_accepts target \<longleftrightarrow> (case parse_target target of Inr (scheme, _) \<Rightarrow> scheme = ''unix'' | Inl _ \<Rightarrow> False)"

text \<open>A local connection looks for a session every 25 ms until the grace is over; \<open>up t\<close> says whether
  there is one at time \<open>t\<close>. The answer is when it found one.\<close>

definition grace_poll :: int where "grace_poll = 25 * 10 ^ 6"

function await_session :: "(int \<Rightarrow> bool) \<Rightarrow> int \<Rightarrow> int \<Rightarrow> int option" where
  "await_session up t deadline =
     (if up t then Some t else if t < deadline then await_session up (t + grace_poll) deadline else None)"
  by pat_completeness auto
termination by (relation "measure (\<lambda>(up, t, deadline). nat (deadline - t))") (auto simp: grace_poll_def)

declare await_session.simps [simp del]

definition default_connect_grace :: int where "default_connect_grace = 3 * 10 ^ 9"

definition serve_connection :: "(int \<Rightarrow> bool) \<Rightarrow> int option \<Rightarrow> int \<Rightarrow> int option" where
  "serve_connection up grace now =
     await_session up now (now + (case grace of Some g \<Rightarrow> g | None \<Rightarrow> default_connect_grace))"

section \<open>Properties of the daemon\<close>

inductive_cases daemon_stepE: "daemon_step cfg d d'"

definition active :: "handler \<Rightarrow> bool" where
  "active h \<longleftrightarrow> ha_stage h \<noteq> Finished"

definition daemon_inv :: "host_config \<Rightarrow> daemon \<Rightarrow> bool" where
  "daemon_inv cfg d \<longleftrightarrow>
     (\<forall>(t, f) \<in> set (dm_dials d). open_verdict cfg t = DialThrough f)
     \<and> (\<forall>h \<in> set (dm_handlers d). ha_stage h \<in> {Dialling, Piping} \<longrightarrow>
          (\<exists>f. (ha_target h, f) \<in> set (dm_dials d)))
     \<and> (\<forall>h \<in> set (dm_handlers d). active h \<longrightarrow> dm_sessions d (ha_session h) \<noteq> None)
     \<and> (\<forall>n s. dm_sessions d n = Some s \<longrightarrow> ds_streams s = of_nat (piping_of n (dm_handlers d)))"

lemma piping_of_Cons:
  "piping_of n (h # hs) = (if ha_session h = n \<and> ha_stage h = Piping then 1 else 0) + piping_of n hs"
  by (simp add: piping_of_def)

lemma piping_of_update:
  assumes "i < length hs"
  shows "piping_of n (hs[i := (hs ! i)\<lparr>ha_stage := st\<rparr>])
    + (if ha_session (hs ! i) = n \<and> ha_stage (hs ! i) = Piping then 1 else 0)
    = piping_of n hs + (if ha_session (hs ! i) = n \<and> st = Piping then 1 else 0)"
  using assms
proof (induction hs arbitrary: i)
  case (Cons h hs)
  then show ?case using Cons.IH [of "i - 1"] by (cases i) (simp_all add: piping_of_Cons)
qed simp

lemma daemon_inv_start: "daemon_inv cfg (start_daemon l)"
  by (simp add: daemon_inv_def start_daemon_def)

text \<open>Moving one handler to a stage, and its session's count of streams along with it.\<close>

lemma daemon_inv_move:
  assumes inv: "daemon_inv cfg d" and i: "i < length (dm_handlers d)" and old: "active (dm_handlers d ! i)"
    and f: "\<And>s. ds_streams (f s) + (if ha_stage (dm_handlers d ! i) = Piping then 1 else 0)
        = ds_streams s + (if st = Piping then 1 else 0)"
    and st: "st \<in> {Dialling, Piping} \<Longrightarrow> \<exists>flt. (ha_target (dm_handlers d ! i), flt) \<in> set (dm_dials d)"
  shows "daemon_inv cfg (set_stage i st (on_session f (ha_session (dm_handlers d ! i)) d))"
proof -
  let ?h = "dm_handlers d ! i"
  let ?d = "set_stage i st (on_session f (ha_session ?h) d)"
  have h: "?h \<in> set (dm_handlers d)" using i by simp
  have hs: "dm_handlers ?d = (dm_handlers d)[i := ?h\<lparr>ha_stage := st\<rparr>]"
    and dials: "dm_dials ?d = dm_dials d"
    and ss: "dm_sessions ?d = (dm_sessions d)(ha_session ?h := map_option f (dm_sessions d (ha_session ?h)))"
    by (simp_all add: set_stage_def on_session_def)
  have sub: "set (dm_handlers ?d) \<subseteq> insert (?h\<lparr>ha_stage := st\<rparr>) (set (dm_handlers d))"
    unfolding hs by (rule set_update_subset_insert)
  have "\<forall>x \<in> set (dm_handlers ?d). ha_stage x \<in> {Dialling, Piping} \<longrightarrow> (\<exists>flt. (ha_target x, flt) \<in> set (dm_dials d))"
  proof (intro ballI impI)
    fix x assume x: "x \<in> set (dm_handlers ?d)" "ha_stage x \<in> {Dialling, Piping}"
    then consider "x = ?h\<lparr>ha_stage := st\<rparr>" | "x \<in> set (dm_handlers d)" using sub by auto
    then show "\<exists>flt. (ha_target x, flt) \<in> set (dm_dials d)"
    proof cases
      case 1 then show ?thesis using st x(2) by simp
    next
      case 2 then show ?thesis using inv x(2) unfolding daemon_inv_def by blast
    qed
  qed
  moreover have "\<forall>x \<in> set (dm_handlers ?d). active x \<longrightarrow> dm_sessions ?d (ha_session x) \<noteq> None"
  proof
    fix x assume "x \<in> set (dm_handlers ?d)"
    then have "x \<in> set (dm_handlers d) \<or> x = ?h\<lparr>ha_stage := st\<rparr>" using sub by auto
    moreover have "dm_sessions d (ha_session ?h) \<noteq> None" using inv h old by (auto simp: daemon_inv_def)
    ultimately show "active x \<longrightarrow> dm_sessions ?d (ha_session x) \<noteq> None"
      using inv by (auto simp: daemon_inv_def ss)
  qed
  moreover have "ds_streams s = of_nat (piping_of n (dm_handlers ?d))" if at: "dm_sessions ?d n = Some s" for n s
  proof -
    note count = piping_of_update [OF i, of n st]
    show ?thesis
    proof (cases "n = ha_session ?h")
      case True
      then obtain s0 where s0: "dm_sessions d n = Some s0" "s = f s0" using at ss by auto
      then have "ds_streams s0 = of_nat (piping_of n (dm_handlers d))" using inv by (auto simp: daemon_inv_def)
      moreover have "of_nat (piping_of n (dm_handlers ?d)) + (if ha_stage ?h = Piping then 1 else 0)
          = (of_nat (piping_of n (dm_handlers d)) + (if st = Piping then 1 else 0) :: 32 word)"
        using arg_cong [OF count, of "of_nat :: nat \<Rightarrow> 32 word"] True unfolding hs by (auto split: if_splits)
      ultimately show ?thesis using f [of s0] s0(2) by (metis add_right_cancel)
    next
      case False
      then have "dm_sessions d n = Some s" using at ss by simp
      then show ?thesis using count inv False unfolding hs by (auto simp: daemon_inv_def)
    qed
  qed
  ultimately show ?thesis using inv unfolding daemon_inv_def dials by blast
qed

lemma on_session_id: "on_session (\<lambda>s. s) n d = d"
  by (simp add: on_session_def option.map_ident)

lemma active_stage: "at_stage d i st \<Longrightarrow> st \<noteq> Finished \<Longrightarrow> i < length (dm_handlers d) \<and> active (dm_handlers d ! i)"
  by (auto simp: at_stage_def active_def)

lemma dialled_at:
  "daemon_inv cfg d \<Longrightarrow> at_stage d i Dialling \<Longrightarrow> \<exists>flt. (ha_target (dm_handlers d ! i), flt) \<in> set (dm_dials d)"
  by (auto simp: daemon_inv_def at_stage_def)

lemma daemon_inv_step:
  assumes "daemon_step cfg d d'" and inv: "daemon_inv cfg d"
  shows "daemon_inv cfg d'"
  using assms(1)
proof cases
  case (connects n distro)
  have "piping_of n (dm_handlers d) = 0"
    using connects(3) by (auto simp: piping_of_def filter_empty_conv)
  then show ?thesis using inv connects by (auto simp: daemon_inv_def add_session_def)
next
  case (request n t)
  then show ?thesis using inv by (auto simp: daemon_inv_def piping_of_def active_def)
next
  case (refuses i)
  then show ?thesis using daemon_inv_move [OF inv, of i count_refused Finished] active_stage [of d i Received]
    by (auto simp: refuse_open_def count_refused_def at_stage_def)
next
  case (rejects i)
  then show ?thesis using daemon_inv_move [OF inv, of i "\<lambda>s. s" Finished] active_stage [of d i Received]
    by (auto simp: on_session_id at_stage_def)
next
  case (dials i f)
  let ?d = "d\<lparr>dm_dials := dm_dials d @ [(ha_target (dm_handlers d ! i), f)]\<rparr>"
  have "daemon_inv cfg ?d" using inv dials(3) by (fastforce simp: daemon_inv_def)
  from daemon_inv_move [OF this, of i "\<lambda>s. s" Dialling] show ?thesis
    using dials active_stage [of d i Received] by (auto simp: begin_dial_def on_session_id at_stage_def)
next
  case (dial_fails i)
  then show ?thesis using daemon_inv_move [OF inv, of i count_refused Finished] active_stage [of d i Dialling]
    by (auto simp: refuse_open_def count_refused_def at_stage_def)
next
  case (accept_fails i)
  then show ?thesis using daemon_inv_move [OF inv, of i "\<lambda>s. s" Finished] active_stage [of d i Dialling]
    by (auto simp: on_session_id at_stage_def)
next
  case (accepts i)
  then show ?thesis using daemon_inv_move [OF inv, of i count_opened Piping] active_stage [of d i Dialling]
      dialled_at [OF inv] by (auto simp: begin_pipe_def count_opened_def at_stage_def)
next
  case (pipe_ends i)
  then show ?thesis using daemon_inv_move [OF inv, of i count_closed Finished] active_stage [of d i Piping]
    by (auto simp: end_pipe_def count_closed_def at_stage_def)
next
  case (disconnects n)
  then show ?thesis using inv by (auto simp: daemon_inv_def active_def)
next
  case (rebinds vm)
  then show ?thesis using inv by (simp add: daemon_inv_def set_vm_id_def)
next
  case (accept_error e)
  then show ?thesis using inv by (simp add: daemon_inv_def set_error_def)
qed

lemma daemon_inv_reach: "daemon_reach cfg l d \<Longrightarrow> daemon_inv cfg d"
  by (induction rule: daemon_reach.induct) (auto simp: daemon_inv_start intro: daemon_inv_step)

text \<open>C10: whatever a guest asks for, and however its requests interleave, the Windows daemon only
  ever dials targets on its allow list, and each through the filter configured for it; and a pipe
  is running only for a target that was dialled that way.\<close>

theorem daemon_dials_only_allowed:
  assumes "daemon_reach cfg l d"
  shows "(\<forall>(t, f) \<in> set (dm_dials d). allowed cfg t \<and> f = filter_for cfg t \<and> new_filter f \<noteq> None)
    \<and> (\<forall>h \<in> set (dm_handlers d). ha_stage h = Piping \<longrightarrow>
         allowed cfg (ha_target h) \<and> (ha_target h, filter_for cfg (ha_target h)) \<in> set (dm_dials d))"
proof -
  have v: "allowed cfg t \<and> f = filter_for cfg t \<and> new_filter f \<noteq> None" if "open_verdict cfg t = DialThrough f" for t f
    using that by (auto simp: open_verdict_def split: if_splits)
  have inv: "daemon_inv cfg d" using daemon_inv_reach [OF assms] .
  have 1: "\<forall>(t, f) \<in> set (dm_dials d). allowed cfg t \<and> f = filter_for cfg t \<and> new_filter f \<noteq> None"
    using inv v by (fastforce simp: daemon_inv_def)
  have "\<exists>f. (ha_target h, f) \<in> set (dm_dials d)" if "h \<in> set (dm_handlers d)" "ha_stage h = Piping" for h
    using inv that unfolding daemon_inv_def by blast
  then show ?thesis using 1 by fastforce
qed

text \<open>the status the daemon reports is true: the streams shown for a guest are the pipes that are
  running for it, and a guest is in the list for as long as a handler of its requests is at work.\<close>

theorem daemon_status_counts_streams:
  assumes "daemon_reach cfg l d"
  shows "(\<forall>n s. dm_sessions d n = Some s \<longrightarrow> ds_streams s = of_nat (piping_of n (dm_handlers d)))
    \<and> (\<forall>h \<in> set (dm_handlers d). ha_stage h \<noteq> Finished \<longrightarrow> dm_sessions d (ha_session h) \<noteq> None)"
  using daemon_inv_reach [OF assms] by (auto simp: daemon_inv_def active_def)

text \<open>A run of the daemon: a guest connects and asks for an allowed target, which is dialled.\<close>

definition example_host :: host_config where
  "example_host = \<lparr>hc_port = agent_default_port, hc_allow = [''tcp:a:1''], hc_filters = []\<rparr>"

definition example_daemon :: daemon where
  "example_daemon = begin_pipe 0 (begin_dial 0 [] ((add_session 0 ''Debian'' (start_daemon ''x''))
     \<lparr>dm_handlers := [\<lparr>ha_session = 0, ha_target = ''tcp:a:1'', ha_stage = Received\<rparr>]\<rparr>))"

lemma example_reach: "daemon_reach example_host ''x'' example_daemon"
proof -
  let ?d0 = "start_daemon ''x''"
  let ?d1 = "add_session 0 ''Debian'' ?d0"
  let ?d2 = "?d1\<lparr>dm_handlers := dm_handlers ?d1 @ [\<lparr>ha_session = 0, ha_target = ''tcp:a:1'', ha_stage = Received\<rparr>]\<rparr>"
  let ?d3 = "begin_dial 0 [] ?d2"
  have "daemon_step example_host ?d0 ?d1" by (rule daemon_step.connects) (simp_all add: start_daemon_def)
  then have r1: "daemon_reach example_host ''x'' ?d1" by (rule daemon_reach.stepped [OF daemon_reach.started])
  have "daemon_step example_host ?d1 ?d2" by (rule daemon_step.request) (simp add: add_session_def start_daemon_def)
  then have r2: "daemon_reach example_host ''x'' ?d2" by (rule daemon_reach.stepped [OF r1])
  have "open_verdict example_host ''tcp:a:1'' = DialThrough []"
    by (simp add: open_verdict_def allowed_def filter_for_def example_host_def new_filter_def)
  then have "daemon_step example_host ?d2 ?d3"
    by (intro daemon_step.dials) (simp_all add: at_stage_def add_session_def start_daemon_def)
  then have r3: "daemon_reach example_host ''x'' ?d3" by (rule daemon_reach.stepped [OF r2])
  have "daemon_step example_host ?d3 (begin_pipe 0 ?d3)"
    by (rule daemon_step.accepts) (simp add: at_stage_def begin_dial_def set_stage_def add_session_def start_daemon_def)
  then have "daemon_reach example_host ''x'' (begin_pipe 0 ?d3)" by (rule daemon_reach.stepped [OF r3])
  moreover have "dm_handlers ?d1 = []" by (simp add: add_session_def start_daemon_def)
  ultimately show ?thesis by (simp add: example_daemon_def)
qed

theorem daemon_dials_only_allowed_witness:
  "\<exists>h \<in> set (dm_handlers example_daemon). ha_stage h = Piping \<and> allowed example_host (ha_target h)"
proof -
  let ?h = "\<lparr>ha_session = 0, ha_target = ''tcp:a:1'', ha_stage = Piping\<rparr>"
  have h: "?h \<in> set (dm_handlers example_daemon)"
    by (simp add: example_daemon_def begin_pipe_def begin_dial_def set_stage_def on_session_def)
  have "allowed example_host (ha_target ?h)"
    using bspec [OF conjunct2 [OF daemon_dials_only_allowed [OF example_reach]] h] by simp
  then show ?thesis using h by (intro bexI [of _ ?h]) simp_all
qed

theorem daemon_status_counts_streams_witness:
  "\<exists>s. dm_sessions example_daemon 0 = Some s \<and> ds_streams s = 1"
proof -
  obtain s where s: "dm_sessions example_daemon 0 = Some s"
    by (simp add: example_daemon_def begin_pipe_def begin_dial_def set_stage_def on_session_def add_session_def
        start_daemon_def)
  have "piping_of 0 (dm_handlers example_daemon) = 1"
    by (simp add: example_daemon_def begin_pipe_def begin_dial_def set_stage_def on_session_def piping_of_def)
  then show ?thesis using s daemon_status_counts_streams [OF example_reach] by simp
qed

section \<open>Properties of the guest\<close>

text \<open>The back-off stays between its bounds.\<close>

lemma reconnect_bounded:
  "min_b \<le> b \<Longrightarrow> b \<le> max_b \<Longrightarrow> 0 < min_b \<Longrightarrow> min_b \<le> snd (reconnect min_b max_b b ev)
     \<and> snd (reconnect min_b max_b b ev) \<le> max_b"
  by (cases ev) (simp_all add: reconnect_def min_def)

lemma backoff_loop_bounded:
  "min_b \<le> b \<Longrightarrow> b \<le> max_b \<Longrightarrow> 0 < min_b \<Longrightarrow>
     min_b \<le> foldl (\<lambda>b ev. snd (reconnect min_b max_b b ev)) b evs
     \<and> foldl (\<lambda>b ev. snd (reconnect min_b max_b b ev)) b evs \<le> max_b"
proof (induction evs arbitrary: b)
  case (Cons ev evs)
  then show ?case using reconnect_bounded [of min_b b max_b ev] by simp
qed simp

lemma backoff_bounded:
  "0 < min_b \<Longrightarrow> min_b \<le> max_b \<Longrightarrow>
     min_b \<le> backoff_after min_b max_b evs \<and> backoff_after min_b max_b evs \<le> max_b"
  unfolding backoff_after_def by (rule backoff_loop_bounded) simp_all

text \<open>A handshake that keeps failing is retried at the same pace for ever, and a session that ends
  is replaced at once.\<close>

lemma failing_handshake_keeps_pace:
  "backoff_after min_b max_b (replicate n HandshakeFailed) = min_b"
  by (induction n) (simp_all add: backoff_after_def reconnect_def)

lemma ended_session_no_pause: "fst (reconnect min_b max_b b SessionEnded) = None"
  by (simp add: reconnect_def)

text \<open>A connection finds the session if there is one at one of its looks before the grace is over,
  never later than a look after the deadline, and without a grace it looks once.\<close>

lemma await_session_sound:
  "await_session up t deadline = Some u \<Longrightarrow> up u \<and> t \<le> u \<and> (u = t \<or> u < deadline + grace_poll)"
proof (induction up t deadline rule: await_session.induct)
  case (1 up t deadline)
  show ?case
  proof (cases "up t")
    case True
    then show ?thesis using "1.prems" await_session.simps [of up t deadline] by simp
  next
    case False
    then have lt: "t < deadline" and s: "await_session up (t + grace_poll) deadline = Some u"
      using "1.prems" await_session.simps [of up t deadline] by (simp_all split: if_splits)
    have "0 < grace_poll" by (simp add: grace_poll_def)
    then show ?thesis using "1.IH" [OF False lt s] lt by auto
  qed
qed

lemma await_session_complete:
  "await_session up t deadline = None \<Longrightarrow> up t = False \<and>
     (\<forall>k. t + int k * grace_poll < deadline \<longrightarrow> \<not> up (t + int k * grace_poll))"
proof (induction up t deadline rule: await_session.induct)
  case (1 up t deadline)
  have t: "\<not> up t" using 1(2) by (subst (asm) await_session.simps) (simp split: if_splits)
  have "\<not> up (t + int k * grace_poll)" if k: "t + int k * grace_poll < deadline" for k
  proof (cases k)
    case (Suc j)
    have lt: "t < deadline" using k by (simp add: grace_poll_def)
    have "await_session up (t + grace_poll) deadline = None"
      using 1(2) t lt by (subst (asm) await_session.simps) simp
    from 1(1) [OF t lt this] k Suc show ?thesis by (auto simp: algebra_simps)
  qed (simp add: t)
  then show ?case using t by simp
qed

lemma no_grace_looks_once: "serve_connection up (Some 0) now = (if up now then Some now else None)"
  by (simp add: serve_connection_def await_session.simps)

end
