(* ===== verification/Release.thy ===== *)
theory Release
  imports GoText "HOL-Library.Multiset" "HOL-Library.Word"
begin

text \<open>
  \<open>internal/release\<close>: the published WSL releases. A version is pulled out of a tag, two versions
  are compared component by component, and the newest stable release and the newest pre-release
  are picked out of a listing; a lookup prefers a fresh cache and falls back to a stale one. The
  request itself and the JSON are the environment's: what the server answered is a parameter, and
  so is the sorting function of the standard library, which is not stable.
\<close>

section \<open>Versions\<close>

text \<open>A component is accumulated in a 64-bit integer, which wraps.\<close>

fun component_loop :: "64 word \<Rightarrow> string \<Rightarrow> 64 word" where
  "component_loop n [] = n"
| "component_loop n (c # s) =
     (if \<not> is_digit c then n else component_loop (n * 10 + of_nat (digit_val c)) s)"

definition version_part :: "string list \<Rightarrow> nat \<Rightarrow> int" where
  "version_part parts i = (if i \<ge> length parts then 0 else sint (component_loop 0 (parts ! i)))"

fun compare_from :: "string list \<Rightarrow> string list \<Rightarrow> nat \<Rightarrow> nat \<Rightarrow> int" where
  "compare_from ap bp i 0 = 0"
| "compare_from ap bp i (Suc n) =
     (let x = version_part ap i; y = version_part bp i in
      if x > y then 1 else if x < y then - 1 else compare_from ap bp (Suc i) n)"

definition compare_versions :: "string \<Rightarrow> string \<Rightarrow> int" where
  "compare_versions a b =
     (let ap = split_on CHR ''.'' a; bp = split_on CHR ''.'' b
      in compare_from ap bp 0 (max (length ap) (length bp)))"

definition release_version :: "string \<Rightarrow> string" where
  "release_version t =
     (let s1 = trim_prefix (trim_prefix (trim_space t) ''v'') ''V'';
          s = (case last_index (\<lambda>c. c = CHR '' '') s1 of Some i \<Rightarrow> drop (i + 1) s1 | None \<Rightarrow> s1)
      in if s = [] then []
         else if list_ex (\<lambda>p. p = [] \<or> \<not> list_all is_digit p) (split_on CHR ''.'' s) then []
         else s)"

section \<open>The listing\<close>

record gh_release =
  gh_tag :: string
  gh_name :: string
  gh_draft :: bool
  gh_prerelease :: bool

record release_info =
  ri_stable :: string
  ri_prerelease :: string
  ri_fetched_at :: "int option"   \<comment> \<open>\<open>None\<close>: the zero time\<close>

datatype release_error = BadJson | EmptyListing | NoStable | NetworkFailed | RateLimited | BadStatus int | NoCache

definition version_of_release :: "gh_release \<Rightarrow> string" where
  "version_of_release r =
     (let v = release_version (gh_tag r) in if v = [] then release_version (gh_name r) else v)"

definition published :: "bool \<Rightarrow> gh_release list \<Rightarrow> string list" where
  "published pre rels =
     map version_of_release
       (filter (\<lambda>r. \<not> gh_draft r \<and> version_of_release r \<noteq> [] \<and> gh_prerelease r = pre) rels)"

definition parse_releases :: "(string list \<Rightarrow> string list) \<Rightarrow> gh_release list option \<Rightarrow> release_error + release_info" where
  "parse_releases sorter body =
     (case body of
        None \<Rightarrow> Inl BadJson
      | Some rels \<Rightarrow>
          if rels = [] then Inl EmptyListing
          else if published False rels = [] then Inl NoStable
          else
            (let stable = hd (sorter (published False rels));
                 pre = (if published True rels = [] then [] else hd (sorter (published True rels)))
             in Inr \<lparr>ri_stable = stable,
                  ri_prerelease = (if published True rels \<noteq> [] \<and> compare_versions pre stable > 0 then pre else []),
                  ri_fetched_at = None\<rparr>))"

text \<open>What a sorting function promises: the same elements, none before a newer one.\<close>

definition sorts_newest_first :: "(string list \<Rightarrow> string list) \<Rightarrow> bool" where
  "sorts_newest_first sorter \<longleftrightarrow>
     (\<forall>xs. mset (sorter xs) = mset xs \<and> sorted_wrt (\<lambda>a b. \<not> compare_versions b a > 0) (sorter xs))"

text \<open>What \<open>sort.Slice\<close> does with up to twelve elements: insertion.\<close>

fun insert_newest :: "string \<Rightarrow> string list \<Rightarrow> string list" where
  "insert_newest x [] = [x]"
| "insert_newest x (y # ys) =
     (if compare_versions x y > 0 then x # y # ys else y # insert_newest x ys)"

definition insertion_sort :: "string list \<Rightarrow> string list" where
  "insertion_sort xs = foldl (\<lambda>acc x. insert_newest x acc) [] xs"

section \<open>Lookup\<close>

definition cache_fresh :: "release_info \<Rightarrow> int \<Rightarrow> int \<Rightarrow> bool" where
  "cache_fresh i now ttl \<longleftrightarrow>
     ri_stable i \<noteq> [] \<and>
     (case ri_fetched_at i of None \<Rightarrow> False | Some at \<Rightarrow> 0 \<le> now - at \<and> now - at < ttl)"

definition release_ttl :: int where "release_ttl = 24 * 3600 * 10 ^ 9"

text \<open>What the server answered: no answer, or a status and the listing in the body.\<close>

datatype answer = NoAnswer | Answered int "gh_release list option"

definition fetch_releases :: "(string list \<Rightarrow> string list) \<Rightarrow> answer \<Rightarrow> int \<Rightarrow> release_error + release_info" where
  "fetch_releases sorter ans now =
     (case ans of
        NoAnswer \<Rightarrow> Inl NetworkFailed
      | Answered code body \<Rightarrow>
          if code = 200 then
            (case parse_releases sorter body of
               Inl e \<Rightarrow> Inl e
             | Inr i \<Rightarrow> Inr (i\<lparr>ri_fetched_at := Some now\<rparr>))
          else if code = 403 \<or> code = 429 then Inl RateLimited
          else Inl (BadStatus code))"

definition no_release :: release_info where
  "no_release = \<lparr>ri_stable = [], ri_prerelease = [], ri_fetched_at = None\<rparr>"

text \<open>\<open>Lookup\<close>: the answer, the error that comes with it, and what is in the cache afterwards.
  A cache that cannot be read counts as empty.\<close>

definition lookup_releases ::
    "(string list \<Rightarrow> string list) \<Rightarrow> answer \<Rightarrow> int \<Rightarrow> release_info option \<Rightarrow>
       (release_info \<times> release_error option) \<times> release_info option" where
  "lookup_releases sorter ans now cache =
     (let cached = (case cache of Some i \<Rightarrow> i | None \<Rightarrow> no_release) in
      if cache_fresh cached now release_ttl then ((cached, None), cache)
      else
        (case fetch_releases sorter ans now of
           Inl e \<Rightarrow> ((if ri_stable cached \<noteq> [] then cached else no_release, Some e), cache)
         | Inr i \<Rightarrow> ((i, None), Some i)))"

section \<open>Comparison is an order\<close>

definition key_of :: "nat \<Rightarrow> string \<Rightarrow> int list" where
  "key_of n v = map (version_part (split_on CHR ''.'' v)) [0..<n]"

lemma compare_from_lex:
  "compare_from ap bp i n =
     (let x = map (version_part ap) [i..<i + n]; y = map (version_part bp) [i..<i + n]
      in if x = y then 0 else if (x, y) \<in> lexord {(a, b). a < b} then - 1 else 1)"
proof (induction n arbitrary: i)
  case (Suc n)
  have "[i..<i + Suc n] = i # [Suc i..<Suc i + n]" by (simp add: upt_conv_Cons)
  then show ?case using Suc.IH [of "Suc i"] by (auto simp: Let_def)
qed simp

lemma compare_from_append:
  "compare_from ap bp i (m + n) = (let c = compare_from ap bp i m in if c \<noteq> 0 then c else compare_from ap bp (i + m) n)"
  by (induction m arbitrary: i) (auto simp: Let_def)

lemma compare_from_past:
  "length ap \<le> i \<Longrightarrow> length bp \<le> i \<Longrightarrow> compare_from ap bp i n = 0"
  by (induction n arbitrary: i) (simp_all add: version_part_def Let_def)

text \<open>Any number of components that is enough for both gives the comparison.\<close>

lemma compare_versions_upto:
  assumes "length (split_on CHR ''.'' a) \<le> n" and "length (split_on CHR ''.'' b) \<le> n"
  shows "compare_versions a b =
     (if key_of n a = key_of n b then 0 else if (key_of n a, key_of n b) \<in> lexord {(x, y). x < y} then - 1 else 1)"
proof -
  let ?a = "split_on CHR ''.'' a" and ?b = "split_on CHR ''.'' b"
  let ?m = "max (length ?a) (length ?b)"
  have "compare_from ?a ?b 0 n = compare_from ?a ?b 0 (?m + (n - ?m))" using assms by simp
  also have "\<dots> = compare_versions a b"
    unfolding compare_from_append by (simp add: compare_versions_def compare_from_past Let_def)
  finally show ?thesis
    using compare_from_lex [of ?a ?b 0 n, unfolded Let_def add_0, folded key_of_def] by simp
qed

definition newer :: "string \<Rightarrow> string \<Rightarrow> bool" where
  "newer a b \<longleftrightarrow> compare_versions a b > 0"

lemma int_lists_linear:
  "x = y \<or> (x, y) \<in> lexord {(x, y). x < y} \<or> (y, x) \<in> lexord {(x, y). x < y}" for x y :: "int list"
proof -
  have "(x, y) \<in> lexord {(x, y). x < y} \<or> x = y \<or> (y, x) \<in> lexord {(x, y). x < y}"
    by (rule lexord_linear) auto
  then show ?thesis by blast
qed

lemma int_lists_asym: "(x, y) \<in> lexord {(x, y). x < y} \<Longrightarrow> (y, x) \<notin> lexord {(x, y). x < y}"
  for x y :: "int list"
  by (rule asymD [OF lexord_asym]) (auto intro: asymI)

lemma newer_key:
  assumes "length (split_on CHR ''.'' a) \<le> n" and "length (split_on CHR ''.'' b) \<le> n"
  shows "newer a b \<longleftrightarrow> (key_of n b, key_of n a) \<in> lexord {(x, y). x < y}"
proof -
  show ?thesis
    using compare_versions_upto [OF assms] int_lists_linear int_lists_asym by (metis newer_def zero_less_one
        neg_0_less_iff_less less_irrefl not_one_less_zero)
qed

lemma not_newer_trans:
  assumes "\<not> newer b a" and "\<not> newer c b" shows "\<not> newer c a"
proof -
  let ?l = "\<lambda>v. length (split_on CHR ''.'' v)"
  let ?n = "?l a + ?l b + ?l c"
  let ?R = "lexord {(x, y). x < (y :: int)}"
  have k: "newer b a \<longleftrightarrow> (key_of ?n a, key_of ?n b) \<in> ?R" "newer c b \<longleftrightarrow> (key_of ?n b, key_of ?n c) \<in> ?R"
    "newer c a \<longleftrightarrow> (key_of ?n a, key_of ?n c) \<in> ?R"
    by (intro newer_key; simp)+
  have tr: "trans ?R" by (rule lexord_transI) (auto intro: transI)
  show ?thesis
    using assms k transD [OF tr] int_lists_linear [of "key_of ?n a" "key_of ?n b"]
      int_lists_linear [of "key_of ?n b" "key_of ?n c"] int_lists_asym by metis
qed

lemma newer_asym: "newer a b \<Longrightarrow> \<not> newer b a"
proof -
  let ?n = "length (split_on CHR ''.'' a) + length (split_on CHR ''.'' b)"
  show "newer a b \<Longrightarrow> \<not> newer b a"
    using newer_key [of a ?n b] newer_key [of b ?n a] int_lists_asym by simp
qed

lemma newer_irrefl: "\<not> newer a a"
  using newer_asym by blast

section \<open>Insertion sorts\<close>

lemma mset_insert_newest: "mset (insert_newest x xs) = add_mset x (mset xs)"
  by (induction xs) auto

lemma sorted_insert_newest:
  "sorted_wrt (\<lambda>a b. \<not> newer b a) xs \<Longrightarrow> sorted_wrt (\<lambda>a b. \<not> newer b a) (insert_newest x xs)"
proof (induction xs)
  case (Cons y ys)
  have set: "set (insert_newest x ys) = insert x (set ys)"
    by (metis mset_insert_newest set_mset_add_mset_insert set_mset_mset)
  show ?case
  proof (cases "newer x y")
    case True
    then have "\<forall>z \<in> set (y # ys). \<not> newer z x"
      using Cons.prems newer_asym [OF True] not_newer_trans [of y x] by auto
    then show ?thesis using True Cons.prems by (simp add: newer_def)
  next
    case False
    then show ?thesis using Cons set by (auto simp: newer_def)
  qed
qed simp

lemma insertion_sorts: "sorts_newest_first insertion_sort"
proof -
  have "mset (foldl (\<lambda>acc x. insert_newest x acc) acc xs) = mset acc + mset xs
      \<and> sorted_wrt (\<lambda>a b. \<not> newer b a) (foldl (\<lambda>acc x. insert_newest x acc) acc xs)"
    if "sorted_wrt (\<lambda>a b. \<not> newer b a) acc" for acc xs
    using that
  proof (induction xs arbitrary: acc)
    case (Cons x xs)
    from Cons.IH [OF sorted_insert_newest [OF Cons.prems]] show ?case
      by (simp add: mset_insert_newest)
  qed simp
  from this [of "[]"] show ?thesis
    by (simp add: sorts_newest_first_def insertion_sort_def newer_def)
qed

section \<open>The newest releases\<close>

lemma sorter_head:
  assumes "sorts_newest_first sorter" and "xs \<noteq> []"
  shows "hd (sorter xs) \<in> set xs" and "v \<in> set xs \<Longrightarrow> \<not> newer v (hd (sorter xs))"
proof -
  have m: "mset (sorter xs) = mset xs" and s: "sorted_wrt (\<lambda>a b. \<not> newer b a) (sorter xs)"
    using assms(1) by (simp_all add: sorts_newest_first_def newer_def)
  have set: "set (sorter xs) = set xs" using m by (metis set_mset_mset)
  then obtain h t where ht: "sorter xs = h # t" using assms(2) by (cases "sorter xs") auto
  show "hd (sorter xs) \<in> set xs" using ht set by auto
  show "v \<in> set xs \<Longrightarrow> \<not> newer v (hd (sorter xs))"
    using ht s set newer_irrefl by (auto simp flip: set)
qed

text \<open>whatever order the listing comes in, and however the sort breaks ties, the release reported
  as stable is a published one and no published stable release is newer. A pre-release is reported
  only if it is newer than that; then none is newer than it, and otherwise no pre-release is newer
  than the stable one.\<close>

theorem release_picks_newest:
  assumes "sorts_newest_first sorter" and "parse_releases sorter (Some rels) = Inr i"
  shows "ri_stable i \<in> set (published False rels)
    \<and> (\<forall>v \<in> set (published False rels). compare_versions v (ri_stable i) \<le> 0)
    \<and> (if ri_prerelease i = [] then \<forall>v \<in> set (published True rels). compare_versions v (ri_stable i) \<le> 0
       else ri_prerelease i \<in> set (published True rels) \<and> compare_versions (ri_prerelease i) (ri_stable i) > 0
         \<and> (\<forall>v \<in> set (published True rels). compare_versions v (ri_prerelease i) \<le> 0))"
proof -
  have ne: "published False rels \<noteq> []"
    and i: "ri_stable i = hd (sorter (published False rels))"
      "ri_prerelease i = (if published True rels \<noteq> [] \<and> newer (hd (sorter (published True rels))) (ri_stable i)
         then hd (sorter (published True rels)) else [])"
    using assms(2) by (auto simp: parse_releases_def Let_def newer_def split: if_splits)
  note st = sorter_head [OF assms(1) ne, folded i(1)]
  have nonempty: "[] \<notin> set (published True rels)" by (auto simp: published_def)
  show ?thesis
  proof (cases "published True rels = []")
    case True then show ?thesis using st i(2) by (simp add: newer_def not_less)
  next
    case False
    note pre = sorter_head [OF assms(1) False]
    have "hd (sorter (published True rels)) \<noteq> []" using pre(1) nonempty by metis
    moreover have "\<not> newer v (ri_stable i)"
      if "v \<in> set (published True rels)" "\<not> newer (hd (sorter (published True rels))) (ri_stable i)" for v
      using not_newer_trans that pre(2) by blast
    ultimately show ?thesis using st pre i(2) False by (auto simp: newer_def not_less)
  qed
qed

lemma two_releases:
  "published False [\<lparr>gh_tag = ''v2.6.1'', gh_name = [], gh_draft = False, gh_prerelease = False\<rparr>,
     \<lparr>gh_tag = ''2.7.14'', gh_name = [], gh_draft = False, gh_prerelease = False\<rparr>] = [''2.6.1'', ''2.7.14'']"
  by code_simp

theorem release_picks_newest_witness:
  "\<exists>i. parse_releases insertion_sort
     (Some [\<lparr>gh_tag = ''v2.6.1'', gh_name = [], gh_draft = False, gh_prerelease = False\<rparr>,
            \<lparr>gh_tag = ''2.7.14'', gh_name = [], gh_draft = False, gh_prerelease = False\<rparr>]) = Inr i
     \<and> ri_stable i \<in> {''2.6.1'', ''2.7.14''}
     \<and> compare_versions ''2.6.1'' (ri_stable i) \<le> 0 \<and> compare_versions ''2.7.14'' (ri_stable i) \<le> 0"
proof -
  let ?rels = "[\<lparr>gh_tag = ''v2.6.1'', gh_name = [], gh_draft = False, gh_prerelease = False\<rparr>,
    \<lparr>gh_tag = ''2.7.14'', gh_name = [], gh_draft = False, gh_prerelease = False\<rparr>]"
  obtain i where i: "parse_releases insertion_sort (Some ?rels) = Inr i"
    by (simp add: parse_releases_def two_releases Let_def)
  from release_picks_newest [OF insertion_sorts i] show ?thesis
    using i by (simp only: two_releases) auto
qed

text \<open>A lookup that fails leaves the cache as it was, and answers with it however old it is.\<close>

lemma stale_cache_answers:
  assumes "cache = Some i" and "ri_stable i \<noteq> []" and "\<not> cache_fresh i now release_ttl"
    and "fetch_releases sorter ans now = Inl e"
  shows "lookup_releases sorter ans now cache = ((i, Some e), Some i)"
  using assms by (simp add: lookup_releases_def Let_def)

lemma lookup_then_fresh:
  assumes "lookup_releases sorter ans now cache = ((i, None), cache')" and "now \<le> later" and "later < now + release_ttl"
    and "\<not> cache_fresh (case cache of Some c \<Rightarrow> c | None \<Rightarrow> no_release) now release_ttl" and "ri_stable i \<noteq> []"
  shows "lookup_releases sorter ans' later cache' = ((i, None), cache')"
  using assms
  by (auto simp: lookup_releases_def Let_def fetch_releases_def cache_fresh_def split: sum.splits answer.splits if_splits)

end
