(* ===== verification/DiskPaths.thy ===== *)
theory DiskPaths
  imports GoStd
begin

text \<open>
  \<open>internal/disk/paths.go\<close> and \<open>owner.go\<close>, and \<open>joinWindows\<close> of \<open>disk.go\<close>: comparing,
  splitting and joining Windows paths without the host's idea of a separator, and telling
  from its path which application a disk belongs to.
\<close>

section \<open>Separators\<close>

definition backslash :: char where "backslash = CHR 0x5C"

definition is_sep :: "char \<Rightarrow> bool" where
  "is_sep c \<longleftrightarrow> c = backslash \<or> c = CHR ''/''"

definition bs :: "string \<Rightarrow> string" where
  "bs s = replace_char (CHR ''|'') backslash s"

text \<open>\<open>bs\<close> writes a path literal with \<open>|\<close> for the backslash.\<close>

definition extended_prefix :: string where
  "extended_prefix = [backslash, backslash, CHR ''?'', backslash]"

definition unc_prefix :: string where
  "unc_prefix = extended_prefix @ ''UNC'' @ [backslash]"

section \<open>Comparing\<close>

text \<open>The loop that strips trailing separators, but not a drive root's.\<close>

function trim_trailing :: "string \<Rightarrow> string" where
  "trim_trailing p =
     (if 1 < length p \<and> has_suffix p [backslash] \<and> \<not> has_suffix p [CHR '':'', backslash]
      then trim_trailing (trim_suffix p [backslash]) else p)"
  by pat_completeness auto
termination
  by (relation "measure length") (auto simp: trim_suffix_def)

declare trim_trailing.simps [simp del]

definition canonical_path :: "string \<Rightarrow> string" where
  "canonical_path p0 =
     (let p1 = (if has_prefix p0 unc_prefix
                then [backslash, backslash] @ trim_prefix p0 unc_prefix
                else if has_prefix p0 extended_prefix then trim_prefix p0 extended_prefix
                else p0);
          p2 = replace_char (CHR ''/'') backslash p1
      in to_lower (trim_trailing p2))"

definition same_path :: "string \<Rightarrow> string \<Rightarrow> bool" where
  "same_path a b \<longleftrightarrow> canonical_path a = canonical_path b"

section \<open>Splitting and joining\<close>

definition dir_of :: "string \<Rightarrow> string" where
  "dir_of p0 =
     (let p = trim_right is_sep p0
      in case last_index is_sep p of
           None \<Rightarrow> []
         | Some i \<Rightarrow> if i = 2 \<and> 2 < length p \<and> p ! 1 = CHR '':'' then take 3 p else take i p)"

definition base_of :: "string \<Rightarrow> string" where
  "base_of p0 =
     (let p = trim_right is_sep p0
      in case last_index is_sep p of None \<Rightarrow> p | Some i \<Rightarrow> drop (i + 1) p)"

definition has_extended_prefix :: "string \<Rightarrow> bool" where
  "has_extended_prefix p = has_prefix p extended_prefix"

definition with_same_prefix_as :: "string \<Rightarrow> string \<Rightarrow> string" where
  "with_same_prefix_as original dir =
     (let bare = trim_prefix dir extended_prefix
      in if has_extended_prefix original then extended_prefix @ bare else bare)"

definition join_windows :: "string \<Rightarrow> string \<Rightarrow> string" where
  "join_windows dir0 name =
     (let dir = trim_right is_sep dir0
      in if dir = [] then name else dir @ [backslash] @ name)"

section \<open>Owners\<close>

record owner =
  ow_name :: string
  ow_holds :: string

definition owners :: "(string list \<times> owner) list" where
  "owners =
    [([bs ''|docker|wsl|'', bs ''|dockerdesktopwsl|'', ''docker_data.vhdx'', ''docker_desktop.vhdx''],
      \<lparr>ow_name = ''Docker Desktop'', ow_holds = ''every Docker volume, image and container on this machine''\<rparr>),
     ([bs ''|rancher-desktop|'', bs ''|rancherdesktop|''],
      \<lparr>ow_name = ''Rancher Desktop'', ow_holds = ''its Kubernetes cluster and container storage''\<rparr>),
     ([bs ''|podman|'', ''podman-machine''],
      \<lparr>ow_name = ''Podman'', ow_holds = ''a Podman machine and everything in it''\<rparr>),
     ([bs ''|minikube|''],
      \<lparr>ow_name = ''minikube'', ow_holds = ''a Kubernetes cluster''\<rparr>),
     ([bs ''|wslkit|trash|'', bs ''|wsldisk|trash|''],
      \<lparr>ow_name = ''wslkit'', ow_holds = ''a distribution moved to the trash; wslkit disk undelete brings it back''\<rparr>),
     ([bs ''|packages|''],
      \<lparr>ow_name = '''', ow_holds = ''a distribution installed from the Store, which may have been unregistered without deleting its disk''\<rparr>)]"

definition identify_owner :: "string \<Rightarrow> owner" where
  "identify_owner path =
     (let p = to_lower path
      in case find (\<lambda>(match, o1). list_ex (contains p) match) owners of
           Some (_, o1) \<Rightarrow> o1 | None \<Rightarrow> \<lparr>ow_name = [], ow_holds = []\<rparr>)"

definition describe_owner :: "owner \<Rightarrow> string" where
  "describe_owner o1 =
     (if ow_name o1 \<noteq> [] then ow_name o1 else ''unknown'')"

section \<open>Facts\<close>

lemma backslash_facts [simp]:
  "is_sep backslash" "is_sep (CHR ''/'')" "backslash \<noteq> CHR ''/''" "CHR ''/'' \<noteq> backslash"
  "backslash \<noteq> CHR ''?''" "CHR ''?'' \<noteq> backslash" "backslash \<noteq> CHR '':''" "CHR '':'' \<noteq> backslash"
  "lower_char backslash = backslash"
  by (simp_all add: is_sep_def backslash_def lower_char_def is_upper_def)

lemma is_sep_slash [simp]: "is_sep c \<Longrightarrow> lower_char c = c"
  by (auto simp: is_sep_def backslash_def lower_char_def is_upper_def)

lemma same_path_refl [simp]: "same_path a a"
  by (simp add: same_path_def)

lemma canonical_no_prefix:
  "\<not> has_prefix p extended_prefix \<Longrightarrow>
     canonical_path p = to_lower (trim_trailing (replace_char (CHR ''/'') backslash p))"
proof -
  assume np: "\<not> has_prefix p extended_prefix"
  then have "\<not> has_prefix p unc_prefix"
    by (auto simp: unc_prefix_def has_prefix_iff)
  with np show ?thesis by (simp add: canonical_path_def Let_def)
qed

lemma canonical_extended:
  "\<not> has_prefix p (''UNC'' @ [backslash]) \<Longrightarrow>
     canonical_path (extended_prefix @ p)
       = to_lower (trim_trailing (replace_char (CHR ''/'') backslash p))"
proof -
  assume np: "\<not> has_prefix p (''UNC'' @ [backslash])"
  then have "\<not> has_prefix (extended_prefix @ p) unc_prefix"
    by (auto simp: unc_prefix_def has_prefix_iff)
  then show ?thesis by (simp add: canonical_path_def Let_def)
qed

lemma lower_char_fixed:
  assumes "lower_char c = d" and "\<not> (97 \<le> (of_char d :: nat) \<and> (of_char d :: nat) \<le> 122)"
  shows "c = d"
proof (cases "is_upper c")
  case True
  then have "of_char (lower_char c) = (of_char c + 32 :: nat)"
    by (simp add: lower_char_def is_upper_def of_char_of)
  with True assms show ?thesis by (simp add: is_upper_def)
next
  case False
  with assms show ?thesis by (simp add: lower_char_def)
qed

lemma lower_char_sep [simp]:
  "lower_char c = backslash \<longleftrightarrow> c = backslash" "lower_char c = CHR '':'' \<longleftrightarrow> c = CHR '':''"
  "lower_char c = CHR ''?'' \<longleftrightarrow> c = CHR ''?''"
  using lower_char_fixed [of c backslash] lower_char_fixed [of c "CHR '':''"]
    lower_char_fixed [of c "CHR ''?''"]
  by (auto simp: backslash_def lower_char_def is_upper_def)

text \<open>Folding case commutes with the loop that strips trailing separators.\<close>

lemma to_lower_trim_trailing: "to_lower (trim_trailing p) = trim_trailing (to_lower p)"
proof (induction p rule: trim_trailing.induct)
  case (1 p)
  have suf: "has_suffix (to_lower p) t = has_suffix p t" if "t = [backslash] \<or> t = [CHR '':'', backslash]" for t
    using that by (auto simp: has_suffix_def to_lower_def drop_map map_eq_Cons_conv)
  have trim: "trim_suffix (to_lower p) [backslash] = to_lower (trim_suffix p [backslash])"
    using suf [of "[backslash]"] by (simp add: trim_suffix_def) (simp add: to_lower_def take_map)
  show ?case
    by (subst (1 2) trim_trailing.simps) (use 1 suf trim in auto)
qed

lemma extended_prefix_lower [simp]:
  "has_prefix (to_lower p) extended_prefix = has_prefix p extended_prefix"
  by (auto simp: has_prefix_def extended_prefix_def to_lower_def take_map map_eq_Cons_conv)

lemma replace_to_lower:
  "replace_char (CHR ''/'') backslash (to_lower p) = to_lower (replace_char (CHR ''/'') backslash p)"
proof -
  have "lower_char c = CHR ''/'' \<longleftrightarrow> c = CHR ''/''" for c
    using lower_char_fixed [of c "CHR ''/''"] by (auto simp: lower_char_def is_upper_def)
  then show ?thesis by (auto simp: replace_char_def to_lower_def)
qed

lemma extended_prefix_replace:
  "has_prefix p extended_prefix \<Longrightarrow> has_prefix (replace_char (CHR ''/'') backslash p) extended_prefix"
  by (auto simp: has_prefix_iff replace_char_def extended_prefix_def)

lemma trim_right_seps: "\<forall>c \<in> set n. \<not> is_sep c \<Longrightarrow> n \<noteq> [] \<Longrightarrow> trim_right is_sep (d @ n) = d @ n"
  by (rule trim_right_id) auto

lemma join_windows_parts:
  assumes "d \<noteq> []" and "\<not> is_sep (last d)"
  shows "join_windows d n = d @ [backslash] @ n"
  using assms by (simp add: join_windows_def trim_right_id)

lemma base_of_append:
  "is_sep c \<Longrightarrow> \<forall>c \<in> set n. \<not> is_sep c \<Longrightarrow> n \<noteq> [] \<Longrightarrow> base_of (d @ c # n) = n"
  using trim_right_seps [of n "d @ [c]"]
  by (simp add: base_of_def Let_def last_index_append_stop)

lemma base_of_join:
  assumes "\<forall>c \<in> set n. \<not> is_sep c" and "n \<noteq> []"
  shows "base_of (join_windows d n) = n"
proof (cases "trim_right is_sep d = []")
  case True
  moreover have "last_index is_sep n = None" using assms by (simp add: last_index_None)
  ultimately show ?thesis
    using assms trim_right_seps [of n "[]"] by (simp add: join_windows_def base_of_def Let_def)
next
  case False
  then show ?thesis using assms by (simp add: join_windows_def base_of_append)
qed

lemma dir_of_append:
  assumes "is_sep c" and "\<forall>c \<in> set n. \<not> is_sep c" and "n \<noteq> []"
  shows "dir_of (d @ c # n) = (if length d = 2 \<and> d ! 1 = CHR '':'' then d @ [c] else d)"
  using assms trim_right_seps [of n "d @ [c]"]
  by (auto simp: dir_of_def Let_def last_index_append_stop nth_append)

section \<open>Properties\<close>

text \<open>Joining a directory and a file name and splitting the result gives both back: whatever
  trailing separators the directory has, the base is the name, and joining the directory part
  with the base again is the same path, also for a file in a drive's root, whose directory part
  keeps its separator.\<close>

theorem join_then_split:
  assumes "\<forall>c \<in> set n. \<not> is_sep c" and "n \<noteq> []"
  shows "base_of (join_windows d n) = n
    \<and> join_windows (dir_of (join_windows d n)) (base_of (join_windows d n)) = join_windows d n"
proof -
  let ?d = "trim_right is_sep d"
  have base: "base_of (join_windows d n) = n" by (rule base_of_join [OF assms])
  show ?thesis
  proof (cases "?d = []")
    case True
    then have "join_windows d n = n" by (simp add: join_windows_def)
    moreover have "last_index is_sep n = None" using assms by (simp add: last_index_None)
    moreover have "trim_right is_sep [] = []" by (simp add: trim_right_def)
    ultimately show ?thesis
      using base assms trim_right_seps [of n "[]"] by (simp add: dir_of_def Let_def join_windows_def)
  next
    case False
    then have last: "\<not> is_sep (last ?d)" using trim_right_last [of is_sep d] by simp
    have join: "join_windows d n = ?d @ backslash # n" using False by (simp add: join_windows_def)
    have dir: "dir_of (?d @ backslash # n) =
        (if length ?d = 2 \<and> ?d ! 1 = CHR '':'' then ?d @ [backslash] else ?d)"
      using assms by (simp add: dir_of_append)
    have "trim_right is_sep (?d @ [backslash]) = ?d"
      using last False by (intro trim_right_append_stop) auto
    then have "join_windows (dir_of (?d @ backslash # n)) n = ?d @ backslash # n"
      using False last unfolding dir by (auto simp: join_windows_def trim_right_id)
    with base join show ?thesis by simp
  qed
qed

theorem join_then_split_witness:
  "base_of (join_windows (bs ''C:||'') ''ext4.vhdx'') = ''ext4.vhdx''
    \<and> join_windows (dir_of (join_windows (bs ''C:||'') ''ext4.vhdx''))
        (base_of (join_windows (bs ''C:||'') ''ext4.vhdx'')) = join_windows (bs ''C:||'') ''ext4.vhdx''"
  by (rule join_then_split) (simp_all add: is_sep_def backslash_def)

text \<open>The path comparison that decides whether a registration claims a disk sees through
  everything that may differ between two spellings of an ordinary path: the extended-length
  prefix, forward slashes and the case of the letters. The path must not itself start with a
  prefix once its slashes are turned.\<close>

theorem same_path_spellings:
  assumes "\<not> has_prefix (replace_char (CHR ''/'') backslash p) extended_prefix"
    and "\<not> has_prefix p (''UNC'' @ [backslash])"
  shows "same_path (extended_prefix @ p) p \<and> same_path (to_lower p) p
    \<and> same_path (replace_char (CHR ''/'') backslash p) p"
proof -
  have np: "\<not> has_prefix p extended_prefix"
    using assms(1) extended_prefix_replace by blast
  have "same_path (extended_prefix @ p) p"
    by (simp add: same_path_def canonical_extended [OF assms(2)] canonical_no_prefix [OF np])
  moreover have "same_path (to_lower p) p"
    using np by (simp add: same_path_def canonical_no_prefix replace_to_lower to_lower_trim_trailing)
  moreover have "same_path (replace_char (CHR ''/'') backslash p) p"
    using np assms(1) by (simp add: same_path_def canonical_no_prefix replace_char_idem)
  ultimately show ?thesis by blast
qed

theorem same_path_spellings_witness:
  "same_path (extended_prefix @ ''C:/WSL/Ext4.vhdx'') ''C:/WSL/Ext4.vhdx''
    \<and> same_path (to_lower ''C:/WSL/Ext4.vhdx'') ''C:/WSL/Ext4.vhdx''
    \<and> same_path (replace_char (CHR ''/'') backslash ''C:/WSL/Ext4.vhdx'') ''C:/WSL/Ext4.vhdx''"
  by (rule same_path_spellings)
    (simp_all add: has_prefix_def extended_prefix_def replace_char_def backslash_def)

text \<open>The prefix of a network path is compared with its case, so two spellings of it differ.\<close>

lemma same_path_unc_case:
  "same_path (bs ''||?|UNC|srv|x'') (bs ''||srv|x'') \<and> \<not> same_path (bs ''||?|unc|srv|x'') (bs ''||srv|x'')"
  by code_simp

end
