(* ===== verification/DiskCore.thy ===== *)
theory DiskCore
  imports DiskPaths "HOL-Library.List_Lexorder" "HOL-Library.Product_Lexorder"
    "HOL-Library.Multiset"
begin

text \<open>
  \<open>internal/disk/disk.go\<close>, the lifecycle rules of \<open>op.go\<close> and the guard of \<open>package.go\<close>: the
  registration of a distribution, picking one by name, the display order, the preconditions of
  a mutating command, and plans. Messages are left to the reader of the code where they only
  repeat their arguments: an error carries its sentinel and what the message is about.
\<close>

section \<open>Registrations\<close>

definition default_vhd_name :: string where "default_vhd_name = ''ext4.vhdx''"

record registration =
  g_guid :: string
  g_name :: string
  g_is_default :: bool
  g_version :: int
  g_state :: int
  g_base_path :: string
  g_vhd_file_name :: string
  g_flags :: int
  g_default_uid :: int
  g_run_oobe :: int
  g_modern :: int
  g_flavor :: string
  g_os_version :: string
  g_shortcut_path :: string
  g_terminal_profile_path :: string
  g_package_family_name :: string

definition state_normal :: int where "state_normal = 1"

definition reg_base :: "registration \<Rightarrow> string" where
  "reg_base r = trim_prefix (g_base_path r) extended_prefix"

definition vhd_name :: "registration \<Rightarrow> string" where
  "vhd_name r = (if g_vhd_file_name r = [] then default_vhd_name else g_vhd_file_name r)"

definition vhd_path :: "registration \<Rightarrow> string" where
  "vhd_path r =
     (if g_version r \<noteq> 2 \<or> g_base_path r = [] then []
      else join_windows (reg_base r) (vhd_name r))"

text \<open>The errors of the package: the sentinels of \<open>disk.go\<close>, \<open>relink.go\<close>, \<open>compact.go\<close>,
  \<open>trash.go\<close> and \<open>snapshot.go\<close>, a failure of a port, and an error that a second one joined.\<close>

datatype disk_error =
    ErrNoDistros
  | ErrNotFound string
  | ErrAmbiguous string
  | ErrNoDefault
  | ErrNotWSL2
  | ErrRunning
  | ErrNotVHDX
  | ErrRefused
  | ErrSmokeTest
  | ErrBusy
  | ErrNotTrashed string
  | ErrAlreadyRegistered string
  | ErrNoSnapshot string
  | PortFailed string
  | Unmet string
  | WrongReadBack
  | NoDefaultName
  | NoReturn
  | StillHeld
  | LeftBehind
  | Grew
  | NotStartedAgain
  | Joined disk_error

section \<open>Picking one\<close>

definition resolve :: "registration list \<Rightarrow> string \<Rightarrow> disk_error + registration" where
  "resolve list name =
     (if list = [] then Inl ErrNoDistros
      else if name = []
      then (case find g_is_default list of Some r \<Rightarrow> Inr r | None \<Rightarrow> Inl ErrNoDefault)
      else (case find (\<lambda>r. g_name r = name) list of
              Some r \<Rightarrow> Inr r
            | None \<Rightarrow>
                (case filter (\<lambda>r. equal_fold (g_name r) name) list of
                   [] \<Rightarrow> Inl (ErrNotFound name)
                 | [r] \<Rightarrow> Inr r
                 | _ \<Rightarrow> Inl (ErrAmbiguous name))))"

text \<open>\<open>Sorted\<close>: a stable sort with the default first, then by the lower-cased name.\<close>

definition display_key :: "registration \<Rightarrow> bool \<times> string" where
  "display_key r = (\<not> g_is_default r, to_lower (g_name r))"

definition sorted_regs :: "registration list \<Rightarrow> registration list" where
  "sorted_regs list = sort_key display_key list"

definition names_of :: "registration list \<Rightarrow> string list" where
  "names_of list = map g_name (sorted_regs list)"

section \<open>Preconditions\<close>

record precondition =
  p_name :: string
  p_ok :: bool

record disk_state =
  ds_reg :: registration
  ds_running :: bool
  ds_vhd_exists :: bool
  ds_vhd_in_use :: bool

definition check_state :: "disk_state \<Rightarrow> precondition list" where
  "check_state s =
     (let path = vhd_path (ds_reg s);
          is_vhdx = has_suffix (to_lower path) ''.vhdx''
      in [\<lparr>p_name = ''wsl2'', p_ok = (g_version (ds_reg s) = 2)\<rparr>,
          \<lparr>p_name = ''state_normal'', p_ok = (g_state (ds_reg s) = state_normal)\<rparr>,
          \<lparr>p_name = ''vhdx'', p_ok = (path \<noteq> [] \<and> is_vhdx)\<rparr>,
          \<lparr>p_name = ''vhd_exists'', p_ok = ds_vhd_exists s\<rparr>,
          \<lparr>p_name = ''stopped'', p_ok = (\<not> ds_running s)\<rparr>,
          \<lparr>p_name = ''disk_free'', p_ok = (\<not> ds_vhd_in_use s)\<rparr>])"

definition unmet :: "precondition list \<Rightarrow> precondition list" where
  "unmet ps = filter (\<lambda>p. \<not> p_ok p) ps"

definition error_of_precondition :: "string \<Rightarrow> disk_error" where
  "error_of_precondition n =
     (if n = ''wsl2'' then ErrNotWSL2
      else if n = ''stopped'' then ErrRunning
      else if n = ''vhdx'' then ErrNotVHDX
      else if n = ''disk_free'' then ErrRunning
      else Unmet n)"

definition first_error :: "precondition list \<Rightarrow> disk_error option" where
  "first_error ps = (case unmet ps of [] \<Rightarrow> None | p # _ \<Rightarrow> Some (error_of_precondition (p_name p)))"

section \<open>Packaged distributions\<close>

definition packages_dir :: string where
  "packages_dir = bs ''|appdata|local|packages|''"

datatype mismatch = NoMismatch | DiskMovedOut | NoFamilyName

record packaged =
  pk_owned :: bool
  pk_family :: string
  pk_mismatch :: mismatch

definition package_of :: "registration \<Rightarrow> packaged" where
  "package_of r =
     (let family = trim_space (g_package_family_name r);
          in_dir = contains (to_lower (reg_base r)) packages_dir
      in \<lparr>pk_owned = (family \<noteq> [] \<or> in_dir), pk_family = family,
          pk_mismatch = (if family \<noteq> [] \<and> \<not> in_dir then DiskMovedOut
                         else if family = [] \<and> in_dir then NoFamilyName else NoMismatch)\<rparr>)"

definition guard_packaged :: "registration \<Rightarrow> bool \<Rightarrow> disk_error option" where
  "guard_packaged r force =
     (if \<not> pk_owned (package_of r) \<or> force then None else Some ErrRefused)"

section \<open>Plans\<close>

datatype action =
    PointAt string | StartToCheck | MoveFile string string | CopyFile string string
  | DeleteFile string | RenameTo string | StopAndWait | ShutWSLDown | MoveToTrash | Unregister
  | RegisterFrom string | RestoreSettings | RunTrim | CompactFile string | StartAgain
  | SetFlags int | ReadUsage | WriteManifest | MoveAside | CopySnapshot | KeepReplaced | ExportTo string | ImportFrom string

record plan_step =
  ps_action :: action
  ps_undoable :: bool
  ps_irreversible :: bool

type_synonym plan = "plan_step list"

definition plain_step :: "action \<Rightarrow> plan_step" where
  "plain_step a = \<lparr>ps_action = a, ps_undoable = False, ps_irreversible = False\<rparr>"

definition undoable_step :: "action \<Rightarrow> plan_step" where
  "undoable_step a = \<lparr>ps_action = a, ps_undoable = True, ps_irreversible = False\<rparr>"

definition irreversible_step :: "action \<Rightarrow> plan_step" where
  "irreversible_step a = \<lparr>ps_action = a, ps_undoable = False, ps_irreversible = True\<rparr>"

text \<open>\<open>Plan.Valid\<close>: the loop over the steps, which stops at the first undoable step after an
  irreversible one.\<close>

fun valid_from :: "bool \<Rightarrow> plan \<Rightarrow> action option" where
  "valid_from seen [] = None"
| "valid_from seen (s # ss) =
     (if ps_irreversible s then valid_from True ss
      else if seen \<and> ps_undoable s then Some (ps_action s)
      else valid_from seen ss)"

definition plan_valid :: "plan \<Rightarrow> bool" where
  "plan_valid p \<longleftrightarrow> valid_from False p = None"

lemma plan_steps [simp]:
  "ps_irreversible (irreversible_step a)" "\<not> ps_undoable (irreversible_step a)"
  "ps_undoable (undoable_step a)" "\<not> ps_irreversible (undoable_step a)"
  "\<not> ps_undoable (plain_step a)" "\<not> ps_irreversible (plain_step a)"
  by (simp_all add: plain_step_def undoable_step_def irreversible_step_def)

section \<open>Facts\<close>

lemma find_distinct_name:
  "distinct (map g_name list) \<Longrightarrow>
     find (\<lambda>x. g_name x = name) list = Some r \<longleftrightarrow> r \<in> set list \<and> g_name r = name"
  by (induction list) auto

text \<open>What a name means, as a function of the registrations without their order.\<close>

definition pick :: "registration multiset \<Rightarrow> string \<Rightarrow> disk_error + registration" where
  "pick m name =
     (if m = {#} then Inl ErrNoDistros
      else if \<exists>r. r \<in># m \<and> g_name r = name
      then Inr (THE r. r \<in># m \<and> g_name r = name)
      else (let hits = filter_mset (\<lambda>r. equal_fold (g_name r) name) m
            in if size hits = 0 then Inl (ErrNotFound name)
               else if size hits = 1 then Inr (THE r. r \<in># hits)
               else Inl (ErrAmbiguous name)))"

lemma resolve_pick:
  assumes "distinct (map g_name list)" and "name \<noteq> []"
  shows "resolve list name = pick (mset list) name"
proof (cases "find (\<lambda>x. g_name x = name) list")
  case (Some r)
  then have r: "r \<in> set list \<and> g_name r = name" using find_distinct_name [OF assms(1)] by blast
  have "r' = r" if "r' \<in> set list \<and> g_name r' = name" for r'
    using that Some find_distinct_name [OF assms(1), of name r'] by simp
  then have "(THE r. r \<in> set list \<and> g_name r = name) = r" using r by (intro the_equality) blast+
  then show ?thesis using Some r assms(2) by (auto simp: resolve_def pick_def)
next
  case None
  then have "\<nexists>r. r \<in> set list \<and> g_name r = name" by (auto simp: find_None_iff)
  then have none: "(\<exists>r. r \<in># mset list \<and> g_name r = name) = False" by simp
  have hits: "filter_mset (\<lambda>r. equal_fold (g_name r) name) (mset list)
      = mset (filter (\<lambda>r. equal_fold (g_name r) name) list)"
    by simp
  show ?thesis
    using None assms(2) unfolding pick_def none hits Let_def size_mset
    by (cases "filter (\<lambda>r. equal_fold (g_name r) name) list")
      (auto simp: resolve_def simp del: mset_filter set_filter split: list.splits)
qed

lemma valid_from_ok:
  "valid_from seen p = None \<longleftrightarrow>
     (seen \<longrightarrow> list_all (\<lambda>s. ps_undoable s \<longrightarrow> ps_irreversible s) p) \<and>
     (\<forall>a s b. p = a @ s # b \<longrightarrow> ps_irreversible s \<longrightarrow>
        list_all (\<lambda>s. ps_undoable s \<longrightarrow> ps_irreversible s) b)"
proof (induction p arbitrary: seen)
  case (Cons x p)
  then show ?case by (auto simp: Cons_eq_append_conv)
qed simp

section \<open>Properties\<close>

text \<open>Which distribution a name means does not depend on the order in which the registry
  lists the registrations, as long as no two carry exactly the same name; and what
  \<open>Resolve\<close> returns is one of them and matches the name without regard to case.\<close>

theorem resolve_order_independent:
  assumes "distinct (map g_name list)" and "mset list = mset list'" and "name \<noteq> []"
  shows "resolve list name = resolve list' name
    \<and> (\<forall>r. resolve list name = Inr r \<longrightarrow> r \<in> set list \<and> equal_fold (g_name r) name)"
proof
  have "distinct (map g_name list')"
    using assms(1,2) by (metis distinct_map mset_eq_imp_distinct_iff mset_eq_setD)
  then show "resolve list name = resolve list' name"
    using assms by (simp add: resolve_pick)
  show "\<forall>r. resolve list name = Inr r \<longrightarrow> r \<in> set list \<and> equal_fold (g_name r) name"
  proof (intro allI impI)
    fix r assume r: "resolve list name = Inr r"
    have "r \<in> set (filter (\<lambda>r. equal_fold (g_name r) name) list)"
    proof (cases "find (\<lambda>x. g_name x = name) list")
      case (Some r')
      then show ?thesis
        using r assms find_distinct_name [OF assms(1), of name r'] by (auto simp: resolve_def split: if_splits)
    next
      case None
      then show ?thesis
        using r assms(3) by (auto simp: resolve_def simp del: set_filter split: if_splits list.splits)
    qed
    then show "r \<in> set list \<and> equal_fold (g_name r) name" by simp
  qed
qed

text \<open>Two registrations that differ in case only, asked for by a third spelling.\<close>

definition sample_reg :: "string \<Rightarrow> registration" where
  "sample_reg name =
     \<lparr>g_guid = ''{1}'', g_name = name, g_is_default = False, g_version = 2, g_state = 1,
      g_base_path = bs ''C:|wsl'', g_vhd_file_name = [], g_flags = 15, g_default_uid = 1000,
      g_run_oobe = 0, g_modern = 1, g_flavor = [], g_os_version = [], g_shortcut_path = [],
      g_terminal_profile_path = [], g_package_family_name = []\<rparr>"

theorem resolve_order_independent_witness:
  "resolve [sample_reg ''Ubuntu'', sample_reg ''Debian''] ''ubuntu''
     = resolve [sample_reg ''Debian'', sample_reg ''Ubuntu''] ''ubuntu''"
  using resolve_order_independent [of "[sample_reg ''Ubuntu'', sample_reg ''Debian'']"
      "[sample_reg ''Debian'', sample_reg ''Ubuntu'']" "''ubuntu''"]
  by (simp add: sample_reg_def add_mset_commute)

end
