(* ===== verification/DiskEnv.thy ===== *)
theory DiskEnv
  imports DiskCore
begin

text \<open>
  \<open>internal/disk/ports.go\<close>: the interfaces between the disk commands and Windows. \<open>Env\<close> is a
  record of functions on a state of the machine, as in the code it is a struct of interfaces.
  A query reads the state and may fail; a command returns an error or nothing and the state
  afterwards. What the interfaces promise are the locales: one per interface, and \<open>ports\<close>
  for all of them. The commands are written against the record and proved against the locales.
\<close>

section \<open>The ports\<close>

type_synonym ('w, 'a) query = "'w \<Rightarrow> string + 'a"
type_synonym ('w, 'a) cmd = "'w \<Rightarrow> (string + 'a) \<times> 'w"

record dir_entry =
  de_path :: string
  de_is_dir :: bool

record volume =
  vol_root :: string
  vol_file_system :: string
  vol_total :: u64
  vol_free :: u64

definition supports_vhdx :: "volume \<Rightarrow> bool" where
  "supports_vhdx v = (vol_file_system v = ''NTFS'' \<or> vol_file_system v = ''ReFS'')"

record command_result =
  cr_stdout :: string
  cr_stderr :: string
  cr_exit_code :: int

record disk_facts =
  df_virtual_size :: u64
  df_physical_size :: u64
  df_block_size :: u32
  df_sector_size :: u32
  df_parent_path :: string

record 'w env =
  \<comment> \<open>Registry\<close>
  e_distros :: "('w, registration list) query"
  e_read_string :: "string \<Rightarrow> string \<Rightarrow> ('w, string option) query"
  e_write_string :: "string \<Rightarrow> string \<Rightarrow> string \<Rightarrow> ('w, unit) cmd"
  e_read_dword :: "string \<Rightarrow> string \<Rightarrow> ('w, u32 option) query"
  e_write_dword :: "string \<Rightarrow> string \<Rightarrow> u32 \<Rightarrow> ('w, unit) cmd"
  e_default :: "('w, string option) query"
  e_set_default :: "string \<Rightarrow> ('w, unit) cmd"
  \<comment> \<open>FileSystem\<close>
  e_exists :: "string \<Rightarrow> 'w \<Rightarrow> bool"
  e_file_size :: "string \<Rightarrow> ('w, u64) query"
  e_size_on_disk :: "string \<Rightarrow> ('w, u64) query"
  e_sparse :: "string \<Rightarrow> ('w, bool) query"
  e_allocated_bytes :: "string \<Rightarrow> ('w, u64) query"
  e_locked :: "string \<Rightarrow> ('w, bool) query"
  e_volume :: "string \<Rightarrow> ('w, volume) query"
  e_list :: "string \<Rightarrow> string \<Rightarrow> ('w, dir_entry list) query"
  e_expand_env :: "string \<Rightarrow> ('w, string) query"
  e_remove :: "string \<Rightarrow> ('w, unit) cmd"
  e_rename :: "string \<Rightarrow> string \<Rightarrow> ('w, unit) cmd"
  e_same_volume :: "string \<Rightarrow> string \<Rightarrow> ('w, bool) query"
  e_copy_sparse :: "string \<Rightarrow> string \<Rightarrow> ('w, unit) cmd"
  e_mkdir_all :: "string \<Rightarrow> ('w, unit) cmd"
  e_remove_dir :: "string \<Rightarrow> ('w, unit) cmd"
  e_read_file :: "string \<Rightarrow> ('w, bytes) query"
  e_write_file :: "string \<Rightarrow> bytes \<Rightarrow> ('w, unit) cmd"
  \<comment> \<open>Disks\<close>
  e_facts :: "string \<Rightarrow> ('w, disk_facts) query"
  e_compact :: "string \<Rightarrow> ('w, unit) cmd"
  \<comment> \<open>Host\<close>
  e_running :: "('w, string list) query"
  e_terminate :: "string \<Rightarrow> ('w, unit) cmd"
  e_shutdown :: "('w, unit) cmd"
  e_unregister :: "string \<Rightarrow> ('w, unit) cmd"
  e_import_in_place :: "string \<Rightarrow> string \<Rightarrow> ('w, unit) cmd"
  e_export :: "string \<Rightarrow> string \<Rightarrow> ('w, unit) cmd"
  e_import_tar :: "string \<Rightarrow> string \<Rightarrow> string \<Rightarrow> ('w, unit) cmd"
  e_run_as_root :: "string \<Rightarrow> string list \<Rightarrow> ('w, command_result) cmd"
  \<comment> \<open>Clock, in nanoseconds\<close>
  e_now :: "'w \<Rightarrow> int"
  e_sleep :: "int \<Rightarrow> 'w \<Rightarrow> 'w"

text \<open>A query whose error the code replaces by a value.\<close>

definition or_else :: "'a \<Rightarrow> string + 'a \<Rightarrow> 'a" where
  "or_else d r = (case r of Inl _ \<Rightarrow> d | Inr x \<Rightarrow> x)"

lemma or_else_simps [simp]: "or_else d (Inl e) = d" "or_else d (Inr x) = x"
  by (simp_all add: or_else_def)

section \<open>What they promise\<close>

text \<open>
  \<open>regs\<close> observes the string values of the registrations and \<open>files\<close> the files, by their
  canonical path. A disk's content is taken up to what the distribution on it writes when it
  runs: starting it changes no file here. A command that fails has changed nothing, except
  that a copy or a write may leave something at its own destination. An archive is identified with the disk it was made from: both are the
  distribution's files.
\<close>

locale registry_port =
  fixes E :: "'w env"
    and regs :: "'w \<Rightarrow> string \<times> string \<Rightarrow> string option"
  assumes read_string: "e_read_string E g n w = Inr x \<Longrightarrow> x = regs w (g, n)"
    and write_string: "e_write_string E g n v w = (Inr u, w') \<Longrightarrow> regs w' = (regs w)((g, n) \<mapsto> v)"
    and write_string_err: "e_write_string E g n v w = (Inl e, w') \<Longrightarrow> regs w' = regs w"

locale file_port =
  fixes E :: "'w env"
    and files :: "'w \<Rightarrow> string \<Rightarrow> bytes option"
  assumes exists_file: "files w (canonical_path p) \<noteq> None \<Longrightarrow> e_exists E p w"
    and rename: "e_rename E a b w = (Inr u, w') \<Longrightarrow>
       files w (canonical_path a) \<noteq> None
       \<and> (canonical_path a = canonical_path b \<or> files w (canonical_path b) = None)
       \<and> files w' = (files w)(canonical_path a := None, canonical_path b := files w (canonical_path a))"
    and rename_err: "e_rename E a b w = (Inl e, w') \<Longrightarrow> files w' = files w"
    and remove: "e_remove E p w = (Inr u, w') \<Longrightarrow> files w' = (files w)(canonical_path p := None)"
    and remove_err: "e_remove E p w = (Inl e, w') \<Longrightarrow> files w' = files w"
    and copy: "e_copy_sparse E a b w = (Inr u, w') \<Longrightarrow>
       files w (canonical_path a) \<noteq> None \<and> files w (canonical_path b) = None
       \<and> files w' = (files w)(canonical_path b := files w (canonical_path a))"
    and copy_err: "e_copy_sparse E a b w = (Inl e, w') \<Longrightarrow>
       p \<noteq> canonical_path b \<or> files w p \<noteq> None \<Longrightarrow> files w' p = files w p"
    and mkdir_all: "e_mkdir_all E p w = (r, w') \<Longrightarrow> files w' = files w"
    and remove_dir: "e_remove_dir E p w = (r, w') \<Longrightarrow> files w' = files w"
    and write_file: "e_write_file E p bytes w = (Inr u, w') \<Longrightarrow> files w' = (files w)(canonical_path p \<mapsto> bytes)"
    and write_file_err: "e_write_file E p bytes w = (Inl e, w') \<Longrightarrow>
       q \<noteq> canonical_path p \<Longrightarrow> files w' q = files w q"
    and list_dir: "e_list E d pat w = Inr es \<Longrightarrow> item \<in> set es \<Longrightarrow>
       dir_of (canonical_path (de_path item)) = canonical_path d"

locale clock_port =
  fixes E :: "'w env"
  assumes sleep_passes: "0 \<le> d \<Longrightarrow> e_now E w + d \<le> e_now E (e_sleep E d w)"

text \<open>The disk a registration points at, from its values.\<close>

definition registered_disk :: "(string \<times> string \<Rightarrow> string option) \<Rightarrow> string \<Rightarrow> string" where
  "registered_disk rg g =
     join_windows (trim_prefix (case rg (g, ''BasePath'') of Some b \<Rightarrow> b | None \<Rightarrow> []) extended_prefix)
       (case rg (g, ''VhdFileName'') of None \<Rightarrow> default_vhd_name
        | Some v \<Rightarrow> if v = [] then default_vhd_name else v)"

locale ports = registry_port E regs + file_port E files + clock_port E
  for E :: "'w env"
    and regs :: "'w \<Rightarrow> string \<times> string \<Rightarrow> string option"
    and files :: "'w \<Rightarrow> string \<Rightarrow> bytes option" +
  assumes write_string_files: "e_write_string E g n v w = (r, w') \<Longrightarrow> files w' = files w"
    and rename_regs: "e_rename E a b w = (r, w') \<Longrightarrow> regs w' = regs w"
    and remove_regs: "e_remove E p w = (r, w') \<Longrightarrow> regs w' = regs w"
    and copy_regs: "e_copy_sparse E a b w = (r, w') \<Longrightarrow> regs w' = regs w"
    and mkdir_all_regs: "e_mkdir_all E p w = (r, w') \<Longrightarrow> regs w' = regs w"
    and remove_dir_regs: "e_remove_dir E p w = (r, w') \<Longrightarrow> regs w' = regs w"
    and write_file_regs: "e_write_file E p bytes w = (r, w') \<Longrightarrow> regs w' = regs w"
    and terminate_keeps: "e_terminate E n w = (r, w') \<Longrightarrow> files w' = files w \<and> regs w' = regs w"
    and shutdown_keeps: "e_shutdown E w = (r, w') \<Longrightarrow> files w' = files w \<and> regs w' = regs w"
    and start_keeps: "e_run_as_root E n c w = (r', w') \<Longrightarrow> files w' = files w \<and> regs w' = regs w"
    and sleep_keeps: "files (e_sleep E d w) = files w \<and> regs (e_sleep E d w) = regs w"
    and unregister_err: "e_unregister E n w = (Inl e, w') \<Longrightarrow> files w' = files w \<and> regs w' = regs w"
    and unregister_files: "e_unregister E n w = (Inr u, w') \<Longrightarrow>
       files w' p = files w p \<or>
       (\<exists>g m. regs w (g, ''DistributionName'') = Some m \<and> equal_fold m n
          \<and> p = canonical_path (registered_disk (regs w) g))"
    and export: "e_export E n p w = (Inr u, w') \<Longrightarrow> regs w' = regs w \<and>
       (\<exists>g m b. regs w (g, ''DistributionName'') = Some m \<and> equal_fold m n
          \<and> files w (canonical_path (registered_disk (regs w) g)) = Some b
          \<and> files w' = (files w)(canonical_path p \<mapsto> b))"
    and export_err: "e_export E n p w = (Inl e, w') \<Longrightarrow>
       regs w' = regs w \<and> (q \<noteq> canonical_path p \<longrightarrow> files w' q = files w q)"
    and import_tar: "e_import_tar E n dir p w = (r, w') \<Longrightarrow>
       q \<noteq> canonical_path (join_windows dir default_vhd_name) \<Longrightarrow> files w' q = files w q"
    and import_tar_ok: "e_import_tar E n dir p w = (Inr u, w') \<Longrightarrow>
       files w' (canonical_path (join_windows dir default_vhd_name)) = files w (canonical_path p)"
    and set_default_keeps: "e_set_default E g w = (r, w') \<Longrightarrow> files w' = files w \<and> regs w' = regs w"
    and write_dword_keeps: "e_write_dword E g n dw w = (r, w') \<Longrightarrow> files w' = files w \<and> regs w' = regs w"

end
