(* ===== verification/DiskMachine.thy ===== *)
theory DiskMachine
  imports DiskEnv
begin

text \<open>
  A machine in memory that the ports can run on: files by canonical path, the registry's
  values, what is running, a clock, and a schedule of faults that decides for each command in
  turn whether it fails. It is the counterpart of the fakes the tests run the commands against,
  and it is what the properties of the disk commands quantify over: every initial machine and
  every schedule of faults.
\<close>

record machine =
  m_files :: "string \<Rightarrow> bytes option"
  m_paths :: "string list"    \<comment> \<open>where files have been, for listing\<close>
  m_dirs :: "string list"
  m_strings :: "string \<times> string \<Rightarrow> string option"
  m_dwords :: "string \<times> string \<Rightarrow> u32 option"
  m_guids :: "string list"
  m_default :: "string option"
  m_running :: "string list"
  m_clock :: int
  m_held_until :: int         \<comment> \<open>when the utility VM lets go of the disks\<close>
  m_boots :: bool             \<comment> \<open>whether a distribution starts\<close>
  m_faults :: "bool list"     \<comment> \<open>\<open>True\<close>: the next command fails\<close>

section \<open>Commands\<close>

text \<open>A command consumes one entry of the schedule; an exhausted schedule has no more faults.\<close>

definition attempt :: "(machine \<Rightarrow> (string + 'a) \<times> machine) \<Rightarrow> machine \<Rightarrow> (string + 'a) \<times> machine" where
  "attempt f w =
     (case m_faults w of
        True # fs \<Rightarrow> (Inl ''fault'', w\<lparr>m_faults := fs\<rparr>)
      | False # fs \<Rightarrow> f (w\<lparr>m_faults := fs\<rparr>)
      | [] \<Rightarrow> f w)"

definition m_write_string :: "string \<Rightarrow> string \<Rightarrow> string \<Rightarrow> machine \<Rightarrow> (string + unit) \<times> machine" where
  "m_write_string g n v = attempt (\<lambda>w. (Inr (), w\<lparr>m_strings := (m_strings w)((g, n) \<mapsto> v)\<rparr>))"

definition m_write_dword :: "string \<Rightarrow> string \<Rightarrow> u32 \<Rightarrow> machine \<Rightarrow> (string + unit) \<times> machine" where
  "m_write_dword g n v = attempt (\<lambda>w. (Inr (), w\<lparr>m_dwords := (m_dwords w)((g, n) \<mapsto> v)\<rparr>))"

definition m_set_default :: "string \<Rightarrow> machine \<Rightarrow> (string + unit) \<times> machine" where
  "m_set_default g = attempt (\<lambda>w. (Inr (), w\<lparr>m_default := Some g\<rparr>))"

definition m_rename :: "string \<Rightarrow> string \<Rightarrow> machine \<Rightarrow> (string + unit) \<times> machine" where
  "m_rename a b = attempt (\<lambda>w.
     (let ca = canonical_path a; cb = canonical_path b
      in if m_files w ca = None then (Inl ''not found'', w)
         else if ca \<noteq> cb \<and> m_files w cb \<noteq> None then (Inl ''exists'', w)
         else (Inr (), w\<lparr>m_files := (m_files w)(ca := None, cb := m_files w ca), m_paths := cb # m_paths w\<rparr>)))"

definition m_remove :: "string \<Rightarrow> machine \<Rightarrow> (string + unit) \<times> machine" where
  "m_remove p = attempt (\<lambda>w.
     (if m_files w (canonical_path p) = None then (Inl ''not found'', w)
      else (Inr (), w\<lparr>m_files := (m_files w)(canonical_path p := None)\<rparr>)))"

definition m_copy :: "string \<Rightarrow> string \<Rightarrow> machine \<Rightarrow> (string + unit) \<times> machine" where
  "m_copy a b = attempt (\<lambda>w.
     (let ca = canonical_path a; cb = canonical_path b
      in if m_files w ca = None then (Inl ''not found'', w)
         else if m_files w cb \<noteq> None then (Inl ''exists'', w)
         else (Inr (), w\<lparr>m_files := (m_files w)(cb := m_files w ca), m_paths := cb # m_paths w\<rparr>)))"

definition m_mkdir_all :: "string \<Rightarrow> machine \<Rightarrow> (string + unit) \<times> machine" where
  "m_mkdir_all p = attempt (\<lambda>w. (Inr (), w\<lparr>m_dirs := canonical_path p # m_dirs w\<rparr>))"

definition m_remove_dir :: "string \<Rightarrow> machine \<Rightarrow> (string + unit) \<times> machine" where
  "m_remove_dir p = attempt (\<lambda>w. (Inr (), w\<lparr>m_dirs := removeAll (canonical_path p) (m_dirs w)\<rparr>))"

definition m_write_file :: "string \<Rightarrow> bytes \<Rightarrow> machine \<Rightarrow> (string + unit) \<times> machine" where
  "m_write_file p b = attempt (\<lambda>w. (Inr (), w\<lparr>m_files := (m_files w)(canonical_path p \<mapsto> b),
     m_paths := canonical_path p # m_paths w\<rparr>))"

text \<open>Stopping a distribution leaves its disk held for a while; a start that fails attaches it too.\<close>

definition hold_time :: int where "hold_time = 66 * 10 ^ 9"

definition m_terminate :: "string \<Rightarrow> machine \<Rightarrow> (string + unit) \<times> machine" where
  "m_terminate n = attempt (\<lambda>w. (Inr (), w\<lparr>m_running := filter (\<lambda>x. \<not> equal_fold x n) (m_running w),
     m_held_until := m_clock w + hold_time\<rparr>))"

definition m_shutdown :: "machine \<Rightarrow> (string + unit) \<times> machine" where
  "m_shutdown = attempt (\<lambda>w. (Inr (), w\<lparr>m_running := [], m_held_until := m_clock w\<rparr>))"

definition m_run_as_root :: "string \<Rightarrow> string list \<Rightarrow> machine \<Rightarrow> (string + command_result) \<times> machine" where
  "m_run_as_root n c = attempt (\<lambda>w.
     (if m_boots w
      then (Inr \<lparr>cr_stdout = [], cr_stderr = [], cr_exit_code = 0\<rparr>, w\<lparr>m_running := n # m_running w\<rparr>)
      else (Inr \<lparr>cr_stdout = [], cr_stderr = ''no boot'', cr_exit_code = 1\<rparr>, w\<lparr>m_held_until := m_clock w + hold_time\<rparr>)))"

text \<open>Unregistering deletes the registered disk, if it is there, and the registration.\<close>

definition guid_named :: "machine \<Rightarrow> string \<Rightarrow> string option" where
  "guid_named w n = find (\<lambda>g. case m_strings w (g, ''DistributionName'') of
     Some m \<Rightarrow> equal_fold m n | None \<Rightarrow> False) (m_guids w)"

definition m_unregister :: "string \<Rightarrow> machine \<Rightarrow> (string + unit) \<times> machine" where
  "m_unregister n = attempt (\<lambda>w.
     (case guid_named w n of
        None \<Rightarrow> (Inl ''not registered'', w)
      | Some g \<Rightarrow> (Inr (),
          w\<lparr>m_files := (m_files w)(canonical_path (registered_disk (m_strings w) g) := None),
            m_strings := (\<lambda>k. if fst k = g then None else m_strings w k),
            m_guids := removeAll g (m_guids w)\<rparr>)))"

definition m_import_in_place :: "string \<Rightarrow> string \<Rightarrow> machine \<Rightarrow> (string + unit) \<times> machine" where
  "m_import_in_place n p = attempt (\<lambda>w.
     (let g = ''{imported-'' @ n @ ''}''
      in (Inr (), w\<lparr>m_guids := g # m_guids w,
            m_strings := (m_strings w)((g, ''DistributionName'') \<mapsto> n,
              (g, ''BasePath'') \<mapsto> dir_of p, (g, ''VhdFileName'') \<mapsto> base_of p)\<rparr>)))"

definition m_export :: "string \<Rightarrow> string \<Rightarrow> machine \<Rightarrow> (string + unit) \<times> machine" where
  "m_export n p = attempt (\<lambda>w.
     (case guid_named w n of
        None \<Rightarrow> (Inl ''not registered'', w)
      | Some g \<Rightarrow>
          (case m_files w (canonical_path (registered_disk (m_strings w) g)) of
             None \<Rightarrow> (Inl ''no disk'', w)
           | Some b \<Rightarrow> (Inr (), w\<lparr>m_files := (m_files w)(canonical_path p \<mapsto> b),
                m_paths := canonical_path p # m_paths w\<rparr>))))"

definition m_import_tar :: "string \<Rightarrow> string \<Rightarrow> string \<Rightarrow> machine \<Rightarrow> (string + unit) \<times> machine" where
  "m_import_tar n d p = attempt (\<lambda>w.
     (let g = ''{imported-'' @ n @ ''}''; disk = canonical_path (join_windows d default_vhd_name)
      in case m_files w (canonical_path p) of
           None \<Rightarrow> (Inl ''no archive'', w)
         | Some b \<Rightarrow>
             if m_files w disk \<noteq> None then (Inl ''exists'', w)
             else (Inr (), w\<lparr>m_files := (m_files w)(disk \<mapsto> b), m_paths := disk # m_paths w,
                m_guids := g # m_guids w,
                m_strings := (m_strings w)((g, ''DistributionName'') \<mapsto> n, (g, ''BasePath'') \<mapsto> d)\<rparr>)))"

section \<open>Queries\<close>

definition drive_of :: "string \<Rightarrow> string" where
  "drive_of p = take 2 (canonical_path p)"

definition m_list :: "string \<Rightarrow> string \<Rightarrow> machine \<Rightarrow> string + dir_entry list" where
  "m_list d pat w = Inr
     (map (\<lambda>x. \<lparr>de_path = x, de_is_dir = False\<rparr>)
        (filter (\<lambda>x. m_files w x \<noteq> None \<and> dir_of (canonical_path x) = canonical_path d
                   \<and> (pat = ''*.vhdx'' \<longrightarrow> has_suffix x ''.vhdx'')) (remdups (m_paths w)))
      @ map (\<lambda>x. \<lparr>de_path = x, de_is_dir = True\<rparr>)
          (filter (\<lambda>x. pat = ''*'' \<and> dir_of (canonical_path x) = canonical_path d)
             (remdups (m_dirs w))))"

definition registration_at :: "machine \<Rightarrow> string \<Rightarrow> registration" where
  "registration_at w g =
     (let s = (\<lambda>n. case m_strings w (g, n) of Some v \<Rightarrow> v | None \<Rightarrow> []);
          d = (\<lambda>n. case m_dwords w (g, n) of Some v \<Rightarrow> int (unat v) | None \<Rightarrow> 0)
      in \<lparr>g_guid = g, g_name = s ''DistributionName'', g_is_default = (m_default w = Some g),
          g_version = d ''Version'', g_state = d ''State'', g_base_path = s ''BasePath'',
          g_vhd_file_name = s ''VhdFileName'', g_flags = d ''Flags'', g_default_uid = d ''DefaultUid'',
          g_run_oobe = d ''RunOOBE'', g_modern = d ''Modern'', g_flavor = s ''Flavor'',
          g_os_version = s ''OsVersion'', g_shortcut_path = s ''ShortcutPath'',
          g_terminal_profile_path = s ''TerminalProfilePath'',
          g_package_family_name = s ''PackageFamilyName''\<rparr>)"

definition machine_env :: "machine env" where
  "machine_env =
     \<lparr>e_distros = (\<lambda>w. Inr (map (registration_at w) (m_guids w))),
      e_read_string = (\<lambda>g n w. Inr (m_strings w (g, n))),
      e_write_string = m_write_string,
      e_read_dword = (\<lambda>g n w. Inr (m_dwords w (g, n))),
      e_write_dword = m_write_dword,
      e_default = (\<lambda>w. Inr (m_default w)),
      e_set_default = m_set_default,
      e_exists = (\<lambda>p w. m_files w (canonical_path p) \<noteq> None \<or> canonical_path p \<in> set (m_dirs w)),
      e_file_size = (\<lambda>p w. case m_files w (canonical_path p) of
         Some b \<Rightarrow> Inr (of_nat (length b)) | None \<Rightarrow> Inl ''not found''),
      e_size_on_disk = (\<lambda>p w. case m_files w (canonical_path p) of
         Some b \<Rightarrow> Inr (of_nat (length b)) | None \<Rightarrow> Inl ''not found''),
      e_sparse = (\<lambda>p w. Inr False),
      e_allocated_bytes = (\<lambda>p w. case m_files w (canonical_path p) of
         Some b \<Rightarrow> Inr (of_nat (length b)) | None \<Rightarrow> Inl ''not found''),
      e_locked = (\<lambda>p w. Inr (m_clock w < m_held_until w \<or> m_running w \<noteq> [])),
      e_volume = (\<lambda>p w. Inr \<lparr>vol_root = drive_of p, vol_file_system = ''NTFS'',
         vol_total = 2 ^ 40, vol_free = 2 ^ 40\<rparr>),
      e_list = m_list,
      e_expand_env = (\<lambda>s w. Inr s),
      e_remove = m_remove,
      e_rename = m_rename,
      e_same_volume = (\<lambda>a b w. Inr (drive_of a = drive_of b)),
      e_copy_sparse = m_copy,
      e_mkdir_all = m_mkdir_all,
      e_remove_dir = m_remove_dir,
      e_read_file = (\<lambda>p w. case m_files w (canonical_path p) of
         Some b \<Rightarrow> Inr b | None \<Rightarrow> Inl ''not found''),
      e_write_file = m_write_file,
      e_facts = (\<lambda>p w. if m_running w \<noteq> [] then Inl ''held open''
         else Inr \<lparr>df_virtual_size = 2 ^ 40, df_physical_size = 2 ^ 40, df_block_size = 2 ^ 20,
           df_sector_size = 512, df_parent_path = []\<rparr>),
      e_compact = (\<lambda>p. attempt (\<lambda>w. (Inr (), w))),
      e_running = (\<lambda>w. Inr (m_running w)),
      e_terminate = m_terminate,
      e_shutdown = m_shutdown,
      e_unregister = m_unregister,
      e_import_in_place = m_import_in_place,
      e_export = m_export,
      e_import_tar = m_import_tar,
      e_run_as_root = m_run_as_root,
      e_now = m_clock,
      e_sleep = (\<lambda>d w. w\<lparr>m_clock := m_clock w + d\<rparr>)\<rparr>"

lemma machine_env_fields [port_defs]:
  "e_distros machine_env = (\<lambda>w. Inr (map (registration_at w) (m_guids w)))"
  "e_read_string machine_env g n w = Inr (m_strings w (g, n))"
  "e_write_string machine_env = m_write_string"
  "e_read_dword machine_env g n w = Inr (m_dwords w (g, n))"
  "e_write_dword machine_env = m_write_dword"
  "e_default machine_env w = Inr (m_default w)"
  "e_set_default machine_env = m_set_default"
  "e_exists machine_env p w \<longleftrightarrow> m_files w (canonical_path p) \<noteq> None \<or> canonical_path p \<in> set (m_dirs w)"
  "e_locked machine_env p w = Inr (m_clock w < m_held_until w \<or> m_running w \<noteq> [])"
  "e_remove machine_env = m_remove" "e_rename machine_env = m_rename"
  "e_same_volume machine_env a b w = Inr (drive_of a = drive_of b)"
  "e_copy_sparse machine_env = m_copy" "e_mkdir_all machine_env = m_mkdir_all"
  "e_remove_dir machine_env = m_remove_dir" "e_write_file machine_env = m_write_file"
  "e_list machine_env = m_list" "e_running machine_env w = Inr (m_running w)"
  "e_terminate machine_env = m_terminate" "e_shutdown machine_env = m_shutdown"
  "e_unregister machine_env = m_unregister" "e_run_as_root machine_env = m_run_as_root"
  "e_now machine_env w = m_clock w" "e_sleep machine_env d w = w\<lparr>m_clock := m_clock w + d\<rparr>"
  "e_import_in_place machine_env = m_import_in_place"
  "e_export machine_env = m_export" "e_import_tar machine_env = m_import_tar"
  "e_compact machine_env p = attempt (\<lambda>w. (Inr (), w))"
  by (simp_all add: machine_env_def)

lemma attempt_cases:
  assumes "attempt f w = (r, w')"
  obtains (fault) fs e where "m_faults w = True # fs" "r = Inl ''fault''" "w' = w\<lparr>m_faults := fs\<rparr>"
    | (run) fs where "f (w\<lparr>m_faults := fs\<rparr>) = (r, w')"
proof (cases "m_faults w")
  case Nil
  then have same: "w\<lparr>m_faults := []\<rparr> = w" by (cases w) simp
  have "f w = (r, w')" using assms Nil by (simp add: attempt_def)
  then have "f (w\<lparr>m_faults := []\<rparr>) = (r, w')" unfolding same .
  then show ?thesis by (rule run)
next
  case (Cons b fs)
  with assms show ?thesis by (cases b) (auto simp: attempt_def intro: fault run)
qed

section \<open>It keeps the promises\<close>

interpretation machine: ports machine_env m_strings m_files
proof unfold_locales
qed (auto simp: machine_env_fields m_write_string_def m_rename_def m_remove_def m_copy_def
    m_mkdir_all_def m_remove_dir_def m_write_file_def m_terminate_def m_shutdown_def
    m_run_as_root_def m_unregister_def m_export_def m_import_tar_def m_set_default_def
    m_write_dword_def guid_named_def find_Some_iff m_list_def Let_def elim!: attempt_cases
    split: if_splits option.splits; blast)+

end
