(* ===== verification/DiskRelink.thy ===== *)
theory DiskRelink
  imports DiskMachine
begin

text \<open>
  \<open>internal/disk/relink.go\<close> and \<open>rename.go\<close>, with \<open>start\<close> of \<open>compact.go\<close>: the undo stack, pointing
  a registration at another disk, and renaming a distribution. A rollback is a closure in the
  code; here it is the operation the closure performs.
\<close>

section \<open>The undo stack\<close>

datatype undo =
    is_UWriteString: UWriteString string string string   \<comment> \<open>guid, value name, the previous value\<close>
  | URename string string
  | URemove string
  | URemoveUnlessHeld string             \<comment> \<open>refuses while the disk is still held\<close>

text \<open>The entries, newest first. \<open>held\<close> is the variable one of \<open>Move\<close>'s closures captures.\<close>

fun run_undo :: "'w env \<Rightarrow> bool \<Rightarrow> undo \<Rightarrow> ('w, unit) cmd" where
  "run_undo E held (UWriteString g n v) w = e_write_string E g n v w"
| "run_undo E held (URename a b) w = e_rename E a b w"
| "run_undo E held (URemove p) w = e_remove E p w"
| "run_undo E held (URemoveUnlessHeld p) w = (if held then (Inl ''held'', w) else e_remove E p w)"

fun unwind :: "'w env \<Rightarrow> bool \<Rightarrow> undo list \<Rightarrow> 'w \<Rightarrow> string list \<times> 'w" where
  "unwind E held [] w = ([], w)"
| "unwind E held (u # us) w =
     (case run_undo E held u w of
        (r, w1) \<Rightarrow>
          (case unwind E held us w1 of
             (es, w2) \<Rightarrow> ((case r of Inl e \<Rightarrow> e # es | Inr _ \<Rightarrow> es), w2)))"

text \<open>The error a failed command returns after unwinding: joined when the rollback failed too.\<close>

definition failed_with :: "disk_error \<Rightarrow> string list \<Rightarrow> disk_error" where
  "failed_with err es = (if es = [] then err else Joined err)"

section \<open>Starting a distribution\<close>

definition one_line :: "string \<Rightarrow> string" where
  "one_line s = trim_space (join_with '' '' (GoStd.fields s))"

definition start :: "'w env \<Rightarrow> string \<Rightarrow> 'w \<Rightarrow> (disk_error + unit) \<times> 'w" where
  "start E name w =
     (case e_run_as_root E name [''/bin/sh'', ''-c'', '':''] w of
        (Inl e, w') \<Rightarrow> (Inl (PortFailed e), w')
      | (Inr out, w') \<Rightarrow>
          if cr_exit_code out \<noteq> 0 then (Inl (PortFailed (one_line (cr_stderr out))), w') else (Inr (), w'))"

section \<open>Relink\<close>

definition plan_relink ::
  "'w env \<Rightarrow> registration \<Rightarrow> string \<Rightarrow> bool \<Rightarrow> bool \<Rightarrow> 'w \<Rightarrow> disk_error + plan"
where
  "plan_relink E r target running running_known w =
     (if g_version r \<noteq> 2 then Inl ErrNotWSL2
      else if \<not> e_exists E target w then Inl ErrRefused
      else if same_path (vhd_path r) target then Inl ErrRefused
      else if \<not> running_known then Inl ErrRefused
      else if running then Inl ErrRunning
      else Inr [undoable_step (PointAt target), plain_step StartToCheck])"

definition repoint ::
  "'w env \<Rightarrow> registration \<Rightarrow> string \<Rightarrow> string \<Rightarrow> undo list \<Rightarrow> 'w
     \<Rightarrow> disk_error option \<times> undo list \<times> 'w"
where
  "repoint E r target base us w =
     (case e_read_string E (g_guid r) ''BasePath'' w of
        Inl e \<Rightarrow> (Some (PortFailed e), us, w)
      | Inr prev_base \<Rightarrow>
     (case e_read_string E (g_guid r) ''VhdFileName'' w of
        Inl e \<Rightarrow> (Some (PortFailed e), us, w)
      | Inr prev_name \<Rightarrow>
     (case e_write_string E (g_guid r) ''BasePath'' base w of
        (Inl e, w1) \<Rightarrow> (Some (PortFailed e), us, w1)
      | (Inr _, w1) \<Rightarrow>
          (let us1 = UWriteString (g_guid r) ''BasePath'' (case prev_base of Some b \<Rightarrow> b | None \<Rightarrow> []) # us
           in case prev_name of
                Some pn \<Rightarrow>
                  (case e_write_string E (g_guid r) ''VhdFileName'' (base_of target) w1 of
                     (Inl e, w2) \<Rightarrow> (Some (PortFailed e), us1, w2)
                   | (Inr _, w2) \<Rightarrow> (None, UWriteString (g_guid r) ''VhdFileName'' pn # us1, w2))
              | None \<Rightarrow>
                  if \<not> same_path (base_of target) default_vhd_name
                  then (Some NoDefaultName, us1, w1) else (None, us1, w1)))))"

definition relink ::
  "'w env \<Rightarrow> registration \<Rightarrow> string \<Rightarrow> 'w \<Rightarrow> (disk_error + string) \<times> 'w"
where
  "relink E r target w =
     (let base = with_same_prefix_as (g_base_path r) (dir_of target)
      in case repoint E r target base [] w of
           (Some err, us, w1) \<Rightarrow>
             (case unwind E False us w1 of (es, w2) \<Rightarrow> (Inl (failed_with err es), w2))
         | (None, us, w1) \<Rightarrow>
             (case start E (g_name r) w1 of
                (Inl e, w2) \<Rightarrow>
                  (case unwind E False us w2 of (es, w3) \<Rightarrow> (Inl (failed_with ErrSmokeTest es), w3))
              | (Inr _, w2) \<Rightarrow>
                  (case e_read_string E (g_guid r) ''BasePath'' w2 of
                     Inr got \<Rightarrow>
                       if (case got of Some b \<Rightarrow> b | None \<Rightarrow> []) \<noteq> base
                       then (Inl WrongReadBack, w2) else (Inr base, w2)
                   | Inl e \<Rightarrow> (Inr base, w2))))"

section \<open>Rename\<close>

definition valid_name_char :: "char \<Rightarrow> bool" where
  "valid_name_char c \<longleftrightarrow> is_upper c \<or> (97 \<le> (of_char c :: nat) \<and> (of_char c :: nat) \<le> 122)
     \<or> is_digit c \<or> c = CHR ''.'' \<or> c = CHR ''_'' \<or> c = CHR ''-''"

definition valid_name :: "string \<Rightarrow> bool" where
  "valid_name s \<longleftrightarrow> s \<noteq> [] \<and> list_all valid_name_char s"

definition plan_rename ::
  "registration \<Rightarrow> string \<Rightarrow> registration list \<Rightarrow> bool \<Rightarrow> bool \<Rightarrow> disk_error + plan"
where
  "plan_rename r new0 list running running_known =
     (let new = trim_space new0
      in if new = [] then Inl ErrRefused
         else if \<not> valid_name new then Inl ErrRefused
         else if new = g_name r then Inl ErrRefused
         else if list_ex (\<lambda>x. g_guid x \<noteq> g_guid r \<and> equal_fold (g_name x) new) list then Inl ErrRefused
         else if \<not> running_known then Inl ErrRefused
         else if running then Inl ErrRunning
         else Inr [undoable_step (RenameTo new), plain_step StartToCheck])"

definition rename_distro ::
  "'w env \<Rightarrow> registration \<Rightarrow> string \<Rightarrow> 'w \<Rightarrow> (disk_error + string) \<times> 'w"
where
  "rename_distro E r new0 w =
     (let new = trim_space new0
      in case e_write_string E (g_guid r) ''DistributionName'' new w of
           (Inl e, w1) \<Rightarrow> (Inl (PortFailed e), w1)
         | (Inr _, w1) \<Rightarrow>
             (case start E new w1 of
                (Inl e, w2) \<Rightarrow>
                  (case e_write_string E (g_guid r) ''DistributionName'' (g_name r) w2 of
                     (Inl e', w3) \<Rightarrow> (Inl (Joined ErrSmokeTest), w3)
                   | (Inr _, w3) \<Rightarrow> (Inl ErrSmokeTest, w3))
              | (Inr _, w2) \<Rightarrow> (Inr new, w2)))"

section \<open>What holds for any ports that keep their promises\<close>

text \<open>What an undo entry does when it succeeds, and that it does nothing else.\<close>

definition restores ::
  "'w env \<Rightarrow> ('w \<Rightarrow> string \<times> string \<Rightarrow> string option) \<Rightarrow> undo list \<Rightarrow> 'w \<Rightarrow> 'w \<Rightarrow> bool"
where
  "restores E rg us w1 w \<longleftrightarrow>
     (\<forall>w2 w3 held. rg w2 = rg w1 \<longrightarrow> unwind E held us w2 = ([], w3) \<longrightarrow> rg w3 = rg w)"

lemma restoresD:
  "restores E rg us w1 w \<Longrightarrow> rg w2 = rg w1 \<Longrightarrow> unwind E held us w2 = ([], w3) \<Longrightarrow> rg w3 = rg w"
  unfolding restores_def by blast

context ports
begin

lemma start_unchanged: "start E n w = (r, w') \<Longrightarrow> files w' = files w \<and> regs w' = regs w"
  by (auto simp: start_def split: prod.splits sum.splits if_splits dest: start_keeps)

lemma write_string_all:
  "e_write_string E g n v w = (r, w') \<Longrightarrow> files w' = files w \<and>
     (case r of Inl _ \<Rightarrow> regs w' = regs w | Inr _ \<Rightarrow> regs w' = (regs w)((g, n) \<mapsto> v))"
  by (auto split: sum.splits dest: write_string write_string_err write_string_files)

text \<open>After \<open>repoint\<close>, whatever happened, the entries it pushed restore the registry when all
  of them run.\<close>

lemma repoint_unwind:
  assumes "repoint E r target base us w = (e, us', w1)"
    and "regs w (g_guid r, ''BasePath'') \<noteq> None"
  shows "files w1 = files w \<and>
    (\<exists>ws. us' = ws @ us \<and> list_all is_UWriteString ws \<and> restores E regs ws w1 w)"
proof -
  obtain pb where pb: "regs w (g_guid r, ''BasePath'') = Some pb" using assms(2) by auto
  let ?g = "g_guid r"
  have neq: "(''BasePath'' :: string) \<noteq> ''VhdFileName''" by simp
  have bp: "e_read_string E ?g ''BasePath'' w = Inr x \<Longrightarrow> x = Some pb" for x
    using read_string pb by simp
  have vn: "e_read_string E ?g ''VhdFileName'' w = Inr x \<Longrightarrow> x = regs w (?g, ''VhdFileName'')" for x
    using read_string by simp
  show ?thesis
    using assms(1) bp vn pb
    unfolding repoint_def restores_def
    by (auto split: sum.splits option.splits prod.splits if_splits simp: Let_def
        dest!: write_string_all intro!: ext)
qed

end

text \<open>Every outcome of \<open>Relink\<close>: no file is touched, success leaves exactly the intended values,
  and a failure whose rollback completed leaves the registry as it was.\<close>

definition rolled_back :: "disk_error \<Rightarrow> bool" where
  "rolled_back e \<longleftrightarrow> (\<forall>x. e \<noteq> Joined x) \<and> e \<noteq> WrongReadBack"

lemma rolled_back_failed_with: "rolled_back (failed_with e es) \<Longrightarrow> es = []"
  by (auto simp: rolled_back_def failed_with_def split: if_splits)

context ports
begin

lemma repoint_done:
  assumes "repoint E r target base us w = (None, us', w1)"
  shows "files w1 = files w \<and> regs w1 =
     (let m = (regs w)((g_guid r, ''BasePath'') \<mapsto> base)
      in if regs w (g_guid r, ''VhdFileName'') = None then m
         else m((g_guid r, ''VhdFileName'') \<mapsto> base_of target))"
proof -
  have "e_read_string E (g_guid r) ''VhdFileName'' w = Inr x \<Longrightarrow> x = regs w (g_guid r, ''VhdFileName'')" for x
    using read_string by simp
  with assms show ?thesis unfolding repoint_def
    by (auto split: sum.splits option.splits prod.splits if_splits simp: Let_def
        dest!: write_string_all intro!: ext)
qed

text \<open>Registry writes are the only rollbacks of a repointing, and they touch no file.\<close>

lemma unwind_writes:
  "unwind E held us w = (es, w') \<Longrightarrow> list_all is_UWriteString us \<Longrightarrow> files w' = files w"
proof (induction us arbitrary: w es w')
  case (Cons u us)
  then obtain g n v where u: "u = UWriteString g n v" by (cases u) auto
  obtain r w1 where 1: "e_write_string E g n v w = (r, w1)" by fastforce
  obtain es' w2 where 2: "unwind E held us w1 = (es', w2)" by fastforce
  have "w' = w2" using Cons.prems(1) u 1 2 by simp
  then show ?case using Cons.IH [OF 2] Cons.prems(2) write_string_all [OF 1] by simp
qed simp

lemma repoint_cases:
  assumes "repoint E r target base us w = (e, us', w1)"
    and "regs w (g_guid r, ''BasePath'') \<noteq> None"
  obtains ws where "files w1 = files w" and "us' = ws @ us" and "list_all is_UWriteString ws"
    and "restores E regs ws w1 w"
  using repoint_unwind [OF assms] by blast

lemma relink_outcome:
  assumes "relink E r target w = (res, w')" and "regs w (g_guid r, ''BasePath'') \<noteq> None"
  shows "files w' = files w
    \<and> (case res of
         Inr b \<Rightarrow> b = with_same_prefix_as (g_base_path r) (dir_of target) \<and>
           regs w' = (let m = (regs w)((g_guid r, ''BasePath'') \<mapsto> b)
             in if regs w (g_guid r, ''VhdFileName'') = None then m
                else m((g_guid r, ''VhdFileName'') \<mapsto> base_of target))
       | Inl e \<Rightarrow> rolled_back e \<longrightarrow> regs w' = regs w)"
proof -
  let ?b = "with_same_prefix_as (g_base_path r) (dir_of target)"
  obtain e us w1 where rp: "repoint E r target ?b [] w = (e, us, w1)" by (metis prod_cases3)
  obtain ws where f1: "files w1 = files w" and us: "us = ws" and writes: "list_all is_UWriteString us"
    and undone: "restores E regs ws w1 w"
    by (rule repoint_cases [OF rp assms(2)]) simp
  show ?thesis
  proof (cases e)
    case (Some err)
    obtain es w2 where u: "unwind E False us w1 = (es, w2)" by fastforce
    have "res = Inl (failed_with err es)" "w' = w2"
      using assms(1) rp Some u by (simp_all add: relink_def Let_def)
    then show ?thesis
      using f1 us unwind_writes [OF u writes] restoresD [OF undone, of w1 False w2] u
      by (auto dest: rolled_back_failed_with)
  next
    case None
    note rpd = repoint_done [OF rp [unfolded None]]
    obtain sr w2 where st: "start E (g_name r) w1 = (sr, w2)" by fastforce
    note sk = start_unchanged [OF st]
    show ?thesis
    proof (cases sr)
      case (Inl err)
      obtain es w3 where u: "unwind E False us w2 = (es, w3)" by fastforce
      have "res = Inl (failed_with ErrSmokeTest es)" "w' = w3"
        using assms(1) rp None st Inl u by (simp_all add: relink_def Let_def)
      then show ?thesis
        using f1 us sk unwind_writes [OF u writes] restoresD [OF undone, of w2 False w3] u
        by (auto dest: rolled_back_failed_with)
    next
      case (Inr x)
      have "w' = w2" and "res = Inr ?b \<or> res = Inl WrongReadBack"
        using assms(1) rp None st Inr by (auto simp: relink_def Let_def split: sum.splits if_splits)
      then show ?thesis using rpd sk by (auto simp: rolled_back_def)
    qed
  qed
qed

lemma rename_outcome:
  assumes "rename_distro E r new w = (res, w')"
    and "regs w (g_guid r, ''DistributionName'') = Some (g_name r)"
  shows "files w' = files w
    \<and> (case res of
         Inr n \<Rightarrow> n = trim_space new \<and> regs w' = (regs w)((g_guid r, ''DistributionName'') \<mapsto> n)
       | Inl e \<Rightarrow> rolled_back e \<longrightarrow> regs w' = regs w)"
  using assms unfolding rename_distro_def
  by (auto split: sum.splits prod.splits simp: Let_def rolled_back_def fun_upd_idem
      dest!: write_string_all start_unchanged)

end

section \<open>Properties\<close>

text \<open>C7: On every machine and under every schedule of faults, \<open>Relink\<close> touches no file; when it
  succeeds the registration holds exactly the intended base path, with the prefix form it had,
  and the new file name if it carried one before; and when it fails, unless it says that the
  rollback itself failed or that the value reads back differently, every value of the registry
  is what it was.\<close>

theorem relink_all_or_nothing:
  assumes "relink machine_env r target w = (res, w')"
    and "m_strings w (g_guid r, ''BasePath'') \<noteq> None"
  shows "m_files w' = m_files w
    \<and> (case res of
         Inr b \<Rightarrow> b = with_same_prefix_as (g_base_path r) (dir_of target) \<and>
           m_strings w' = (let m = (m_strings w)((g_guid r, ''BasePath'') \<mapsto> b)
             in if m_strings w (g_guid r, ''VhdFileName'') = None then m
                else m((g_guid r, ''VhdFileName'') \<mapsto> base_of target))
       | Inl e \<Rightarrow> rolled_back e \<longrightarrow> m_strings w' = m_strings w)"
  by (rule machine.relink_outcome [OF assms])

text \<open>A machine with one distribution that does not start, and the attempt to relink it.\<close>

definition one_distro :: "bool \<Rightarrow> bool list \<Rightarrow> machine" where
  "one_distro boots faults =
     \<lparr>m_files = [bs ''c:|wsl|ext4.vhdx'' \<mapsto> [1, 2, 3]], m_paths = [bs ''c:|wsl|ext4.vhdx''],
      m_dirs = [],
      m_strings = [(''{1}'', ''DistributionName'') \<mapsto> ''Ubuntu'', (''{1}'', ''BasePath'') \<mapsto> bs ''C:|wsl''],
      m_dwords = Map.empty, m_guids = [''{1}''], m_default = None, m_running = [],
      m_clock = 0, m_held_until = 0, m_boots = boots, m_faults = faults\<rparr>"

theorem relink_all_or_nothing_witness:
  "m_strings (snd (relink machine_env (sample_reg ''Ubuntu'') (bs ''D:|wsl|ext4.vhdx'') (one_distro False [])))
     = m_strings (one_distro False [])"
proof -
  let ?w = "one_distro False []"
  let ?t = "bs ''D:|wsl|ext4.vhdx''"
  have bp: "m_strings ?w (g_guid (sample_reg ''Ubuntu''), ''BasePath'') \<noteq> None"
    by (simp add: one_distro_def sample_reg_def)
  obtain res w' where rl: "relink machine_env (sample_reg ''Ubuntu'') ?t ?w = (res, w')" by fastforce
  have "same_path (base_of ?t) default_vhd_name" by code_simp
  then have "res = Inl ErrSmokeTest"
    using rl by (auto simp: relink_def repoint_def start_def Let_def machine_env_fields one_distro_def
        sample_reg_def m_write_string_def m_run_as_root_def attempt_def failed_with_def)
  then show ?thesis
    using relink_all_or_nothing [OF rl bp] rl by (simp add: rolled_back_def)
qed

text \<open>On every machine and under every schedule of faults, renaming a distribution touches no
  file and changes no value but its name: it ends with the trimmed new name, or with the old one
  unless putting it back failed too.\<close>

theorem rename_all_or_nothing:
  assumes "rename_distro machine_env r new w = (res, w')"
    and "m_strings w (g_guid r, ''DistributionName'') = Some (g_name r)"
  shows "m_files w' = m_files w
    \<and> (case res of
         Inr n \<Rightarrow> n = trim_space new
           \<and> m_strings w' = (m_strings w)((g_guid r, ''DistributionName'') \<mapsto> n)
       | Inl e \<Rightarrow> rolled_back e \<longrightarrow> m_strings w' = m_strings w)"
  by (rule machine.rename_outcome [OF assms])

theorem rename_all_or_nothing_witness:
  "m_strings (snd (rename_distro machine_env (sample_reg ''Ubuntu'') '' dev '' (one_distro False [])))
     = m_strings (one_distro False [])"
proof -
  let ?w = "one_distro False []"
  have nm: "m_strings ?w (g_guid (sample_reg ''Ubuntu''), ''DistributionName'') =
      Some (g_name (sample_reg ''Ubuntu''))"
    by (simp add: one_distro_def sample_reg_def)
  obtain res w' where rl: "rename_distro machine_env (sample_reg ''Ubuntu'') '' dev '' ?w = (res, w')"
    by fastforce
  then have "res = Inl ErrSmokeTest"
    by (auto simp: rename_distro_def start_def Let_def machine_env_fields one_distro_def
        sample_reg_def m_write_string_def m_run_as_root_def attempt_def)
  then show ?thesis
    using rename_all_or_nothing [OF rl nm] rl by (simp add: rolled_back_def)
qed

end
