(* ===== verification/DiskMove.thy ===== *)
theory DiskMove
  imports DiskRelink
begin

text \<open>
  \<open>WaitForDisk\<close> of \<open>internal/disk/compact.go\<close> and \<open>internal/disk/move.go\<close>: waiting for the utility
  VM to let go of a disk, and moving a distribution's disk. The wait is a loop until a deadline
  on the clock; it has fuel for one round per polling interval up to the deadline and two more,
  which is enough on any clock that advances by at least what it was asked to sleep.
\<close>

section \<open>Waiting for the disk\<close>

definition default_unlock_timeout :: int where "default_unlock_timeout = 90 * 10 ^ 9"
definition max_unlock_timeout :: int where "max_unlock_timeout = 3600 * 10 ^ 9"
definition unlock_poll :: int where "unlock_poll = 500 * 10 ^ 6"

definition others_running :: "'w env \<Rightarrow> string \<Rightarrow> ('w, string list) query" where
  "others_running E exclude w =
     (case e_running E w of
        Inl e \<Rightarrow> Inl e
      | Inr names \<Rightarrow> Inr (filter (\<lambda>n. \<not> equal_fold n exclude) names))"

definition unlock_timeout :: "int \<Rightarrow> int" where
  "unlock_timeout t0 =
     (let t = (if t0 \<le> 0 then default_unlock_timeout else t0)
      in if t > max_unlock_timeout then max_unlock_timeout else t)"

fun wait_loop :: "nat \<Rightarrow> 'w env \<Rightarrow> string \<Rightarrow> bool \<Rightarrow> int \<Rightarrow> 'w \<Rightarrow> disk_error option \<times> 'w" where
  "wait_loop 0 E path can_help deadline w = (Some NoReturn, w)"
| "wait_loop (Suc n) E path can_help deadline w =
     (if e_locked E path w = Inr False then (None, w)
      else if \<not> can_help \<or> \<not> e_now E w < deadline then (Some ErrBusy, w)
      else wait_loop n E path can_help deadline (e_sleep E unlock_poll w))"

definition wait_for_disk :: "'w env \<Rightarrow> string \<Rightarrow> string \<Rightarrow> int \<Rightarrow> 'w \<Rightarrow> disk_error option \<times> 'w" where
  "wait_for_disk E name path t0 w =
     (let blockers = or_else [] (others_running E name w);
          timeout = unlock_timeout t0
      in wait_loop (nat (timeout div unlock_poll) + 2) E path (blockers = [])
           (e_now E w + timeout) w)"

declare wait_loop.simps(2) [simp del]

lemmas wait_loop_Suc = wait_loop.simps(2)

lemma unlock_timeout_bounds: "0 < unlock_timeout t" "unlock_timeout t \<le> max_unlock_timeout"
  by (auto simp: unlock_timeout_def default_unlock_timeout_def max_unlock_timeout_def)

context clock_port
begin

lemma wait_loop_returns:
  "deadline - e_now E w \<le> int n * unlock_poll \<Longrightarrow>
     wait_loop (Suc n) E path can_help deadline w \<noteq> (Some NoReturn, w')"
proof (induction n arbitrary: w)
  case (Suc n)
  have "e_now E w + unlock_poll \<le> e_now E (e_sleep E unlock_poll w)"
    by (rule sleep_passes) (simp add: unlock_poll_def)
  then have "deadline - e_now E (e_sleep E unlock_poll w) \<le> int n * unlock_poll"
    using Suc.prems by (simp add: algebra_simps)
  from Suc.IH [OF this] show ?case by (subst wait_loop.simps) (auto split: if_splits)
qed (auto simp: wait_loop_Suc)

lemma wait_for_disk_returns: "wait_for_disk E name path t w \<noteq> (Some NoReturn, w')"
proof -
  let ?t = "unlock_timeout t"
  have "?t \<le> (?t div unlock_poll + 1) * unlock_poll"
    using div_mult_mod_eq [of ?t unlock_poll] pos_mod_bound [of unlock_poll ?t]
    by (simp add: unlock_poll_def algebra_simps)
  moreover have "0 \<le> ?t div unlock_poll"
    using unlock_timeout_bounds [of t] by (simp add: unlock_poll_def pos_imp_zdiv_nonneg_iff)
  ultimately have "e_now E w + ?t - e_now E w \<le> int (nat (?t div unlock_poll) + 1) * unlock_poll"
    by (simp add: add.commute)
  then show ?thesis
    using wait_loop_returns by (simp add: wait_for_disk_def Let_def)
qed

end

context ports
begin

lemma wait_loop_keeps:
  "wait_loop n E path h dl w = (r, w') \<Longrightarrow> files w' = files w \<and> regs w' = regs w"
  by (induction n arbitrary: w) (auto split: if_splits simp: sleep_keeps wait_loop_Suc)

lemma wait_for_disk_keeps:
  "wait_for_disk E name path t w = (r, w') \<Longrightarrow> files w' = files w \<and> regs w' = regs w"
  unfolding wait_for_disk_def Let_def by (rule wait_loop_keeps)

end

lemma wait_loop_free:
  "wait_loop n E path h dl w = (None, w') \<Longrightarrow> e_locked E path w' = Inr False"
  by (induction n arbitrary: w) (auto split: if_splits simp: wait_loop_Suc)

lemma wait_loop_busy:
  "wait_loop n E path h dl w = (Some e, w') \<Longrightarrow> e = ErrBusy \<or> e = NoReturn"
  by (induction n arbitrary: w) (auto split: if_splits simp: wait_loop_Suc)

text \<open>C38: Waiting for a disk always ends, within the timeout and at most one polling interval
  more, with the disk free or with the busy error, never without an answer; it changes neither
  files nor registrations; and while another distribution runs, when waiting cannot help, it
  answers without waiting at all.\<close>

theorem wait_for_disk_ends:
  "case wait_for_disk machine_env name path t w of (r, w') \<Rightarrow>
     (r = None \<and> e_locked machine_env path w' = Inr False \<or> r = Some ErrBusy)
     \<and> m_clock w' < m_clock w + unlock_timeout t + unlock_poll
     \<and> m_files w' = m_files w \<and> m_strings w' = m_strings w
     \<and> (filter (\<lambda>n. \<not> equal_fold n name) (m_running w) = [] \<or> m_clock w' = m_clock w)"
proof -
  obtain r w' where res: "wait_for_disk machine_env name path t w = (r, w')" by fastforce
  have loop: "wait_loop n machine_env path h dl x = (q, x') \<Longrightarrow>
      m_clock x' \<le> max (m_clock x) (dl + unlock_poll - 1) \<and> (h \<or> m_clock x' = m_clock x)" for n h dl x q x'
  proof (induction n arbitrary: x)
    case (Suc n)
    let ?y = "e_sleep machine_env unlock_poll x"
    have y: "m_clock ?y = m_clock x + unlock_poll" by (simp add: machine_env_fields)
    from Suc.prems consider "x' = x"
      | "h" "m_clock x < dl" "wait_loop n machine_env path h dl ?y = (q, x')"
      by (auto simp: wait_loop_Suc machine_env_fields(25) split: if_splits)
        (simp_all add: machine_env_fields)
    then show ?case
    proof cases
      case 2
      have "m_clock x' \<le> max (m_clock ?y) (dl + unlock_poll - 1)" using Suc.IH [OF 2(3)] by simp
      then show ?thesis using 2(1,2) y by (simp add: unlock_poll_def max_def split: if_splits)
    qed (simp add: unlock_poll_def)
  qed (simp add: unlock_poll_def)
  have "max (m_clock w) (m_clock w + unlock_timeout t + unlock_poll - 1)
      < m_clock w + unlock_timeout t + unlock_poll"
    using unlock_timeout_bounds(1) [of t] by (simp add: unlock_poll_def)
  then have "m_clock w' < m_clock w + unlock_timeout t + unlock_poll
     \<and> (filter (\<lambda>n. \<not> equal_fold n name) (m_running w) = [] \<or> m_clock w' = m_clock w)"
    using res loop unfolding wait_for_disk_def Let_def
    by (fastforce simp: machine_env_fields others_running_def)
  moreover have "r = None \<and> e_locked machine_env path w' = Inr False \<or> r = Some ErrBusy"
  proof (cases r)
    case None
    with res show ?thesis unfolding wait_for_disk_def Let_def by (auto dest: wait_loop_free)
  next
    case (Some e)
    then have "e \<noteq> NoReturn" using res machine.wait_for_disk_returns by auto
    then show ?thesis
      using res Some unfolding wait_for_disk_def Let_def by (auto dest: wait_loop_busy)
  qed
  ultimately show ?thesis
    using res machine.wait_for_disk_keeps [OF res] by simp
qed

section \<open>Move\<close>

definition free_space_margin :: u64 where "free_space_margin = 64 * 2 ^ 20"

definition move_target_path :: "string \<Rightarrow> string \<Rightarrow> string" where
  "move_target_path source dir = join_windows dir (base_of source)"

definition check_destination :: "'w env \<Rightarrow> string \<Rightarrow> string \<Rightarrow> 'w \<Rightarrow> disk_error option" where
  "check_destination E source dir w =
     (case e_volume E dir w of
        Inl e \<Rightarrow> Some ErrRefused
      | Inr vol \<Rightarrow>
          if \<not> supports_vhdx vol then Some ErrRefused
          else (case e_size_on_disk E source w of
                  Inl e \<Rightarrow> Some ErrRefused
                | Inr used \<Rightarrow> if vol_free vol < used + free_space_margin then Some ErrRefused else None))"

definition plan_move ::
  "'w env \<Rightarrow> registration \<Rightarrow> string \<Rightarrow> bool \<Rightarrow> bool \<Rightarrow> bool \<Rightarrow> 'w \<Rightarrow> disk_error + plan"
where
  "plan_move E r dir keep running running_known w =
     (let source = vhd_path r; target = move_target_path source dir
      in if g_version r \<noteq> 2 then Inl ErrNotWSL2
         else if \<not> e_exists E source w then Inl ErrRefused
         else if same_path source target then Inl ErrRefused
         else if e_exists E target w then Inl ErrRefused
         else if \<not> running_known then Inl ErrRefused
         else if running then Inl ErrRunning
         else (let rename = or_else False (e_same_volume E source dir w) \<and> \<not> keep
               in case (if rename then None else check_destination E source dir w) of
                    Some e \<Rightarrow> Inl e
                  | None \<Rightarrow>
                      Inr ([undoable_step (if rename then MoveFile source target else CopyFile source target),
                            undoable_step (PointAt target), plain_step StartToCheck]
                           @ (if \<not> rename \<and> \<not> keep then [irreversible_step (DeleteFile source)] else []))))"

record move_result =
  mv_path :: string
  mv_base :: string
  mv_renamed :: bool
  mv_same_volume :: bool
  mv_kept_source :: bool

definition move_disk ::
  "'w env \<Rightarrow> registration \<Rightarrow> string \<Rightarrow> bool \<Rightarrow> 'w \<Rightarrow> (disk_error + move_result) \<times> 'w"
where
  "move_disk E r dir keep w =
     (let source = vhd_path r;
          target = move_target_path source dir;
          same = or_else False (e_same_volume E source dir w);
          renamed = (same \<and> \<not> keep);
          base = with_same_prefix_as (g_base_path r) dir;
          res = \<lparr>mv_path = target, mv_base = base, mv_renamed = renamed, mv_same_volume = same,
                 mv_kept_source = keep\<rparr>
      in case e_mkdir_all E dir w of
           (Inl e, w1) \<Rightarrow> (Inl (PortFailed e), w1)
         | (Inr _, w1) \<Rightarrow>
         (case (if renamed then e_rename E source target w1 else e_copy_sparse E source target w1) of
           (Inl e, w2) \<Rightarrow> (Inl (PortFailed e), w2)
         | (Inr _, w2) \<Rightarrow>
             (case repoint E r target base
                     [if renamed then URename target source else URemoveUnlessHeld target] w2 of
                (Some err, us, w3) \<Rightarrow>
                  (case unwind E False us w3 of (es, w4) \<Rightarrow> (Inl (failed_with err es), w4))
              | (None, us, w3) \<Rightarrow>
                  (case start E (g_name r) w3 of
                     (Inl e, w4) \<Rightarrow>
                       (case e_terminate E (g_name r) w4 of
                          (_, w5) \<Rightarrow>
                            (case wait_for_disk E (g_name r) target 0 w5 of
                               (waited, w6) \<Rightarrow>
                                 if waited \<noteq> None \<and> renamed then (Inl StillHeld, w6)
                                 else (case unwind E (waited \<noteq> None) us w6 of
                                         (es, w7) \<Rightarrow> (Inl (failed_with ErrSmokeTest es), w7))))
                   | (Inr _, w4) \<Rightarrow>
                       if \<not> renamed \<and> \<not> keep
                       then (case e_remove E source w4 of
                               (Inl e, w5) \<Rightarrow> (Inl LeftBehind, w5)
                             | (Inr _, w5) \<Rightarrow> (Inr res, w5))
                       else (Inr res, w4)))))"

lemma unwind_append:
  "unwind E held (us @ vs) w =
     (case unwind E held us w of
        (es, w1) \<Rightarrow> (case unwind E held vs w1 of (es', w2) \<Rightarrow> (es @ es', w2)))"
  by (induction us arbitrary: w) (auto split: prod.splits sum.splits)

context ports
begin

text \<open>Unwinding a move: the registry first, then the file. However it goes, the disk's content
  stays at its source or at its target; if all of it goes through, everything is as before.\<close>

lemma unwind_move:
  assumes "unwind E held (ws @ [if renamed then URename target source else URemoveUnlessHeld target]) w
      = (es, w')"
    and "list_all is_UWriteString ws"
    and "canonical_path source \<noteq> canonical_path target"
    and "if renamed then files w (canonical_path target) = Some d
         else files w (canonical_path source) = Some d"
  shows "files w' (canonical_path source) = Some d \<or> files w' (canonical_path target) = Some d"
    and "es = [] \<Longrightarrow> files w' (canonical_path source) = Some d
      \<and> (\<forall>p. p \<noteq> canonical_path source \<longrightarrow> p \<noteq> canonical_path target \<longrightarrow> files w' p = files w p)
      \<and> files w' (canonical_path target) = None"
    and "es = [] \<Longrightarrow> \<exists>w1 held. unwind E held ws w = ([], w1) \<and> regs w' = regs w1"
proof -
  obtain es1 w1 where u1: "unwind E held ws w = (es1, w1)" by fastforce
  have f1: "files w1 = files w" by (rule unwind_writes [OF u1 assms(2)])
  let ?u = "if renamed then URename target source else URemoveUnlessHeld target"
  obtain r w2 where u2: "run_undo E held ?u w1 = (r, w2)" by fastforce
  have w': "w' = w2" and es: "es = [] \<Longrightarrow> es1 = [] \<and> (\<exists>u. r = Inr u)"
    using assms(1) u1 u2 by (auto simp: unwind_append split: sum.splits)
  let ?cs = "canonical_path source" and ?ct = "canonical_path target"
  consider (moved) x where "renamed" "r = Inr x" "files w2 = (files w1)(?ct := None, ?cs := files w1 ?ct)"
    | (removed) x where "\<not> renamed" "r = Inr x" "files w2 = (files w1)(?ct := None)"
    | (failed) e where "r = Inl e" "files w2 = files w1"
  proof (cases r)
    case (Inl e)
    have "files w2 = files w1"
    proof (cases renamed)
      case True
      then show ?thesis using u2 Inl by (auto dest: rename_err)
    next
      case False
      then show ?thesis using u2 Inl by (cases held) (auto dest: remove_err)
    qed
    with Inl show ?thesis by (rule failed)
  next
    case (Inr x)
    show ?thesis
    proof (cases renamed)
      case True
      then show ?thesis using u2 Inr moved by (auto dest: rename)
    next
      case False
      then have "e_remove E target w1 = (Inr x, w2)" using u2 Inr by (cases held) auto
      with False Inr show ?thesis by (auto dest: remove intro: removed)
    qed
  qed
  note fs = this
  show "files w' ?cs = Some d \<or> files w' ?ct = Some d"
    using assms(3,4) by (cases rule: fs) (simp_all add: f1 w' split: if_splits)
  show "files w' ?cs = Some d \<and> (\<forall>p. p \<noteq> ?cs \<longrightarrow> p \<noteq> ?ct \<longrightarrow> files w' p = files w p)
      \<and> files w' ?ct = None" if "es = []"
    using assms(3,4) es [OF that] by (cases rule: fs) (simp_all add: f1 w' split: if_splits)
  have "regs w2 = regs w1"
    using u2 by (cases renamed; cases held) (auto dest: rename_regs remove_regs)
  then show "\<exists>w1 held. unwind E held ws w = ([], w1) \<and> regs w' = regs w1" if "es = []"
    using es [OF that] u1 w' by auto
qed

end

text \<open>What a move that stopped before its end may have left: nothing but a file at the target.\<close>

definition move_undone ::
  "(string \<Rightarrow> bytes option) \<Rightarrow> (string \<Rightarrow> bytes option) \<Rightarrow> string \<Rightarrow> bool"
where
  "move_undone before after target \<longleftrightarrow> (\<forall>p. p \<noteq> canonical_path target \<longrightarrow> after p = before p)"

context ports
begin

lemma move_transfer:
  assumes "(if renamed then e_rename E source target w1 else e_copy_sparse E source target w1) = (r, w2)"
    and "canonical_path source \<noteq> canonical_path target"
    and "files w1 (canonical_path source) = Some d"
  shows "regs w2 = regs w1"
    and "r = Inl e \<Longrightarrow> move_undone (files w1) (files w2) target"
    and "r = Inr u \<Longrightarrow> files w2 (canonical_path target) = Some d"
    and "r = Inr u \<Longrightarrow> files w2 (canonical_path source) = (if renamed then None else Some d)"
    and "r = Inr u \<Longrightarrow> p \<noteq> canonical_path source \<Longrightarrow> p \<noteq> canonical_path target \<Longrightarrow> files w2 p = files w1 p"
  using assms
  by (cases renamed; auto simp: move_undone_def
      dest: rename rename_err copy copy_err rename_regs copy_regs split: if_splits)+

lemma move_unwound:
  assumes rp: "repoint E r target base [if renamed then URename target source else URemoveUnlessHeld target] w2
      = (e, us, w3)"
    and bp: "regs w2 (g_guid r, ''BasePath'') \<noteq> None"
    and same: "files w6 = files w3" "regs w6 = regs w3"
    and u: "unwind E held us w6 = (es, w7)"
    and neq: "canonical_path source \<noteq> canonical_path target"
    and at: "files w2 (canonical_path target) = Some d"
    and src: "files w2 (canonical_path source) = (if renamed then None else Some d)"
  shows "files w7 (canonical_path source) = Some d \<or> files w7 (canonical_path target) = Some d"
    and "es = [] \<Longrightarrow> regs w7 = regs w2 \<and> files w7 (canonical_path source) = Some d
      \<and> (\<forall>p. p \<noteq> canonical_path source \<longrightarrow> p \<noteq> canonical_path target \<longrightarrow> files w7 p = files w2 p)"
proof -
  obtain ws where f: "files w3 = files w2"
    and us: "us = ws @ [if renamed then URename target source else URemoveUnlessHeld target]"
    and wr: "list_all is_UWriteString ws" and un: "restores E regs ws w3 w2"
    by (rule repoint_cases [OF rp bp])
  have pre: "if renamed then files w6 (canonical_path target) = Some d
      else files w6 (canonical_path source) = Some d"
    using at src same f by simp
  note um = unwind_move [OF u [unfolded us] wr neq pre]
  show "files w7 (canonical_path source) = Some d \<or> files w7 (canonical_path target) = Some d"
    by (rule um(1))
  assume "es = []"
  from um(3) [OF this] obtain w8 h where w8: "unwind E h ws w6 = ([], w8)" "regs w7 = regs w8"
    by blast
  have "regs w8 = regs w2" by (rule restoresD [OF un same(2) w8(1)])
  with w8(2) um(2) [OF \<open>es = []\<close>] same f
  show "regs w7 = regs w2 \<and> files w7 (canonical_path source) = Some d
      \<and> (\<forall>p. p \<noteq> canonical_path source \<longrightarrow> p \<noteq> canonical_path target \<longrightarrow> files w7 p = files w2 p)"
    by simp
qed

lemma failed_with_cases: "failed_with e es = x \<Longrightarrow> rolled_back x \<Longrightarrow> es = [] \<and> x = e"
  by (auto simp: failed_with_def rolled_back_def split: if_splits)

lemma repoint_error: "repoint E r target base us w = (Some e, us', w') \<Longrightarrow> e \<noteq> StillHeld \<and> e \<noteq> LeftBehind"
  unfolding repoint_def
  by (auto split: sum.splits option.splits prod.splits if_splits simp: Let_def)

lemma move_outcome:
  fixes r dir
  defines "source \<equiv> vhd_path r" and "target \<equiv> move_target_path (vhd_path r) dir"
  assumes mv: "move_disk E r dir keep w = (res, w')"
    and src: "files w (canonical_path source) = Some d"
    and neq: "canonical_path source \<noteq> canonical_path target"
    and bp: "regs w (g_guid r, ''BasePath'') \<noteq> None"
  shows "(files w' (canonical_path source) = Some d \<or> files w' (canonical_path target) = Some d)
    \<and> (case res of
         Inr m \<Rightarrow> files w' (canonical_path target) = Some d
           \<and> files w' (canonical_path source) = (if keep then Some d else None)
           \<and> regs w' (g_guid r, ''BasePath'') = Some (mv_base m)
       | Inl e \<Rightarrow> rolled_back e \<and> e \<noteq> StillHeld \<and> e \<noteq> LeftBehind \<longrightarrow>
           regs w' = regs w \<and> move_undone (files w) (files w') target)"
proof -
  define renamed where "renamed = (or_else False (e_same_volume E source dir w) \<and> \<not> keep)"
  define base where "base = with_same_prefix_as (g_base_path r) dir"
  define us0 where "us0 = [if renamed then URename target source else URemoveUnlessHeld target]"
  define out where "out = \<lparr>mv_path = target, mv_base = base, mv_renamed = renamed,
      mv_same_volume = or_else False (e_same_volume E source dir w), mv_kept_source = keep\<rparr>"
  have out: "mv_base out = base" by (simp add: out_def)
  note mv' = mv [unfolded move_disk_def Let_def, folded target_def, folded source_def,
      folded renamed_def base_def, folded us0_def out_def]
  obtain r1 w1 where 1: "e_mkdir_all E dir w = (r1, w1)" by fastforce
  have k1: "files w1 = files w" "regs w1 = regs w" using 1 mkdir_all mkdir_all_regs by auto
  show ?thesis
  proof (cases r1)
    case (Inl e)
    then have "w' = w1" "res = Inl (PortFailed e)" using mv' 1 by simp_all
    then show ?thesis using k1 src by (simp add: move_undone_def)
  next
    case (Inr u1)
    obtain r2 w2 where 2: "(if renamed then e_rename E source target w1 else e_copy_sparse E source target w1) = (r2, w2)"
      by fastforce
    note tr = move_transfer [OF 2 neq, unfolded k1, OF src]
    show ?thesis
    proof (cases r2)
      case (Inl e)
      then have w': "w' = w2" "res = Inl (PortFailed e)" using mv' 1 Inr 2 by simp_all
      have "move_undone (files w) (files w2) target" by (rule tr(2) [OF Inl])
      then show ?thesis using w' src neq tr(1) by (simp add: move_undone_def)
    next
      case (Inr u2)
      note at = tr(3) [OF Inr] and from_src = tr(4) [OF Inr] and rest = tr(5) [OF Inr]
      obtain e us w3 where 3: "repoint E r target base us0 w2 = (e, us, w3)" by (metis prod_cases3)
      have bp2: "regs w2 (g_guid r, ''BasePath'') \<noteq> None" using bp tr(1) by simp
      note undo = move_unwound [OF 3 [unfolded us0_def] bp2 _ _ _ neq at from_src]
      have clean: "regs w7 = regs w \<and> move_undone (files w) (files w7) target"
        if "regs w7 = regs w2 \<and> files w7 (canonical_path source) = Some d
            \<and> (\<forall>p. p \<noteq> canonical_path source \<longrightarrow> p \<noteq> canonical_path target \<longrightarrow> files w7 p = files w2 p)"
        for w7
        using that rest src tr(1) unfolding move_undone_def by metis
      show ?thesis
      proof (cases e)
        case (Some err)
        obtain es w4 where 4: "unwind E False us w3 = (es, w4)" by fastforce
        have w': "w' = w4" "res = Inl (failed_with err es)"
          using mv' 1 \<open>r1 = Inr u1\<close> 2 Inr 3 Some 4 by simp_all
        show ?thesis
          using w' undo(1) [OF refl refl 4] clean [OF undo(2) [OF refl refl 4]]
          by (auto dest: rolled_back_failed_with)
      next
        case None
        note rpd = repoint_done [OF 3 [unfolded None]]
        obtain sr w4 where 4: "start E (g_name r) w3 = (sr, w4)" by fastforce
        note k4 = start_unchanged [OF 4]
        show ?thesis
        proof (cases sr)
          case (Inl err)
          obtain tr5 w5 where 5: "e_terminate E (g_name r) w4 = (tr5, w5)" by fastforce
          obtain wt w6 where 6: "wait_for_disk E (g_name r) target 0 w5 = (wt, w6)" by fastforce
          have k6: "files w6 = files w3" "regs w6 = regs w3"
            using k4 terminate_keeps [OF 5] wait_for_disk_keeps [OF 6] by simp_all
          show ?thesis
          proof (cases "wt \<noteq> None \<and> renamed")
            case True
            then have "w' = w6" "res = Inl StillHeld"
              using mv' 1 \<open>r1 = Inr u1\<close> 2 Inr 3 None 4 Inl 5 6 by simp_all
            then show ?thesis using k6 rpd at by simp
          next
            case False
            obtain es w7 where 7: "unwind E (wt \<noteq> None) us w6 = (es, w7)" by fastforce
            have w': "w' = w7" "res = Inl (failed_with ErrSmokeTest es)"
              using mv' 1 \<open>r1 = Inr u1\<close> 2 Inr 3 None 4 Inl 5 6 7 False by (simp_all del: not_None_eq)
            show ?thesis
              using w' undo(1) [OF k6 7] clean [OF undo(2) [OF k6 7]]
              by (auto dest: rolled_back_failed_with)
          qed
        next
          case sr: (Inr u4)
          have k: "files w4 = files w2" "regs w4 (g_guid r, ''BasePath'') = Some base"
            using k4 rpd by (simp_all add: Let_def)
          show ?thesis
          proof (cases "\<not> renamed \<and> \<not> keep")
            case True
            obtain r5 w5 where 5: "e_remove E source w4 = (r5, w5)" by fastforce
            show ?thesis
            proof (cases r5)
              case (Inl err)
              then have "w' = w5" "res = Inl LeftBehind"
                using mv' 1 \<open>r1 = Inr u1\<close> 2 Inr 3 None 4 sr 5 True by simp_all
              then show ?thesis using remove_err [OF 5 [unfolded Inl]] k at by simp
            next
              case r5: (Inr u5)
              then have m: "w' = w5" "res = Inr out"
                using mv' 1 \<open>r1 = Inr u1\<close> 2 Inr 3 None 4 sr 5 True by simp_all
              have "files w5 = (files w4)(canonical_path source := None)" "regs w5 = regs w4"
                using remove [OF 5 [unfolded r5]] remove_regs [OF 5] by simp_all
              then show ?thesis using m k at neq True out by simp
            qed
          next
            case False
            then have m: "w' = w4" "res = Inr out"
              using mv' 1 \<open>r1 = Inr u1\<close> 2 Inr 3 None 4 sr by (simp_all split: if_splits)
            have "renamed = (\<not> keep)" using False by (auto simp: renamed_def)
            then show ?thesis using m k at from_src out by simp
          qed
        qed
      qed
    qed
  qed
qed

end



end
