(* ===== verification/DiskTrash.thy ===== *)
theory DiskTrash
  imports DiskMove
begin

text \<open>
  \<open>internal/disk/trash.go\<close>: moving a distribution to the trash before it is unregistered,
  listing, finding, purging and restoring what is there. The manifest's JSON codec is an
  argument. A trash date of 0 is Go's zero time, a manifest that says nothing.
\<close>

section \<open>Manifests\<close>

definition manifest_name :: string where "manifest_name = ''wslkit-trash.json''"
definition manifest_schema :: string where "manifest_schema = ''wslkit/disk-trash/v1''"

record manifest =
  mf_schema :: string
  mf_trashed_at :: int
  mf_was_default :: bool
  mf_registration :: registration
  mf_files :: "string list"
  mf_vhd_file :: string

record trash_entry =
  te_guid :: string
  te_dir :: string
  te_manifest :: "manifest option"   \<comment> \<open>\<open>None\<close>: the folder could not be read\<close>
  te_bytes :: "u64 option"

definition entry_name :: "trash_entry \<Rightarrow> string" where
  "entry_name e =
     (case te_manifest e of
        Some m \<Rightarrow> if g_name (mf_registration m) \<noteq> [] then g_name (mf_registration m) else te_guid e
      | None \<Rightarrow> te_guid e)"

definition entry_trashed_at :: "trash_entry \<Rightarrow> int" where
  "entry_trashed_at e = (case te_manifest e of Some m \<Rightarrow> mf_trashed_at m | None \<Rightarrow> 0)"

section \<open>Reading the registration\<close>

text \<open>The two loops over the value names, with the field each value goes to.\<close>

fun read_strings ::
  "'w env \<Rightarrow> string \<Rightarrow> (string \<times> (string \<Rightarrow> registration \<Rightarrow> registration)) list \<Rightarrow> registration
     \<Rightarrow> ('w, registration) query"
where
  "read_strings E g [] r w = Inr r"
| "read_strings E g ((name, set_to) # fs) r w =
     (case e_read_string E g name w of
        Inl e \<Rightarrow> Inl e
      | Inr (Some v) \<Rightarrow> read_strings E g fs (set_to v r) w
      | Inr None \<Rightarrow> read_strings E g fs r w)"

fun read_dwords ::
  "'w env \<Rightarrow> string \<Rightarrow> (string \<times> (int \<Rightarrow> registration \<Rightarrow> registration)) list \<Rightarrow> registration
     \<Rightarrow> ('w, registration) query"
where
  "read_dwords E g [] r w = Inr r"
| "read_dwords E g ((name, set_to) # fs) r w =
     (case e_read_dword E g name w of
        Inl e \<Rightarrow> Inl e
      | Inr (Some v) \<Rightarrow> read_dwords E g fs (set_to (uint v) r) w
      | Inr None \<Rightarrow> read_dwords E g fs r w)"

definition read_full_registration :: "'w env \<Rightarrow> registration \<Rightarrow> ('w, registration) query" where
  "read_full_registration E r w =
     (case read_strings E (g_guid r)
        [(''DistributionName'', \<lambda>v r. r\<lparr>g_name := v\<rparr>),
         (''BasePath'', \<lambda>v r. r\<lparr>g_base_path := v\<rparr>),
         (''VhdFileName'', \<lambda>v r. r\<lparr>g_vhd_file_name := v\<rparr>),
         (''Flavor'', \<lambda>v r. r\<lparr>g_flavor := v\<rparr>),
         (''OsVersion'', \<lambda>v r. r\<lparr>g_os_version := v\<rparr>),
         (''ShortcutPath'', \<lambda>v r. r\<lparr>g_shortcut_path := v\<rparr>),
         (''TerminalProfilePath'', \<lambda>v r. r\<lparr>g_terminal_profile_path := v\<rparr>),
         (''PackageFamilyName'', \<lambda>v r. r\<lparr>g_package_family_name := v\<rparr>)] r w of
        Inl e \<Rightarrow> Inl e
      | Inr r1 \<Rightarrow> read_dwords E (g_guid r)
        [(''Version'', \<lambda>v r. r\<lparr>g_version := v\<rparr>),
         (''State'', \<lambda>v r. r\<lparr>g_state := v\<rparr>),
         (''Flags'', \<lambda>v r. r\<lparr>g_flags := v\<rparr>),
         (''DefaultUid'', \<lambda>v r. r\<lparr>g_default_uid := v\<rparr>),
         (''RunOOBE'', \<lambda>v r. r\<lparr>g_run_oobe := v\<rparr>),
         (''Modern'', \<lambda>v r. r\<lparr>g_modern := v\<rparr>)] r1 w)"

section \<open>Trash\<close>

definition plan_trash :: "'w env \<Rightarrow> registration \<Rightarrow> bool \<Rightarrow> bool \<Rightarrow> 'w \<Rightarrow> disk_error + plan" where
  "plan_trash E r running running_known w =
     (if g_version r \<noteq> 2 then Inl ErrNotWSL2
      else if vhd_path r = [] \<or> \<not> e_exists E (vhd_path r) w then Inl ErrRefused
      else if \<not> running_known then Inl ErrRefused
      else Inr ((if running then [plain_step StopAndWait] else [])
                @ [undoable_step MoveToTrash, irreversible_step Unregister]))"

text \<open>The closure \<open>move\<close> of \<open>moveIntoTrash\<close>: the error, the undo stack and the machine.\<close>

definition move_one ::
  "'w env \<Rightarrow> string \<Rightarrow> string \<Rightarrow> string \<Rightarrow> undo list \<Rightarrow> 'w \<Rightarrow> string option \<times> undo list \<times> 'w"
where
  "move_one E dir from name us w =
     (let to = join_windows dir name; same = or_else False (e_same_volume E from dir w)
      in if same
         then (case e_rename E from to w of
                 (Inl e, w1) \<Rightarrow> (Some e, us, w1)
               | (Inr _, w1) \<Rightarrow> (None, URename to from # us, w1))
         else (case e_copy_sparse E from to w of
                 (Inl e, w1) \<Rightarrow> (Some e, us, w1)
               | (Inr _, w1) \<Rightarrow>
                   (case e_remove E from w1 of
                      (Inl e, w2) \<Rightarrow> (Some e, URemove to # us, w2)
                    | (Inr _, w2) \<Rightarrow> (None, URemove to # us, w2))))"

fun move_siblings ::
  "'w env \<Rightarrow> string \<Rightarrow> string \<Rightarrow> dir_entry list \<Rightarrow> string list \<Rightarrow> undo list \<Rightarrow> 'w
     \<Rightarrow> string option \<times> string list \<times> undo list \<times> 'w"
where
  "move_siblings E dir vhd [] moved us w = (None, moved, us, w)"
| "move_siblings E dir vhd (item # items) moved us w =
     (if de_is_dir item \<or> equal_fold (base_of (de_path item)) vhd
      then move_siblings E dir vhd items moved us w
      else (case move_one E dir (de_path item) (base_of (de_path item)) us w of
              (Some e, us1, w1) \<Rightarrow> (Some e, moved, us1, w1)
            | (None, us1, w1) \<Rightarrow>
                move_siblings E dir vhd items (moved @ [base_of (de_path item)]) us1 w1))"

definition move_into_trash ::
  "'w env \<Rightarrow> registration \<Rightarrow> string \<Rightarrow> 'w \<Rightarrow> string option \<times> string list \<times> undo list \<times> 'w"
where
  "move_into_trash E r dir w =
     (case move_one E dir (vhd_path r) (vhd_name r) [] w of
        (Some e, us, w1) \<Rightarrow> (Some e, [], us, w1)
      | (None, us, w1) \<Rightarrow>
          (case e_list E (reg_base r) ''*'' w1 of
             Inl e \<Rightarrow> (None, [vhd_name r], us, w1)
           | Inr items \<Rightarrow> move_siblings E dir (vhd_name r) items [vhd_name r] us w1))"

definition clean_dir :: "'w env \<Rightarrow> string \<Rightarrow> 'w \<Rightarrow> 'w" where
  "clean_dir E dir w =
     (if e_list E dir ''*'' w = Inr [] then snd (e_remove_dir E dir w) else w)"

definition trash ::
  "'w env \<Rightarrow> (manifest \<Rightarrow> bytes) \<Rightarrow> registration \<Rightarrow> string \<Rightarrow> bool \<Rightarrow> int \<Rightarrow> 'w
     \<Rightarrow> (disk_error + trash_entry) \<times> 'w"
where
  "trash E marshal r root shutdown timeout w =
     (let dir = join_windows root (g_guid r)
      in case read_full_registration E r w of
           Inl e \<Rightarrow> (Inl (PortFailed e), w)
         | Inr full \<Rightarrow>
         (case e_default E w of
           Inl e \<Rightarrow> (Inl (PortFailed e), w)
         | Inr def \<Rightarrow>
         (case (if shutdown then e_shutdown E w else e_terminate E (g_name r) w) of
           (Inl e, w1) \<Rightarrow> (Inl (PortFailed e), w1)
         | (Inr _, w1) \<Rightarrow>
         (case wait_for_disk E (g_name r) (vhd_path r) timeout w1 of
           (Some err, w2) \<Rightarrow> (Inl err, w2)
         | (None, w2) \<Rightarrow>
         (case e_mkdir_all E dir w2 of
           (Inl e, w3) \<Rightarrow> (Inl (PortFailed e), w3)
         | (Inr _, w3) \<Rightarrow>
         (case move_into_trash E r dir w3 of
           (Some e, moved, us, w4) \<Rightarrow>
             (case unwind E False us w4 of
                (es, w5) \<Rightarrow> (Inl (failed_with (PortFailed e) es), clean_dir E dir w5))
         | (None, moved, us, w4) \<Rightarrow>
             (let man = \<lparr>mf_schema = manifest_schema, mf_trashed_at = e_now E w,
                         mf_was_default = equal_fold (case def of Some g \<Rightarrow> g | None \<Rightarrow> []) (g_guid r),
                         mf_registration = full, mf_files = moved, mf_vhd_file = vhd_name r\<rparr>
              in case e_write_file E (join_windows dir manifest_name) (marshal man) w4 of
                   (Inl e, w5) \<Rightarrow>
                     (case unwind E False us w5 of
                        (es, w6) \<Rightarrow> (Inl (failed_with (PortFailed e) es), clean_dir E dir w6))
                 | (Inr _, w5) \<Rightarrow>
                     (case e_unregister E (g_name r) w5 of
                        (Inl e, w6) \<Rightarrow>
                          (case unwind E False us w6 of
                             (es, w7) \<Rightarrow>
                               (Inl (failed_with (PortFailed e) es),
                                clean_dir E dir (snd (e_remove E (join_windows dir manifest_name) w7))))
                      | (Inr _, w6) \<Rightarrow>
                          (Inr \<lparr>te_guid = g_guid r, te_dir = dir, te_manifest = Some man, te_bytes = None\<rparr>,
                           w6)))))))))"

section \<open>Finding and restoring\<close>

definition find_trashed :: "trash_entry list \<Rightarrow> string \<Rightarrow> disk_error + trash_entry" where
  "find_trashed entries name =
     (case filter (\<lambda>e. equal_fold (entry_name e) name \<or> equal_fold (te_guid e) name) entries of
        [] \<Rightarrow> Inl (ErrNotTrashed name)
      | [e] \<Rightarrow> Inr e
      | _ \<Rightarrow> Inl (ErrAmbiguous name))"

definition read_manifest :: "'w env \<Rightarrow> (bytes \<Rightarrow> manifest option) \<Rightarrow> string \<Rightarrow> 'w \<Rightarrow> manifest option" where
  "read_manifest E unmarshal dir w =
     (case e_read_file E (join_windows dir manifest_name) w of
        Inl e \<Rightarrow> None
      | Inr b \<Rightarrow>
          (case unmarshal b of
             None \<Rightarrow> None
           | Some m \<Rightarrow> if mf_schema m \<noteq> manifest_schema then None else Some m))"

definition dir_size :: "'w env \<Rightarrow> string \<Rightarrow> 'w \<Rightarrow> u64 option" where
  "dir_size E dir w =
     (case e_list E dir ''*'' w of
        Inl e \<Rightarrow> None
      | Inr items \<Rightarrow> Some (sum_list (map (\<lambda>i. or_else 0 (e_size_on_disk E (de_path i) w))
          (filter (\<lambda>i. \<not> de_is_dir i) items))))"

definition list_trash :: "'w env \<Rightarrow> (bytes \<Rightarrow> manifest option) \<Rightarrow> string \<Rightarrow> 'w \<Rightarrow> trash_entry list" where
  "list_trash E unmarshal root w =
     (case e_list E root ''*'' w of
        Inl e \<Rightarrow> []
      | Inr items \<Rightarrow>
          sort_key (\<lambda>e. - entry_trashed_at e)
            (map (\<lambda>i. \<lparr>te_guid = base_of (de_path i), te_dir = de_path i,
                       te_manifest = read_manifest E unmarshal (de_path i) w,
                       te_bytes = dir_size E (de_path i) w\<rparr>)
               (filter de_is_dir items)))"

definition plan_undelete :: "trash_entry \<Rightarrow> registration list \<Rightarrow> disk_error + plan" where
  "plan_undelete entry registered =
     (case te_manifest entry of
        None \<Rightarrow> Inl ErrRefused
      | Some m \<Rightarrow>
          (let name = g_name (mf_registration m)
           in if name = [] then Inl ErrRefused
              else if list_ex (\<lambda>r. equal_fold (g_name r) name) registered
              then Inl (ErrAlreadyRegistered name)
              else Inr [undoable_step (RegisterFrom (join_windows (te_dir entry) (mf_vhd_file m))),
                        plain_step RestoreSettings]))"

text \<open>\<open>restoreSettings\<close>: how many of the settings could not be put back.\<close>

definition restore_dword :: "'w env \<Rightarrow> string \<Rightarrow> string \<Rightarrow> int \<Rightarrow> 'w \<Rightarrow> nat \<times> 'w" where
  "restore_dword E g name v w =
     (if v < 0 then (0, w)
      else (case e_write_dword E g name (word_of_int v) w of
              (Inl e, w1) \<Rightarrow> (1, w1) | (Inr _, w1) \<Rightarrow> (0, w1)))"

definition restore_settings :: "'w env \<Rightarrow> string \<Rightarrow> manifest \<Rightarrow> 'w \<Rightarrow> nat \<times> 'w" where
  "restore_settings E g m w =
     (case restore_dword E g ''DefaultUid'' (g_default_uid (mf_registration m)) w of
        (n1, w1) \<Rightarrow>
          (case restore_dword E g ''Flags'' (g_flags (mf_registration m)) w1 of
             (n2, w2) \<Rightarrow>
               if mf_was_default m
               then (case e_set_default E g w2 of
                       (Inl e, w3) \<Rightarrow> (n1 + n2 + 1, w3) | (Inr _, w3) \<Rightarrow> (n1 + n2, w3))
               else (n1 + n2, w2)))"

definition undelete ::
  "'w env \<Rightarrow> trash_entry \<Rightarrow> manifest \<Rightarrow> 'w \<Rightarrow> (disk_error + registration) \<times> 'w"
where
  "undelete E entry man w =
     (let name = g_name (mf_registration man); vhd = join_windows (te_dir entry) (mf_vhd_file man)
      in if \<not> e_exists E vhd w then (Inl ErrRefused, w)
         else (case e_import_in_place E name vhd w of
                 (Inl e, w1) \<Rightarrow> (Inl (PortFailed e), w1)
               | (Inr _, w1) \<Rightarrow>
                   (case e_distros E w1 of
                      Inl e \<Rightarrow> (Inl (PortFailed e), w1)
                    | Inr list \<Rightarrow>
                        (case resolve list name of
                           Inl err \<Rightarrow> (Inl err, w1)
                         | Inr fresh \<Rightarrow>
                             (case restore_settings E (g_guid fresh) man w1 of
                                (n, w2) \<Rightarrow>
                                  if n = 0 then (Inr fresh, w2) else (Inl (Unmet ''settings''), w2))))))"

fun remove_files :: "'w env \<Rightarrow> dir_entry list \<Rightarrow> 'w \<Rightarrow> bool \<times> 'w" where
  "remove_files E [] w = (True, w)"
| "remove_files E (i # is) w =
     (if de_is_dir i then remove_files E is w
      else (case e_remove E (de_path i) w of
              (r, w1) \<Rightarrow>
                (case remove_files E is w1 of (ok, w2) \<Rightarrow> ((case r of Inl _ \<Rightarrow> False | Inr _ \<Rightarrow> ok), w2))))"

text \<open>\<open>Purge\<close> of one entry: whether its folder went.\<close>

definition purge_one :: "'w env \<Rightarrow> trash_entry \<Rightarrow> 'w \<Rightarrow> bool \<times> 'w" where
  "purge_one E entry w =
     (case e_list E (te_dir entry) ''*'' w of
        Inl e \<Rightarrow> (False, w)
      | Inr items \<Rightarrow>
          (case remove_files E items w of
             (ok, w1) \<Rightarrow>
               if \<not> ok then (False, w1)
               else (case e_remove_dir E (te_dir entry) w1 of
                       (Inl e, w2) \<Rightarrow> (False, w2) | (Inr _, w2) \<Rightarrow> (True, w2))))"

definition older_than :: "trash_entry list \<Rightarrow> int \<Rightarrow> int \<Rightarrow> trash_entry list" where
  "older_than entries age now =
     (if age \<le> 0 then entries
      else filter (\<lambda>e. entry_trashed_at e \<noteq> 0 \<and> now - entry_trashed_at e \<ge> age) entries)"

section \<open>The disk on its way\<close>

text \<open>A rollback that cannot touch the file at \<open>c\<close>.\<close>

fun harmless :: "string \<Rightarrow> undo \<Rightarrow> bool" where
  "harmless c (UWriteString g n v) = True"
| "harmless c (URename a b) = (canonical_path a \<noteq> c)"
| "harmless c (URemove p) = (canonical_path p \<noteq> c)"
| "harmless c (URemoveUnlessHeld p) = (canonical_path p \<noteq> c)"

context ports
begin

lemma run_undo_harmless:
  assumes "run_undo E held u w = (r, w')" and "harmless c u" and "files w c = Some d"
  shows "files w' c = Some d"
proof (cases u)
  case (URename a b)
  then show ?thesis
    using assms by (cases r) (auto dest!: rename rename_err split: if_splits)
next
  case (UWriteString g n v)
  then show ?thesis using assms by (auto dest: write_string_files)
next
  case (URemove p)
  then show ?thesis using assms by (cases r) (auto dest!: remove remove_err)
next
  case (URemoveUnlessHeld p)
  then show ?thesis using assms by (cases r) (auto dest!: remove remove_err split: if_splits)
qed

lemma unwind_harmless:
  "unwind E held us w = (es, w') \<Longrightarrow> list_all (harmless c) us \<Longrightarrow> files w c = Some d
     \<Longrightarrow> files w' c = Some d"
proof (induction us arbitrary: w es w')
  case (Cons u us)
  obtain r w1 where 1: "run_undo E held u w = (r, w1)" by fastforce
  obtain es' w2 where 2: "unwind E held us w1 = (es', w2)" by fastforce
  have "files w1 c = Some d" using run_undo_harmless [OF 1] Cons.prems by simp
  with Cons.IH [OF 2] Cons.prems 1 2 show ?case by simp
qed simp

text \<open>Moving one more file beside a disk that is already at \<open>c\<close> leaves it there, and so does
  taking that back.\<close>

lemma move_one_harmless:
  assumes "move_one E dir from name us w = (r, us', w')"
    and "canonical_path from \<noteq> c" and "files w c = Some d"
  shows "files w' c = Some d \<and> (\<exists>vs. us' = vs @ us \<and> list_all (harmless c) vs)"
proof (cases "or_else False (e_same_volume E from dir w)")
  case True
  then show ?thesis
    using assms by (auto simp: move_one_def Let_def split: prod.splits sum.splits
        dest!: rename rename_err)
next
  case False
  then show ?thesis
    using assms by (auto simp: move_one_def Let_def split: prod.splits sum.splits
        dest!: copy remove remove_err dest: copy_err)
qed

lemma move_siblings_harmless:
  "move_siblings E dir vhd items moved us w = (r, moved', us', w')
     \<Longrightarrow> \<forall>i \<in> set items. canonical_path (de_path i) \<noteq> c \<Longrightarrow> files w c = Some d
     \<Longrightarrow> files w' c = Some d \<and> (\<exists>vs. us' = vs @ us \<and> list_all (harmless c) vs)"
proof (induction items arbitrary: moved us w)
  case (Cons i items)
  show ?case
  proof (cases "de_is_dir i \<or> equal_fold (base_of (de_path i)) vhd")
    case True
    then show ?thesis using Cons.IH [of moved us w] Cons.prems by simp
  next
    case False
    obtain r1 us1 w1 where 1: "move_one E dir (de_path i) (base_of (de_path i)) us w = (r1, us1, w1)"
      by (metis prod_cases3)
    from move_one_harmless [OF 1, of c d] Cons.prems
    obtain vs where vs: "files w1 c = Some d" "us1 = vs @ us" "list_all (harmless c) vs" by auto
    show ?thesis
    proof (cases r1)
      case None
      then have "move_siblings E dir vhd items (moved @ [base_of (de_path i)]) us1 w1 = (r, moved', us', w')"
        using Cons.prems(1) False 1 by simp
      from Cons.IH [OF this _ vs(1)] Cons.prems(2) vs show ?thesis by fastforce
    next
      case (Some e)
      then show ?thesis using Cons.prems(1) False 1 vs by auto
    qed
  qed
qed simp

text \<open>The whole of \<open>moveIntoTrash\<close> within one volume: either nothing happened to the disk, or it is
  at its place in the trash and the oldest rollback is the one that renames it back.\<close>

lemma move_into_trash_disk:
  fixes r dir
  defines "c \<equiv> canonical_path (join_windows dir (vhd_name r))"
  assumes mv: "move_into_trash E r dir w = (res, moved, us, w')"
    and same: "e_same_volume E (vhd_path r) dir w = Inr True"
    and src: "files w (canonical_path (vhd_path r)) = Some d"
    and neq: "canonical_path (vhd_path r) \<noteq> c" and dirs: "dir_of c \<noteq> canonical_path (reg_base r)"
  shows "us = [] \<and> files w' = files w \<and> res \<noteq> None \<or>
    (\<exists>vs. us = vs @ [URename (join_windows dir (vhd_name r)) (vhd_path r)]
      \<and> list_all (harmless c) vs \<and> files w' c = Some d)"
proof -
  obtain r1 w1 where 1: "e_rename E (vhd_path r) (join_windows dir (vhd_name r)) w = (r1, w1)" by fastforce
  show ?thesis
  proof (cases r1)
    case (Inl e)
    then show ?thesis
      using mv same 1 rename_err [OF 1 [unfolded Inl]] by (auto simp: move_into_trash_def move_one_def)
  next
    case (Inr u)
    let ?us = "[URename (join_windows dir (vhd_name r)) (vhd_path r)]"
    have c: "files w1 c = Some d"
      using rename [OF 1 [unfolded Inr]] src neq by (simp add: c_def)
    have one: "move_one E dir (vhd_path r) (vhd_name r) [] w = (None, ?us, w1)"
      using same 1 Inr by (simp add: move_one_def)
    show ?thesis
    proof (cases "e_list E (reg_base r) ''*'' w1")
      case Inl
      then show ?thesis using mv one c by (auto simp: move_into_trash_def)
    next
      case items: (Inr items)
      then have "move_siblings E dir (vhd_name r) items [vhd_name r] ?us w1 = (res, moved, us, w')"
        using mv one by (simp add: move_into_trash_def)
      moreover have "\<forall>i \<in> set items. canonical_path (de_path i) \<noteq> c"
        using list_dir [OF items] dirs by metis
      ultimately show ?thesis using move_siblings_harmless c by blast
    qed
  qed
qed

text \<open>Unwinding that stack leaves the disk in the trash or puts it back.\<close>

lemma unwind_trash:
  assumes "unwind E held (vs @ [URename to from]) w = (es, w')"
    and "list_all (harmless (canonical_path to)) vs" and "files w (canonical_path to) = Some d"
  shows "files w' (canonical_path from) = Some d \<or> files w' (canonical_path to) = Some d"
    and "es = [] \<Longrightarrow> files w' (canonical_path from) = Some d"
proof -
  obtain es1 w1 where 1: "unwind E held vs w = (es1, w1)" by fastforce
  have c: "files w1 (canonical_path to) = Some d" by (rule unwind_harmless [OF 1 assms(2,3)])
  obtain r w2 where 2: "e_rename E to from w1 = (r, w2)" by fastforce
  have w': "w' = w2" and es: "es = [] \<Longrightarrow> \<exists>u. r = Inr u"
    using assms(1) 1 2 by (auto simp: unwind_append split: sum.splits)
  show "files w' (canonical_path from) = Some d \<or> files w' (canonical_path to) = Some d"
    using c w' 2 by (cases r) (auto dest: rename rename_err)
  show "es = [] \<Longrightarrow> files w' (canonical_path from) = Some d"
    using c w' 2 es by (auto dest: rename)
qed

lemma clean_dir_keeps: "files (clean_dir E dir w) = files w" "regs (clean_dir E dir w) = regs w"
  using remove_dir [of dir w] remove_dir_regs [of dir w]
  by (auto simp: clean_dir_def) (metis prod.collapse)+

end

context ports
begin

lemma move_one_regs: "move_one E dir from name us w = (r, us', w') \<Longrightarrow> regs w' = regs w"
  by (auto simp: move_one_def Let_def split: if_splits prod.splits sum.splits
      dest!: rename_regs copy_regs remove_regs)

lemma move_siblings_regs:
  "move_siblings E dir vhd items moved us w = (r, moved', us', w') \<Longrightarrow> regs w' = regs w"
  by (induction items arbitrary: moved us w)
    (auto split: if_splits prod.splits option.splits dest!: move_one_regs)

lemma move_into_trash_regs: "move_into_trash E r dir w = (res, moved, us, w') \<Longrightarrow> regs w' = regs w"
  by (auto simp: move_into_trash_def split: prod.splits option.splits sum.splits
      dest!: move_one_regs move_siblings_regs)

lemma trash_outcome:
  fixes r root
  defines "dir \<equiv> join_windows root (g_guid r)"
  defines "ct \<equiv> canonical_path (join_windows dir (vhd_name r))" and "cs \<equiv> canonical_path (vhd_path r)"
  assumes tr: "trash E marshal r root shutdown timeout w = (res, w')"
    and src: "files w cs = Some d" and neq: "cs \<noteq> ct"
    and dirs: "dir_of ct \<noteq> canonical_path (reg_base r)"
    and same: "\<And>x. e_same_volume E (vhd_path r) dir x = Inr True"
    and man: "canonical_path (join_windows dir manifest_name) \<noteq> ct"
      "canonical_path (join_windows dir manifest_name) \<noteq> cs"
    and unreg: "\<And>g. canonical_path (registered_disk (regs w) g) \<noteq> ct"
  shows "(files w' cs = Some d \<or> files w' ct = Some d)
    \<and> (case res of Inr e \<Rightarrow> files w' ct = Some d | Inl e \<Rightarrow> rolled_back e \<longrightarrow> files w' cs = Some d)"
proof -
  note tr' = tr [unfolded trash_def Let_def, folded dir_def]
  show ?thesis
  proof (cases "read_full_registration E r w")
    case Inl
    then show ?thesis using tr' src by auto
  next
    case full: (Inr full)
    show ?thesis
    proof (cases "e_default E w")
      case Inl
      then show ?thesis using tr' src full by auto
    next
      case def: (Inr def)
      obtain r1 w1 where 1: "(if shutdown then e_shutdown E w else e_terminate E (g_name r) w) = (r1, w1)"
        by fastforce
      have k1: "files w1 = files w" "regs w1 = regs w"
        using 1 shutdown_keeps terminate_keeps by (auto split: if_splits)
      obtain r2 w2 where 2: "wait_for_disk E (g_name r) (vhd_path r) timeout w1 = (r2, w2)" by fastforce
      have k2: "files w2 = files w" "regs w2 = regs w" using wait_for_disk_keeps [OF 2] k1 by simp_all
      obtain r3 w3 where 3: "e_mkdir_all E dir w2 = (r3, w3)" by fastforce
      have k3: "files w3 = files w" "regs w3 = regs w"
        using mkdir_all [OF 3] mkdir_all_regs [OF 3] k2 by simp_all
      obtain r4 moved us w4 where 4: "move_into_trash E r dir w3 = (r4, moved, us, w4)"
        by (metis prod_cases4)
      have k4: "regs w4 = regs w" using move_into_trash_regs [OF 4] k3 by simp
      have disk: "us = [] \<and> files w4 = files w3 \<and> r4 \<noteq> None \<or>
          (\<exists>vs. us = vs @ [URename (join_windows dir (vhd_name r)) (vhd_path r)]
            \<and> list_all (harmless ct) vs \<and> files w4 ct = Some d)"
        using move_into_trash_disk [OF 4 same] src neq dirs k3 unfolding ct_def cs_def by simp
      show ?thesis
      proof (cases "(\<exists>e. r1 = Inl e) \<or> r2 \<noteq> None \<or> (\<exists>e. r3 = Inl e)")
        case True
        then consider e where "r1 = Inl e" | u e where "r1 = Inr u" "r2 = Some e"
          | u e where "r1 = Inr u" "r2 = None" "r3 = Inl e"
          by (cases r1; cases r2) auto
        then have "files w' = files w \<and> (\<exists>e. res = Inl e)"
          by cases (use tr' full def 1 2 3 k1 k2 k3 in auto)
        then show ?thesis using src by auto
      next
        case False
        then obtain u1 u3 where ok: "r1 = Inr u1" "r2 = None" "r3 = Inr u3" by (cases r1; cases r3) auto
        note step = tr' [unfolded full def sum.case 1 ok prod.case 2 option.case 3 4]
        have undo: "(files x cs = Some d \<or> files x ct = Some d) \<and> (es = [] \<longrightarrow> files x cs = Some d)"
          if "unwind E False us y = (es, x)" and "us = [] \<longrightarrow> files y cs = Some d"
            and "files y ct = Some d \<or> us = []" for es x y
          using disk
        proof (elim disjE exE conjE)
          assume "us = []"
          then show ?thesis using that by simp
        next
          fix vs assume us: "us = vs @ [URename (join_windows dir (vhd_name r)) (vhd_path r)]"
            and h: "list_all (harmless ct) vs"
          then have "files y ct = Some d" using that(3) by simp
          from unwind_trash [OF that(1) [unfolded us] h [unfolded ct_def] this [unfolded ct_def]]
          show ?thesis unfolding cs_def ct_def by blast
        qed
        have at: "us = [] \<longrightarrow> files w4 cs = Some d" "files w4 ct = Some d \<or> us = []"
          using disk src k3 by auto
        show ?thesis
        proof (cases r4)
          case (Some e)
          obtain es w5 where 5: "unwind E False us w4 = (es, w5)" by fastforce
          have "res = Inl (failed_with (PortFailed e) es)" "w' = clean_dir E dir w5"
            using step Some 5 by simp_all
          then show ?thesis
            using undo [OF 5 at] by (auto simp: clean_dir_keeps dest: rolled_back_failed_with)
        next
          case None
          with disk have c4: "files w4 ct = Some d" and ne: "us \<noteq> []" by auto
          define m where "m = \<lparr>mf_schema = manifest_schema, mf_trashed_at = e_now E w,
             mf_was_default = equal_fold (case def of Some g \<Rightarrow> g | None \<Rightarrow> []) (g_guid r),
             mf_registration = full, mf_files = moved, mf_vhd_file = vhd_name r\<rparr>"
          obtain r5 w5 where 5: "e_write_file E (join_windows dir manifest_name) (marshal m) w4 = (r5, w5)"
            by fastforce
          have "files w5 ct = files w4 ct"
          proof (cases r5)
            case (Inl e)
            from write_file_err [OF 5 [unfolded Inl], of ct] man(1) show ?thesis by simp
          next
            case (Inr u)
            from write_file [OF 5 [unfolded Inr]] man(1) show ?thesis by simp
          qed
          then have k5: "files w5 ct = Some d" "regs w5 = regs w"
            using c4 k4 write_file_regs [OF 5] by simp_all
          show ?thesis
          proof (cases r5)
            case (Inl e)
            obtain es w6 where 6: "unwind E False us w5 = (es, w6)" by fastforce
            have "res = Inl (failed_with (PortFailed e) es)" "w' = clean_dir E dir w6"
              using step None 5 Inl 6 by (simp_all add: m_def)
            then show ?thesis
              using undo [OF 6] ne k5(1) by (auto simp: clean_dir_keeps dest: rolled_back_failed_with)
          next
            case r5: (Inr u5)
            obtain r6 w6 where 6: "e_unregister E (g_name r) w5 = (r6, w6)" by fastforce
            show ?thesis
            proof (cases r6)
              case (Inl e)
              have k6: "files w6 = files w5" using unregister_err 6 Inl by blast
              obtain es w7 where 7: "unwind E False us w6 = (es, w7)" by fastforce
              obtain r8 w8 where 8: "e_remove E (join_windows dir manifest_name) w7 = (r8, w8)" by fastforce
              have "res = Inl (failed_with (PortFailed e) es)" "w' = clean_dir E dir w8"
                using step None 5 r5 6 Inl 7 8 by (simp_all add: m_def)
              moreover have "files w8 p = files w7 p" if "p \<noteq> canonical_path (join_windows dir manifest_name)" for p
                using 8 that by (cases r8) (auto dest: remove remove_err)
              ultimately show ?thesis
                using undo [OF 7] ne k5(1) k6 man
                by (auto simp: clean_dir_keeps dest: rolled_back_failed_with)
            next
              case r6: (Inr u6)
              then have "w' = w6" "\<exists>e. res = Inr e" using step None 5 r5 6 by (auto simp: m_def)
              moreover have "files w6 ct = files w5 ct"
                using unregister_files [OF 6 [unfolded r6], of ct] unreg k5(2) by metis
              ultimately show ?thesis using k5(1) by auto
            qed
          qed
        qed
      qed
    qed
  qed
qed

end

section \<open>Properties\<close>

text \<open>C8: On every machine and under every schedule of faults, moving a distribution to a trash on
  the disk's own volume never loses the disk: after it the content is where it was or in the
  trash folder; in the trash on success, although unregistering deletes whatever the
  registration points at; and where it was after any failure whose rollback completed. The
  trash folder must not be the distribution's own directory, the manifest must not be called
  like the disk, and no registration may point into the trash folder already.\<close>

theorem trash_never_loses_disk:
  fixes r root
  defines "dir \<equiv> join_windows root (g_guid r)"
  defines "ct \<equiv> canonical_path (join_windows dir (vhd_name r))" and "cs \<equiv> canonical_path (vhd_path r)"
  assumes "trash machine_env marshal r root shutdown timeout w = (res, w')"
    and "m_files w cs = Some d" and "cs \<noteq> ct"
    and "dir_of ct \<noteq> canonical_path (reg_base r)"
    and "drive_of (vhd_path r) = drive_of dir"
    and "canonical_path (join_windows dir manifest_name) \<noteq> ct"
    and "canonical_path (join_windows dir manifest_name) \<noteq> cs"
    and "\<And>g. canonical_path (registered_disk (m_strings w) g) \<noteq> ct"
  shows "(m_files w' cs = Some d \<or> m_files w' ct = Some d)
    \<and> (case res of Inr e \<Rightarrow> m_files w' ct = Some d
       | Inl e \<Rightarrow> rolled_back e \<longrightarrow> m_files w' cs = Some d)"
  unfolding ct_def cs_def dir_def
  by (rule machine.trash_outcome [OF assms(4-7) [unfolded ct_def cs_def dir_def] _
        assms(9-11) [unfolded ct_def cs_def dir_def]])
    (simp add: machine_env_fields assms(8) [unfolded dir_def])

theorem trash_never_loses_disk_witness:
  "m_files (snd (trash machine_env (\<lambda>_. []) (sample_reg ''Ubuntu'') (bs ''C:|trash'') True 0
      (one_distro True []))) (bs ''c:|wsl|ext4.vhdx'') = Some [1, 2, 3]
   \<or> m_files (snd (trash machine_env (\<lambda>_. []) (sample_reg ''Ubuntu'') (bs ''C:|trash'') True 0
      (one_distro True []))) (bs ''c:|trash|{1}|ext4.vhdx'') = Some [1, 2, 3]"
proof -
  let ?r = "sample_reg ''Ubuntu''" and ?w = "one_distro True []"
  let ?dir = "join_windows (bs ''C:|trash'') (g_guid ?r)"
  have c: "canonical_path (vhd_path ?r) = bs ''c:|wsl|ext4.vhdx''"
    "canonical_path (join_windows ?dir (vhd_name ?r)) = bs ''c:|trash|{1}|ext4.vhdx''"
    "canonical_path (join_windows ?dir manifest_name) = bs ''c:|trash|{1}|wslkit-trash.json''"
    "canonical_path (reg_base ?r) = bs ''c:|wsl''"
    "dir_of (bs ''c:|trash|{1}|ext4.vhdx'') = bs ''c:|trash|{1}''"
    by code_simp+
  have neq: "bs ''c:|wsl|ext4.vhdx'' \<noteq> bs ''c:|trash|{1}|ext4.vhdx''"
    "bs ''c:|trash|{1}'' \<noteq> bs ''c:|wsl''"
    "bs ''c:|trash|{1}|wslkit-trash.json'' \<noteq> bs ''c:|trash|{1}|ext4.vhdx''"
    "bs ''c:|trash|{1}|wslkit-trash.json'' \<noteq> bs ''c:|wsl|ext4.vhdx''"
    by code_simp+
  have drive: "drive_of (vhd_path ?r) = drive_of ?dir" by code_simp
  have at: "m_files ?w (canonical_path (vhd_path ?r)) = Some [1, 2, 3]"
    unfolding c by (simp add: one_distro_def)
  have other: "canonical_path (registered_disk (m_strings ?w) g) \<noteq> bs ''c:|trash|{1}|ext4.vhdx''" for g
  proof (cases "g = ''{1}''")
    case True
    have "registered_disk (m_strings ?w) ''{1}'' = vhd_path ?r"
      by code_simp
    then show ?thesis using True c neq by simp
  next
    case False
    then have "registered_disk (m_strings ?w) g = join_windows (trim_prefix [] extended_prefix) default_vhd_name"
      by (simp add: registered_disk_def one_distro_def)
    moreover have "canonical_path (join_windows (trim_prefix [] extended_prefix) default_vhd_name)
        \<noteq> bs ''c:|trash|{1}|ext4.vhdx''"
      by code_simp
    ultimately show ?thesis by simp
  qed
  obtain res w' where tr: "trash machine_env (\<lambda>_. []) ?r (bs ''C:|trash'') True 0 ?w = (res, w')" by fastforce
  show ?thesis
    using trash_never_loses_disk [OF tr at] drive neq other unfolding c tr snd_conv by blast
qed


text \<open>Two distributions may keep their disks in one directory, as \<open>wsl --import-in-place\<close> lets them.\<close>

definition two_distros :: machine where
  "two_distros =
     \<lparr>m_files = [bs ''c:|wsl|a.vhdx'' \<mapsto> [1], bs ''c:|wsl|b.vhdx'' \<mapsto> [2]],
      m_paths = [bs ''c:|wsl|a.vhdx'', bs ''c:|wsl|b.vhdx''], m_dirs = [],
      m_strings = [(''{1}'', ''DistributionName'') \<mapsto> ''A'', (''{1}'', ''BasePath'') \<mapsto> bs ''C:|wsl'',
        (''{1}'', ''VhdFileName'') \<mapsto> ''a.vhdx'',
        (''{2}'', ''DistributionName'') \<mapsto> ''B'', (''{2}'', ''BasePath'') \<mapsto> bs ''C:|wsl'',
        (''{2}'', ''VhdFileName'') \<mapsto> ''b.vhdx''],
      m_dwords = Map.empty, m_guids = [''{1}'', ''{2}''], m_default = None, m_running = [],
      m_clock = 0, m_held_until = 0, m_boots = True, m_faults = []\<rparr>"

text \<open>Trashing a distribution takes every file beside its disk along, also the disk of another
  distribution registered in the same directory: after a successful trash of the first, the
  second's registration points at nothing and its disk lies in the first one's trash folder,
  where a purge deletes it.\<close>

theorem trash_takes_neighbour:
  "case trash machine_env (\<lambda>_. []) ((sample_reg ''A'')\<lparr>g_vhd_file_name := ''a.vhdx''\<rparr>) (bs ''C:|trash'') True 0
      two_distros of
     (res, w') \<Rightarrow> (\<exists>e. res = Inr e)
       \<and> m_strings w' (''{2}'', ''DistributionName'') = Some ''B''
       \<and> m_files w' (canonical_path (registered_disk (m_strings w') ''{2}'')) = None
       \<and> m_files w' (bs ''c:|trash|{1}|b.vhdx'') = Some [2]"
proof -
  have "case trash machine_env (\<lambda>_. []) ((sample_reg ''A'')\<lparr>g_vhd_file_name := ''a.vhdx''\<rparr>) (bs ''C:|trash'') True 0
      two_distros of
     (res, w') \<Rightarrow> (case res of Inl e \<Rightarrow> False | Inr e \<Rightarrow> True)
       \<and> m_strings w' (''{2}'', ''DistributionName'') = Some ''B''
       \<and> m_files w' (canonical_path (registered_disk (m_strings w') ''{2}'')) = None
       \<and> m_files w' (bs ''c:|trash|{1}|b.vhdx'') = Some [2]"
    by code_simp
  then show ?thesis by (auto split: prod.splits sum.splits)
qed

end
