(* ===== verification/DiskSnapshot.thy ===== *)
theory DiskSnapshot
  imports DiskTrash
begin

text \<open>
  \<open>internal/disk/snapshot.go\<close>: taking a snapshot of a distribution's disk, listing and finding
  snapshots, and putting one back. The manifest's JSON codec and the format of the id, a time
  to the second, are arguments.
\<close>

section \<open>Manifests\<close>

definition snapshot_manifest_name :: string where "snapshot_manifest_name = ''wslkit-snapshot.json''"
definition snapshot_schema :: string where "snapshot_schema = ''wslkit/disk-snapshot/v1''"

record snapshot_manifest =
  sm_schema :: string
  sm_id :: string
  sm_label :: string
  sm_distribution :: string
  sm_guid :: string
  sm_source_path :: string
  sm_vhd_file :: string
  sm_taken_at :: int
  sm_runtime :: string
  sm_file_size :: u64
  sm_size_on_disk :: u64

record snapshot_entry =
  se_dir :: string
  se_manifest :: snapshot_manifest
  se_broken :: bool

definition snapshot_vhd_path :: "snapshot_entry \<Rightarrow> string" where
  "snapshot_vhd_path s = join_windows (se_dir s) (sm_vhd_file (se_manifest s))"

definition snapshot_dir :: "string \<Rightarrow> registration \<Rightarrow> string \<Rightarrow> string" where
  "snapshot_dir root r i = join_windows (join_windows root (g_guid r)) i"

definition measured_size :: "'w env \<Rightarrow> string \<Rightarrow> u64 \<Rightarrow> 'w \<Rightarrow> u64" where
  "measured_size E path file_size w =
     (case e_size_on_disk E path w of
        Inr n \<Rightarrow> if n > 0 \<or> file_size = 0 then n else file_size
      | Inl e \<Rightarrow> file_size)"

definition snapshot_manifest_of ::
  "'w env \<Rightarrow> registration \<Rightarrow> string \<Rightarrow> string \<Rightarrow> string \<Rightarrow> int \<Rightarrow> string \<Rightarrow> 'w \<Rightarrow> snapshot_manifest"
where
  "snapshot_manifest_of E r i label runtime now dest w =
     (let fs = or_else 0 (e_file_size E dest w)
      in \<lparr>sm_schema = snapshot_schema, sm_id = i, sm_label = label, sm_distribution = g_name r,
          sm_guid = g_guid r, sm_source_path = vhd_path r, sm_vhd_file = vhd_name r,
          sm_taken_at = now, sm_runtime = runtime, sm_file_size = fs,
          sm_size_on_disk = measured_size E dest fs w\<rparr>)"

section \<open>Taking one\<close>

definition plan_snapshot ::
  "'w env \<Rightarrow> registration \<Rightarrow> string \<Rightarrow> bool \<Rightarrow> bool \<Rightarrow> 'w \<Rightarrow> disk_error + plan"
where
  "plan_snapshot E r root running running_known w =
     (if g_version r \<noteq> 2 then Inl ErrNotWSL2
      else if \<not> e_exists E (vhd_path r) w then Inl ErrRefused
      else if \<not> running_known then Inl ErrRefused
      else (case check_destination E (vhd_path r) root w of
              Some e \<Rightarrow> Inl e
            | None \<Rightarrow> Inr ((if running then [plain_step StopAndWait] else [])
                           @ [undoable_step (CopyFile (vhd_path r) root), plain_step WriteManifest])))"

definition stop_for_disk :: "'w env \<Rightarrow> registration \<Rightarrow> bool \<Rightarrow> 'w \<Rightarrow> disk_error option \<times> 'w" where
  "stop_for_disk E r shutdown w =
     (case (if shutdown then e_shutdown E w else e_terminate E (g_name r) w) of
        (Inl e, w1) \<Rightarrow> (Some (PortFailed e), w1)
      | (Inr _, w1) \<Rightarrow> wait_for_disk E (g_name r) (vhd_path r) 0 w1)"

definition take_snapshot ::
  "'w env \<Rightarrow> (snapshot_manifest \<Rightarrow> bytes) \<Rightarrow> (int \<Rightarrow> string) \<Rightarrow> registration \<Rightarrow> string \<Rightarrow> string
     \<Rightarrow> string \<Rightarrow> bool \<Rightarrow> bool \<Rightarrow> 'w \<Rightarrow> (disk_error + snapshot_entry) \<times> 'w"
where
  "take_snapshot E marshal fmt r root label runtime shutdown running w =
     (let now = e_now E w; i = fmt now; dir = snapshot_dir root r i; source = vhd_path r
      in case (if running \<or> shutdown then stop_for_disk E r shutdown w
               else wait_for_disk E (g_name r) source 0 w) of
           (Some err, w1) \<Rightarrow> (Inl err, w1)
         | (None, w1) \<Rightarrow>
         (if e_exists E dir w1 then (Inl ErrRefused, w1)
          else case e_mkdir_all E dir w1 of
           (Inl e, w2) \<Rightarrow> (Inl (PortFailed e), w2)
         | (Inr _, w2) \<Rightarrow>
         (let dest = join_windows dir (vhd_name r)
          in case e_copy_sparse E source dest w2 of
           (Inl e, w3) \<Rightarrow>
             (Inl (PortFailed e), snd (e_remove_dir E dir (snd (e_remove E dest w3))))
         | (Inr _, w3) \<Rightarrow>
             (let m = snapshot_manifest_of E r i label runtime now dest w3
              in case e_write_file E (join_windows dir snapshot_manifest_name) (marshal m) w3 of
                   (Inl e, w4) \<Rightarrow>
                     (Inl (PortFailed e), snd (e_remove_dir E dir (snd (e_remove E dest w4))))
                 | (Inr _, w4) \<Rightarrow> (Inr \<lparr>se_dir = dir, se_manifest = m, se_broken = False\<rparr>, w4)))))"

section \<open>Finding one\<close>

definition snapshots_of :: "snapshot_entry list \<Rightarrow> registration \<Rightarrow> snapshot_entry list" where
  "snapshots_of ss r = filter (\<lambda>s. equal_fold (sm_guid (se_manifest s)) (g_guid r)) ss"

definition find_snapshot :: "snapshot_entry list \<Rightarrow> registration \<Rightarrow> string \<Rightarrow> disk_error + snapshot_entry" where
  "find_snapshot ss r i =
     (let mine = snapshots_of ss r;
          named = (\<lambda>s. sm_id (se_manifest s) = i \<or> sm_label (se_manifest s) \<noteq> [] \<and> sm_label (se_manifest s) = i)
      in if mine = [] then Inl (ErrNoSnapshot i)
         else case (if equal_fold i ''latest'' then find (\<lambda>s. \<not> se_broken s) (rev mine) else None) of
                Some s \<Rightarrow> Inr s
              | None \<Rightarrow> (case find named mine of Some s \<Rightarrow> Inr s | None \<Rightarrow> Inl (ErrNoSnapshot i)))"

definition read_snapshot_manifest ::
  "'w env \<Rightarrow> (bytes \<Rightarrow> snapshot_manifest option) \<Rightarrow> string \<Rightarrow> 'w \<Rightarrow> snapshot_manifest option"
where
  "read_snapshot_manifest E unmarshal dir w =
     (case e_read_file E (join_windows dir snapshot_manifest_name) w of
        Inl e \<Rightarrow> None
      | Inr b \<Rightarrow>
          (case unmarshal b of
             None \<Rightarrow> None
           | Some m \<Rightarrow> if sm_schema m \<noteq> snapshot_schema then None else Some m))"

definition broken_manifest :: "string \<Rightarrow> string \<Rightarrow> snapshot_manifest" where
  "broken_manifest i g =
     \<lparr>sm_schema = [], sm_id = i, sm_label = [], sm_distribution = [], sm_guid = g, sm_source_path = [],
      sm_vhd_file = [], sm_taken_at = 0, sm_runtime = [], sm_file_size = 0, sm_size_on_disk = 0\<rparr>"

definition list_snapshot ::
  "'w env \<Rightarrow> (bytes \<Rightarrow> snapshot_manifest option) \<Rightarrow> string \<Rightarrow> string \<Rightarrow> 'w \<Rightarrow> snapshot_entry"
where
  "list_snapshot E unmarshal gpath path w =
     (case read_snapshot_manifest E unmarshal path w of
        None \<Rightarrow> \<lparr>se_dir = path, se_manifest = broken_manifest (base_of path) (base_of gpath), se_broken = True\<rparr>
      | Some m \<Rightarrow>
          (let entry = \<lparr>se_dir = path, se_manifest = m, se_broken = False\<rparr>
           in case e_size_on_disk E (snapshot_vhd_path entry) w of
                Inr n \<Rightarrow> if n > 0 then entry\<lparr>se_manifest := m\<lparr>sm_size_on_disk := n\<rparr>\<rparr> else entry
              | Inl e \<Rightarrow> entry))"

definition list_snapshots ::
  "'w env \<Rightarrow> (bytes \<Rightarrow> snapshot_manifest option) \<Rightarrow> string \<Rightarrow> 'w \<Rightarrow> snapshot_entry list"
where
  "list_snapshots E unmarshal root w =
     (case e_list E root ''*'' w of
        Inl e \<Rightarrow> []
      | Inr guids \<Rightarrow>
          sort_key (\<lambda>s. sm_id (se_manifest s))
            (concat (map (\<lambda>g. map (\<lambda>i. list_snapshot E unmarshal (de_path g) (de_path i) w)
               (filter de_is_dir (or_else [] (e_list E (de_path g) ''*'' w)))) (filter de_is_dir guids))))"

definition remove_snapshot :: "'w env \<Rightarrow> snapshot_entry \<Rightarrow> 'w \<Rightarrow> bool \<times> 'w" where
  "remove_snapshot E s w =
     (case e_list E (se_dir s) ''*'' w of
        Inl e \<Rightarrow> (False, w)
      | Inr items \<Rightarrow>
          (case remove_files E items w of
             (ok, w1) \<Rightarrow>
               if \<not> ok then (False, w1)
               else (case e_remove_dir E (se_dir s) w1 of
                       (Inl e, w2) \<Rightarrow> (False, w2) | (Inr _, w2) \<Rightarrow> (True, w2))))"

section \<open>Putting one back\<close>

definition before_restore_suffix :: string where
  "before_restore_suffix = ''.wslkit-before-restore''"

definition plan_restore ::
  "'w env \<Rightarrow> registration \<Rightarrow> snapshot_entry \<Rightarrow> bool \<Rightarrow> bool \<Rightarrow> 'w \<Rightarrow> disk_error + plan"
where
  "plan_restore E r s running running_known w =
     (let live = vhd_path r; aside = live @ before_restore_suffix
      in if se_broken s then Inl ErrRefused
         else if \<not> equal_fold (sm_guid (se_manifest s)) (g_guid r) then Inl ErrRefused
         else if g_version r \<noteq> 2 \<or> live = [] then Inl ErrNotWSL2
         else if \<not> e_exists E (snapshot_vhd_path s) w then Inl ErrRefused
         else if \<not> running_known then Inl ErrRefused
         else if e_exists E aside w then Inl ErrRefused
         else (case check_destination E (snapshot_vhd_path s) (reg_base r) w of
                 Some e \<Rightarrow> Inl e
               | None \<Rightarrow>
                   Inr ((if running then [plain_step StopAndWait] else [])
                     @ (if e_exists E live w then [undoable_step MoveAside] else [])
                     @ [undoable_step CopySnapshot, plain_step StartToCheck]
                     @ (if e_exists E live w then [plain_step KeepReplaced] else []))))"

definition file_as_snapshot ::
  "'w env \<Rightarrow> (snapshot_manifest \<Rightarrow> bytes) \<Rightarrow> (int \<Rightarrow> string) \<Rightarrow> registration \<Rightarrow> string \<Rightarrow> string
     \<Rightarrow> string \<Rightarrow> 'w \<Rightarrow> (string + string) \<times> 'w"
where
  "file_as_snapshot E marshal fmt r root path label w =
     (let now = e_now E w;
          i = (if e_exists E (snapshot_dir root r (fmt now)) w then fmt now @ ''-1'' else fmt now);
          dir = snapshot_dir root r i;
          dest = join_windows dir (vhd_name r)
      in case e_mkdir_all E dir w of
           (Inl e, w1) \<Rightarrow> (Inl e, w1)
         | (Inr _, w1) \<Rightarrow>
             (case (if or_else False (e_same_volume E path dir w1) then e_rename E path dest w1
                    else (case e_copy_sparse E path dest w1 of
                            (Inl e, w2) \<Rightarrow> (Inl e, snd (e_remove E dest w2))
                          | (Inr _, w2) \<Rightarrow> e_remove E path w2)) of
                (Inl e, w3) \<Rightarrow> (Inl e, w3)
              | (Inr _, w3) \<Rightarrow>
                  (case e_write_file E (join_windows dir snapshot_manifest_name)
                          (marshal (snapshot_manifest_of E r i label [] now dest w3)) w3 of
                     (Inl e, w4) \<Rightarrow> (Inl e, w4) | (Inr _, w4) \<Rightarrow> (Inr i, w4))))"

text \<open>The result: the id of the snapshot made of the replaced disk, if there was one, and whether
  filing it failed.\<close>

datatype restored = NothingReplaced | KeptAs string | NotFiled string

definition restore ::
  "'w env \<Rightarrow> (snapshot_manifest \<Rightarrow> bytes) \<Rightarrow> (int \<Rightarrow> string) \<Rightarrow> registration \<Rightarrow> snapshot_entry \<Rightarrow> string
     \<Rightarrow> bool \<Rightarrow> bool \<Rightarrow> 'w \<Rightarrow> (disk_error + restored) \<times> 'w"
where
  "restore E marshal fmt r s root running shutdown w =
     (let live = vhd_path r; aside = live @ before_restore_suffix
      in case (if running \<or> shutdown then stop_for_disk E r shutdown w
               else if e_exists E live w then wait_for_disk E (g_name r) live 0 w else (None, w)) of
           (Some err, w1) \<Rightarrow> (Inl err, w1)
         | (None, w1) \<Rightarrow>
         (let had_live = e_exists E live w1
          in case (if had_live then e_rename E live aside w1 else (Inr (), w1)) of
           (Inl e, w2) \<Rightarrow> (Inl (PortFailed e), w2)
         | (Inr _, w2) \<Rightarrow>
         (let us = (if had_live then [URename aside live] else [])
          in case e_copy_sparse E (snapshot_vhd_path s) live w2 of
           (Inl e, w3) \<Rightarrow>
             (case unwind E False us (snd (e_remove E live w3)) of
                (es, w4) \<Rightarrow> (Inl (failed_with (PortFailed e) es), w4))
         | (Inr _, w3) \<Rightarrow>
         (case start E (g_name r) w3 of
           (Inl e, w4) \<Rightarrow>
             (case e_terminate E (g_name r) w4 of
                (_, w5) \<Rightarrow>
                  (case wait_for_disk E (g_name r) live 0 w5 of
                     (_, w6) \<Rightarrow>
                       (case unwind E False (URemove live # us) w6 of
                          (es, w7) \<Rightarrow> (Inl (failed_with ErrSmokeTest es), w7))))
         | (Inr _, w4) \<Rightarrow>
             if \<not> had_live then (Inr NothingReplaced, w4)
             else (case file_as_snapshot E marshal fmt r root aside
                          (''before restoring '' @ sm_id (se_manifest s)) w4 of
                     (Inl e, w5) \<Rightarrow> (Inr (NotFiled e), w5)
                   | (Inr i, w5) \<Rightarrow> (Inr (KeptAs i), w5))))))"

section \<open>The disk that is replaced\<close>

context ports
begin

lemma stop_for_disk_keeps:
  "stop_for_disk E r shutdown w = (x, w') \<Longrightarrow> files w' = files w \<and> regs w' = regs w"
  using shutdown_keeps terminate_keeps wait_for_disk_keeps
  by (fastforce simp: stop_for_disk_def split: prod.splits sum.splits if_splits)

lemma remove_other: "e_remove E p w = (r, w') \<Longrightarrow> q \<noteq> canonical_path p \<Longrightarrow> files w' q = files w q"
  by (cases r) (auto dest: remove remove_err)

lemma write_other: "e_write_file E p b w = (r, w') \<Longrightarrow> q \<noteq> canonical_path p \<Longrightarrow> files w' q = files w q"
  by (cases r) (auto dest: write_file write_file_err)

text \<open>Filing a disk as a snapshot: it stays where it is or is at its place in the snapshot.\<close>

lemma file_as_snapshot_keeps:
  assumes fl: "file_as_snapshot E marshal fmt r root path label w = (res, w')"
    and at: "files w (canonical_path path) = Some d"
    and dest: "\<And>i. canonical_path (join_windows (snapshot_dir root r i) (vhd_name r)) \<noteq> canonical_path path"
    and man: "\<And>i. canonical_path (join_windows (snapshot_dir root r i) snapshot_manifest_name) \<noteq> canonical_path path"
      "\<And>i. canonical_path (join_windows (snapshot_dir root r i) snapshot_manifest_name)
        \<noteq> canonical_path (join_windows (snapshot_dir root r i) (vhd_name r))"
  shows "files w' (canonical_path path) = Some d
      \<or> (\<exists>i. files w' (canonical_path (join_windows (snapshot_dir root r i) (vhd_name r))) = Some d)"
    and "(\<And>i. p \<noteq> canonical_path (join_windows (snapshot_dir root r i) (vhd_name r))) \<Longrightarrow>
      (\<And>i. p \<noteq> canonical_path (join_windows (snapshot_dir root r i) snapshot_manifest_name)) \<Longrightarrow>
      p \<noteq> canonical_path path \<Longrightarrow> files w' p = files w p"
proof -
  define i where "i = (if e_exists E (snapshot_dir root r (fmt (e_now E w))) w
    then fmt (e_now E w) @ ''-1'' else fmt (e_now E w))"
  define dir where "dir = snapshot_dir root r i"
  define to where "to = join_windows dir (vhd_name r)"
  let ?cp = "canonical_path path" and ?ct = "canonical_path to"
  have neq: "?ct \<noteq> ?cp" using dest by (simp add: to_def dir_def)
  obtain r1 w1 where 1: "e_mkdir_all E dir w = (r1, w1)" by fastforce
  have k1: "files w1 = files w" by (rule mkdir_all [OF 1])
  note fl' = fl [unfolded file_as_snapshot_def Let_def, folded i_def, folded dir_def, folded to_def]
  define step where "step = (if or_else False (e_same_volume E path dir w1) then e_rename E path to w1
      else (case e_copy_sparse E path to w1 of
              (Inl e, w2) \<Rightarrow> (Inl e, snd (e_remove E to w2))
            | (Inr _, w2) \<Rightarrow> e_remove E path w2))"
  obtain r3 w3 where 3: "step = (r3, w3)" by fastforce
  have s3: "(files w3 ?cp = Some d \<or> files w3 ?ct = Some d)
      \<and> (\<forall>p. p \<noteq> ?cp \<longrightarrow> p \<noteq> ?ct \<longrightarrow> files w3 p = files w1 p)"
  proof (cases "or_else False (e_same_volume E path dir w1)")
    case True
    then have "e_rename E path to w1 = (r3, w3)" using 3 by (simp add: step_def)
    then show ?thesis using at k1 by (cases r3) (auto dest!: rename rename_err)
  next
    case False
    obtain r2 w2 where 2: "e_copy_sparse E path to w1 = (r2, w2)" by fastforce
    show ?thesis
    proof (cases r2)
      case (Inl e)
      then have w3: "w3 = snd (e_remove E to w2)" using 3 2 False by (simp add: step_def)
      obtain r4 where "e_remove E to w2 = (r4, w3)" unfolding w3 by (metis prod.collapse)
      then have "files w3 p = files w2 p" if "p \<noteq> ?ct" for p using that by (rule remove_other)
      moreover have "files w2 p = files w1 p" if "p \<noteq> ?ct" for p
        using copy_err [OF 2 [unfolded Inl]] that by blast
      ultimately show ?thesis using at k1 neq by auto
    next
      case (Inr u)
      then have "e_remove E path w2 = (r3, w3)" using 3 2 False by (simp add: step_def)
      then have "files w3 p = files w2 p" if "p \<noteq> ?cp" for p using that by (rule remove_other)
      moreover have "files w2 = (files w1)(?ct := files w1 ?cp)" using copy [OF 2 [unfolded Inr]] by blast
      ultimately show ?thesis using at k1 neq by auto
    qed
  qed
  have final: "w' = w1 \<or> w' = w3 \<or>
      (\<exists>m r5. e_write_file E (join_windows dir snapshot_manifest_name) m w3 = (r5, w'))"
    using fl' 1 3 by (auto simp: step_def [symmetric] split: sum.splits prod.splits)
  have mneq: "canonical_path (join_windows dir snapshot_manifest_name) \<noteq> ?cp"
    "canonical_path (join_windows dir snapshot_manifest_name) \<noteq> ?ct"
    using man by (simp_all add: dir_def to_def)
  have "files w' ?cp = Some d \<or> files w' ?ct = Some d"
    using final s3 k1 at mneq write_other by metis
  then show "files w' ?cp = Some d
      \<or> (\<exists>i. files w' (canonical_path (join_windows (snapshot_dir root r i) (vhd_name r))) = Some d)"
    unfolding to_def dir_def by blast
  assume p: "\<And>i. p \<noteq> canonical_path (join_windows (snapshot_dir root r i) (vhd_name r))"
    "\<And>i. p \<noteq> canonical_path (join_windows (snapshot_dir root r i) snapshot_manifest_name)"
    and pc: "p \<noteq> ?cp"
  have "p \<noteq> ?ct" "p \<noteq> canonical_path (join_windows dir snapshot_manifest_name)"
    using p by (simp_all add: to_def dir_def)
  then show "files w' p = files w p"
    using final s3 k1 pc write_other by metis
qed

lemma unwind_restore:
  assumes "unwind E False ((if removing then [URemove live] else []) @ [URename aside live]) w = (es, w')"
    and "files w (canonical_path aside) = Some d"
    and "canonical_path live \<noteq> canonical_path aside"
  shows "(files w' (canonical_path live) = Some d \<or> files w' (canonical_path aside) = Some d)
    \<and> (es = [] \<longrightarrow> files w' (canonical_path live) = Some d)"
proof -
  obtain es1 w1 where 1: "unwind E False (if removing then [URemove live] else []) w = (es1, w1)" by fastforce
  have a: "files w1 (canonical_path aside) = Some d"
    using 1 assms(2,3) by (auto split: if_splits prod.splits simp: remove_other)
  obtain r w2 where 2: "e_rename E aside live w1 = (r, w2)" by fastforce
  have "w' = w2" "es = [] \<longrightarrow> (\<exists>u. r = Inr u)"
    using assms(1) 1 2 by (auto simp: unwind_append split: sum.splits)
  then show ?thesis using a 2 by (cases r) (auto dest: rename rename_err)
qed

lemma restore_outcome:
  fixes r s
  defines "cl \<equiv> canonical_path (vhd_path r)"
    and "ca \<equiv> canonical_path (vhd_path r @ before_restore_suffix)"
    and "cs \<equiv> canonical_path (snapshot_vhd_path s)"
  assumes rs: "restore E marshal fmt r s root running shutdown w = (res, w')"
    and live: "files w cl = Some d" and snap: "files w cs = Some b"
    and neq: "cl \<noteq> ca" "cs \<noteq> cl"
    and dest: "\<And>i. canonical_path (join_windows (snapshot_dir root r i) (vhd_name r)) \<notin> {cl, ca}"
    and man: "\<And>i. canonical_path (join_windows (snapshot_dir root r i) snapshot_manifest_name) \<notin> {cl, ca}"
      "\<And>i. canonical_path (join_windows (snapshot_dir root r i) snapshot_manifest_name)
        \<noteq> canonical_path (join_windows (snapshot_dir root r i) (vhd_name r))"
  shows "(files w' cl = Some d \<or> files w' ca = Some d
      \<or> (\<exists>i. files w' (canonical_path (join_windows (snapshot_dir root r i) (vhd_name r))) = Some d))
    \<and> (case res of Inr x \<Rightarrow> files w' cl = Some b | Inl e \<Rightarrow> rolled_back e \<longrightarrow> files w' cl = Some d)"
proof -
  define aside where "aside = vhd_path r @ before_restore_suffix"
  note rs' = rs [unfolded restore_def Let_def, folded aside_def]
  obtain r1 w1 where 1: "(if running \<or> shutdown then stop_for_disk E r shutdown w
      else if e_exists E (vhd_path r) w then wait_for_disk E (g_name r) (vhd_path r) 0 w else (None, w)) = (r1, w1)"
    by fastforce
  have k1: "files w1 = files w"
    using 1 stop_for_disk_keeps wait_for_disk_keeps by (auto split: if_splits)
  have ex: "e_exists E (vhd_path r) w1"
    by (rule exists_file) (use k1 live in \<open>simp add: cl_def\<close>)
  show ?thesis
  proof (cases r1)
    case (Some err)
    then have "w' = w1" "res = Inl err" using rs' 1 by simp_all
    then show ?thesis using k1 live by simp
  next
    case r1: None
    obtain r2 w2 where 2: "e_rename E (vhd_path r) aside w1 = (r2, w2)" by fastforce
    show ?thesis
    proof (cases r2)
      case (Inl e)
      then have "w' = w2" "res = Inl (PortFailed e)" using rs' 1 r1 ex 2 by simp_all
      then show ?thesis using rename_err [OF 2 [unfolded Inl]] k1 live by simp
    next
      case r2: (Inr u2)
      have f2: "files w2 = (files w)(cl := None, ca := Some d)" and a2: "cl = ca \<or> files w ca = None"
        using rename [OF 2 [unfolded r2]] k1 live by (simp_all add: cl_def ca_def aside_def)
      obtain r3 w3 where 3: "e_copy_sparse E (snapshot_vhd_path s) (vhd_path r) w2 = (r3, w3)" by fastforce
      show ?thesis
      proof (cases r3)
        case (Inl e)
        obtain r4 w4 where 4: "e_remove E (vhd_path r) w3 = (r4, w4)" by fastforce
        obtain es w5 where 5: "unwind E False [URename aside (vhd_path r)] w4 = (es, w5)" by fastforce
        have "files w4 ca = files w3 ca" using remove_other [OF 4] neq by (simp add: cl_def)
        also have "files w3 ca = files w2 ca" using copy_err [OF 3 [unfolded Inl]] neq by (simp add: cl_def)
        finally have a4: "files w4 (canonical_path aside) = Some d"
          using f2 by (simp add: ca_def aside_def)
        have "w' = w5" "res = Inl (failed_with (PortFailed e) es)"
          using rs' 1 r1 ex 2 r2 3 Inl 4 5 by simp_all
        then show ?thesis
          using unwind_restore [of False "vhd_path r" aside w4 es w5 d] 5 a4 neq
          by (auto simp: cl_def ca_def aside_def dest: rolled_back_failed_with)
      next
        case r3: (Inr u3)
        have f3: "files w3 ca = Some d" "files w3 cl = Some b"
          using copy [OF 3 [unfolded r3]] f2 a2 neq snap by (auto simp: cl_def cs_def)
        obtain r4 w4 where 4: "start E (g_name r) w3 = (r4, w4)" by fastforce
        have k4: "files w4 = files w3" using start_unchanged [OF 4] by simp
        show ?thesis
        proof (cases r4)
          case (Inl e)
          obtain r5 w5 where 5: "e_terminate E (g_name r) w4 = (r5, w5)" by fastforce
          obtain r6 w6 where 6: "wait_for_disk E (g_name r) (vhd_path r) 0 w5 = (r6, w6)" by fastforce
          obtain es w7 where 7: "unwind E False [URemove (vhd_path r), URename aside (vhd_path r)] w6 = (es, w7)"
            by fastforce
          have a6: "files w6 (canonical_path aside) = Some d"
            using terminate_keeps [OF 5] wait_for_disk_keeps [OF 6] k4 f3 by (simp add: ca_def aside_def)
          have "w' = w7" "res = Inl (failed_with ErrSmokeTest es)"
            using rs' 1 r1 ex 2 r2 3 r3 4 Inl 5 6 7 by simp_all
          then show ?thesis
            using unwind_restore [of True "vhd_path r" aside w6 es w7 d] 7 a6 neq
            by (auto simp: cl_def ca_def aside_def dest: rolled_back_failed_with)
        next
          case r4: (Inr u4)
          obtain r5 w5 where 5: "file_as_snapshot E marshal fmt r root aside
              (''before restoring '' @ sm_id (se_manifest s)) w4 = (r5, w5)" by fastforce
          have w': "w' = w5" "\<exists>x. res = Inr x"
            using rs' 1 r1 ex 2 r2 3 r3 4 r4 5 by (auto split: sum.splits)
          have ca: "canonical_path aside = ca" by (simp add: ca_def aside_def)
          have d1: "canonical_path (join_windows (snapshot_dir root r i) (vhd_name r)) \<noteq> ca"
            "canonical_path (join_windows (snapshot_dir root r i) (vhd_name r)) \<noteq> cl"
            "canonical_path (join_windows (snapshot_dir root r i) snapshot_manifest_name) \<noteq> ca"
            "canonical_path (join_windows (snapshot_dir root r i) snapshot_manifest_name) \<noteq> cl" for i
            using dest [of i] man(1) [of i] by simp_all
          have at: "files w4 (canonical_path aside) = Some d" using f3 k4 ca by simp
          note keeps = file_as_snapshot_keeps [OF 5 at, unfolded ca, OF d1(1) d1(3) man(2)]
          have "files w5 cl = files w4 cl"
            by (rule keeps(2)) (use d1 neq in \<open>auto simp: eq_commute\<close>)
          then show ?thesis using w' keeps(1) f3 k4 by auto
        qed
      qed
    qed
  qed
qed

end

section \<open>Properties\<close>

lemma canonical_plain:
  assumes "\<not> has_prefix p extended_prefix" and "p \<noteq> []" and "\<not> is_sep (last p)"
  shows "canonical_path p = to_lower (replace_char (CHR ''/'') backslash p)"
proof -
  have "last (replace_char (CHR ''/'') backslash p) \<noteq> backslash"
    using assms(2,3) by (auto simp: replace_char_def last_map is_sep_def)
  then have "trim_trailing (replace_char (CHR ''/'') backslash p) = replace_char (CHR ''/'') backslash p"
    using assms(2)
    by (subst trim_trailing.simps) (auto simp: has_suffix_iff replace_char_def)
  then show ?thesis by (simp add: canonical_no_prefix [OF assms(1)])
qed


text \<open>A snapshot under \<open>C:\S\<close>, to be put back on a machine where copying it fails.\<close>

definition with_snapshot :: "bool list \<Rightarrow> bool \<Rightarrow> machine" where
  "with_snapshot faults boots = (one_distro boots faults)\<lparr>
     m_files := [bs ''c:|wsl|ext4.vhdx'' \<mapsto> [1, 2, 3], bs ''c:|s|{1}|old|ext4.vhdx'' \<mapsto> [9]]\<rparr>"

definition old_snapshot :: snapshot_entry where
  "old_snapshot = \<lparr>se_dir = bs ''C:|S|{1}|old'',
     se_manifest = (broken_manifest ''old'' ''{1}'')\<lparr>sm_vhd_file := ''ext4.vhdx''\<rparr>, se_broken = False\<rparr>"

lemma store_path:
  assumes "n \<noteq> []" and "\<not> is_sep (last n)"
  shows "\<exists>x. canonical_path (join_windows (snapshot_dir (bs ''C:|S'') (sample_reg ''Ubuntu'') i) n)
      = bs ''c:|s|'' @ x @ to_lower (replace_char (CHR ''/'') backslash n)
    \<and> (\<exists>y. x = y @ [backslash])"
proof -
  have dir: "join_windows (bs ''C:|S'') (g_guid (sample_reg ''Ubuntu'')) = bs ''C:|S|{1}''" by code_simp
  have ext: "\<exists>z. snapshot_dir (bs ''C:|S'') (sample_reg ''Ubuntu'') i = bs ''C:|S|{1}'' @ z"
    unfolding snapshot_dir_def dir
    by (simp add: join_windows_def Let_def)
      (simp add: trim_right_id bs_def replace_char_def is_sep_def backslash_def)
  then obtain z where z: "snapshot_dir (bs ''C:|S'') (sample_reg ''Ubuntu'') i = bs ''C:|S|{1}'' @ z" ..
  have last: "last (bs ''C:|S|{1}'') = CHR ''}''" by code_simp
  have "\<exists>y. trim_right is_sep (bs ''C:|S|{1}'' @ z) = bs ''C:|S|{1}'' @ y"
  proof (induction z rule: rev_induct)
    case Nil
    have "trim_right is_sep (bs ''C:|S|{1}'') = bs ''C:|S|{1}''" by code_simp
    then show ?case by simp
  next
    case (snoc c z)
    show ?case
    proof (cases "is_sep c")
      case True
      then have "trim_right is_sep (bs ''C:|S|{1}'' @ z @ [c]) = trim_right is_sep (bs ''C:|S|{1}'' @ z)"
        by (simp add: trim_right_def)
      with snoc show ?thesis by simp
    next
      case False
      then have "trim_right is_sep (bs ''C:|S|{1}'' @ z @ [c]) = bs ''C:|S|{1}'' @ z @ [c]"
        by (intro trim_right_id) simp
      then show ?thesis by blast
    qed
  qed
  then obtain y where "trim_right is_sep (bs ''C:|S|{1}'' @ z) = bs ''C:|S|{1}'' @ y" ..
  moreover have split: "bs ''C:|S|{1}'' = bs ''C:|S|'' @ ''{1}''" by code_simp
  ultimately have join: "join_windows (snapshot_dir (bs ''C:|S'') (sample_reg ''Ubuntu'') i) n
      = bs ''C:|S|'' @ (''{1}'' @ y @ [backslash]) @ n"
    using z by (simp add: join_windows_def Let_def)
  have head: "bs ''C:|S|'' = [CHR ''C'', CHR '':'', backslash, CHR ''S'', backslash]" by code_simp
  have low: "to_lower (replace_char (CHR ''/'') backslash (bs ''C:|S|'')) = bs ''c:|s|''" by code_simp
  have "canonical_path (bs ''C:|S|'' @ (''{1}'' @ y @ [backslash]) @ n)
      = to_lower (replace_char (CHR ''/'') backslash (bs ''C:|S|'' @ (''{1}'' @ y @ [backslash]) @ n))"
    by (rule canonical_plain) (use assms in \<open>simp_all add: head has_prefix_def extended_prefix_def backslash_def\<close>)
  also have "\<dots> = bs ''c:|s|'' @ (to_lower (replace_char (CHR ''/'') backslash (''{1}'' @ y)) @ [backslash])
      @ to_lower (replace_char (CHR ''/'') backslash n)"
    using low by (simp add: replace_char_def)
  finally show ?thesis unfolding join by blast
qed


text \<open>When the replaced disk has been moved into the snapshot store and only its manifest cannot
  be written, the restore reports that the disk is still beside the live one, but it is not: it
  lies in a folder without a manifest, which no command restores from.\<close>

theorem replaced_disk_misreported:
  "case restore machine_env (\<lambda>_. []) (\<lambda>_. ''now'') (sample_reg ''Ubuntu'') old_snapshot
      (bs ''C:|S'') True True (with_snapshot [False, False, False, False, False, False, True] True) of
     (res, w') \<Rightarrow> res = Inr (NotFiled ''fault'')
       \<and> m_files w' (bs ''c:|wsl|ext4.vhdx.wslkit-before-restore'') = None
       \<and> m_files w' (bs ''c:|s|{1}|now|ext4.vhdx'') = Some [1, 2, 3]
       \<and> m_files w' (bs ''c:|s|{1}|now|wslkit-snapshot.json'') = None"
  by code_simp

end
