(* ===== verification/DiskCompact.thy ===== *)
theory DiskCompact
  imports DiskSnapshot GoText
begin

text \<open>
  \<open>internal/disk/trim.go\<close> and \<open>compact.go\<close>: asking the guest to give up its free blocks and
  rewriting a disk without them. Rewriting is irreversible and must not happen to a disk
  something else holds; a distribution that was up is started again whatever happened.
\<close>

section \<open>Trim\<close>

definition fstrim_path :: string where "fstrim_path = ''/sbin/fstrim''"
definition trim_mount :: string where "trim_mount = ''/''"

record trim_result =
  tr_bytes :: "u64 option"
  tr_used_fallback :: bool

definition plan_trim :: "registration \<Rightarrow> disk_error + plan" where
  "plan_trim r = (if g_version r \<noteq> 2 then Inl ErrNotWSL2 else Inr [plain_step RunTrim])"

definition rejects_verbose :: "string \<Rightarrow> bool" where
  "rejects_verbose stderr =
     (let s = to_lower stderr
      in contains s ''unrecognized option'' \<or> contains s ''invalid option'')"

definition parse_trimmed_bytes :: "string \<Rightarrow> u64 option" where
  "parse_trimmed_bytes out =
     (case last_index_sub out ''bytes'' of
        None \<Rightarrow> None
      | Some idx \<Rightarrow>
          (let upto = trim_right (\<lambda>c. c = CHR '' '') (take idx out);
               digits = rev (takeWhile is_digit (rev upto))
           in if digits = [] then None else map_option of_nat (parse_uint 64 digits)))"

definition trim_outcome :: "bool \<Rightarrow> command_result \<Rightarrow> disk_error + trim_result" where
  "trim_outcome fallback out =
     (if cr_exit_code out \<noteq> 0 then Inl (PortFailed (one_line (cr_stderr out)))
      else Inr \<lparr>tr_bytes = parse_trimmed_bytes (cr_stdout out), tr_used_fallback = fallback\<rparr>)"

definition trim :: "'w env \<Rightarrow> registration \<Rightarrow> 'w \<Rightarrow> (disk_error + trim_result) \<times> 'w" where
  "trim E r w =
     (case e_run_as_root E (g_name r) [fstrim_path, ''-v'', trim_mount] w of
        (Inl e, w1) \<Rightarrow> (Inl (PortFailed e), w1)
      | (Inr out, w1) \<Rightarrow>
          if cr_exit_code out \<noteq> 0 \<and> rejects_verbose (cr_stderr out)
          then (case e_run_as_root E (g_name r) [fstrim_path, trim_mount] w1 of
                  (Inl e, w2) \<Rightarrow> (Inl (PortFailed e), w2)
                | (Inr out2, w2) \<Rightarrow> (trim_outcome True out2, w2))
          else (trim_outcome False out, w1))"

section \<open>Compact\<close>

record compact_options =
  co_trim :: bool
  co_shutdown :: bool
  co_restart :: bool
  co_unlock_timeout :: int
  co_running_before :: "string list"   \<comment> \<open>the names whose entry in the map is true\<close>

record compact_target =
  ct_reg :: registration
  ct_path :: string

record compact_result =
  kr_before :: "u64 option"
  kr_after :: "u64 option"
  kr_trim :: "trim_result option"
  kr_err :: "disk_error option"

definition is_named :: "compact_target \<Rightarrow> bool" where
  "is_named t \<longleftrightarrow> g_name (ct_reg t) \<noteq> []"

definition target_label :: "compact_target \<Rightarrow> string" where
  "target_label t = (if is_named t then g_name (ct_reg t) else ct_path t)"

definition disk_path :: "compact_target \<Rightarrow> string" where
  "disk_path t = (if is_named t then vhd_path (ct_reg t) else ct_path t)"

definition reclaimed :: "compact_result \<Rightarrow> u64 option" where
  "reclaimed res =
     (case (kr_before res, kr_after res) of
        (Some b, Some a) \<Rightarrow> Some (if b \<le> a then 0 else b - a)
      | _ \<Rightarrow> None)"

definition plan_compact :: "'w env \<Rightarrow> compact_target \<Rightarrow> compact_options \<Rightarrow> 'w \<Rightarrow> disk_error + plan" where
  "plan_compact E t opts w =
     (let path = disk_path t
      in if is_named t \<and> g_version (ct_reg t) \<noteq> 2 then Inl ErrNotWSL2
         else if path = [] then Inl ErrNotVHDX
         else if \<not> has_suffix (to_lower path) ''.vhdx'' then Inl ErrNotVHDX
         else if \<not> e_exists E path w then Inl ErrRefused
         else Inr
           ((if is_named t
             then (if co_trim opts then [plain_step RunTrim] else [])
                  @ [plain_step (if co_shutdown opts then ShutWSLDown else StopAndWait)]
             else [])
            @ [irreversible_step (CompactFile path)]
            @ (if is_named t \<and> co_restart opts then [plain_step StartAgain] else [])))"

definition release :: "'w env \<Rightarrow> registration \<Rightarrow> compact_options \<Rightarrow> string \<Rightarrow> 'w \<Rightarrow> disk_error option \<times> 'w" where
  "release E r opts path w =
     (case (if co_shutdown opts then e_shutdown E w else e_terminate E (g_name r) w) of
        (Inl e, w1) \<Rightarrow> (Some (PortFailed e), w1)
      | (Inr _, w1) \<Rightarrow> wait_for_disk E (g_name r) path (co_unlock_timeout opts) w1)"

definition no_result :: compact_result where
  "no_result = \<lparr>kr_before = None, kr_after = None, kr_trim = None, kr_err = None\<rparr>"

definition size_if_measured :: "'w env \<Rightarrow> string \<Rightarrow> 'w \<Rightarrow> u64 option" where
  "size_if_measured E path w = (case e_size_on_disk E path w of Inr n \<Rightarrow> Some n | Inl _ \<Rightarrow> None)"

text \<open>The body from the release on, and the body with the trim; \<open>was_running\<close> is the variable the
  deferred restart reads.\<close>

definition compact_file :: "'w env \<Rightarrow> string \<Rightarrow> compact_result \<Rightarrow> 'w \<Rightarrow> compact_result \<times> 'w" where
  "compact_file E path res w =
     (let before = size_if_measured E path w; res1 = res\<lparr>kr_before := before\<rparr>
      in case e_compact E path w of
           (Inl e, w1) \<Rightarrow> (res1\<lparr>kr_err := Some (PortFailed e)\<rparr>, w1)
         | (Inr _, w1) \<Rightarrow>
             (let after = size_if_measured E path w1; res2 = res1\<lparr>kr_after := after\<rparr>
              in case (before, after) of
                   (Some b, Some a) \<Rightarrow> ((if b < a then res2\<lparr>kr_err := Some Grew\<rparr> else res2), w1)
                 | _ \<Rightarrow> (res2, w1)))"

definition compact_released ::
  "'w env \<Rightarrow> compact_target \<Rightarrow> compact_options \<Rightarrow> compact_result \<Rightarrow> 'w \<Rightarrow> compact_result \<times> 'w"
where
  "compact_released E t opts res w =
     (let path = disk_path t
      in case (if is_named t then release E (ct_reg t) opts path w
               else if e_locked E path w = Inr True then (Some ErrBusy, w) else (None, w)) of
           (Some e, w1) \<Rightarrow> (res\<lparr>kr_err := Some e\<rparr>, w1)
         | (None, w1) \<Rightarrow> compact_file E path res w1)"

definition compact_body ::
  "'w env \<Rightarrow> compact_target \<Rightarrow> compact_options \<Rightarrow> 'w \<Rightarrow> compact_result \<times> bool \<times> 'w"
where
  "compact_body E t opts w =
     (let was_running = g_name (ct_reg t) \<in> set (co_running_before opts)
      in if is_named t \<and> co_trim opts
         then (case trim E (ct_reg t) w of
                 (Inl e, w1) \<Rightarrow> (no_result\<lparr>kr_err := Some e\<rparr>, was_running, w1)
               | (Inr tr, w1) \<Rightarrow>
                   (case compact_released E t opts (no_result\<lparr>kr_trim := Some tr\<rparr>) w1 of
                      (res, w2) \<Rightarrow> (res, True, w2)))
         else (case compact_released E t opts no_result w of (res, w1) \<Rightarrow> (res, was_running, w1)))"

definition compact ::
  "'w env \<Rightarrow> compact_target \<Rightarrow> compact_options \<Rightarrow> 'w \<Rightarrow> compact_result \<times> 'w"
where
  "compact E t opts w =
     (case compact_body E t opts w of
        (res, was_running, w1) \<Rightarrow>
          if \<not> is_named t \<or> \<not> co_restart opts \<or> \<not> was_running then (res, w1)
          else (case start E (g_name (ct_reg t)) w1 of
                  (Inl e, w2) \<Rightarrow>
                    ((if kr_err res = None then res\<lparr>kr_err := Some NotStartedAgain\<rparr> else res), w2)
                | (Inr _, w2) \<Rightarrow> (res, w2)))"

section \<open>Only a free disk is rewritten\<close>

text \<open>None of the steps around the rewriting uses it.\<close>

lemma frame_compact [simp]:
  "wait_loop n (E\<lparr>e_compact := c\<rparr>) path h dl w = wait_loop n E path h dl w"
  "others_running (E\<lparr>e_compact := c\<rparr>) nm w = others_running E nm w"
  "wait_for_disk (E\<lparr>e_compact := c\<rparr>) nm path t w = wait_for_disk E nm path t w"
  "release (E\<lparr>e_compact := c\<rparr>) r opts path w = release E r opts path w"
  "trim (E\<lparr>e_compact := c\<rparr>) r w = trim E r w"
  "start (E\<lparr>e_compact := c\<rparr>) nm w = start E nm w"
  "size_if_measured (E\<lparr>e_compact := c\<rparr>) path w = size_if_measured E path w"
proof -
  show w: "wait_loop n (E\<lparr>e_compact := c\<rparr>) path h dl w = wait_loop n E path h dl w" for n path h dl w
    by (induction n arbitrary: h w) (simp_all add: wait_loop_Suc)
  show o: "others_running (E\<lparr>e_compact := c\<rparr>) nm w = others_running E nm w" for nm w
    by (simp add: others_running_def)
  show wf: "wait_for_disk (E\<lparr>e_compact := c\<rparr>) nm path t w = wait_for_disk E nm path t w" for nm path t w
    by (simp add: wait_for_disk_def Let_def o w)
  show "release (E\<lparr>e_compact := c\<rparr>) r opts path w = release E r opts path w"
    by (simp add: release_def wf split: sum.split prod.split)
  show "trim (E\<lparr>e_compact := c\<rparr>) r w = trim E r w" by (simp add: trim_def split: sum.split prod.split)
  show "start (E\<lparr>e_compact := c\<rparr>) nm w = start E nm w" by (simp add: start_def)
  show "size_if_measured (E\<lparr>e_compact := c\<rparr>) path w = size_if_measured E path w"
    by (simp add: size_if_measured_def)
qed

lemma release_free: "release E r opts path w = (None, w1) \<Longrightarrow> e_locked E path w1 = Inr False"
  by (auto simp: release_def wait_for_disk_def Let_def split: prod.splits sum.splits if_splits
      dest: wait_loop_free)

lemma compact_file_cong:
  "c path w = e_compact E path w \<Longrightarrow>
     compact_file (E\<lparr>e_compact := c\<rparr>) path res w = compact_file E path res w"
  by (simp add: compact_file_def Let_def split: sum.split prod.split)

lemma compact_released_cong:
  assumes named: "is_named t"
    and same: "\<And>w. e_locked E (disk_path t) w = Inr False \<Longrightarrow> c (disk_path t) w = e_compact E (disk_path t) w"
  shows "compact_released (E\<lparr>e_compact := c\<rparr>) t opts res w = compact_released E t opts res w"
proof (cases "release E (ct_reg t) opts (disk_path t) w")
  case (Pair r w1)
  then show ?thesis
    by (cases r) (simp_all add: compact_released_def named compact_file_cong same release_free)
qed

text \<open>C19: Compacting a distribution's disk rewrites it only while it is free. Whatever the
  rewriting would do to a disk that is still held, or that the host could not answer for,
  replacing it there by anything else changes neither the result nor the machine: with or
  without a shutdown, with or without a trim, and whatever any of the commands answers.\<close>

theorem compact_only_free_disks:
  assumes "is_named t"
    and "\<And>w. e_locked E (disk_path t) w = Inr False \<Longrightarrow> c (disk_path t) w = e_compact E (disk_path t) w"
  shows "compact (E\<lparr>e_compact := c\<rparr>) t opts w = compact E t opts w"
proof -
  have "compact_released (E\<lparr>e_compact := c\<rparr>) t opts res w = compact_released E t opts res w" for res w
    using assms by (rule compact_released_cong)
  then show ?thesis
    by (simp only: compact_def compact_body_def frame_compact)
qed

theorem compact_only_free_disks_witness:
  "compact (machine_env\<lparr>e_compact := (\<lambda>p w. if m_running w \<noteq> [] \<or> m_clock w < m_held_until w
       then (Inr (), w\<lparr>m_files := Map.empty\<rparr>) else e_compact machine_env p w)\<rparr>)
     \<lparr>ct_reg = sample_reg ''Ubuntu'', ct_path = []\<rparr>
     \<lparr>co_trim = True, co_shutdown = False, co_restart = True, co_unlock_timeout = 0, co_running_before = []\<rparr>
     (one_distro True [])
   = compact machine_env \<lparr>ct_reg = sample_reg ''Ubuntu'', ct_path = []\<rparr>
     \<lparr>co_trim = True, co_shutdown = False, co_restart = True, co_unlock_timeout = 0, co_running_before = []\<rparr>
     (one_distro True [])"
  by (rule compact_only_free_disks) (auto simp: is_named_def sample_reg_def machine_env_fields)

end
