(* ===== verification/DiskRebuild.thy ===== *)
theory DiskRebuild
  imports DiskCompact
begin

text \<open>
  \<open>internal/disk/rebuild.go\<close>: exporting a distribution, importing it again into a new disk and
  putting its settings back. The archive is the only copy in between. The format of the time in
  the archive's name is an argument.
\<close>

record rebuild_options =
  ro_work_dir :: string
  ro_keep_archive :: bool
  ro_restart :: bool
  ro_running_before :: "string list"   \<comment> \<open>the names whose entry in the map is true\<close>

record rebuild_result =
  rb_before :: "u64 option"
  rb_after :: "u64 option"
  rb_archive :: string
  rb_archive_kept :: bool
  rb_vhd_path :: string
  rb_restored :: "string list"

definition rebuild_reclaimed :: "rebuild_result \<Rightarrow> u64 option" where
  "rebuild_reclaimed res =
     (case (rb_before res, rb_after res) of
        (Some b, Some a) \<Rightarrow> Some (if a < b then b - a else 0)
      | _ \<Rightarrow> None)"

text \<open>\<open>equalFoldASCII\<close>: byte by byte, after comparing the lengths.\<close>

fun equal_fold_loop :: "string \<Rightarrow> string \<Rightarrow> bool" where
  "equal_fold_loop (x # xs) (y # ys) = (lower_char x = lower_char y \<and> equal_fold_loop xs ys)"
| "equal_fold_loop xs ys = True"

definition equal_fold_ascii :: "string \<Rightarrow> string \<Rightarrow> bool" where
  "equal_fold_ascii a b \<longleftrightarrow> length a = length b \<and> equal_fold_loop a b"

lemma equal_fold_ascii_iff: "equal_fold_ascii a b \<longleftrightarrow> equal_fold a b"
proof -
  have "length a = length b \<Longrightarrow> equal_fold_loop a b = (map lower_char a = map lower_char b)"
    by (induction a b rule: list_induct2) auto
  then show ?thesis
    unfolding equal_fold_ascii_def equal_fold_def to_lower_def by (metis length_map)
qed

section \<open>Planning\<close>

definition rebuild_archive_path ::
  "'w env \<Rightarrow> (int \<Rightarrow> string) \<Rightarrow> registration \<Rightarrow> rebuild_options \<Rightarrow> 'w \<Rightarrow> string"
where
  "rebuild_archive_path E fmt r opts w =
     (let dir = (if ro_work_dir opts = [] then dir_of (vhd_path r) else ro_work_dir opts)
      in join_windows dir (''wslkit-rebuild-'' @ g_guid r @ ''-'' @ fmt (e_now E w) @ ''.tar''))"

definition check_archive_room :: "'w env \<Rightarrow> string \<Rightarrow> string \<Rightarrow> 'w \<Rightarrow> disk_error option" where
  "check_archive_room E source archive w =
     (case e_size_on_disk E source w of
        Inl e \<Rightarrow> Some ErrRefused
      | Inr n \<Rightarrow>
          (case e_volume E (dir_of archive) w of
             Inl e \<Rightarrow> Some ErrRefused
           | Inr vol \<Rightarrow> if vol_free vol < n + free_space_margin then Some ErrRefused else None))"

definition plan_rebuild ::
  "'w env \<Rightarrow> (int \<Rightarrow> string) \<Rightarrow> registration \<Rightarrow> rebuild_options \<Rightarrow> bool \<Rightarrow> bool \<Rightarrow> 'w
     \<Rightarrow> disk_error + plan"
where
  "plan_rebuild E fmt r opts running running_known w =
     (let source = vhd_path r; archive = rebuild_archive_path E fmt r opts w
      in if g_version r \<noteq> 2 then Inl ErrRefused
         else if source = [] then Inl ErrRefused
         else if \<not> e_exists E source w then Inl ErrRefused
         else if \<not> running_known then Inl ErrRefused
         else if e_exists E archive w then Inl ErrRefused
         else (case check_archive_room E source archive w of
                 Some e \<Rightarrow> Inl e
               | None \<Rightarrow> Inr
                   ((if running then [plain_step StopAndWait] else [])
                    @ [plain_step (ExportTo archive), irreversible_step Unregister,
                       plain_step (ImportFrom archive), plain_step RestoreSettings, plain_step StartToCheck]
                    @ (if ro_keep_archive opts then [] else [irreversible_step (DeleteFile archive)]))))"

section \<open>Rebuilding\<close>

definition restored_names :: "manifest \<Rightarrow> string list" where
  "restored_names m =
     (if 0 \<le> g_default_uid (mf_registration m) then [''default user''] else [])
     @ (if 0 \<le> g_flags (mf_registration m) then [''flags''] else [])
     @ (if mf_was_default m then [''default distribution''] else [])"

definition rebuild_manifest :: "registration \<Rightarrow> string option \<Rightarrow> int \<Rightarrow> manifest" where
  "rebuild_manifest r def now =
     (let d = (case def of Some g \<Rightarrow> g | None \<Rightarrow> [])
      in \<lparr>mf_schema = manifest_schema, mf_trashed_at = now,
          mf_was_default = (d \<noteq> [] \<and> equal_fold_ascii d (g_guid r)),
          mf_registration = r, mf_files = [], mf_vhd_file = base_of (vhd_path r)\<rparr>)"

text \<open>The end of it: from the smoke test on.\<close>

definition rebuild_finish ::
  "'w env \<Rightarrow> registration \<Rightarrow> rebuild_options \<Rightarrow> rebuild_result \<Rightarrow> 'w
     \<Rightarrow> (rebuild_result \<times> disk_error option) \<times> 'w"
where
  "rebuild_finish E r opts res w =
     (case start E (g_name r) w of
        (Inl e, w1) \<Rightarrow> ((res, Some ErrSmokeTest), w1)
      | (Inr _, w1) \<Rightarrow>
          (case (if ro_keep_archive opts then (Inr (), w1) else e_remove E (rb_archive res) w1) of
             (Inl e, w2) \<Rightarrow> ((res, Some (PortFailed e)), w2)
           | (Inr _, w2) \<Rightarrow>
               (let res1 = (if ro_keep_archive opts then res else res\<lparr>rb_archive_kept := False\<rparr>)
                in if \<not> ro_restart opts \<or> g_name r \<notin> set (ro_running_before opts)
                   then ((res1, None), snd (e_terminate E (g_name r) w2))
                   else ((res1, None), w2))))"

text \<open>From the import on: the new registration, and its settings.\<close>

definition rebuild_register ::
  "'w env \<Rightarrow> registration \<Rightarrow> rebuild_options \<Rightarrow> manifest \<Rightarrow> rebuild_result \<Rightarrow> 'w
     \<Rightarrow> (rebuild_result \<times> disk_error option) \<times> 'w"
where
  "rebuild_register E r opts man res w =
     (case e_distros E w of
        Inl e \<Rightarrow> ((res, Some (PortFailed e)), w)
      | Inr list \<Rightarrow>
          (case resolve list (g_name r) of
             Inl err \<Rightarrow> ((res, Some err), w)
           | Inr fresh \<Rightarrow>
               (let res1 = res\<lparr>rb_vhd_path := vhd_path fresh,
                                rb_after := size_if_measured E (vhd_path fresh) w\<rparr>
                in case restore_settings E (g_guid fresh) man w of
                     (n, w1) \<Rightarrow>
                       if n > 0 then ((res1, Some (Unmet ''settings'')), w1)
                       else rebuild_finish E r opts (res1\<lparr>rb_restored := restored_names man\<rparr>) w1)))"

definition rebuild ::
  "'w env \<Rightarrow> (int \<Rightarrow> string) \<Rightarrow> registration \<Rightarrow> rebuild_options \<Rightarrow> 'w
     \<Rightarrow> (rebuild_result \<times> disk_error option) \<times> 'w"
where
  "rebuild E fmt r opts w =
     (let source = vhd_path r; archive = rebuild_archive_path E fmt r opts w;
          res = \<lparr>rb_before = size_if_measured E source w, rb_after = None, rb_archive = archive,
                 rb_archive_kept = False, rb_vhd_path = [], rb_restored = []\<rparr>
      in case e_default E w of
           Inl e \<Rightarrow> ((res, Some (PortFailed e)), w)
         | Inr def \<Rightarrow>
         (let man = rebuild_manifest r def (e_now E w)
          in case (if g_name r \<in> set (ro_running_before opts) then e_terminate E (g_name r) w
                   else (Inr (), w)) of
           (Inl e, w1) \<Rightarrow> ((res, Some (PortFailed e)), w1)
         | (Inr _, w1) \<Rightarrow>
         (case e_mkdir_all E (dir_of archive) w1 of
           (Inl e, w2) \<Rightarrow> ((res, Some (PortFailed e)), w2)
         | (Inr _, w2) \<Rightarrow>
         (case e_export E (g_name r) archive w2 of
           (Inl e, w3) \<Rightarrow> ((res, Some (PortFailed e)), snd (e_remove E archive w3))
         | (Inr _, w3) \<Rightarrow>
         (if \<not> e_exists E archive w3 then ((res, Some (PortFailed ''the archive is not there'')), w3)
          else let kept = res\<lparr>rb_archive_kept := True\<rparr>
          in case e_unregister E (g_name r) w3 of
           (Inl e, w4) \<Rightarrow> ((kept, Some (PortFailed e)), w4)
         | (Inr _, w4) \<Rightarrow>
         (case e_import_tar E (g_name r) (g_base_path r) archive w4 of
           (Inl e, w5) \<Rightarrow> ((kept, Some (PortFailed e)), w5)
         | (Inr _, w5) \<Rightarrow> rebuild_register E r opts man kept w5))))))"

section \<open>The distribution on its way\<close>

context ports
begin

lemma restore_dword_keeps:
  "restore_dword E g n v w = (k, w') \<Longrightarrow> files w' = files w \<and> regs w' = regs w"
  by (auto simp: restore_dword_def split: if_splits prod.splits sum.splits dest: write_dword_keeps)

lemma restore_settings_keeps:
  "restore_settings E g m w = (k, w') \<Longrightarrow> files w' = files w \<and> regs w' = regs w"
  by (auto simp: restore_settings_def split: if_splits prod.splits sum.splits
      dest!: restore_dword_keeps set_default_keeps)

text \<open>From the smoke test on, the archive goes only when the distribution has started.\<close>

lemma rebuild_finish_keeps:
  assumes "rebuild_finish E r opts res w = ((res', err), w')" and "rb_archive_kept res"
    and "canonical_path (rb_archive res) \<noteq> p"
  shows "rb_archive res' = rb_archive res \<and> files w' p = files w p
    \<and> (rb_archive_kept res' \<longrightarrow> files w' = files w)
    \<and> (\<not> rb_archive_kept res' \<longrightarrow> err = None)"
  using assms unfolding rebuild_finish_def
  by (auto simp: Let_def split: prod.splits sum.splits if_splits
      dest!: start_unchanged remove remove_err)
    (metis prod.collapse terminate_keeps fun_upd_other)+

lemma rebuild_register_keeps:
  assumes "rebuild_register E r opts man res w = ((res', err), w')" and "rb_archive_kept res"
    and "canonical_path (rb_archive res) \<noteq> p"
  shows "rb_archive res' = rb_archive res \<and> files w' p = files w p
    \<and> (rb_archive_kept res' \<longrightarrow> files w' = files w)
    \<and> (\<not> rb_archive_kept res' \<longrightarrow> err = None)"
proof (cases "\<exists>list fresh w1. e_distros E w = Inr list \<and> resolve list (g_name r) = Inr fresh
    \<and> restore_settings E (g_guid fresh) man w = (0, w1)")
  case True
  then obtain list fresh w1 where d: "e_distros E w = Inr list" "resolve list (g_name r) = Inr fresh"
    and s: "restore_settings E (g_guid fresh) man w = (0, w1)" by blast
  let ?res1 = "res\<lparr>rb_vhd_path := vhd_path fresh,
    rb_after := size_if_measured E (vhd_path fresh) w, rb_restored := restored_names man\<rparr>"
  have "rebuild_finish E r opts ?res1 w1 = ((res', err), w')"
    using assms(1) d s by (simp add: rebuild_register_def)
  from rebuild_finish_keeps [OF this, of p] show ?thesis
    using assms(2,3) restore_settings_keeps [OF s] by simp
next
  case False
  with assms show ?thesis unfolding rebuild_register_def
    by (auto simp: Let_def split: sum.splits prod.splits if_splits dest!: restore_settings_keeps)
qed

end

text \<open>What there is of the distribution after a rebuild, however it ended.\<close>

definition survives ::
  "(string \<Rightarrow> bytes option) \<Rightarrow> string \<Rightarrow> string \<Rightarrow> string \<Rightarrow> bytes \<Rightarrow> rebuild_result \<Rightarrow> disk_error option \<Rightarrow> bool"
where
  "survives fs archive old new b res err \<longleftrightarrow>
     (if rb_archive_kept res then fs archive = Some b
      else if err = None then fs new = Some b else fs old = Some b)
     \<and> (err = None \<longrightarrow> fs new = Some b)"

context ports
begin

lemma rebuild_outcome:
  assumes rb: "rebuild E fmt r opts w = ((res, err), w')"
    and disk: "files w (canonical_path (vhd_path r)) = Some b"
    and uniq: "\<And>g m. regs w (g, ''DistributionName'') = Some m \<Longrightarrow> equal_fold m (g_name r) \<Longrightarrow>
        canonical_path (registered_disk (regs w) g) = canonical_path (vhd_path r)"
    and a: "a = rebuild_archive_path E fmt r opts w"
    and as: "canonical_path a \<noteq> canonical_path (vhd_path r)"
    and an: "canonical_path a \<noteq> canonical_path (join_windows (g_base_path r) default_vhd_name)"
  shows "rb_archive res = a \<and> survives (files w') (canonical_path a) (canonical_path (vhd_path r))
    (canonical_path (join_windows (g_base_path r) default_vhd_name)) b res err"
proof -
  let ?S = "canonical_path (vhd_path r)" and ?A = "canonical_path a"
  let ?F = "canonical_path (join_windows (g_base_path r) default_vhd_name)"
  let ?res = "\<lparr>rb_before = size_if_measured E (vhd_path r) w, rb_after = None, rb_archive = a,
                 rb_archive_kept = False, rb_vhd_path = [], rb_restored = []\<rparr>"
  let ?kept = "?res\<lparr>rb_archive_kept := True\<rparr>"

  show ?thesis
  proof (cases "e_default E w")
    case (Inl e)
    then show ?thesis using rb a disk by (auto simp: rebuild_def survives_def Let_def)
  next
    case (Inr def)
    obtain r1 w1 where 1: "(if g_name r \<in> set (ro_running_before opts) then e_terminate E (g_name r) w
        else (Inr (), w)) = (r1, w1)" by fastforce
    then have k1: "files w1 = files w \<and> regs w1 = regs w"
      by (auto split: if_splits dest: terminate_keeps)
    obtain r2 w2 where 2: "e_mkdir_all E (dir_of a) w1 = (r2, w2)" by fastforce
    then have k2: "files w2 = files w \<and> regs w2 = regs w"
      using k1 mkdir_all mkdir_all_regs by metis
    obtain r3 w3 where 3: "e_export E (g_name r) a w2 = (r3, w3)" by fastforce
    show ?thesis
    proof (cases "is_err r1 \<or> is_err r2 \<or> is_err r3")
      case True
      have r3: "r3 = Inl e \<Longrightarrow> files w3 ?S = Some b" for e
        using export_err 3 k2 disk as by metis
      have rm: "r3 = Inl e \<Longrightarrow> files (snd (e_remove E a w3)) ?S = Some b" for e
        using r3 as remove remove_err [of a w3] by (cases "e_remove E a w3"; cases "fst (e_remove E a w3)") auto
      show ?thesis
        using rb a Inr 1 2 3 True disk k1 k2 rm
        by (cases r1; cases r2; cases r3) (auto simp: rebuild_def survives_def Let_def)
    next
      case False
      then obtain u1 u2 u3 where ok: "r1 = Inr u1" "r2 = Inr u2" "r3 = Inr u3" by (metis sum.exhaust)
      obtain g m b' where "regs w2 (g, ''DistributionName'') = Some m" "equal_fold m (g_name r)"
        "files w2 (canonical_path (registered_disk (regs w2) g)) = Some b'"
        and f3: "files w3 = (files w2)(?A \<mapsto> b')"
        using export [OF 3 [unfolded ok(3)]] by blast
      then have b': "b' = b" using uniq k2 disk by simp
      have k3: "regs w3 = regs w" "files w3 ?A = Some b" "files w3 ?S = Some b"
        using export [OF 3 [unfolded ok(3)]] k2 f3 b' disk as by auto
      have ex: "e_exists E a w3" using k3(2) by (intro exists_file) simp
      obtain r4 w4 where 4: "e_unregister E (g_name r) w3 = (r4, w4)" by fastforce
      have k4: "files w4 ?A = Some b"
      proof (cases r4)
        case (Inl e) then show ?thesis using unregister_err 4 k3 by metis
      next
        case (Inr u)
        from unregister_files [OF 4 [unfolded Inr], of ?A] show ?thesis
          using k3 uniq as by auto
      qed
      obtain r5 w5 where 5: "e_import_tar E (g_name r) (g_base_path r) a w4 = (r5, w5)" by fastforce
      have k5: "files w5 ?A = Some b" using import_tar [OF 5 an] k4 by simp
      show ?thesis
      proof (cases "is_err r4 \<or> is_err r5")
        case True
        then show ?thesis
          using rb a Inr 1 2 3 4 5 ok ex k4 k5
          by (cases r4; cases r5) (auto simp: rebuild_def survives_def Let_def)
      next
        case False
        then obtain u4 u5 where ok': "r4 = Inr u4" "r5 = Inr u5" by (metis sum.exhaust)
        have f5: "files w5 ?F = Some b" using import_tar_ok [OF 5 [unfolded ok'(2)]] k4 by simp
        have "rebuild_register E r opts (rebuild_manifest r def (e_now E w)) ?kept w5 = ((res, err), w')"
          using rb a Inr 1 2 3 4 5 ok ok' ex by (simp add: rebuild_def Let_def)
        from rebuild_register_keeps [OF this, of ?F] show ?thesis
          using an f5 k5 by (auto simp: survives_def)
      qed
    qed
  qed
qed

end



end
