(* ===== verification/DiskOrphans.thy ===== *)
theory DiskOrphans
  imports DiskRebuild
begin

text \<open>
  \<open>internal/disk/orphans.go\<close>: finding the virtual disks no registration claims, and deleting
  those the user names.
\<close>

section \<open>Scanning\<close>

definition default_scan_patterns :: "string list" where
  "default_scan_patterns =
     [bs ''%LOCALAPPDATA%|wsl|*'', bs ''%LOCALAPPDATA%|Packages|*|LocalState'',
      bs ''%LOCALAPPDATA%|Docker|wsl|*'']"

record orphan =
  or_path :: string
  or_owner :: owner
  or_size_on_disk :: "u64 option"

datatype scan_warning = NotExpanded string | NotListed string | TwoWildcards string

definition expand_star :: "'w env \<Rightarrow> string \<Rightarrow> 'w \<Rightarrow> string list \<times> scan_warning list" where
  "expand_star E pattern w =
     (case index_byte pattern (CHR ''*'') of
        None \<Rightarrow> ([pattern], [])
      | Some idx \<Rightarrow>
          (let before = take idx pattern; after = drop (idx + 1) pattern
           in if contains after ''*'' then ([], [TwoWildcards pattern])
              else
                (let parent = trim_right is_sep before; tail = trim_left is_sep after
                 in case e_list E parent ''*'' w of
                      Inl e \<Rightarrow> ([], [NotListed parent])
                    | Inr entries \<Rightarrow>
                        (map (\<lambda>i. if tail = [] then de_path i else join_windows (de_path i) tail)
                           (filter de_is_dir entries), []))))"

definition scan_dirs :: "'w env \<Rightarrow> string \<Rightarrow> 'w \<Rightarrow> string list \<times> scan_warning list" where
  "scan_dirs E pattern w =
     (case e_expand_env E pattern w of
        Inl e \<Rightarrow> ([], [NotExpanded pattern])
      | Inr expanded \<Rightarrow>
          if expanded = [] then ([], [NotExpanded pattern]) else expand_star E expanded w)"

definition is_unclaimed_disk :: "dir_entry \<Rightarrow> string list \<Rightarrow> string list \<Rightarrow> bool" where
  "is_unclaimed_disk entry claimed seen \<longleftrightarrow>
     \<not> de_is_dir entry
     \<and> has_suffix (to_lower (de_path entry)) ''.vhdx''
     \<and> canonical_path (de_path entry) \<notin> set claimed
     \<and> canonical_path (de_path entry) \<notin> set seen"

definition orphan_at :: "'w env \<Rightarrow> string \<Rightarrow> 'w \<Rightarrow> orphan" where
  "orphan_at E p w =
     \<lparr>or_path = p, or_owner = identify_owner p, or_size_on_disk = size_if_measured E p w\<rparr>"

text \<open>The inner loop: the entries of one directory. \<open>seen\<close> grows with what is found.\<close>

fun scan_entries ::
  "'w env \<Rightarrow> string list \<Rightarrow> 'w \<Rightarrow> dir_entry list \<Rightarrow> string list \<Rightarrow> orphan list \<times> string list"
where
  "scan_entries E claimed w [] seen = ([], seen)"
| "scan_entries E claimed w (i # is) seen =
     (if is_unclaimed_disk i claimed seen
      then (case scan_entries E claimed w is (canonical_path (de_path i) # seen) of
              (out, seen') \<Rightarrow> (orphan_at E (de_path i) w # out, seen'))
      else scan_entries E claimed w is seen)"

fun scan_listed ::
  "'w env \<Rightarrow> string list \<Rightarrow> 'w \<Rightarrow> string list \<Rightarrow> string list
     \<Rightarrow> orphan list \<times> scan_warning list \<times> string list"
where
  "scan_listed E claimed w [] seen = ([], [], seen)"
| "scan_listed E claimed w (dir # dirs) seen =
     (case e_list E dir ''*.vhdx'' w of
        Inl e \<Rightarrow>
          (case scan_listed E claimed w dirs seen of
             (out, warns, seen') \<Rightarrow> (out, NotListed dir # warns, seen'))
      | Inr entries \<Rightarrow>
          (case scan_entries E claimed w entries seen of
             (out1, seen1) \<Rightarrow>
               (case scan_listed E claimed w dirs seen1 of
                  (out2, warns, seen') \<Rightarrow> (out1 @ out2, warns, seen'))))"

fun scan_patterns ::
  "'w env \<Rightarrow> string list \<Rightarrow> 'w \<Rightarrow> string list \<Rightarrow> string list \<Rightarrow> orphan list \<times> scan_warning list"
where
  "scan_patterns E claimed w [] seen = ([], [])"
| "scan_patterns E claimed w (p # ps) seen =
     (case scan_dirs E p w of
        (dirs, warns1) \<Rightarrow>
          (case scan_listed E claimed w dirs seen of
             (out1, warns2, seen1) \<Rightarrow>
               (case scan_patterns E claimed w ps seen1 of
                  (out2, warns3) \<Rightarrow> (out1 @ out2, warns1 @ warns2 @ warns3))))"

definition claimed_paths :: "registration list \<Rightarrow> string list" where
  "claimed_paths rs = map (\<lambda>r. canonical_path (vhd_path r)) (filter (\<lambda>r. vhd_path r \<noteq> []) rs)"

definition scan_orphans ::
  "'w env \<Rightarrow> registration list \<Rightarrow> string list \<Rightarrow> 'w \<Rightarrow> orphan list \<times> scan_warning list"
where
  "scan_orphans E rs extra w =
     scan_patterns E (claimed_paths rs) w (default_scan_patterns @ extra) []"

definition total_size :: "orphan list \<Rightarrow> u64" where
  "total_size os = foldl (\<lambda>t x. case or_size_on_disk x of Some n \<Rightarrow> t + n | None \<Rightarrow> t) 0 os"

section \<open>Deleting\<close>

record delete_result =
  dr_path :: string
  dr_deleted :: bool

fun delete_orphans ::
  "'w env \<Rightarrow> (string \<Rightarrow> ('w, unit) cmd) \<Rightarrow> orphan list \<Rightarrow> 'w \<Rightarrow> delete_result list \<times> 'w"
where
  "delete_orphans E rm [] w = ([], w)"
| "delete_orphans E rm (x # xs) w =
     (let p = or_path x;
          (ok, w1) = (case e_locked E p w of
              Inl e \<Rightarrow> (False, w)
            | Inr True \<Rightarrow> (False, w)
            | Inr False \<Rightarrow> (case rm p w of (Inl e, w') \<Rightarrow> (False, w') | (Inr _, w') \<Rightarrow> (True, w')));
          (rest, w2) = delete_orphans E rm xs w1
      in (\<lparr>dr_path = p, dr_deleted = ok\<rparr> # rest, w2))"

section \<open>What a scan finds\<close>

text \<open>What holds of each of the three loops: the canonical paths found extend \<open>seen\<close> by exactly the
  unclaimed disks among the entries, each once.\<close>

definition disk_entry :: "string list \<Rightarrow> dir_entry \<Rightarrow> bool" where
  "disk_entry claimed i \<longleftrightarrow> is_unclaimed_disk i claimed []"

definition finds ::
  "'w env \<Rightarrow> string list \<Rightarrow> 'w \<Rightarrow> dir_entry set \<Rightarrow> string set \<Rightarrow> orphan list \<Rightarrow> bool"
where
  "finds E claimed w entries seen out \<longleftrightarrow>
     distinct (map (canonical_path \<circ> or_path) out)
     \<and> (canonical_path \<circ> or_path) ` set out =
         (canonical_path \<circ> de_path) ` {i \<in> entries. disk_entry claimed i} - seen
     \<and> (\<forall>x \<in> set out. \<exists>i \<in> entries. disk_entry claimed i \<and> x = orphan_at E (de_path i) w)"

lemma finds_Nil [simp]: "finds E claimed w {} seen []"
  by (simp add: finds_def)

lemma finds_append:
  assumes "finds E claimed w A seen out1" "finds E claimed w B seen1 out2"
    and "seen1 = seen \<union> (canonical_path \<circ> or_path) ` set out1"
  shows "finds E claimed w (A \<union> B) seen (out1 @ out2)"
proof -
  let ?c = "canonical_path \<circ> or_path"
  let ?D = "\<lambda>X. (canonical_path \<circ> de_path) ` {i \<in> X. disk_entry claimed i}"
  have 1: "distinct (map ?c out1)" "?c ` set out1 = ?D A - seen"
    "\<forall>x \<in> set out1. \<exists>i \<in> A. disk_entry claimed i \<and> x = orphan_at E (de_path i) w"
    using assms(1) unfolding finds_def by blast+
  have 2: "distinct (map ?c out2)" "?c ` set out2 = ?D B - seen1"
    "\<forall>x \<in> set out2. \<exists>i \<in> B. disk_entry claimed i \<and> x = orphan_at E (de_path i) w"
    using assms(2) unfolding finds_def by blast+
  have D: "?D (A \<union> B) = ?D A \<union> ?D B" by auto
  have "?c ` set out1 \<inter> ?c ` set out2 = {}" unfolding 2(2) assms(3) by blast
  then have "distinct (map ?c (out1 @ out2))"
    using 1(1) 2(1) by (simp only: map_append distinct_append set_map)
  moreover have "?c ` set (out1 @ out2) = ?D (A \<union> B) - seen"
    unfolding D set_append image_Un 2(2) assms(3) 1(2) by blast
  moreover have "\<forall>x \<in> set (out1 @ out2). \<exists>i \<in> A \<union> B. disk_entry claimed i \<and> x = orphan_at E (de_path i) w"
    using 1(3) 2(3) by auto
  ultimately show ?thesis unfolding finds_def by blast
qed

lemma scan_entries_finds:
  "scan_entries E claimed w is seen = (out, seen') \<Longrightarrow>
     set seen' = set seen \<union> (canonical_path \<circ> or_path) ` set out
     \<and> finds E claimed w (set is) (set seen) out"
proof (induction "is" arbitrary: seen out)
  case (Cons i "is")
  show ?case
  proof (cases "is_unclaimed_disk i claimed seen")
    case True
    then obtain out1 where o: "scan_entries E claimed w is (canonical_path (de_path i) # seen) = (out1, seen')"
      and out: "out = orphan_at E (de_path i) w # out1" using Cons.prems by (auto split: prod.splits)
    have one: "finds E claimed w {i} (set seen) [orphan_at E (de_path i) w]"
      using True by (auto simp: finds_def disk_entry_def is_unclaimed_disk_def orphan_at_def)
    have "finds E claimed w ({i} \<union> set is) (set seen) ([orphan_at E (de_path i) w] @ out1)"
      by (rule finds_append [OF one]) (use Cons.IH [OF o] in \<open>auto simp: orphan_at_def\<close>)
    then show ?thesis using Cons.IH [OF o] out by (auto simp: orphan_at_def)
  next
    case False
    then have o: "scan_entries E claimed w is seen = (out, seen')" using Cons.prems by simp
    have "finds E claimed w {i} (set seen) []"
      using False by (auto simp: finds_def disk_entry_def is_unclaimed_disk_def)
    from finds_append [OF this, of "set is" "set seen" out] show ?thesis
      using Cons.IH [OF o] by simp
  qed
qed simp

definition listed :: "'w env \<Rightarrow> 'w \<Rightarrow> string set \<Rightarrow> dir_entry set" where
  "listed E w dirs = {i. \<exists>d \<in> dirs. \<exists>is. e_list E d ''*.vhdx'' w = Inr is \<and> i \<in> set is}"

lemma listed_simps [simp]:
  "listed E w {} = {}" "listed E w (A \<union> B) = listed E w A \<union> listed E w B"
  "e_list E d ''*.vhdx'' w = Inl e \<Longrightarrow> listed E w {d} = {}"
  "e_list E d ''*.vhdx'' w = Inr is \<Longrightarrow> listed E w {d} = set is"
  by (auto simp: listed_def)

lemma scan_listed_finds:
  "scan_listed E claimed w dirs seen = (out, warns, seen') \<Longrightarrow>
     set seen' = set seen \<union> (canonical_path \<circ> or_path) ` set out
     \<and> finds E claimed w (listed E w (set dirs)) (set seen) out"
proof (induction dirs arbitrary: seen out warns)
  case (Cons d dirs)
  have l: "listed E w (set (d # dirs)) = listed E w {d} \<union> listed E w (set dirs)"
    using listed_simps(2) [of E w "{d}" "set dirs"] by simp
  show ?case
  proof (cases "e_list E d ''*.vhdx'' w")
    case (Inl e)
    then show ?thesis using Cons.prems Cons.IH unfolding l by (auto split: prod.splits)
  next
    case (Inr "is")
    obtain out1 seen1 where 1: "scan_entries E claimed w is seen = (out1, seen1)" by fastforce
    obtain out2 w2 where 2: "scan_listed E claimed w dirs seen1 = (out2, w2, seen')"
      and out: "out = out1 @ out2" using Cons.prems Inr 1 by (auto split: prod.splits)
    note f = scan_entries_finds [OF 1] Cons.IH [OF 2]
    have "finds E claimed w (set is \<union> listed E w (set dirs)) (set seen) (out1 @ out2)"
      by (rule finds_append [of _ _ _ _ _ _ _ "set seen1"]) (use f in auto)
    then show ?thesis unfolding l using f Inr out by (auto simp: image_Un)
  qed
qed simp

lemma scan_patterns_finds:
  "scan_patterns E claimed w ps seen = (out, warns) \<Longrightarrow>
     finds E claimed w (listed E w (\<Union>p \<in> set ps. set (fst (scan_dirs E p w)))) (set seen) out"
proof (induction ps arbitrary: seen out warns)
  case (Cons p ps)
  obtain dirs w1 where 1: "scan_dirs E p w = (dirs, w1)" by fastforce
  obtain out1 w2 seen1 where 2: "scan_listed E claimed w dirs seen = (out1, w2, seen1)"
    by (metis prod_cases3)
  obtain out2 w3 where 3: "scan_patterns E claimed w ps seen1 = (out2, w3)" by fastforce
  have out: "out = out1 @ out2" using Cons.prems 1 2 3 by simp
  show ?case unfolding out
    using finds_append [of E claimed w "listed E w (set dirs)" "set seen" out1 _ "set seen1" out2]
      scan_listed_finds [OF 2] Cons.IH [OF 3] 1 by simp
qed simp

lemma scan_orphans_finds:
  "scan_orphans E rs extra w = (out, warns) \<Longrightarrow>
     finds E (claimed_paths rs) w
       (listed E w (\<Union>p \<in> set (default_scan_patterns @ extra). set (fst (scan_dirs E p w)))) {} out"
  unfolding scan_orphans_def using scan_patterns_finds by fastforce

lemma claimed_iff: "c \<in> set (claimed_paths rs) \<longleftrightarrow> (\<exists>r \<in> set rs. vhd_path r \<noteq> [] \<and> c = canonical_path (vhd_path r))"
  by (auto simp: claimed_paths_def)

text \<open>The disks in the scanned directories that no registration names.\<close>

definition unclaimed_in :: "'w env \<Rightarrow> registration list \<Rightarrow> string list \<Rightarrow> 'w \<Rightarrow> string \<Rightarrow> bool" where
  "unclaimed_in E rs patterns w c \<longleftrightarrow>
     (\<exists>p \<in> set patterns. \<exists>dir \<in> set (fst (scan_dirs E p w)). \<exists>is. e_list E dir ''*.vhdx'' w = Inr is
        \<and> (\<exists>i \<in> set is. \<not> de_is_dir i \<and> has_suffix (to_lower (de_path i)) ''.vhdx''
             \<and> c = canonical_path (de_path i)))
     \<and> \<not> (\<exists>r \<in> set rs. vhd_path r \<noteq> [] \<and> c = canonical_path (vhd_path r))"

text \<open>C20: A scan reports exactly the virtual disks in the directories it could list that no
  registration claims, whatever the spelling of either path, and each of them once however many
  patterns lead to it.\<close>

theorem orphans_are_the_unclaimed_disks:
  "case scan_orphans E rs extra w of (out, warns) \<Rightarrow>
     distinct (map (canonical_path \<circ> or_path) out)
     \<and> (canonical_path \<circ> or_path) ` set out
         = {c. unclaimed_in E rs (default_scan_patterns @ extra) w c}"
proof -
  obtain out warns where s: "scan_orphans E rs extra w = (out, warns)" by fastforce
  note f = scan_orphans_finds [OF s, unfolded finds_def]
  let ?L = "listed E w (\<Union>p \<in> set (default_scan_patterns @ extra). set (fst (scan_dirs E p w)))"
  have "(canonical_path \<circ> de_path) ` {i \<in> ?L. disk_entry (claimed_paths rs) i}
      = {c. unclaimed_in E rs (default_scan_patterns @ extra) w c}"
    unfolding unclaimed_in_def disk_entry_def is_unclaimed_disk_def listed_def claimed_iff by auto
  then show ?thesis using s f by simp
qed

section \<open>Deleting\<close>

lemma delete_orphans_Cons:
  "delete_orphans E rm (x # xs) w = (rs, w2) \<longleftrightarrow>
     (\<exists>ok w1 rest. (case e_locked E (or_path x) w of
              Inl e \<Rightarrow> (False, w)
            | Inr True \<Rightarrow> (False, w)
            | Inr False \<Rightarrow> (case rm (or_path x) w of (Inl e, w') \<Rightarrow> (False, w') | (Inr _, w') \<Rightarrow> (True, w')))
          = (ok, w1)
        \<and> delete_orphans E rm xs w1 = (rest, w2)
        \<and> rs = \<lparr>dr_path = or_path x, dr_deleted = ok\<rparr> # rest)"
  unfolding delete_orphans.simps(2) Let_def by (auto split: prod.splits)

context ports
begin

lemma delete_orphans_keeps:
  "delete_orphans E (e_remove E) xs w = (rs, w') \<Longrightarrow> p \<notin> (canonical_path \<circ> or_path) ` set xs \<Longrightarrow>
     files w' p = files w p \<and> regs w' = regs w"
proof (induction xs arbitrary: w rs)
  case (Cons x xs)
  from Cons.prems(1) obtain ok w1 rest
    where 1: "(case e_locked E (or_path x) w of
              Inl e \<Rightarrow> (False, w)
            | Inr True \<Rightarrow> (False, w)
            | Inr False \<Rightarrow> (case e_remove E (or_path x) w of
                (Inl e, w') \<Rightarrow> (False, w') | (Inr _, w') \<Rightarrow> (True, w'))) = (ok, w1)"
      and 2: "delete_orphans E (e_remove E) xs w1 = (rest, w')"
    unfolding delete_orphans_Cons by blast
  have "files w1 p = files w p \<and> regs w1 = regs w"
    using 1 Cons.prems(2)
    by (auto split: sum.splits bool.splits prod.splits dest: remove remove_err remove_regs)
  then show ?case using Cons.IH [OF 2] Cons.prems(2) by simp
qed simp

end

text \<open>C28: Deleting what a scan found removes no disk of a registration: on every machine and under
  every schedule of faults, each registered disk has its content afterwards, and so has the
  registry.\<close>

theorem deleting_orphans_spares_registered:
  assumes "scan_orphans machine_env rs extra w = (out, warns)"
    and "delete_orphans machine_env (e_remove machine_env) out w1 = (res, w2)"
    and "r \<in> set rs" and "vhd_path r \<noteq> []"
  shows "m_files w2 (canonical_path (vhd_path r)) = m_files w1 (canonical_path (vhd_path r))
    \<and> m_strings w2 = m_strings w1"
proof (rule machine.delete_orphans_keeps [OF assms(2)])
  have "canonical_path (vhd_path r) \<in> set (claimed_paths rs)"
    using assms(3,4) by (auto simp: claimed_iff)
  then show "canonical_path (vhd_path r) \<notin> (canonical_path \<circ> or_path) ` set out"
    using scan_orphans_finds [OF assms(1)]
    by (auto simp: finds_def disk_entry_def is_unclaimed_disk_def orphan_at_def)
qed

text \<open>One registered disk, one forgotten one beside it.\<close>

definition with_orphan :: machine where
  "with_orphan = (one_distro True [])\<lparr>
     m_files := [bs ''c:|wsl|ext4.vhdx'' \<mapsto> [1, 2, 3], bs ''c:|wsl|old.vhdx'' \<mapsto> [4]],
     m_paths := [bs ''c:|wsl|ext4.vhdx'', bs ''c:|wsl|old.vhdx'']\<rparr>"

theorem deleting_orphans_spares_registered_witness:
  "case scan_orphans machine_env [sample_reg ''Ubuntu''] [bs ''C:|wsl''] with_orphan of
     (out, warns) \<Rightarrow> map or_path out = [bs ''c:|wsl|old.vhdx'']
       \<and> m_files (snd (delete_orphans machine_env (e_remove machine_env) out with_orphan))
           (bs ''c:|wsl|ext4.vhdx'') = Some [1, 2, 3]
       \<and> m_files (snd (delete_orphans machine_env (e_remove machine_env) out with_orphan))
           (bs ''c:|wsl|old.vhdx'') = None"
proof -
  let ?r = "sample_reg ''Ubuntu''"
  obtain out warns where s: "scan_orphans machine_env [?r] [bs ''C:|wsl''] with_orphan = (out, warns)"
    by fastforce
  obtain res w2 where d: "delete_orphans machine_env (e_remove machine_env) out with_orphan = (res, w2)"
    by fastforce
  have c: "canonical_path (vhd_path ?r) = bs ''c:|wsl|ext4.vhdx''" by code_simp
  have paths: "map or_path (fst (scan_orphans machine_env [?r] [bs ''C:|wsl''] with_orphan))
      = [bs ''c:|wsl|old.vhdx'']" by code_simp
  then obtain x where x: "out = [x]" "or_path x = bs ''c:|wsl|old.vhdx''"
    using s by (cases out) (auto simp: map_eq_Cons_conv)
  have "canonical_path (or_path x) = bs ''c:|wsl|old.vhdx''" unfolding x(2) by code_simp
  moreover have "m_running with_orphan = []" "m_clock with_orphan = 0" "m_held_until with_orphan = 0"
    "m_faults with_orphan = []" "m_files with_orphan (bs ''c:|wsl|old.vhdx'') = Some [4]"
    by (simp_all add: with_orphan_def one_distro_def)
  ultimately have gone: "m_files w2 (bs ''c:|wsl|old.vhdx'') = None"
    using d x by (auto simp: machine_env_fields m_remove_def attempt_def Let_def)
  have "vhd_path ?r \<noteq> []" by code_simp
  with deleting_orphans_spares_registered [OF s d, of ?r]
  have "m_files w2 (bs ''c:|wsl|ext4.vhdx'') = m_files with_orphan (bs ''c:|wsl|ext4.vhdx'')"
    by (simp add: c)
  moreover have "m_files with_orphan (bs ''c:|wsl|ext4.vhdx'') = Some [1, 2, 3]" by code_simp
  ultimately show ?thesis using x gone s d by simp
qed

end
