(* ===== verification/DiskPlans.thy ===== *)
theory DiskPlans
  imports DiskOrphans
begin

text \<open>
  What every plan of the disk commands has in common: the commands print it, ask, and check it
  with \<open>Plan.Valid\<close> before they run.
\<close>

text \<open>No step that registers a rollback follows one that cannot be rolled back.\<close>

definition sound_plan :: "plan \<Rightarrow> bool" where
  "sound_plan p \<longleftrightarrow> p \<noteq> [] \<and>
     (\<forall>before s after. p = before @ s # after \<longrightarrow> ps_irreversible s \<longrightarrow>
        list_all (\<lambda>t. ps_undoable t \<longrightarrow> ps_irreversible t) after)"

definition planned :: "disk_error + plan \<Rightarrow> bool" where
  "planned res = (case res of Inl e \<Rightarrow> True | Inr p \<Rightarrow> plan_valid p \<and> sound_plan p)"

lemma plan_valid_sound: "p \<noteq> [] \<Longrightarrow> plan_valid p = sound_plan p"
  by (auto simp: plan_valid_def valid_from_ok sound_plan_def)

lemma planned_Inr: "planned (Inr p) \<longleftrightarrow> p \<noteq> [] \<and> valid_from False p = None"
  by (auto simp: planned_def plan_valid_sound [symmetric]) (auto simp: sound_plan_def plan_valid_def)

lemma planned_Inl [simp]: "planned (Inl e)"
  by (simp add: planned_def)

lemma valid_from_append:
  "valid_from seen (p @ q) =
     (case valid_from seen p of
        Some a \<Rightarrow> Some a
      | None \<Rightarrow> valid_from (seen \<or> list_ex ps_irreversible p) q)"
  by (induction p arbitrary: seen) (auto split: option.split)

text \<open>Whatever the machine answers and whatever the options, every plan the commands build is
  valid: no step that would register a rollback comes after a step that cannot be rolled back,
  so the check the commands run on their own plans never fails.\<close>

theorem every_plan_is_valid:
  "planned (plan_relink E r target running known w)
   \<and> planned (plan_rename r name list running known)
   \<and> planned (plan_move E r dir keep running known w)
   \<and> planned (plan_trash E r running known w)
   \<and> planned (plan_undelete entry list)
   \<and> planned (plan_snapshot E r root running known w)
   \<and> planned (plan_restore E r snap running known w)
   \<and> planned (plan_trim r)
   \<and> planned (plan_compact E t opts w)
   \<and> planned (plan_rebuild E fmt r ropts running known w)"
proof (intro conjI)
  note evaluate = planned_Inr valid_from_append Let_def
  show "planned (plan_relink E r target running known w)"
    by (simp add: plan_relink_def evaluate)
  show "planned (plan_rename r name list running known)"
    by (simp add: plan_rename_def evaluate)
  show "planned (plan_move E r dir keep running known w)"
    by (simp add: plan_move_def evaluate split: option.split)
  show "planned (plan_trash E r running known w)"
    by (simp add: plan_trash_def evaluate)
  show "planned (plan_undelete entry list)"
    by (simp add: plan_undelete_def evaluate split: option.split)
  show "planned (plan_snapshot E r root running known w)"
    by (simp add: plan_snapshot_def evaluate split: option.split)
  show "planned (plan_restore E r snap running known w)"
    by (simp add: plan_restore_def evaluate split: option.split)
  show "planned (plan_trim r)"
    by (simp add: plan_trim_def evaluate)
  show "planned (plan_compact E t opts w)"
    by (simp add: plan_compact_def evaluate)
  show "planned (plan_rebuild E fmt r ropts running known w)"
    by (simp add: plan_rebuild_def evaluate split: option.split)
qed

end
