(* ===== verification/DiskFlags.thy ===== *)
theory DiskFlags
  imports DiskCompact
begin

text \<open>
  \<open>internal/disk/flags.go\<close> and \<open>DecodeFlags\<close> of \<open>measure.go\<close>: the switches WSL keeps in a
  distribution's \<open>Flags\<close> value, and looking up a user in a running distribution. A Go \<open>int\<close> is an
  \<open>int\<close> here; the bit operations agree, and no arithmetic is done on it.
\<close>

definition flag_interop :: int where "flag_interop = 1"
definition flag_append_nt_path :: int where "flag_append_nt_path = 2"
definition flag_drive_mount :: int where "flag_drive_mount = 4"

record flag_change =
  fc_interop :: "bool option"
  fc_append_path :: "bool option"
  fc_automount :: "bool option"

definition flag_change_empty :: "flag_change \<Rightarrow> bool" where
  "flag_change_empty c \<longleftrightarrow> fc_interop c = None \<and> fc_append_path c = None \<and> fc_automount c = None"

definition parse_on_off :: "string \<Rightarrow> bool option" where
  "parse_on_off s =
     (let t = to_lower (trim_space s)
      in if t = ''on'' \<or> t = ''true'' then Some True
         else if t = ''off'' \<or> t = ''false'' then Some False else None)"

definition set_bit_to :: "bool option \<Rightarrow> int \<Rightarrow> int \<Rightarrow> int" where
  "set_bit_to want b out =
     (case want of None \<Rightarrow> out | Some True \<Rightarrow> out OR b | Some False \<Rightarrow> out AND NOT b)"

definition apply_flags :: "int \<Rightarrow> flag_change \<Rightarrow> int" where
  "apply_flags old c =
     set_bit_to (fc_automount c) flag_drive_mount
       (set_bit_to (fc_append_path c) flag_append_nt_path
         (set_bit_to (fc_interop c) flag_interop old))"

fun hex_digits :: "nat \<Rightarrow> string" where
  "hex_digits n =
     (let d = n mod 16; c = char_of (if d < 10 then 48 + d else 87 + d)
      in if n < 16 then [c] else hex_digits (n div 16) @ [c])"

declare hex_digits.simps [simp del]

definition format_hex :: "int \<Rightarrow> string" where
  "format_hex i = (if i < 0 then ''-'' @ hex_digits (nat (- i)) else hex_digits (nat i))"

definition decode_flags :: "int \<Rightarrow> string" where
  "decode_flags flags =
     (if flags = 0 then ''none''
      else
        (let names = map snd (filter (\<lambda>k. flags AND fst k \<noteq> 0)
               [(flag_interop, ''interop''), (flag_append_nt_path, ''append-nt-path''),
                (flag_drive_mount, ''drive-mounting'')]);
             rest = flags AND NOT flag_interop AND NOT flag_append_nt_path AND NOT flag_drive_mount
         in join_with '', ''
              (names @ (if rest \<noteq> 0 then [''undocumented(0x'' @ format_hex rest @ '')''] else []))))"

definition on_off :: "int \<Rightarrow> int \<Rightarrow> string" where
  "on_off flags b = (if flags AND b \<noteq> 0 then ''on'' else ''off'')"

definition flag_lines :: "int \<Rightarrow> string list" where
  "flag_lines flags =
     (let rest = flags AND NOT (flag_interop OR flag_append_nt_path OR flag_drive_mount)
      in [''interop:      '' @ on_off flags flag_interop,
          ''append-path:  '' @ on_off flags flag_append_nt_path,
          ''automount:    '' @ on_off flags flag_drive_mount]
         @ (if rest \<noteq> 0 then [''undocumented: 0x'' @ format_hex rest @ '' (left as it is)''] else []))"

definition plan_flags :: "registration \<Rightarrow> flag_change \<Rightarrow> disk_error + (plan \<times> int)" where
  "plan_flags r c =
     (let next = apply_flags (g_flags r) c
      in if flag_change_empty c then Inl ErrRefused
         else if next = g_flags r then Inl ErrRefused
         else Inr ([undoable_step (SetFlags next)], next))"

definition parse_uid :: "string \<Rightarrow> u32 option" where
  "parse_uid s = map_option of_nat (parse_uint 32 (trim_space s))"

definition lookup_user :: "'w env \<Rightarrow> string \<Rightarrow> string \<Rightarrow> 'w \<Rightarrow> (disk_error + u32 \<times> string) \<times> 'w" where
  "lookup_user E distro user w =
     (case e_run_as_root E distro
         [''/bin/sh'', ''-c'', ''id -u '' @ [CHR 0x22] @ ''$1'' @ [CHR 0x22] @ '' && id -nu ''
            @ [CHR 0x22] @ ''$1'' @ [CHR 0x22], ''sh'', user] w of
        (Inl e, w1) \<Rightarrow> (Inl (PortFailed e), w1)
      | (Inr res, w1) \<Rightarrow>
          if cr_exit_code res \<noteq> 0 then (Inl ErrRefused, w1)
          else (let fs = GoStd.fields (cr_stdout res)
                in if length fs < 2 then (Inl (PortFailed (one_line (cr_stdout res))), w1)
                   else (case parse_uid (fs ! 0) of
                           None \<Rightarrow> (Inl (PortFailed (one_line (cr_stdout res))), w1)
                         | Some n \<Rightarrow> (Inr (n, fs ! 1), w1))))"

section \<open>What a change does to each bit\<close>

definition wants :: "flag_change \<Rightarrow> nat \<Rightarrow> bool option" where
  "wants c n = (if n = 0 then fc_interop c else if n = 1 then fc_append_path c
     else if n = 2 then fc_automount c else None)"

lemma flag_bits: "flag_interop = 2 ^ 0" "flag_append_nt_path = 2 ^ 1" "flag_drive_mount = 2 ^ 2"
  by (simp_all add: flag_interop_def flag_append_nt_path_def flag_drive_mount_def)

lemma bit_set_bit_to:
  "bit (set_bit_to want (2 ^ k) x) n =
     (if n = k then (case want of None \<Rightarrow> bit x n | Some b \<Rightarrow> b) else bit x n)"
  by (cases want) (auto simp: set_bit_to_def bit_simps split: bool.split)

lemma bit_apply_flags:
  "bit (apply_flags old c) n = (case wants c n of None \<Rightarrow> bit old n | Some b \<Rightarrow> b)"
  unfolding apply_flags_def flag_bits bit_set_bit_to wants_def by (auto split: option.split)

lemma apply_flags_idem: "apply_flags (apply_flags old c) c = apply_flags old c"
  by (rule bit_eqI) (auto simp: bit_apply_flags split: option.split)

text \<open>A planned change sets what was asked and keeps every other bit.\<close>

lemma plan_flags_bits:
  assumes "plan_flags r c = Inr (p, next)"
  shows "bit next n = (case wants c n of None \<Rightarrow> bit (g_flags r) n | Some b \<Rightarrow> b)"
    and "next \<noteq> g_flags r"
proof -
  have "next = apply_flags (g_flags r) c" "next \<noteq> g_flags r"
    using assms by (auto simp: plan_flags_def Let_def split: if_splits)
  then show "bit next n = (case wants c n of None \<Rightarrow> bit (g_flags r) n | Some b \<Rightarrow> b)"
    and "next \<noteq> g_flags r"
    by (simp_all add: bit_apply_flags)
qed

end
