(* ===== verification/DiskMeasure.thy ===== *)
theory DiskMeasure
  imports DiskFlags
begin

text \<open>
  \<open>internal/disk/measure.go\<close> and \<open>auto.go\<close>: what is known of one disk, the output of \<open>df\<close>, the rule
  \<open>--auto\<close> applies, and reading a size. A measurement that cannot be taken is a missing field and
  a note. The dividing by a scale that has wrapped to zero is the outcome \<open>SizePanics\<close>.
\<close>

section \<open>One disk\<close>

datatype measure_note =
    NoBasePath | DiskMissing string | NoLength string | NoSizeOnDisk string | NoMetadata string
  | NoGuestUsage string | DfExited int | DfUnreadable

record info =
  i_file_size :: "u64 option"
  i_size_on_disk :: "u64 option"
  i_allocated :: "u64 option"
  i_sparse :: "bool option"
  i_virtual_size :: "u64 option"
  i_block_size :: "u32 option"
  i_sector_size :: "u32 option"
  i_parent_path :: string
  i_guest_used :: "u64 option"
  i_guest_free :: "u64 option"
  i_notes :: "measure_note list"

definition no_info :: info where
  "no_info = \<lparr>i_file_size = None, i_size_on_disk = None, i_allocated = None, i_sparse = None,
     i_virtual_size = None, i_block_size = None, i_sector_size = None, i_parent_path = [],
     i_guest_used = None, i_guest_free = None, i_notes = []\<rparr>"

definition info_reclaimable :: "info \<Rightarrow> u64 option" where
  "info_reclaimable i =
     (case (i_size_on_disk i, i_guest_used i) of
        (Some cost, Some used) \<Rightarrow> Some (if cost \<le> used then 0 else cost - used)
      | _ \<Rightarrow> None)"

definition add_note :: "measure_note \<Rightarrow> info \<Rightarrow> info" where
  "add_note n i = (if n \<in> set (i_notes i) then i else i\<lparr>i_notes := i_notes i @ [n]\<rparr>)"

definition measure_file :: "'w env \<Rightarrow> string \<Rightarrow> 'w \<Rightarrow> info \<Rightarrow> info" where
  "measure_file E path w i0 =
     (let i1 = (case e_file_size E path w of
                  Inr v \<Rightarrow> i0\<lparr>i_file_size := Some v\<rparr> | Inl e \<Rightarrow> add_note (NoLength e) i0);
          i2 = (case e_size_on_disk E path w of
                  Inr v \<Rightarrow> i1\<lparr>i_size_on_disk := Some v\<rparr> | Inl e \<Rightarrow> add_note (NoSizeOnDisk e) i1);
          i3 = (case e_sparse E path w of Inr v \<Rightarrow> i2\<lparr>i_sparse := Some v\<rparr> | Inl e \<Rightarrow> i2)
      in (case e_allocated_bytes E path w of Inr v \<Rightarrow> i3\<lparr>i_allocated := Some v\<rparr> | Inl e \<Rightarrow> i3))"

definition measure_provider :: "'w env \<Rightarrow> string \<Rightarrow> 'w \<Rightarrow> info \<Rightarrow> info" where
  "measure_provider E path w i0 =
     (case e_facts E path w of
        Inl e \<Rightarrow> add_note (NoMetadata e) i0
      | Inr facts \<Rightarrow>
          (let i1 = i0\<lparr>i_virtual_size := Some (df_virtual_size facts)\<rparr>;
               i2 = (if df_block_size facts \<noteq> 0 then i1\<lparr>i_block_size := Some (df_block_size facts)\<rparr> else i1);
               i3 = (if df_sector_size facts \<noteq> 0 then i2\<lparr>i_sector_size := Some (df_sector_size facts)\<rparr> else i2)
           in i3\<lparr>i_parent_path := df_parent_path facts\<rparr>))"

definition last_nonempty_line :: "string \<Rightarrow> string" where
  "last_nonempty_line s =
     (case find (\<lambda>t. t \<noteq> []) (map trim_space (rev (split_on newline (crlf_to_lf s)))) of
        Some t \<Rightarrow> t | None \<Rightarrow> [])"

definition parse_df :: "string \<Rightarrow> (u64 \<times> u64) option" where
  "parse_df out =
     (let line = last_nonempty_line out
      in if line = [] then None
         else (let fs = GoStd.fields line
               in if length fs < 5 then None
                  else (case parse_uint 64 (fs ! (length fs - 4)) of
                          None \<Rightarrow> None
                        | Some used \<Rightarrow>
                            (case parse_uint 64 (fs ! (length fs - 3)) of
                               None \<Rightarrow> None
                             | Some avail \<Rightarrow> Some (of_nat used, of_nat avail)))))"

text \<open>\<open>opts.Running\<close> is the list of names whose entry is true.\<close>

definition measure_guest :: "'w env \<Rightarrow> registration \<Rightarrow> bool \<Rightarrow> string list \<Rightarrow> info \<Rightarrow> 'w \<Rightarrow> info \<times> 'w" where
  "measure_guest E r probe running i w =
     (if g_version r \<noteq> 2 then (i, w)
      else if g_name r \<notin> set running \<and> \<not> probe then (i, w)
      else (case e_run_as_root E (g_name r) [''/bin/df'', ''-B1'', ''/''] w of
              (Inl e, w1) \<Rightarrow> (add_note (NoGuestUsage e) i, w1)
            | (Inr res, w1) \<Rightarrow>
                if cr_exit_code res \<noteq> 0 then (add_note (DfExited (cr_exit_code res)) i, w1)
                else (case parse_df (cr_stdout res) of
                        None \<Rightarrow> (add_note DfUnreadable i, w1)
                      | Some (used, free) \<Rightarrow>
                          (i\<lparr>i_guest_used := Some used, i_guest_free := Some free\<rparr>, w1))))"

definition measure_disk :: "'w env \<Rightarrow> registration \<Rightarrow> bool \<Rightarrow> string list \<Rightarrow> 'w \<Rightarrow> info \<times> 'w" where
  "measure_disk E r probe running w =
     (let path = vhd_path r
      in if g_version r \<noteq> 2 then (no_info, w)
         else if path = [] then (add_note NoBasePath no_info, w)
         else measure_guest E r probe running
                (if \<not> e_exists E path w then add_note (DiskMissing path) no_info
                 else measure_provider E path w (measure_file E path w no_info)) w)"

section \<open>The rule of --auto\<close>

definition default_min_reclaim :: u64 where "default_min_reclaim = 2 ^ 30"

datatype auto_reason = NothingToStop | CannotTell | BelowMinimum u64 u64 | WorthIt u64

definition decide_auto :: "info \<Rightarrow> bool \<Rightarrow> u64 \<Rightarrow> bool \<times> auto_reason" where
  "decide_auto i disrupts min0 =
     (let mn = (if min0 = 0 then default_min_reclaim else min0)
      in if \<not> disrupts then (True, NothingToStop)
         else (case info_reclaimable i of
                 None \<Rightarrow> (False, CannotTell)
               | Some rec \<Rightarrow> if rec < mn then (False, BelowMinimum rec mn) else (True, WorthIt rec)))"

section \<open>Reading a size\<close>

datatype size_outcome = NotASize | SizePanics | SizeOf u64

definition size_suffixes :: "(string \<times> u64) list" where
  "size_suffixes =
     [(''tib'', 2 ^ 40), (''gib'', 2 ^ 30), (''mib'', 2 ^ 20), (''kib'', 2 ^ 10),
      (''tb'', 2 ^ 40), (''gb'', 2 ^ 30), (''mb'', 2 ^ 20), (''kb'', 2 ^ 10), (''b'', 1)]"

definition digits_u64 :: "string \<Rightarrow> u64 option" where
  "digits_u64 s =
     (if s = [] \<or> \<not> list_all is_digit s then None
      else Some (foldl (\<lambda>n c. n * 10 + of_nat (digit_val c)) 0 s))"

definition parse_size :: "string \<Rightarrow> size_outcome" where
  "parse_size s0 =
     (let s = trim_space s0
      in if s = [] then NotASize
         else
           (let lower = to_lower s;
                (body, mult) = (case find (\<lambda>(suf, m). has_suffix lower suf) size_suffixes of
                   Some (suf, m) \<Rightarrow> (trim_suffix lower suf, m) | None \<Rightarrow> (lower, 1));
                number = trim_space body
            in if number = [] then NotASize
               else
                 (case cut_byte (CHR ''.'') number of
                    (whole, frac, has_frac) \<Rightarrow>
                      (case digits_u64 whole of
                         None \<Rightarrow> NotASize
                       | Some n \<Rightarrow>
                           if \<not> has_frac then SizeOf (n * mult)
                           else (case digits_u64 frac of
                                   None \<Rightarrow> NotASize
                                 | Some f \<Rightarrow>
                                     (let scale = 10 ^ length frac
                                      in if scale = 0 then SizePanics
                                         else SizeOf (n * mult + f * mult div scale)))))))"

section \<open>Facts\<close>

lemma digits_u64_format: "digits_u64 (format_uint n) = Some (of_nat n)"
proof -
  have "foldl (\<lambda>n c. n * 10 + of_nat (digit_val c)) (of_nat a) s
      = (of_nat (foldl (\<lambda>n c. n * 10 + digit_val c) a s) :: u64)" for a s
    by (induction s arbitrary: a) (simp, metis (no_types, lifting) foldl_Cons of_nat_add of_nat_mult of_nat_numeral)
  from this [of 0] show ?thesis
    using digits_val_digits10 [of n] format_uint_nonempty [of n]
    by (simp add: digits_u64_def digits_val_def format_uint_def digits10_all)
qed

text \<open>A number without a unit is read back as it is, up to what 64 bits hold.\<close>

lemma parse_size_bytes: "parse_size (format_uint n) = SizeOf (of_nat n)"
proof -
  have dig: "list_all is_digit (format_uint n)" by (simp add: format_uint_def digits10_all)
  have low: "to_lower (format_uint n) = format_uint n"
    using dig unfolding to_lower_def
    by (intro map_idI) (auto simp: list_all_iff is_digit_def lower_char_def is_upper_def)
  have last: "last (format_uint n) \<noteq> CHR ''b''"
    using dig format_uint_nonempty [of n] last_in_set [of "format_uint n"]
    by (fastforce simp: list_all_iff is_digit_def)
  have "\<not> has_suffix (format_uint n) s" if "s \<noteq> []" "last s = CHR ''b''" for s
    using last that by (auto simp: has_suffix_iff)
  then have "find (\<lambda>(suf, m). has_suffix (format_uint n) suf) size_suffixes = None"
    unfolding find_None_iff by (auto simp: size_suffixes_def)
  moreover have "CHR ''.'' \<notin> set (format_uint n)" using dig by (auto simp: list_all_iff is_digit_def)
  ultimately show ?thesis
    by (simp add: parse_size_def Let_def low cut_byte_none digits_u64_format)
qed

lemma two_pow_64_divides: "(10 :: u64) ^ 64 = 0"
proof -
  have "(10 :: u64) ^ 64 = 2 ^ 64 * 5 ^ 64" by (metis mult_2 numeral_Bit0 numeral_times_numeral power_mult_distrib)
  then show ?thesis by simp
qed


text \<open>\<open>ParseSize\<close> can crash on what a user types. A number that is read back from \<open>FormatUint\<close>
  is the same number, but the scale of a fraction is ten to the number of its digits, modulo
  \<open>2 ^ 64\<close>: from 64 digits on it is zero, whatever the digits and the unit, and it is divided by.\<close>

theorem long_fraction_panics:
  "parse_size (format_uint n) = SizeOf (of_nat n)
   \<and> parse_size (''1.'' @ replicate (64 + k) (CHR ''5'') @ ''gib'') = SizePanics"
proof
  show "parse_size (format_uint n) = SizeOf (of_nat n)" by (rule parse_size_bytes)
  let ?f = "replicate (64 + k) (CHR ''5'')"
  have low: "to_lower (''1.'' @ ?f @ ''gib'') = ''1.'' @ ?f @ ''gib''"
    by (simp add: to_lower_def map_replicate_const lower_char_def is_upper_def)
  have trim: "trim_space (''1.'' @ ?f @ ''gib'') = ''1.'' @ ?f @ ''gib''"
    by (rule trim_space_id) (simp add: is_space_def)
  have suf: "has_suffix (''1.'' @ ?f @ ''gib'') ''gib''"
    using has_suffix_append [of "''1.'' @ ?f" "''gib''"] by simp
  have no: "\<not> has_suffix (''1.'' @ ?f @ ''gib'') ''tib''"
  proof
    assume "has_suffix (''1.'' @ ?f @ ''gib'') ''tib''"
    with suf have "''gib'' = drop (length (''1.'' @ ?f @ ''gib'') - 3) (''1.'' @ ?f @ ''gib'')"
      "''tib'' = drop (length (''1.'' @ ?f @ ''gib'') - 3) (''1.'' @ ?f @ ''gib'')"
      unfolding has_suffix_def by (simp_all only: list.size) simp_all
    then have "''gib'' = ''tib''" by metis
    then show False by simp
  qed
  have find: "find (\<lambda>(suf, m). has_suffix (''1.'' @ ?f @ ''gib'') suf) size_suffixes = Some (''gib'', 2 ^ 30)"
    using suf no by (simp add: size_suffixes_def)
  have body: "trim_suffix (''1.'' @ ?f @ ''gib'') ''gib'' = ''1.'' @ ?f"
    using trim_suffix_append [of "''1.'' @ ?f" "''gib''"] by simp
  have tb: "trim_space (''1.'' @ ?f) = ''1.'' @ ?f"
    by (rule trim_space_id) (simp add: is_space_def)
  have cut: "cut_byte (CHR ''.'') (''1.'' @ ?f) = (''1'', ?f, True)"
    using cut_byte_append [of "CHR ''.''" "''1''" ?f] by simp
  have d1: "digits_u64 ''1'' \<noteq> None" by (simp add: digits_u64_def is_digit_def)
  have d2: "digits_u64 ?f \<noteq> None" by (simp add: digits_u64_def is_digit_def list_all_iff)
  have scale: "(10 :: u64) ^ length ?f = 0" by (simp only: length_replicate power_add two_pow_64_divides mult_zero_left)
  show "parse_size (''1.'' @ ?f @ ''gib'') = SizePanics"
    unfolding parse_size_def Let_def trim low find option.case prod.case body tb cut scale
    using d1 d2 by (auto split: option.split)
qed

end
