(* ===== verification/DiskUsage.thy ===== *)
theory DiskUsage
  imports DiskMeasure
begin

text \<open>
  \<open>internal/disk/usage.go\<close>: where the space inside a distribution went. \<open>du\<close> is run on each path of
  a catalogue, which is an argument, and the sizes are added up so that a path inside another
  catalogued one is not counted twice.
\<close>

section \<open>Data\<close>

record cache =
  ca_path :: string
  ca_label :: string
  ca_safe :: bool
  ca_note :: string

record usage_entry =
  ue_path :: string
  ue_label :: string
  ue_bytes :: u64
  ue_safe :: bool
  ue_note :: string
  ue_contains_others :: bool

record usage_dir =
  ud_path :: string
  ud_bytes :: u64
  ud_depth :: nat
  ud_attributed :: u64
  ud_attributed_to :: string

datatype usage_note = NoUsers | NoBreakdown string | DuIncomplete

record usage =
  us_guest_used :: u64
  us_guest_free :: u64
  us_counted :: u64
  us_entries :: "usage_entry list"
  us_directories :: "usage_dir list"
  us_notes :: "usage_note list"

record usage_options =
  uo_top :: int
  uo_by_directory :: bool
  uo_depth :: int

definition default_depth :: int where "default_depth = 2"
definition max_depth :: int where "max_depth = 8"

definition plan_usage :: "registration \<Rightarrow> disk_error + plan" where
  "plan_usage r = (if g_version r \<noteq> 2 then Inl ErrNotWSL2 else Inr [plain_step ReadUsage])"

text \<open>\<open>sort.SliceStable\<close> by a number, largest first.\<close>

definition sort_descending :: "('a \<Rightarrow> u64) \<Rightarrow> 'a list \<Rightarrow> 'a list" where
  "sort_descending f xs = rev (sort_key (\<lambda>x. unat (f x)) (rev xs))"

section \<open>Paths\<close>

definition expand_home :: "string \<Rightarrow> string list \<Rightarrow> string list" where
  "expand_home path homes =
     (if \<not> has_prefix path ''~/'' then [path] else map (\<lambda>h. h @ trim_prefix path ''~'') homes)"

definition parse_du_line :: "string \<Rightarrow> (u64 \<times> string) option" where
  "parse_du_line line =
     (case index_byte line tab_char of
        None \<Rightarrow> None
      | Some tab \<Rightarrow>
          if tab = 0 then None
          else (case parse_uint 64 (trim_space (take tab line)) of
                  None \<Rightarrow> None
                | Some n \<Rightarrow>
                    (let path = trim_right (\<lambda>c. c = CHR ''/'') (trim_space (drop (tab + 1) line))
                     in Some (of_nat n, if path = [] then ''/'' else path))))"

definition path_contains :: "string \<Rightarrow> string \<Rightarrow> bool" where
  "path_contains p path \<longleftrightarrow>
     (if p = path then False else if p = ''/'' then path \<noteq> ''/'' else has_prefix path (p @ ''/''))"

definition inside_another :: "usage_entry list \<Rightarrow> nat \<Rightarrow> bool" where
  "inside_another es i \<longleftrightarrow>
     list_ex (\<lambda>j. i \<noteq> j \<and> path_contains (ue_path (es ! j)) (ue_path (es ! i))) [0..<length es]"

definition encloses_another :: "usage_entry list \<Rightarrow> nat \<Rightarrow> bool" where
  "encloses_another es i \<longleftrightarrow>
     list_ex (\<lambda>j. i \<noteq> j \<and> path_contains (ue_path (es ! i)) (ue_path (es ! j))) [0..<length es]"

definition account_for_nesting :: "usage_entry list \<Rightarrow> usage_entry list \<times> u64" where
  "account_for_nesting es =
     (map (\<lambda>i. if encloses_another es i then (es ! i)\<lparr>ue_contains_others := True\<rparr> else es ! i)
        [0..<length es],
      sum_list (map (\<lambda>i. if inside_another es i then 0 else ue_bytes (es ! i)) [0..<length es]))"

definition attribute_one :: "string \<Rightarrow> usage_entry list \<Rightarrow> usage_entry \<Rightarrow> u64 \<times> string \<times> u64 \<Rightarrow> u64 \<times> string \<times> u64" where
  "attribute_one dir es en acc =
     (case acc of (known, largest, largest_bytes) \<Rightarrow>
        if ue_path en \<noteq> dir \<and> \<not> path_contains dir (ue_path en) then acc
        else if list_ex (\<lambda>other. ue_path other \<noteq> ue_path en
               \<and> path_contains (ue_path other) (ue_path en)
               \<and> (ue_path other = dir \<or> path_contains dir (ue_path other))) es then acc
        else if ue_bytes en > largest_bytes then (known + ue_bytes en, ue_label en, ue_bytes en)
        else (known + ue_bytes en, largest, largest_bytes))"

definition attribute_dir :: "string \<Rightarrow> usage_entry list \<Rightarrow> u64 \<times> string" where
  "attribute_dir dir es =
     (case fold (attribute_one dir es) es (0, [], 0) of (known, largest, _) \<Rightarrow> (known, largest))"

section \<open>Commands in the guest\<close>

definition du_path :: string where "du_path = ''/usr/bin/du''"

definition run_du :: "'w env \<Rightarrow> registration \<Rightarrow> string \<Rightarrow> 'w \<Rightarrow> u64 option \<times> 'w" where
  "run_du E r path w =
     (case e_run_as_root E (g_name r) [du_path, ''-sbx'', path] w of
        (Inl e, w1) \<Rightarrow> (None, w1)
      | (Inr res, w1) \<Rightarrow>
          ((if cr_exit_code res \<noteq> 0 then None
            else map_option fst (parse_du_line (last_nonempty_line (cr_stdout res)))), w1))"

fun home_lines :: "string list \<Rightarrow> string list \<Rightarrow> string list" where
  "home_lines [] seen = []"
| "home_lines (l # ls) seen =
     (let fs = split_on (CHR '':'') l
      in if length fs < 6 then home_lines ls seen
         else (let home = trim_right (\<lambda>c. c = CHR ''/'') (fs ! 5)
               in if home = [] \<or> home \<in> set seen then home_lines ls seen
                  else if home \<noteq> ''/root'' \<and> \<not> has_prefix home ''/home/'' then home_lines ls seen
                  else home # home_lines ls (home # seen)))"

definition read_homes :: "'w env \<Rightarrow> registration \<Rightarrow> 'w \<Rightarrow> (string list \<times> usage_note list) \<times> 'w" where
  "read_homes E r w =
     (case e_run_as_root E (g_name r) [''/usr/bin/getent'', ''passwd''] w of
        (Inl e, w1) \<Rightarrow> (([''/root''], [NoUsers]), w1)
      | (Inr res, w1) \<Rightarrow>
          if cr_exit_code res \<noteq> 0 then (([''/root''], [NoUsers]), w1)
          else (let homes = home_lines (split_on newline (crlf_to_lf (cr_stdout res))) []
                in ((if homes = [] then [''/root''] else sort homes, []), w1)))"

fun measure_paths ::
  "'w env \<Rightarrow> registration \<Rightarrow> string list \<Rightarrow> cache \<Rightarrow> string list \<Rightarrow> 'w \<Rightarrow> usage_entry list \<times> 'w"
where
  "measure_paths E r homes c [] w = ([], w)"
| "measure_paths E r homes c (p # ps) w =
     (case run_du E r p w of
        (n, w1) \<Rightarrow>
          (case measure_paths E r homes c ps w1 of
             (es, w2) \<Rightarrow>
               (case n of
                  None \<Rightarrow> (es, w2)
                | Some b \<Rightarrow>
                    if b = 0 then (es, w2)
                    else (\<lparr>ue_path = p,
                            ue_label = (if length homes > 1 \<and> has_prefix (ca_path c) ''~/''
                                        then ca_label c @ '' ('' @ p @ '')'' else ca_label c),
                            ue_bytes = b, ue_safe = ca_safe c, ue_note = ca_note c,
                            ue_contains_others = False\<rparr> # es, w2))))"

fun measure_entries ::
  "'w env \<Rightarrow> registration \<Rightarrow> string list \<Rightarrow> cache list \<Rightarrow> 'w \<Rightarrow> usage_entry list \<times> 'w"
where
  "measure_entries E r homes [] w = ([], w)"
| "measure_entries E r homes (c # cs) w =
     (case measure_paths E r homes c (expand_home (ca_path c) homes) w of
        (es1, w1) \<Rightarrow> (case measure_entries E r homes cs w1 of (es2, w2) \<Rightarrow> (es1 @ es2, w2)))"

definition directory_row :: "usage_entry list \<Rightarrow> string \<Rightarrow> usage_dir option" where
  "directory_row es line =
     (case parse_du_line line of
        None \<Rightarrow> None
      | Some (n, path) \<Rightarrow>
          if path = ''/'' then None
          else (case attribute_dir path es of
                  (known, largest) \<Rightarrow>
                    Some \<lparr>ud_path = path, ud_bytes = n,
                      ud_depth = length (filter (\<lambda>c. c = CHR ''/'') path),
                      ud_attributed = known, ud_attributed_to = largest\<rparr>))"

definition measure_directories ::
  "'w env \<Rightarrow> registration \<Rightarrow> int \<Rightarrow> usage_entry list \<Rightarrow> 'w \<Rightarrow> (usage_dir list \<times> usage_note list) \<times> 'w"
where
  "measure_directories E r depth0 es w =
     (let d1 = (if depth0 \<le> 0 then default_depth else depth0);
          depth = (if d1 > max_depth then max_depth else d1)
      in case e_run_as_root E (g_name r) [du_path, ''-bx'', ''-d'', format_uint (nat depth), ''/''] w of
           (Inl e, w1) \<Rightarrow> (([], [NoBreakdown e]), w1)
         | (Inr res, w1) \<Rightarrow>
             ((sort_descending ud_bytes
                (List.map_filter (directory_row es) (split_on newline (crlf_to_lf (cr_stdout res)))),
               if cr_exit_code res \<noteq> 0 then [DuIncomplete] else []), w1))"

definition keep_top :: "int \<Rightarrow> 'a list \<Rightarrow> 'a list" where
  "keep_top n xs = (if n > 0 \<and> int (length xs) > n then take (nat n) xs else xs)"

definition measure_usage ::
  "'w env \<Rightarrow> cache list \<Rightarrow> registration \<Rightarrow> usage_options \<Rightarrow> 'w \<Rightarrow> (disk_error + usage) \<times> 'w"
where
  "measure_usage E catalogue r opts w =
     (if g_version r \<noteq> 2 then (Inl ErrNotWSL2, w)
      else case e_run_as_root E (g_name r) [''/bin/df'', ''-B1'', trim_mount] w of
        (Inl e, w1) \<Rightarrow> (Inl (PortFailed e), w1)
      | (Inr res, w1) \<Rightarrow>
          if cr_exit_code res \<noteq> 0 then (Inl (PortFailed (one_line (cr_stderr res))), w1)
          else (case parse_df (cr_stdout res) of
             None \<Rightarrow> (Inl (PortFailed ''df''), w1)
           | Some (used, free) \<Rightarrow>
               (case read_homes E r w1 of
                  ((homes, notes1), w2) \<Rightarrow>
                    (case measure_entries E r homes catalogue w2 of
                       (es0, w3) \<Rightarrow>
                         (case account_for_nesting (sort_descending ue_bytes es0) of
                            (es, counted) \<Rightarrow>
                              (case (if uo_by_directory opts
                                     then measure_directories E r (uo_depth opts) es w3
                                     else (([], []), w3)) of
                                 ((dirs, notes2), w4) \<Rightarrow>
                                   (Inr \<lparr>us_guest_used = used, us_guest_free = free,
                                      us_counted = counted,
                                      us_entries = keep_top (uo_top opts) es,
                                      us_directories = keep_top (uo_top opts) dirs,
                                      us_notes = notes1 @ notes2\<rparr>, w4)))))))"

section \<open>Nothing is counted twice\<close>

lemma path_contains_nonempty_iff:
  "p \<noteq> [] \<Longrightarrow> path_contains p q \<longleftrightarrow>
     (p = ''/'' \<and> q \<noteq> ''/'') \<or> (p \<noteq> ''/'' \<and> (\<exists>t. q = p @ CHR ''/'' # t))"
  by (auto simp: path_contains_def has_prefix_iff)

lemma path_contains_trans:
  assumes "p \<noteq> []" "q \<noteq> []" "path_contains p q" "path_contains q r"
  shows "path_contains p r"
  using assms by (auto simp: path_contains_nonempty_iff append_eq_Cons_conv Cons_eq_append_conv)

definition rank :: "string \<Rightarrow> nat" where
  "rank p = (if p = ''/'' then 0 else length p)"

lemma path_contains_rank: "p \<noteq> [] \<Longrightarrow> q \<noteq> [] \<Longrightarrow> path_contains p q \<Longrightarrow> rank p < rank q"
  by (auto simp: path_contains_nonempty_iff rank_def append_eq_Cons_conv)

definition at_or_under :: "string \<Rightarrow> string \<Rightarrow> bool" where
  "at_or_under p f \<longleftrightarrow> f = p \<or> path_contains p f"

lemma under_comparable:
  assumes "p \<noteq> []" "q \<noteq> []" "at_or_under p f" "at_or_under q f" "p \<noteq> q"
  shows "path_contains p q \<or> path_contains q p"
proof (cases "f = p \<or> f = q \<or> p = ''/'' \<or> q = ''/''")
  case True
  with assms show ?thesis by (auto simp: at_or_under_def path_contains_nonempty_iff)
next
  case False
  then have "path_contains p f" "path_contains q f" using assms by (auto simp: at_or_under_def)
  then obtain s t where f: "f = p @ CHR ''/'' # s" "f = q @ CHR ''/'' # t"
    using False path_contains_nonempty_iff [OF assms(1)] path_contains_nonempty_iff [OF assms(2)] by blast
  then have eq: "p @ CHR ''/'' # s = q @ CHR ''/'' # t" by simp
  have "(\<exists>u'. p = q @ CHR ''/'' # u') \<or> (\<exists>u'. q = p @ CHR ''/'' # u')"
  proof (cases "\<exists>u. p = q @ u")
    case True
    then obtain u where u: "p = q @ u" by blast
    then have "u @ CHR ''/'' # s = CHR ''/'' # t" using eq by simp
    then show ?thesis using u assms(5) by (cases u) auto
  next
    case no: False
    then obtain u where u: "q = p @ u" using eq by (metis append_eq_append_conv2)
    then have "CHR ''/'' # s = u @ CHR ''/'' # t" using eq by simp
    then show ?thesis using u assms(5) by (cases u) auto
  qed
  then show ?thesis using False assms(1,2) by (auto simp: path_contains_nonempty_iff)
qed

lemma under_trans: "p \<noteq> [] \<Longrightarrow> q \<noteq> [] \<Longrightarrow> path_contains p q \<Longrightarrow> at_or_under q f \<Longrightarrow> at_or_under p f"
  unfolding at_or_under_def using path_contains_trans [of p q f] by metis

lemma sum_list_unique:
  fixes s :: "'a :: comm_monoid_add"
  assumes "distinct is" "\<And>i j. i \<in> set is \<Longrightarrow> j \<in> set is \<Longrightarrow> P i \<Longrightarrow> P j \<Longrightarrow> i = j"
  shows "sum_list (map (\<lambda>i. if P i then s else 0) is) = (if \<exists>i \<in> set is. P i then s else 0)"
  using assms
proof (induction "is")
  case (Cons i "is")
  then have IH: "sum_list (map (\<lambda>i. if P i then s else 0) is) = (if \<exists>i \<in> set is. P i then s else 0)"
    by (intro Cons.IH) auto
  have "P i \<Longrightarrow> \<not> (\<exists>j \<in> set is. P j)" using Cons.prems by fastforce
  then show ?case unfolding list.map sum_list.Cons IH by auto
qed simp

text \<open>Of the entries a file is under, exactly one is not inside another.\<close>

lemma outermost_exists:
  assumes ne: "\<forall>e \<in> set es. ue_path e \<noteq> []" and i: "i < length es" "at_or_under (ue_path (es ! i)) f"
  shows "\<exists>k < length es. \<not> inside_another es k \<and> at_or_under (ue_path (es ! k)) f"
proof -
  obtain k where k: "k < length es" "at_or_under (ue_path (es ! k)) f"
    and least: "\<And>j. j < length es \<Longrightarrow> at_or_under (ue_path (es ! j)) f \<Longrightarrow> rank (ue_path (es ! k)) \<le> rank (ue_path (es ! j))"
    using ex_has_least_nat [of "\<lambda>j. j < length es \<and> at_or_under (ue_path (es ! j)) f" i "\<lambda>j. rank (ue_path (es ! j))"] i
    by auto
  have "\<not> inside_another es k"
  proof
    assume "inside_another es k"
    then obtain j where j: "j < length es" "path_contains (ue_path (es ! j)) (ue_path (es ! k))"
      by (auto simp: inside_another_def list_ex_iff)
    have n: "ue_path (es ! j) \<noteq> []" "ue_path (es ! k) \<noteq> []" using ne j(1) k(1) nth_mem by blast+
    have "rank (ue_path (es ! k)) \<le> rank (ue_path (es ! j))"
      using least [OF j(1)] under_trans [OF n j(2) k(2)] by blast
    then show False using path_contains_rank [OF n j(2)] by simp
  qed
  then show ?thesis using k by blast
qed

lemma outermost_unique:
  assumes ne: "\<forall>e \<in> set es. ue_path e \<noteq> []" and d: "distinct (map ue_path es)"
    and i: "i < length es" "\<not> inside_another es i" "at_or_under (ue_path (es ! i)) f"
    and j: "j < length es" "\<not> inside_another es j" "at_or_under (ue_path (es ! j)) f"
  shows "i = j"
proof (rule ccontr)
  assume neq: "i \<noteq> j"
  have "ue_path (es ! i) \<noteq> ue_path (es ! j)"
    using d i(1) j(1) neq by (metis distinct_conv_nth length_map nth_map)
  moreover have "ue_path (es ! i) \<noteq> []" "ue_path (es ! j) \<noteq> []" using ne i(1) j(1) nth_mem by blast+
  ultimately have "path_contains (ue_path (es ! i)) (ue_path (es ! j))
      \<or> path_contains (ue_path (es ! j)) (ue_path (es ! i))"
    using under_comparable i(3) j(3) by blast
  then show False using i j neq by (auto simp: inside_another_def list_ex_iff)
qed

text \<open>The size of the files under a path, as \<open>du\<close> adds them up.\<close>

definition size_under :: "(string \<times> u64) list \<Rightarrow> string \<Rightarrow> u64" where
  "size_under fs p = sum_list (map snd (filter (\<lambda>f. at_or_under p (fst f)) fs))"

text \<open>When the entries' sizes are those of the files under their paths, what \<open>accountForNesting\<close>
  counts is the size of the files under at least one of them: every such file exactly once,
  however deep the entries nest.\<close>

theorem nested_entries_counted_once:
  assumes "distinct (map ue_path es)"
    and "\<forall>e \<in> set es. ue_path e \<noteq> [] \<and> ue_bytes e = size_under fs (ue_path e)"
  shows "snd (account_for_nesting es)
    = sum_list (map snd (filter (\<lambda>f. list_ex (\<lambda>e. at_or_under (ue_path e) (fst f)) es) fs))"
proof -
  let ?P = "\<lambda>f i. \<not> inside_another es i \<and> at_or_under (ue_path (es ! i)) (fst f)"
  have ne: "\<forall>e \<in> set es. ue_path e \<noteq> []" using assms(2) by blast
  have one: "sum_list (map (\<lambda>i. if ?P f i then snd f else 0) [0..<length es])
      = (if list_ex (\<lambda>e. at_or_under (ue_path e) (fst f)) es then snd f else 0)" for f :: "string \<times> u64"
  proof -
    have "sum_list (map (\<lambda>i. if ?P f i then snd f else 0) [0..<length es])
        = (if \<exists>i \<in> set [0..<length es]. ?P f i then snd f else 0)"
      by (rule sum_list_unique) (use outermost_unique [OF ne assms(1)] in auto)
    moreover have "(\<exists>i \<in> set [0..<length es]. ?P f i) = list_ex (\<lambda>e. at_or_under (ue_path e) (fst f)) es"
    proof
      show "\<exists>i \<in> set [0..<length es]. ?P f i \<Longrightarrow> list_ex (\<lambda>e. at_or_under (ue_path e) (fst f)) es"
        by (auto simp: list_ex_iff)
      assume "list_ex (\<lambda>e. at_or_under (ue_path e) (fst f)) es"
      then obtain i where "i < length es" "at_or_under (ue_path (es ! i)) (fst f)"
        by (auto simp: list_ex_iff in_set_conv_nth)
      from outermost_exists [OF ne this] show "\<exists>i \<in> set [0..<length es]. ?P f i" by auto
    qed
    ultimately show ?thesis by presburger
  qed
  have swap: "sum_list (map (\<lambda>i. if inside_another es i then 0 else size_under gs (ue_path (es ! i))) [0..<length es])
      = sum_list (map (\<lambda>f. sum_list (map (\<lambda>i. if ?P f i then snd f else 0) [0..<length es])) gs)" for gs
  proof (induction gs)
    case (Cons g gs)
    have "(if inside_another es i then 0 else size_under (g # gs) (ue_path (es ! i)))
        = (if ?P g i then snd g else 0) + (if inside_another es i then 0 else size_under gs (ue_path (es ! i)))" for i
      by (simp add: size_under_def)
    then show ?case using Cons.IH by (simp add: sum_list_addf)
  qed (simp add: size_under_def cong: if_cong)
  have "snd (account_for_nesting es)
      = sum_list (map (\<lambda>i. if inside_another es i then 0 else size_under fs (ue_path (es ! i))) [0..<length es])"
    unfolding account_for_nesting_def snd_conv
    by (intro arg_cong [where f = sum_list] map_cong refl) (use assms(2) in auto)
  also have "\<dots> = sum_list (map (\<lambda>f. if list_ex (\<lambda>e. at_or_under (ue_path e) (fst f)) es then snd f else 0) fs)"
    unfolding swap one ..
  also have "\<dots> = sum_list (map snd (filter (\<lambda>f. list_ex (\<lambda>e. at_or_under (ue_path e) (fst f)) es) fs))"
    by (induction fs) auto
  finally show ?thesis .
qed

theorem nested_entries_counted_once_witness:
  "snd (account_for_nesting (map (\<lambda>p. \<lparr>ue_path = p, ue_label = p,
       ue_bytes = size_under [(''/var/log/a'', 5), (''/var/log/journal/b'', 7), (''/var/logbook'', 9)] p,
       ue_safe = True, ue_note = [], ue_contains_others = False\<rparr>) [''/var/log/journal'', ''/var/log'']))
   = 12"
proof -
  let ?fs = "[(''/var/log/a'', 5), (''/var/log/journal/b'', 7), (''/var/logbook'', 9)] :: (string \<times> u64) list"
  let ?es = "map (\<lambda>p. \<lparr>ue_path = p, ue_label = p, ue_bytes = size_under ?fs p,
       ue_safe = True, ue_note = [], ue_contains_others = False\<rparr>) [''/var/log/journal'', ''/var/log'']"
  have "snd (account_for_nesting ?es)
      = sum_list (map snd (filter (\<lambda>f. list_ex (\<lambda>e. at_or_under (ue_path e) (fst f)) ?es) ?fs))"
    by (rule nested_entries_counted_once) auto
  also have "\<dots> = 12"
    by (simp add: at_or_under_def path_contains_def has_prefix_def)
  finally show ?thesis .
qed

end
