(* ===== verification/DiskConfig.thy ===== *)
theory DiskConfig
  imports GoText
begin

text \<open>
  \<open>internal/disk/config.go\<close>: the settings file of the disk commands, its reader and its writer.
  The reader takes what the writer writes and the obvious hand edits. An error carries the number
  of its line; \<open>Panics\<close> is the index out of range that one hand edit can cause.
\<close>

section \<open>Settings\<close>

record automount_entry =
  ae_path :: string
  ae_name :: string
  ae_bare :: bool
  ae_type :: string
  ae_options :: string
  ae_partition :: int

record config =
  cf_scan_dirs :: "string list"
  cf_compact_trim :: bool
  cf_compact_restart :: bool
  cf_unlock_timeout :: u32
  cf_automount :: "automount_entry list"

definition default_config :: config where
  "default_config = \<lparr>cf_scan_dirs = [], cf_compact_trim = True, cf_compact_restart = False,
     cf_unlock_timeout = 90, cf_automount = []\<rparr>"

definition no_entry :: automount_entry where
  "no_entry = \<lparr>ae_path = [], ae_name = [], ae_bare = False, ae_type = [], ae_options = [], ae_partition = 0\<rparr>"

definition automount_section :: string where "automount_section = ''[[automount]]''"

definition config_keys :: "string list" where
  "config_keys = [''scan.dirs'', ''compact.trim'', ''compact.restart'', ''wsl.unlock_timeout_seconds'']"

definition format_bool :: "bool \<Rightarrow> string" where
  "format_bool b = (if b then ''true'' else ''false'')"

definition config_value :: "config \<Rightarrow> string \<Rightarrow> string option" where
  "config_value c key =
     (if key = ''scan.dirs'' then Some (join_with '';'' (cf_scan_dirs c))
      else if key = ''compact.trim'' then Some (format_bool (cf_compact_trim c))
      else if key = ''compact.restart'' then Some (format_bool (cf_compact_restart c))
      else if key = ''wsl.unlock_timeout_seconds'' then Some (format_uint (unat (cf_unlock_timeout c)))
      else None)"

definition parse_strict_bool :: "string \<Rightarrow> bool option" where
  "parse_strict_bool s =
     (let t = trim_space s
      in if t = ''true'' then Some True else if t = ''false'' then Some False else None)"

definition set_config_value :: "config \<Rightarrow> string \<Rightarrow> string \<Rightarrow> config option" where
  "set_config_value c key v =
     (if key = ''scan.dirs''
      then Some (c\<lparr>cf_scan_dirs := filter (\<lambda>p. p \<noteq> []) (map trim_space (split_on (CHR '';'') v))\<rparr>)
      else if key = ''compact.trim''
      then map_option (\<lambda>b. c\<lparr>cf_compact_trim := b\<rparr>) (parse_strict_bool v)
      else if key = ''compact.restart''
      then map_option (\<lambda>b. c\<lparr>cf_compact_restart := b\<rparr>) (parse_strict_bool v)
      else if key = ''wsl.unlock_timeout_seconds''
      then (case parse_uint 32 (trim_space v) of
              None \<Rightarrow> None
            | Some n \<Rightarrow> if n > 3600 then None else Some (c\<lparr>cf_unlock_timeout := of_nat n\<rparr>))
      else None)"

definition set_automount_field :: "automount_entry \<Rightarrow> string \<Rightarrow> string \<Rightarrow> automount_entry option" where
  "set_automount_field a key v =
     (if key = ''path'' then Some (a\<lparr>ae_path := v\<rparr>)
      else if key = ''name'' then Some (a\<lparr>ae_name := v\<rparr>)
      else if key = ''type'' then Some (a\<lparr>ae_type := v\<rparr>)
      else if key = ''options'' then Some (a\<lparr>ae_options := v\<rparr>)
      else if key = ''bare'' then map_option (\<lambda>b. a\<lparr>ae_bare := b\<rparr>) (parse_strict_bool v)
      else if key = ''partition''
      then (case atoi (trim_space v) of
              None \<Rightarrow> None
            | Some n \<Rightarrow> if n < 0 then None else Some (a\<lparr>ae_partition := n\<rparr>))
      else Some a)"

section \<open>Values\<close>

definition quote_char :: char where "quote_char = CHR 0x22"
definition escape_char :: char where "escape_char = CHR 0x5C"

fun escape :: "string \<Rightarrow> string" where
  "escape [] = []"
| "escape (c # s) = (if c = escape_char \<or> c = quote_char then [escape_char, c] else [c]) @ escape s"

definition quote :: "string \<Rightarrow> string" where
  "quote s = quote_char # escape s @ [quote_char]"

fun unescape :: "string \<Rightarrow> string" where
  "unescape [] = []"
| "unescape [c] = [c]"
| "unescape (c # d # s) = (if c = escape_char then d # unescape s else c # unescape (d # s))"

definition unquote :: "string \<Rightarrow> string option" where
  "unquote s =
     (if length s < 2 \<or> \<not> has_prefix s [quote_char] \<or> \<not> has_suffix s [quote_char] then None
      else Some (unescape (take (length s - 2) (drop 1 s))))"

text \<open>\<open>splitTOMLList\<close>: the loop over the characters, with the item being built.\<close>

fun split_list :: "string \<Rightarrow> bool \<Rightarrow> bool \<Rightarrow> string \<Rightarrow> string list" where
  "split_list cur in_quote escaped [] = (if trim_space cur \<noteq> [] then [cur] else [])"
| "split_list cur in_quote escaped (r # s) =
     (if escaped then split_list (cur @ [r]) in_quote False s
      else if r = escape_char \<and> in_quote then split_list (cur @ [r]) in_quote True s
      else if r = quote_char then split_list (cur @ [r]) (\<not> in_quote) False s
      else if r = CHR '','' \<and> \<not> in_quote then cur # split_list [] in_quote False s
      else split_list (cur @ [r]) in_quote False s)"

definition split_toml_list :: "string \<Rightarrow> string list" where
  "split_toml_list s = split_list [] False False s"

fun unquote_all :: "string list \<Rightarrow> string list option" where
  "unquote_all [] = Some []"
| "unquote_all (x # xs) =
     (case unquote (trim_space x) of
        None \<Rightarrow> None
      | Some s \<Rightarrow> map_option (Cons s) (unquote_all xs))"

definition parse_toml_value :: "string \<Rightarrow> string option" where
  "parse_toml_value v =
     (if has_prefix v ''[''
      then (if \<not> has_suffix v '']'' then None
            else (let inner = trim_space (take (length v - 2) (drop 1 v))
                  in if inner = [] then Some []
                     else map_option (join_with '';'') (unquote_all (split_toml_list inner))))
      else if has_prefix v [quote_char] then unquote v
      else Some v)"

section \<open>Reading\<close>

datatype config_error = BadLine nat | Panics

text \<open>A setting of an \<open>[[automount]]\<close> block, or of a plain section.\<close>

definition store_setting ::
  "nat \<Rightarrow> string \<Rightarrow> string \<Rightarrow> config \<Rightarrow> string \<Rightarrow> config_error + (config \<times> string)"
where
  "store_setting n name v c section =
     (if section = automount_section
      then (case parse_toml_value v of
              None \<Rightarrow> Inl (BadLine n)
            | Some parsed \<Rightarrow>
                if cf_automount c = [] then Inl Panics
                else (case set_automount_field (last (cf_automount c)) name parsed of
                        None \<Rightarrow> Inl (BadLine n)
                      | Some a \<Rightarrow> Inr (c\<lparr>cf_automount := butlast (cf_automount c) @ [a]\<rparr>, section)))
      else (let key = (if section \<noteq> [] then section @ ''.'' @ name else name)
            in if config_value c key = None then Inr (c, section)
               else (case parse_toml_value v of
                       None \<Rightarrow> Inl (BadLine n)
                     | Some parsed \<Rightarrow>
                         (case set_config_value c key parsed of
                            None \<Rightarrow> Inl (BadLine n)
                          | Some c' \<Rightarrow> Inr (c', section)))))"

definition parse_setting ::
  "nat \<Rightarrow> string \<Rightarrow> config \<Rightarrow> string \<Rightarrow> config_error + (config \<times> string)"
where
  "parse_setting n s c section =
     (case index_byte s (CHR ''='') of
        None \<Rightarrow> Inl (BadLine n)
      | Some eq \<Rightarrow> store_setting n (trim_space (take eq s)) (trim_space (drop (eq + 1) s)) c section)"

definition parse_line ::
  "nat \<Rightarrow> string \<Rightarrow> config \<Rightarrow> string \<Rightarrow> config_error + (config \<times> string)"
where
  "parse_line n raw c section =
     (let s = trim_space raw
      in if s = [] \<or> has_prefix s ''#'' then Inr (c, section)
         else if has_prefix s ''[[''
         then (if \<not> has_suffix s '']]'' then Inl (BadLine n)
               else (let section' = ''[['' @ trim_space (take (length s - 4) (drop 2 s)) @ '']]''
                     in Inr (if section' = automount_section
                             then c\<lparr>cf_automount := cf_automount c @ [no_entry]\<rparr> else c, section')))
         else if has_prefix s ''[''
         then (if \<not> has_suffix s '']'' then Inl (BadLine n)
               else Inr (c, trim_space (take (length s - 2) (drop 1 s))))
         else parse_setting n s c section)"

fun parse_lines :: "nat \<Rightarrow> string list \<Rightarrow> config \<Rightarrow> string \<Rightarrow> config_error + config" where
  "parse_lines n [] c section = Inr c"
| "parse_lines n (l # ls) c section =
     (case parse_line n l c section of
        Inl e \<Rightarrow> Inl e
      | Inr (c', section') \<Rightarrow> parse_lines (n + 1) ls c' section')"

definition parse_config :: "string \<Rightarrow> config_error + config" where
  "parse_config text = parse_lines 1 (split_on newline (crlf_to_lf text)) default_config []"

section \<open>Writing\<close>

definition automount_lines :: "automount_entry \<Rightarrow> string list" where
  "automount_lines a =
     ['''', automount_section, ''path = '' @ quote (ae_path a)]
     @ (if ae_name a \<noteq> [] then [''name = '' @ quote (ae_name a)] else [])
     @ (if ae_bare a then [''bare = true''] else [])
     @ (if ae_type a \<noteq> [] then [''type = '' @ quote (ae_type a)] else [])
     @ (if ae_options a \<noteq> [] then [''options = '' @ quote (ae_options a)] else [])
     @ (if ae_partition a > 0 then [''partition = '' @ format_uint (nat (ae_partition a))] else [])"

text \<open>The comments and blank lines, in groups.\<close>

definition file_comment :: "string list" where
  "file_comment =
     [''# wslkit disk settings. Every value here is a default that the'',
      ''# matching command-line flag still overrides.'',
      ''#'',
      ''# Written by `wslkit disk config set`. Editing it by hand is fine.'',
      '''']"

definition scan_comment :: "string list" where
  "scan_comment =
     [''# Extra roots for `wslkit disk orphans` to search, on top of the'',
      ''# built-in three.'']"

definition trim_comment :: "string list" where
  "trim_comment = [''# Run fstrim before compacting. --no-trim overrides this.'']"

definition restart_comment :: "string list" where
  "restart_comment = [''# Start the distribution again afterwards if it was running.'']"

definition wsl_comment :: "string list" where
  "wsl_comment =
     [''# How long `compact` waits for the utility VM to release the disk'',
      ''# after the distribution stops.'']"

definition automount_comment :: "string list" where
  "automount_comment =
     ['''',
      ''# Extra disks `wslkit disk automount now` attaches, and the logon task'',
      ''# from `wslkit disk automount install`. Change them with `disk automount'',
      ''# add` and `rm`.'']"

definition config_lines :: "config \<Rightarrow> string list" where
  "config_lines c =
     file_comment @ [''[scan]''] @ scan_comment
     @ [''dirs = ['' @ join_with '', '' (map quote (cf_scan_dirs c)) @ '']''] @ [''''] @ [''[compact]'']
     @ trim_comment @ [''trim = '' @ format_bool (cf_compact_trim c)]
     @ restart_comment @ [''restart = '' @ format_bool (cf_compact_restart c)] @ [''''] @ [''[wsl]'']
     @ wsl_comment @ [''unlock_timeout_seconds = '' @ format_uint (unat (cf_unlock_timeout c))]
     @ (if cf_automount c \<noteq> [] then automount_comment else [])
     @ concat (map automount_lines (cf_automount c))"

definition render_config :: "config \<Rightarrow> string" where
  "render_config c = concat (map (\<lambda>l. l @ [newline]) (config_lines c))"

section \<open>Values come back\<close>

lemma unescape_escape [simp]: "unescape (escape s) = s"
proof (induction s)
  case (Cons c s)
  have "unescape (c # t) = c # unescape t" if "c \<noteq> escape_char" for t
    using that by (cases t) auto
  with Cons show ?case by auto
qed simp

lemma unquote_quote [simp]: "unquote (quote s) = Some s"
  by (simp add: unquote_def quote_def has_prefix_def has_suffix_def)

lemma quote_ends: "quote s \<noteq> []" "hd (quote s) = quote_char" "last (quote s) = quote_char"
  by (simp_all add: quote_def)

lemma quote_char_facts [simp]: "\<not> is_space quote_char" "quote_char \<noteq> newline" "quote_char \<noteq> carriage_return"
  "escape_char \<noteq> newline" "escape_char \<noteq> carriage_return" "quote_char \<noteq> escape_char"
  "quote_char \<noteq> CHR '',''" "quote_char \<noteq> CHR ''[''" "\<not> is_space escape_char"
  by (simp_all add: quote_char_def is_space_def newline_def carriage_return_def escape_char_def)

lemma trim_quote [simp]: "trim_space (quote s) = quote s"
  by (rule trim_space_id) (simp_all add: quote_ends)

lemma parse_toml_quote [simp]: "parse_toml_value (quote s) = Some s"
  by (simp add: parse_toml_value_def) (simp add: quote_def has_prefix_def)

lemma split_list_escape:
  "split_list cur True False (escape d @ rest) = split_list (cur @ escape d) True False rest"
  by (induction d arbitrary: cur) (auto simp: escape_char_def quote_char_def)

lemma split_list_quote:
  "split_list cur False False (quote d @ rest) = split_list (cur @ quote d) False False rest"
  by (simp add: quote_def split_list_escape)

lemma split_list_quotes:
  "split_list cur False False (quote d @ concat (map (\<lambda>x. CHR '','' # CHR '' '' # quote x) ds))
     = (cur @ quote d) # map (\<lambda>x. CHR '' '' # quote x) ds"
proof (induction ds arbitrary: cur d)
  case Nil
  have "split_list cur False False (quote d) = split_list (cur @ quote d) False False []"
    using split_list_quote [of cur d "[]"] by simp
  moreover have "trim_space (cur @ quote d) \<noteq> []"
    unfolding trim_space_empty by (auto simp: quote_def)
  ultimately show ?case by simp
next
  case (Cons x ds)
  have "split_list cur False False (quote d @ concat (map (\<lambda>x. CHR '','' # CHR '' '' # quote x) (x # ds)))
      = (cur @ quote d) # split_list '' '' False False (quote x @ concat (map (\<lambda>x. CHR '','' # CHR '' '' # quote x) ds))"
    by (simp add: split_list_quote escape_char_def quote_char_def)
  then show ?case using Cons.IH by simp
qed

lemma join_with_concat: "join_with sep (x # xs) = x @ concat (map (\<lambda>y. sep @ y) xs)"
  by (induction xs arbitrary: x) auto

lemma trim_space_quote [simp]: "trim_space (CHR '' '' # quote s) = quote s"
  using trim_space_lead [of "'' ''" "quote s"] by (simp add: is_space_def)

lemma unquote_all_quotes: "unquote_all (map (\<lambda>x. CHR '' '' # quote x) ds) = Some ds"
  by (induction ds) auto

lemma unquote_split_quotes:
  "ds \<noteq> [] \<Longrightarrow> unquote_all (split_toml_list (join_with '', '' (map quote ds))) = Some ds"
  by (cases ds) (simp_all add: split_toml_list_def join_with_concat comp_def
      split_list_quotes unquote_all_quotes)

lemma join_quotes_ends:
  "ds \<noteq> [] \<Longrightarrow> join_with '', '' (map quote ds) \<noteq> []
     \<and> hd (join_with '', '' (map quote ds)) = quote_char \<and> last (join_with '', '' (map quote ds)) = quote_char"
proof (induction ds rule: induct_list012)
  case (2 x)
  then show ?case by (simp add: quote_ends)
next
  case (3 x y zs)
  then show ?case by (simp add: quote_ends hd_append)
qed simp

lemma parse_toml_list:
  "parse_toml_value (''['' @ join_with '', '' (map quote ds) @ '']'') = Some (join_with '';'' ds)"
proof (cases "ds = []")
  case True
  then show ?thesis by (simp add: parse_toml_value_def has_prefix_def has_suffix_def)
next
  case False
  note e = join_quotes_ends [OF False]
  have "trim_space (join_with '', '' (map quote ds)) = join_with '', '' (map quote ds)"
    by (rule trim_space_id) (use e in simp)
  then show ?thesis
    using e unquote_split_quotes [OF False]
    by (simp add: parse_toml_value_def has_prefix_def has_suffix_def)
qed

section \<open>Lines come back\<close>

lemma parse_line_setting:
  assumes name: "name \<noteq> []" "\<And>c. c \<in> set name \<Longrightarrow> \<not> is_space c \<and> c \<noteq> CHR ''=''"
    and first: "hd name \<noteq> CHR ''#''" "hd name \<noteq> CHR ''[''"
    and v: "v \<noteq> []" "\<not> is_space (hd v)" "\<not> is_space (last v)"
  shows "parse_line n (name @ '' = '' @ v) c sec = store_setting n name v c sec"
proof -
  obtain x name' where x: "name = x # name'" using name(1) by (cases name) auto
  have trim: "trim_space (name @ '' = '' @ v) = name @ '' = '' @ v"
    by (rule trim_space_id) (use x name(2) v in auto)
  have eq: "index_byte (name @ '' = '' @ v) (CHR ''='') = Some (length name + 1)"
    using index_byte_append_stop [of "CHR ''=''" "name @ '' ''" "CHR '' '' # v"] name(2) by auto
  have tname: "trim_space (name @ '' '') = name"
    unfolding trim_space_def trim_left_def using x name
    by (simp add: trim_right_append_stop is_space_def) (metis last.simps last_in_set list.discI trim_right_append_stop [of "'' ''" is_space] is_space_def empty_set list.simps(15) singletonD append_Cons)
  have tv: "trim_space (CHR '' '' # v) = v"
    using trim_space_lead [of "'' ''" v] trim_space_id [of v] v by (simp add: is_space_def)
  have tk: "take (length name + 1) (name @ '' = '' @ v) = name @ '' ''" by simp
  have dr: "drop (length name + 1 + 1) (name @ '' = '' @ v) = CHR '' '' # v" by simp
  show ?thesis
    unfolding parse_line_def Let_def trim parse_setting_def eq option.case tk dr tname tv
    using x first by (simp add: has_prefix_def)
qed

lemma parse_line_comment: "l \<noteq> [] \<Longrightarrow> hd l = CHR ''#'' \<Longrightarrow> \<not> is_space (last l) \<Longrightarrow> parse_line n l c sec = Inr (c, sec)"
  by (cases l) (auto simp: parse_line_def Let_def trim_space_id has_prefix_def is_space_def)

lemma parse_line_blank: "parse_line n [] c sec = Inr (c, sec)"
  by (simp add: parse_line_def)

lemma parse_line_section:
  assumes "name \<noteq> []" "list_all (\<lambda>c. \<not> is_space c \<and> c \<noteq> CHR ''['') name"
  shows "parse_line n (CHR ''['' # name @ '']'') c sec = Inr (c, name)"
proof -
  have "trim_space name = name"
    by (rule trim_space_id) (use assms in \<open>simp add: list_all_iff\<close>)
  moreover have "trim_space (CHR ''['' # name @ '']'') = CHR ''['' # name @ '']''"
    by (rule trim_space_id) (simp add: is_space_def)
  moreover obtain x xs where "name = x # xs" "x \<noteq> CHR ''[''" using assms by (cases name) auto
  ultimately show ?thesis by (simp add: parse_line_def Let_def has_prefix_def has_suffix_def)
qed

lemma parse_line_automount:
  "parse_line n automount_section c sec
     = Inr (c\<lparr>cf_automount := cf_automount c @ [no_entry]\<rparr>, automount_section)"
proof -
  have "trim_space automount_section = automount_section" "trim_space ''automount'' = ''automount''"
    by code_simp+
  then show ?thesis
    by (simp add: parse_line_def Let_def has_prefix_def has_suffix_def automount_section_def)
qed

section \<open>The file comes back\<close>

definition clean :: "string \<Rightarrow> bool" where
  "clean s \<longleftrightarrow> newline \<notin> set s \<and> carriage_return \<notin> set s"

definition valid_entry :: "automount_entry \<Rightarrow> bool" where
  "valid_entry a \<longleftrightarrow> clean (ae_path a) \<and> clean (ae_name a) \<and> clean (ae_type a) \<and> clean (ae_options a)
     \<and> 0 \<le> ae_partition a \<and> ae_partition a < 2 ^ 63"

text \<open>What \<open>config set\<close> and \<open>automount add\<close> can produce.\<close>

definition valid_config :: "config \<Rightarrow> bool" where
  "valid_config c \<longleftrightarrow>
     list_all (\<lambda>d. d \<noteq> [] \<and> trim_space d = d \<and> CHR '';'' \<notin> set d \<and> clean d) (cf_scan_dirs c)
     \<and> unat (cf_unlock_timeout c) \<le> 3600
     \<and> list_all valid_entry (cf_automount c)"

lemma parse_lines_step:
  "parse_line n l c sec = Inr (c', sec') \<Longrightarrow> parse_lines n ([l] @ ls) c sec = parse_lines (n + 1) ls c' sec'"
  by simp

lemma format_bool_facts: "format_bool b \<noteq> []" "\<not> is_space (hd (format_bool b))"
  "\<not> is_space (last (format_bool b))" "parse_toml_value (format_bool b) = Some (format_bool b)"
  "parse_strict_bool (format_bool b) = Some b" "clean (format_bool b)"
proof -
  have "clean ''true''" "clean ''false''" "parse_toml_value ''true'' = Some ''true''"
    "parse_toml_value ''false'' = Some ''false''" "parse_strict_bool ''true'' = Some True"
    "parse_strict_bool ''false'' = Some False"
    by code_simp+
  then show "format_bool b \<noteq> []" "\<not> is_space (hd (format_bool b))"
    "\<not> is_space (last (format_bool b))" "parse_toml_value (format_bool b) = Some (format_bool b)"
    "parse_strict_bool (format_bool b) = Some b" "clean (format_bool b)"
    by (cases b; simp add: format_bool_def is_space_def)+
qed

lemma format_uint_ends: "\<not> is_space (hd (format_uint n))" "\<not> is_space (last (format_uint n))"
  using format_uint_not_space format_uint_nonempty by (metis hd_in_set) (metis format_uint_not_space format_uint_nonempty last_in_set)

lemma format_uint_digits: "list_all is_digit (format_uint n)"
  by (simp add: format_uint_def digits10_all)

lemma digit_facts: "is_digit c \<Longrightarrow> c \<noteq> CHR ''['' \<and> c \<noteq> quote_char \<and> c \<noteq> newline \<and> c \<noteq> carriage_return"
  by (auto simp: is_digit_def quote_char_def newline_def carriage_return_def)

lemma parse_toml_uint: "parse_toml_value (format_uint n) = Some (format_uint n)"
proof -
  obtain d s where d: "format_uint n = d # s" using format_uint_nonempty by (cases "format_uint n") blast+
  then show ?thesis
    using format_uint_digits [of n] digit_facts [of d]
    by (simp add: parse_toml_value_def has_prefix_def)
qed

lemma set_scan_dirs:
  assumes "list_all (\<lambda>d. d \<noteq> [] \<and> trim_space d = d \<and> CHR '';'' \<notin> set d \<and> clean d) ds"
  shows "filter (\<lambda>p. p \<noteq> []) (map trim_space (split_on (CHR '';'') (join_with '';'' ds))) = ds"
proof (cases "ds = []")
  case False
  have "split_on (CHR '';'') (join_with '';'' ds) = ds"
    using assms False by (intro split_on_join) (auto simp: list_all_iff)
  moreover have "map trim_space ds = ds" using assms by (induction ds) auto
  moreover have "filter (\<lambda>p. p \<noteq> []) ds = ds" using assms by (induction ds) auto
  ultimately show ?thesis by simp
qed simp

text \<open>One block of the table.\<close>

lemma store_field:
  "cf_automount c \<noteq> [] \<Longrightarrow> parse_toml_value v = Some p \<Longrightarrow>
     set_automount_field (last (cf_automount c)) key p = Some a \<Longrightarrow>
     store_setting n key v c automount_section
       = Inr (c\<lparr>cf_automount := butlast (cf_automount c) @ [a]\<rparr>, automount_section)"
  by (simp add: store_setting_def)

lemma parse_field:
  assumes "key \<in> {''path'', ''name'', ''bare'', ''type'', ''options'', ''partition''}"
    and "v \<noteq> []" "\<not> is_space (hd v)" "\<not> is_space (last v)" "parse_toml_value v = Some p"
    and "set_automount_field a key p = Some a'"
  shows "parse_line n (key @ '' = '' @ v) (c\<lparr>cf_automount := as @ [a]\<rparr>) automount_section
    = Inr (c\<lparr>cf_automount := as @ [a']\<rparr>, automount_section)"
proof -
  have "parse_line n (key @ '' = '' @ v) (c\<lparr>cf_automount := as @ [a]\<rparr>) automount_section
      = store_setting n key v (c\<lparr>cf_automount := as @ [a]\<rparr>) automount_section"
    by (rule parse_line_setting) (use assms(1-4) in \<open>auto simp: is_space_def\<close>)
  then show ?thesis using assms(5,6) by (simp add: store_field)
qed

lemma parse_optional:
  assumes "P \<Longrightarrow> parse_line n l (c\<lparr>cf_automount := as @ [a]\<rparr>) automount_section
      = Inr (c\<lparr>cf_automount := as @ [a']\<rparr>, automount_section)"
  shows "parse_lines n ((if P then [l] else []) @ ls) (c\<lparr>cf_automount := as @ [a]\<rparr>) automount_section
    = parse_lines (if P then n + 1 else n) ls (c\<lparr>cf_automount := as @ [if P then a' else a]\<rparr>) automount_section"
  using assms by (cases P) auto

lemma parse_quoted_field:
  "key \<in> {''path'', ''name'', ''bare'', ''type'', ''options'', ''partition''} \<Longrightarrow>
   set_automount_field a key x = Some a' \<Longrightarrow>
   parse_line n (key @ '' = '' @ quote x) (c\<lparr>cf_automount := as @ [a]\<rparr>) automount_section
     = Inr (c\<lparr>cf_automount := as @ [a']\<rparr>, automount_section)"
  by (rule parse_field) (auto simp: quote_ends)

lemma automount_fields:
  "set_automount_field a ''path'' v = Some (a\<lparr>ae_path := v\<rparr>)"
  "set_automount_field a ''name'' v = Some (a\<lparr>ae_name := v\<rparr>)"
  "set_automount_field a ''type'' v = Some (a\<lparr>ae_type := v\<rparr>)"
  "set_automount_field a ''options'' v = Some (a\<lparr>ae_options := v\<rparr>)"
  "set_automount_field a ''bare'' ''true'' = Some (a\<lparr>ae_bare := True\<rparr>)"
  "p < 2 ^ 63 \<Longrightarrow> set_automount_field a ''partition'' (format_uint p) = Some (a\<lparr>ae_partition := int p\<rparr>)"
proof -
  have t: "parse_strict_bool ''true'' = Some True" by code_simp
  show "set_automount_field a ''path'' v = Some (a\<lparr>ae_path := v\<rparr>)"
    "set_automount_field a ''name'' v = Some (a\<lparr>ae_name := v\<rparr>)"
    "set_automount_field a ''type'' v = Some (a\<lparr>ae_type := v\<rparr>)"
    "set_automount_field a ''options'' v = Some (a\<lparr>ae_options := v\<rparr>)"
    "set_automount_field a ''bare'' ''true'' = Some (a\<lparr>ae_bare := True\<rparr>)"
    "p < 2 ^ 63 \<Longrightarrow> set_automount_field a ''partition'' (format_uint p) = Some (a\<lparr>ae_partition := int p\<rparr>)"
    by (simp_all add: set_automount_field_def t atoi_format_uint)
qed

lemma parse_entry:
  assumes "valid_entry a"
  shows "\<exists>m. parse_lines n (automount_lines a @ ls) (c\<lparr>cf_automount := as\<rparr>) sec
    = parse_lines m ls (c\<lparr>cf_automount := as @ [a]\<rparr>) automount_section"
proof -
  have p: "nat (ae_partition a) < 2 ^ 63" "int (nat (ae_partition a)) = ae_partition a"
    using assms by (auto simp: valid_entry_def)
  define f1 where "f1 = no_entry\<lparr>ae_path := ae_path a\<rparr>"
  define f2 where "f2 = (if ae_name a \<noteq> [] then f1\<lparr>ae_name := ae_name a\<rparr> else f1)"
  define f3 where "f3 = (if ae_bare a then f2\<lparr>ae_bare := True\<rparr> else f2)"
  define f4 where "f4 = (if ae_type a \<noteq> [] then f3\<lparr>ae_type := ae_type a\<rparr> else f3)"
  define f5 where "f5 = (if ae_options a \<noteq> [] then f4\<lparr>ae_options := ae_options a\<rparr> else f4)"
  define f6 where "f6 = (if ae_partition a > 0 then f5\<lparr>ae_partition := ae_partition a\<rparr> else f5)"
  have bare: "''bare = true'' = ''bare'' @ '' = '' @ ''true''" by simp
  have bool: "\<not> is_space (hd ''true'')" "\<not> is_space (last ''true'')" by (simp_all add: is_space_def)
  have tv: "parse_toml_value ''true'' = Some ''true''" by code_simp
  have l1: "parse_line m (''path = '' @ quote (ae_path a)) (c\<lparr>cf_automount := as @ [no_entry]\<rparr>) automount_section
      = Inr (c\<lparr>cf_automount := as @ [f1]\<rparr>, automount_section)" for m
    using parse_quoted_field [of "''path''"] automount_fields(1) by (simp add: f1_def)
  have l2: "parse_line m (''name = '' @ quote (ae_name a)) (c\<lparr>cf_automount := as @ [f1]\<rparr>) automount_section
      = Inr (c\<lparr>cf_automount := as @ [f1\<lparr>ae_name := ae_name a\<rparr>]\<rparr>, automount_section)" for m
    using parse_quoted_field [of "''name''"] automount_fields(2) by simp
  have l3: "parse_line m ''bare = true'' (c\<lparr>cf_automount := as @ [f2]\<rparr>) automount_section
      = Inr (c\<lparr>cf_automount := as @ [f2\<lparr>ae_bare := True\<rparr>]\<rparr>, automount_section)" for m
    unfolding bare by (rule parse_field [OF _ _ bool tv automount_fields(5)]) simp_all
  have l4: "parse_line m (''type = '' @ quote (ae_type a)) (c\<lparr>cf_automount := as @ [f3]\<rparr>) automount_section
      = Inr (c\<lparr>cf_automount := as @ [f3\<lparr>ae_type := ae_type a\<rparr>]\<rparr>, automount_section)" for m
    using parse_quoted_field [of "''type''"] automount_fields(3) by simp
  have l5: "parse_line m (''options = '' @ quote (ae_options a)) (c\<lparr>cf_automount := as @ [f4]\<rparr>) automount_section
      = Inr (c\<lparr>cf_automount := as @ [f4\<lparr>ae_options := ae_options a\<rparr>]\<rparr>, automount_section)" for m
    using parse_quoted_field [of "''options''"] automount_fields(4) by simp
  have l6: "parse_line m (''partition = '' @ format_uint (nat (ae_partition a)))
      (c\<lparr>cf_automount := as @ [f5]\<rparr>) automount_section
      = Inr (c\<lparr>cf_automount := as @ [f5\<lparr>ae_partition := ae_partition a\<rparr>]\<rparr>, automount_section)" for m
    using parse_field [of "''partition''" "format_uint (nat (ae_partition a))"] format_uint_ends
      parse_toml_uint automount_fields(6) [OF p(1)] p(2) by simp
  have "f6 = a"
    unfolding f6_def f5_def f4_def f3_def f2_def f1_def no_entry_def
    using assms by (cases a) (auto simp: valid_entry_def)
  let ?R = "parse_lines (n + 3)
       ((if ae_name a \<noteq> [] then [''name = '' @ quote (ae_name a)] else [])
        @ (if ae_bare a then [''bare = true''] else [])
        @ (if ae_type a \<noteq> [] then [''type = '' @ quote (ae_type a)] else [])
        @ (if ae_options a \<noteq> [] then [''options = '' @ quote (ae_options a)] else [])
        @ (if ae_partition a > 0 then [''partition = '' @ format_uint (nat (ae_partition a))] else []) @ ls)
       (c\<lparr>cf_automount := as @ [f1]\<rparr>) automount_section"
  have first: "parse_lines n (automount_lines a @ ls) (c\<lparr>cf_automount := as\<rparr>) sec = ?R"
    unfolding automount_lines_def append_assoc append_Cons append_Nil
    using parse_line_blank parse_line_automount l1 by (simp add: numeral_3_eq_3)
  have "\<exists>m. ?R = parse_lines m ls (c\<lparr>cf_automount := as @ [f6]\<rparr>) automount_section"
    unfolding parse_optional [OF l2] f2_def [symmetric] parse_optional [OF l3] f3_def [symmetric]
      parse_optional [OF l4] f4_def [symmetric] parse_optional [OF l5] f5_def [symmetric]
      parse_optional [where ls = ls, OF l6] f6_def [symmetric]
    by blast
  then show ?thesis unfolding \<open>f6 = a\<close> first .
qed

lemma parse_entries:
  "list_all valid_entry es \<Longrightarrow> parse_lines n (concat (map automount_lines es) @ [[]]) (c\<lparr>cf_automount := as\<rparr>) sec
     = Inr (c\<lparr>cf_automount := as @ es\<rparr>)"
proof (induction es arbitrary: n as sec)
  case (Cons e es)
  then obtain m where "parse_lines n (automount_lines e @ concat (map automount_lines es) @ [[]]) (c\<lparr>cf_automount := as\<rparr>) sec
    = parse_lines m (concat (map automount_lines es) @ [[]]) (c\<lparr>cf_automount := as @ [e]\<rparr>) automount_section"
    using parse_entry [of e] Cons.prems by (metis list.pred_inject(2))
  then show ?case using Cons by simp
qed (simp add: parse_line_blank)

lemma clean_simps: "clean []" "clean (a @ b) \<longleftrightarrow> clean a \<and> clean b"
  "clean (x # s) \<longleftrightarrow> x \<noteq> newline \<and> x \<noteq> carriage_return \<and> clean s"
  by (auto simp: clean_def)

lemma clean_quote [simp]: "clean (quote s) = clean s"
proof -
  have "clean (escape s) = clean s" by (induction s) (auto simp: clean_simps)
  then show ?thesis by (simp add: quote_def clean_simps)
qed

lemma clean_uint [simp]: "clean (format_uint n)"
  using format_uint_digits [of n] digit_facts by (auto simp: clean_def list_all_iff)

lemma clean_join: "list_all clean xs \<Longrightarrow> clean sep \<Longrightarrow> clean (join_with sep xs)"
  by (induction sep xs rule: join_with.induct) (auto simp: clean_simps)

lemma char_neq [simp]: "newline \<noteq> carriage_return" "carriage_return \<noteq> newline"
  by (simp_all add: newline_def carriage_return_def)

lemma clean_entry: "valid_entry a \<Longrightarrow> list_all clean (automount_lines a)"
proof -
  have "clean ''path = ''" "clean ''name = ''" "clean ''bare = true''" "clean ''type = ''"
    "clean ''options = ''" "clean ''partition = ''" "clean automount_section"
    by code_simp+
  then show "valid_entry a \<Longrightarrow> list_all clean (automount_lines a)"
    unfolding automount_lines_def valid_entry_def by (simp add: clean_simps del: append_Cons)
qed

lemma clean_config: "valid_config c \<Longrightarrow> list_all clean (config_lines c)"
proof -
  assume v: "valid_config c"
  have "list_all clean (map quote (cf_scan_dirs c))"
    using v by (auto simp: valid_config_def list_all_iff)
  moreover have "clean '', ''" "clean ''dirs = [''" "clean '']''" "clean ''trim = ''" "clean ''restart = ''"
    "clean ''unlock_timeout_seconds = ''"
    by code_simp+
  ultimately have "clean (''dirs = ['' @ join_with '', '' (map quote (cf_scan_dirs c)) @ '']'')"
    "clean (''trim = '' @ format_bool (cf_compact_trim c))"
    "clean (''restart = '' @ format_bool (cf_compact_restart c))"
    "clean (''unlock_timeout_seconds = '' @ format_uint (unat (cf_unlock_timeout c)))"
    by (simp_all only: clean_simps clean_join clean_uint format_bool_facts simp_thms)
  moreover have "list_all clean file_comment" "list_all clean scan_comment" "list_all clean trim_comment"
    "list_all clean restart_comment" "list_all clean wsl_comment" "list_all clean automount_comment"
    "list_all clean ['''', ''[scan]'', ''[compact]'', ''[wsl]'']"
    by code_simp+
  moreover have "list_all clean (concat (map automount_lines (cf_automount c)))"
    using v clean_entry by (fastforce simp: valid_config_def list_all_iff)
  ultimately show "list_all clean (config_lines c)"
    unfolding config_lines_def by (simp only: list_all_append list.pred_inject simp_thms if_split)
qed

lemma split_lines: "list_all clean ls \<Longrightarrow> split_on newline (crlf_to_lf (concat (map (\<lambda>l. l @ [newline]) ls))) = ls @ [[]]"
proof -
  assume c: "list_all clean ls"
  then have "carriage_return \<notin> set (concat (map (\<lambda>l. l @ [newline]) ls))"
    by (auto simp: clean_def list_all_iff)
  moreover have "split_on newline (concat (map (\<lambda>l. l @ [newline]) ls)) = ls @ [[]]"
    using c by (induction ls) (auto simp: split_on_append clean_def)
  ultimately show ?thesis by (simp add: crlf_to_lf_id)
qed

lemma store_dirs:
  assumes "list_all (\<lambda>d. d \<noteq> [] \<and> trim_space d = d \<and> CHR '';'' \<notin> set d \<and> clean d) ds"
  shows "store_setting n ''dirs'' (''['' @ join_with '', '' (map quote ds) @ '']'') c ''scan''
    = Inr (c\<lparr>cf_scan_dirs := ds\<rparr>, ''scan'')"
  unfolding store_setting_def parse_toml_list
  by (simp add: automount_section_def config_value_def set_config_value_def set_scan_dirs [OF assms])

lemma store_trim: "store_setting n ''trim'' (format_bool b) c ''compact'' = Inr (c\<lparr>cf_compact_trim := b\<rparr>, ''compact'')"
  by (simp add: store_setting_def automount_section_def config_value_def set_config_value_def format_bool_facts)

lemma store_restart: "store_setting n ''restart'' (format_bool b) c ''compact'' = Inr (c\<lparr>cf_compact_restart := b\<rparr>, ''compact'')"
  by (simp add: store_setting_def automount_section_def config_value_def set_config_value_def format_bool_facts)

lemma store_timeout:
  "unat t \<le> 3600 \<Longrightarrow> store_setting n ''unlock_timeout_seconds'' (format_uint (unat t)) c ''wsl''
     = Inr (c\<lparr>cf_unlock_timeout := t\<rparr>, ''wsl'')"
proof -
  assume t: "unat t \<le> 3600"
  then have "parse_uint 32 (format_uint (unat t)) = Some (unat t)"
    by (intro parse_format_uint) simp
  with t show ?thesis
    by (simp add: store_setting_def automount_section_def config_value_def set_config_value_def
        parse_toml_uint)
qed

lemma parse_name_value:
  assumes "name \<in> {''dirs'', ''trim'', ''restart'', ''unlock_timeout_seconds''}"
    and "v \<noteq> []" "\<not> is_space (hd v)" "\<not> is_space (last v)"
  shows "parse_line n (name @ '' = '' @ v) c sec = store_setting n name v c sec"
  by (rule parse_line_setting) (use assms in \<open>auto simp: is_space_def\<close>)

definition is_comment :: "string \<Rightarrow> bool" where
  "is_comment l \<longleftrightarrow> l = [] \<or> hd l = CHR ''#'' \<and> \<not> is_space (last l)"

lemma parse_comments:
  "list_all is_comment ls \<Longrightarrow> parse_lines n (ls @ rest) c sec = parse_lines (n + length ls) rest c sec"
proof (induction ls arbitrary: n)
  case (Cons l ls)
  have "parse_line n l c sec = Inr (c, sec)"
    using Cons.prems parse_line_comment parse_line_blank by (cases "l = []") (auto simp: is_comment_def)
  then show ?case using Cons by simp
qed simp

lemma comments:
  "list_all is_comment file_comment" "list_all is_comment scan_comment" "list_all is_comment trim_comment"
  "list_all is_comment restart_comment" "list_all is_comment wsl_comment" "list_all is_comment automount_comment"
  by code_simp+

lemma parse_header:
  assumes v: "valid_config c"
  shows "\<exists>n. parse_lines 1 (config_lines c @ [[]]) default_config []
    = parse_lines n ((if cf_automount c \<noteq> [] then automount_comment else [])
        @ concat (map automount_lines (cf_automount c)) @ [[]]) (c\<lparr>cf_automount := []\<rparr>) ''wsl''"
proof -
  have sections: "\<And>n c sec. parse_line n ''[scan]'' c sec = Inr (c, ''scan'')"
    "\<And>n c sec. parse_line n ''[compact]'' c sec = Inr (c, ''compact'')"
    "\<And>n c sec. parse_line n ''[wsl]'' c sec = Inr (c, ''wsl'')"
    using parse_line_section [of "''scan''"] parse_line_section [of "''compact''"]
      parse_line_section [of "''wsl''"] by (simp_all add: is_space_def)
  have ds: "list_all (\<lambda>d. d \<noteq> [] \<and> trim_space d = d \<and> CHR '';'' \<notin> set d \<and> clean d) (cf_scan_dirs c)"
    and t: "unat (cf_unlock_timeout c) \<le> 3600"
    using v by (auto simp: valid_config_def)
  have dirs: "parse_line n (''dirs = ['' @ join_with '', '' (map quote (cf_scan_dirs c)) @ '']'') c' ''scan''
      = Inr (c'\<lparr>cf_scan_dirs := cf_scan_dirs c\<rparr>, ''scan'')" for n c'
    using parse_name_value [of "''dirs''" "''['' @ join_with '', '' (map quote (cf_scan_dirs c)) @ '']''"]
      store_dirs [OF ds] by (simp add: is_space_def)
  have trim: "parse_line n (''trim = '' @ format_bool b) c' ''compact''
      = Inr (c'\<lparr>cf_compact_trim := b\<rparr>, ''compact'')" for n c' b
    using parse_name_value [of "''trim''" "format_bool b"] store_trim format_bool_facts(1-3) by simp
  have restart: "parse_line n (''restart = '' @ format_bool b) c' ''compact''
      = Inr (c'\<lparr>cf_compact_restart := b\<rparr>, ''compact'')" for n c' b
    using parse_name_value [of "''restart''" "format_bool b"] store_restart format_bool_facts(1-3) by simp
  have timeout: "parse_line n (''unlock_timeout_seconds = '' @ format_uint (unat (cf_unlock_timeout c))) c' ''wsl''
      = Inr (c'\<lparr>cf_unlock_timeout := cf_unlock_timeout c\<rparr>, ''wsl'')" for n c'
    using parse_name_value [of "''unlock_timeout_seconds''" "format_uint (unat (cf_unlock_timeout c))"]
      store_timeout [OF t] format_uint_ends by simp
  have whole: "default_config\<lparr>cf_scan_dirs := cf_scan_dirs c, cf_compact_trim := cf_compact_trim c,
      cf_compact_restart := cf_compact_restart c, cf_unlock_timeout := cf_unlock_timeout c\<rparr>
      = c\<lparr>cf_automount := []\<rparr>"
    by (cases c) (simp add: default_config_def)
  note step = parse_lines_step [OF sections(1)] parse_lines_step [OF sections(2)]
    parse_lines_step [OF sections(3)] parse_lines_step [OF dirs] parse_lines_step [OF trim]
    parse_lines_step [OF restart] parse_lines_step [OF timeout] parse_lines_step [OF parse_line_blank]
  show ?thesis
    unfolding config_lines_def append_assoc
    by (simp only: parse_comments comments step whole) blast
qed



text \<open>A hand edit can crash the reader. The internal name of the automount section is not one
  that only \<open>[[automount]]\<close> can open: \<open>[ [[automount]] ]\<close> opens it too, without starting an entry,
  and the first setting after it indexes an empty table.\<close>

theorem config_hand_edit_panics:
  "parse_config (''[ [[automount]] ]'' @ [newline] @ ''path = x'') = Inl Panics"
  by code_simp

section \<open>Setting a value\<close>

lemma set_config_value_cases:
  assumes "set_config_value c key v = Some c'"
  obtains ds where "key = ''scan.dirs''" "c' = c\<lparr>cf_scan_dirs := ds\<rparr>"
    | b where "key = ''compact.trim''" "c' = c\<lparr>cf_compact_trim := b\<rparr>"
    | b where "key = ''compact.restart''" "c' = c\<lparr>cf_compact_restart := b\<rparr>"
    | n where "key = ''wsl.unlock_timeout_seconds''" "c' = c\<lparr>cf_unlock_timeout := n\<rparr>"
proof -
  consider "key = ''scan.dirs''" | "key = ''compact.trim''" | "key = ''compact.restart''"
    | "key = ''wsl.unlock_timeout_seconds''" | "set_config_value c key v = None"
    unfolding set_config_value_def by argo
  then show ?thesis
  proof cases
    case 1
    then show ?thesis using assms that(1) by (auto simp: set_config_value_def)
  next
    case 2
    then show ?thesis using assms that(2) by (auto simp: set_config_value_def)
  next
    case 3
    then show ?thesis using assms that(3) by (auto simp: set_config_value_def)
  next
    case 4
    then show ?thesis using assms that(4) by (auto simp: set_config_value_def split: option.splits if_splits)
  qed (use assms in simp)
qed

lemma set_keeps_other_keys:
  assumes "set_config_value c key v = Some c'" "k \<noteq> key"
  shows "config_value c' k = config_value c k"
  using assms(1) by (cases rule: set_config_value_cases) (use assms(2) in \<open>simp_all add: config_value_def\<close>)

lemma set_keeps_table: "set_config_value c key v = Some c' \<Longrightarrow> cf_automount c' = cf_automount c"
  by (erule set_config_value_cases) simp_all

lemma config_value_known: "config_value c key \<noteq> None \<longleftrightarrow> key \<in> set config_keys"
  by (auto simp: config_value_def config_keys_def)

end
