(* ===== verification/DiskAutomount.thy ===== *)
theory DiskAutomount
  imports DiskUsage DiskConfig
begin

text \<open>
  \<open>internal/disk/automount.go\<close>: the table of extra disks to attach, and attaching them. Attaching
  is an argument: the interface \<open>Mounter\<close>.
\<close>

definition mount_args :: "automount_entry \<Rightarrow> string list" where
  "mount_args a =
     [''--mount'', ae_path a, ''--vhd'']
     @ (if ae_bare a then [''--bare'']
        else (if ae_name a \<noteq> [] then [''--name'', ae_name a] else [])
             @ (if ae_type a \<noteq> [] then [''--type'', ae_type a] else [])
             @ (if ae_options a \<noteq> [] then [''--options'', ae_options a] else [])
             @ (if ae_partition a > 0 then [''--partition'', format_uint (nat (ae_partition a))] else []))"

definition validate_automount ::
  "automount_entry \<Rightarrow> automount_entry list \<Rightarrow> registration list \<Rightarrow> disk_error option"
where
  "validate_automount a table registered =
     (let p = trim_space (ae_path a); lower = to_lower p
      in if p = [] then Some ErrRefused
         else if (length p \<le> 2 \<or> p ! 1 \<noteq> CHR '':'') \<and> \<not> has_prefix p [backslash, backslash]
         then Some ErrRefused
         else if \<not> has_suffix lower ''.vhdx'' \<and> \<not> has_suffix lower ''.vhd'' then Some ErrRefused
         else if ae_bare a \<and> (ae_name a \<noteq> [] \<or> ae_type a \<noteq> [] \<or> ae_options a \<noteq> [] \<or> ae_partition a > 0)
         then Some ErrRefused
         else if ae_partition a < 0 then Some ErrRefused
         else if ae_name a \<noteq> [] \<and> \<not> valid_name (ae_name a) then Some ErrRefused
         else if list_ex (\<lambda>r. vhd_path r \<noteq> [] \<and> same_path (vhd_path r) p) registered then Some ErrRefused
         else if list_ex (\<lambda>t. same_path (ae_path t) p) table then Some ErrRefused
         else None)"

definition remove_automount :: "automount_entry list \<Rightarrow> string \<Rightarrow> automount_entry list \<times> bool" where
  "remove_automount table path =
     (filter (\<lambda>t. \<not> same_path (ae_path t) path) table, list_ex (\<lambda>t. same_path (ae_path t) path) table)"

datatype automount_outcome = Attached | AlreadyHeld | Missing | MountFailed string

fun apply_automount ::
  "'w env \<Rightarrow> (string list \<Rightarrow> ('w, command_result) cmd) \<Rightarrow> automount_entry list \<Rightarrow> 'w
     \<Rightarrow> (automount_entry \<times> automount_outcome) list \<times> 'w"
where
  "apply_automount E mount [] w = ([], w)"
| "apply_automount E mount (a # as) w =
     (case (if \<not> e_exists E (ae_path a) w then (Missing, w)
            else if e_locked E (ae_path a) w = Inr True then (AlreadyHeld, w)
            else (case mount (mount_args a) w of
                    (Inl e, w1) \<Rightarrow> (MountFailed e, w1)
                  | (Inr r, w1) \<Rightarrow>
                      if cr_exit_code r \<noteq> 0
                      then (MountFailed (one_line (cr_stdout r @ '' '' @ cr_stderr r)), w1)
                      else (Attached, w1))) of
        (res, w1) \<Rightarrow>
          (case apply_automount E mount as w1 of (rest, w2) \<Rightarrow> ((a, res) # rest, w2)))"

section \<open>Facts\<close>

text \<open>One disk that cannot be attached does not stop the rest: every entry gets an outcome.\<close>

lemma apply_automount_all: "map fst (fst (apply_automount E mount as w)) = as"
  by (induction as arbitrary: w) (simp_all add: case_prod_beta)

text \<open>The table the two commands keep: no disk twice, and no distribution's own disk.\<close>

definition table_ok :: "registration list \<Rightarrow> automount_entry list \<Rightarrow> bool" where
  "table_ok registered table \<longleftrightarrow>
     distinct (map (\<lambda>t. canonical_path (ae_path t)) table)
     \<and> (\<forall>t \<in> set table. \<not> (\<exists>r \<in> set registered. vhd_path r \<noteq> [] \<and> same_path (vhd_path r) (ae_path t)))"

lemma table_ok_add:
  assumes "table_ok registered table" "validate_automount a table registered = None"
    and "trim_space (ae_path a) = ae_path a"
  shows "table_ok registered (table @ [a])"
proof -
  have "\<not> list_ex (\<lambda>r. vhd_path r \<noteq> [] \<and> same_path (vhd_path r) (ae_path a)) registered"
    and "\<not> list_ex (\<lambda>t. same_path (ae_path t) (ae_path a)) table"
    using assms(2) unfolding validate_automount_def Let_def assms(3) by (auto split: if_split_asm)
  then show ?thesis
    using assms(1) by (auto simp: table_ok_def list_ex_iff same_path_def)
qed

lemma table_ok_remove: "table_ok registered table \<Longrightarrow> table_ok registered (fst (remove_automount table path))"
  by (auto simp: table_ok_def remove_automount_def distinct_map inj_on_def)

text \<open>Removing what was added gives the table back.\<close>

lemma remove_added:
  "validate_automount a table registered = None \<Longrightarrow> trim_space (ae_path a) = ae_path a \<Longrightarrow>
     remove_automount (table @ [a]) (ae_path a) = (table, True)"
proof -
  assume v: "validate_automount a table registered = None" and t: "trim_space (ae_path a) = ae_path a"
  have "\<not> list_ex (\<lambda>t. same_path (ae_path t) (ae_path a)) table"
    using v unfolding validate_automount_def Let_def t by (auto split: if_split_asm)
  then have "filter (\<lambda>t. \<not> same_path (ae_path t) (ae_path a)) table = table"
    by (auto simp: list_ex_iff filter_id_conv)
  then show ?thesis by (simp add: remove_automount_def)
qed

end
