(* ===== verification/Vhdx.thy ===== *)
theory Vhdx
  imports GoStd
begin

text \<open>
  \<open>internal/vhdx/vhdx.go\<close>: reading the shape and the contents of a virtual disk from its file. The
  file is the list of its bytes; \<open>io.ReaderAt\<close> reads a range of it or fails. The block allocation
  table interleaves one entry for a sector bitmap after every \<open>chunkRatio\<close> payload entries.
\<close>

section \<open>The file\<close>

definition read_range :: "bytes \<Rightarrow> nat \<Rightarrow> nat \<Rightarrow> bytes option" where
  "read_range f off n = (if off + n \<le> length f then Some (take n (drop off f)) else None)"

definition string_bytes :: "string \<Rightarrow> bytes" where
  "string_bytes s = map of_char s"

text \<open>Package \<open>hash/crc32\<close> with the Castagnoli polynomial.\<close>

fun crc_bits :: "nat \<Rightarrow> u32 \<Rightarrow> u32" where
  "crc_bits 0 c = c"
| "crc_bits (Suc n) c =
     crc_bits n (if c AND 1 = 1 then drop_bit 1 c XOR 0x82F63B78 else drop_bit 1 c)"

definition crc32c :: "bytes \<Rightarrow> u32" where
  "crc32c b = NOT (foldl (\<lambda>c x. crc_bits 8 (c XOR ucast x)) (NOT 0) b)"

text \<open>\<open>mustGUID\<close>: three little-endian fields, then eight bytes as written.\<close>

definition guid_of :: "nat \<Rightarrow> nat \<Rightarrow> nat \<Rightarrow> bytes \<Rightarrow> bytes" where
  "guid_of d1 d2 d3 d4 = le_bytes 4 d1 @ le_bytes 2 d2 @ le_bytes 2 d3 @ d4"

definition guid_bat :: bytes where
  "guid_bat = guid_of 0x2DC27766 0xF623 0x4200 [0x9D, 0x64, 0x11, 0x5E, 0x9B, 0xFD, 0x4A, 0x08]"
definition guid_metadata :: bytes where
  "guid_metadata = guid_of 0x8B7CA206 0x4790 0x4B9A [0xB8, 0xFE, 0x57, 0x5F, 0x05, 0x0F, 0x88, 0x6E]"
definition guid_file_parameters :: bytes where
  "guid_file_parameters = guid_of 0xCAA16737 0xFA36 0x4D43 [0xB3, 0xB6, 0x33, 0xF0, 0xAA, 0x44, 0xE7, 0x6B]"
definition guid_virtual_disk_size :: bytes where
  "guid_virtual_disk_size = guid_of 0x2FA54224 0xCD1B 0x4876 [0xB2, 0x11, 0x5D, 0xBE, 0xD8, 0x3B, 0xF4, 0xB8]"
definition guid_logical_sector :: bytes where
  "guid_logical_sector = guid_of 0x8141BF1D 0xA96F 0x4709 [0xBA, 0x47, 0xF2, 0x33, 0xA8, 0xFA, 0xAB, 0x5F]"
definition guid_physical_sector :: bytes where
  "guid_physical_sector = guid_of 0xCDA348C7 0x445D 0x4471 [0x9C, 0xC9, 0xE9, 0x88, 0x52, 0x51, 0xC5, 0x56]"

section \<open>What is learned\<close>

record vhd_info =
  vi_magic_ok :: bool
  vi_header_ok :: bool
  vi_header_seq :: u64
  vi_virtual_size :: u64
  vi_block_size :: u32
  vi_logical_sector :: u32
  vi_physical_sector :: u32
  vi_leave_allocated :: bool
  vi_has_parent :: bool
  vi_bat_entries :: u32
  vi_allocated_bytes :: u64
  vi_partial_blocks :: u32

definition no_vhd_info :: vhd_info where
  "no_vhd_info = \<lparr>vi_magic_ok = False, vi_header_ok = False, vi_header_seq = 0, vi_virtual_size = 0,
     vi_block_size = 0, vi_logical_sector = 0, vi_physical_sector = 0, vi_leave_allocated = False,
     vi_has_parent = False, vi_bat_entries = 0, vi_allocated_bytes = 0, vi_partial_blocks = 0\<rparr>"

datatype vhdx_error =
    ReadFailed | NotVHDX | BadMagic | BadChecksum | OutOfRange | NoMetadataRegion | MissingMetadata
  | ZeroChunkRatio | BatTooSmall | BatTooLarge | NegativeOffset | NoTable | EndOfDisk
  | OutsideFile nat | PartiallyPresent nat

section \<open>Headers and tables\<close>

text \<open>A structure that carries its own checksum, computed with the checksum field zeroed.\<close>

definition checked_block :: "string \<Rightarrow> bytes \<Rightarrow> vhdx_error + bytes" where
  "checked_block magic buf =
     (if take 4 buf \<noteq> string_bytes magic then Inl BadMagic
      else if crc32c (take 4 buf @ [0, 0, 0, 0] @ drop 8 buf) \<noteq> u32_le buf 4 then Inl BadChecksum
      else Inr buf)"

definition read_header :: "bytes \<Rightarrow> nat \<Rightarrow> vhdx_error + u64" where
  "read_header f off =
     (case read_range f off 4096 of
        None \<Rightarrow> Inl ReadFailed
      | Some buf \<Rightarrow> (case checked_block ''head'' buf of Inl e \<Rightarrow> Inl e | Inr _ \<Rightarrow> Inr (u64_le buf 8)))"

record region =
  rg_guid :: bytes
  rg_offset :: u64
  rg_length :: u32

definition region_at :: "bytes \<Rightarrow> nat \<Rightarrow> region" where
  "region_at buf i =
     (let e = drop (16 + i * 32) buf
      in \<lparr>rg_guid = take 16 e, rg_offset = u64_le e 16, rg_length = u32_le e 24\<rparr>)"

definition read_region_table :: "bytes \<Rightarrow> nat \<Rightarrow> vhdx_error + region list" where
  "read_region_table f off =
     (case read_range f off (64 * 1024) of
        None \<Rightarrow> Inl ReadFailed
      | Some buf \<Rightarrow>
          (case checked_block ''regi'' buf of
             Inl e \<Rightarrow> Inl e
           | Inr _ \<Rightarrow>
               (let count = u32_le buf 8
                in if count > 2047 then Inl OutOfRange
                   else Inr (map (region_at buf) [0..<unat count]))))"

text \<open>One metadata item.\<close>

definition store_item :: "bytes \<Rightarrow> bytes \<Rightarrow> vhd_info \<Rightarrow> vhd_info" where
  "store_item g v i =
     (if g = guid_file_parameters
      then (if length v \<ge> 8
            then i\<lparr>vi_block_size := u32_le v 0, vi_leave_allocated := (u32_le v 4 AND 1 \<noteq> 0),
                   vi_has_parent := (u32_le v 4 AND 2 \<noteq> 0)\<rparr> else i)
      else if g = guid_virtual_disk_size
      then (if length v \<ge> 8 then i\<lparr>vi_virtual_size := u64_le v 0\<rparr> else i)
      else if g = guid_logical_sector
      then (if length v \<ge> 4 then i\<lparr>vi_logical_sector := u32_le v 0\<rparr> else i)
      else if g = guid_physical_sector
      then (if length v \<ge> 4 then i\<lparr>vi_physical_sector := u32_le v 0\<rparr> else i)
      else i)"

fun read_items :: "bytes \<Rightarrow> region \<Rightarrow> bytes \<Rightarrow> nat list \<Rightarrow> vhd_info \<Rightarrow> vhdx_error option \<times> vhd_info" where
  "read_items f m hdr [] i = (None, i)"
| "read_items f m hdr (k # ks) i =
     (let e = drop (32 + k * 32) hdr; g = take 16 e; off = u32_le e 16; len = u32_le e 20
      in if len > 4096 \<or> unat off + unat len > unat (rg_length m) then read_items f m hdr ks i
         else (case read_range f (unat (rg_offset m) + unat off) (unat len) of
                 None \<Rightarrow> (Some ReadFailed, i)
               | Some v \<Rightarrow> read_items f m hdr ks (store_item g v i)))"

definition read_metadata :: "bytes \<Rightarrow> region \<Rightarrow> vhd_info \<Rightarrow> vhdx_error option \<times> vhd_info" where
  "read_metadata f m i =
     (if rg_length m < 64 * 1024 \<or> rg_length m > 16 * 1024 * 1024 then (Some OutOfRange, i)
      else case read_range f (unat (rg_offset m)) (64 * 1024) of
        None \<Rightarrow> (Some ReadFailed, i)
      | Some hdr \<Rightarrow>
          if take 8 hdr \<noteq> string_bytes ''metadata'' then (Some BadMagic, i)
          else (let count = u16_le hdr 10
                in if count > 2047 then (Some OutOfRange, i)
                   else (case read_items f m hdr [0..<unat count] i of
                           (Some e, i1) \<Rightarrow> (Some e, i1)
                         | (None, i1) \<Rightarrow>
                             if vi_block_size i1 = 0 \<or> vi_virtual_size i1 = 0 then (Some MissingMetadata, i1)
                             else (None, i1))))"

section \<open>The block allocation table\<close>

definition payload_fully_present :: u64 where "payload_fully_present = 6"
definition payload_partially_present :: u64 where "payload_partially_present = 7"

definition chunk_ratio :: "vhd_info \<Rightarrow> u64" where
  "chunk_ratio i = 2 ^ 23 * ucast (vi_logical_sector i) div ucast (vi_block_size i)"

definition data_blocks :: "vhd_info \<Rightarrow> u64" where
  "data_blocks i = (vi_virtual_size i + ucast (vi_block_size i) - 1) div ucast (vi_block_size i)"

definition total_entries :: "vhd_info \<Rightarrow> u64" where
  "total_entries i = data_blocks i + (data_blocks i - 1) div chunk_ratio i"

text \<open>The loop over the entries keeps those that are not a sector bitmap's.\<close>

definition payload_entries :: "nat \<Rightarrow> nat \<Rightarrow> bytes \<Rightarrow> u64 list" where
  "payload_entries ratio n buf =
     map (\<lambda>k. u64_le buf (k * 8)) (filter (\<lambda>k. (k + 1) mod (ratio + 1) \<noteq> 0) [0..<n])"

definition with_sector :: "vhd_info \<Rightarrow> vhd_info" where
  "with_sector i = (if vi_logical_sector i = 0 then i\<lparr>vi_logical_sector := 512\<rparr> else i)"

definition read_bat :: "bytes \<Rightarrow> region \<Rightarrow> vhd_info \<Rightarrow> vhdx_error + (vhd_info \<times> u64 list)" where
  "read_bat f b i0 =
     (let i = with_sector i0
      in if chunk_ratio i = 0 then Inl ZeroChunkRatio
         else (let total = total_entries i
               in if rg_length b < 8 \<or> unat (rg_length b) div 8 < unat total then Inl BatTooSmall
                  else if total > 32 * 1024 * 1024 then Inl BatTooLarge
                  else (case read_range f (unat (rg_offset b)) (unat total * 8) of
                          None \<Rightarrow> Inl ReadFailed
                        | Some buf \<Rightarrow>
                            (let bat = payload_entries (unat (chunk_ratio i)) (unat total) buf;
                                 full = filter (\<lambda>x. x AND 7 = payload_fully_present) bat;
                                 partial = filter (\<lambda>x. x AND 7 = payload_partially_present) bat
                             in Inr (i\<lparr>vi_bat_entries := of_nat (length bat),
                                       vi_allocated_bytes := of_nat (length full) * ucast (vi_block_size i),
                                       vi_partial_blocks := of_nat (length partial)\<rparr>, bat)))))"

section \<open>Opening\<close>

record reader =
  rd_file :: bytes
  rd_file_size :: int
  rd_info :: vhd_info
  rd_bat :: "u64 list"

definition find_region :: "bytes \<Rightarrow> region list \<Rightarrow> region option" where
  "find_region g rs = find (\<lambda>x. rg_guid x = g) (rev rs)"

definition pick_header :: "vhdx_error + u64 \<Rightarrow> vhdx_error + u64 \<Rightarrow> vhdx_error + u64" where
  "pick_header h1 h2 =
     (case (h1, h2) of
        (Inr a, Inr b) \<Rightarrow> Inr (if b > a then b else a)
      | (Inr a, Inl _) \<Rightarrow> Inr a
      | (Inl _, Inr b) \<Rightarrow> Inr b
      | (Inl e, Inl _) \<Rightarrow> Inl e)"

definition open_tables :: "bytes \<Rightarrow> int \<Rightarrow> vhd_info \<Rightarrow> reader \<times> vhdx_error option" where
  "open_tables f file_size i =
     (let d = \<lparr>rd_file = f, rd_file_size = file_size, rd_info = i, rd_bat = []\<rparr>
      in case (case read_region_table f (192 * 1024) of
                 Inr rs \<Rightarrow> Inr rs | Inl _ \<Rightarrow> read_region_table f (256 * 1024)) of
           Inl e \<Rightarrow> (d, Some e)
         | Inr regions \<Rightarrow>
             (case find_region guid_metadata regions of
                None \<Rightarrow> (d, Some NoMetadataRegion)
              | Some meta \<Rightarrow>
                  (case read_metadata f meta i of
                     (Some e, i1) \<Rightarrow> (d\<lparr>rd_info := i1\<rparr>, Some e)
                   | (None, i1) \<Rightarrow>
                       (case find_region guid_bat regions of
                          None \<Rightarrow> (d\<lparr>rd_info := i1\<rparr>, None)
                        | Some b \<Rightarrow>
                            if vi_block_size i1 > 0 \<and> vi_virtual_size i1 > 0
                            then (case read_bat f b i1 of
                                    Inl e \<Rightarrow> (d\<lparr>rd_info := with_sector i1\<rparr>, Some e)
                                  | Inr (i2, bat) \<Rightarrow> (d\<lparr>rd_info := i2, rd_bat := bat\<rparr>, None))
                            else (d\<lparr>rd_info := i1\<rparr>, None)))))"

definition open_vhdx :: "bytes \<Rightarrow> int \<Rightarrow> reader \<times> vhdx_error option" where
  "open_vhdx f file_size =
     (let d = \<lparr>rd_file = f, rd_file_size = file_size, rd_info = no_vhd_info, rd_bat = []\<rparr>;
          i1 = no_vhd_info\<lparr>vi_magic_ok := True\<rparr>
      in case read_range f 0 8 of
           None \<Rightarrow> (d, Some ReadFailed)
         | Some magic \<Rightarrow>
             if magic \<noteq> string_bytes ''vhdxfile'' then (d, Some NotVHDX)
             else (case pick_header (read_header f (64 * 1024)) (read_header f (128 * 1024)) of
                     Inl e \<Rightarrow> (d\<lparr>rd_info := i1\<rparr>, Some e)
                   | Inr s \<Rightarrow>
                       open_tables f file_size (i1\<lparr>vi_header_ok := True, vi_header_seq := s\<rparr>)))"

section \<open>Reading at a virtual offset\<close>

text \<open>\<open>at\<close> is an \<open>int64\<close>, so it is kept as a word and compared through \<open>sint\<close>.\<close>

definition block_at :: "u64 \<Rightarrow> nat \<Rightarrow> u64" where
  "block_at entry within = push_bit 20 (drop_bit 20 entry) + of_nat within"

definition read_block :: "reader \<Rightarrow> nat \<Rightarrow> nat \<Rightarrow> nat \<Rightarrow> vhdx_error + bytes" where
  "read_block d block within want =
     (let entry = rd_bat d ! block
      in if entry AND 7 = payload_fully_present
         then (let at = block_at entry within
               in if sint at < 0 \<or> rd_file_size d > 0 \<and> sint (at + of_nat want) > rd_file_size d
                  then Inl (OutsideFile block)
                  else (case read_range (rd_file d) (unat at) want of
                          None \<Rightarrow> Inl ReadFailed | Some b \<Rightarrow> Inr b))
         else if entry AND 7 = payload_partially_present then Inl (PartiallyPresent block)
         else Inr (replicate want 0))"

text \<open>One round of the loop, after \<open>n\<close> bytes; and the loop, with the bytes read so far. No round
  reads nothing: \<open>next_block_length\<close> below.\<close>

definition next_block :: "reader \<Rightarrow> nat \<Rightarrow> nat \<Rightarrow> nat \<Rightarrow> vhdx_error + bytes" where
  "next_block d plen off n =
     (let vo = off + n; bsize = unat (vi_block_size (rd_info d)); block = vo div bsize
      in if int vo \<ge> sint (vi_virtual_size (rd_info d)) then Inl EndOfDisk
         else if block \<ge> length (rd_bat d) then Inl EndOfDisk
         else read_block d block (vo mod bsize) (min (plen - n) (bsize - vo mod bsize)))"

function read_loop :: "reader \<Rightarrow> nat \<Rightarrow> nat \<Rightarrow> bytes \<Rightarrow> bytes \<times> vhdx_error option" where
  "read_loop d plen off acc =
     (if \<not> length acc < plen then (acc, None)
      else (case next_block d plen off (length acc) of
              Inl e \<Rightarrow> (acc, Some e)
            | Inr b \<Rightarrow> if b = [] then (acc, None) else read_loop d plen off (acc @ b)))"
  by pat_completeness auto
termination
  by (relation "Wellfounded.measure (\<lambda>(d, plen, off, acc). plen - length acc)")
    (auto simp: diff_less_mono2)

declare read_loop.simps [simp del]

definition read_at :: "reader \<Rightarrow> nat \<Rightarrow> int \<Rightarrow> bytes \<times> vhdx_error option" where
  "read_at d plen off =
     (if off < 0 then ([], Some NegativeOffset)
      else if vi_block_size (rd_info d) = 0 \<or> rd_bat d = [] then ([], Some NoTable)
      else read_loop d plen (nat off) [])"

section \<open>Where an entry lies\<close>

definition bat_index :: "nat \<Rightarrow> nat \<Rightarrow> nat" where
  "bat_index ratio k = k + k div ratio"

lemma payload_filter:
  assumes "0 < c" "0 < n"
  shows "filter (\<lambda>k. (k + 1) mod (c + 1) \<noteq> 0) [0..<n + (n - 1) div c] = map (bat_index c) [0..<n]"
  using assms(2)
proof (induction n rule: nat_induct_non_zero)
  case 1
  then show ?case using assms(1) by (simp add: bat_index_def)
next
  case (Suc n)
  let ?P = "\<lambda>k. (k + 1) mod (c + 1) \<noteq> 0"
  obtain q r where n: "n = c * q + r" "r < c"
    using assms(1) by (metis div_mult_mod_eq mod_less_divisor mult.commute)
  have dn: "n div c = q" using n assms(1) by simp
  show ?case
  proof (cases "r = 0")
    case True
    then have q: "0 < q" using n Suc.hyps assms(1) by (cases q) auto
    have "(n - 1) div c = q - 1"
    proof -
      have "n - 1 = c * (q - 1) + (c - 1)" using n True q assms(1)
        by (cases q) (auto simp: algebra_simps)
      then show ?thesis
        by (intro div_nat_eqI) (use assms(1) in \<open>auto simp: algebra_simps\<close>)
    qed
    then have up: "[0..<Suc n + (Suc n - 1) div c] = [0..<n + (n - 1) div c] @ [n + (q - 1), n + q]"
      using q dn by (cases q) simp_all
    have "(n + (q - 1) + 1) mod (c + 1) = 0"
    proof -
      have "n + (q - 1) + 1 = q * (c + 1)" using n True q by (simp add: algebra_simps)
      then show ?thesis by (simp only: mod_mult_self2_is_0)
    qed
    moreover have "(n + q + 1) mod (c + 1) \<noteq> 0"
    proof -
      have "n + q + 1 = q * (c + 1) + 1" using n True by (simp add: algebra_simps)
      then have "(n + q + 1) mod (c + 1) = 1 mod (c + 1)" by (metis mod_mult_self3)
      then show ?thesis using assms(1) by simp
    qed
    ultimately show ?thesis
      unfolding up using Suc.IH dn by (simp add: bat_index_def)
  next
    case False
    have "(n - 1) div c = q"
    proof -
      have "n - 1 = c * q + (r - 1)" using n False by simp
      then show ?thesis using n(2) by simp
    qed
    then have up: "[0..<Suc n + (Suc n - 1) div c] = [0..<n + (n - 1) div c] @ [n + q]"
      using dn by simp
    have "(n + q + 1) mod (c + 1) \<noteq> 0"
    proof -
      have "n + q + 1 = q * (c + 1) + (r + 1)" using n by (simp add: algebra_simps)
      then have "(n + q + 1) mod (c + 1) = (r + 1) mod (c + 1)" by (metis mod_mult_self3)
      then show ?thesis using n(2) by simp
    qed
    then show ?thesis
      unfolding up using Suc.IH dn by (simp add: bat_index_def)
  qed
qed

lemma payload_entries_index:
  assumes "0 < c" "0 < n"
  shows "payload_entries c (n + (n - 1) div c) raw = map (\<lambda>k. u64_le raw (bat_index c k * 8)) [0..<n]"
  unfolding payload_entries_def payload_filter [OF assms] by simp

section \<open>The disk the guest sees\<close>

definition entry_base :: "u64 \<Rightarrow> nat" where
  "entry_base e = unat (push_bit 20 (drop_bit 20 e) :: u64)"

definition guest_byte :: "bytes \<Rightarrow> u64 list \<Rightarrow> nat \<Rightarrow> nat \<Rightarrow> u8" where
  "guest_byte f bat bsize vo =
     (let e = bat ! (vo div bsize)
      in if e AND 7 = payload_fully_present then f ! (entry_base e + vo mod bsize) else 0)"

text \<open>Every block is whole, and inside the file.\<close>

definition sound_bat :: "bytes \<Rightarrow> u64 list \<Rightarrow> nat \<Rightarrow> bool" where
  "sound_bat f bat bsize \<longleftrightarrow> list_all (\<lambda>e. e AND 7 \<noteq> payload_partially_present
     \<and> (e AND 7 = payload_fully_present \<longrightarrow> entry_base e + bsize \<le> length f)) bat"

lemma sint_small: "unat (w :: u64) < 2 ^ 63 \<Longrightarrow> sint w = int (unat w)"
proof -
  assume "unat w < 2 ^ 63"
  then have "int (unat w) < int (2 ^ 63)" by (simp only: of_nat_less_iff)
  then have "uint w < 2 ^ 63" by simp
  then have "signed_take_bit 63 (uint w) = uint w" using uint_ge_0 [of w] by (intro signed_take_bit_int_eq_self) linarith+
  then show ?thesis by (simp add: sint_uint)
qed

lemma div_mod_within:
  "w + j < b \<Longrightarrow> (b * q + w + j) div b = q \<and> (b * q + w + j) mod b = w + (j :: nat)"
  by (simp add: add.assoc)

lemma read_block_guest:
  assumes sound: "sound_bat (rd_file d) (rd_bat d) bsize" and small: "length (rd_file d) < 2 ^ 63"
    and fsz: "rd_file_size d \<le> 0 \<or> rd_file_size d = int (length (rd_file d))"
    and block: "vo div bsize < length (rd_bat d)" and want: "vo mod bsize + want \<le> bsize" "0 < want"
  shows "read_block d (vo div bsize) (vo mod bsize) want
    = Inr (map (guest_byte (rd_file d) (rd_bat d) bsize) [vo..<vo + want])"
proof -
  let ?e = "rd_bat d ! (vo div bsize)" and ?w = "vo mod bsize" and ?f = "rd_file d"
  have s: "?e AND 7 \<noteq> payload_partially_present"
    "?e AND 7 = payload_fully_present \<Longrightarrow> entry_base ?e + bsize \<le> length ?f"
    using sound block by (auto simp: sound_bat_def list_all_length)
  have dm: "(vo + j) div bsize = vo div bsize" "(vo + j) mod bsize = ?w + j" if "j < want" for j
  proof -
    have less: "?w + j < bsize" using that want by simp
    show "(vo + j) div bsize = vo div bsize" "(vo + j) mod bsize = ?w + j"
      using div_mod_within [OF less, of "vo div bsize"] by simp_all
  qed
  have g: "map (guest_byte ?f (rd_bat d) bsize) [vo..<vo + want]
      = map (\<lambda>j. if ?e AND 7 = payload_fully_present then ?f ! (entry_base ?e + (?w + j)) else 0) [0..<want]"
  proof (rule nth_equalityI)
    fix j assume "j < length (map (guest_byte ?f (rd_bat d) bsize) [vo..<vo + want])"
    then have j: "j < want" by simp
    then show "map (guest_byte ?f (rd_bat d) bsize) [vo..<vo + want] ! j
      = map (\<lambda>j. if ?e AND 7 = payload_fully_present then ?f ! (entry_base ?e + (?w + j)) else 0) [0..<want] ! j"
      by (simp add: guest_byte_def dm [OF j] Let_def)
  qed simp
  show ?thesis
  proof (cases "?e AND 7 = payload_fully_present")
    case False
    then show ?thesis using s(1) unfolding g by (simp add: read_block_def Let_def map_replicate_const)
  next
    case True
    let ?at = "block_at ?e ?w"
    have fit: "entry_base ?e + ?w + want \<le> length ?f" using s(2) [OF True] want by simp
    have lt: "entry_base ?e + ?w + want < 2 ^ 64" using fit small by simp
    have ua: "unat ?at = entry_base ?e + ?w"
      using lt by (simp add: block_at_def entry_base_def unat_word_ariths unat_of_nat)
    have uw: "unat (?at + of_nat want) = entry_base ?e + ?w + want"
      using lt ua by (simp add: unat_word_ariths unat_of_nat)
    have "sint ?at = int (entry_base ?e + ?w)"
      using sint_small [of ?at] ua fit small by simp
    moreover have "sint (?at + of_nat want) = int (entry_base ?e + ?w + want)"
      using sint_small [of "?at + of_nat want"] uw fit small by simp
    ultimately have inside: "\<not> (sint ?at < 0 \<or> rd_file_size d > 0 \<and> sint (?at + of_nat want) > rd_file_size d)"
      using fsz fit by auto
    have "read_range ?f (unat ?at) want = Some (take want (drop (entry_base ?e + ?w) ?f))"
      using fit ua by (simp add: read_range_def)
    moreover have "take want (drop (entry_base ?e + ?w) ?f)
        = map (\<lambda>j. ?f ! (entry_base ?e + (?w + j))) [0..<want]"
      by (rule nth_equalityI) (use fit in \<open>simp_all add: add.assoc\<close>)
    ultimately show ?thesis
      unfolding g using True inside by (simp add: read_block_def Let_def)
  qed
qed

lemma read_loop_guest:
  assumes sound: "sound_bat (rd_file d) (rd_bat d) (unat (vi_block_size (rd_info d)))"
    and small: "length (rd_file d) < 2 ^ 63"
    and fsz: "rd_file_size d \<le> 0 \<or> rd_file_size d = int (length (rd_file d))"
    and bsize: "bsize = unat (vi_block_size (rd_info d))" "0 < bsize"
    and vsize: "sint (vi_virtual_size (rd_info d)) = int vsize"
    and blocks: "length (rd_bat d) = (vsize + bsize - 1) div bsize"
    and off: "off < vsize" "length acc \<le> plen"
    and acc: "acc = map (guest_byte (rd_file d) (rd_bat d) bsize) [off..<off + length acc]"
    and at: "acc = [] \<or> length acc = plen \<or> (off + length acc) mod bsize = 0"
    and inside: "off + length acc \<le> length (rd_bat d) * bsize"
  shows "read_loop d plen off acc =
    (let n = min plen (length (rd_bat d) * bsize - off)
     in (map (guest_byte (rd_file d) (rd_bat d) bsize) [off..<off + n],
         if n = plen then None else Some EndOfDisk))"
  using off(2) acc at inside
proof (induction "plen - length acc" arbitrary: acc rule: less_induct)
  case less
  let ?g = "guest_byte (rd_file d) (rd_bat d) bsize" and ?n = "length acc"
  let ?D = "length (rd_bat d)" and ?vo = "off + length acc"
  let ?N = "min plen (?D * bsize - off)"
  have end_D: "vsize \<le> ?D * bsize" "(?D - 1) * bsize < vsize"
  proof -
    have "vsize + bsize - 1 < Suc ((vsize + bsize - 1) div bsize) * bsize"
      using bsize(2) by (metis dividend_less_div_times mult_Suc)
    then show "vsize \<le> ?D * bsize" unfolding blocks by simp
    have "(?D - 1) * bsize = ?D * bsize - bsize" by (simp add: diff_mult_distrib)
    moreover have "?D * bsize \<le> vsize + bsize - 1" unfolding blocks by simp
    ultimately show "(?D - 1) * bsize < vsize" using off(1) bsize(2) by linarith
  qed
  show ?case
  proof (cases "?n < plen")
    case False
    then have "?n = plen" using less.prems(1) by simp
    moreover from this have "?N = plen" using less.prems(4) by simp
    ultimately show ?thesis
      using less.prems(2) False by (subst read_loop.simps) (simp add: Let_def)
  next
    case True
    show ?thesis
    proof (cases "?vo = ?D * bsize")
      case at_end: True
      then have "next_block d plen off ?n = Inl EndOfDisk"
        using bsize by (simp add: next_block_def Let_def)
      moreover have "?N = ?n" using at_end True by simp
      ultimately show ?thesis
        using less.prems(2) True by (subst read_loop.simps) (simp add: Let_def)
    next
      case False
      then have vo: "?vo < ?D * bsize" using less.prems(4) by simp
      have "?vo < vsize"
      proof (cases "acc = []")
        case True
        then show ?thesis using off(1) by simp
      next
        case False
        then have "bsize dvd ?vo" using less.prems(3) True by auto
        then obtain k where k: "?vo = bsize * k" by blast
        then have "k < ?D" using vo by (simp add: mult.commute)
        then have "k \<le> ?D - 1" by linarith
        then have "?vo \<le> (?D - 1) * bsize" using k by (simp add: mult.commute)
        then show ?thesis using end_D(2) by simp
      qed
      moreover have blk: "?vo div bsize < ?D" using vo by (simp add: less_mult_imp_div_less)
      ultimately have "next_block d plen off ?n
          = read_block d (?vo div bsize) (?vo mod bsize) (min (plen - ?n) (bsize - ?vo mod bsize))"
        using vsize by (simp add: next_block_def Let_def bsize(1) [symmetric])
      moreover define want where "want = min (plen - ?n) (bsize - ?vo mod bsize)"
      moreover have "0 < want" using True bsize(2) by (simp add: want_def)
      moreover have "?vo mod bsize + want \<le> bsize"
        using bsize(2) mod_less_divisor [of bsize ?vo] unfolding want_def by linarith
      ultimately have nb: "next_block d plen off ?n = Inr (map ?g [?vo..<?vo + want])"
        using read_block_guest [OF sound [folded bsize(1)] small fsz blk] by simp
      have w: "0 < want" "want \<le> plen - ?n" by fact (simp add: want_def)
      let ?acc = "acc @ map ?g [?vo..<?vo + want]"
      have len: "length ?acc = ?n + want" by simp
      have "read_loop d plen off acc = read_loop d plen off ?acc"
        using True nb w(1) by (subst read_loop.simps) simp
      also have "\<dots> = (map ?g [off..<off + ?N], if ?N = plen then None else Some EndOfDisk)"
      proof (rule less.hyps [simplified Let_def])
        show "plen - length ?acc < plen - length acc" using True w len by linarith
        show "length ?acc \<le> plen" using w True len by linarith
        have "[off..<off + length ?acc] = [off..<?vo] @ [?vo..<?vo + want]"
          unfolding len by (metis add.assoc upt_add_eq_append le_add1)
        then show "?acc = map ?g [off..<off + length ?acc]"
          using less.prems(2) by (metis map_append)
        have q: "?vo + (bsize - ?vo mod bsize) = (?vo div bsize + 1) * bsize"
        proof -
          have "(?vo div bsize + 1) * bsize = ?vo div bsize * bsize + bsize" by simp
          then show ?thesis
            using bsize(2) div_mult_mod_eq [of ?vo bsize] mod_less_divisor [of bsize ?vo] by linarith
        qed
        show "?acc = [] \<or> length ?acc = plen \<or> (off + length ?acc) mod bsize = 0"
        proof (cases "want = plen - ?n")
          case True
          then show ?thesis using \<open>?n < plen\<close> len by simp
        next
          case False
          then have "off + length ?acc = (?vo div bsize + 1) * bsize"
            using len q by (simp add: want_def min_def split: if_splits)
          then have "(off + length ?acc) mod bsize = 0" by (simp only: mod_mult_self2_is_0)
          then show ?thesis by blast
        qed
        have "off + length ?acc \<le> (?vo div bsize + 1) * bsize"
          unfolding q [symmetric] len by (simp add: want_def)
        also have "\<dots> \<le> ?D * bsize" using blk by (intro mult_le_mono1) simp
        finally show "off + length ?acc \<le> ?D * bsize" .
      qed
      finally show ?thesis by (simp add: Let_def)
    qed
  qed
qed

section \<open>Properties\<close>

text \<open>C9: Reading a dynamic disk through its block allocation table is reading the flat disk the guest
  sees. For a table of \<open>D\<close> payload entries with a sector bitmap's entry after every \<open>ratio\<close> of
  them, whose blocks are whole and inside the file, \<open>ReadAt\<close> returns the guest's bytes from the
  offset on, block \<open>k\<close> being found through entry \<open>k + k div ratio\<close> and zeros where nothing was
  ever written; it stops short with \<open>io.EOF\<close> only at the end of the disk's last block, and reads
  nothing from the end of the disk on.\<close>

theorem read_at_is_the_guest_disk:
  assumes table: "rd_bat d = payload_entries ratio (D + (D - 1) div ratio) raw" "0 < ratio"
    and blocks: "D = (vsize + bsize - 1) div bsize" "bsize = unat (vi_block_size (rd_info d))" "0 < bsize"
    and size: "sint (vi_virtual_size (rd_info d)) = int vsize" "0 < vsize"
    and sound: "sound_bat (rd_file d) (rd_bat d) bsize" "length (rd_file d) < 2 ^ 63"
    and file_size: "rd_file_size d \<le> 0 \<or> rd_file_size d = int (length (rd_file d))"
  shows "read_at d plen (int off) =
    (let n = (if off < vsize then min plen (D * bsize - off) else 0)
     in (map (guest_byte (rd_file d) (map (\<lambda>k. u64_le raw ((k + k div ratio) * 8)) [0..<D]) bsize) [off..<off + n],
         if n = plen then None else Some EndOfDisk))"
proof -
  have "0 < D" using blocks(1,3) size(2) by (simp add: div_greater_zero_iff)
  then have bat: "rd_bat d = map (\<lambda>k. u64_le raw ((k + k div ratio) * 8)) [0..<D]"
    using payload_entries_index [OF table(2)] table(1) by (simp add: bat_index_def)
  have len: "length (rd_bat d) = D" unfolding bat by simp
  have nz: "vi_block_size (rd_info d) \<noteq> 0" "rd_bat d \<noteq> []" using blocks(2,3) len \<open>0 < D\<close> by auto
  show ?thesis
  proof (cases "off < vsize")
    case True
    have off: "off \<le> D * bsize"
    proof -
      have "vsize + bsize - 1 < Suc ((vsize + bsize - 1) div bsize) * bsize"
        using blocks(3) by (metis dividend_less_div_times mult_Suc)
      then show ?thesis using True unfolding blocks(1) by simp
    qed
    have "read_loop d plen off [] =
      (let n = min plen (length (rd_bat d) * bsize - off)
       in (map (guest_byte (rd_file d) (rd_bat d) bsize) [off..<off + n],
           if n = plen then None else Some EndOfDisk))"
      by (rule read_loop_guest [where vsize = vsize])
        (use sound file_size blocks size True off len in auto)
    then show ?thesis
      unfolding bat [symmetric] using nz True len by (simp add: read_at_def)
  next
    case False
    then have "next_block d plen off 0 = Inl EndOfDisk"
      using size(1) by (simp add: next_block_def Let_def)
    then have "read_loop d plen off [] = ([], if plen = 0 then None else Some EndOfDisk)"
      by (subst read_loop.simps) simp
    then show ?thesis using nz False by (simp add: read_at_def)
  qed
qed

text \<open>Two blocks of two bytes, the second stored first, in a file of one megabyte and four bytes.\<close>

definition tiny_reader :: reader where
  "tiny_reader = \<lparr>rd_file = [7, 8, 9], rd_file_size = 3,
     rd_info = no_vhd_info\<lparr>vi_block_size := 2, vi_virtual_size := 3, vi_logical_sector := 512\<rparr>,
     rd_bat = payload_entries 4 2 (le_bytes 8 6 @ le_bytes 8 0)\<rparr>"

theorem read_at_is_the_guest_disk_witness:
  "read_at tiny_reader 8 1 = ([8, 0, 0], Some EndOfDisk)"
proof -
  have bat: "rd_bat tiny_reader = [6, 0]" by code_simp
  have t: "rd_bat tiny_reader = payload_entries 4 (2 + (2 - 1) div 4) (le_bytes 8 6 @ le_bytes 8 0)"
    by (simp add: tiny_reader_def)
  have s: "sound_bat (rd_file tiny_reader) (rd_bat tiny_reader) 2"
    unfolding bat by code_simp
  have sz: "sint (vi_virtual_size (rd_info tiny_reader)) = int 3"
    using sint_small [of 3] by (simp add: tiny_reader_def)
  have "read_at tiny_reader 8 (int 1) =
    (let n = (if (1 :: nat) < 3 then min 8 (2 * 2 - 1) else 0)
     in (map (guest_byte (rd_file tiny_reader)
           (map (\<lambda>k. u64_le (le_bytes 8 6 @ le_bytes 8 0) ((k + k div 4) * 8)) [0..<2]) 2) [1..<1 + n],
         if n = 8 then None else Some EndOfDisk))"
    by (rule read_at_is_the_guest_disk [OF t _ _ _ _ sz _ s])
      (simp_all add: tiny_reader_def no_vhd_info_def)
  also have "\<dots> = ([8, 0, 0], Some EndOfDisk)" by code_simp
  finally show ?thesis by simp
qed

text \<open>The end that is checked is that of the last block, not the disk's: the third byte read above
  lies after the disk's three bytes. And an entry whose offset is in the last megabyte that 44
  bits can name wraps around the \<open>int64\<close> for a block of more than a megabyte, so it passes the
  check and the beginning of the file is read in its place.\<close>

lemma damaged_entry_wraps: "block_at 0xFFFFFFFFFFF00006 (2 ^ 20 + 5) = 5"
  by (simp add: block_at_def)

end
