(* ===== verification/Ext4.thy ===== *)
theory Ext4
  imports GoStd
begin

text \<open>
  \<open>internal/ext4/ext4.go\<close>: reading an ext4 superblock out of its 1024 bytes. Field offsets are the
  kernel's. An \<open>int64\<close> that holds a \<open>uint32\<close> is an \<open>int\<close> here.
\<close>

definition super_size :: nat where "super_size = 1024"
definition ext4_magic :: u16 where "ext4_magic = 0xEF53"

record error_event =
  ev_time :: int
  ev_inode :: u32
  ev_block :: u64
  ev_func :: string
  ev_line :: u32

definition no_event :: error_event where
  "no_event = \<lparr>ev_time = 0, ev_inode = 0, ev_block = 0, ev_func = [], ev_line = 0\<rparr>"

record super =
  su_state :: u16
  su_clean :: bool
  su_has_errors :: bool
  su_orphans_recovered :: bool
  su_on_error :: string
  su_error_count :: u32
  su_first :: error_event
  su_last :: error_event
  su_last_check :: int
  su_mount_count :: u16
  su_max_mount_count :: int
  su_block_size :: u32
  su_blocks :: u64
  su_free_blocks :: u64

definition no_super :: super where
  "no_super = \<lparr>su_state = 0, su_clean = False, su_has_errors = False, su_orphans_recovered = False,
     su_on_error = [], su_error_count = 0, su_first = no_event, su_last = no_event, su_last_check = 0,
     su_mount_count = 0, su_max_mount_count = 0, su_block_size = 0, su_blocks = 0, su_free_blocks = 0\<rparr>"

datatype ext4_error = ShortSuper nat | NotExt4 | BadLogBlockSize u32

text \<open>\<open>cstring\<close>: up to the first NUL, without what is not printable ASCII.\<close>

fun cstring :: "bytes \<Rightarrow> string" where
  "cstring [] = []"
| "cstring (c # cs) =
     (if c = 0 then [] else if c < 0x20 \<or> c > 0x7E then cstring cs else char_of (unat c) # cstring cs)"

definition field :: "bytes \<Rightarrow> nat \<Rightarrow> nat \<Rightarrow> bytes" where
  "field b off n = take n (drop off b)"

definition event_at :: "bytes \<Rightarrow> nat \<Rightarrow> nat \<Rightarrow> nat \<Rightarrow> nat \<Rightarrow> nat \<Rightarrow> error_event" where
  "event_at b time inode block func line =
     \<lparr>ev_time = int (unat (u32_le b time)), ev_inode = u32_le b inode, ev_block = u64_le b block,
      ev_func = cstring (field b func 32), ev_line = u32_le b line\<rparr>"

definition on_error :: "u16 \<Rightarrow> string" where
  "on_error n = (if n = 1 then ''continue'' else if n = 2 then ''remount-ro''
     else if n = 3 then ''panic'' else [])"

definition count_at :: "bytes \<Rightarrow> nat \<Rightarrow> nat \<Rightarrow> u64" where
  "count_at b lo hi =
     (if u32_le b 0x60 AND 0x80 \<noteq> 0
      then ucast (u32_le b lo) OR push_bit 32 (ucast (u32_le b hi)) else ucast (u32_le b lo))"

definition parse_super :: "bytes \<Rightarrow> super \<times> ext4_error option" where
  "parse_super b =
     (if length b < super_size then (no_super, Some (ShortSuper (length b)))
      else if u16_le b 0x38 \<noteq> ext4_magic then (no_super, Some NotExt4)
      else
        (let state = u16_le b 0x3A;
             log = u32_le b 0x18;
             s = no_super\<lparr>su_state := state, su_clean := (state AND 1 \<noteq> 0),
                   su_has_errors := (state AND 2 \<noteq> 0), su_orphans_recovered := (state AND 4 \<noteq> 0),
                   su_on_error := on_error (u16_le b 0x3C), su_error_count := u32_le b 0x194,
                   su_first := event_at b 0x198 0x19C 0x1A0 0x1A8 0x1C8,
                   su_last := event_at b 0x1CC 0x1D0 0x1D8 0x1E0 0x1D4,
                   su_last_check := int (unat (u32_le b 0x40)), su_mount_count := u16_le b 0x34,
                   su_max_mount_count := sint (u16_le b 0x36)\<rparr>
         in if log > 16 then (s, Some (BadLogBlockSize log))
            else (s\<lparr>su_block_size := push_bit (unat log) 1024, su_blocks := count_at b 0x04 0x150,
                    su_free_blocks := count_at b 0x0C 0x158\<rparr>, None)))"

text \<open>\<open>ErrorEvent.String\<close>; the format of the time is an argument.\<close>

definition event_zero :: "error_event \<Rightarrow> bool" where
  "event_zero e \<longleftrightarrow> e = no_event"

definition event_string :: "(int \<Rightarrow> string) \<Rightarrow> error_event \<Rightarrow> string" where
  "event_string fmt e =
     (if event_zero e then []
      else
        (let s1 = (if ev_func e \<noteq> []
                   then ev_func e @ (if ev_line e > 0 then '':'' @ format_uint (unat (ev_line e)) else [])
                   else []);
             s2 = (if ev_inode e > 0
                   then s1 @ (if s1 \<noteq> [] then '' '' else []) @ ''inode '' @ format_uint (unat (ev_inode e))
                   else s1);
             s3 = (if ev_block e > 0
                   then s2 @ (if s2 \<noteq> [] then '' '' else []) @ ''block '' @ format_uint (unat (ev_block e))
                   else s2)
         in if ev_time e > 0 then s3 @ (if s3 \<noteq> [] then '', '' else []) @ fmt (ev_time e) else s3))"

section \<open>Facts\<close>

text \<open>What is passed on is printable.\<close>

lemma cstring_printable: "c \<in> set (cstring b) \<Longrightarrow> 32 \<le> (of_char c :: nat) \<and> (of_char c :: nat) \<le> 126"
proof (induction b)
  case (Cons x b)
  have u: "unat x < 256" using unsigned_less [of x] by simp
  show ?case
  proof (cases "c \<in> set (cstring b)")
    case False
    then have "c = char_of (unat x)" "\<not> x < 0x20" "\<not> x > 0x7E"
      using Cons.prems by (auto split: if_splits)
    then show ?thesis using u by (auto simp: word_less_nat_alt not_less word_le_nat_alt)
  qed (use Cons.IH in simp)
qed simp

lemma cstring_length: "length (cstring b) \<le> length b"
  by (induction b) auto

text \<open>A block size is a power of two from 1 KiB to 64 MiB.\<close>

lemma parse_super_block_size:
  assumes "parse_super b = (s, None)"
  shows "\<exists>k \<le> 16. su_block_size s = push_bit k 1024 \<and> unat (su_block_size s) = 1024 * 2 ^ k"
proof -
  let ?k = "unat (u32_le b 0x18)"
  have s: "su_block_size s = push_bit ?k 1024" and k: "?k \<le> 16"
    using assms by (auto simp: parse_super_def Let_def word_less_nat_alt not_less split: if_splits)
  have "(1024 :: nat) * 2 ^ ?k \<le> 1024 * 2 ^ 16" using k by (intro mult_le_mono2 power_increasing) auto
  then have lt: "push_bit ?k (1024 :: nat) < 2 ^ 32" by (simp add: push_bit_eq_mult)
  have "unat (push_bit ?k (1024 :: u32)) = take_bit 32 (push_bit ?k (1024 :: nat))"
    by (simp add: unsigned_push_bit_eq)
  then have "unat (push_bit ?k (1024 :: u32)) = 1024 * 2 ^ ?k"
    using lt by (simp only: take_bit_nat_eq_self) (simp add: push_bit_eq_mult)
  with s k show ?thesis by auto
qed

lemma parse_super_errors:
  "snd (parse_super b) = Some NotExt4 \<longleftrightarrow> super_size \<le> length b \<and> u16_le b 0x38 \<noteq> ext4_magic"
  by (auto simp: parse_super_def Let_def)

end
