(* ===== verification/WslOut.thy ===== *)
theory WslOut
  imports GoText
begin

text \<open>
  \<open>internal/wslout/wslout.go\<close>: one stream of \<open>wsl.exe\<close> can hold two encodings, its own messages
  in UTF-16LE and then what the guest wrote, in UTF-8. \<open>Decode\<close> reads the first line by line until
  the rest can only be the second. A rune is a \<open>nat\<close>; package \<open>unicode/utf16\<close> and
  \<open>unicode/utf8\<close> are written out as the code uses them.
\<close>

section \<open>Encodings of the standard library\<close>

definition byte_char :: "u8 \<Rightarrow> char" where "byte_char b = char_of (unat b)"
definition char_byte :: "char \<Rightarrow> u8" where "char_byte c = of_nat (of_char c)"

definition bytes_string :: "bytes \<Rightarrow> string" where "bytes_string b = map byte_char b"

definition is_surrogate :: "nat \<Rightarrow> bool" where
  "is_surrogate r \<longleftrightarrow> 0xD800 \<le> r \<and> r < 0xE000"

definition is_rune :: "nat \<Rightarrow> bool" where
  "is_rune r \<longleftrightarrow> r < 0x110000 \<and> \<not> is_surrogate r"

text \<open>\<open>utf16.Decode\<close> and \<open>utf16.Encode\<close>.\<close>

fun utf16_decode :: "nat list \<Rightarrow> nat list" where
  "utf16_decode [] = []"
| "utf16_decode [u] = [if is_surrogate u then 0xFFFD else u]"
| "utf16_decode (u # v # us) =
     (if 0xD800 \<le> u \<and> u < 0xDC00 \<and> 0xDC00 \<le> v \<and> v < 0xE000
      then ((u - 0xD800) * 0x400 + (v - 0xDC00) + 0x10000) # utf16_decode us
      else (if is_surrogate u then 0xFFFD else u) # utf16_decode (v # us))"

definition utf16_units :: "nat \<Rightarrow> nat list" where
  "utf16_units r =
     (if r < 0x10000 then [r]
      else [0xD800 + (r - 0x10000) div 0x400, 0xDC00 + (r - 0x10000) mod 0x400])"

text \<open>A rune as UTF-8, and whether bytes are valid UTF-8.\<close>

definition utf8_rune :: "nat \<Rightarrow> bytes" where
  "utf8_rune r =
     map of_nat
       (if r < 0x80 then [r]
        else if r < 0x800 then [0xC0 + r div 64, 0x80 + r mod 64]
        else if r < 0x10000 then [0xE0 + r div 4096, 0x80 + r div 64 mod 64, 0x80 + r mod 64]
        else [0xF0 + r div 262144, 0x80 + r div 4096 mod 64, 0x80 + r div 64 mod 64, 0x80 + r mod 64])"

definition utf8_encode :: "nat list \<Rightarrow> bytes" where
  "utf8_encode rs = concat (map utf8_rune rs)"

definition between :: "u8 \<Rightarrow> u8 \<Rightarrow> u8 \<Rightarrow> bool" where
  "between a b c \<longleftrightarrow> a \<le> b \<and> b \<le> c"

abbreviation continues :: "u8 \<Rightarrow> bool" where
  "continues b \<equiv> between 0x80 b 0xBF"

fun utf8_valid :: "bytes \<Rightarrow> bool" where
  "utf8_valid [] = True"
| "utf8_valid (a # s) =
     (if a < 0x80 then utf8_valid s
      else if between 0xC2 a 0xDF then
        (case s of b # t \<Rightarrow> continues b \<and> utf8_valid t | _ \<Rightarrow> False)
      else if between 0xE0 a 0xEF then
        (case s of
           b # c # t \<Rightarrow>
             between (if a = 0xE0 then 0xA0 else 0x80) b (if a = 0xED then 0x9F else 0xBF)
             \<and> continues c \<and> utf8_valid t
         | _ \<Rightarrow> False)
      else if between 0xF0 a 0xF4 then
        (case s of
           b # c # d # t \<Rightarrow>
             between (if a = 0xF0 then 0x90 else 0x80) b (if a = 0xF4 then 0x8F else 0xBF)
             \<and> continues c \<and> continues d \<and> utf8_valid t
         | _ \<Rightarrow> False)
      else False)"

section \<open>The decoder\<close>

fun utf16_line :: "bytes \<Rightarrow> nat" where
  "utf16_line (a # b # s) = (if a = 0x0A \<and> b = 0 then 2 else 2 + utf16_line s)"
| "utf16_line b = length b"

fun le_units :: "bytes \<Rightarrow> nat list" where
  "le_units (a # b # s) = (unat a + 256 * unat b) # le_units s"
| "le_units _ = []"

definition decode_utf16 :: "bytes \<Rightarrow> bytes" where
  "decode_utf16 b = utf8_encode (utf16_decode (le_units b))"

lemma utf16_line_pos: "b \<noteq> [] \<Longrightarrow> 0 < utf16_line b"
  by (induction b rule: utf16_line.induct) auto

function decode_lines :: "bytes \<Rightarrow> bytes" where
  "decode_lines b =
     (if b = [] then []
      else if 0 \<notin> set b \<and> utf8_valid b then b
      else decode_utf16 (take (utf16_line b) b) @ decode_lines (drop (utf16_line b) b))"
  by pat_completeness auto
termination
  by (relation "measure length") (auto simp: utf16_line_pos)

declare decode_lines.simps [simp del]

definition decode :: "bytes \<Rightarrow> string" where
  "decode b =
     (if 0 \<notin> set b then bytes_string b
      else trim_right (\<lambda>c. c = CHR 0x00) (bytes_string (decode_lines b)))"

section \<open>Facts\<close>

text \<open>What \<open>wsl.exe\<close> writes: UTF-16LE of runes.\<close>

fun units_le :: "nat list \<Rightarrow> bytes" where
  "units_le [] = []"
| "units_le (u # us) = of_nat (u mod 256) # of_nat (u div 256) # units_le us"

definition utf16le :: "nat list \<Rightarrow> bytes" where
  "utf16le rs = units_le (concat (map utf16_units rs))"

lemma units_le_append [simp]: "units_le (us @ vs) = units_le us @ units_le vs"
  by (induction us) auto

lemma le_units_units_le: "(\<And>u. u \<in> set us \<Longrightarrow> u < 0x10000) \<Longrightarrow> le_units (units_le us) = us"
proof (induction us)
  case (Cons u us)
  have "u < 65536" using Cons.prems by simp
  then have "unat (of_nat (u mod 256) :: u8) + 256 * unat (of_nat (u div 256) :: u8) = u"
    by (simp add: unat_of_nat)
  with Cons show ?case by simp
qed simp

lemma utf16_units_bound: "is_rune r \<Longrightarrow> u \<in> set (utf16_units r) \<Longrightarrow> u < 0x10000"
  by (auto simp: utf16_units_def is_rune_def split: if_splits)

lemma utf16_decode_units:
  "is_rune r \<Longrightarrow> utf16_decode (utf16_units r @ us) = r # utf16_decode us"
proof (cases "r < 0x10000")
  case True
  assume "is_rune r"
  with True show ?thesis
    by (cases us) (auto simp: utf16_units_def is_rune_def is_surrogate_def)
next
  case False
  assume r: "is_rune r"
  have "r - 0x10000 < 0x400 * 0x400" using r by (auto simp: is_rune_def)
  then have "(r - 0x10000) div 0x400 < 0x400" by (rule less_mult_imp_div_less)
  moreover have "(r - 0x10000) div 0x400 * 0x400 + (r - 0x10000) mod 0x400 + 0x10000 = r"
    using False by simp
  ultimately show ?thesis using False by (simp add: utf16_units_def)
qed

lemma utf16_decode_encode:
  "list_all is_rune rs \<Longrightarrow> utf16_decode (concat (map utf16_units rs)) = rs"
  by (induction rs) (auto simp: utf16_decode_units)

lemma decode_utf16_utf16le: "list_all is_rune rs \<Longrightarrow> decode_utf16 (utf16le rs) = utf8_encode rs"
proof -
  assume rs: "list_all is_rune rs"
  have "le_units (utf16le rs) = concat (map utf16_units rs)"
    unfolding utf16le_def
    by (rule le_units_units_le) (use rs utf16_units_bound in \<open>fastforce simp: list_all_iff\<close>)
  with rs show ?thesis by (simp add: decode_utf16_def utf16_decode_encode)
qed

lemma utf8_encode_append [simp]: "utf8_encode (a @ b) = utf8_encode a @ utf8_encode b"
  by (simp add: utf8_encode_def)

lemma utf16le_append [simp]: "utf16le (a @ b) = utf16le a @ utf16le b"
  by (simp add: utf16le_def)

text \<open>A line ends at its newline.\<close>

lemma utf16_line_units:
  "10 \<notin> set us \<Longrightarrow> (\<And>u. u \<in> set us \<Longrightarrow> u < 0x10000) \<Longrightarrow>
     utf16_line (units_le us @ 0x0A # 0 # s) = length (units_le us) + 2"
proof (induction us)
  case (Cons u us)
  have "u < 65536" "u \<noteq> 10" using Cons.prems by auto
  then have "\<not> ((of_nat (u mod 256) :: u8) = 0x0A \<and> (of_nat (u div 256) :: u8) = 0)"
    using unat_of_nat [of "u mod 256", where 'a = 8] unat_of_nat [of "u div 256", where 'a = 8]
    by (auto simp: unat_of_nat dest!: arg_cong [where f = unat])
  with Cons show ?case by auto
qed simp

lemma nl_units: "utf16le [10] = [0x0A, 0]"
  by (simp add: utf16le_def utf16_units_def)

lemma utf16_line_utf16le:
  assumes "list_all is_rune l" "10 \<notin> set l"
  shows "utf16_line (utf16le (l @ [10]) @ s) = length (utf16le (l @ [10]))"
proof -
  have u: "u < 0x10000 \<and> u \<noteq> 10" if "u \<in> set (concat (map utf16_units l))" for u
    using that assms utf16_units_bound by (fastforce simp: list_all_iff utf16_units_def split: if_splits)
  show ?thesis
    using utf16_line_units [of "concat (map utf16_units l)" s] u
    by (auto simp: utf16le_append nl_units) (auto simp: utf16le_def)
qed

lemma decode_lines_line:
  assumes "list_all is_rune l" "10 \<notin> set l"
  shows "decode_lines (utf16le (l @ [10]) @ s) = utf8_encode (l @ [10]) @ decode_lines s"
proof -
  have "list_all is_rune (l @ [10])" using assms by (simp add: is_rune_def is_surrogate_def)
  then have "decode_utf16 (utf16le (l @ [10])) = utf8_encode (l @ [10])"
    by (rule decode_utf16_utf16le)
  moreover have "0 \<in> set (utf16le (l @ [10]) @ s)" "utf16le (l @ [10]) @ s \<noteq> []"
    by (simp_all add: nl_units)
  ultimately show ?thesis
    using decode_lines.simps [of "utf16le (l @ [10]) @ s"] utf16_line_utf16le [OF assms, of s]
    by (simp del: utf16le_append utf8_encode_append set_append append_is_Nil_conv)
qed

lemma decode_lines_guest: "0 \<notin> set g \<Longrightarrow> utf8_valid g \<Longrightarrow> decode_lines g = g"
  by (subst decode_lines.simps) auto

lemma decode_lines_mixed:
  "(\<And>l. l \<in> set ls \<Longrightarrow> list_all is_rune l \<and> 10 \<notin> set l) \<Longrightarrow> 0 \<notin> set g \<Longrightarrow> utf8_valid g \<Longrightarrow>
     decode_lines (concat (map (\<lambda>l. utf16le (l @ [10])) ls) @ g)
     = concat (map (\<lambda>l. utf8_encode (l @ [10])) ls) @ g"
proof (induction ls)
  case (Cons l ls)
  let ?b = "concat (map (\<lambda>l. utf16le (l @ [10])) ls) @ g"
  have "decode_lines (utf16le (l @ [10]) @ ?b) = utf8_encode (l @ [10]) @ decode_lines ?b"
    using Cons.prems by (intro decode_lines_line) auto
  moreover have "decode_lines ?b = concat (map (\<lambda>l. utf8_encode (l @ [10])) ls) @ g"
    using Cons by auto
  ultimately show ?case by (simp only: list.map concat.simps append_assoc)
qed (simp add: decode_lines_guest)

lemma last_lines: "ls \<noteq> [] \<Longrightarrow> last (concat (map (\<lambda>l. utf8_encode (l @ [10])) ls)) = 10"
proof (cases ls rule: rev_cases)
  case (snoc k l)
  have "utf8_encode [10] = [10]" by (simp add: utf8_encode_def utf8_rune_def)
  then show ?thesis using snoc by simp
qed simp

lemma byte_char_NUL: "byte_char b = CHR 0x00 \<longleftrightarrow> b = 0"
proof
  assume "byte_char b = CHR 0x00"
  then have "(of_char (char_of (unat b)) :: nat) = 0" by (simp add: byte_char_def)
  then have "unat b mod 256 = 0" by (simp only: of_char_of)
  moreover have "unat b < 256" using unsigned_less [of b, where 'a = nat] by simp
  ultimately have "unat b = 0" by simp
  then show "b = 0" by (simp add: unat_eq_zero)
qed (simp add: byte_char_def char_of_def)

lemma trim_no_NUL: "last b \<noteq> 0 \<Longrightarrow> trim_right (\<lambda>c. c = CHR 0x00) (bytes_string b) = bytes_string b"
  by (rule trim_right_id) (cases "b = []"; simp add: bytes_string_def last_map byte_char_NUL)

text \<open>C33: Decode reads a mixed stream for what it is: after any number of lines \<open>wsl.exe\<close> wrote
in UTF-16LE, the bytes of the guest, valid UTF-8 without a NUL, come through unchanged, and the
lines come out as the UTF-8 of the same text, surrogate pairs included.\<close>

theorem decode_mixed_stream:
  assumes "\<And>l. l \<in> set ls \<Longrightarrow> list_all is_rune l \<and> 10 \<notin> set l"
    and "0 \<notin> set g" and "utf8_valid g"
  shows "decode (concat (map (\<lambda>l. utf16le (l @ [10])) ls) @ g)
       = bytes_string (concat (map (\<lambda>l. utf8_encode (l @ [10])) ls) @ g)"
proof (cases ls)
  case Nil
  with assms show ?thesis by (simp add: decode_def)
next
  case (Cons l ls')
  let ?out = "concat (map (\<lambda>l. utf8_encode (l @ [10])) ls) @ g"
  have "last ?out \<noteq> 0"
  proof (cases "g = []")
    case True
    have "last (concat (map (\<lambda>l. utf8_encode (l @ [10])) ls)) = 10"
      by (rule last_lines) (simp add: Cons)
    then have "last ?out = 10" by (simp only: True append_Nil2)
    then show ?thesis by simp
  next
    case False
    with assms(2) show ?thesis by (metis last_appendR last_in_set)
  qed
  then have "trim_right (\<lambda>c. c = CHR 0x00) (bytes_string ?out) = bytes_string ?out"
    by (rule trim_no_NUL)
  moreover have "0 \<in> set (concat (map (\<lambda>l. utf16le (l @ [10])) ls) @ g)"
    using Cons by (simp add: nl_units)
  ultimately show ?thesis
    using decode_lines_mixed [OF assms] by (simp only: decode_def not_True_eq_False if_False)
qed

lemma decode_mixed_stream_witness:
  "decode ([0x77, 0, 0x3D, 0xD8, 0x00, 0xDE, 13, 0, 10, 0] @ [0x67, 0xC3, 0xA9, 10])
     = bytes_string [0x77, 0xF0, 0x9F, 0x98, 0x80, 13, 10, 0x67, 0xC3, 0xA9, 10]"
  using decode_mixed_stream [of "[[0x77, 0x1F600, 13]]" "[0x67, 0xC3, 0xA9, 10]"]
  by (simp add: is_rune_def is_surrogate_def between_def utf8_encode_def utf8_rune_def
      utf16le_def utf16_units_def)

end
