(* ===== verification/Guard.thy ===== *)
theory Guard
  imports WslOut
begin

text \<open>
  \<open>internal/guard\<close>: getting WSL to answer again after the machine has slept. \<open>Check\<close> probes,
  \<open>Decide\<close> reads the result, \<open>Run\<close> climbs the ladder until a probe is healthy (\<open>run.go\<close>,
  \<open>guard.go\<close>), \<open>WSLRunner\<close> does it all through child processes (\<open>runner_windows.go\<close>), and
  \<open>state.go\<close> with \<open>guard run-once\<close> keeps what was running. A duration is its nanoseconds, an
  \<open>int\<close>; running a process is a parameter. The log is left out.
\<close>

section \<open>Rungs, health and the decision\<close>

datatype rung = RungNone | RungShutdown | RungForceShutdown | RungKillService | RungRestartService

fun rung_no :: "rung \<Rightarrow> nat" where
  "rung_no RungNone = 0"
| "rung_no RungShutdown = 1"
| "rung_no RungForceShutdown = 2"
| "rung_no RungKillService = 3"
| "rung_no RungRestartService = 4"

instantiation rung :: linorder
begin

definition less_eq_rung :: "rung \<Rightarrow> rung \<Rightarrow> bool" where
  "less_eq_rung a b \<longleftrightarrow> rung_no a \<le> rung_no b"

definition less_rung :: "rung \<Rightarrow> rung \<Rightarrow> bool" where
  "less_rung a b \<longleftrightarrow> rung_no a < rung_no b"

instance
proof
  fix x y :: rung
  show "x \<le> y \<Longrightarrow> y \<le> x \<Longrightarrow> x = y"
    by (cases x; cases y) (simp_all add: less_eq_rung_def)
qed (auto simp: less_eq_rung_def less_rung_def)

end

definition disruptive :: "rung \<Rightarrow> bool" where "disruptive r \<longleftrightarrow> RungShutdown \<le> r"
definition needs_elevation :: "rung \<Rightarrow> bool" where "needs_elevation r \<longleftrightarrow> RungKillService \<le> r"

datatype run_error = Deadline | Failed string

record health =
  h_service_answered :: bool
  h_service_hung :: bool
  h_distro_answered :: bool
  h_distro_hung :: bool
  h_distro :: string
  h_was_running :: bool
  h_was_running_known :: bool
  h_skew :: int
  h_skew_known :: bool
  h_err :: "run_error option"

definition healthy :: "health \<Rightarrow> bool" where
  "healthy h \<longleftrightarrow> h_service_answered h \<and> h_distro_answered h"

record options =
  o_elevated :: bool
  o_max_rung :: rung
  o_skew_threshold :: int
  o_dry_run :: bool

datatype guard_reason =
  Answered | ClockOut int | StatusFailed "run_error option" | ServiceWedged
  | NoRecord string | NotRunningBefore string | DoesNotAnswer string | NothingToDo

record decision =
  d_ladder :: "rung list"
  d_fix_clock :: bool
  d_reason :: guard_reason

definition second :: int where "second = 1000000000"
definition default_skew_threshold :: int where "default_skew_threshold = 5 * second"
definition status_timeout :: int where "status_timeout = 10 * second"
definition distro_timeout :: int where "distro_timeout = 20 * second"
definition shutdown_timeout :: int where "shutdown_timeout = 30 * second"
definition settle_delay :: int where "settle_delay = 15 * second"

definition full_ladder :: "rung list" where
  "full_ladder = [RungShutdown, RungForceShutdown, RungKillService, RungRestartService]"

definition permitted :: "options \<Rightarrow> rung \<Rightarrow> bool" where
  "permitted opts r \<longleftrightarrow>
     \<not> (o_max_rung opts \<noteq> RungNone \<and> r > o_max_rung opts) \<and> \<not> (needs_elevation r \<and> \<not> o_elevated opts)"

definition cap_ladder :: "rung list \<Rightarrow> options \<Rightarrow> rung list" where
  "cap_ladder ladder opts = filter (permitted opts) ladder"

definition decide :: "health \<Rightarrow> options \<Rightarrow> decision" where
  "decide h opts =
     (let threshold = (if o_skew_threshold opts \<le> 0 then default_skew_threshold else o_skew_threshold opts);
          fix_clock = (h_skew_known h \<and> (h_skew h > threshold \<or> h_skew h < - threshold));
          say = (\<lambda>ladder reason. \<lparr>d_ladder = ladder, d_fix_clock = fix_clock, d_reason = reason\<rparr>)
      in if healthy h then say [] (if fix_clock then ClockOut (h_skew h) else Answered)
         else if \<not> h_service_answered h \<and> \<not> h_service_hung h then say [] (StatusFailed (h_err h))
         else if h_service_hung h then say (cap_ladder full_ladder opts) ServiceWedged
         else if \<not> h_distro_answered h \<and> \<not> h_was_running_known h then say [] (NoRecord (h_distro h))
         else if \<not> h_distro_answered h \<and> \<not> h_was_running h then say [] (NotRunningBefore (h_distro h))
         else if \<not> h_distro_answered h then say (cap_ladder full_ladder opts) (DoesNotAnswer (h_distro h))
         else say [] NothingToDo)"

definition parse_rung :: "string \<Rightarrow> rung option" where
  "parse_rung s =
     (if s = [] \<or> s = ''all'' then Some RungNone
      else if s = ''shutdown'' then Some RungShutdown
      else if s = ''force'' then Some RungForceShutdown
      else if s = ''kill'' then Some RungKillService
      else if s = ''restart'' then Some RungRestartService
      else None)"

fun rung_flag :: "rung \<Rightarrow> string" where
  "rung_flag RungShutdown = ''shutdown''"
| "rung_flag RungForceShutdown = ''force''"
| "rung_flag RungKillService = ''kill''"
| "rung_flag RungRestartService = ''restart''"
| "rung_flag RungNone = ''all''"

lemma parse_rung_flag: "parse_rung (rung_flag r) = Some r"
  by (cases r) (simp_all add: parse_rung_def)

section \<open>The runner\<close>

record 'w runner =
  rn_status :: "int \<Rightarrow> 'w \<Rightarrow> run_error option \<times> 'w"
  rn_exec :: "string \<Rightarrow> int \<Rightarrow> 'w \<Rightarrow> run_error option \<times> 'w"
  rn_default_distro :: "'w \<Rightarrow> (run_error + string) \<times> 'w"
  rn_running :: "'w \<Rightarrow> (run_error + string list) \<times> 'w"
  rn_shutdown :: "bool \<Rightarrow> int \<Rightarrow> 'w \<Rightarrow> run_error option \<times> 'w"
  rn_kill_service :: "int \<Rightarrow> 'w \<Rightarrow> run_error option \<times> 'w"
  rn_restart_service :: "int \<Rightarrow> 'w \<Rightarrow> run_error option \<times> 'w"
  rn_guest_clock :: "string \<Rightarrow> int \<Rightarrow> 'w \<Rightarrow> (run_error + int) \<times> 'w"
  rn_step_clock :: "string \<Rightarrow> int \<Rightarrow> 'w \<Rightarrow> run_error option \<times> 'w"
  rn_now :: "'w \<Rightarrow> int"

definition check_clock :: "'w runner \<Rightarrow> health \<Rightarrow> 'w \<Rightarrow> health \<times> 'w" where
  "check_clock R h w =
     (if h_distro_answered h then
        (case rn_guest_clock R (h_distro h) status_timeout w of
           (Inl e, w1) \<Rightarrow> (h, w1)
         | (Inr guest, w1) \<Rightarrow>
             (h\<lparr>h_skew := sub_time guest (rn_now R w1), h_skew_known := True\<rparr>, w1))
      else (h, w))"

definition check_distro :: "'w runner \<Rightarrow> health \<Rightarrow> 'w \<Rightarrow> health \<times> 'w" where
  "check_distro R h w =
     (case rn_exec R (h_distro h) distro_timeout w of
        (None, w1) \<Rightarrow> check_clock R (h\<lparr>h_distro_answered := True\<rparr>) w1
      | (Some Deadline, w1) \<Rightarrow> check_clock R (h\<lparr>h_distro_hung := True, h_err := Some Deadline\<rparr>) w1
      | (Some e, w1) \<Rightarrow> check_clock R (h\<lparr>h_err := Some e\<rparr>) w1)"

definition check :: "'w runner \<Rightarrow> string list \<Rightarrow> bool \<Rightarrow> 'w \<Rightarrow> health \<times> 'w" where
  "check R was_running known w =
     (let h = \<lparr>h_service_answered = False, h_service_hung = False, h_distro_answered = False,
            h_distro_hung = False, h_distro = [], h_was_running = (was_running \<noteq> []),
            h_was_running_known = known, h_skew = 0, h_skew_known = False, h_err = None\<rparr>
      in case rn_status R status_timeout w of
           (Some Deadline, w1) \<Rightarrow> (h\<lparr>h_service_hung := True, h_err := Some Deadline\<rparr>, w1)
         | (Some e, w1) \<Rightarrow> (h\<lparr>h_err := Some e\<rparr>, w1)
         | (None, w1) \<Rightarrow>
             (let h1 = h\<lparr>h_service_answered := True\<rparr>
              in case rn_default_distro R w1 of
                   (Inl e, w2) \<Rightarrow> (h1\<lparr>h_distro_answered := True\<rparr>, w2)
                 | (Inr distro, w2) \<Rightarrow>
                     (if distro = [] then (h1\<lparr>h_distro_answered := True\<rparr>, w2)
                      else check_distro R (h1\<lparr>h_distro := distro\<rparr>) w2)))"

definition climb :: "'w runner \<Rightarrow> rung \<Rightarrow> 'w \<Rightarrow> run_error option \<times> 'w" where
  "climb R r w =
     (case r of
        RungShutdown \<Rightarrow> rn_shutdown R False shutdown_timeout w
      | RungForceShutdown \<Rightarrow> rn_shutdown R True shutdown_timeout w
      | RungKillService \<Rightarrow> rn_kill_service R shutdown_timeout w
      | RungRestartService \<Rightarrow> rn_restart_service R shutdown_timeout w
      | RungNone \<Rightarrow> (Some (Failed ''guard: no such step nothing''), w))"

record rung_attempt =
  at_rung :: rung
  at_err :: "run_error option"
  at_healthy :: bool

record report =
  rp_health :: health
  rp_decision :: decision
  rp_attempted :: "rung_attempt list"
  rp_recovered :: bool
  rp_clock_stepped :: bool
  rp_duration :: int

text \<open>The loop over the ladder: a probe after every rung, and the first healthy one ends it.\<close>

fun climb_ladder ::
  "'w runner \<Rightarrow> string list \<Rightarrow> bool \<Rightarrow> rung list \<Rightarrow> 'w \<Rightarrow> (rung_attempt list \<times> bool) \<times> 'w" where
  "climb_ladder R was_running known [] w = (([], False), w)"
| "climb_ladder R was_running known (r # rs) w =
     (case climb R r w of (e, w1) \<Rightarrow>
        (case check R was_running known w1 of (h, w2) \<Rightarrow>
           (let a = \<lparr>at_rung = r, at_err = e, at_healthy = healthy h\<rparr>
            in if healthy h then (([a], True), w2)
               else (case climb_ladder R was_running known rs w2 of
                       ((atts, recovered), w3) \<Rightarrow> ((a # atts, recovered), w3)))))"

definition step_clock_if :: "'w runner \<Rightarrow> options \<Rightarrow> health \<Rightarrow> decision \<Rightarrow> 'w \<Rightarrow> bool \<times> 'w" where
  "step_clock_if R opts h d w =
     (if d_fix_clock d \<and> \<not> o_dry_run opts \<and> h_distro h \<noteq> [] then
        (case rn_step_clock R (h_distro h) status_timeout w of
           (Some e, w1) \<Rightarrow> (False, w1)
         | (None, w1) \<Rightarrow> (True, w1))
      else (False, w))"

definition run :: "'w runner \<Rightarrow> options \<Rightarrow> string list \<Rightarrow> bool \<Rightarrow> 'w \<Rightarrow> report \<times> 'w" where
  "run R opts was_running known w =
     (case check R was_running known w of (h, w1) \<Rightarrow>
        (let d = decide h opts
         in case step_clock_if R opts h d w1 of (stepped, w2) \<Rightarrow>
           (let rep = \<lparr>rp_health = h, rp_decision = d, rp_attempted = [], rp_recovered = False,
                  rp_clock_stepped = stepped, rp_duration = sub_time (rn_now R w2) (rn_now R w)\<rparr>
            in if d_ladder d = [] then (rep\<lparr>rp_recovered := healthy h\<rparr>, w2)
               else if o_dry_run opts then (rep, w2)
               else (case climb_ladder R was_running known (d_ladder d) w2 of
                       ((atts, recovered), w3) \<Rightarrow>
                         (rep\<lparr>rp_attempted := atts, rp_recovered := recovered,
                              rp_duration := sub_time (rn_now R w3) (rn_now R w)\<rparr>, w3)))))"

end
