(* ===== verification/GuardRunner.thy ===== *)
theory GuardRunner
  imports Guard
begin

text \<open>
  \<open>internal/guard/runner_windows.go\<close>, the runner that starts child processes, \<open>state.go\<close>, and
  \<open>guard run-once\<close> of \<open>internal/cli/guard_windows.go\<close>. Starting a process is a parameter
  (\<open>run_process\<close>); the second component of the state is a record of every command line started,
  which the code does not keep: it is what the theorems speak about.
\<close>

section \<open>WSLRunner\<close>

record process =
  pr_out :: bytes
  pr_err :: bytes
  pr_failed :: "string option"
  pr_expired :: bool

type_synonym command = "string \<times> string list"

record 'm host =
  run_process :: "string \<Rightarrow> string list \<Rightarrow> int \<Rightarrow> 'm \<Rightarrow> process \<times> 'm"
  host_now :: "'m \<Rightarrow> int"

type_synonym 'm world = "'m \<times> command list"

definition issue :: "'m host \<Rightarrow> string \<Rightarrow> string list \<Rightarrow> int \<Rightarrow> 'm world \<Rightarrow> process \<times> 'm world" where
  "issue H prog args timeout w =
     (case run_process H prog args timeout (fst w) of (p, m) \<Rightarrow> (p, (m, snd w @ [(prog, args)])))"

definition space :: string where "space = '' ''"

definition wsl_exe :: string where "wsl_exe = ''wsl.exe''"
definition taskkill_exe :: string where "taskkill_exe = ''taskkill.exe''"
definition sc_exe :: string where "sc_exe = ''sc.exe''"

definition wsl_run ::
  "'m host \<Rightarrow> int \<Rightarrow> string list \<Rightarrow> 'm world \<Rightarrow> (string \<times> run_error option) \<times> 'm world" where
  "wsl_run H timeout args w =
     (case issue H wsl_exe args timeout w of (p, w1) \<Rightarrow>
        (let text = decode (pr_out p)
         in if pr_expired p then ((text, Some Deadline), w1)
            else (case pr_failed p of
                    Some e \<Rightarrow>
                      (let msg0 = trim_space (decode (pr_err p));
                           msg = (if msg0 = [] then trim_space text else msg0)
                       in ((text, Some (Failed (''wsl '' @ join_with space args @ '': '' @ e @ '': '' @ msg))), w1))
                  | None \<Rightarrow> ((text, None), w1))))"

definition output_lines :: "string \<Rightarrow> string list" where
  "output_lines out = filter (\<lambda>t. t \<noteq> []) (map trim_space (split_on newline (crlf_to_lf out)))"

definition wsl_status :: "'m host \<Rightarrow> int \<Rightarrow> 'm world \<Rightarrow> run_error option \<times> 'm world" where
  "wsl_status H t w = (case wsl_run H t [''--status''] w of ((out, e), w1) \<Rightarrow> (e, w1))"

definition wsl_exec :: "'m host \<Rightarrow> string \<Rightarrow> int \<Rightarrow> 'm world \<Rightarrow> run_error option \<times> 'm world" where
  "wsl_exec H distro t w =
     (case wsl_run H t [''-d'', distro, ''--exec'', ''/bin/true''] w of ((out, e), w1) \<Rightarrow> (e, w1))"

definition wsl_default_distro :: "'m host \<Rightarrow> 'm world \<Rightarrow> (run_error + string) \<times> 'm world" where
  "wsl_default_distro H w =
     (case wsl_run H status_timeout [''--list'', ''--quiet''] w of
        ((out, Some e), w1) \<Rightarrow> (Inl e, w1)
      | ((out, None), w1) \<Rightarrow> (Inr (case output_lines out of [] \<Rightarrow> [] | t # _ \<Rightarrow> t), w1))"

definition wsl_running :: "'m host \<Rightarrow> 'm world \<Rightarrow> (run_error + string list) \<times> 'm world" where
  "wsl_running H w =
     (case wsl_run H status_timeout [''--list'', ''--running'', ''--quiet''] w of
        ((out, e), w1) \<Rightarrow> (Inr (output_lines out), w1))"

definition shutdown_args :: "bool \<Rightarrow> string list" where
  "shutdown_args force = ''--shutdown'' # (if force then [''--force''] else [])"

definition wsl_shutdown :: "'m host \<Rightarrow> bool \<Rightarrow> int \<Rightarrow> 'm world \<Rightarrow> run_error option \<times> 'm world" where
  "wsl_shutdown H force t w = (case wsl_run H t (shutdown_args force) w of ((out, e), w1) \<Rightarrow> (e, w1))"

definition kill_args :: "string list" where "kill_args = [''/f'', ''/im'', ''wslservice.exe'']"
definition start_args :: "string list" where "start_args = [''start'', ''WSLService'']"

text \<open>\<open>KillService\<close> and \<open>RestartService\<close>; stdout and stderr go to one buffer, \<open>pr_out\<close>.\<close>

definition kill_service :: "'m host \<Rightarrow> int \<Rightarrow> 'm world \<Rightarrow> run_error option \<times> 'm world" where
  "kill_service H t w =
     (case issue H taskkill_exe kill_args t w of (p, w1) \<Rightarrow>
        (case pr_failed p of
           None \<Rightarrow> (None, w1)
         | Some e \<Rightarrow>
             (let text = trim_space (decode (pr_out p))
              in if contains (to_lower text) ''not found'' then (None, w1)
                 else (Some (Failed (''taskkill wslservice.exe: '' @ e @ '': '' @ text)), w1))))"

definition restart_service :: "'m host \<Rightarrow> int \<Rightarrow> 'm world \<Rightarrow> run_error option \<times> 'm world" where
  "restart_service H t w =
     (case issue H sc_exe start_args t w of (p, w1) \<Rightarrow>
        (case pr_failed p of
           None \<Rightarrow> (None, w1)
         | Some e \<Rightarrow>
             (let text = trim_space (decode (pr_out p))
              in if contains text ''1056'' then (None, w1)
                 else (Some (Failed (''sc start WSLService: '' @ e @ '': '' @ text)), w1))))"

definition guest_clock :: "'m host \<Rightarrow> string \<Rightarrow> int \<Rightarrow> 'm world \<Rightarrow> (run_error + int) \<times> 'm world" where
  "guest_clock H distro t w =
     (case wsl_run H t [''-d'', distro, ''--exec'', ''/bin/date'', ''+%s''] w of
        ((out, Some e), w1) \<Rightarrow> (Inl e, w1)
      | ((out, None), w1) \<Rightarrow>
          (case atoi (trim_space out) of
             None \<Rightarrow> (Inl (Failed (''guard: '' @ distro @ '' returned '' @ trim_space out
                                   @ '' rather than a timestamp'')), w1)
           | Some secs \<Rightarrow> (Inr (secs * second), w1)))"

definition hwclock_script :: string where
  "hwclock_script = ''command -v hwclock >/dev/null && hwclock -s''"

fun join_errors :: "run_error \<Rightarrow> run_error \<Rightarrow> run_error" where
  "join_errors (Failed a) (Failed b) = Failed (a @ [newline] @ b)"
| "join_errors a b = Deadline"

definition step_clock :: "'m host \<Rightarrow> string \<Rightarrow> int \<Rightarrow> 'm world \<Rightarrow> run_error option \<times> 'm world" where
  "step_clock H distro t w =
     (case wsl_run H t [''-d'', distro, ''-u'', ''root'', ''--exec'', ''/sbin/hwclock'', ''-s''] w of
        ((out, None), w1) \<Rightarrow> (None, w1)
      | ((out, Some e), w1) \<Rightarrow>
          (case wsl_run H t [''-d'', distro, ''-u'', ''root'', ''--exec'', ''/bin/sh'', ''-c'', hwclock_script] w1 of
             ((out2, None), w2) \<Rightarrow> (None, w2)
           | ((out2, Some e2), w2) \<Rightarrow> (Some (join_errors e e2), w2)))"

definition wsl_runner :: "'m host \<Rightarrow> 'm world runner" where
  "wsl_runner H =
     \<lparr>rn_status = wsl_status H, rn_exec = wsl_exec H, rn_default_distro = wsl_default_distro H,
      rn_running = wsl_running H, rn_shutdown = wsl_shutdown H, rn_kill_service = kill_service H,
      rn_restart_service = restart_service H, rn_guest_clock = guest_clock H,
      rn_step_clock = step_clock H, rn_now = (\<lambda>w. host_now H (fst w))\<rparr>"

section \<open>What was running\<close>

record state =
  st_running :: "string list"
  st_at :: int

definition max_state_age :: int where "max_state_age = 24 * 3600 * second"

definition stale :: "state \<Rightarrow> int \<Rightarrow> int \<Rightarrow> bool" where
  "stale s now max_age = (let age = sub_time now (st_at s) in age < 0 \<or> age > max_age)"

definition known_before :: "state option \<Rightarrow> int \<Rightarrow> string list \<times> bool" where
  "known_before loaded now =
     (case loaded of
        Some s \<Rightarrow> if \<not> stale s now max_state_age then (st_running s, True) else ([], False)
      | None \<Rightarrow> ([], False))"

datatype guard_exit = ExitOK | ExitFindings

definition exit_of :: "report \<Rightarrow> guard_exit" where
  "exit_of rep =
     (if healthy (rp_health rep) \<or> rp_recovered rep then ExitOK
      else if d_ladder (rp_decision rep) = [] then ExitOK
      else ExitFindings)"

text \<open>
  \<open>guardRunOnce\<close>: the record of the last run in, the record for the next one out (\<open>None\<close> when
  nothing is written).
\<close>

definition run_once ::
  "'w runner \<Rightarrow> options \<Rightarrow> state option \<Rightarrow> 'w \<Rightarrow> (guard_exit \<times> state option) \<times> 'w" where
  "run_once R opts loaded w =
     (case known_before loaded (rn_now R w) of (was_running, known) \<Rightarrow>
        (case run R opts was_running known w of (rep, w1) \<Rightarrow>
           (if o_dry_run opts then ((exit_of rep, None), w1)
            else (case rn_running R w1 of
                    (Inl e, w2) \<Rightarrow> ((exit_of rep, None), w2)
                  | (Inr names, w2) \<Rightarrow>
                      ((exit_of rep, Some \<lparr>st_running = names, st_at = rn_now R w2\<rparr>), w2)))))"

section \<open>The interface and what follows from it\<close>

text \<open>
  \<open>trace\<close> is what a runner has started so far. A question starts only quiet commands, a rung
  exactly its own one.
\<close>

locale traced_runner =
  fixes R :: "'w runner"
    and trace :: "'w \<Rightarrow> 'c list"
    and quiet :: "'c \<Rightarrow> bool"
    and own :: "rung \<Rightarrow> 'c"
  assumes status: "rn_status R t w = (e, w') \<Longrightarrow> \<exists>cs. trace w' = trace w @ cs \<and> list_all quiet cs"
    and exec: "rn_exec R d t w = (e, w') \<Longrightarrow> \<exists>cs. trace w' = trace w @ cs \<and> list_all quiet cs"
    and default_distro:
      "rn_default_distro R w = (n, w') \<Longrightarrow> \<exists>cs. trace w' = trace w @ cs \<and> list_all quiet cs"
    and clock: "rn_guest_clock R d t w = (c, w') \<Longrightarrow> \<exists>cs. trace w' = trace w @ cs \<and> list_all quiet cs"
    and step: "rn_step_clock R d t w = (e, w') \<Longrightarrow> \<exists>cs. trace w' = trace w @ cs \<and> list_all quiet cs"
    and taken: "r \<noteq> RungNone \<Longrightarrow> climb R r w = (e, w') \<Longrightarrow> trace w' = trace w @ [own r]"
    and own_loud: "r \<noteq> RungNone \<Longrightarrow> \<not> quiet (own r)"
begin

definition only_asked :: "'w \<Rightarrow> 'w \<Rightarrow> bool" where
  "only_asked w w' \<longleftrightarrow> (\<exists>cs. trace w' = trace w @ cs \<and> list_all quiet cs)"

lemma only_asked_refl: "only_asked w w"
  by (auto simp: only_asked_def)

lemma only_asked_trans: "only_asked w w1 \<Longrightarrow> only_asked w1 w2 \<Longrightarrow> only_asked w w2"
  by (auto simp: only_asked_def)

lemma check_clock_asks: "check_clock R h w = (h', w') \<Longrightarrow> only_asked w w'"
  using clock by (auto simp: check_clock_def only_asked_def split: if_splits prod.splits sum.splits)

lemma check_distro_asks: "check_distro R h w = (h', w') \<Longrightarrow> only_asked w w'"
proof -
  assume c: "check_distro R h w = (h', w')"
  obtain e w1 where e: "rn_exec R (h_distro h) distro_timeout w = (e, w1)" by (cases "rn_exec R (h_distro h) distro_timeout w")
  then obtain h1 where "check_clock R h1 w1 = (h', w')"
    using c by (auto simp: check_distro_def split: option.splits run_error.splits)
  then show "only_asked w w'" using only_asked_trans check_clock_asks exec [OF e] by (auto simp: only_asked_def)
qed

lemma check_asks: "check R was known w = (h, w') \<Longrightarrow> only_asked w w'"
proof -
  assume c: "check R was known w = (h, w')"
  obtain e w1 where e: "rn_status R status_timeout w = (e, w1)" by (cases "rn_status R status_timeout w")
  have s: "only_asked w w1" using status [OF e] by (simp add: only_asked_def)
  show "only_asked w w'"
  proof (cases e)
    case (Some x)
    then show ?thesis using c e s by (cases x) (auto simp: check_def Let_def)
  next
    case None
    obtain n w2 where n: "rn_default_distro R w1 = (n, w2)" by (cases "rn_default_distro R w1")
    have d: "only_asked w w2" using only_asked_trans [OF s] default_distro [OF n] by (simp add: only_asked_def)
    show ?thesis
      using c e None n d check_distro_asks only_asked_trans
      by (auto simp: check_def Let_def split: sum.splits if_splits)
  qed
qed

lemma step_clock_asks: "step_clock_if R opts h d w = (b, w') \<Longrightarrow> only_asked w w'"
  using step by (auto simp: step_clock_if_def only_asked_def split: if_splits prod.splits option.splits)

lemma quiet_filter: "list_all quiet cs \<Longrightarrow> filter (\<lambda>c. \<not> quiet c) cs = []"
  by (simp add: filter_empty_conv list_all_iff)

lemma climb_ladder_trace:
  "RungNone \<notin> set rs \<Longrightarrow> climb_ladder R was known rs w = ((atts, rec), w') \<Longrightarrow>
     \<exists>cs. trace w' = trace w @ cs \<and> filter (\<lambda>c. \<not> quiet c) cs = map own (map at_rung atts)"
proof (induction rs arbitrary: atts rec w w')
  case (Cons r rs)
  obtain e w1 where e: "climb R r w = (e, w1)" by (cases "climb R r w")
  obtain h w2 where h: "check R was known w1 = (h, w2)" by (cases "check R was known w1")
  have r: "r \<noteq> RungNone" using Cons.prems by auto
  obtain cs where cs: "trace w2 = trace w @ own r # cs" "list_all quiet cs"
    using taken [OF r e] check_asks [OF h] by (auto simp: only_asked_def)
  show ?case
  proof (cases "healthy h")
    case True
    then show ?thesis using Cons.prems e h cs own_loud [OF r]
      by (auto simp: Let_def quiet_filter intro!: exI [of _ "own r # cs"])
  next
    case False
    obtain atts' rec' w3 where l: "climb_ladder R was known rs w2 = ((atts', rec'), w3)"
      by (metis prod.exhaust)
    obtain ds where "trace w3 = trace w2 @ ds" "filter (\<lambda>c. \<not> quiet c) ds = map own (map at_rung atts')"
      using Cons.IH [OF _ l] Cons.prems by auto
    then show ?thesis using Cons.prems e h cs False l own_loud [OF r]
      by (auto simp: Let_def quiet_filter intro!: exI [of _ "own r # cs @ ds"])
  qed
qed simp

lemma run_trace:
  assumes "run R opts was known w = (rep, w')"
  shows "\<exists>cs. trace w' = trace w @ cs \<and> filter (\<lambda>c. \<not> quiet c) cs = map own (map at_rung (rp_attempted rep))"
proof -
  obtain h w1 where h: "check R was known w = (h, w1)" by (cases "check R was known w")
  obtain b w2 where b: "step_clock_if R opts h (decide h opts) w1 = (b, w2)"
    by (cases "step_clock_if R opts h (decide h opts) w1")
  obtain cs where cs: "trace w2 = trace w @ cs" "list_all quiet cs"
    using only_asked_trans [OF check_asks [OF h] step_clock_asks [OF b]] by (auto simp: only_asked_def)
  obtain atts rec w3 where l: "climb_ladder R was known (d_ladder (decide h opts)) w2 = ((atts, rec), w3)"
    by (metis prod.exhaust)
  have "RungNone \<notin> set (d_ladder (decide h opts))"
    by (auto simp: decide_def Let_def cap_ladder_def full_ladder_def)
  then obtain ds where ds: "trace w3 = trace w2 @ ds" "filter (\<lambda>c. \<not> quiet c) ds = map own (map at_rung atts)"
    using climb_ladder_trace [OF _ l] by blast
  show ?thesis
  proof (cases "d_ladder (decide h opts) = [] \<or> o_dry_run opts")
    case True
    then show ?thesis using assms h b cs by (auto simp: run_def Let_def quiet_filter split: if_splits)
  next
    case False
    then show ?thesis using assms h b l cs ds
      by (auto simp: run_def Let_def quiet_filter intro!: exI [of _ "cs @ ds"])
  qed
qed

end

section \<open>WSLRunner is such a runner\<close>

fun rung_command :: "rung \<Rightarrow> command" where
  "rung_command RungNone = ([], [])"
| "rung_command RungShutdown = (wsl_exe, shutdown_args False)"
| "rung_command RungForceShutdown = (wsl_exe, shutdown_args True)"
| "rung_command RungKillService = (taskkill_exe, kill_args)"
| "rung_command RungRestartService = (sc_exe, start_args)"

text \<open>A question to \<open>wsl.exe\<close>: its status, its list, or a command inside a distribution.\<close>

definition asks_wsl :: "command \<Rightarrow> bool" where
  "asks_wsl c \<longleftrightarrow> fst c = wsl_exe \<and>
     (case snd c of [] \<Rightarrow> False | a # _ \<Rightarrow> a = ''--status'' \<or> a = ''--list'' \<or> a = ''-d'')"

lemma wsl_run_issues: "wsl_run H t args w = (r, w') \<Longrightarrow> snd w' = snd w @ [(wsl_exe, args)]"
  by (auto simp: wsl_run_def issue_def Let_def split: prod.splits if_splits option.splits)

lemma issue_issues: "issue H prog args t w = (p, w') \<Longrightarrow> snd w' = snd w @ [(prog, args)]"
  by (auto simp: issue_def split: prod.splits)

lemma rung_command_loud: "r \<noteq> RungNone \<Longrightarrow> \<not> asks_wsl (rung_command r)"
  by (cases r) (simp_all add: asks_wsl_def shutdown_args_def wsl_exe_def taskkill_exe_def sc_exe_def)

lemmas wsl_questions = wsl_status_def wsl_exec_def wsl_default_distro_def guest_clock_def step_clock_def

lemma wsl_asks:
  "wsl_status H t w = (e, w') \<Longrightarrow> \<exists>cs. snd w' = snd w @ cs \<and> list_all asks_wsl cs"
  "wsl_exec H d t w = (e, w') \<Longrightarrow> \<exists>cs. snd w' = snd w @ cs \<and> list_all asks_wsl cs"
  "wsl_default_distro H w = (n, w') \<Longrightarrow> \<exists>cs. snd w' = snd w @ cs \<and> list_all asks_wsl cs"
  "guest_clock H d t w = (c, w') \<Longrightarrow> \<exists>cs. snd w' = snd w @ cs \<and> list_all asks_wsl cs"
  "step_clock H d t w = (e, w') \<Longrightarrow> \<exists>cs. snd w' = snd w @ cs \<and> list_all asks_wsl cs"
  by (auto simp: wsl_questions asks_wsl_def split: prod.splits option.splits dest!: wsl_run_issues)

interpretation wsl: traced_runner "wsl_runner H" snd asks_wsl rung_command for H :: "'m host"
proof
  fix r :: rung and w w' :: "'m world" and e
  assume "r \<noteq> RungNone" "climb (wsl_runner H) r w = (e, w')"
  then show "snd w' = snd w @ [rung_command r]"
    by (cases r) (auto simp: climb_def wsl_runner_def wsl_shutdown_def kill_service_def restart_service_def Let_def
        split: prod.splits option.splits if_splits dest!: wsl_run_issues issue_issues)
qed (auto simp: wsl_runner_def rung_command_loud intro: wsl_asks)

section \<open>Climbing\<close>

lemma climb_ladder_prefix:
  "climb_ladder R was known rs w = ((atts, rec), w') \<Longrightarrow>
     prefix (map at_rung atts) rs
     \<and> (\<forall>a \<in> set (butlast atts). \<not> at_healthy a)
     \<and> (rec \<longleftrightarrow> atts \<noteq> [] \<and> at_healthy (last atts))
     \<and> (\<not> rec \<longrightarrow> map at_rung atts = rs)"
proof (induction rs arbitrary: atts rec w w')
  case (Cons r rs)
  obtain e w1 where e: "climb R r w = (e, w1)" by (cases "climb R r w")
  obtain h w2 where h: "check R was known w1 = (h, w2)" by (cases "check R was known w1")
  obtain atts' rec' w3 where l: "climb_ladder R was known rs w2 = ((atts', rec'), w3)"
    by (metis prod.exhaust)
  show ?case
    using Cons.prems Cons.IH [OF l] e h l by (cases "healthy h") (auto simp: Let_def split: if_splits)
qed simp

lemma decide_evidence:
  "d_ladder (decide h opts) \<noteq> [] \<Longrightarrow>
     h_service_hung h \<or> h_service_answered h \<and> \<not> h_distro_answered h \<and> h_was_running h \<and> h_was_running_known h"
  by (auto simp: decide_def Let_def healthy_def split: if_splits)

lemma decide_ladder: "d_ladder (decide h opts) = [] \<or> d_ladder (decide h opts) = cap_ladder full_ladder opts"
  by (auto simp: decide_def Let_def)

lemma decide_healthy: "healthy h \<Longrightarrow> d_ladder (decide h opts) = []"
  by (simp add: decide_def Let_def)

lemma check_remembers:
  "check R was known w = (h, w') \<Longrightarrow> h_was_running h = (was \<noteq> []) \<and> h_was_running_known h = known"
  by (auto simp: check_def check_distro_def check_clock_def Let_def
      split: prod.splits option.splits run_error.splits sum.splits if_splits)

lemma cap_ladder_sorted: "sorted_wrt (<) (cap_ladder full_ladder opts)"
  unfolding cap_ladder_def
  by (rule sorted_wrt_filter) (simp add: full_ladder_def less_rung_def)

lemma run_attempts:
  assumes "run R opts was known w = (rep, w')"
  obtains (idle) "rp_attempted rep = []" "rp_recovered rep \<longrightarrow> healthy (rp_health rep)"
      "d_ladder (rp_decision rep) = [] \<or> o_dry_run opts"
      "rp_decision rep = decide (rp_health rep) opts"
      "healthy (rp_health rep) \<longrightarrow> rp_recovered rep"
    | (climbs) w1 where "rp_decision rep = decide (rp_health rep) opts" "\<not> o_dry_run opts"
      "d_ladder (rp_decision rep) \<noteq> []" "h_was_running (rp_health rep) = (was \<noteq> [])"
      "h_was_running_known (rp_health rep) = known"
      "climb_ladder R was known (d_ladder (rp_decision rep)) w1
         = ((rp_attempted rep, rp_recovered rep), w')"
proof -
  obtain h w1 where h: "check R was known w = (h, w1)" by (cases "check R was known w")
  obtain b w2 where b: "step_clock_if R opts h (decide h opts) w1 = (b, w2)"
    by (cases "step_clock_if R opts h (decide h opts) w1")
  obtain atts rec w3 where l: "climb_ladder R was known (d_ladder (decide h opts)) w2 = ((atts, rec), w3)"
    by (metis prod.exhaust)
  show thesis
  proof (cases "d_ladder (decide h opts) = [] \<or> o_dry_run opts")
    case True
    then show thesis using assms h b decide_healthy [of h opts]
      by (intro idle) (auto simp: run_def Let_def split: if_splits)
  next
    case False
    then show thesis using assms h b l check_remembers [OF h]
      by (intro climbs [of w2]) (auto simp: run_def Let_def)
  qed
qed


text \<open>A run climbs no further than it must. The rungs attempted are an initial part of the
permitted ladder, from the mildest to the most disruptive, none above the cap and none that needs
rights it lacks; a run goes past a rung only when the probe after it was not healthy; it stops short
of the whole ladder only when it has recovered, and it reports so exactly when the last probe was
healthy.\<close>

theorem guard_climbs_least:
  assumes "run R opts was known w = (rep, w')" and "rp_attempted rep \<noteq> []"
  shows "prefix (map at_rung (rp_attempted rep)) (cap_ladder full_ladder opts)
    \<and> sorted_wrt (<) (map at_rung (rp_attempted rep))
    \<and> list_all (permitted opts) (map at_rung (rp_attempted rep))
    \<and> list_all (\<lambda>a. \<not> at_healthy a) (butlast (rp_attempted rep))
    \<and> (rp_recovered rep \<longleftrightarrow> at_healthy (last (rp_attempted rep)))
    \<and> (rp_recovered rep \<or> map at_rung (rp_attempted rep) = cap_ladder full_ladder opts)"
proof (rule run_attempts [OF assms(1)])
  fix w1
  let ?atts = "rp_attempted rep"
  assume d: "rp_decision rep = decide (rp_health rep) opts" "d_ladder (rp_decision rep) \<noteq> []"
    and l: "climb_ladder R was known (d_ladder (rp_decision rep)) w1 = ((?atts, rp_recovered rep), w')"
  have ladder: "d_ladder (rp_decision rep) = cap_ladder full_ladder opts"
    using d decide_ladder by metis
  then obtain rest where rest: "cap_ladder full_ladder opts = map at_rung ?atts @ rest"
    using climb_ladder_prefix [OF l] by (auto simp: prefix_def)
  have "sorted_wrt (<) (map at_rung ?atts @ rest)" using cap_ladder_sorted [of opts] rest by simp
  then have sorted: "sorted_wrt (<) (map at_rung ?atts)" by (simp add: sorted_wrt_append)
  have "set (map at_rung ?atts) \<subseteq> set (cap_ladder full_ladder opts)" using rest by simp
  then have "list_all (permitted opts) (map at_rung ?atts)"
    by (auto simp: list_all_iff cap_ladder_def)
  with sorted show ?thesis
    using climb_ladder_prefix [OF l] ladder assms(2) by (auto simp: list_all_iff)
qed (use assms(2) in simp)

section \<open>A machine whose distribution hangs until the VM is torn down\<close>

definition stuck_process :: "string \<Rightarrow> string list \<Rightarrow> int \<Rightarrow> bool \<Rightarrow> process \<times> bool" where
  "stuck_process prog args t stuck =
     (let reply = (\<lambda>out expired. \<lparr>pr_out = out, pr_err = [], pr_failed = None, pr_expired = expired\<rparr>)
      in if args = shutdown_args True then (reply [] False, False)
         else if args = shutdown_args False then (reply [] True, stuck)
         else if args = [''--list'', ''--quiet''] then (reply [85, 98, 10] False, stuck)
         else if args = [''--list'', ''--running'', ''--quiet''] then (reply [] True, stuck)
         else if args = [''--status''] then (reply [] False, stuck)
         else (reply [88, 10] stuck, stuck))"

definition stuck_host :: "bool host" where
  "stuck_host = \<lparr>run_process = stuck_process, host_now = (\<lambda>m. 0)\<rparr>"

definition careful :: options where
  "careful = \<lparr>o_elevated = False, o_max_rung = RungNone, o_skew_threshold = 0, o_dry_run = False\<rparr>"

lemma stuck_run:
  "map at_rung (rp_attempted (fst (run (wsl_runner stuck_host) careful [''Ub''] True (True, []))))
     = [RungShutdown, RungForceShutdown]"
  "rp_recovered (fst (run (wsl_runner stuck_host) careful [''Ub''] True (True, [])))"
  by code_simp+


lemma stuck_attempts:
  "rp_attempted (fst (run (wsl_runner stuck_host) careful [''Ub''] True (True, []))) \<noteq> []"
  using stuck_run(1) by auto

lemma guard_climbs_least_witness:
  "at_healthy (last (rp_attempted (fst (run (wsl_runner stuck_host) careful [''Ub''] True (True, [])))))"
  using guard_climbs_least [OF prod.collapse [symmetric] stuck_attempts] stuck_run(2) by simp

section \<open>Where the evidence is not what it seems\<close>

text \<open>
  What was running is kept as "something was": the ladder is climbed for a default distribution
  that was not running, when another one was. And a distribution that fails at once is treated as
  one that hangs: \<open>DistroHung\<close> is recorded and never read.
\<close>

lemma failing_stopped_distribution_restarts_vm:
  assumes "rn_status R status_timeout w = (None, w1)" and "rn_default_distro R w1 = (Inr d, w2)" and "d \<noteq> []"
    and "rn_exec R d distro_timeout w2 = (Some (Failed e), w3)" and "other \<noteq> d"
  shows "d_ladder (decide (fst (check R [other] True w)) opts) = cap_ladder full_ladder opts"
  using assms by (simp add: check_def check_distro_def check_clock_def Let_def decide_def healthy_def)

text \<open>
  \<open>Running\<close> drops the error of the listing: a service that hangs is recorded as one with nothing
  running, and the next run, which then believes it was a cold start, does nothing.
\<close>

lemma hung_listing_recorded_as_none:
  assumes "\<And>w. wsl_run H status_timeout [''--list'', ''--running'', ''--quiet''] w = (([], Some Deadline), w)"
    and "\<not> o_dry_run opts"
  shows "\<exists>s. snd (fst (run_once (wsl_runner H) opts loaded w)) = Some s \<and> st_running s = []"
proof -
  have "output_lines [] = []" by (simp add: output_lines_def)
  then show ?thesis
    using assms by (auto simp: run_once_def wsl_runner_def wsl_running_def split: prod.splits)
qed

lemma recorded_none_stays_hung:
  assumes "h_service_answered h" "\<not> h_service_hung h" "\<not> h_distro_answered h"
    and "h_was_running_known h" "\<not> h_was_running h"
  shows "d_ladder (decide h opts) = []"
  using assms by (simp add: decide_def Let_def healthy_def)

end
