(* ===== verification/WslConfig.thy ===== *)
theory WslConfig
  imports GoText
begin

text \<open>
  \<open>internal/wslconfig/wslconfig.go\<close>: reading \<open>.wslconfig\<close> and \<open>wsl.conf\<close>, keeping line numbers
  and the raw lines, and \<open>CommentOut\<close> of \<open>lint.go\<close>, which disables lines of the file. A line
  number is a \<open>nat\<close> from 1; 0 is the whole file.
\<close>

record entry =
  en_section :: string
  en_key :: string
  en_value :: string
  en_line :: nat
  en_raw :: string

datatype parse_fault = Unterminated | NoEquals

record parse_problem =
  pp_line :: nat
  pp_raw :: string
  pp_fault :: parse_fault

record ini =
  in_entries :: "entry list"
  in_sections :: "string list"
  in_lines :: "string list"
  in_problems :: "parse_problem list"

definition empty_ini :: ini where
  "empty_ini = \<lparr>in_entries = [], in_sections = [], in_lines = [], in_problems = []\<rparr>"

section \<open>Lines\<close>

text \<open>
  \<open>bufio.Scanner\<close> over lines with the buffer \<open>Parse\<close> gives it: a line that does not fit ends the
  scan, and nothing after it is read.
\<close>

definition max_token :: nat where "max_token = 1048576"

definition drop_cr :: "string \<Rightarrow> string" where
  "drop_cr l = (if l \<noteq> [] \<and> last l = carriage_return then butlast l else l)"

function scan_lines :: "string \<Rightarrow> string list" where
  "scan_lines s =
     (if s = [] then []
      else (let l = takeWhile (\<lambda>c. c \<noteq> newline) s
            in if length l \<ge> max_token then [] else drop_cr l # scan_lines (drop (Suc (length l)) s)))"
  by pat_completeness auto
termination
  by (relation "measure length") auto

declare scan_lines.simps [simp del]

text \<open>The limit compared as an \<open>int\<close>, so that evaluation does not count up to it.\<close>

lemma scan_lines_code [code]:
  "scan_lines s =
     (if s = [] then []
      else (let l = takeWhile (\<lambda>c. c \<noteq> newline) s
            in if int (length l) \<ge> 1048576 then []
               else drop_cr l # scan_lines (drop (Suc (length l)) s)))"
  by (subst scan_lines.simps) (simp add: max_token_def)

datatype line_class = Ignored | Section string | Setting string string | Bad parse_fault

definition trim_quotes :: "string \<Rightarrow> string" where
  "trim_quotes s = trim_right (\<lambda>c. c = CHR 0x22) (trim_left (\<lambda>c. c = CHR 0x22) s)"

definition setting_value :: "string \<Rightarrow> string" where
  "setting_value s =
     (let v = trim_space s;
          u = (case index_sub v '' #'' of Some i \<Rightarrow> trim_space (take i v) | None \<Rightarrow> v)
      in trim_quotes u)"

definition classify :: "string \<Rightarrow> line_class" where
  "classify raw =
     (let line = trim_space raw
      in if line = [] \<or> has_prefix line ''#'' \<or> has_prefix line '';'' then Ignored
         else if has_prefix line ''['' then
           (case index_byte line CHR '']'' of
              None \<Rightarrow> Bad Unterminated
            | Some e \<Rightarrow> Section (to_lower (trim_space (drop 1 (take e line)))))
         else (case index_byte line CHR ''='' of
                 None \<Rightarrow> Bad NoEquals
               | Some e \<Rightarrow> Setting (trim_space (take e line)) (setting_value (drop (Suc e) line))))"

text \<open>The body of the loop; the state is the current section, the line number and the result.\<close>

definition ini_line :: "string \<times> nat \<times> ini \<Rightarrow> string \<Rightarrow> string \<times> nat \<times> ini" where
  "ini_line st raw =
     (case st of (sec, n0, c0) \<Rightarrow>
        (let n = Suc n0; c = c0\<lparr>in_lines := in_lines c0 @ [raw]\<rparr>
         in case classify raw of
              Ignored \<Rightarrow> (sec, n, c)
            | Section s \<Rightarrow>
                (s, n, if s \<in> set (in_sections c) then c else c\<lparr>in_sections := in_sections c @ [s]\<rparr>)
            | Setting k v \<Rightarrow>
                (sec, n, c\<lparr>in_entries := in_entries c
                    @ [\<lparr>en_section = sec, en_key = k, en_value = v, en_line = n, en_raw = raw\<rparr>]\<rparr>)
            | Bad f \<Rightarrow>
                (sec, n, c\<lparr>in_problems := in_problems c
                    @ [\<lparr>pp_line = n, pp_raw = raw, pp_fault = f\<rparr>]\<rparr>)))"

definition parse_ini_lines :: "string list \<Rightarrow> ini" where
  "parse_ini_lines ls = snd (snd (foldl ini_line ([], 0, empty_ini) ls))"

definition parse :: "string \<Rightarrow> ini" where
  "parse text = parse_ini_lines (scan_lines text)"

definition get :: "ini \<Rightarrow> string \<Rightarrow> string \<Rightarrow> string option" where
  "get c sec key =
     foldl (\<lambda>out e. if equal_fold (en_section e) sec \<and> equal_fold (en_key e) key
                    then Some (en_value e) else out) None (in_entries c)"

section \<open>Values\<close>

definition to_upper_char :: "char \<Rightarrow> char" where
  "to_upper_char c = (if 97 \<le> (of_char c :: nat) \<and> (of_char c :: nat) \<le> 122
                      then char_of ((of_char c :: nat) - 32) else c)"

definition wsl_suffixes :: "(string \<times> u64) list" where
  "wsl_suffixes = [(''TB'', 2 ^ 40), (''GB'', 2 ^ 30), (''MB'', 2 ^ 20), (''KB'', 2 ^ 10), (''B'', 1)]"

text \<open>The digits: a \<open>uint64\<close> that stops as soon as it passes \<open>1 << 50\<close>.\<close>

fun size_digits :: "u64 \<Rightarrow> string \<Rightarrow> u64 option" where
  "size_digits n [] = Some n"
| "size_digits n (c # s) =
     (if \<not> is_digit c then None
      else (let m = n * 10 + of_nat (digit_val c) in if m > 2 ^ 50 then None else size_digits m s))"

definition parse_wsl_size :: "string \<Rightarrow> u64 option" where
  "parse_wsl_size s0 =
     (let s1 = trim_space (map to_upper_char s0);
          (s2, mult) = (case find (\<lambda>(suf, m). has_suffix s1 suf) wsl_suffixes of
                          Some (suf, m) \<Rightarrow> (trim_suffix s1 suf, m)
                        | None \<Rightarrow> (s1, 1));
          s3 = trim_space s2
      in if s3 = [] then None else map_option (\<lambda>n. n * mult) (size_digits 0 s3))"

definition parse_bool :: "string \<Rightarrow> bool option" where
  "parse_bool s =
     (let t = to_lower (trim_space s)
      in if t = ''true'' \<or> t = ''1'' \<or> t = ''yes'' \<or> t = ''on'' then Some True
         else if t = ''false'' \<or> t = ''0'' \<or> t = ''no'' \<or> t = ''off'' then Some False
         else None)"

definition networking_mode :: "string \<Rightarrow> string \<Rightarrow> string \<times> bool \<times> bool" where
  "networking_mode cfg_text policy =
     (let (mode, explicit) =
        (if cfg_text \<noteq> [] then
           (case get (parse cfg_text) ''wsl2'' ''networkingMode'' of
              Some v \<Rightarrow> (to_lower (trim_space v), True)
            | None \<Rightarrow>
                (case get (parse cfg_text) ''experimental'' ''networkingMode'' of
                   Some v \<Rightarrow> (to_lower (trim_space v), True)
                 | None \<Rightarrow> (''nat'', False)))
         else (''nat'', False))
      in if trim_space policy \<noteq> [] then (to_lower (trim_space policy), True, True)
         else (mode, explicit, False))"

section \<open>CommentOut\<close>

text \<open>
  \<open>CommentOut\<close> of \<open>lint.go\<close>: of each line to disable, the first reason is kept. A reason is the
  message of the finding.
\<close>

definition reason_for :: "(nat \<times> string) list \<Rightarrow> nat \<Rightarrow> string option" where
  "reason_for fs n = map_option snd (find (\<lambda>(m, _). m = n) fs)"

fun comment_lines :: "(nat \<times> string) list \<Rightarrow> nat \<Rightarrow> string list \<Rightarrow> string list" where
  "comment_lines fs n [] = []"
| "comment_lines fs n (l # ls) =
     (case reason_for fs n of
        Some reason \<Rightarrow>
          if has_prefix (trim_space l) ''#'' then l # comment_lines fs (Suc n) ls
          else (''# wslkit:'' @ reason) # (''# '' @ l) # comment_lines fs (Suc n) ls
      | None \<Rightarrow> l # comment_lines fs (Suc n) ls)"

definition comment_out :: "ini \<Rightarrow> (nat \<times> string) list \<Rightarrow> string list" where
  "comment_out cfg fs = comment_lines fs 1 (in_lines cfg)"

text \<open>How \<open>WslConfig.Plan\<close> of \<open>internal/fix/actions/wslconfig.go\<close> puts the file together again.\<close>

definition rewritten :: "string \<Rightarrow> (nat \<times> string) list \<Rightarrow> string" where
  "rewritten text fs =
     (let nl = (if contains text [carriage_return, newline] then [carriage_return, newline] else [newline]);
          content = join_with nl (comment_out (parse text) fs)
      in if has_suffix text [newline] \<and> \<not> has_suffix content [newline] then content @ nl else content)"

section \<open>What the parser reads\<close>

fun entries_from :: "string \<Rightarrow> nat \<Rightarrow> string list \<Rightarrow> entry list" where
  "entries_from sec n [] = []"
| "entries_from sec n (l # ls) =
     (case classify l of
        Section s \<Rightarrow> entries_from s (Suc n) ls
      | Setting k v \<Rightarrow> \<lparr>en_section = sec, en_key = k, en_value = v, en_line = Suc n, en_raw = l\<rparr>
                        # entries_from sec (Suc n) ls
      | _ \<Rightarrow> entries_from sec (Suc n) ls)"

fun problems_from :: "nat \<Rightarrow> string list \<Rightarrow> parse_problem list" where
  "problems_from n [] = []"
| "problems_from n (l # ls) =
     (case classify l of
        Bad f \<Rightarrow> \<lparr>pp_line = Suc n, pp_raw = l, pp_fault = f\<rparr> # problems_from (Suc n) ls
      | _ \<Rightarrow> problems_from (Suc n) ls)"

lemma foldl_ini_line:
  "in_entries (snd (snd (foldl ini_line (sec, n, c) ls))) = in_entries c @ entries_from sec n ls"
  "in_lines (snd (snd (foldl ini_line (sec, n, c) ls))) = in_lines c @ ls"
  "in_problems (snd (snd (foldl ini_line (sec, n, c) ls))) = in_problems c @ problems_from n ls"
  by (induction ls arbitrary: sec n c) (auto simp: ini_line_def Let_def split: line_class.split)

lemma ini_entries: "in_entries (parse_ini_lines ls) = entries_from [] 0 ls"
  and ini_lines: "in_lines (parse_ini_lines ls) = ls"
  and parse_problem_list: "in_problems (parse_ini_lines ls) = problems_from 0 ls"
  by (simp_all add: parse_ini_lines_def foldl_ini_line empty_ini_def)

text \<open>The settings of a file, and that they depend on the classes of its lines only.\<close>

definition setting_of :: "entry \<Rightarrow> string \<times> string \<times> string" where
  "setting_of e = (en_section e, en_key e, en_value e)"

definition settings :: "ini \<Rightarrow> (string \<times> string \<times> string) list" where
  "settings c = map setting_of (in_entries c)"

fun settings_from :: "string \<Rightarrow> line_class list \<Rightarrow> (string \<times> string \<times> string) list" where
  "settings_from sec [] = []"
| "settings_from sec (Section s # cs) = settings_from s cs"
| "settings_from sec (Setting k v # cs) = (sec, k, v) # settings_from sec cs"
| "settings_from sec (_ # cs) = settings_from sec cs"

lemma settings_from_entries: "map setting_of (entries_from sec n ls) = settings_from sec (map classify ls)"
  by (induction ls arbitrary: sec n) (auto simp: setting_of_def split: line_class.split)

lemma settings_parse_lines: "settings (parse_ini_lines ls) = settings_from [] (map classify ls)"
  by (simp add: settings_def ini_entries settings_from_entries)

text \<open>The classes that matter.\<close>

definition relevant :: "string list \<Rightarrow> line_class list" where
  "relevant ls = filter (\<lambda>c. c \<noteq> Ignored) (map classify ls)"

lemma settings_from_relevant: "settings_from sec (map classify ls) = settings_from sec (relevant ls)"
proof -
  have "settings_from sec cs = settings_from sec (filter (\<lambda>c. c \<noteq> Ignored) cs)" for cs
    by (induction sec cs rule: settings_from.induct) auto
  then show ?thesis by (simp add: relevant_def)
qed

lemma problems_from_none: "(problems_from n ls = []) = (\<forall>f. Bad f \<notin> set (relevant ls))"
  by (induction ls arbitrary: n) (auto simp: relevant_def split: line_class.split)

lemma problem_of_line:
  "k < length ls \<Longrightarrow> classify (ls ! k) = Bad f \<Longrightarrow> \<exists>p \<in> set (problems_from n ls). pp_line p = Suc (n + k)"
proof (induction ls arbitrary: n k)
  case (Cons l ls)
  show ?case
  proof (cases k)
    case 0
    with Cons.prems show ?thesis by simp
  next
    case (Suc j)
    then have "\<exists>p \<in> set (problems_from (Suc n) ls). pp_line p = Suc (n + k)"
      using Cons.IH [of j "Suc n"] Cons.prems by simp
    then show ?thesis by (auto split: line_class.split)
  qed
qed simp

lemma foldl_last:
  "foldl (\<lambda>out e. if P e then Some (f e) else out) None xs
     = (if filter P xs = [] then None else Some (f (last (filter P xs))))"
  by (induction xs rule: rev_induct) auto

lemma get_last:
  "get c sec key =
     (let es = filter (\<lambda>e. equal_fold (en_section e) sec \<and> equal_fold (en_key e) key) (in_entries c)
      in if es = [] then None else Some (en_value (last es)))"
  by (simp only: get_def foldl_last Let_def)

section \<open>Classes of lines\<close>

lemma trim_left_right: "trim_space s = trim_left is_space (trim_right is_space s)"
proof (induction s)
  case (Cons c s)
  show ?case
  proof (cases "is_space c")
    case True
    then have l: "trim_space (c # s) = trim_space s" by (simp add: trim_space_def trim_left_def)
    show ?thesis
    proof (cases "\<forall>d \<in> set s. is_space d")
      case all: True
      then have "trim_space s = []" "trim_right is_space (c # s) = []"
        using True by (auto simp: trim_space_empty trim_right_def)
      with l show ?thesis by (simp add: trim_left_def)
    next
      case False
      then obtain d where "d \<in> set (rev s)" "\<not> is_space d" by auto
      then have "dropWhile is_space (rev s @ [c]) = dropWhile is_space (rev s) @ [c]"
        by (rule dropWhile_append1)
      then show ?thesis using l True Cons by (simp add: trim_right_def trim_left_def)
    qed
  next
    case False
    then have "dropWhile is_space (rev s @ [c]) = dropWhile is_space (rev s) @ [c]"
      by (rule dropWhile_append3)
    then show ?thesis using False by (simp add: trim_space_def trim_right_def trim_left_def)
  qed
qed (simp add: trim_space_def trim_right_def trim_left_def)

lemma trim_space_snoc_space: "is_space c \<Longrightarrow> trim_space (s @ [c]) = trim_space s"
  by (simp add: trim_left_right trim_right_def)

lemma is_space_cr: "is_space carriage_return"
  by (simp add: is_space_def carriage_return_def)

lemma trim_space_drop_cr: "trim_space (drop_cr l) = trim_space l"
  by (cases l rule: rev_cases) (auto simp: drop_cr_def trim_space_snoc_space is_space_cr)

lemma classify_drop_cr [simp]: "classify (drop_cr l) = classify l"
  by (simp add: classify_def trim_space_drop_cr)

lemma classify_cr [simp]: "classify (l @ [carriage_return]) = classify l"
  by (simp add: classify_def trim_space_snoc_space is_space_cr)

lemma classify_Nil [simp]: "classify [] = Ignored"
  by (simp add: classify_def)

lemma trim_space_starts: "\<not> is_space c \<Longrightarrow> \<exists>t. trim_space (c # s) = c # t"
proof -
  assume c: "\<not> is_space c"
  then have "dropWhile is_space (rev s @ [c]) = dropWhile is_space (rev s) @ [c]"
    by (rule dropWhile_append3)
  with c show ?thesis by (simp add: trim_space_def trim_right_def trim_left_def)
qed

lemma classify_hash: "classify (CHR ''#'' # s) = Ignored"
  using trim_space_starts [of "CHR ''#''" s] by (auto simp: classify_def has_prefix_def is_space_def)

lemma classify_comment: "has_prefix (trim_space l) ''#'' \<Longrightarrow> classify l = Ignored"
  by (simp add: classify_def)

section \<open>Scanning what was joined\<close>

lemma scan_lines_clean: "l \<in> set (scan_lines s) \<Longrightarrow> newline \<notin> set l \<and> length l < max_token"
proof (induction s rule: scan_lines.induct)
  case (1 s)
  let ?l = "takeWhile (\<lambda>c. c \<noteq> newline) s"
  have "set (drop_cr ?l) \<subseteq> set ?l" "length (drop_cr ?l) \<le> length ?l"
    by (auto simp: drop_cr_def dest: in_set_butlastD)
  moreover have "newline \<notin> set ?l" by (auto dest: set_takeWhileD)
  ultimately show ?case
    using 1 by (subst (asm) scan_lines.simps) (auto simp: Let_def split: if_splits)
qed

lemma scan_line:
  "newline \<notin> set l \<Longrightarrow> length l < max_token \<Longrightarrow>
     scan_lines (l @ newline # s) = drop_cr l # scan_lines s"
proof -
  assume l: "newline \<notin> set l" "length l < max_token"
  then have "takeWhile (\<lambda>c. c \<noteq> newline) (l @ newline # s) = l"
    by (intro takeWhile_append_stop) auto
  with l show ?thesis by (subst scan_lines.simps) (simp add: Let_def)
qed

lemma scan_last:
  "newline \<notin> set l \<Longrightarrow> length l < max_token \<Longrightarrow> scan_lines l = (if l = [] then [] else [drop_cr l])"
proof -
  assume l: "newline \<notin> set l" "length l < max_token"
  then have "takeWhile (\<lambda>c. c \<noteq> newline) l = l" by (intro takeWhile_all) auto
  moreover have "scan_lines [] = []" by (subst scan_lines.simps) simp
  ultimately show ?thesis using l(2) by (subst scan_lines.simps) (simp only: Let_def, simp)
qed

lemma join_with_Cons: "ls \<noteq> [] \<Longrightarrow> join_with sep (l # ls) = l @ sep @ join_with sep ls"
  by (cases ls) auto

text \<open>Up to a last empty line, a file written with either line end is read as the lines it was made of.\<close>

lemma scan_join:
  assumes "list_all (\<lambda>l. newline \<notin> set l \<and> Suc (length l) < max_token) ls"
    and "nl = [newline] \<or> nl = [carriage_return, newline]" and "e = [] \<or> e = nl"
  shows "relevant (scan_lines (join_with nl ls @ e)) = relevant ls"
  using assms(1)
proof (induction ls)
  case Nil
  have "newline \<notin> set [carriage_return]" "scan_lines [] = []"
    by (simp add: newline_def carriage_return_def, subst scan_lines.simps, simp)
  then show ?case
    using assms(2,3) scan_line [of "[]" "[]"] scan_line [of "[carriage_return]" "[]"]
    by (auto simp: max_token_def drop_cr_def relevant_def)
next
  case (Cons l ls)
  have cr: "newline \<notin> set (l @ [carriage_return])" "newline \<notin> set l"
    "length (l @ [carriage_return]) < max_token" "length l < max_token"
    using Cons.prems by (auto simp: newline_def carriage_return_def)
  have line: "\<exists>l'. scan_lines (l @ nl @ s) = l' # scan_lines s \<and> classify l' = classify l" for s
    using assms(2) scan_line [OF cr(2,4), of s] scan_line [OF cr(1,3), of s]
    by auto
  have nil: "scan_lines [] = []" by (subst scan_lines.simps) simp
  show ?case
  proof (cases "ls = []")
    case True
    show ?thesis
    proof (cases "e = []")
      case e: True
      then show ?thesis using True scan_last [OF cr(2,4)] by (cases "l = []") (auto simp: relevant_def)
    next
      case False
      then have "e = nl" using assms(3) by simp
      then show ?thesis using True line [of "[]"] nil by (auto simp: relevant_def)
    qed
  next
    case False
    then obtain l' where "scan_lines (join_with nl (l # ls) @ e) = l' # scan_lines (join_with nl ls @ e)"
      "classify l' = classify l"
      using line [of "join_with nl ls @ e"] by (auto simp: join_with_Cons)
    moreover have "relevant (scan_lines (join_with nl ls @ e)) = relevant ls"
      using Cons by simp
    ultimately show ?thesis by (simp add: relevant_def)
  qed
qed

section \<open>CommentOut disables what it is given\<close>

lemma comment_lines_settings:
  assumes "\<And>k s. k < length ls \<Longrightarrow> reason_for fs (Suc n + k) \<noteq> None \<Longrightarrow> classify (ls ! k) \<noteq> Section s"
  shows "settings_from sec (map classify (comment_lines fs (Suc n) ls))
       = map setting_of (filter (\<lambda>e. reason_for fs (en_line e) = None) (entries_from sec n ls))"
  using assms
proof (induction ls arbitrary: sec n)
  case (Cons l ls)
  have IH: "settings_from sec (map classify (comment_lines fs (Suc (Suc n)) ls))
      = map setting_of (filter (\<lambda>e. reason_for fs (en_line e) = None) (entries_from sec (Suc n) ls))" for sec
    using Cons.prems [of "Suc _"] by (intro Cons.IH) auto
  show ?case
  proof (cases "reason_for fs (Suc n)")
    case None
    then show ?thesis using IH by (cases "classify l") (auto simp: setting_of_def)
  next
    case (Some r)
    then have "classify l \<noteq> Section s" for s using Cons.prems [of 0] by auto
    then have "filter (\<lambda>e. reason_for fs (en_line e) = None) (entries_from sec n (l # ls))
        = filter (\<lambda>e. reason_for fs (en_line e) = None) (entries_from sec (Suc n) ls)"
      using Some by (auto split: line_class.split)
    then show ?thesis using Some IH classify_comment [of l]
      by (auto simp: classify_hash)
  qed
qed simp

lemma comment_lines_in:
  "l \<in> set (comment_lines fs n ls) \<Longrightarrow>
     l \<in> set ls \<or> (\<exists>r \<in> snd ` set fs. l = ''# wslkit:'' @ r) \<or> (\<exists>k \<in> set ls. l = ''# '' @ k)"
proof (induction fs n ls rule: comment_lines.induct)
  case (2 fs n l' ls)
  show ?case
  proof (cases "reason_for fs n")
    case (Some r)
    then have "r \<in> snd ` set fs"
      by (auto simp: reason_for_def find_Some_iff) (metis imageI nth_mem snd_conv)
    then show ?thesis using 2 Some by (auto split: if_splits)
  qed (use 2 in auto)
qed simp

lemma comment_lines_bad:
  assumes "\<And>k f. k < length ls \<Longrightarrow> classify (ls ! k) = Bad f \<Longrightarrow> reason_for fs (n + k) \<noteq> None"
  shows "Bad f \<notin> set (relevant (comment_lines fs n ls))"
  using assms
proof (induction fs n ls rule: comment_lines.induct)
  case (2 fs n l ls)
  have hd: "classify l = Bad f \<Longrightarrow> reason_for fs n \<noteq> None" using "2.prems" [of 0] by auto
  have tl: "reason_for fs (Suc n + k) \<noteq> None" if "k < length ls" "classify (ls ! k) = Bad f" for k f
    using "2.prems" [of "Suc k" f] that by simp
  show ?case
  proof (cases "reason_for fs n")
    case None
    then show ?thesis using hd "2.IH" tl by (auto simp: relevant_def)
  next
    case (Some r)
    then show ?thesis using "2.IH" tl by (auto simp: relevant_def classify_hash classify_comment)
  qed
qed (simp add: relevant_def)

lemma rewritten_relevant:
  assumes "list_all (\<lambda>l. newline \<notin> set l \<and> Suc (length l) < max_token) (comment_out (parse text) fs)"
  shows "relevant (in_lines (parse (rewritten text fs))) = relevant (comment_out (parse text) fs)"
proof -
  define nl where "nl = (if contains text [carriage_return, newline] then [carriage_return, newline] else [newline])"
  define e where "e = (if has_suffix text [newline]
    \<and> \<not> has_suffix (join_with nl (comment_out (parse text) fs)) [newline] then nl else [])"
  have nl: "nl = [newline] \<or> nl = [carriage_return, newline]" "e = [] \<or> e = nl"
    by (simp_all add: nl_def e_def)
  have "rewritten text fs = join_with nl (comment_out (parse text) fs) @ e"
    unfolding rewritten_def Let_def nl_def [symmetric] e_def by (cases "has_suffix text [newline]") simp_all
  then show ?thesis using scan_join [OF assms nl] by (simp add: parse_def ini_lines)
qed

lemma rewritten_settings:
  assumes "\<And>n s. reason_for fs n \<noteq> None \<Longrightarrow> n \<noteq> 0 \<Longrightarrow> n \<le> length (in_lines (parse text)) \<Longrightarrow>
             classify (in_lines (parse text) ! (n - 1)) \<noteq> Section s"
    and "list_all (\<lambda>l. newline \<notin> set l \<and> Suc (length l) < max_token) (comment_out (parse text) fs)"
  shows "settings (parse (rewritten text fs))
       = map setting_of (filter (\<lambda>e. reason_for fs (en_line e) = None) (in_entries (parse text)))"
proof -
  let ?ls = "scan_lines text"
  have "settings (parse (rewritten text fs)) = settings_from [] (relevant (comment_lines fs (Suc 0) ?ls))"
    using rewritten_relevant [OF assms(2)]
    by (simp add: parse_def settings_parse_lines ini_lines settings_from_relevant comment_out_def)
  also have "\<dots> = settings_from [] (map classify (comment_lines fs (Suc 0) ?ls))"
    by (simp add: settings_from_relevant)
  also have "\<dots> = map setting_of (filter (\<lambda>e. reason_for fs (en_line e) = None) (entries_from [] 0 ?ls))"
    using assms(1) [of "Suc _"] by (intro comment_lines_settings) (auto simp: parse_def ini_lines)
  finally show ?thesis by (simp add: parse_def ini_entries)
qed

section \<open>Where the numbers and the scanner give out\<close>

text \<open>A size is bounded before it is multiplied, not after: this many terabytes are zero bytes.\<close>

lemma huge_size_is_zero: "parse_wsl_size ''16777216TB'' = Some 0"
  by code_simp

text \<open>A line that does not fit the scanner's buffer ends the file for the parser, and so for the fix.\<close>

lemma long_line_cuts_file:
  "newline \<notin> set l \<Longrightarrow> max_token \<le> length l \<Longrightarrow> scan_lines (l @ newline # s) = []"
proof -
  assume l: "newline \<notin> set l" "max_token \<le> length l"
  then have "takeWhile (\<lambda>c. c \<noteq> newline) (l @ newline # s) = l"
    by (intro takeWhile_append_stop) auto
  with l(2) show ?thesis by (subst scan_lines.simps) (simp add: Let_def max_token_def)
qed

end
