(* ===== verification/WslVer.thy ===== *)
theory WslVer
  imports GoText
begin

text \<open>
  \<open>internal/wslver/wslver.go\<close>: WSL runtime versions of up to four components. A Go \<open>int\<close> that
  holds a component is an \<open>int\<close>; \<open>Atoi\<close> keeps it below \<open>2 ^ 63\<close>.
\<close>

datatype version = Version (v0: int) (v1: int) (v2: int) (v3: int)

definition components :: "version \<Rightarrow> int list" where
  "components v = [v0 v, v1 v, v2 v, v3 v]"

definition no_version :: version where "no_version = Version 0 0 0 0"

definition is_zero :: "version \<Rightarrow> bool" where "is_zero v \<longleftrightarrow> v = no_version"

fun parse_components :: "string list \<Rightarrow> int list option" where
  "parse_components [] = Some []"
| "parse_components (p # ps) =
     (case atoi p of
        None \<Rightarrow> None
      | Some n \<Rightarrow> if n < 0 then None else map_option ((#) n) (parse_components ps))"

definition version_of :: "int list \<Rightarrow> version" where
  "version_of ns = (case ns @ [0, 0, 0, 0] of a # b # c # d # _ \<Rightarrow> Version a b c d | _ \<Rightarrow> no_version)"

definition parse_version :: "string \<Rightarrow> version option" where
  "parse_version s =
     (let t = trim_prefix (trim_prefix (trim_space s) ''v'') ''V''
      in if t = [] then None
         else (let parts = split_on CHR ''.'' t
               in if length parts > 4 then None
                  else map_option version_of (parse_components parts)))"

fun compare_components :: "int list \<Rightarrow> int list \<Rightarrow> int" where
  "compare_components (a # as) (b # bs) =
     (if a < b then - 1 else if a > b then 1 else compare_components as bs)"
| "compare_components _ _ = 0"

definition compare :: "version \<Rightarrow> version \<Rightarrow> int" where
  "compare a b = compare_components (components a) (components b)"

definition version_less :: "version \<Rightarrow> version \<Rightarrow> bool" where
  "version_less a b \<longleftrightarrow> compare a b < 0"

definition at_least :: "version \<Rightarrow> version \<Rightarrow> bool" where
  "at_least a b \<longleftrightarrow> compare a b \<ge> 0"

definition version_string :: "version \<Rightarrow> string" where
  "version_string v =
     join_with ''.'' (map format_int (if v3 v \<noteq> 0 then components v else [v0 v, v1 v, v2 v]))"

section \<open>The order\<close>

instantiation version :: linorder
begin

definition less_eq_version :: "version \<Rightarrow> version \<Rightarrow> bool" where
  "less_eq_version a b \<longleftrightarrow> compare a b \<le> 0"

definition less_version :: "version \<Rightarrow> version \<Rightarrow> bool" where
  "less_version a b \<longleftrightarrow> version_less a b"

instance
proof
  fix x y z :: version
  show "x < y \<longleftrightarrow> x \<le> y \<and> \<not> y \<le> x" "x \<le> x" "x \<le> y \<or> y \<le> x"
    by (cases x; cases y;
        simp add: less_eq_version_def less_version_def version_less_def compare_def components_def)+
  show "x \<le> y \<Longrightarrow> y \<le> z \<Longrightarrow> x \<le> z" "x \<le> y \<Longrightarrow> y \<le> x \<Longrightarrow> x = y"
    by (cases x; cases y; cases z;
        simp add: less_eq_version_def compare_def components_def split: if_splits)+
qed

end

lemma version_less_iff: "version_less a b \<longleftrightarrow> a < b"
  by (simp add: less_version_def)

lemma at_least_iff: "at_least a b \<longleftrightarrow> b \<le> a"
proof -
  have "at_least a b \<longleftrightarrow> \<not> version_less a b" by (simp add: at_least_def version_less_def not_less)
  then show ?thesis by (simp add: version_less_iff not_less)
qed

section \<open>Printing and parsing\<close>

definition parsed :: "version \<Rightarrow> bool" where
  "parsed v \<longleftrightarrow> list_all (\<lambda>n. 0 \<le> n \<and> n < 2 ^ 63) (components v)"

lemma atoi_bound: "atoi s = Some n \<Longrightarrow> n < 2 ^ 63"
  by (auto simp: atoi_def Let_def split: if_splits)

lemma parse_components_bound: "parse_components ps = Some ns \<Longrightarrow> \<forall>n \<in> set ns. 0 \<le> n \<and> n < 2 ^ 63"
  by (induction ps arbitrary: ns) (auto split: option.splits if_splits dest!: atoi_bound)

lemma parse_components_length: "parse_components ps = Some ns \<Longrightarrow> length ns = length ps"
  by (induction ps arbitrary: ns) (auto split: option.splits if_splits)

lemma parse_components_format:
  "\<forall>n \<in> set ns. 0 \<le> n \<and> n < 2 ^ 63 \<Longrightarrow> parse_components (map format_int ns) = Some ns"
proof (induction ns)
  case (Cons n ns)
  then have "atoi (format_int n) = Some n"
    using atoi_format_uint [of "nat n"] by (simp add: format_int_def nat_less_iff)
  with Cons show ?case by simp
qed simp

lemma format_int_digits: "0 \<le> n \<Longrightarrow> c \<in> set (format_int n) \<Longrightarrow> is_digit c"
  using digits10_all [of "nat n"] by (auto simp: format_int_def format_uint_def list_all_iff)

lemma version_of_eq: "version_of [a, b, c, d] = Version a b c d" "version_of [a, b, c] = Version a b c 0"
  by (simp_all add: version_of_def)

text \<open>A version read from text is in range, and it is read back from what it prints.\<close>

lemma parse_version_parsed: "parse_version s = Some v \<Longrightarrow> parsed v"
proof -
  assume "parse_version s = Some v"
  then obtain ps ns where ns: "parse_components ps = Some ns" "v = version_of ns" "length ps \<le> 4"
    by (auto simp: parse_version_def Let_def split: if_splits)
  then have "length ns \<le> 4" "\<forall>n \<in> set ns. 0 \<le> n \<and> n < 2 ^ 63"
    using parse_components_length parse_components_bound by fastforce+
  then have all: "\<forall>n \<in> set (ns @ [0, 0, 0, 0]). 0 \<le> n \<and> n < 2 ^ 63" by auto
  obtain a b c d rest where "ns @ [0, 0, 0, 0] = a # b # c # d # rest"
    using \<open>length ns \<le> 4\<close> by (cases ns; cases "tl ns"; cases "tl (tl ns)"; cases "tl (tl (tl ns))") auto
  with all ns(2) show "parsed v" by (auto simp: parsed_def version_of_def components_def)
qed

lemma parse_version_string: "parsed v \<Longrightarrow> parse_version (version_string v) = Some v"
proof -
  assume v: "parsed v"
  let ?ns = "if v3 v \<noteq> 0 then components v else [v0 v, v1 v, v2 v]"
  let ?s = "version_string v"
  have r: "\<forall>n \<in> set ?ns. 0 \<le> n \<and> n < 2 ^ 63"
    using v by (auto simp: parsed_def components_def)
  have ch: "is_digit c \<or> c = CHR ''.''" if "c \<in> set (join_with ''.'' (map format_int ms))"
    "\<forall>n \<in> set ms. 0 \<le> (n :: int)" for c ms
    using set_join_with [OF that(1)] that(2) by (auto intro: format_int_digits [rotated])
  obtain d ds where d: "?s = d # ds" "is_digit d"
  proof -
    have "format_int (v0 v) \<noteq> []" using v by (simp add: format_int_def parsed_def components_def)
    then obtain d ds where d: "format_int (v0 v) = d # ds" by (cases "format_int (v0 v)") auto
    then have "is_digit d" using v format_int_digits [of "v0 v" d] by (simp add: parsed_def components_def)
    with d that show thesis by (cases "v3 v = 0") (simp_all add: version_string_def components_def)
  qed
  have "\<not> is_space c" if "c \<in> set ?s" for c
  proof -
    have "is_digit c \<or> c = CHR ''.''"
      using that r by (intro ch [of c ?ns]) (auto simp: version_string_def)
    moreover have "\<not> is_space CHR ''.''" by (simp add: is_space_def)
    ultimately show ?thesis using digit_not_space by metis
  qed
  then have t: "trim_space ?s = ?s"
    by (intro trim_space_id) (metis hd_in_set last_in_set)
  have p: "trim_prefix (trim_prefix ?s ''v'') ''V'' = ?s"
    using d by (auto simp: trim_prefix_def has_prefix_def is_digit_def)
  have sp: "split_on CHR ''.'' ?s = map format_int ?ns"
    unfolding version_string_def
  proof (rule split_on_join)
    show "map format_int ?ns \<noteq> []" by (simp add: components_def)
    fix x assume "x \<in> set (map format_int ?ns)"
    then obtain n where n: "n \<in> set ?ns" "x = format_int n" by auto
    then show "CHR ''.'' \<notin> set x"
      using r format_int_digits [of n "CHR ''.''"] by (auto simp: is_digit_def)
  qed
  have "length ?ns \<le> 4" by (simp add: components_def)
  moreover have "version_of ?ns = v" by (cases v) (simp add: components_def version_of_def)
  ultimately show ?thesis
    using d(1) t p sp parse_components_format [OF r] by (simp add: parse_version_def)
qed

end
