(* ===== verification/WslLint.thy ===== *)
theory WslLint
  imports WslConfig WslVer
begin

text \<open>
  \<open>internal/wslconfig/lint.go\<close> and the key table of \<open>internal/data/wslconfig_keys.go\<close>: what is
  wrong with a \<open>.wslconfig\<close> on this host, and what \<open>fix wslconfig\<close> then does to the file. The
  messages are a datatype; the wording of one is an argument of the fix, since it goes into the
  file as a comment. The key table itself is data and an argument.
\<close>

section \<open>The key table\<close>

record config_key =
  ck_section :: string
  ck_key :: string
  ck_type :: string
  ck_documented :: bool
  ck_min_build :: int
  ck_min_wsl :: string
  ck_alias_of :: string

definition key_id :: "string \<Rightarrow> string \<Rightarrow> string" where
  "key_id sec key = to_lower (sec @ ''.'' @ key)"

definition enum_values :: "string \<Rightarrow> string list" where
  "enum_values ty = (if has_prefix ty ''enum:'' then split_on CHR '','' (trim_prefix ty ''enum:'') else [])"

fun valid_keys :: "string set \<Rightarrow> config_key list \<Rightarrow> bool" where
  "valid_keys seen [] = True"
| "valid_keys seen (k # ks) =
     (let i = key_id (ck_section k) (ck_key k)
      in ck_section k \<noteq> [] \<and> ck_key k \<noteq> [] \<and> i \<notin> seen
         \<and> (ck_min_wsl k = [] \<or> parse_version (ck_min_wsl k) \<noteq> None)
         \<and> (ck_alias_of k = [] \<or> contains (ck_alias_of k) ''.'')
         \<and> valid_keys (insert i seen) ks)"

definition validate_table :: "config_key list \<Rightarrow> bool" where
  "validate_table ks \<longleftrightarrow> valid_keys {} ks
     \<and> list_all (\<lambda>k. ck_alias_of k = []
         \<or> to_lower (ck_alias_of k) \<in> set (map (\<lambda>k. key_id (ck_section k) (ck_key k)) ks)) ks"

definition lookup_key :: "config_key list \<Rightarrow> string \<Rightarrow> string \<Rightarrow> config_key option" where
  "lookup_key ks sec key =
     find (\<lambda>k. equal_fold (ck_section k) sec \<and> equal_fold (ck_key k) key) ks"

definition sections_for :: "config_key list \<Rightarrow> string \<Rightarrow> string list" where
  "sections_for ks key = map ck_section (filter (\<lambda>k. equal_fold (ck_key k) key) ks)"

section \<open>Findings\<close>

datatype severity = SevInfo | SevWarn | SevFail

datatype lint_message =
  Malformed parse_fault string | DuplicateOf nat | BeforeAnySection | BelongsUnder string string "string list"
  | UnknownKey | MovedTo string | Undocumented | NeedsBuild int int | NeedsWsl version version
  | NotBool string | NotInt string | NotSize string | MoreThanRam string u64 | NoSuchPath string
  | NoSuchKernel string | NotOneOf string "string list"
  | BridgedDeprecated | OnlyWithBridged | SharedWithHost | MirroredNeedsBuild int | OnlyWithMirrored
  | SparseRefused version | SparseExperimental | ForcesSwiotlb version

record finding =
  fi_severity :: severity
  fi_line :: nat
  fi_key :: string
  fi_message :: lint_message
  fi_comment_out :: bool

record lint_host =
  lh_build :: int
  lh_runtime :: version
  lh_ram :: u64
  lh_path_exists :: "(string \<Rightarrow> bool) option"

abbreviation mk :: "severity \<Rightarrow> nat \<Rightarrow> string \<Rightarrow> lint_message \<Rightarrow> bool \<Rightarrow> finding" where
  "mk sev n key msg co \<equiv>
     \<lparr>fi_severity = sev, fi_line = n, fi_key = key, fi_message = msg, fi_comment_out = co\<rparr>"

fun unescape_path :: "string \<Rightarrow> string" where
  "unescape_path (c # d # s) =
     (if c = CHR 0x5C \<and> d = CHR 0x5C then c # unescape_path s else c # unescape_path (d # s))"
| "unescape_path s = s"

definition lint_value :: "lint_host \<Rightarrow> entry \<Rightarrow> string \<Rightarrow> config_key \<Rightarrow> finding list" where
  "lint_value host e i k =
     (let ty = ck_type k; v = en_value e
      in if ty = ''bool'' then
           (if parse_bool v = None then [mk SevWarn (en_line e) i (NotBool v) False] else [])
         else if ty = ''int'' then
           (if atoi (trim_space v) = None then [mk SevWarn (en_line e) i (NotInt v) False] else [])
         else if ty = ''size'' then
           (case parse_wsl_size v of
              None \<Rightarrow> [mk SevWarn (en_line e) i (NotSize v) False]
            | Some n \<Rightarrow>
                if i = ''wsl2.memory'' \<and> lh_ram host > 0 \<and> n > lh_ram host
                then [mk SevWarn (en_line e) i (MoreThanRam v (lh_ram host)) False] else [])
         else if ty = ''path'' then
           (case lh_path_exists host of
              None \<Rightarrow> []
            | Some exists \<Rightarrow>
                if v \<noteq> [] \<and> \<not> exists (unescape_path v)
                then (if i = ''wsl2.kernel'' then [mk SevFail (en_line e) i (NoSuchKernel v) False]
                      else [mk SevWarn (en_line e) i (NoSuchPath v) False])
                else [])
         else if has_prefix ty ''enum:'' then
           (if list_ex (\<lambda>a. equal_fold a v) (enum_values ty) then []
            else [mk SevWarn (en_line e) i (NotOneOf v (enum_values ty)) False])
         else [])"

text \<open>The rest of the loop's body for a known key. \<open>MustParse\<close> cannot fail on a validated table.\<close>

definition lint_known :: "lint_host \<Rightarrow> entry \<Rightarrow> string \<Rightarrow> config_key \<Rightarrow> finding list" where
  "lint_known host e i k =
     (if ck_alias_of k \<noteq> [] then [mk SevInfo (en_line e) i (MovedTo (ck_alias_of k)) False] else [])
     @ (if \<not> ck_documented k \<and> ck_alias_of k = [] then [mk SevInfo (en_line e) i Undocumented False] else [])
     @ (if ck_min_build k > 0 \<and> lh_build host > 0 \<and> lh_build host < ck_min_build k
        then [mk SevWarn (en_line e) i (NeedsBuild (ck_min_build k) (lh_build host)) True] else [])
     @ (if ck_min_wsl k \<noteq> [] \<and> \<not> is_zero (lh_runtime host)
        then (case parse_version (ck_min_wsl k) of
                Some m \<Rightarrow> if version_less (lh_runtime host) m
                          then [mk SevWarn (en_line e) i (NeedsWsl m (lh_runtime host)) True] else []
              | None \<Rightarrow> [])
        else [])
     @ lint_value host e i k"

definition lint_setting :: "config_key list \<Rightarrow> lint_host \<Rightarrow> entry \<Rightarrow> finding list" where
  "lint_setting table host e =
     (let i = key_id (en_section e) (en_key e)
      in if en_section e = [] then [mk SevWarn (en_line e) (en_key e) BeforeAnySection True]
         else (case lookup_key table (en_section e) (en_key e) of
                 None \<Rightarrow>
                   (let secs = sections_for table (en_key e)
                    in if secs \<noteq> []
                       then [mk SevWarn (en_line e) i (BelongsUnder (en_key e) (en_section e) secs) True]
                       else [mk SevWarn (en_line e) i UnknownKey True])
               | Some k \<Rightarrow> lint_known host e i k))"

type_synonym 'a by_key = "string \<rightharpoonup> 'a"

definition lint_entry ::
  "config_key list \<Rightarrow> lint_host \<Rightarrow> finding list \<times> nat by_key \<times> string by_key \<Rightarrow> entry
   \<Rightarrow> finding list \<times> nat by_key \<times> string by_key" where
  "lint_entry table host st e =
     (case st of (out, seen, vals) \<Rightarrow>
        (let i = key_id (en_section e) (en_key e);
             dup = (case seen i of Some prev \<Rightarrow> [mk SevInfo (en_line e) i (DuplicateOf prev) False] | None \<Rightarrow> [])
         in (out @ dup @ lint_setting table host e, seen(i \<mapsto> en_line e), vals(i \<mapsto> en_value e))))"

section \<open>Rules across keys\<close>

definition line_of :: "nat by_key \<Rightarrow> string \<Rightarrow> nat" where
  "line_of seen k = (case seen k of Some n \<Rightarrow> n | None \<Rightarrow> 0)"

fun first_of :: "string by_key \<Rightarrow> string list \<Rightarrow> string" where
  "first_of vals [] = []"
| "first_of vals (k # ks) = (case vals k of Some v \<Rightarrow> v | None \<Rightarrow> first_of vals ks)"

fun line_key :: "string by_key \<Rightarrow> string list \<Rightarrow> string" where
  "line_key vals [] = []"
| "line_key vals (k # ks) = (if vals k \<noteq> None then k else line_key vals ks)"

definition mode_keys :: "string list" where
  "mode_keys = [''wsl2.networkingmode'', ''experimental.networkingmode'']"

definition bridged_keys :: "string list" where "bridged_keys = [''wsl2.vmswitch'', ''wsl2.macaddress'']"
definition mirrored_keys :: "string list" where
  "mirrored_keys = [''experimental.ignoredports'', ''experimental.hostaddressloopback'']"

definition lint_mode :: "lint_host \<Rightarrow> nat by_key \<Rightarrow> string by_key \<Rightarrow> string \<Rightarrow> finding list" where
  "lint_mode host seen vals mode =
     (let mode_line = line_of seen (line_key vals mode_keys)
      in (if mode = ''bridged''
          then [mk SevWarn mode_line ''wsl2.networkingMode'' BridgedDeprecated False] else [])
         @ map (\<lambda>k. mk SevWarn (line_of seen k) k OnlyWithBridged True)
             (filter (\<lambda>k. vals k \<noteq> None \<and> mode \<noteq> ''bridged'') bridged_keys)
         @ (if mode = ''mirrored'' then
              (if vals ''wsl2.localhostforwarding'' \<noteq> None
               then [mk SevInfo (line_of seen ''wsl2.localhostforwarding'') ''wsl2.localhostForwarding''
                       SharedWithHost False] else [])
              @ (if lh_build host > 0 \<and> lh_build host < 22621
                 then [mk SevFail mode_line ''wsl2.networkingMode'' (MirroredNeedsBuild (lh_build host)) False]
                 else [])
            else [])
         @ (if mode \<noteq> ''mirrored''
            then map (\<lambda>k. mk SevInfo (line_of seen k) k OnlyWithMirrored False)
                   (filter (\<lambda>k. vals k \<noteq> None) mirrored_keys)
            else []))"

definition sparse_disabled :: version where "sparse_disabled = Version 2 5 6 0"
definition sparse_back :: version where "sparse_back = Version 3 0 2 0"
definition swiotlb_fixed :: version where "swiotlb_fixed = Version 3 0 4 0"

definition is_on :: "string by_key \<Rightarrow> string \<Rightarrow> bool" where
  "is_on vals k = (case vals k of Some v \<Rightarrow> parse_bool v = Some True | None \<Rightarrow> False)"

definition is_off :: "string by_key \<Rightarrow> string \<Rightarrow> bool" where
  "is_off vals k = (case vals k of Some v \<Rightarrow> parse_bool v = Some False | None \<Rightarrow> False)"

definition lint_sparse :: "lint_host \<Rightarrow> nat by_key \<Rightarrow> string by_key \<Rightarrow> finding list" where
  "lint_sparse host seen vals =
     (if \<not> is_on vals ''experimental.sparsevhd'' \<or> is_zero (lh_runtime host) then []
      else if version_less (lh_runtime host) sparse_disabled then []
      else if version_less (lh_runtime host) sparse_back
      then [mk SevWarn (line_of seen ''experimental.sparsevhd'') ''experimental.sparseVhd''
              (SparseRefused (lh_runtime host)) False]
      else [mk SevInfo (line_of seen ''experimental.sparsevhd'') ''experimental.sparseVhd''
              SparseExperimental False])"

definition lint_swiotlb :: "lint_host \<Rightarrow> nat by_key \<Rightarrow> string by_key \<Rightarrow> string \<Rightarrow> finding list" where
  "lint_swiotlb host seen vals mode =
     (if is_zero (lh_runtime host) \<or> \<not> version_less (lh_runtime host) swiotlb_fixed then []
      else if is_off vals ''wsl2.virtio'' then []
      else (let warn = (\<lambda>key n. [mk SevWarn n key (ForcesSwiotlb (lh_runtime host)) False])
            in if is_on vals ''wsl2.virtiofs'' then warn ''wsl2.virtiofs'' (line_of seen ''wsl2.virtiofs'')
               else if mode = ''consomme'' \<or> mode = ''virtioproxy''
               then warn ''wsl2.networkingMode'' (line_of seen (line_key vals mode_keys))
               else if vals ''experimental.swiotlb'' \<noteq> None
               then warn ''experimental.swiotlb'' (line_of seen ''experimental.swiotlb'')
               else []))"

definition lint_problems :: "ini \<Rightarrow> finding list" where
  "lint_problems cfg =
     map (\<lambda>p. mk SevWarn (pp_line p) [] (Malformed (pp_fault p) (trim_space (pp_raw p))) True) (in_problems cfg)"

definition lint :: "ini \<Rightarrow> config_key list \<Rightarrow> lint_host \<Rightarrow> finding list" where
  "lint cfg table host =
     (case foldl (lint_entry table host) (lint_problems cfg, Map.empty, Map.empty) (in_entries cfg) of
        (out, seen, vals) \<Rightarrow>
          (let mode = to_lower (first_of vals mode_keys)
           in sort_key fi_line (out @ lint_mode host seen vals mode @ lint_sparse host seen vals
                                  @ lint_swiotlb host seen vals mode)))"

text \<open>\<open>WslConfig.Plan\<close> of \<open>fix/actions\<close>: the lines to disable and the new content.\<close>

definition fixable :: "(lint_message \<Rightarrow> string) \<Rightarrow> finding list \<Rightarrow> (nat \<times> string) list" where
  "fixable say fs = map (\<lambda>f. (fi_line f, say (fi_message f))) (filter fi_comment_out fs)"

definition fix_text :: "(lint_message \<Rightarrow> string) \<Rightarrow> string \<Rightarrow> config_key list \<Rightarrow> lint_host \<Rightarrow> string option" where
  "fix_text say text table host =
     (let fs = fixable say (lint (parse text) table host)
      in if fs = [] then None else Some (rewritten text fs))"

section \<open>Which settings are disabled\<close>

definition too_new :: "lint_host \<Rightarrow> config_key \<Rightarrow> bool" where
  "too_new host k \<longleftrightarrow>
     ck_min_build k > 0 \<and> lh_build host > 0 \<and> lh_build host < ck_min_build k
     \<or> ck_min_wsl k \<noteq> [] \<and> \<not> is_zero (lh_runtime host)
       \<and> (case parse_version (ck_min_wsl k) of Some m \<Rightarrow> version_less (lh_runtime host) m | None \<Rightarrow> False)"

definition ignored_here :: "config_key list \<Rightarrow> lint_host \<Rightarrow> string \<times> string \<times> string \<Rightarrow> bool" where
  "ignored_here table host s =
     (case s of (sec, key, v) \<Rightarrow>
        sec = [] \<or> (case lookup_key table sec key of None \<Rightarrow> True | Some k \<Rightarrow> too_new host k))"

lemma lint_value_keeps: "\<not> list_ex fi_comment_out (lint_value host e i k)"
  by (simp add: lint_value_def Let_def split: option.split)

lemma lint_known_disables: "list_ex fi_comment_out (lint_known host e i k) \<longleftrightarrow> too_new host k"
  using lint_value_keeps [of host e i k]
  by (cases "parse_version (ck_min_wsl k)") (simp_all add: lint_known_def too_new_def)

lemma lint_setting_disables:
  "list_ex fi_comment_out (lint_setting table host e) \<longleftrightarrow> ignored_here table host (setting_of e)"
  using lint_known_disables
  by (cases "lookup_key table (en_section e) (en_key e)")
    (simp_all add: lint_setting_def ignored_here_def setting_of_def Let_def)

lemma lint_setting_lines: "list_all (\<lambda>f. fi_line f = en_line e) (lint_setting table host e)"
proof -
  have "list_all (\<lambda>f. fi_line f = en_line e) (lint_value host e i k)" for i k
    by (simp add: lint_value_def Let_def split: option.split)
  then have "list_all (\<lambda>f. fi_line f = en_line e) (lint_known host e i k)" for i k
    by (cases "parse_version (ck_min_wsl k)") (simp_all add: lint_known_def)
  then show ?thesis
    by (cases "lookup_key table (en_section e) (en_key e)") (simp_all add: lint_setting_def Let_def)
qed

lemma lint_setting_line: "f \<in> set (lint_setting table host e) \<Longrightarrow> fi_line f = en_line e"
  using lint_setting_lines by (auto simp: list_all_iff)

definition lint_fold ::
  "config_key list \<Rightarrow> lint_host \<Rightarrow> ini \<Rightarrow> finding list \<times> nat by_key \<times> string by_key" where
  "lint_fold table host cfg =
     foldl (lint_entry table host) (lint_problems cfg, Map.empty, Map.empty) (in_entries cfg)"

abbreviation disabling :: "finding list \<Rightarrow> finding set" where
  "disabling fs \<equiv> {f \<in> set fs. fi_comment_out f}"

lemma lint_entry_step:
  assumes "lint_entry table host (out, seen, vals) e = (out', seen', vals')"
  shows "disabling out' = disabling out \<union> disabling (lint_setting table host e)"
    and "dom seen = dom vals \<Longrightarrow> dom seen' = dom vals'"
    and "ran seen' \<subseteq> insert (en_line e) (ran seen)"
proof -
  let ?i = "key_id (en_section e) (en_key e)"
  have s: "seen' = seen(?i \<mapsto> en_line e)" "vals' = vals(?i \<mapsto> en_value e)"
    using assms by (auto simp: lint_entry_def Let_def)
  then show "dom seen = dom vals \<Longrightarrow> dom seen' = dom vals'" "ran seen' \<subseteq> insert (en_line e) (ran seen)"
    by (auto simp: ran_def split: if_split_asm)
  show "disabling out' = disabling out \<union> disabling (lint_setting table host e)"
    using assms by (cases "seen ?i") (auto simp: lint_entry_def Let_def)
qed

lemma lint_foldl:
  "foldl (lint_entry table host) (ps, Map.empty, Map.empty) es = (out, seen, vals) \<Longrightarrow>
     disabling out = disabling ps \<union> (\<Union>e \<in> set es. disabling (lint_setting table host e))
     \<and> dom seen = dom vals \<and> ran seen \<subseteq> en_line ` set es"
proof (induction es arbitrary: out seen vals rule: rev_induct)
  case (snoc e es)
  obtain out0 seen0 vals0 where st:
    "foldl (lint_entry table host) (ps, Map.empty, Map.empty) es = (out0, seen0, vals0)"
    by (metis prod.exhaust)
  then have e: "lint_entry table host (out0, seen0, vals0) e = (out, seen, vals)"
    using snoc.prems by simp
  show ?case using lint_entry_step [OF e] snoc.IH [OF st] by auto
qed auto

lemma lint_fold_findings:
  assumes "lint_fold table host cfg = (out, seen, vals)"
  shows "disabling out
       = set (lint_problems cfg) \<union> (\<Union>e \<in> set (in_entries cfg). disabling (lint_setting table host e))
     \<and> dom seen = dom vals \<and> ran seen \<subseteq> en_line ` set (in_entries cfg)"
proof -
  have "disabling (lint_problems cfg) = set (lint_problems cfg)" by (auto simp: lint_problems_def)
  then show ?thesis using lint_foldl assms by (simp add: lint_fold_def)
qed

lemma lint_disables:
  assumes "f \<in> set (lint cfg table host)" "fi_comment_out f"
  shows "f \<in> set (lint_problems cfg)
       \<or> (\<exists>e \<in> set (in_entries cfg). f \<in> set (lint_setting table host e))
       \<or> fi_key f \<in> set bridged_keys \<and> fi_line f \<in> en_line ` set (in_entries cfg)"
proof -
  obtain out seen vals where st: "lint_fold table host cfg = (out, seen, vals)" by (metis prod.exhaust)
  let ?mode = "to_lower (first_of vals mode_keys)"
  have "f \<in> set (out @ lint_mode host seen vals ?mode @ lint_sparse host seen vals @ lint_swiotlb host seen vals ?mode)"
    using assms(1) st by (simp add: lint_def lint_fold_def Let_def)
  moreover have "f \<notin> set (lint_sparse host seen vals)" "f \<notin> set (lint_swiotlb host seen vals ?mode)"
    using assms(2) by (auto simp: lint_sparse_def lint_swiotlb_def Let_def split: if_splits)
  moreover have "fi_key f \<in> set bridged_keys \<and> fi_line f \<in> en_line ` set (in_entries cfg)"
    if mode: "f \<in> set (lint_mode host seen vals ?mode)"
  proof -
    obtain k where k: "k \<in> set bridged_keys" "vals k \<noteq> None" "f = mk SevWarn (line_of seen k) k OnlyWithBridged True"
    proof -
      have "f \<in> (\<lambda>k. mk SevWarn (line_of seen k) k OnlyWithBridged True)
          ` {k \<in> set bridged_keys. vals k \<noteq> None \<and> ?mode \<noteq> ''bridged''}"
        using mode assms(2) by (auto simp: lint_mode_def Let_def split: if_split_asm)
      then show thesis using that by auto
    qed
    then obtain n where "seen k = Some n" using lint_fold_findings [OF st] by blast
    then have "n \<in> en_line ` set (in_entries cfg)" using lint_fold_findings [OF st] by (auto simp: ran_def)
    with k \<open>seen k = Some n\<close> show ?thesis by (simp add: line_of_def)
  qed
  ultimately show ?thesis using lint_fold_findings [OF st] assms(2) by auto
qed

lemma lint_flags:
  "(\<exists>f \<in> set (lint_problems cfg). fi_line f = n) \<or> (\<exists>e \<in> set (in_entries cfg). en_line e = n \<and> ignored_here table host (setting_of e))
   \<Longrightarrow> \<exists>f \<in> set (lint cfg table host). fi_comment_out f \<and> fi_line f = n"
proof -
  assume h: "(\<exists>f \<in> set (lint_problems cfg). fi_line f = n)
    \<or> (\<exists>e \<in> set (in_entries cfg). en_line e = n \<and> ignored_here table host (setting_of e))"
  obtain out seen vals where st: "lint_fold table host cfg = (out, seen, vals)" by (metis prod.exhaust)
  have "set out \<subseteq> set (lint cfg table host)" using st by (auto simp: lint_def lint_fold_def Let_def)
  moreover have "\<exists>f \<in> set out. fi_comment_out f \<and> fi_line f = n"
  proof (use h in \<open>elim disjE bexE conjE\<close>)
    fix f assume "f \<in> set (lint_problems cfg)" "fi_line f = n"
    then show ?thesis using lint_fold_findings [OF st] by auto
  next
    fix e assume e: "e \<in> set (in_entries cfg)" "en_line e = n" "ignored_here table host (setting_of e)"
    then obtain f where "f \<in> set (lint_setting table host e)" "fi_comment_out f"
      using lint_setting_disables [of table host e] by (auto simp: list_ex_iff)
    then show ?thesis using e lint_fold_findings [OF st] lint_setting_line by blast
  qed
  ultimately show ?thesis by auto
qed

section \<open>Lines of entries and of problems\<close>

lemma entries_from_class:
  "e \<in> set (entries_from sec n ls) \<Longrightarrow>
     n < en_line e \<and> en_line e \<le> n + length ls \<and> (\<exists>k v. classify (ls ! (en_line e - Suc n)) = Setting k v)"
proof (induction ls arbitrary: sec n)
  case (Cons l ls)
  have "\<exists>k v. classify ((l # ls) ! (en_line e - Suc n)) = Setting k v \<and> n < en_line e \<and> en_line e \<le> n + Suc (length ls)"
    if "e \<in> set (entries_from s (Suc n) ls)" for s
    using Cons.IH [OF that] by (auto simp: nth_Cons' Suc_diff_Suc)
  with Cons.prems show ?case by (auto split: line_class.splits)
qed simp

lemma problem_class:
  "p \<in> set (problems_from n ls) \<Longrightarrow>
     n < pp_line p \<and> pp_line p \<le> n + length ls \<and> classify (ls ! (pp_line p - Suc n)) = Bad (pp_fault p)"
proof (induction ls arbitrary: n)
  case (Cons l ls)
  have "classify ((l # ls) ! (pp_line p - Suc n)) = Bad (pp_fault p) \<and> n < pp_line p \<and> pp_line p \<le> n + Suc (length ls)"
    if "p \<in> set (problems_from (Suc n) ls)"
    using Cons.IH [OF that] by (auto simp: nth_Cons' Suc_diff_Suc)
  with Cons.prems show ?case by (auto split: line_class.splits)
qed simp

lemma reason_for_iff: "reason_for fs n \<noteq> None \<longleftrightarrow> n \<in> fst ` set fs"
  by (auto simp: reason_for_def find_None_iff rev_image_eqI)

lemma fixable_lines: "fst ` set (fixable say fs) = fi_line ` {f \<in> set fs. fi_comment_out f}"
  by (auto simp: fixable_def image_iff)

section \<open>The fix\<close>

lemma flagged_not_header:
  assumes "f \<in> set (lint (parse text) table host)" "fi_comment_out f"
  shows "0 < fi_line f \<and> fi_line f \<le> length (in_lines (parse text))
       \<and> classify (in_lines (parse text) ! (fi_line f - 1)) \<noteq> Section s"
proof -
  let ?ls = "scan_lines text"
  have cfg: "in_entries (parse text) = entries_from [] 0 ?ls" "in_problems (parse text) = problems_from 0 ?ls"
    "in_lines (parse text) = ?ls"
    by (simp_all add: parse_def ini_entries parse_problem_list ini_lines)
  have entry: ?thesis if "e \<in> set (in_entries (parse text))" "fi_line f = en_line e" for e
    using entries_from_class [of e "[]" 0 ?ls] that cfg by auto
  have problem: ?thesis if prob: "f \<in> set (lint_problems (parse text))"
  proof -
    obtain p where "p \<in> set (problems_from 0 ?ls)" "fi_line f = pp_line p"
      using prob cfg by (auto simp: lint_problems_def)
    then show ?thesis using problem_class [of p 0 ?ls] cfg by auto
  qed
  from lint_disables [OF assms] show ?thesis
    using entry problem lint_setting_line by blast
qed

definition flagged :: "string \<Rightarrow> config_key list \<Rightarrow> lint_host \<Rightarrow> nat \<Rightarrow> bool" where
  "flagged text table host n \<longleftrightarrow>
     list_ex (\<lambda>f. fi_comment_out f \<and> fi_line f = n) (lint (parse text) table host)"

lemma reason_for_fixable:
  "reason_for (fixable say (lint (parse text) table host)) n \<noteq> None \<longleftrightarrow> flagged text table host n"
  unfolding reason_for_iff fixable_lines flagged_def list_ex_iff by blast

text \<open>C5: \<open>fix wslconfig\<close> disables what the linter flagged and nothing else. Read back, the rewritten
file has exactly the settings of the old one whose line was not flagged, with the same sections and
values and in the same order, whatever its line ends; every malformed line is gone; and of the lines
a second run could still disable there are only the two settings that need bridged networking. The
wording of a message has no line break, and no line reaches the scanner's limit.\<close>

theorem fix_disables_only_flagged:
  assumes "fix_text say text table host = Some text'"
    and "\<And>m. newline \<notin> set (say m)"
    and "list_all (\<lambda>l. Suc (length l) < max_token)
           (comment_out (parse text) (fixable say (lint (parse text) table host)))"
  shows "settings (parse text')
         = map setting_of (filter (\<lambda>e. \<not> flagged text table host (en_line e)) (in_entries (parse text)))
       \<and> in_problems (parse text') = []
       \<and> fi_key ` {f \<in> set (lint (parse text') table host). fi_comment_out f} \<subseteq> set bridged_keys"
proof -
  let ?fs = "fixable say (lint (parse text) table host)"
  let ?ls = "scan_lines text"
  have t: "text' = rewritten text ?fs"
    using assms(1) by (simp add: fix_text_def Let_def split: if_split_asm)
  have lines: "in_lines (parse text) = ?ls" by (simp add: parse_def ini_lines)
  have "newline \<notin> set l" if "l \<in> set (comment_out (parse text) ?fs)" for l
  proof -
    have "l \<in> set (comment_lines ?fs 1 ?ls)" using that by (simp add: comment_out_def lines)
    then have "l \<in> set ?ls \<or> (\<exists>r \<in> snd ` set ?fs. l = ''# wslkit:'' @ r) \<or> (\<exists>k \<in> set ?ls. l = ''# '' @ k)"
      by (rule comment_lines_in)
    moreover have "newline \<notin> set r" if "r \<in> snd ` set ?fs" for r
      using that assms(2) by (auto simp: fixable_def)
    ultimately show ?thesis using scan_lines_clean by (fastforce simp: newline_def)
  qed
  then have clean: "list_all (\<lambda>l. newline \<notin> set l \<and> Suc (length l) < max_token) (comment_out (parse text) ?fs)"
    using assms(3) by (auto simp: list_all_iff)
  have header: "classify (in_lines (parse text) ! (n - 1)) \<noteq> Section s" if r: "reason_for ?fs n \<noteq> None" for n s
  proof -
    obtain f where "f \<in> set (lint (parse text) table host)" "fi_comment_out f" "fi_line f = n"
      using r reason_for_fixable [of say "text" table host n] by (auto simp: flagged_def list_ex_iff)
    then show ?thesis using flagged_not_header by blast
  qed
  have settings: "settings (parse text')
      = map setting_of (filter (\<lambda>e. \<not> flagged text table host (en_line e)) (in_entries (parse text)))"
  proof -
    have "flagged text table host n = (reason_for ?fs n \<noteq> None)" for n by (simp only: reason_for_fixable)
    then show ?thesis using rewritten_settings [OF header clean] t by simp
  qed
  have "reason_for ?fs (1 + k) \<noteq> None" if k: "k < length ?ls" "classify (?ls ! k) = Bad f" for k f
  proof -
    obtain p where "p \<in> set (in_problems (parse text))" "pp_line p = Suc k"
      using problem_of_line [OF k, of 0] by (auto simp: parse_def parse_problem_list)
    then have "\<exists>f \<in> set (lint_problems (parse text)). fi_line f = Suc k"
      by (force simp: lint_problems_def)
    then show ?thesis
      using lint_flags [of "parse text" "Suc k" table host] reason_for_fixable [of say "text" table host "Suc k"]
      by (auto simp: flagged_def list_ex_iff)
  qed
  then have bad: "Bad f \<notin> set (relevant (in_lines (parse text')))" for f
    using comment_lines_bad [of ?ls ?fs 1 f] rewritten_relevant [OF clean] t lines
    by (simp add: comment_out_def)
  then have problems: "in_problems (parse text') = []"
    using problems_from_none [of 0 "scan_lines text'"] by (simp add: parse_def parse_problem_list ini_lines)
  have "fi_key f \<in> set bridged_keys"
    if f: "f \<in> set (lint (parse text') table host)" "fi_comment_out f" for f
  proof (rule ccontr)
    assume "fi_key f \<notin> set bridged_keys"
    then obtain e' where e': "e' \<in> set (in_entries (parse text'))" "f \<in> set (lint_setting table host e')"
      using lint_disables [OF f] problems by (auto simp: lint_problems_def)
    then have ign: "ignored_here table host (setting_of e')"
      using lint_setting_disables [of table host e'] f(2) by (auto simp: list_ex_iff)
    have "setting_of e' \<in> set (settings (parse text'))" using e' by (simp add: settings_def)
    then obtain e where "e \<in> set (in_entries (parse text))" "\<not> flagged text table host (en_line e)"
      "setting_of e' = setting_of e"
      unfolding settings by auto
    then show False
      using lint_flags [of "parse text" "en_line e" table host] ign by (auto simp: flagged_def list_ex_iff)
  qed
  with settings problems show ?thesis by auto
qed

definition sample_host :: lint_host where
  "sample_host = \<lparr>lh_build = 19045, lh_runtime = Version 2 7 13 0, lh_ram = 0, lh_path_exists = None\<rparr>"

definition sample_table :: "config_key list" where
  "sample_table =
     [\<lparr>ck_section = ''wsl2'', ck_key = ''memory'', ck_type = ''size'', ck_documented = True,
       ck_min_build = 0, ck_min_wsl = [], ck_alias_of = []\<rparr>]"

definition sample_text :: string where
  "sample_text = ''[wsl2]'' @ [newline] @ ''memory=4GB'' @ [newline] @ ''cpus=2'' @ [newline] @ ''oops'' @ [newline]"

lemma fix_disables_only_flagged_witness:
  "settings (parse (the (fix_text (\<lambda>m. ''why'') sample_text sample_table sample_host)))
     = [(''wsl2'', ''memory'', ''4GB'')]"
proof -
  have some: "fix_text (\<lambda>m. ''why'') sample_text sample_table sample_host
      = Some (the (fix_text (\<lambda>m. ''why'') sample_text sample_table sample_host))"
    by code_simp
  have "list_all (\<lambda>l. Suc (length l) < 100)
      (comment_out (parse sample_text) (fixable (\<lambda>m. ''why'') (lint (parse sample_text) sample_table sample_host)))"
    by code_simp
  then have short: "list_all (\<lambda>l. Suc (length l) < max_token)
      (comment_out (parse sample_text) (fixable (\<lambda>m. ''why'') (lint (parse sample_text) sample_table sample_host)))"
    by (auto simp: list_all_iff max_token_def)
  have "map setting_of (filter (\<lambda>e. \<not> flagged sample_text sample_table sample_host (en_line e))
      (in_entries (parse sample_text))) = [(''wsl2'', ''memory'', ''4GB'')]"
    by code_simp
  then show ?thesis
    using fix_disables_only_flagged [OF some _ short] by (simp add: newline_def)
qed

end
