(* ===== verification/WslConf.thy ===== *)
theory WslConf
  imports WslLint "HOL-Library.List_Lexorder"
begin

text \<open>
  \<open>internal/probe/wsl/wslconf.go\<close>: what is wrong with a distribution's \<open>/etc/wsl.conf\<close>, and the
  edit distance it uses to guess what a misspelt key was meant to be. Each finding is a value; the
  sentences are left out. The environment is read for the runtime's version and the text of
  \<open>.wslconfig\<close> only, so those two are arguments.
\<close>

section \<open>Edit distance\<close>

definition min3 :: "nat \<Rightarrow> nat \<Rightarrow> nat \<Rightarrow> nat" where
  "min3 a b c = (let a1 = (if b < a then b else a) in if c < a1 then c else a1)"

text \<open>
  One row of the table from the one above it: \<open>prev\<close> holds \<open>prev[j - 1]\<close> and what follows, \<open>left\<close>
  is \<open>cur[j - 1]\<close>.
\<close>

fun row_cells :: "char \<Rightarrow> string \<Rightarrow> nat list \<Rightarrow> nat \<Rightarrow> nat list" where
  "row_cells a (b # bs) (diag # up # prev) left =
     (let cost = (if a = b then 0 else 1); v = min3 (left + 1) (up + 1) (diag + cost)
      in v # row_cells a bs (up # prev) v)"
| "row_cells a _ _ left = []"

fun rows :: "string \<Rightarrow> nat \<Rightarrow> string \<Rightarrow> nat list \<Rightarrow> nat list" where
  "rows b i [] prev = prev"
| "rows b i (c # cs) prev = rows b (Suc i) cs (Suc i # row_cells c b prev (Suc i))"

definition edit_distance :: "string \<Rightarrow> string \<Rightarrow> nat" where
  "edit_distance a b = (if a = b then 0 else last (rows b 0 a [0..<Suc (length b)]))"

text \<open>The textbook definition.\<close>

fun lev :: "'a list \<Rightarrow> 'a list \<Rightarrow> nat" where
  "lev [] ys = length ys"
| "lev xs [] = length xs"
| "lev (x # xs) (y # ys) =
     min3 (lev xs (y # ys) + 1) (lev (x # xs) ys + 1) (lev xs ys + (if x = y then 0 else 1))"

text \<open>And what it counts: the edits of a script that turns one into the other.\<close>

inductive script :: "nat \<Rightarrow> 'a list \<Rightarrow> 'a list \<Rightarrow> bool" where
  stop: "script 0 [] []"
| keep: "script n a b \<Longrightarrow> script n (x # a) (x # b)"
| insertion: "script n a b \<Longrightarrow> script (Suc n) a (y # b)"
| deletion: "script n a b \<Longrightarrow> script (Suc n) (x # a) b"
| replacement: "script n a b \<Longrightarrow> script (Suc n) (x # a) (y # b)"

lemma min3_min: "min3 a b c = min a (min b c)"
  by (auto simp: min3_def Let_def)

lemma lev_Nil2 [simp]: "lev xs [] = length xs"
  by (cases xs) auto

lemma lev_step: "lev (x # xs) ys \<le> Suc (lev xs ys)" "lev xs (y # ys) \<le> Suc (lev xs ys)"
proof -
  show "lev (x # xs) ys \<le> Suc (lev xs ys)" by (cases ys) (auto simp: min3_min)
  show "lev xs (y # ys) \<le> Suc (lev xs ys)" by (cases xs) (auto simp: min3_min)
qed

lemma script_lev: "script n a b \<Longrightarrow> lev a b \<le> n"
proof (induction rule: script.induct)
  case (insertion n a b y)
  then show ?case using lev_step(2) [of a y b] by linarith
next
  case (deletion n a b x)
  then show ?case using lev_step(1) [of x a b] by linarith
qed (auto simp: min3_min)

lemma lev_script: "script (lev a b) a b"
proof (induction a b rule: lev.induct)
  case (1 ys)
  show ?case by (induction ys) (auto intro: script.intros)
next
  case (2 x xs)
  have "script (length zs) zs []" for zs :: "'a list" by (induction zs) (auto intro: script.intros)
  from this [of "x # xs"] show ?case by simp
next
  case (3 x xs y ys)
  have "script (Suc (lev xs (y # ys))) (x # xs) (y # ys)" "script (Suc (lev (x # xs) ys)) (x # xs) (y # ys)"
    "script (lev xs ys + (if x = y then 0 else 1)) (x # xs) (y # ys)"
    using 3 by (auto intro: script.intros)
  then show ?case by (auto simp: min3_min min_def)
qed

lemma script_append: "script n a b \<Longrightarrow> script m c d \<Longrightarrow> script (n + m) (a @ c) (b @ d)"
  by (induction rule: script.induct) (auto intro: script.intros)

lemma script_rev: "script n a b \<Longrightarrow> script n (rev a) (rev b)"
proof (induction rule: script.induct)
  case (keep n a b x)
  then show ?case using script_append [of n _ _ 0 "[x]" "[x]"] by (auto intro: script.intros)
next
  case (insertion n a b y)
  then show ?case using script_append [of n _ _ 1 "[]" "[y]"] by (auto intro: script.intros)
next
  case (deletion n a b x)
  then show ?case using script_append [of n _ _ 1 "[x]" "[]"] by (auto intro: script.intros)
next
  case (replacement n a b x y)
  then show ?case using script_append [of n _ _ 1 "[x]" "[y]"] by (auto intro: script.intros)
qed (auto intro: script.intros)

lemma lev_rev: "lev (rev a) (rev b) = lev a b"
  using script_lev [OF script_rev [OF lev_script [of a b]]]
    script_lev [OF script_rev [OF lev_script [of "rev a" "rev b"]]]
  by simp

lemma lev_refl [simp]: "lev a a = 0"
  by (induction a) (auto simp: min3_min)

text \<open>The rows of the table are the distances of the prefixes, held reversed.\<close>

fun prefix_distances :: "string \<Rightarrow> string \<Rightarrow> string \<Rightarrow> nat list" where
  "prefix_distances ra rp [] = [lev ra rp]"
| "prefix_distances ra rp (y # bs) = lev ra rp # prefix_distances ra (y # rp) bs"

lemma prefix_distances_hd: "\<exists>ds. prefix_distances ra rp bs = lev ra rp # ds"
  by (cases bs) auto

lemma row_cells_distances:
  "row_cells c bs (prefix_distances ra rp bs) (lev (c # ra) rp) = tl (prefix_distances (c # ra) rp bs)"
proof (induction bs arbitrary: rp)
  case (Cons y bs)
  obtain ds where ds: "prefix_distances ra (y # rp) bs = lev ra (y # rp) # ds"
    using prefix_distances_hd by blast
  obtain es where es: "prefix_distances (c # ra) (y # rp) bs = lev (c # ra) (y # rp) # es"
    using prefix_distances_hd by blast
  have "min3 (lev (c # ra) rp + 1) (lev ra (y # rp) + 1) (lev ra rp + (if c = y then 0 else 1))
      = lev (c # ra) (y # rp)"
    by (auto simp: min3_min)
  then show ?case using Cons.IH [of "y # rp"] ds es by (simp add: Let_def del: lev.simps)
qed simp

lemma rows_distances:
  "length ra = i \<Longrightarrow> rows b i cs (prefix_distances ra [] b) = prefix_distances (rev cs @ ra) [] b"
proof (induction cs arbitrary: i ra)
  case (Cons c cs)
  obtain ds where "prefix_distances (c # ra) [] b = lev (c # ra) [] # ds"
    using prefix_distances_hd by blast
  then have "Suc i # row_cells c b (prefix_distances ra [] b) (Suc i) = prefix_distances (c # ra) [] b"
    using row_cells_distances [of c b ra "[]"] Cons.prems by simp
  then show ?case using Cons.IH [of "c # ra" "Suc i"] Cons.prems by simp
qed simp

lemma first_row: "prefix_distances [] rp bs = [length rp..<Suc (length rp + length bs)]"
  by (induction bs arbitrary: rp) (auto simp: upt_conv_Cons simp del: upt_Suc)

lemma last_distance: "last (prefix_distances ra rp bs) = lev ra (rev bs @ rp)"
proof (induction bs arbitrary: rp)
  case (Cons y bs)
  have "prefix_distances ra (y # rp) bs \<noteq> []" by (cases bs) auto
  with Cons show ?case by simp
qed simp

lemma edit_distance_lev: "edit_distance a b = lev a b"
proof -
  have "rows b 0 a [0..<Suc (length b)] = prefix_distances (rev a) [] b"
    using rows_distances [of "[]" 0 b a] first_row [of "[]" b] by simp
  then have "last (rows b 0 a [0..<Suc (length b)]) = lev a b"
    using last_distance [of "rev a" "[]" b] lev_rev by simp
  then show ?thesis by (simp add: edit_distance_def)
qed

text \<open>C34: The edit distance behind "did you mean" is the true one. What the two rows of the table
compute for any two strings is the smallest number of insertions, deletions and replacements that
turn one into the other: a script of that many edits exists, and no script is shorter.\<close>

theorem edit_distance_is_least:
  "script (edit_distance a b) a b \<and> {n. script n a b} \<subseteq> {edit_distance a b..}"
  using lev_script script_lev by (auto simp: edit_distance_lev)

section \<open>The key table of wsl.conf\<close>

record conf_key =
  fk_section :: string
  fk_key :: string
  fk_type :: string
  fk_default :: string
  fk_min_wsl :: string
  fk_note :: string

definition lookup_conf :: "conf_key list \<Rightarrow> string \<Rightarrow> string \<Rightarrow> conf_key option" where
  "lookup_conf ks sec key = find (\<lambda>k. equal_fold (fk_section k) sec \<and> equal_fold (fk_key k) key) ks"

definition known_section :: "conf_key list \<Rightarrow> string \<Rightarrow> bool" where
  "known_section ks sec = list_ex (\<lambda>k. equal_fold (fk_section k) sec) ks"

definition conf_sections :: "conf_key list \<Rightarrow> string list" where
  "conf_sections ks = sort (remdups (map fk_section ks))"

definition keys_in :: "conf_key list \<Rightarrow> string \<Rightarrow> string list" where
  "keys_in ks sec = sort (map fk_key (filter (\<lambda>k. equal_fold (fk_section k) sec) ks))"

datatype key_hint = DidYouMean string string | SectionTakes string "string list" | NoHint

text \<open>The loop of \<open>nearestHint\<close>: the first of the nearest keys, and how far it is.\<close>

fun nearest :: "string \<Rightarrow> string \<Rightarrow> conf_key list \<Rightarrow> string \<times> nat \<Rightarrow> string \<times> nat" where
  "nearest sec key [] best = best"
| "nearest sec key (k # ks) (best, dist) =
     (if \<not> equal_fold (fk_section k) sec then nearest sec key ks (best, dist)
      else (let d = edit_distance (to_lower (fk_key k)) key
            in if d < dist then nearest sec key ks (fk_key k, d) else nearest sec key ks (best, dist)))"

definition far :: nat where "far = 1073741824"

definition nearest_hint :: "conf_key list \<Rightarrow> string \<Rightarrow> string \<Rightarrow> key_hint" where
  "nearest_hint ks sec key =
     (case nearest sec key ks ([], far) of (best, dist) \<Rightarrow>
        if best \<noteq> [] \<and> dist \<le> 3 then DidYouMean sec best
        else if keys_in ks sec \<noteq> [] then SectionTakes sec (keys_in ks sec)
        else NoHint)"

section \<open>The checks\<close>

datatype conf_issue =
  SkippedLine nat parse_fault version | StopsReading nat parse_fault nat
  | SetTwice string nat nat | NoSuchSection string nat "string list" | NoSuchSetting string nat key_hint
  | RuntimeTooOld string nat version string | ConfNotBool string nat string string
  | ConfNotOneOf string nat "string list" | ConfNotNumber string nat | ConfEmptyPath string nat
  | ConfRelativePath string nat | ConfNote string nat string
  | CgroupStopsStart nat version | CgroupIgnored nat version

definition is_note :: "conf_issue \<Rightarrow> bool" where
  "is_note i = (case i of ConfNote _ _ _ \<Rightarrow> True | _ \<Rightarrow> False)"

definition trim_any_quotes :: "string \<Rightarrow> string" where
  "trim_any_quotes s =
     (let q = (\<lambda>c. c = CHR 0x22 \<or> c = CHR 0x27) in trim_right q (trim_left q s))"

definition too_old :: "version option \<Rightarrow> string \<Rightarrow> version option" where
  "too_old runtime need =
     (case runtime of
        None \<Rightarrow> None
      | Some have \<Rightarrow>
          (case parse_version need of
             None \<Rightarrow> None
           | Some n \<Rightarrow> if version_less have n then Some have else None))"

definition check_value :: "version option \<Rightarrow> entry \<Rightarrow> conf_key \<Rightarrow> conf_issue option" where
  "check_value runtime e k =
     (let i = to_lower (fk_section k) @ ''.'' @ to_lower (fk_key k);
          v = trim_space (en_value e); u = trim_any_quotes v; n = en_line e; ty = fk_type k;
          rest = (if fk_note k \<noteq> [] then Some (ConfNote i n (fk_note k)) else None)
      in case (if fk_min_wsl k \<noteq> [] then too_old runtime (fk_min_wsl k) else None) of
           Some have \<Rightarrow> Some (RuntimeTooOld i n have (fk_min_wsl k))
         | None \<Rightarrow>
             (if ty = ''bool'' then
                (if to_lower u \<in> {''true'', ''false'', ''1'', ''0''} then rest
                 else Some (ConfNotBool i n v (fk_default k)))
              else if has_prefix ty ''enum:'' then
                (if list_ex (\<lambda>a. equal_fold a u) (enum_values ty) then rest
                 else Some (ConfNotOneOf i n (enum_values ty)))
              else if ty = ''int'' then
                (if u = [] \<or> \<not> list_all is_digit u then Some (ConfNotNumber i n) else rest)
              else if ty = ''path'' then
                (if u = [] then Some (ConfEmptyPath i n)
                 else if \<not> has_prefix u ''/'' then Some (ConfRelativePath i n)
                 else rest)
              else rest))"

definition isolation_from :: version where "isolation_from = Version 2 9 8 0"
definition v1_override_from :: version where "v1_override_from = Version 2 9 13 0"
definition skips_bad_lines_from :: version where "skips_bad_lines_from = Version 2 9 13 0"

definition cgroup_v1_conflict :: "version option \<Rightarrow> string option \<Rightarrow> nat \<Rightarrow> conf_issue option" where
  "cgroup_v1_conflict runtime wslconfig n =
     (case runtime of
        None \<Rightarrow> None
      | Some have \<Rightarrow>
          if version_less have isolation_from then None
          else if (case wslconfig of
                     Some text \<Rightarrow>
                       (case get (parse text) ''wsl2'' ''isolateDistroCgroup'' of
                          Some v \<Rightarrow> parse_bool v = Some False
                        | None \<Rightarrow> False)
                   | None \<Rightarrow> False) then None
          else if version_less have v1_override_from then Some (CgroupStopsStart n have)
          else Some (CgroupIgnored n have))"

definition skips_bad_lines :: "version option \<Rightarrow> bool" where
  "skips_bad_lines runtime =
     (case runtime of Some have \<Rightarrow> \<not> version_less have skips_bad_lines_from | None \<Rightarrow> False)"

definition settings_after :: "ini \<Rightarrow> nat \<Rightarrow> nat" where
  "settings_after cfg n = length (filter (\<lambda>e. en_line e > n) (in_entries cfg))"

definition conf_problems :: "version option \<Rightarrow> ini \<Rightarrow> conf_issue list" where
  "conf_problems runtime cfg =
     (if skips_bad_lines runtime
      then map (\<lambda>p. SkippedLine (pp_line p) (pp_fault p) (the runtime)) (in_problems cfg)
      else (case in_problems cfg of
              [] \<Rightarrow> []
            | p # _ \<Rightarrow> [StopsReading (pp_line p) (pp_fault p) (settings_after cfg (pp_line p))]))"

definition lint_conf_known ::
  "version option \<Rightarrow> string option \<Rightarrow> entry \<Rightarrow> string \<Rightarrow> conf_key \<Rightarrow> conf_issue list" where
  "lint_conf_known runtime wslconfig e i k =
     (case check_value runtime e k of Some x \<Rightarrow> [x] | None \<Rightarrow> [])
     @ (if i = ''automount.cgroups'' \<and> equal_fold (trim_any_quotes (trim_space (en_value e))) ''v1''
        then (case cgroup_v1_conflict runtime wslconfig (en_line e) of Some x \<Rightarrow> [x] | None \<Rightarrow> [])
        else [])"

fun lint_conf_entries ::
  "conf_key list \<Rightarrow> version option \<Rightarrow> string option \<Rightarrow> (string \<rightharpoonup> nat) \<Rightarrow> entry list \<Rightarrow> conf_issue list" where
  "lint_conf_entries ks runtime wslconfig seen [] = []"
| "lint_conf_entries ks runtime wslconfig seen (e # es) =
     (let sec = to_lower (en_section e); key = to_lower (en_key e); i = sec @ ''.'' @ key
      in case seen i of
           Some first \<Rightarrow> SetTwice i (en_line e) first # lint_conf_entries ks runtime wslconfig seen es
         | None \<Rightarrow>
             (case lookup_conf ks sec key of
                None \<Rightarrow>
                  (if \<not> known_section ks sec then NoSuchSection sec (en_line e) (conf_sections ks)
                   else NoSuchSetting i (en_line e) (nearest_hint ks sec key))
                  # lint_conf_entries ks runtime wslconfig (seen(i \<mapsto> en_line e)) es
              | Some k \<Rightarrow>
                  lint_conf_known runtime wslconfig e i k
                  @ lint_conf_entries ks runtime wslconfig (seen(i \<mapsto> en_line e)) es))"

definition lint_conf :: "conf_key list \<Rightarrow> version option \<Rightarrow> string option \<Rightarrow> string \<Rightarrow> conf_issue list" where
  "lint_conf ks runtime wslconfig text =
     (let cfg = parse text
      in conf_problems runtime cfg @ lint_conf_entries ks runtime wslconfig Map.empty (in_entries cfg))"

section \<open>The hint\<close>

lemma nearest_least:
  "nearest sec key ks (best, dist) = (b, d) \<Longrightarrow>
     d \<le> dist
     \<and> (\<forall>k \<in> set ks. equal_fold (fk_section k) sec \<longrightarrow> d \<le> edit_distance (to_lower (fk_key k)) key)
     \<and> ((b, d) = (best, dist)
        \<or> (\<exists>k \<in> set ks. equal_fold (fk_section k) sec \<and> b = fk_key k \<and> d = edit_distance (to_lower (fk_key k)) key))"
proof (induction ks arbitrary: best dist)
  case (Cons k ks)
  show ?case
  proof (cases "equal_fold (fk_section k) sec \<and> edit_distance (to_lower (fk_key k)) key < dist")
    case True
    then show ?thesis using Cons.prems Cons.IH [of "fk_key k" "edit_distance (to_lower (fk_key k)) key"]
      by (auto simp: Let_def)
  next
    case False
    then show ?thesis using Cons.prems Cons.IH [of best dist] by (auto simp: Let_def split: if_splits)
  qed
qed simp

text \<open>What is suggested is a key of that section at most three edits away, and none is nearer.\<close>

lemma hint_is_nearest:
  assumes "nearest_hint ks sec key = DidYouMean s best"
  shows "s = sec \<and> (\<exists>k \<in> set ks. equal_fold (fk_section k) sec \<and> fk_key k = best
           \<and> edit_distance (to_lower best) key \<le> 3
           \<and> (\<forall>k' \<in> set ks. equal_fold (fk_section k') sec \<longrightarrow>
                edit_distance (to_lower best) key \<le> edit_distance (to_lower (fk_key k')) key))"
proof -
  obtain b d where n: "nearest sec key ks ([], far) = (b, d)" by (metis prod.exhaust)
  then have "b = best" "b \<noteq> []" "d \<le> 3" "s = sec"
    using assms by (auto simp: nearest_hint_def split: if_splits)
  then show ?thesis using nearest_least [OF n] by auto
qed

text \<open>A runtime too old to skip a bad line reads nothing after the first one; what that costs is counted.\<close>

lemma conf_problems_none: "conf_problems runtime cfg = [] \<longleftrightarrow> in_problems cfg = []"
  by (auto simp: conf_problems_def split: list.splits)

end
