(* ===== verification/Probe.thy ===== *)
theory Probe
  imports GoText Complex_Main "HOL-Library.Multiset" "HOL-Library.List_Lexorder" "HOL-Library.Product_Lexorder"
begin

text \<open>
  \<open>internal/probe/probe.go\<close> and \<open>probe/all/all.go\<close>: running the checks of \<open>wslkit doctor\<close> in
  order, skipping those whose dependency failed, turning a panic into a result, and ranking. A
  probe's \<open>Run\<close> is a function of the collected environment that may panic; a confidence is the
  rational the \<open>float64\<close> stands for.
\<close>

datatype status = StOK | StWarn | StFail | StUnknown | StSkipped

fun weight :: "status \<Rightarrow> nat" where
  "weight StFail = 0"
| "weight StWarn = 1"
| "weight StUnknown = 2"
| "weight StSkipped = 3"
| "weight StOK = 4"

record result =
  rs_id :: string
  rs_title :: string
  rs_status :: status
  rs_summary :: string
  rs_detail :: string
  rs_confidence :: rat
  rs_fix_id :: string
  rs_fix_hint :: string
  rs_refs :: "string list"
  rs_elevate :: bool

text \<open>A literal that leaves out what to do about it.\<close>

definition plain_result :: "string \<Rightarrow> string \<Rightarrow> status \<Rightarrow> rat \<Rightarrow> string \<Rightarrow> result" where
  "plain_result i title st confidence summary =
     \<lparr>rs_id = i, rs_title = title, rs_status = st, rs_summary = summary, rs_detail = [],
      rs_confidence = confidence, rs_fix_id = [], rs_fix_hint = [], rs_refs = [], rs_elevate = False\<rparr>"

lemma plain_result_simps [simp]:
  "rs_id (plain_result i t st c s) = i" "rs_title (plain_result i t st c s) = t"
  "rs_status (plain_result i t st c s) = st" "rs_confidence (plain_result i t st c s) = c"
  by (simp_all add: plain_result_def)

record 'e probe =
  pb_id :: string
  pb_title :: string
  pb_milestone :: string
  pb_needs :: "string list"
  pb_run :: "'e \<Rightarrow> string + result"

definition failed_dependency :: "'e probe \<Rightarrow> (string \<rightharpoonup> result) \<Rightarrow> string option" where
  "failed_dependency p by_id =
     find (\<lambda>dep. case by_id dep of Some r \<Rightarrow> rs_status r = StFail | None \<Rightarrow> False) (pb_needs p)"

definition safe_run :: "'e probe \<Rightarrow> 'e \<Rightarrow> result" where
  "safe_run p e =
     (case pb_run p e of
        Inr r \<Rightarrow> r
      | Inl panic \<Rightarrow>
          (plain_result (pb_id p) (pb_title p) StUnknown 0
             ''probe panicked; please report this with --json output'')\<lparr>rs_detail := panic\<rparr>)"

definition skipped_result :: "'e probe \<Rightarrow> string \<Rightarrow> result" where
  "skipped_result p dep =
     plain_result (pb_id p) (pb_title p) StSkipped 0 (''skipped: depends on '' @ dep @ '', which failed'')"

definition named_result :: "'e probe \<Rightarrow> result \<Rightarrow> result" where
  "named_result p r =
     (let r1 = (if rs_id r = [] then r\<lparr>rs_id := pb_id p\<rparr> else r)
      in if rs_title r1 = [] then r1\<lparr>rs_title := pb_title p\<rparr> else r1)"

definition probe_result :: "'e \<Rightarrow> (string \<rightharpoonup> result) \<Rightarrow> 'e probe \<Rightarrow> result" where
  "probe_result e by_id p =
     named_result p (case failed_dependency p by_id of
        Some dep \<Rightarrow> skipped_result p dep
      | None \<Rightarrow> safe_run p e)"

fun run_from :: "'e \<Rightarrow> (string \<rightharpoonup> result) \<Rightarrow> 'e probe list \<Rightarrow> result list" where
  "run_from e by_id [] = []"
| "run_from e by_id (p # ps) =
     (let r = probe_result e by_id p in r # run_from e (by_id(pb_id p \<mapsto> r)) ps)"

text \<open>\<open>Rank\<close>: a stable sort by weight, then falling confidence, then id.\<close>

definition rank_key :: "result \<Rightarrow> nat \<times> rat \<times> string" where
  "rank_key r = (weight (rs_status r), - rs_confidence r, rs_id r)"

definition rank_results :: "result list \<Rightarrow> result list" where
  "rank_results rs = sort_key rank_key rs"

definition run_all :: "'e probe list \<Rightarrow> 'e \<Rightarrow> result list" where
  "run_all ps e = rank_results (run_from e Map.empty ps)"

definition exit_code :: "result list \<Rightarrow> nat" where
  "exit_code rs = (if list_ex (\<lambda>r. rs_status r = StFail) rs then 1 else 0)"

definition filter_milestones :: "string set \<Rightarrow> 'e probe list \<Rightarrow> 'e probe list" where
  "filter_milestones ms ps = (if ms = {} then ps else filter (\<lambda>p. pb_milestone p \<in> ms) ps)"

section \<open>Selecting probes by id\<close>

text \<open>
  \<open>ByID\<close>: the recursive \<open>visit\<close> with its set of wanted ids. A list to visit stands for the
  recursion. It ends: whatever pushes something wants a new id of the table.
\<close>

definition find_probe :: "'e probe list \<Rightarrow> string \<Rightarrow> 'e probe option" where
  "find_probe ps i = find (\<lambda>p. pb_id p = i) (rev ps)"

lemma find_probe_Some: "find_probe ps i = Some p \<Longrightarrow> p \<in> set ps \<and> pb_id p = i"
proof -
  have "find P xs = Some x \<Longrightarrow> x \<in> set xs \<and> P x" for P and xs :: "'e probe list" and x
    by (induction xs) (auto split: if_splits)
  then show "find_probe ps i = Some p \<Longrightarrow> ?thesis" by (fastforce simp: find_probe_def)
qed

function visit :: "'e probe list \<Rightarrow> string set \<Rightarrow> string list \<Rightarrow> string set" where
  "visit ps want [] = want"
| "visit ps want (i # is) =
     (if i \<in> want then visit ps want is
      else (case find_probe ps i of
              None \<Rightarrow> visit ps want is
            | Some p \<Rightarrow> visit ps (insert i want) (pb_needs p @ is)))"
  by pat_completeness auto
termination
proof (relation "inv_image (less_than <*lex*> less_than) (\<lambda>(ps, want, is). (card (pb_id ` set ps - want), length is))")
  fix ps :: "'e probe list" and want :: "string set" and i :: string and "is" :: "string list" and p
  assume w: "i \<notin> want" and p: "find_probe ps i = Some p"
  then have "card (pb_id ` set ps - insert i want) < card (pb_id ` set ps - want)"
    using find_probe_Some [OF p] by (intro psubset_card_mono) auto
  then show "((ps, insert i want, pb_needs p @ is), ps, want, i # is)
      \<in> inv_image (less_than <*lex*> less_than) (\<lambda>(ps, want, is). (card (pb_id ` set ps - want), length is))"
    by simp
qed auto

definition by_id :: "'e probe list \<Rightarrow> string list \<Rightarrow> 'e probe list" where
  "by_id ps ids = (let want = visit ps {} ids in filter (\<lambda>p. pb_id p \<in> want) ps)"

section \<open>Facts\<close>

lemma visit_grows: "want \<subseteq> visit ps want is"
proof (induction ps want "is" rule: visit.induct)
  case (2 ps want i "is")
  then show ?case by (cases "find_probe ps i") auto
qed simp

lemma visit_asked: "i \<in> set is \<Longrightarrow> find_probe ps i \<noteq> None \<Longrightarrow> i \<in> visit ps want is"
proof (induction ps want "is" rule: visit.induct)
  case (2 ps want j "is")
  show ?case
  proof (cases "j \<in> want")
    case True
    then show ?thesis using 2 visit_grows [of want ps "is"] by auto
  next
    case False
    show ?thesis
    proof (cases "find_probe ps j")
      case None
      then show ?thesis using 2 False by auto
    next
      case (Some p)
      then show ?thesis
        using 2 False visit_grows [of "insert j want" ps "pb_needs p @ is"] by auto
    qed
  qed
qed simp

lemma visit_closed:
  "find_probe ps i = Some p \<Longrightarrow> i \<in> visit ps want is \<Longrightarrow> i \<notin> want \<Longrightarrow> d \<in> set (pb_needs p) \<Longrightarrow>
     find_probe ps d \<noteq> None \<Longrightarrow> d \<in> visit ps want is"
proof (induction ps want "is" rule: visit.induct)
  case (2 ps want j "is")
  show ?case
  proof (cases "j \<in> want")
    case True
    then show ?thesis using 2 by auto
  next
    case False
    show ?thesis
    proof (cases "find_probe ps j")
      case None
      then show ?thesis using 2 False by auto
    next
      case (Some q)
      show ?thesis
      proof (cases "i = j")
        case True
        then have "p = q" using Some "2.prems" by simp
        then show ?thesis
          using False Some visit_asked [of d "pb_needs q @ is" ps "insert j want"] "2.prems" by simp
      next
        case ij: False
        then show ?thesis using 2 False Some by simp
      qed
    qed
  qed
qed simp

lemma find_probe_distinct:
  "distinct (map pb_id ps) \<Longrightarrow> p \<in> set ps \<Longrightarrow> find_probe ps (pb_id p) = Some p"
proof -
  assume d: "distinct (map pb_id ps)" and p: "p \<in> set ps"
  have "find_probe ps (pb_id p) \<noteq> None" using p by (auto simp: find_probe_def find_None_iff)
  then obtain q where q: "find_probe ps (pb_id p) = Some q" by auto
  then have "q = p" using find_probe_Some [OF q] d p by (auto simp: distinct_map inj_on_def)
  with q show ?thesis by simp
qed

lemma length_run_from [simp]: "length (run_from e m ps) = length ps"
  by (induction ps arbitrary: m) (auto simp: Let_def)

text \<open>A run of the probes of a set that is closed under what they need agrees with the whole run.\<close>

lemma run_from_selected:
  assumes "\<And>p d. p \<in> set ps \<Longrightarrow> pb_id p \<in> W \<Longrightarrow> d \<in> set (pb_needs p) \<Longrightarrow> d \<in> W \<or> d \<notin> ids"
    and "\<And>d. d \<in> W \<or> d \<notin> ids \<Longrightarrow> m' d = m d" and "pb_id ` set ps \<subseteq> ids"
  shows "run_from e m' (filter (\<lambda>p. pb_id p \<in> W) ps)
       = map snd (filter (\<lambda>(p, r). pb_id p \<in> W) (zip ps (run_from e m ps)))"
  using assms
proof (induction ps arbitrary: m m')
  case (Cons p ps)
  show ?case
  proof (cases "pb_id p \<in> W")
    case True
    have "find (\<lambda>dep. case m' dep of Some r \<Rightarrow> rs_status r = StFail | None \<Rightarrow> False) (pb_needs p)
        = find (\<lambda>dep. case m dep of Some r \<Rightarrow> rs_status r = StFail | None \<Rightarrow> False) (pb_needs p)"
      using Cons.prems(1) [of p] Cons.prems(2) True by (intro find_cong) auto
    then have r: "probe_result e m' p = probe_result e m p"
      by (simp add: probe_result_def failed_dependency_def)
    have "run_from e (m'(pb_id p \<mapsto> probe_result e m p)) (filter (\<lambda>p. pb_id p \<in> W) ps)
        = map snd (filter (\<lambda>(p, r). pb_id p \<in> W)
            (zip ps (run_from e (m(pb_id p \<mapsto> probe_result e m p)) ps)))"
      using Cons.prems by (intro Cons.IH) auto
    with True r show ?thesis by (simp add: Let_def)
  next
    case False
    have "run_from e m' (filter (\<lambda>p. pb_id p \<in> W) ps)
        = map snd (filter (\<lambda>(p, r). pb_id p \<in> W)
            (zip ps (run_from e (m(pb_id p \<mapsto> probe_result e m p)) ps)))"
    proof (rule Cons.IH)
      fix d assume d: "d \<in> W \<or> d \<notin> ids"
      have "pb_id p \<in> ids" using Cons.prems(3) by simp
      then have "d \<noteq> pb_id p" using d False by auto
      then show "m' d = (m(pb_id p \<mapsto> probe_result e m p)) d" using Cons.prems(2) [OF d] by simp
    qed (use Cons.prems in auto)
    with False show ?thesis by (simp add: Let_def)
  qed
qed simp

lemma rank_sorted: "sorted (map rank_key (rank_results rs))"
  by (simp add: rank_results_def)

lemma mset_rank: "mset (rank_results rs) = mset rs"
  by (simp add: rank_results_def)

text \<open>C35: A partial run of the checks says what the full run says. For probes with distinct ids,
the results of the probes that were asked for, and of what they need, are those the whole run gives
them, ranked: fails first, then by weight, confidence and id. Each asked probe is among those run, and so is everything
a probe that is run needs, in the order of the table.\<close>

theorem partial_run_agrees:
  assumes "distinct (map pb_id ps)"
  shows "mset (run_all (by_id ps ids) e)
       = mset (map snd (filter (\<lambda>(p, r). p \<in> set (by_id ps ids)) (zip ps (run_from e Map.empty ps))))
     \<and> sorted (map rank_key (run_all (by_id ps ids) e))
     \<and> subseq (by_id ps ids) ps
     \<and> (set ids \<union> \<Union> (set ` pb_needs ` set (by_id ps ids))) \<inter> pb_id ` set ps \<subseteq> pb_id ` set (by_id ps ids)"
proof -
  let ?W = "visit ps {} ids"
  have ids: "find_probe ps d \<noteq> None \<longleftrightarrow> d \<in> pb_id ` set ps" for d
    by (auto simp: find_probe_def find_None_iff)
  have closed: "d \<in> ?W \<or> d \<notin> pb_id ` set ps"
    if "p \<in> set ps" "pb_id p \<in> ?W" "d \<in> set (pb_needs p)" for p d
    using visit_closed [OF find_probe_distinct [OF assms that(1)] that(2) _ that(3)] ids by blast
  have sel: "by_id ps ids = filter (\<lambda>p. pb_id p \<in> ?W) ps" by (simp add: by_id_def)
  have "filter (\<lambda>(p, r). p \<in> set (by_id ps ids)) (zip ps (run_from e Map.empty ps))
      = filter (\<lambda>(p, r). pb_id p \<in> ?W) (zip ps (run_from e Map.empty ps))"
    by (rule filter_cong) (auto simp: sel dest: set_zip_leftD)
  moreover have "run_from e Map.empty (by_id ps ids)
      = map snd (filter (\<lambda>(p, r). pb_id p \<in> ?W) (zip ps (run_from e Map.empty ps)))"
    unfolding sel by (rule run_from_selected [OF closed]) auto
  moreover have "pb_id ` set (by_id ps ids) = ?W \<inter> pb_id ` set ps" by (auto simp: sel)
  moreover have "set ids \<inter> pb_id ` set ps \<subseteq> ?W" using visit_asked ids by blast
  moreover have "\<Union> (set ` pb_needs ` set (by_id ps ids)) \<inter> pb_id ` set ps \<subseteq> ?W"
    using closed by (auto simp: sel)
  ultimately show ?thesis
    by (auto simp: run_all_def mset_rank rank_sorted sel subseq_filter_left)
qed

definition sample_probes :: "unit probe list" where
  "sample_probes =
     (let mk = (\<lambda>i needs st. \<lparr>pb_id = i, pb_title = i, pb_milestone = ''M1'', pb_needs = needs,
        pb_run = (\<lambda>e. Inr (plain_result i i st 0 []))\<rparr>)
      in [mk ''A'' [] StFail, mk ''B'' [''A''] StOK, mk ''C'' [] StWarn])"

lemma partial_run_agrees_witness:
  "mset (run_all (by_id sample_probes [''B'']) ())
     = mset (map snd (filter (\<lambda>(p, r). p \<in> set (by_id sample_probes [''B'']))
         (zip sample_probes (run_from () Map.empty sample_probes))))"
  by (intro conjunct1 [OF partial_run_agrees]) (simp add: sample_probes_def Let_def)

text \<open>A panic is a result, a failed dependency is one too, and only a failure decides the exit code.\<close>

lemma panic_is_unknown:
  "failed_dependency p m = None \<Longrightarrow> pb_run p e = Inl msg \<Longrightarrow> rs_status (probe_result e m p) = StUnknown"
  by (simp add: probe_result_def safe_run_def named_result_def Let_def)

lemma failed_dependency_skips:
  "failed_dependency p m = Some d \<Longrightarrow> rs_status (probe_result e m p) = StSkipped"
  by (simp add: probe_result_def skipped_result_def named_result_def Let_def)

lemma exit_code_rank: "exit_code (rank_results rs) = exit_code rs"
proof -
  have "set (rank_results rs) = set rs" using mset_rank [of rs] by (metis set_mset_mset)
  then show ?thesis by (simp add: exit_code_def list_ex_iff)
qed

end
