(* ===== verification/Fix.thy ===== *)
theory Fix
  imports WslLint
begin

text \<open>
  \<open>internal/fix\<close>: a fix is a plan of steps and of steps that roll it back; \<open>fix/exec\<close> runs a step,
  \<open>doctor fix --apply\<close> saves the plan before it runs it and \<open>doctor undo\<close> runs the rollback.
  \<open>fix/actions/wslconfig.go\<close> and \<open>zone.go\<close> make plans. The state is the files of the machine and a
  rest that child processes and WMI work on; a write may fail before it opened the file or after it
  wrote a part of it, as the list of faults says.
\<close>

section \<open>Steps and their execution\<close>

record fix_step =
  fs_kind :: string
  fs_args :: "string list"
  fs_description :: string

record fix_plan =
  fp_id :: string
  fp_elevates :: bool
  fp_steps :: "fix_step list"
  fp_rollback :: "fix_step list"
  fp_warnings :: "string list"

datatype node = Directory | File string
datatype fault = NotOpened | CutAt nat

record 'm fix_machine =
  mc_files :: "string \<Rightarrow> node option"
  mc_faults :: "fault option list"
  mc_rest :: 'm

datatype fix_error =
  NoArgs | WrongArgs string | CannotRead string | CannotWrite string | IsDirectory string
  | ProcessFailed string | UnknownKind string

record 'm executor =
  ex_exec :: "string list \<Rightarrow> 'm fix_machine \<Rightarrow> string option \<times> 'm fix_machine"
  ex_wmi :: "fix_step \<Rightarrow> 'm fix_machine \<Rightarrow> string option \<times> 'm fix_machine"

definition read_text :: "string \<Rightarrow> 'm fix_machine \<Rightarrow> string option" where
  "read_text path w = (case mc_files w path of Some (File t) \<Rightarrow> Some t | _ \<Rightarrow> None)"

definition write_text :: "string \<Rightarrow> string \<Rightarrow> 'm fix_machine \<Rightarrow> fix_error option \<times> 'm fix_machine" where
  "write_text path t w =
     (let w1 = w\<lparr>mc_faults := tl (mc_faults w)\<rparr>;
          fault = (case mc_faults w of [] \<Rightarrow> None | f # _ \<Rightarrow> f)
      in if mc_files w path = Some Directory then (Some (CannotWrite path), w1)
         else (case fault of
                 None \<Rightarrow> (None, w1\<lparr>mc_files := (mc_files w)(path \<mapsto> File t)\<rparr>)
               | Some NotOpened \<Rightarrow> (Some (CannotWrite path), w1)
               | Some (CutAt k) \<Rightarrow>
                   (Some (CannotWrite path), w1\<lparr>mc_files := (mc_files w)(path \<mapsto> File (take k t))\<rparr>)))"

definition child :: "string option \<times> 'm fix_machine \<Rightarrow> fix_error option \<times> 'm fix_machine" where
  "child r = (map_option ProcessFailed (fst r), snd r)"

definition real_run :: "'m executor \<Rightarrow> fix_step \<Rightarrow> 'm fix_machine \<Rightarrow> fix_error option \<times> 'm fix_machine" where
  "real_run X s w =
     (if fs_kind s = ''exec'' then
        (if fs_args s = [] then (Some NoArgs, w) else child (ex_exec X (fs_args s) w))
      else if fs_kind s = ''note'' then (None, w)
      else if fs_kind s = ''file_copy'' then
        (case fs_args s of
           [src, dst] \<Rightarrow>
             (case read_text src w of
                None \<Rightarrow> (Some (CannotRead src), w)
              | Some t \<Rightarrow> write_text dst t w)
         | _ \<Rightarrow> (Some (WrongArgs ''file_copy''), w))
      else if fs_kind s = ''file_write'' then
        (case fs_args s of
           [path, t] \<Rightarrow> write_text path t w
         | _ \<Rightarrow> (Some (WrongArgs ''file_write''), w))
      else if fs_kind s = ''file_delete'' then
        (case fs_args s of
           [path] \<Rightarrow>
             (if mc_files w path = Some Directory then (Some (IsDirectory path), w)
              else (None, w\<lparr>mc_files := (mc_files w)(path := None)\<rparr>))
         | _ \<Rightarrow> (Some (WrongArgs ''file_delete''), w))
      else if fs_kind s = ''wmi_method'' then child (ex_wmi X s w)
      else (Some (UnknownKind (fs_kind s)), w))"

text \<open>\<open>Apply\<close>: the first step that fails ends it; its number from 1 is in the result.\<close>

fun apply_steps ::
  "'m executor \<Rightarrow> nat \<Rightarrow> fix_step list \<Rightarrow> 'm fix_machine \<Rightarrow> (nat \<times> fix_error) option \<times> 'm fix_machine" where
  "apply_steps X i [] w = (None, w)"
| "apply_steps X i (s # ss) w =
     (case real_run X s w of
        (Some e, w1) \<Rightarrow> (Some (i, e), w1)
      | (None, w1) \<Rightarrow> apply_steps X (Suc i) ss w1)"

definition apply_plan :: "'m executor \<Rightarrow> fix_plan \<Rightarrow> 'm fix_machine \<Rightarrow> (nat \<times> fix_error) option \<times> 'm fix_machine" where
  "apply_plan X p w = apply_steps X 1 (fp_steps p) w"

definition undo_plan :: "'m executor \<Rightarrow> fix_plan \<Rightarrow> 'm fix_machine \<Rightarrow> (nat \<times> fix_error) option \<times> 'm fix_machine" where
  "undo_plan X p w =
     (if fp_rollback p = [] then (None, w) else apply_steps X 1 (fp_rollback p) w)"

text \<open>\<open>doctor fix\<close>: the journal first (\<open>saved\<close> is whether that worked), and without it nothing.\<close>

datatype fix_exit = FixOK | FixFindings | FixCollector | FixUsage

definition doctor_fix ::
  "'m executor \<Rightarrow> fix_plan \<Rightarrow> bool \<Rightarrow> bool \<Rightarrow> bool \<Rightarrow> 'm fix_machine \<Rightarrow> fix_exit \<times> 'm fix_machine" where
  "doctor_fix X p elevated do_apply saved w =
     (if fp_elevates p \<and> \<not> elevated then (FixUsage, w)
      else if \<not> do_apply then (FixOK, w)
      else if \<not> saved then (FixCollector, w)
      else (case apply_plan X p w of
              (Some e, w1) \<Rightarrow> (FixFindings, w1)
            | (None, w1) \<Rightarrow> (FixOK, w1)))"

section \<open>The plan of fix wslconfig\<close>

definition mk_step :: "string \<Rightarrow> string list \<Rightarrow> fix_step" where
  "mk_step kind args = \<lparr>fs_kind = kind, fs_args = args, fs_description = []\<rparr>"

definition wslconfig_plan ::
  "(lint_message \<Rightarrow> string) \<Rightarrow> string \<Rightarrow> string \<Rightarrow> string \<Rightarrow> config_key list \<Rightarrow> lint_host \<Rightarrow> fix_plan" where
  "wslconfig_plan say path backup text tab host =
     (let p = \<lparr>fp_id = ''wslconfig'', fp_elevates = False, fp_steps = [], fp_rollback = [], fp_warnings = []\<rparr>
      in case fix_text say text tab host of
           None \<Rightarrow> p\<lparr>fp_steps := [mk_step ''note'' []]\<rparr>
         | Some content \<Rightarrow>
             p\<lparr>fp_steps := [mk_step ''file_copy'' [path, backup], mk_step ''file_write'' [path, content], mk_step ''note'' []],
               fp_rollback := [mk_step ''file_copy'' [backup, path]],
               fp_warnings := map snd (fixable say (lint (parse text) tab host))\<rparr>)"

section \<open>The plan of fix zone\<close>

record zone_scan =
  zs_count :: nat
  zs_paths :: "string list"
  zs_truncated :: bool

record zone_distro =
  zd_name :: string
  zd_version :: nat
  zd_scan :: "zone_scan option"

datatype zone_error = NeedsName | NeedsPath | UnknownOption string | PathNotAbsolute | NoDistros | NoSuchDistro string

fun zone_options :: "string list \<Rightarrow> string \<times> string \<Rightarrow> zone_error + string \<times> string" where
  "zone_options [] acc = Inr acc"
| "zone_options (a # as) (distro, under_path) =
     (if a = ''--distro'' \<or> a = ''-d'' then
        (case as of [] \<Rightarrow> Inl NeedsName | v # as' \<Rightarrow> zone_options as' (v, under_path))
      else if a = ''--path'' then
        (case as of [] \<Rightarrow> Inl NeedsPath | v # as' \<Rightarrow> zone_options as' (distro, v))
      else if has_prefix a ''-'' then Inl (UnknownOption a)
      else zone_options as (distro, under_path))"

definition zone_args :: "string list \<Rightarrow> zone_error + string \<times> string" where
  "zone_args args =
     (case zone_options args ([], []) of
        Inl e \<Rightarrow> Inl e
      | Inr (distro, under_path) \<Rightarrow>
          if under_path \<noteq> [] \<and> \<not> has_prefix under_path ''/'' then Inl PathNotAbsolute else Inr (distro, under_path))"

text \<open>\<open>unc\<close> is \<open>wslpath.UNC\<close> on the text of the names.\<close>

definition zone_distro_steps ::
  "(string \<Rightarrow> string \<Rightarrow> string) \<Rightarrow> string \<Rightarrow> string \<Rightarrow> zone_distro \<Rightarrow> fix_step list" where
  "zone_distro_steps unc want under_path d =
     (if want \<noteq> [] \<and> \<not> equal_fold (zd_name d) want then []
      else if zd_version d \<noteq> 2 then []
      else (case zd_scan d of
              None \<Rightarrow> []
            | Some s \<Rightarrow>
                map (\<lambda>rel. mk_step ''file_delete'' [unc (zd_name d) rel])
                  (filter (\<lambda>rel. \<not> (under_path \<noteq> [] \<and> \<not> has_prefix rel under_path)) (zs_paths s))))"

definition zone_matches :: "string \<Rightarrow> zone_distro \<Rightarrow> bool" where
  "zone_matches want d \<longleftrightarrow> (want = [] \<or> equal_fold (zd_name d) want) \<and> zd_version d = 2"

definition zone_plan ::
  "(string \<Rightarrow> string \<Rightarrow> string) \<Rightarrow> zone_distro list \<Rightarrow> string list \<Rightarrow> zone_error + fix_plan" where
  "zone_plan unc ds args =
     (case zone_args args of
        Inl e \<Rightarrow> Inl e
      | Inr (want, under_path) \<Rightarrow>
          if ds = [] then Inl NoDistros
          else if want \<noteq> [] \<and> \<not> list_ex (zone_matches want) ds then Inl (NoSuchDistro want)
          else (let steps = concat (map (zone_distro_steps unc want under_path) ds);
                    p = \<lparr>fp_id = ''zone'', fp_elevates = False, fp_steps = steps, fp_rollback = [], fp_warnings = []\<rparr>
                in if steps = [] then Inr (p\<lparr>fp_steps := [mk_step ''note'' []]\<rparr>)
                   else Inr (p\<lparr>fp_rollback := [mk_step ''note'' []]\<rparr>)))"

section \<open>Facts\<close>

lemma real_run_step:
  "real_run X (mk_step ''note'' []) w = (None, w)"
  "real_run X (mk_step ''file_write'' [path, t]) w = write_text path t w"
  "real_run X (mk_step ''file_copy'' [src, dst]) w =
     (case read_text src w of None \<Rightarrow> (Some (CannotRead src), w) | Some t \<Rightarrow> write_text dst t w)"
  by (simp_all add: real_run_def mk_step_def)

lemma write_text_other: "write_text path t w = (e, w') \<Longrightarrow> q \<noteq> path \<Longrightarrow> mc_files w' q = mc_files w q"
  by (auto simp: write_text_def Let_def split: if_splits option.splits fault.splits)

lemma write_text_ok: "write_text path t w = (None, w') \<Longrightarrow> mc_files w' path = Some (File t)"
  by (auto simp: write_text_def Let_def split: if_splits option.splits fault.splits)

text \<open>C31: \<open>fix wslconfig\<close> can be undone. Whatever the file holds when the plan runs, once the backup
has been written every outcome of the plan, a write cut short included, is taken back by \<open>undo\<close>:
when its copy succeeds the file holds what it held before.\<close>

theorem undo_restores_config:
  assumes "mc_files w path = Some (File t)" and "path \<noteq> backup"
    and "fix_text say text tab host = Some content"
    and "apply_plan X (wslconfig_plan say path backup text tab host) w = (outcome, w1)"
    and "fst (write_text backup t w) = None"
    and "undo_plan X (wslconfig_plan say path backup text tab host) w1 = (None, w2)"
  shows "mc_files w2 path = Some (File t)"
proof -
  obtain wa where wa: "write_text backup t w = (None, wa)" using assms(5) by (cases "write_text backup t w") auto
  then have b: "mc_files wa backup = Some (File t)" by (rule write_text_ok)
  obtain e wb where wb: "write_text path content wa = (e, wb)" by (metis prod.exhaust)
  have "mc_files wb backup = Some (File t)" using write_text_other [OF wb] b assms(2) by auto
  moreover have "w1 = wb"
    using assms(1,3,4) wa wb
    by (cases e) (auto simp: apply_plan_def wslconfig_plan_def Let_def real_run_step read_text_def)
  ultimately have "read_text backup w1 = Some t" by (simp add: read_text_def)
  then have "write_text path t w1 = (None, w2)"
    using assms(3,6)
    by (auto simp: undo_plan_def wslconfig_plan_def Let_def real_run_step split: option.splits prod.splits)
  then show ?thesis by (rule write_text_ok)
qed

definition bare_executor :: "unit executor" where
  "bare_executor = \<lparr>ex_exec = (\<lambda>a w. (None, w)), ex_wmi = (\<lambda>s w. (None, w))\<rparr>"

definition sample_machine :: "unit fix_machine" where
  "sample_machine =
     \<lparr>mc_files = [''.wslconfig'' \<mapsto> File sample_text], mc_faults = [None, Some (CutAt 3)], mc_rest = ()\<rparr>"

definition sample_plan :: fix_plan where
  "sample_plan = wslconfig_plan (\<lambda>m. ''why'') ''.wslconfig'' ''.bak'' sample_text sample_table sample_host"

lemma undo_restores_config_witness:
  "mc_files (snd (undo_plan bare_executor sample_plan (snd (apply_plan bare_executor sample_plan sample_machine))))
     ''.wslconfig'' = Some (File sample_text)"
proof -
  let ?fix = "fix_text (\<lambda>m. ''why'') sample_text sample_table sample_host"
  have some: "?fix = Some (the ?fix)" by code_simp
  have copied: "fst (write_text ''.bak'' sample_text sample_machine) = None"
    by (simp add: write_text_def sample_machine_def)
  have undone: "fst (undo_plan bare_executor sample_plan (snd (apply_plan bare_executor sample_plan sample_machine))) = None"
    by code_simp
  have held: "mc_files sample_machine ''.wslconfig'' = Some (File sample_text)" by (simp add: sample_machine_def)
  have u: "undo_plan bare_executor sample_plan (snd (apply_plan bare_executor sample_plan sample_machine))
      = (None, snd (undo_plan bare_executor sample_plan (snd (apply_plan bare_executor sample_plan sample_machine))))"
    using undone by (simp add: prod_eq_iff)
  show ?thesis
    using undo_restores_config [OF held _ some prod.collapse [symmetric] copied u [unfolded sample_plan_def]]
    by (simp add: sample_plan_def)
qed

section \<open>Where it does not hold\<close>

text \<open>
  The journal is written before the backup: when the backup is what failed, and left a part of the
  file, \<open>undo\<close>, which the error message names, writes that part over the intact file.
\<close>

lemma undo_after_failed_backup:
  assumes "mc_files w path = Some (File t)" and "path \<noteq> backup" and "mc_files w backup = None"
    and "mc_faults w = [Some (CutAt k)]" and "fix_text say text tab host = Some content"
  shows "\<exists>w1 w2. apply_plan X (wslconfig_plan say path backup text tab host) w = (Some (1, CannotWrite backup), w1)
      \<and> mc_files w1 path = Some (File t)
      \<and> undo_plan X (wslconfig_plan say path backup text tab host) w1 = (None, w2)
      \<and> mc_files w2 path = Some (File (take k t))"
  using assms
  by (simp add: apply_plan_def undo_plan_def wslconfig_plan_def Let_def real_run_step read_text_def write_text_def)

text \<open>\<open>--path\<close> is compared as text: what was asked for one user takes the next one's files too.\<close>

lemma zone_prefix_takes_neighbour:
  "case zone_plan (\<lambda>d r. r) [\<lparr>zd_name = ''Ub'', zd_version = 2,
       zd_scan = Some \<lparr>zs_count = 1, zs_paths = [''/home/anabel/f''], zs_truncated = False\<rparr>\<rparr>]
       [''--path'', ''/home/ana''] of
     Inl e \<Rightarrow> False
   | Inr p \<Rightarrow> map fs_args (fp_steps p) = [[''/home/anabel/f'']]"
  by code_simp

text \<open>Otherwise it deletes recorded files of a named distribution, and only those.\<close>

lemma zone_plan_deletes:
  assumes "zone_plan unc ds args = Inr p" and "zone_args args = Inr (want, under_path)"
    and "s \<in> set (fp_steps p)" and "fs_kind s = ''file_delete''"
  shows "\<exists>d \<in> set ds. \<exists>z rel. zone_matches want d \<and> zd_scan d = Some z \<and> rel \<in> set (zs_paths z)
           \<and> (under_path = [] \<or> has_prefix rel under_path) \<and> fs_args s = [unc (zd_name d) rel]"
proof -
  have kinds: "fs_kind (mk_step ''note'' []) \<noteq> ''file_delete''" by (simp add: mk_step_def)
  have "fp_steps p = concat (map (zone_distro_steps unc want under_path) ds) \<or> fp_steps p = [mk_step ''note'' []]"
    using assms(1,2) by (simp add: zone_plan_def Let_def split: if_split_asm) auto
  then obtain d where d: "d \<in> set ds" "s \<in> set (zone_distro_steps unc want under_path d)"
    using assms(3,4) kinds by auto
  then have m: "zone_matches want d"
    by (auto simp: zone_distro_steps_def zone_matches_def split: if_split_asm)
  obtain z where z: "zd_scan d = Some z"
    using d(2) by (cases "zd_scan d") (auto simp: zone_distro_steps_def split: if_split_asm)
  then obtain rel where "rel \<in> set (zs_paths z)" "under_path = [] \<or> has_prefix rel under_path"
    "s = mk_step ''file_delete'' [unc (zd_name d) rel]"
    using d(2) by (auto simp: zone_distro_steps_def split: if_split_asm)
  with d m z show ?thesis by (auto simp: mk_step_def)
qed

end
