(* ===== verification/WslPath.thy ===== *)
theory WslPath
  imports Prelude
begin

text \<open>
  \<open>internal/wslpath/wslpath.go\<close>: names as Linux spells them and as Windows sees them. A name is its
  runes; \<open>strings.Map\<close> works rune by rune.
\<close>

type_synonym runes = "nat list"

definition escaped :: nat where "escaped = 0xF000"

definition forbidden :: runes where
  "forbidden = [0x22, 0x2A, 0x3A, 0x3C, 0x3E, 0x3F, 0x5C, 0x7C]"

definition is_escaped :: "nat \<Rightarrow> bool" where
  "is_escaped r \<longleftrightarrow> r > escaped \<and> r < escaped + 0x80 \<and> r - escaped \<in> set forbidden"

definition to_linux :: "runes \<Rightarrow> runes" where
  "to_linux name =
     (if \<not> list_ex is_escaped name then name
      else map (\<lambda>r. if is_escaped r then r - escaped else r) name)"

definition to_windows :: "runes \<Rightarrow> runes" where
  "to_windows name =
     (if \<not> list_ex (\<lambda>r. r \<in> set forbidden) name then name
      else map (\<lambda>r. if r \<in> set forbidden then r + escaped else r) name)"

fun split_runes :: "nat \<Rightarrow> runes \<Rightarrow> runes list" where
  "split_runes c [] = [[]]"
| "split_runes c (x # xs) =
     (if x = c then [] # split_runes c xs
      else (case split_runes c xs of [] \<Rightarrow> [[x]] | y # ys \<Rightarrow> (x # y) # ys))"

definition slash :: nat where "slash = 0x2F"
definition rune_backslash :: nat where "rune_backslash = 0x5C"

text \<open>The server name; \<open>UNC\<close> puts two backslashes before it and one after.\<close>

definition unc_host :: runes where
  "unc_host = map of_char ''wsl.localhost''"

definition unc :: "runes \<Rightarrow> runes \<Rightarrow> runes" where
  "unc distro linux_path =
     [rune_backslash, rune_backslash] @ unc_host @ [rune_backslash] @ distro
     @ concat (map (\<lambda>part. rune_backslash # to_windows part) (filter (\<lambda>p. p \<noteq> []) (split_runes slash linux_path)))"

section \<open>Facts\<close>

lemma to_windows_map: "to_windows n = map (\<lambda>r. if r \<in> set forbidden then r + escaped else r) n"
  by (induction n) (auto simp: to_windows_def list_ex_iff map_idI)

lemma to_linux_map: "to_linux n = map (\<lambda>r. if is_escaped r then r - escaped else r) n"
  by (induction n) (auto simp: to_linux_def list_ex_iff map_idI)

lemma forbidden_escaped: "r \<in> set forbidden \<Longrightarrow> is_escaped (r + escaped) \<and> r + escaped \<notin> set forbidden"
  by (auto simp: forbidden_def is_escaped_def escaped_def)

text \<open>
  The two spellings determine each other: on a name Linux gave that does not use the private range
  itself, and on a name Windows accepts.
\<close>

lemma to_linux_to_windows: "list_all (\<lambda>r. \<not> is_escaped r) n \<Longrightarrow> to_linux (to_windows n) = n"
  unfolding to_windows_map to_linux_map
  by (induction n) (use forbidden_escaped in auto)

lemma to_windows_to_linux: "list_all (\<lambda>r. r \<notin> set forbidden) n \<Longrightarrow> to_windows (to_linux n) = n"
  unfolding to_windows_map to_linux_map
  by (induction n) (auto simp: is_escaped_def)

lemma to_windows_accepted: "r \<in> set (to_windows n) \<Longrightarrow> r \<notin> set forbidden"
  unfolding to_windows_map using forbidden_escaped by auto

text \<open>
  A name that does use the range is not recovered: a Linux file named with the rune above is read
  back as the one with the colon.
\<close>

lemma private_range_collides: "to_windows [0xF03A] = to_windows [0x3A]"
  by (simp add: to_windows_def forbidden_def escaped_def)

text \<open>Every part of the path stays one component: a UNC path splits back into them.\<close>

lemma split_runes_no_sep: "c \<notin> set s \<Longrightarrow> split_runes c s = [s]"
  by (induction s) auto

lemma split_runes_append: "c \<notin> set a \<Longrightarrow> split_runes c (a @ c # b) = a # split_runes c b"
  by (induction a) auto

lemma split_runes_concat:
  "\<forall>p \<in> set ps. c \<notin> set p \<Longrightarrow> c \<notin> set a \<Longrightarrow> split_runes c (a @ concat (map (\<lambda>p. c # p) ps)) = a # ps"
proof (induction ps arbitrary: a)
  case (Cons p ps)
  then show ?case using split_runes_append [of c a "p @ concat (map (\<lambda>p. c # p) ps)"] by simp
qed (simp add: split_runes_no_sep)

lemma split_unc:
  assumes "rune_backslash \<notin> set distro"
  shows "split_runes rune_backslash (unc distro path)
       = [[], [], unc_host, distro] @ map to_windows (filter (\<lambda>p. p \<noteq> []) (split_runes slash path))"
proof -
  let ?ps = "map to_windows (filter (\<lambda>p. p \<noteq> []) (split_runes slash path))"
  have "\<forall>p \<in> set ?ps. rune_backslash \<notin> set p"
    using to_windows_accepted by (fastforce simp: rune_backslash_def forbidden_def)
  then have "split_runes rune_backslash (distro @ concat (map (\<lambda>p. rune_backslash # p) ?ps)) = distro # ?ps"
    using assms by (rule split_runes_concat)
  moreover have "rune_backslash \<notin> set unc_host" by (simp add: unc_host_def rune_backslash_def)
  ultimately show ?thesis
    using split_runes_append [of rune_backslash unc_host "distro @ concat (map (\<lambda>p. rune_backslash # p) ?ps)"]
    by (simp add: unc_def o_def)
qed

end
