(* ===== verification/Proxy.thy ===== *)
theory Proxy
  imports GoNet "HOL-Library.List_Lexorder" "HOL-Library.Product_Lexorder"
begin

text \<open>
  \<open>internal/proxy/proxy.go\<close>: what the proxy settings of Windows mean for a distribution. The
  settings, the environment variables that carry them, the address the host has from inside,
  the proxy string and the bypass list Windows stores, and their translation. The last section
  gives the meaning of an address wildcard and of the block that replaces it.
\<close>

section \<open>Settings\<close>

record proxy_settings =
  s_http :: string
  s_https :: string
  s_no_proxy :: "string list"
  s_pac_url :: string
  s_source :: string

record env_var =
  v_name :: string
  v_value :: string

definition settings_empty :: "proxy_settings \<Rightarrow> bool" where
  "settings_empty s \<longleftrightarrow> s_http s = [] \<and> s_https s = []"

definition both_spellings :: "string \<Rightarrow> string \<Rightarrow> env_var list" where
  "both_spellings name value =
     (if value = [] then []
      else [\<lparr>v_name = to_lower name, v_value = value\<rparr>, \<lparr>v_name = to_upper name, v_value = value\<rparr>])"

definition settings_env :: "proxy_settings \<Rightarrow> env_var list" where
  "settings_env s =
     both_spellings ''http_proxy'' (s_http s)
     @ both_spellings ''https_proxy'' (s_https s)
     @ both_spellings ''ftp_proxy'' (s_http s)
     @ both_spellings ''all_proxy'' (s_http s)
     @ (if s_no_proxy s \<noteq> [] then both_spellings ''no_proxy'' (join_with '','' (s_no_proxy s)) else [])"

definition default_no_proxy :: "string list" where
  "default_no_proxy = [''localhost'', ''127.0.0.1'', ''::1'', ''169.254.0.0/16'']"

section \<open>Addresses\<close>

datatype proxy_error =
    NetworkingNone
  | GatewayUnknown
  | NothingToApply
  | ReadFailed string string     \<comment> \<open>the file and what the guest said\<close>
  | NotBase64 string
  | WriteFailed string string
  | RemoveFailed string string

definition host_address :: "string \<Rightarrow> string \<Rightarrow> proxy_error + string" where
  "host_address mode nat_gateway =
     (let m = to_lower (trim_space mode) in
      if m = ''mirrored'' then Inr ''127.0.0.1''
      else if m = ''none'' then Inl NetworkingNone
      else if nat_gateway = [] then Inl GatewayUnknown
      else Inr nat_gateway)"

definition split_scheme :: "string \<Rightarrow> string \<times> string" where
  "split_scheme s =
     (case index_sub s ''://'' of
        Some i \<Rightarrow> (take (i + 3) s, drop (i + 3) s)
      | None \<Rightarrow> ([], s))"

definition split_proxy_port :: "string \<Rightarrow> string \<times> string" where
  "split_proxy_port t =
     (let s = takeWhile (\<lambda>c. c \<noteq> CHR ''/'' \<and> c \<noteq> CHR ''?'') t;
          plain = (case cut_byte colon s of (h, p, ok) \<Rightarrow> if ok then (h, p) else (s, []))
      in if has_prefix s ''['' then
           (case index_byte s close_bracket of
              Some i \<Rightarrow> (take (i + 1) s,
                let rest = drop (i + 1) s in if has_prefix rest '':'' then drop 1 rest else [])
            | None \<Rightarrow> plain)
         else plain)"

definition trim_brackets :: "string \<Rightarrow> string" where
  "trim_brackets s =
     (let b = (\<lambda>c. c = open_bracket \<or> c = close_bracket) in trim_right b (trim_left b s))"

definition is_loopback :: "string \<Rightarrow> bool" where
  "is_loopback host \<longleftrightarrow>
     (let h = to_lower (trim_brackets host) in
      if h = ''localhost'' then True
      else (case parse_ip h of Some ip \<Rightarrow> ip_is_loopback ip | None \<Rightarrow> False))"

definition translate_for_distro :: "string \<Rightarrow> string \<Rightarrow> string \<times> bool" where
  "translate_for_distro proxy_url host_addr =
     (if proxy_url = [] \<or> host_addr = [] then (proxy_url, False)
      else
        (case split_scheme proxy_url of (scheme, rest) \<Rightarrow>
         (case split_proxy_port rest of (host, port) \<Rightarrow>
            if \<not> is_loopback host then (proxy_url, False)
            else (scheme @ host_addr @ (if port \<noteq> [] then '':'' @ port else []), True))))"

section \<open>What Windows stores\<close>

definition normalize_proxy_url :: "string \<Rightarrow> string" where
  "normalize_proxy_url t =
     (let s = trim_space t in
      if s = [] then [] else if contains s ''://'' then s else ''http://'' @ s)"

definition proxy_part :: "string \<times> string \<Rightarrow> string \<Rightarrow> string \<times> string" where
  "proxy_part acc part0 =
     (let part = trim_space part0; (http, https) = acc in
      if part = [] then acc
      else
        (case cut_byte CHR ''='' part of (scheme, addr, ok) \<Rightarrow>
           if \<not> ok then
             (if http = [] then normalize_proxy_url part else http,
              if https = [] then normalize_proxy_url part else https)
           else if to_lower (trim_space scheme) = ''http'' then (normalize_proxy_url addr, https)
           else if to_lower (trim_space scheme) = ''https'' then (http, normalize_proxy_url addr)
           else acc))"

definition parse_windows_proxy :: "string \<Rightarrow> string \<times> string" where
  "parse_windows_proxy s =
     (let (http, https) =
            foldl proxy_part ([], [])
              (fields_func (\<lambda>c. c = CHR '';'' \<or> c = CHR '' '' \<or> c = tab_char) s)
      in (http, if https = [] then http else https))"

text \<open>\<open>octet_of\<close>: a part of a dotted address as the code reads it, through \<open>strconv.Atoi\<close> and back.\<close>

definition octet_of :: "string \<Rightarrow> int option" where
  "octet_of p =
     (case atoi p of
        None \<Rightarrow> None
      | Some n \<Rightarrow> if n < 0 \<or> n > 255 \<or> format_uint (nat n) \<noteq> p then None else Some n)"

fun fixed_octets :: "string list \<Rightarrow> (nat \<times> string list) option" where
  "fixed_octets [] = Some (0, [])"
| "fixed_octets (p # ps) =
     (if p = ''*'' then Some (0, p # ps)
      else if octet_of p = None then None
      else map_option (\<lambda>(n, rest). (Suc n, rest)) (fixed_octets ps))"

definition ipv4_wildcard :: "string \<Rightarrow> string" where
  "ipv4_wildcard entry =
     (let parts = split_on CHR ''.'' entry in
      if length parts < 2 \<or> length parts > 4 then []
      else
        (case fixed_octets parts of
           None \<Rightarrow> []
         | Some (fixed, rest) \<Rightarrow>
             if fixed = 0 \<or> fixed = length parts then []
             else if list_ex (\<lambda>p. p \<noteq> ''*'') rest then []
             else join_with ''.'' (take fixed parts @ replicate (4 - fixed) ''0'')
                    @ ''/'' @ format_uint (8 * fixed)))"

definition add_new :: "string list \<Rightarrow> string \<Rightarrow> string list" where
  "add_new out v0 = (let v = trim_space v0 in if v = [] \<or> v \<in> set out then out else out @ [v])"

definition bypass_entry :: "string list \<Rightarrow> string \<Rightarrow> string list" where
  "bypass_entry out entry0 =
     (let entry = trim_space entry0 in
      if entry = [] then out
      else if equal_fold entry ''<local>'' then add_new out ''localhost''
      else if entry = ''*'' then add_new out ''*''
      else if ipv4_wildcard entry \<noteq> [] then add_new out (ipv4_wildcard entry)
      else if has_prefix entry ''*.'' then add_new out (trim_prefix entry ''*'')
      else if has_prefix entry ''*'' then add_new out (trim_prefix entry ''*'')
      else add_new out entry)"

definition parse_bypass :: "string \<Rightarrow> string list" where
  "parse_bypass s =
     foldl bypass_entry []
       (fields_func (\<lambda>c. c = CHR '';'' \<or> c = CHR '','' \<or> c = CHR '' '' \<or> c = tab_char) s)"

definition merge_no_proxy :: "string list \<Rightarrow> string list" where
  "merge_no_proxy extra =
     remdups default_no_proxy
     @ sort (remdups (filter (\<lambda>v. v \<noteq> [] \<and> v \<notin> set default_no_proxy) extra))"

definition has_suffix_fold :: "string \<Rightarrow> string \<Rightarrow> bool" where
  "has_suffix_fold s suff \<longleftrightarrow>
     length suff \<le> length s \<and> equal_fold (drop (length s - length suff) s) suff"


section \<open>Lists without duplicates\<close>

lemma add_new_distinct: "distinct out \<Longrightarrow> [] \<notin> set out \<Longrightarrow> distinct (add_new out v) \<and> [] \<notin> set (add_new out v)"
  by (auto simp: add_new_def Let_def)

lemma parse_bypass_distinct: "distinct (parse_bypass s) \<and> [] \<notin> set (parse_bypass s)"
proof -
  have "distinct (foldl bypass_entry out es) \<and> [] \<notin> set (foldl bypass_entry out es)"
    if "distinct out \<and> [] \<notin> set out" for out es
    using that
  proof (induction es arbitrary: out)
    case (Cons e es)
    have "distinct (bypass_entry out e) \<and> [] \<notin> set (bypass_entry out e)"
      using Cons.prems add_new_distinct by (simp add: bypass_entry_def Let_def)
    then show ?case using Cons.IH by simp
  qed simp
  then show ?thesis by (simp add: parse_bypass_def)
qed

lemma merge_no_proxy_spec:
  "set (merge_no_proxy extra) = set default_no_proxy \<union> {v \<in> set extra. v \<noteq> []}"
  "distinct (merge_no_proxy extra)"
  by (auto simp: merge_no_proxy_def)

section \<open>What a wildcard means\<close>

text \<open>The pattern language of Windows: a star stands for any run of characters.\<close>

fun glob :: "string \<Rightarrow> string \<Rightarrow> bool" where
  "glob [] s \<longleftrightarrow> s = []"
| "glob (p # ps) [] \<longleftrightarrow> p = CHR ''*'' \<and> glob ps []"
| "glob (p # ps) (c # s) \<longleftrightarrow>
     (if p = CHR ''*'' then glob ps (c # s) \<or> glob (p # ps) s else p = c \<and> glob ps s)"

definition dotted :: "nat list \<Rightarrow> string" where
  "dotted ip = join_with ''.'' (map format_uint ip)"

definition ip_num :: "nat list \<Rightarrow> nat" where
  "ip_num ip = foldl (\<lambda>n b. n * 256 + b) 0 ip"

text \<open>The block language of Linux tools: an address, and how many of its leading bits count.\<close>

definition block_covers :: "string \<Rightarrow> nat list \<Rightarrow> bool" where
  "block_covers block ip =
     (case cut_byte CHR ''/'' block of (base, len, ok) \<Rightarrow>
        ok \<and> (case (parse_ipv4 base, parse_uint 8 len) of
                (Some b, Some n) \<Rightarrow> n \<le> 32 \<and> ip_num ip div 2 ^ (32 - n) = ip_num b div 2 ^ (32 - n)
              | _ \<Rightarrow> False))"

lemma glob_literal: "CHR ''*'' \<notin> set l \<Longrightarrow> glob (l @ p) s \<longleftrightarrow> (\<exists>u. s = l @ u \<and> glob p u)"
proof (induction l arbitrary: s)
  case (Cons c l) then show ?case by (cases s) auto
qed simp

lemma glob_star: "glob p u \<Longrightarrow> glob (CHR ''*'' # p) (x @ u)"
proof (induction x)
  case Nil then show ?case by (cases u) auto
qed simp

lemma glob_star_all: "glob ''*'' s"
  using glob_star [of "[]" "[]" s] by simp

lemma digits_no: "c \<in> set (format_uint n) \<Longrightarrow> is_digit c"
  using digits10_all [of n] by (auto simp: format_uint_def list_all_iff)

lemma format_uint_no [simp]:
  "CHR ''.'' \<notin> set (format_uint n)" "CHR ''*'' \<notin> set (format_uint n)" "CHR ''/'' \<notin> set (format_uint n)"
  by (auto dest: digits_no simp: is_digit_def)

lemma format_uint_inj: "format_uint m = format_uint n \<longleftrightarrow> m = n"
  by (metis digits_val_digits10 format_uint_def)

lemma format_uint_dot: "format_uint m @ CHR ''.'' # u = format_uint n @ CHR ''.'' # v \<longleftrightarrow> m = n \<and> u = v"
proof
  assume eq: "format_uint m @ CHR ''.'' # u = format_uint n @ CHR ''.'' # v"
  have "takeWhile (\<lambda>c. c \<noteq> CHR ''.'') (format_uint k @ CHR ''.'' # w) = format_uint k" for k w
    by (rule takeWhile_append_stop) (metis format_uint_no(1), simp)
  then have "format_uint m = format_uint n" using eq by metis
  then show "m = n \<and> u = v" using eq by (simp add: format_uint_inj)
qed simp

lemma fixed_octets_Some:
  "fixed_octets ps = Some (n, rest) \<Longrightarrow>
     \<exists>fs. ps = map format_uint fs @ rest \<and> length fs = n \<and> (\<forall>f \<in> set fs. f < 256)"
proof (induction ps arbitrary: n rest)
  case (Cons p ps)
  show ?case
  proof (cases "p = ''*''")
    case True then show ?thesis using Cons.prems by simp
  next
    case False
    then obtain v m where v: "octet_of p = Some v" and f: "fixed_octets ps = Some (m, rest)" and n: "n = Suc m"
      using Cons.prems by (auto split: if_splits)
    from Cons.IH [OF f] obtain fs where
      fs: "ps = map format_uint fs @ rest" "length fs = m" "\<forall>f \<in> set fs. f < 256" by blast
    from v have "format_uint (nat v) = p" "nat v < 256"
      by (auto simp: octet_of_def split: option.splits if_splits)
    then show ?thesis using fs n by (intro exI [of _ "nat v # fs"]) simp
  qed
qed simp

lemma split_on_rejoin: "join_with [c] (split_on c s) = s"
proof (induction s)
  case (Cons x s)
  then show ?case by (cases "split_on c s"; cases "tl (split_on c s)") auto
qed simp

lemma ipv4_wildcard_form:
  assumes "ipv4_wildcard entry \<noteq> []"
  obtains fs k where "entry = join_with ''.'' (map format_uint fs @ replicate k ''*'')"
    and "fs \<noteq> []" "0 < k" "length fs + k \<le> 4" "\<forall>f \<in> set fs. f < 256"
    and "ipv4_wildcard entry = join_with ''.'' (map format_uint fs @ replicate (4 - length fs) ''0'')
           @ ''/'' @ format_uint (8 * length fs)"
proof -
  let ?ps = "split_on CHR ''.'' entry"
  obtain n rest where fo: "fixed_octets ?ps = Some (n, rest)" and len: "length ?ps \<le> 4"
    and n: "n \<noteq> 0" "n \<noteq> length ?ps" and star: "\<not> list_ex (\<lambda>p. p \<noteq> ''*'') rest"
    and eq: "ipv4_wildcard entry = join_with ''.'' (take n ?ps @ replicate (4 - n) ''0'')
           @ ''/'' @ format_uint (8 * n)"
    using assms by (auto simp: ipv4_wildcard_def Let_def split: if_splits option.splits)
  from fixed_octets_Some [OF fo] obtain fs where
    fs: "?ps = map format_uint fs @ rest" "length fs = n" "\<forall>f \<in> set fs. f < 256" by blast
  have rest: "rest = replicate (length rest) ''*''"
    using star by (intro replicate_length_same [symmetric]) (auto simp: list_ex_iff)
  have "entry = join_with ''.'' (map format_uint fs @ replicate (length rest) ''*'')"
    using split_on_rejoin [of "CHR ''.''" entry] fs(1) rest by simp
  moreover have "length fs + length rest \<le> 4" "rest \<noteq> []" using fs n len by auto
  ultimately show ?thesis using that [of fs "length rest"] fs n eq by auto
qed

lemma digits10_below: "n < 10 \<Longrightarrow> digits10 n = [char_of (48 + n)]"
  by (simp add: digits10.simps)

lemma parse_octet_format: "n < 256 \<Longrightarrow> parse_octet (format_uint n) = Some n"
proof -
  assume n: "n < 256"
  have "length (digits10 n) \<le> 3 \<and> (1 < length (digits10 n) \<longrightarrow> hd (digits10 n) \<noteq> CHR ''0'')"
  proof -
    have hd: "char_of (48 + d) \<noteq> CHR ''0''" if "d < 10" "0 < d" for d :: nat
    proof
      assume "char_of (48 + d) = CHR ''0''"
      then have "(of_char (char_of (48 + d)) :: nat) = 48" by simp
      then show False using that by simp
    qed
    consider "n < 10" | "10 \<le> n" "n < 100" | "100 \<le> n" by linarith
    then show ?thesis
    proof cases
      case 2
      then have "n div 10 < 10" "0 < n div 10" by auto
      then show ?thesis using 2 hd [of "n div 10"] digits10.simps [of n] by (simp add: digits10_below)
    next
      case 3
      then have "n div 10 div 10 < 10" "0 < n div 10 div 10" "\<not> n div 10 < 10" using n by auto
      then show ?thesis using 3 hd [of "n div 10 div 10"] digits10.simps [of n] digits10.simps [of "n div 10"]
        by (simp add: digits10_below)
    qed (simp add: digits10_below)
  qed
  then show ?thesis using n digits10_all [of n]
    by (auto simp: parse_octet_def format_uint_def digits_val_digits10)
qed

lemma parse_ipv4_dotted:
  "length ip = 4 \<Longrightarrow> \<forall>b \<in> set ip. b < 256 \<Longrightarrow> parse_ipv4 (dotted ip) = Some ip"
proof -
  assume ip: "length ip = 4" "\<forall>b \<in> set ip. b < 256"
  then have ne: "ip \<noteq> []" by auto
  have "split_on CHR ''.'' (dotted ip) = map format_uint ip"
    unfolding dotted_def by (rule split_on_join) (use ne in auto)
  moreover have "map parse_octet (map format_uint ip) = map Some ip"
    using ip by (simp add: parse_octet_format)
  ultimately show ?thesis using ip by (auto simp: parse_ipv4_def comp_def map_idI parse_octet_format)
qed

text \<open>The block of a number of leading octets covers the addresses that start with them.\<close>

lemma parse_len: "n \<le> 32 \<Longrightarrow> parse_uint 8 (format_uint n) = Some n"
  by (rule parse_format_uint) simp

lemma dotted_no_slash: "CHR ''/'' \<notin> set (dotted ip)"
  using set_join_with [of "CHR ''/''" "''.''" "map format_uint ip"] by (auto simp: dotted_def)

lemma dotted_zeros:
  "join_with ''.'' (map format_uint fs @ replicate n ''0'') = dotted (fs @ replicate n 0)"
proof -
  have "(char_of (48 :: nat) :: char) = CHR ''0''" by code_simp
  then show ?thesis by (simp add: dotted_def format_uint_def digits10_below)
qed

lemma block_covers_prefix:
  assumes "length fs \<le> 4" and "\<forall>f \<in> set fs. f < 256"
  shows "block_covers (join_with ''.'' (map format_uint fs @ replicate (4 - length fs) ''0'')
           @ ''/'' @ format_uint (8 * length fs)) ip \<longleftrightarrow>
         ip_num ip div 2 ^ (32 - 8 * length fs)
           = ip_num (fs @ replicate (4 - length fs) 0) div 2 ^ (32 - 8 * length fs)"
proof -
  have "parse_ipv4 (dotted (fs @ replicate (4 - length fs) 0)) = Some (fs @ replicate (4 - length fs) 0)"
    using assms by (intro parse_ipv4_dotted) auto
  then show ?thesis
    unfolding dotted_zeros block_covers_def
    using cut_byte_append [OF dotted_no_slash] parse_len [of "8 * length fs"] assms(1) by simp
qed

lemma dotted_octets: "dotted [a, b, c, d]
    = format_uint a @ CHR ''.'' # format_uint b @ CHR ''.'' # format_uint c @ CHR ''.'' # format_uint d"
  by (simp add: dotted_def)

lemma glob_octet:
  "glob (format_uint f @ CHR ''.'' # p) (format_uint a @ CHR ''.'' # u) \<longleftrightarrow> f = a \<and> glob p u"
proof -
  have "glob ((format_uint f @ [CHR ''.'']) @ p) (format_uint a @ CHR ''.'' # u) \<longleftrightarrow>
      (\<exists>v. format_uint a @ CHR ''.'' # u = (format_uint f @ [CHR ''.'']) @ v \<and> glob p v)"
    by (rule glob_literal) simp
  then show ?thesis by (auto simp: format_uint_dot)
qed

lemma glob_star_octet: "glob p u \<Longrightarrow> glob (CHR ''*'' # CHR ''.'' # p) (x @ CHR ''.'' # u)"
  using glob_star [of "CHR ''.'' # p" "CHR ''.'' # u" x] by simp

lemma top_octets:
  fixes a b c d :: nat
  assumes "a < 256" "b < 256" "c < 256" "d < 256"
  shows "ip_num [a, b, c, d] div 2 ^ 24 = a"
    and "ip_num [a, b, c, d] div 2 ^ 16 = a * 256 + b"
    and "ip_num [a, b, c, d] div 2 ^ 8 = (a * 256 + b) * 256 + c"
  using assms by (simp_all add: ip_num_def)

lemma replicate_few: "replicate 2 x = [x, x]" "replicate 3 x = [x, x, x]"
  by (simp_all add: numeral_eq_Suc)

lemma two_octets:
  fixes a b f g :: nat
  assumes "b < 256" and "g < 256"
  shows "a * 256 + b = f * 256 + g \<longleftrightarrow> a = f \<and> b = g"
proof
  assume eq: "a * 256 + b = f * 256 + g"
  have "(a * 256 + b) div 256 = a" "(f * 256 + g) div 256 = f" using assms by simp_all
  then have "a = f" using eq by metis
  then show "a = f \<and> b = g" using eq by simp
qed simp

lemma same_top:
  assumes "a < 256" "b < 256" "c < 256" "d < 256" "f < 256"
  shows "ip_num [a, b, c, d] div 16777216 = ip_num [f, 0, 0, 0] div 16777216 \<longleftrightarrow> a = f"
    and "g < 256 \<Longrightarrow> ip_num [a, b, c, d] div 65536 = ip_num [f, g, 0, 0] div 65536 \<longleftrightarrow> a = f \<and> b = g"
    and "g < 256 \<Longrightarrow> h < 256 \<Longrightarrow> ip_num [a, b, c, d] div 256 = ip_num [f, g, h, 0] div 256 \<longleftrightarrow>
      a = f \<and> b = g \<and> c = h"
proof -
  have z: "(0 :: nat) < 256" by simp
  note tops = top_octets [OF assms(1-4)] top_octets [OF assms(5) _ _ z]
  show "ip_num [a, b, c, d] div 16777216 = ip_num [f, 0, 0, 0] div 16777216 \<longleftrightarrow> a = f"
    using tops(1) tops(4) [OF z z] by simp
  show "ip_num [a, b, c, d] div 65536 = ip_num [f, g, 0, 0] div 65536 \<longleftrightarrow> a = f \<and> b = g" if g: "g < 256"
    using tops(2) tops(5) [OF g z] two_octets [OF assms(2) g, of a f] by simp
  show "ip_num [a, b, c, d] div 256 = ip_num [f, g, h, 0] div 256 \<longleftrightarrow> a = f \<and> b = g \<and> c = h"
    if g: "g < 256" and h: "h < 256"
  proof -
    have p: "(2 :: nat) ^ 8 = 256" by simp
    show ?thesis
      using tops(3) tops(6) [OF g h] two_octets [OF assms(3) h, of "a * 256 + b" "f * 256 + g"]
        two_octets [OF assms(2) g, of a f] unfolding p by metis
  qed
qed

lemmas octets = same_top replicate_few

text \<open>a Windows wildcard over addresses, "10.*" or "192.168.*.*", and the block that
  ParseBypass puts in its place mean the same: for every IPv4 address, the block covers it exactly
  when the pattern matches the address as it is written.\<close>

theorem bypass_block_is_wildcard:
  assumes "ipv4_wildcard entry \<noteq> []"
    and "length ip = 4" and "\<forall>b \<in> set ip. b < 256"
  shows "block_covers (ipv4_wildcard entry) ip \<longleftrightarrow> glob entry (dotted ip)"
proof -
  obtain fs k where entry: "entry = join_with ''.'' (map format_uint fs @ replicate k ''*'')"
    and k: "fs \<noteq> []" "0 < k" "length fs + k \<le> 4" and fs: "\<forall>f \<in> set fs. f < 256"
    and wc: "ipv4_wildcard entry = join_with ''.'' (map format_uint fs @ replicate (4 - length fs) ''0'')
           @ ''/'' @ format_uint (8 * length fs)"
    by (rule ipv4_wildcard_form [OF assms(1)])
  obtain a b c d where ip: "ip = [a, b, c, d]"
    using assms(2) by (auto simp: numeral_eq_Suc length_Suc_conv)
  have le: "length fs \<le> 4" using k by simp
  note covers = block_covers_prefix [OF le fs, folded wc]
  note stars = glob_octet glob_star_all glob_star_octet
  obtain f fs' where f: "fs = f # fs'" using k by (cases fs) auto
  consider "fs' = []" "k = 1 \<or> k = 2 \<or> k = 3"
    | g where "fs' = [g]" "k = 1 \<or> k = 2"
    | g h where "fs' = [g, h]" "k = 1"
  proof -
    have upto: "k = 1 \<or> k = 2 \<or> k = 3" using k f by (cases fs') auto
    show thesis
      using k f upto that by (cases fs'; cases "tl fs'"; cases "tl (tl fs')") auto
  qed
  then show ?thesis
    unfolding covers unfolding ip entry f
    using assms(3) fs
    by cases (auto simp: ip f dotted_octets stars octets)
qed

lemma ten_wildcard: "ipv4_wildcard ''10.*'' = ''10.0.0.0/8''"
proof -
  have "octet_of ''10'' = Some 10"
    by (simp add: octet_of_def atoi_def parse_uint_def is_digit_def digits_val_def digit_val_def
        format_uint_def digits10.simps) code_simp
  moreover have "format_uint 8 = ''8''" by code_simp
  ultimately show ?thesis by (simp add: ipv4_wildcard_def octet_of_def replicate_few)
qed

theorem bypass_block_is_wildcard_witness:
  "block_covers (ipv4_wildcard ''10.*'') [10, 1, 2, 3] \<and> \<not> block_covers (ipv4_wildcard ''10.*'') [11, 1, 2, 3]"
proof -
  have ne: "ipv4_wildcard ''10.*'' \<noteq> []" by (simp add: ten_wildcard)
  have at: "dotted [10, 1, 2, 3] = ''10.'' @ ''1.2.3''" "dotted [11, 1, 2, 3] = ''11.'' @ ''1.2.3''"
    by (simp_all add: dotted_def format_uint_def digits10.simps) code_simp+
  have "glob ''10.*'' (dotted [10, 1, 2, 3])" "\<not> glob ''10.*'' (dotted [11, 1, 2, 3])"
    unfolding at using glob_star_all by simp_all
  then show ?thesis
    using bypass_block_is_wildcard [OF ne, of "[10, 1, 2, 3]"]
      bypass_block_is_wildcard [OF ne, of "[11, 1, 2, 3]"] by simp
qed

text \<open>An address with credentials in it: the host is cut at the first colon, so a proxy on the
  host's loopback is not recognised and keeps an address that means the distribution itself.\<close>

lemma credentials_hide_loopback:
  "translate_for_distro ''http://me:pw@127.0.0.1:3128'' ''172.20.240.1''
     = (''http://me:pw@127.0.0.1:3128'', False)"
proof -
  have "split_scheme ''http://me:pw@127.0.0.1:3128'' = (''http://'', ''me:pw@127.0.0.1:3128'')"
    by (simp add: split_scheme_def has_prefix_def)
  moreover have "split_proxy_port ''me:pw@127.0.0.1:3128'' = (''me'', ''pw@127.0.0.1:3128'')"
    by (simp add: split_proxy_port_def has_prefix_def cut_byte_def colon_def)
  moreover have "\<not> is_loopback ''me''"
    by (simp add: is_loopback_def trim_brackets_def trim_left_def trim_right_def parse_ip_def
        open_bracket_def close_bracket_def to_lower_def lower_char_def is_upper_def)
  ultimately show ?thesis by (simp add: translate_for_distro_def)
qed

end
