(* ===== verification/ProxyFiles.thy ===== *)
theory ProxyFiles
  imports Proxy
begin

text \<open>
  \<open>internal/proxy/files.go\<close>: the files a distribution needs for a proxy, and the managed block
  that shares a file with its owner. \<open>merge\<close> puts the block in, \<open>unmerge\<close> takes it out.
\<close>

section \<open>The files\<close>

abbreviation nl :: string where "nl \<equiv> [newline]"

definition begin_marker :: string where "begin_marker = ''# >>> wslkit proxy >>>''"
definition end_marker :: string where "end_marker = ''# <<< wslkit proxy <<<''"

definition block_warning :: string where
  "block_warning =
     ''# Written by wslkit proxy apply. Edits between these markers are lost on the next apply.'' @ nl
     @ ''# Remove with: wslkit proxy revert -d <distro>''"

definition env_file :: string where "env_file = ''/etc/wslkit/proxy.env''"

record proxy_file =
  f_path :: string
  f_content :: string
  f_whole :: bool
  f_why :: string
  f_mode :: string
  f_owns_dir :: bool

definition sort_vars :: "env_var list \<Rightarrow> env_var list" where
  "sort_vars vars = sort_key (\<lambda>v. (to_lower (v_name v), v_name v)) vars"

definition quote_if_needed :: "string \<Rightarrow> string" where
  "quote_if_needed v =
     (if v = [] \<or> list_ex (\<lambda>c. c \<in> {CHR '' '', tab_char, CHR 0x22, CHR 0x27, CHR ''$'', CHR 0x60, CHR 0x5C}) v
      then go_quote v else v)"

definition render_kv :: "env_var list \<Rightarrow> string \<Rightarrow> string" where
  "render_kv vars pre =
     concat (map (\<lambda>v. pre @ v_name v @ ''='' @ quote_if_needed (v_value v) @ nl) (sort_vars vars))"

definition render_systemd :: "env_var list \<Rightarrow> string" where
  "render_systemd vars =
     ''DefaultEnvironment='' @ join_with '' '' (map (\<lambda>v. go_quote (v_name v @ ''='' @ v_value v)) (sort_vars vars)) @ nl"

definition env_block :: "env_var list \<Rightarrow> string" where
  "env_block vars = join_with nl [block_warning, render_kv vars []]"

definition files_for :: "proxy_settings \<Rightarrow> proxy_file list" where
  "files_for s =
     (if settings_empty s then []
      else
        (let vars = settings_env s in
         [\<lparr>f_path = env_file,
           f_content = join_with nl
             [''# Written by wslkit proxy apply.'',
              ''# The proxy for this distribution, in one place.'',
              ''# A unit can pick it up with EnvironmentFile='' @ env_file @ ''.'',
              render_kv vars []],
           f_whole = True,
           f_why = ''the one file the others point at, and the one a systemd unit can watch'',
           f_mode = ''0644'', f_owns_dir = True\<rparr>,
          \<lparr>f_path = ''/etc/environment'', f_content = env_block vars, f_whole = False,
           f_why = ''read by PAM, so every login session and every su gets it'',
           f_mode = ''0644'', f_owns_dir = False\<rparr>,
          \<lparr>f_path = ''/etc/profile.d/99-wslkit-proxy.sh'',
           f_content = join_with nl
             [''# Written by wslkit proxy apply.'',
              ''# Sourced by every login shell. Remove with: wslkit proxy revert'',
              render_kv vars ''export ''],
           f_whole = True, f_why = ''read by every login shell'', f_mode = ''0644'', f_owns_dir = False\<rparr>,
          \<lparr>f_path = ''/etc/apt/apt.conf.d/99wslkit-proxy'',
           f_content = join_with nl
             [''// Written by wslkit proxy apply. Remove with: wslkit proxy revert'',
              ''Acquire::http::Proxy '' @ go_quote (s_http s) @ '';'',
              ''Acquire::https::Proxy '' @ go_quote (s_https s) @ '';'', []],
           f_whole = True, f_why = ''apt does not read the environment when it runs from a timer'',
           f_mode = ''0644'', f_owns_dir = False\<rparr>,
          \<lparr>f_path = ''/etc/systemd/system.conf.d/wslkit-proxy.conf'',
           f_content = join_with nl
             [''# Written by wslkit proxy apply. Remove with: wslkit proxy revert'',
              ''# Applies to system units. systemctl daemon-reexec makes it take effect,'',
              ''# and already-running units keep the environment they started with.'',
              ''[Manager]'', render_systemd vars],
           f_whole = True, f_why = ''systemd builds its own environment; without this no unit is proxied'',
           f_mode = ''0644'', f_owns_dir = False\<rparr>]))"

section \<open>The managed block\<close>

definition managed :: "string \<Rightarrow> string" where
  "managed block =
     begin_marker @ nl @ trim_right (\<lambda>c. c = newline) block @ nl @ end_marker @ nl"

definition with_final_newline :: "string \<Rightarrow> string" where
  "with_final_newline e = (if e \<noteq> [] \<and> \<not> has_suffix e nl then e @ nl else e)"

definition merge :: "string \<Rightarrow> string \<Rightarrow> string" where
  "merge existing block =
     (case cut_sub existing begin_marker of
        (before, rest, found) \<Rightarrow>
          if \<not> found then with_final_newline existing @ managed block
          else
            (case cut_sub rest end_marker of
               (_, after, ok) \<Rightarrow>
                 if \<not> ok then before @ managed block
                 else before @ managed block @ trim_prefix after nl))"

definition unmerge :: "string \<Rightarrow> string \<times> bool" where
  "unmerge existing =
     (case cut_sub existing begin_marker of
        (before, rest, found) \<Rightarrow>
          if \<not> found then (existing, False)
          else
            (case cut_sub rest end_marker of
               (_, after, ok) \<Rightarrow>
                 if \<not> ok then (before, True) else (before @ trim_prefix after nl, True)))"

section \<open>Markers in a file\<close>

text \<open>A marker holds no line break, so it cannot straddle two lines: after a line break, the
  first occurrence of a marker that is not in the text before is the one that follows it.\<close>

lemma contains_sublist: "contains s p \<longleftrightarrow> sublist p s"
  by (auto simp: contains_iff sublist_def)

lemma contains_lines:
  assumes "newline \<notin> set p" and "p \<noteq> []"
  shows "contains (a @ newline # b) p \<longleftrightarrow> contains a p \<or> contains b p"
  using assms
  by (auto simp: contains_sublist sublist_append sublist_Cons_right prefix_Cons
      dest: suffix_imp_sublist)

lemma cut_sub_marker:
  assumes "newline \<notin> set p" and "p \<noteq> []" and "\<not> contains a p" and "a = [] \<or> last a = newline"
  shows "cut_sub (a @ p @ b) p = (a, b, True)"
proof (rule cut_sub_first)
  fix i assume i: "i < length a"
  then obtain a' where a: "a = a' @ nl" using assms(4) by (metis append_butlast_last_id length_0_conv not_less0)
  show "\<not> has_prefix (drop i (a @ p @ b)) p"
  proof
    assume "has_prefix (drop i (a @ p @ b)) p"
    moreover have "drop i (a @ p @ b) = drop i a' @ newline # p @ b" using i a by simp
    ultimately obtain t where t: "drop i a' @ newline # p @ b = p @ t" by (auto simp: has_prefix_iff)
    have "length p \<le> length (drop i a')"
    proof (rule ccontr)
      assume "\<not> length p \<le> length (drop i a')"
      then have "(p @ t) ! length (drop i a') \<in> set p" by (simp add: nth_append)
      then have "(drop i a' @ newline # p @ b) ! length (drop i a') \<in> set p" by (simp only: t)
      then show False using assms(1) by (simp only: nth_append_length)
    qed
    then have "take (length p) (drop i a') = p"
      using t by (metis append_eq_append_conv_if)
    then have "contains a p"
      by (metis a append.assoc append_take_drop_id contains_iff)
    then show False using assms(3) by blast
  qed
qed

lemma marker_facts:
  "newline \<notin> set begin_marker" "begin_marker \<noteq> []" "newline \<notin> set end_marker" "end_marker \<noteq> []"
  by (simp_all add: begin_marker_def end_marker_def newline_def)

lemma contains_Nil: "p \<noteq> [] \<Longrightarrow> \<not> contains [] p"
  by (simp add: contains_def)

lemma contains_trim_right: "contains (trim_right q s) p \<Longrightarrow> contains s p"
proof -
  have "s = rev (takeWhile q (rev s) @ dropWhile q (rev s))" by simp
  then have "s = trim_right q s @ rev (takeWhile q (rev s))"
    unfolding rev_append trim_right_def .
  then show "contains (trim_right q s) p \<Longrightarrow> contains s p" by (metis append.assoc contains_iff)
qed

lemma merge_block:
  assumes "\<not> contains a begin_marker" and "a = [] \<or> last a = newline" and "\<not> contains b end_marker"
  shows "merge (a @ managed b @ c) b' = a @ managed b' @ c"
    and "unmerge (a @ managed b @ c) = (a @ c, True)"
proof -
  let ?t = "trim_right (\<lambda>c. c = newline) b"
  have 1: "cut_sub (a @ managed b @ c) begin_marker = (a, nl @ ?t @ nl @ end_marker @ nl @ c, True)"
    using cut_sub_marker [of begin_marker a "nl @ ?t @ nl @ end_marker @ nl @ c"] assms(1,2)
    by (simp add: managed_def marker_facts)
  have "\<not> contains ([] @ newline # (?t @ newline # [])) end_marker"
    using assms(3) contains_trim_right [of _ b end_marker] contains_Nil [of end_marker]
    unfolding contains_lines [OF marker_facts(3,4)] by (auto simp: marker_facts)
  then have 2: "cut_sub (nl @ ?t @ nl @ end_marker @ nl @ c) end_marker = (nl @ ?t @ nl, nl @ c, True)"
    using cut_sub_marker [of end_marker "nl @ ?t @ nl" "nl @ c"] by (simp add: marker_facts)
  show "merge (a @ managed b @ c) b' = a @ managed b' @ c"
    unfolding merge_def 1 using 2 trim_prefix_append [of nl c] by simp
  show "unmerge (a @ managed b @ c) = (a @ c, True)"
    unfolding unmerge_def 1 using 2 trim_prefix_append [of nl c] by simp
qed

lemma with_final_newline_ends: "with_final_newline e = [] \<or> last (with_final_newline e) = newline"
  by (auto simp: with_final_newline_def has_suffix_iff)

lemma contains_with_final_newline:
  "newline \<notin> set p \<Longrightarrow> p \<noteq> [] \<Longrightarrow> contains (with_final_newline e) p \<longleftrightarrow> contains e p"
  using contains_lines [of p e "[]"] contains_Nil [of p] by (simp add: with_final_newline_def)

lemma merge_fresh: "\<not> contains e begin_marker \<Longrightarrow> merge e b = with_final_newline e @ managed b"
  by (simp add: merge_def cut_sub_none)

lemma merge_merge:
  assumes "\<not> contains e begin_marker" and "\<not> contains b end_marker"
  shows "merge (merge e b) b' = merge e b'"
    and "unmerge (merge e b) = (with_final_newline e, True)"
  using merge_block [OF _ with_final_newline_ends assms(2), of e "[]"] assms(1)
  by (simp_all add: merge_fresh contains_with_final_newline marker_facts)

section \<open>Blocks without a marker\<close>

text \<open>Settings in which no value holds a less-than sign give a block that holds no end marker.\<close>

definition plain_settings :: "proxy_settings \<Rightarrow> bool" where
  "plain_settings s \<longleftrightarrow>
     CHR ''<'' \<notin> set (s_http s) \<and> CHR ''<'' \<notin> set (s_https s)
     \<and> (\<forall>v \<in> set (s_no_proxy s). CHR ''<'' \<notin> set v)"

lemma less_sign: "CHR ''<'' = char_of k \<Longrightarrow> k < 256 \<Longrightarrow> k = 60" for k :: nat
proof -
  assume k: "CHR ''<'' = char_of k" "k < 256"
  have "(of_char (CHR ''<'') :: nat) = 60" by simp
  then show ?thesis using k by simp
qed

lemma quoted_char_less:
  assumes "c \<noteq> CHR ''<''" shows "CHR ''<'' \<notin> set (quoted_char c)"
proof -
  have "CHR ''<'' \<noteq> hex_digit n" if "n < 16" for n
    using that by (auto simp: hex_digit_def dest!: less_sign)
  moreover have "(of_char c :: nat) div 16 < 16" by (simp add: less_mult_imp_div_less)
  ultimately have "CHR ''<'' \<noteq> hex_digit (of_char c div 16)" "CHR ''<'' \<noteq> hex_digit (of_char c mod 16)"
    by simp_all
  then show ?thesis using assms by (auto simp: quoted_char_def Let_def)
qed

lemma go_quote_less: "CHR ''<'' \<notin> set v \<Longrightarrow> CHR ''<'' \<notin> set (go_quote v)"
  unfolding go_quote_def using quoted_char_less by (simp, metis)

lemma case_less:
  assumes "CHR ''<'' \<notin> set n"
  shows "CHR ''<'' \<notin> set (to_lower n)" "CHR ''<'' \<notin> set (to_upper n)"
  using assms by (auto simp: to_lower_def lower_char_def is_upper_def to_upper_def Let_def
      split: if_splits dest!: less_sign)

lemma both_spellings_less:
  "v \<in> set (both_spellings n x) \<Longrightarrow> CHR ''<'' \<notin> set n \<Longrightarrow> CHR ''<'' \<notin> set x \<Longrightarrow>
     CHR ''<'' \<notin> set (v_name v) \<and> CHR ''<'' \<notin> set (v_value v)"
  using case_less [of n] by (auto simp: both_spellings_def split: if_splits)

lemma env_values_less:
  assumes "plain_settings s" and "v \<in> set (settings_env s)"
  shows "CHR ''<'' \<notin> set (v_name v) \<and> CHR ''<'' \<notin> set (v_value v)"
proof -
  have np: "CHR ''<'' \<notin> set (join_with '','' (s_no_proxy s))"
    using assms(1) set_join_with [of "CHR ''<''" "'',''" "s_no_proxy s"] by (auto simp: plain_settings_def)
  consider "v \<in> set (both_spellings ''http_proxy'' (s_http s))"
    | "v \<in> set (both_spellings ''https_proxy'' (s_https s))"
    | "v \<in> set (both_spellings ''ftp_proxy'' (s_http s))"
    | "v \<in> set (both_spellings ''all_proxy'' (s_http s))"
    | "v \<in> set (both_spellings ''no_proxy'' (join_with '','' (s_no_proxy s)))"
    using assms(2) by (auto simp: settings_env_def split: if_splits)
  then show ?thesis
    by cases (erule both_spellings_less; use assms(1) np in \<open>simp add: plain_settings_def\<close>)+
qed

lemma env_block_plain:
  assumes "plain_settings s" shows "\<not> contains (env_block (settings_env s)) end_marker"
proof -
  have "CHR ''<'' \<notin> set (quote_if_needed (v_value v))" if "v \<in> set (settings_env s)" for v
    using env_values_less [OF assms that] go_quote_less by (simp add: quote_if_needed_def)
  then have "CHR ''<'' \<notin> set (render_kv (settings_env s) [])"
    using env_values_less [OF assms] by (auto simp: render_kv_def sort_vars_def newline_def)
  then have kv: "\<not> contains (render_kv (settings_env s) []) end_marker"
    by (auto simp: contains_iff end_marker_def)
  have "\<not> contains block_warning end_marker" by code_simp
  then show ?thesis
    using kv contains_lines [OF marker_facts(3,4)] by (simp add: env_block_def)
qed

end
