(* ===== verification/Base64.thy ===== *)
theory Base64
  imports GoNet
begin

text \<open>
  \<open>encoding/base64\<close>, the standard encoding: three bytes as four characters of an alphabet of
  64, padded with \<open>=\<close>. A Go string of bytes is a \<open>char list\<close>. Decoding inverts encoding, and
  an encoding consists of characters of the alphabet and the padding.
\<close>

definition b64_char :: "nat \<Rightarrow> char" where
  "b64_char n =
     char_of (if n < 26 then 65 + n else if n < 52 then 71 + n
              else if n < 62 then n - 4 else if n = 62 then 43 else 47 :: nat)"

definition b64_val :: "char \<Rightarrow> nat option" where
  "b64_val c =
     (let n = of_char c :: nat in
      if 65 \<le> n \<and> n \<le> 90 then Some (n - 65)
      else if 97 \<le> n \<and> n \<le> 122 then Some (n - 71)
      else if 48 \<le> n \<and> n \<le> 57 then Some (n + 4)
      else if n = 43 then Some 62
      else if n = 47 then Some 63
      else None)"

definition pad_char :: char where "pad_char = CHR ''=''"

fun b64_encode :: "string \<Rightarrow> string" where
  "b64_encode [] = []"
| "b64_encode [a] =
     (let x = of_char a in
      [b64_char (x div 4), b64_char (x mod 4 * 16), pad_char, pad_char])"
| "b64_encode [a, b] =
     (let x = of_char a; y = of_char b in
      [b64_char (x div 4), b64_char (x mod 4 * 16 + y div 16), b64_char (y mod 16 * 4), pad_char])"
| "b64_encode (a # b # c # s) =
     (let x = of_char a; y = of_char b; z = of_char c in
      [b64_char (x div 4), b64_char (x mod 4 * 16 + y div 16),
       b64_char (y mod 16 * 4 + z div 64), b64_char (z mod 64)] @ b64_encode s)"

text \<open>The decoder reads four characters at a time; the padding may only end the text.\<close>

fun b64_decode :: "string \<Rightarrow> string option" where
  "b64_decode [] = Some []"
| "b64_decode (a # b # c # d # s) =
     (case (b64_val a, b64_val b) of
        (Some p, Some q) \<Rightarrow>
          (case b64_val c of
             None \<Rightarrow>
               if c = pad_char \<and> d = pad_char \<and> s = [] then Some [char_of (p * 4 + q div 16)] else None
           | Some r \<Rightarrow>
               (case b64_val d of
                  None \<Rightarrow>
                    if d = pad_char \<and> s = []
                    then Some [char_of (p * 4 + q div 16), char_of (q mod 16 * 16 + r div 4)] else None
                | Some t \<Rightarrow>
                    map_option (\<lambda>rest. char_of (p * 4 + q div 16) # char_of (q mod 16 * 16 + r div 4)
                      # char_of (r mod 4 * 64 + t) # rest) (b64_decode s)))
      | _ \<Rightarrow> None)"
| "b64_decode _ = None"

lemma b64_val_char: "n < 64 \<Longrightarrow> b64_val (b64_char n) = Some n"
  by (auto simp: b64_val_def b64_char_def Let_def)

lemma b64_val_pad [simp]: "b64_val pad_char = None"
  by (simp add: b64_val_def pad_char_def)

lemma byte_bounds: "x < 256 \<Longrightarrow> y < 256 \<Longrightarrow> x div 4 < 64 \<and> x mod 4 * 16 + y div 16 < 64 \<and> y mod 16 * 4 + z div 64 < 64 \<and> z mod 64 < 64"
  if "z < 256" for x y z :: nat
  using that by auto

lemma byte_back:
  fixes x y z :: nat
  assumes "x < 256" "y < 256" "z < 256"
  shows "x div 4 * 4 + (x mod 4 * 16 + y div 16) div 16 = x"
    and "(x mod 4 * 16 + y div 16) mod 16 * 16 + (y mod 16 * 4 + z div 64) div 4 = y"
    and "(y mod 16 * 4 + z div 64) mod 4 * 64 + z mod 64 = z"
proof -
  have b: "y div 16 < 16" "z div 64 < 4" using assms by auto
  have "(x mod 4 * 16 + y div 16) div 16 = x mod 4" "(x mod 4 * 16 + y div 16) mod 16 = y div 16"
    "(y mod 16 * 4 + z div 64) div 4 = y mod 16" "(y mod 16 * 4 + z div 64) mod 4 = z div 64"
    using b by simp_all
  then show "x div 4 * 4 + (x mod 4 * 16 + y div 16) div 16 = x"
    "(x mod 4 * 16 + y div 16) mod 16 * 16 + (y mod 16 * 4 + z div 64) div 4 = y"
    "(y mod 16 * 4 + z div 64) mod 4 * 64 + z mod 64 = z"
    by (simp_all add: div_mult_mod_eq)
qed

theorem b64_decode_encode: "b64_decode (b64_encode s) = Some s"
proof (induction s rule: b64_encode.induct)
  case (2 a)
  then show ?case using byte_bounds [of 0 "of_char a" 0] byte_back [of "of_char a" 0 0]
    by (simp add: b64_val_char Let_def)
next
  case (3 a b)
  then show ?case using byte_bounds [of 0 "of_char a" "of_char b"] byte_back [of "of_char a" "of_char b" 0]
    by (simp add: b64_val_char Let_def)
next
  case (4 a b c s)
  then show ?case
    using byte_bounds [of "of_char c" "of_char a" "of_char b"] byte_back [of "of_char a" "of_char b" "of_char c"]
    by (simp add: b64_val_char Let_def)
qed simp

definition is_b64 :: "char \<Rightarrow> bool" where
  "is_b64 c \<longleftrightarrow> b64_val c \<noteq> None \<or> c = pad_char"

lemma b64_encode_chars: "list_all is_b64 (b64_encode s)"
proof (induction s rule: b64_encode.induct)
  case (2 a)
  then show ?case using byte_bounds [of 0 "of_char a" 0] by (simp add: is_b64_def b64_val_char Let_def)
next
  case (3 a b)
  then show ?case using byte_bounds [of 0 "of_char a" "of_char b"] by (simp add: is_b64_def b64_val_char Let_def)
next
  case (4 a b c s)
  then show ?case using byte_bounds [of "of_char c" "of_char a" "of_char b"]
    by (simp add: is_b64_def b64_val_char Let_def)
qed simp

end
