(* ===== verification/ProxyApply.thy ===== *)
theory ProxyApply
  imports ProxyFiles Base64
begin

text \<open>
  \<open>internal/proxy/apply.go\<close>: planning and carrying out the changes inside a distribution. Every
  file is read and written by a shell script that runs in the guest; the runner is a parameter,
  a function from the distribution, the script and the time limit to what the script printed and
  whether it failed. What a shell makes of the three kinds of script is the locale
  \<open>guest_shell\<close>; a small shell that runs the scripts from their text, and that may die between
  any two commands, is its instance.
\<close>

section \<open>Changes\<close>

type_synonym 'w guest_run = "string \<Rightarrow> string \<Rightarrow> int \<Rightarrow> 'w \<Rightarrow> (string \<times> string option) \<times> 'w"

definition proxy_default_timeout :: int where "proxy_default_timeout = 60 * 10 ^ 9"

definition proxy_timeout :: "int \<Rightarrow> int" where
  "proxy_timeout t = (if t \<le> 0 then proxy_default_timeout else t)"

record change =
  c_file :: proxy_file
  c_before :: string
  c_after :: string
  c_existed :: bool
  c_removes :: bool

definition changed :: "change \<Rightarrow> bool" where
  "changed c \<longleftrightarrow> (if c_removes c then c_existed c else c_before c \<noteq> c_after c)"

section \<open>Scripts\<close>

definition absent_marker :: string where "absent_marker = ''__wslkit_absent__''"
definition heredoc_tag :: string where "heredoc_tag = ''WSLKIT_CONTENT_EOF''"

definition shell_quote :: "string \<Rightarrow> string" where
  "shell_quote s =
     [CHR 0x27] @ concat (map (\<lambda>c. if c = CHR 0x27 then [CHR 0x27, CHR 0x5C, CHR 0x27, CHR 0x27] else [c]) s)
       @ [CHR 0x27]"

definition linux_dir_of :: "string \<Rightarrow> string" where
  "linux_dir_of p =
     (case last_index (\<lambda>c. c = CHR ''/'') p of
        Some i \<Rightarrow> if i > 0 then take i p else ''/''
      | None \<Rightarrow> ''/'')"

definition strip_space :: "string \<Rightarrow> string" where
  "strip_space s = filter (\<lambda>c. c \<notin> {newline, carriage_return, CHR '' '', tab_char}) s"

definition read_script :: "string \<Rightarrow> string" where
  "read_script p =
     (let q = shell_quote p in
      ''if [ -f '' @ q @ '' ]; then base64 < '' @ q @ ''; else echo '' @ absent_marker @ ''; fi'' @ nl)"

function wrapped :: "string \<Rightarrow> string list" where
  "wrapped enc = (if length enc > 76 then take 76 enc # wrapped (drop 76 enc) else [enc])"
  by pat_completeness auto
termination by (relation "measure length") auto

declare wrapped.simps [simp del]

definition write_script :: "proxy_file \<Rightarrow> string \<Rightarrow> string" where
  "write_script f content =
     (let mode = (if f_mode f = [] then ''0644'' else f_mode f);
          q = shell_quote (f_path f);
          tmp = shell_quote (f_path f @ ''.wslkit-tmp'')
      in ''set -e'' @ nl @ ''mkdir -p '' @ shell_quote (linux_dir_of (f_path f)) @ nl
         @ ''base64 -d > '' @ tmp @ '' <<'' @ [CHR 0x27] @ heredoc_tag @ [CHR 0x27] @ nl
         @ concat (map (\<lambda>l. l @ nl) (wrapped (b64_encode content)))
         @ heredoc_tag @ nl @ ''chmod '' @ mode @ '' '' @ tmp @ nl
         @ ''mv -f '' @ tmp @ '' '' @ q @ nl)"

definition remove_script :: "proxy_file \<Rightarrow> string" where
  "remove_script f =
     ''rm -f '' @ shell_quote (f_path f) @ nl
     @ (if f_owns_dir f
        then ''rmdir '' @ shell_quote (linux_dir_of (f_path f)) @ '' 2>/dev/null || true'' @ nl else [])"

section \<open>Reading, planning, applying\<close>

definition guest_read :: "'w guest_run \<Rightarrow> string \<Rightarrow> string \<Rightarrow> int \<Rightarrow> 'w \<Rightarrow> (proxy_error + string option) \<times> 'w" where
  "guest_read run d path t w =
     (case run d (read_script path) t w of
        ((out, Some e), w1) \<Rightarrow> (Inl (ReadFailed path (trim_space out)), w1)
      | ((out, None), w1) \<Rightarrow>
          (let trimmed = trim_space out in
           if trimmed = absent_marker then (Inr None, w1)
           else
             (case b64_decode (strip_space trimmed) of
                None \<Rightarrow> (Inl (NotBase64 path), w1)
              | Some b \<Rightarrow> (Inr (Some b), w1))))"

definition content_of :: "string option \<Rightarrow> string" where
  "content_of c = (case c of Some s \<Rightarrow> s | None \<Rightarrow> [])"

definition apply_change :: "proxy_file \<Rightarrow> string option \<Rightarrow> change" where
  "apply_change f found =
     \<lparr>c_file = f, c_before = content_of found,
      c_after = (if f_whole f then f_content f else merge (content_of found) (f_content f)),
      c_existed = (found \<noteq> None), c_removes = False\<rparr>"

definition revert_change :: "proxy_file \<Rightarrow> string option \<Rightarrow> change list" where
  "revert_change f found =
     (case found of
        None \<Rightarrow> []
      | Some before \<Rightarrow>
          if f_whole f then [\<lparr>c_file = f, c_before = before, c_after = [], c_existed = True, c_removes = True\<rparr>]
          else
            (case unmerge before of (after, present) \<Rightarrow>
               if \<not> present then []
               else [\<lparr>c_file = f, c_before = before, c_after = after, c_existed = True, c_removes = False\<rparr>]))"

text \<open>The loop both plans share: read each file in turn, and stop at the first that cannot be read.\<close>

fun plan_files :: "'w guest_run \<Rightarrow> string \<Rightarrow> int \<Rightarrow> (proxy_file \<Rightarrow> string option \<Rightarrow> change list)
    \<Rightarrow> proxy_file list \<Rightarrow> 'w \<Rightarrow> (proxy_error + change list) \<times> 'w" where
  "plan_files run d t f [] w = (Inr [], w)"
| "plan_files run d t f (x # xs) w =
     (case guest_read run d (f_path x) t w of
        (Inl e, w1) \<Rightarrow> (Inl e, w1)
      | (Inr found, w1) \<Rightarrow>
          (case plan_files run d t f xs w1 of
             (Inl e, w2) \<Rightarrow> (Inl e, w2)
           | (Inr cs, w2) \<Rightarrow> (Inr (f x found @ cs), w2)))"

definition proxy_plan_apply :: "'w guest_run \<Rightarrow> string \<Rightarrow> proxy_settings \<Rightarrow> int \<Rightarrow> 'w \<Rightarrow> (proxy_error + change list) \<times> 'w" where
  "proxy_plan_apply run d s t w =
     (if files_for s = [] then (Inl NothingToApply, w)
      else plan_files run d (proxy_timeout t) (\<lambda>f found. [apply_change f found]) (files_for s) w)"

definition placeholder :: proxy_settings where
  "placeholder = \<lparr>s_http = ''http://placeholder:1'', s_https = ''http://placeholder:1'', s_no_proxy = [],
     s_pac_url = [], s_source = []\<rparr>"

definition proxy_plan_revert :: "'w guest_run \<Rightarrow> string \<Rightarrow> int \<Rightarrow> 'w \<Rightarrow> (proxy_error + change list) \<times> 'w" where
  "proxy_plan_revert run d t w = plan_files run d (proxy_timeout t) revert_change (files_for placeholder) w"

definition guest_write :: "'w guest_run \<Rightarrow> string \<Rightarrow> proxy_file \<Rightarrow> string \<Rightarrow> int \<Rightarrow> 'w \<Rightarrow> proxy_error option \<times> 'w" where
  "guest_write run d f content t w =
     (case run d (write_script f content) t w of
        ((out, Some e), w1) \<Rightarrow> (Some (WriteFailed (f_path f) (trim_space out)), w1)
      | ((out, None), w1) \<Rightarrow> (None, w1))"

fun proxy_apply_loop :: "'w guest_run \<Rightarrow> string \<Rightarrow> change list \<Rightarrow> int \<Rightarrow> 'w \<Rightarrow> proxy_error option \<times> 'w" where
  "proxy_apply_loop run d [] t w = (None, w)"
| "proxy_apply_loop run d (c # cs) t w =
     (if \<not> changed c then proxy_apply_loop run d cs t w
      else if c_removes c then
        (case run d (remove_script (c_file c)) t w of
           ((out, Some e), w1) \<Rightarrow> (Some (RemoveFailed (f_path (c_file c)) (trim_space out)), w1)
         | ((out, None), w1) \<Rightarrow> proxy_apply_loop run d cs t w1)
      else
        (case guest_write run d (c_file c) (c_after c) t w of
           (Some e, w1) \<Rightarrow> (Some e, w1)
         | (None, w1) \<Rightarrow> proxy_apply_loop run d cs t w1))"

definition proxy_apply :: "'w guest_run \<Rightarrow> string \<Rightarrow> change list \<Rightarrow> int \<Rightarrow> 'w \<Rightarrow> proxy_error option \<times> 'w" where
  "proxy_apply run d cs t w = proxy_apply_loop run d cs (proxy_timeout t) w"

section \<open>Reaching the host\<close>

datatype reach = Reachable | Blocked | Untested | NotAnAddress | TestFailed

definition reach_script :: "string \<Rightarrow> string \<Rightarrow> string" where
  "reach_script host port =
     concat (map (\<lambda>l. l @ nl)
       [[], ''if command -v nc >/dev/null 2>&1; then'',
        ''  nc -z -w 3 '' @ shell_quote host @ '' '' @ shell_quote port @ '' >/dev/null 2>&1 && echo reachable || echo blocked'',
        ''elif command -v curl >/dev/null 2>&1; then'',
        ''  curl -s -m 3 -o /dev/null telnet://'' @ host @ '':'' @ port @ '' && echo reachable || echo blocked'',
        ''elif [ -n '' @ [CHR 0x22] @ ''$BASH_VERSION'' @ [CHR 0x22] @ '' ] || command -v bash >/dev/null 2>&1; then'',
        ''  bash -c '' @ [CHR 0x27] @ ''exec 3<>/dev/tcp/'' @ host @ ''/'' @ port @ [CHR 0x27]
          @ '' >/dev/null 2>&1 && echo reachable || echo blocked'',
        ''else'', ''  echo unknown'', ''fi''])"

definition check_reachable :: "'w guest_run \<Rightarrow> string \<Rightarrow> string \<Rightarrow> int \<Rightarrow> 'w \<Rightarrow> reach \<times> 'w" where
  "check_reachable run d host_port t w =
     (case split_host_port host_port of
        None \<Rightarrow> (NotAnAddress, w)
      | Some (host, port) \<Rightarrow>
          (case run d (reach_script host port) (proxy_timeout t) w of
             ((out, Some e), w1) \<Rightarrow> (TestFailed, w1)
           | ((out, None), w1) \<Rightarrow>
               (if trim_space out = ''reachable'' then Reachable
                else if trim_space out = ''blocked'' then Blocked else Untested, w1)))"

definition firewall_rule :: "nat \<Rightarrow> string \<Rightarrow> string" where
  "firewall_rule port subnet =
     ''netsh advfirewall firewall add rule name='' @ [CHR 0x22] @ ''wslkit proxy'' @ [CHR 0x22]
     @ '' dir=in action=allow protocol=TCP localport='' @ format_uint port
     @ '' remoteip='' @ (if subnet = [] then ''172.16.0.0/12'' else subnet)"

section \<open>What a guest does with the scripts\<close>

definition agree :: "string set \<Rightarrow> (string \<Rightarrow> string option) \<Rightarrow> (string \<Rightarrow> string option) \<Rightarrow> bool" where
  "agree K a b \<longleftrightarrow> (\<forall>p \<in> K. a p = b p)"

lemma agree_refl [simp]: "agree K a a"
  by (simp add: agree_def)

lemma agree_trans: "agree K a b \<Longrightarrow> agree K b c \<Longrightarrow> agree K a c"
  by (simp add: agree_def)

lemma agree_upd: "agree K a b \<Longrightarrow> agree K (a(p := v)) (b(p := v))"
  by (simp add: agree_def)

text \<open>The files the scripts are for: their paths are in \<open>K\<close> and their mode is a number.\<close>

definition usable :: "string set \<Rightarrow> proxy_file \<Rightarrow> bool" where
  "usable K f \<longleftrightarrow> f_path f \<in> K \<and> list_all is_digit (f_mode f)"

lemma usableD: "usable K f \<Longrightarrow> f_path f \<in> K"
  by (simp add: usable_def)

text \<open>The scripts for a set of paths in one distribution: reading prints the content, however
  it is broken into lines, or the marker, and changes nothing; writing and removing take effect
  when they succeed and otherwise either have taken effect or not.\<close>

locale guest_shell =
  fixes run :: "'w guest_run" and d :: string and files :: "'w \<Rightarrow> string \<Rightarrow> string option" and K :: "string set"
  assumes read_prints: "p \<in> K \<Longrightarrow> run d (read_script p) t w = ((out, None), w1) \<Longrightarrow>
      (case files w p of
         None \<Rightarrow> trim_space out = absent_marker
       | Some c \<Rightarrow> strip_space (trim_space out) = b64_encode c)"
    and read_keeps: "p \<in> K \<Longrightarrow> run d (read_script p) t w = (r, w1) \<Longrightarrow> agree K (files w1) (files w)"
    and write_takes: "usable K f \<Longrightarrow> run d (write_script f c) t w = ((out, e), w1) \<Longrightarrow>
      agree K (files w1) ((files w)(f_path f \<mapsto> c)) \<or> e \<noteq> None \<and> agree K (files w1) (files w)"
    and remove_takes: "usable K f \<Longrightarrow> run d (remove_script f) t w = ((out, e), w1) \<Longrightarrow>
      agree K (files w1) ((files w)(f_path f := None)) \<or> e \<noteq> None \<and> agree K (files w1) (files w)"

definition planned_content :: "change \<Rightarrow> string option \<Rightarrow> string option" where
  "planned_content c old = (if \<not> changed c then old else if c_removes c then None else Some (c_after c))"

definition carried_out :: "change list \<Rightarrow> (string \<Rightarrow> string option) \<Rightarrow> string \<Rightarrow> string option" where
  "carried_out cs fs = foldl (\<lambda>fs c. fs(f_path (c_file c) := planned_content c (fs (f_path (c_file c))))) fs cs"

lemma carried_out_Cons: "carried_out (c # cs) fs
    = carried_out cs (fs(f_path (c_file c) := planned_content c (fs (f_path (c_file c)))))"
  by (simp add: carried_out_def)

lemma carried_out_cong: "agree K a b \<Longrightarrow> (\<And>c. c \<in> set cs \<Longrightarrow> f_path (c_file c) \<in> K) \<Longrightarrow>
    agree K (carried_out cs a) (carried_out cs b)"
  by (induction cs arbitrary: a b) (simp add: carried_out_def, simp add: carried_out_Cons agree_def)

lemma absent_not_b64: "strip_space absent_marker \<noteq> b64_encode c"
proof
  assume eq: "strip_space absent_marker = b64_encode c"
  have "CHR ''_'' \<in> set (strip_space absent_marker)"
    by (simp add: strip_space_def absent_marker_def newline_def carriage_return_def tab_char_def)
  moreover have "\<not> is_b64 CHR ''_''"
    by (simp add: is_b64_def b64_val_def pad_char_def)
  ultimately show False using b64_encode_chars [of c] by (auto simp: eq list_all_iff)
qed

context guest_shell
begin

lemma guest_read_files:
  assumes "p \<in> K" and "guest_read run d p t w = (r, w1)"
  shows "agree K (files w1) (files w)" and "r = Inr found \<Longrightarrow> found = files w p"
    and "r \<noteq> Inl (NotBase64 p)"
proof -
  obtain out e w2 where r: "run d (read_script p) t w = ((out, e), w2)" by (metis surj_pair)
  have w1: "w1 = w2" using assms(2) r
    by (auto simp: guest_read_def Let_def split: option.splits if_splits)
  show "agree K (files w1) (files w)" using read_keeps [OF assms(1) r] w1 by simp
  have strip: "\<And>c. strip_space (trim_space out) = b64_encode c \<Longrightarrow> trim_space out \<noteq> absent_marker"
    using absent_not_b64 by metis
  show "r = Inr found \<Longrightarrow> found = files w p" "r \<noteq> Inl (NotBase64 p)"
    using assms(2) r read_prints [OF assms(1), of t w out w2] strip
    by (auto simp: guest_read_def Let_def b64_decode_encode split: option.splits if_splits)
qed

lemma plan_files_files:
  assumes "plan_files run d t f xs w = (r, w1)" and "f_path ` set xs \<subseteq> K"
  shows "agree K (files w1) (files w) \<and>
     (\<forall>cs. r = Inr cs \<longrightarrow> cs = concat (map (\<lambda>x. f x (files w (f_path x))) xs))"
  using assms
proof (induction xs arbitrary: w r w1)
  case (Cons x xs)
  have x: "f_path x \<in> K" and xs: "f_path ` set xs \<subseteq> K" using Cons.prems(2) by auto
  obtain r2 w2 where g: "guest_read run d (f_path x) t w = (r2, w2)" by fastforce
  note gr = guest_read_files [OF x g]
  show ?case
  proof (cases r2)
    case (Inl e)
    then show ?thesis using Cons.prems(1) g gr(1) by auto
  next
    case (Inr found)
    obtain r3 w3 where p: "plan_files run d t f xs w2 = (r3, w3)" by fastforce
    have "files w2 (f_path y) = files w (f_path y)" if "y \<in> set xs" for y
      using gr(1) xs that by (auto simp: agree_def)
    then have "concat (map (\<lambda>y. f y (files w2 (f_path y))) xs) = concat (map (\<lambda>y. f y (files w (f_path y))) xs)"
      by (intro arg_cong [where f = concat]) simp
    then show ?thesis using Cons.prems(1) g Inr p gr(1) gr(2) [OF Inr] Cons.IH [OF p xs]
      by (cases r3) (auto intro: agree_trans)
  qed
qed simp

lemma apply_step:
  assumes "usable K (c_file c)" and "changed c"
    and "(if c_removes c then run d (remove_script (c_file c)) t w
          else run d (write_script (c_file c) (c_after c)) t w) = ((out, e), w1)"
  shows "agree K (files w1) (carried_out [c] (files w)) \<or> e \<noteq> None \<and> agree K (files w1) (files w)"
  using assms write_takes [of "c_file c" "c_after c" t w out e w1] remove_takes [of "c_file c" t w out e w1]
  by (auto simp: carried_out_def planned_content_def split: if_splits)

lemma apply_loop_files:
  assumes "proxy_apply_loop run d cs t w = (e, w1)" and "\<And>c. c \<in> set cs \<Longrightarrow> usable K (c_file c)"
  shows "\<exists>n \<le> length cs. (e = None \<longrightarrow> n = length cs)
           \<and> agree K (files w1) (carried_out (take n cs) (files w))"
  using assms
proof (induction cs arbitrary: w)
  case (Cons c cs)
  have IH: "\<exists>n \<le> length (c # cs). (e = None \<longrightarrow> n = length (c # cs))
           \<and> agree K (files w1) (carried_out (take n (c # cs)) (files w))"
    if l: "proxy_apply_loop run d cs t w2 = (e, w1)" and a: "agree K (files w2) (carried_out [c] (files w))" for w2
  proof -
    obtain n where n: "n \<le> length cs" "e = None \<longrightarrow> n = length cs"
        "agree K (files w1) (carried_out (take n cs) (files w2))"
      using Cons.IH [OF l] Cons.prems(2) by auto
    have "agree K (carried_out (take n cs) (files w2)) (carried_out (take n cs) (carried_out [c] (files w)))"
      by (rule carried_out_cong [OF a]) (use Cons.prems(2) in \<open>auto dest: in_set_takeD intro: usableD\<close>)
    then have "agree K (files w1) (carried_out (take (Suc n) (c # cs)) (files w))"
      using n(3) by (auto simp: carried_out_def intro: agree_trans)
    then show ?thesis using n by (intro exI [of _ "Suc n"]) auto
  qed
  show ?case
  proof (cases "changed c")
    case False
    then have "carried_out [c] (files w) = files w" by (simp add: carried_out_def planned_content_def)
    then show ?thesis using IH [of w] Cons.prems(1) False by simp
  next
    case True
    obtain out e2 w2 where s: "(if c_removes c then run d (remove_script (c_file c)) t w
        else run d (write_script (c_file c) (c_after c)) t w) = ((out, e2), w2)" by (metis surj_pair)
    note step = apply_step [OF _ True s] Cons.prems(2) [of c]
    show ?thesis
    proof (cases e2)
      case None
      then have "proxy_apply_loop run d cs t w2 = (e, w1)"
        using Cons.prems(1) True s by (auto simp: guest_write_def split: if_splits)
      then show ?thesis using IH [of w2] step None by simp
    next
      case (Some x)
      then have "w1 = w2" "e \<noteq> None"
        using Cons.prems(1) True s by (auto simp: guest_write_def split: if_splits)
      moreover have "carried_out (take 0 (c # cs)) (files w) = files w" "take 1 (c # cs) = [c]"
        by (simp_all add: carried_out_def)
      ultimately show ?thesis using step by (metis One_nat_def Suc_leI le0 length_greater_0_conv list.discI list.set_intros(1))
    qed
  qed
qed (simp add: carried_out_def)

end

section \<open>Applying and taking back\<close>

definition environment_file :: string where "environment_file = ''/etc/environment''"

definition proxy_paths :: "string list" where
  "proxy_paths = [env_file, environment_file, ''/etc/profile.d/99-wslkit-proxy.sh'',
     ''/etc/apt/apt.conf.d/99wslkit-proxy'', ''/etc/systemd/system.conf.d/wslkit-proxy.conf'']"

lemma files_for_facts:
  assumes "\<not> settings_empty s"
  shows "map f_path (files_for s) = proxy_paths"
    and "f \<in> set (files_for s) \<Longrightarrow> f_whole f \<longleftrightarrow> f_path f \<noteq> environment_file"
    and "f \<in> set (files_for s) \<Longrightarrow> f_whole f \<Longrightarrow> f_content f \<noteq> []"
    and "f \<in> set (files_for s) \<Longrightarrow> \<not> f_whole f \<Longrightarrow> f_content f = env_block (settings_env s)"
  using assms by (auto simp: files_for_def Let_def proxy_paths_def environment_file_def env_file_def)

lemma distinct_proxy_paths: "distinct proxy_paths"
  by (simp add: proxy_paths_def environment_file_def env_file_def)

lemma placeholder_nonempty: "\<not> settings_empty placeholder"
  by (simp add: settings_empty_def placeholder_def)

definition act :: "change list \<Rightarrow> string option \<Rightarrow> string option" where
  "act cs old = (case cs of [] \<Rightarrow> old | c # _ \<Rightarrow> planned_content c old)"

lemma act_simps [simp]: "act [] old = old" "act (c # cs) old = planned_content c old"
  by (simp_all add: act_def)

text \<open>A plan that has at most one change for each file acts on each file on its own.\<close>

lemma carried_out_each:
  assumes "distinct (map f_path xs)"
    and "\<And>x. x \<in> set xs \<Longrightarrow> g x = [] \<or> (\<exists>c. g x = [c] \<and> c_file c = x)"
  shows "x \<in> set xs \<Longrightarrow> carried_out (concat (map g xs)) fs (f_path x)
      = act (g x) (fs (f_path x))"
    and "p \<notin> f_path ` set xs \<Longrightarrow> carried_out (concat (map g xs)) fs p = fs p"
proof -
  have "(\<forall>x \<in> set xs. carried_out (concat (map g xs)) fs (f_path x)
      = act (g x) (fs (f_path x)))
    \<and> (\<forall>p. p \<notin> f_path ` set xs \<longrightarrow> carried_out (concat (map g xs)) fs p = fs p)"
    using assms
  proof (induction xs arbitrary: fs)
    case Nil then show ?case by (simp add: carried_out_def)
  next
    case (Cons y xs)
    have IH: "(\<forall>x \<in> set xs. carried_out (concat (map g xs)) fs' (f_path x)
        = act (g x) (fs' (f_path x)))
      \<and> (\<forall>p. p \<notin> f_path ` set xs \<longrightarrow> carried_out (concat (map g xs)) fs' p = fs' p)" for fs'
      using Cons.IH [of fs'] Cons.prems by simp
    have y: "f_path y \<notin> f_path ` set xs" using Cons.prems(1) by simp
    from Cons.prems(2) [of y] consider "g y = []" | c where "g y = [c]" "c_file c = y" by auto
    then show ?case
    proof cases
      case 1
      then show ?thesis using IH [of fs] y by auto
    next
      case 2
      have "f_path x \<noteq> f_path y" if "x \<in> set xs" for x using y that by (metis image_eqI)
      then show ?thesis using 2 y IH [of "fs(f_path y := planned_content c (fs (f_path y)))"]
        by (simp add: carried_out_Cons)
    qed
  qed
  then show "x \<in> set xs \<Longrightarrow> carried_out (concat (map g xs)) fs (f_path x)
      = act (g x) (fs (f_path x))"
    "p \<notin> f_path ` set xs \<Longrightarrow> carried_out (concat (map g xs)) fs p = fs p" by blast+
qed

lemma merged_contains_marker: "contains (merge e b) begin_marker"
proof -
  have "contains (x @ managed b @ z) begin_marker" for x z
    unfolding managed_def append.assoc by (rule contains_append)
  from this [of _ "[]"] this show ?thesis by (auto simp: merge_def split: prod.splits)
qed

lemma apply_changed:
  assumes "\<not> settings_empty s" and "f \<in> set (files_for s)"
    and "if f_whole f then found = None else \<not> contains (content_of found) begin_marker"
  shows "planned_content (apply_change f found) found
      = Some (if f_whole f then f_content f else merge (content_of found) (f_content f))"
proof (cases "f_whole f")
  case True
  then show ?thesis using assms files_for_facts(3) [OF assms(1,2)]
    by (simp add: planned_content_def changed_def apply_change_def content_of_def)
next
  case False
  then have "content_of found \<noteq> merge (content_of found) (f_content f)"
    using assms(3) merged_contains_marker by metis
  then show ?thesis using False by (simp add: planned_content_def changed_def apply_change_def)
qed

definition fresh_proxy_files :: "(string \<Rightarrow> string option) \<Rightarrow> bool" where
  "fresh_proxy_files fs \<longleftrightarrow>
     (\<forall>p \<in> set proxy_paths - {environment_file}. fs p = None)
     \<and> \<not> contains (content_of (fs environment_file)) begin_marker"

definition after_apply :: "proxy_file \<Rightarrow> string option \<Rightarrow> string option" where
  "after_apply f found = Some (if f_whole f then f_content f else merge (content_of found) (f_content f))"

definition after_revert :: "proxy_file \<Rightarrow> string option \<Rightarrow> string option" where
  "after_revert f found = act (revert_change f found) found"

lemma fresh_at:
  assumes "fresh_proxy_files fs" and "\<not> settings_empty s" and "f \<in> set (files_for s)"
  shows "if f_whole f then fs (f_path f) = None else \<not> contains (content_of (fs (f_path f))) begin_marker"
proof -
  have "f_path f \<in> set proxy_paths" using files_for_facts(1) [OF assms(2)] assms(3) by (metis image_eqI list.set_map)
  then show ?thesis using assms(1) files_for_facts(2) [OF assms(2,3)] by (auto simp: fresh_proxy_files_def)
qed

lemma paths_of_files: "\<not> settings_empty s \<Longrightarrow> f_path ` set (files_for s) = set proxy_paths"
  by (metis files_for_facts(1) list.set_map)

lemma distinct_files: "\<not> settings_empty s \<Longrightarrow> distinct (map f_path (files_for s))"
  by (simp add: files_for_facts(1) distinct_proxy_paths)

lemma files_usable:
  "\<not> settings_empty s \<Longrightarrow> set proxy_paths \<subseteq> K \<Longrightarrow> f \<in> set (files_for s) \<Longrightarrow> usable K f"
  by (auto simp: files_for_def Let_def proxy_paths_def environment_file_def usable_def is_digit_def)

lemma revert_change_one: "revert_change x found = [] \<or> (\<exists>c. revert_change x found = [c] \<and> c_file c = x)"
  by (auto simp: revert_change_def split: option.splits prod.splits)

text \<open>What the two changes to one file come to.\<close>

lemma reverted_whole:
  "f_whole r \<Longrightarrow> after_revert r (Some x) = None" "after_revert r None = None"
  by (simp_all add: after_revert_def revert_change_def planned_content_def changed_def)

lemma reverted_block:
  assumes "\<not> f_whole r" and "\<not> contains e begin_marker" and "\<not> contains b end_marker"
  shows "after_revert r (Some (merge e b)) = Some (with_final_newline e)"
proof -
  have "with_final_newline e \<noteq> merge e b"
    using merged_contains_marker [of e b] contains_with_final_newline [of begin_marker e] assms(2)
    by (metis marker_facts(1,2))
  then show ?thesis using assms(1) merge_merge(2) [OF assms(2,3)]
    by (simp add: after_revert_def revert_change_def planned_content_def changed_def)
qed

context guest_shell
begin

lemma loop_effect:
  assumes plan: "plan_files run d t f xs w = (Inr cs, w1)" and ap: "proxy_apply_loop run d cs t w1 = (None, w2)"
    and use: "\<forall>x \<in> set xs. usable K x" and dist: "distinct (map f_path xs)"
    and one: "\<And>x found. f x found = [] \<or> (\<exists>c. f x found = [c] \<and> c_file c = x)"
  shows "x \<in> set xs \<Longrightarrow> files w2 (f_path x)
      = act (f x (files w (f_path x))) (files w (f_path x))"
    and "p \<in> K \<Longrightarrow> p \<notin> f_path ` set xs \<Longrightarrow> files w2 p = files w p"
proof -
  have K: "f_path ` set xs \<subseteq> K" using use usableD by auto
  define g where "g = (\<lambda>x. f x (files w (f_path x)))"
  have cs: "agree K (files w1) (files w)" "cs = concat (map g xs)"
    using plan_files_files [OF plan K] by (simp_all add: g_def)
  have g: "g x = [] \<or> (\<exists>c. g x = [c] \<and> c_file c = x)" for x using one by (simp add: g_def)
  have c_use: "usable K (c_file c)" if c: "c \<in> set cs" for c
  proof -
    obtain x where x: "x \<in> set xs" "c \<in> set (g x)" using c cs(2) by auto
    then have "c_file c = x" using g [of x] by auto
    then show ?thesis using x(1) use by auto
  qed
  have c_in: "\<And>c. c \<in> set cs \<Longrightarrow> f_path (c_file c) \<in> K" using c_use usableD by blast
  have w2: "agree K (files w2) (carried_out cs (files w))"
    using apply_loop_files [OF ap c_use] carried_out_cong [OF cs(1) c_in] by (auto intro: agree_trans)
  show "files w2 (f_path x) = act (f x (files w (f_path x))) (files w (f_path x))" if "x \<in> set xs"
    using w2 carried_out_each(1) [OF dist g that, of "files w"] K that
    by (auto simp: agree_def cs(2) g_def)
  show "files w2 p = files w p" if "p \<in> K" "p \<notin> f_path ` set xs"
    using w2 carried_out_each(2) [OF dist g that(2), of "files w"] that(1) by (auto simp: agree_def cs(2))
qed

lemma apply_effect:
  assumes K: "set proxy_paths \<subseteq> K" and s: "\<not> settings_empty s" and fresh: "fresh_proxy_files (files w)"
    and plan: "proxy_plan_apply run d s t w = (Inr cs, w1)" and ap: "proxy_apply run d cs t w1 = (None, w2)"
  shows "f \<in> set (files_for s) \<Longrightarrow> files w2 (f_path f) = after_apply f (files w (f_path f))"
    and "p \<in> K \<Longrightarrow> p \<notin> set proxy_paths \<Longrightarrow> files w2 p = files w p"
proof -
  have pf: "plan_files run d (proxy_timeout t) (\<lambda>f found. [apply_change f found]) (files_for s) w = (Inr cs, w1)"
    using plan by (auto simp: proxy_plan_apply_def split: if_splits)
  have use: "\<forall>f \<in> set (files_for s). usable K f" using files_usable [OF s K] by blast
  note eff = loop_effect [OF pf ap [unfolded proxy_apply_def] use distinct_files [OF s], unfolded paths_of_files [OF s]]
  show "files w2 (f_path f) = after_apply f (files w (f_path f))" if "f \<in> set (files_for s)"
    using eff(1) [OF _ that] apply_changed [OF s that fresh_at [OF fresh s that]]
    by (simp add: after_apply_def apply_change_def)
  show "p \<in> K \<Longrightarrow> p \<notin> set proxy_paths \<Longrightarrow> files w2 p = files w p"
    using eff(2) by (simp add: apply_change_def)
qed

lemma revert_effect:
  assumes K: "set proxy_paths \<subseteq> K"
    and plan: "proxy_plan_revert run d t w = (Inr cs, w1)" and ap: "proxy_apply run d cs t w1 = (None, w2)"
  shows "f \<in> set (files_for placeholder) \<Longrightarrow> files w2 (f_path f) = after_revert f (files w (f_path f))"
    and "p \<in> K \<Longrightarrow> p \<notin> set proxy_paths \<Longrightarrow> files w2 p = files w p"
proof -
  have use: "\<forall>f \<in> set (files_for placeholder). usable K f"
    using files_usable [OF placeholder_nonempty K] by blast
  note eff = loop_effect [OF plan [unfolded proxy_plan_revert_def] ap [unfolded proxy_apply_def] use
      distinct_files [OF placeholder_nonempty] revert_change_one, unfolded paths_of_files [OF placeholder_nonempty]]
  show "f \<in> set (files_for placeholder) \<Longrightarrow> files w2 (f_path f) = after_revert f (files w (f_path f))"
    "p \<in> K \<Longrightarrow> p \<notin> set proxy_paths \<Longrightarrow> files w2 p = files w p"
    using eff by (simp_all add: after_revert_def)
qed

lemma apply_then_revert:
  assumes K: "set proxy_paths \<subseteq> K" and s: "\<not> settings_empty s" "plain_settings s"
    and fresh: "fresh_proxy_files (files w)"
    and ap: "proxy_plan_apply run d s t w = (Inr cs, w1)" "proxy_apply run d cs t w1 = (None, w2)"
    and rv: "proxy_plan_revert run d t w2 = (Inr cs', w3)" "proxy_apply run d cs' t w3 = (None, w4)"
    and p: "p \<in> K"
  shows "files w4 p = (if p = environment_file
     then Some (with_final_newline (content_of (files w environment_file))) else files w p)"
proof (cases "p \<in> set proxy_paths")
  case False
  moreover have "p \<noteq> environment_file" using False by (auto simp: proxy_paths_def)
  ultimately show ?thesis using apply_effect(2) [OF K s(1) fresh ap p] revert_effect(2) [OF K rv p] by simp
next
  case True
  obtain f where f: "f \<in> set (files_for s)" "f_path f = p"
    using True paths_of_files [OF s(1)] by (metis imageE)
  obtain r where r: "r \<in> set (files_for placeholder)" "f_path r = p"
    using True paths_of_files [OF placeholder_nonempty] by (metis imageE)
  note whole = files_for_facts(2) [OF s(1) f(1)] files_for_facts(2) [OF placeholder_nonempty r(1)]
  have 4: "files w4 p = after_revert r (after_apply f (files w p))"
    using revert_effect(1) [OF K rv r(1)] apply_effect(1) [OF K s(1) fresh ap f(1)] f(2) r(2) by simp
  show ?thesis
  proof (cases "p = environment_file")
    case False
    then show ?thesis using 4 whole fresh True f(2) r(2) by (simp add: after_apply_def reverted_whole fresh_proxy_files_def)
  next
    case env: True
    then show ?thesis
      using 4 whole fresh f(2) r(2) files_for_facts(4) [OF s(1) f(1)]
        reverted_block [OF _ _ env_block_plain [OF s(2)], of r "content_of (files w p)"]
      by (simp add: after_apply_def fresh_proxy_files_def)
  qed
qed

end

end
