(* ===== verification/GuestShell.thy ===== *)
theory GuestShell
  imports ProxyApply
begin

text \<open>
  A small shell to run the scripts of \<open>ProxyApply\<close> on: it breaks a script into lines, a line into
  words with the quoting rules of \<open>/bin/sh\<close>, and knows the commands the scripts use. It may die
  after any number of commands. It is the instance of \<open>guest_shell\<close>: what the laws promise
  follows from the text of the scripts, whatever characters but line breaks a path holds. The
  last section states what applying and reverting do for every guest that keeps the laws.
\<close>

section \<open>Words\<close>

text \<open>The words of a line: whether inside quotes, the word so far, and whether there is one.\<close>

fun shell_words :: "bool \<Rightarrow> string \<Rightarrow> bool \<Rightarrow> string \<Rightarrow> string list" where
  "shell_words q cur st [] = (if st then [cur] else [])"
| "shell_words True cur st (c # s) =
     (if c = CHR 0x27 then shell_words False cur True s else shell_words True (cur @ [c]) True s)"
| "shell_words False cur st (c # s) =
     (if c = CHR 0x27 then shell_words True cur True s
      else if c = CHR 0x5C then
        (case s of [] \<Rightarrow> [cur @ [c]] | x # r \<Rightarrow> shell_words False (cur @ [x]) True r)
      else if c = CHR '' '' then
        (if st then cur # shell_words False [] False s else shell_words False [] False s)
      else shell_words False (cur @ [c]) True s)"

definition words_of :: "string \<Rightarrow> string list" where
  "words_of l = shell_words False [] False l"

definition quote_body :: "string \<Rightarrow> string" where
  "quote_body s = concat (map (\<lambda>c. if c = CHR 0x27 then [CHR 0x27, CHR 0x5C, CHR 0x27, CHR 0x27] else [c]) s)"

lemma shell_words_body:
  "shell_words True cur True (quote_body p @ CHR 0x27 # s) = shell_words False (cur @ p) True s"
  by (induction p arbitrary: cur) (auto simp: quote_body_def)

text \<open>A quoted value is one word, or the part of one, and comes out as it went in.\<close>

lemma shell_words_quote [simp]:
  "shell_words False cur st (shell_quote p @ s) = shell_words False (cur @ p) True s"
  "shell_words False cur st (shell_quote p) = [cur @ p]"
  using shell_words_body [of cur p s] shell_words_body [of cur p "[]"]
  by (simp_all add: shell_quote_def quote_body_def)

lemma shell_words_plain:
  "list_all is_digit m \<Longrightarrow> m \<noteq> [] \<Longrightarrow> shell_words False cur st (m @ s) = shell_words False (cur @ m) True s"
proof (induction m arbitrary: cur st)
  case (Cons c m)
  then have "c \<noteq> CHR 0x27" "c \<noteq> CHR 0x5C" "c \<noteq> CHR '' ''" by (auto simp: is_digit_def)
  then show ?case using Cons by (cases m) simp_all
qed simp

section \<open>Running a script\<close>

type_synonym guest_files = "string \<Rightarrow> string option"

definition encoded_lines :: "string \<Rightarrow> string" where
  "encoded_lines c = concat (map (\<lambda>l. l @ nl) (wrapped (b64_encode c)))"

fun run_lines :: "nat \<Rightarrow> string list \<Rightarrow> guest_files \<Rightarrow> (string \<times> string option) \<times> guest_files" where
  "run_lines n [] fs = (([], None), fs)"
| "run_lines 0 (l # ls) fs = (([], Some ''killed''), fs)"
| "run_lines (Suc n) (l # ls) fs =
     (let ws = words_of l in
      if ws = [] \<or> hd ws \<in> {''set'', ''mkdir'', ''chmod'', ''rmdir''} then run_lines n ls fs
      else if length ws = 5 \<and> take 3 ws = [''base64'', ''-d'', ''>''] then
        (let body = takeWhile (\<lambda>x. x \<noteq> drop 2 (ws ! 4)) ls in
         case b64_decode (concat body) of
           None \<Rightarrow> (([], Some ''base64: invalid input''), fs)
         | Some c \<Rightarrow> run_lines n (drop (length body + 1) ls) (fs(ws ! 3 \<mapsto> c)))
      else if length ws = 4 \<and> take 2 ws = [''mv'', ''-f''] then
        (case fs (ws ! 2) of
           None \<Rightarrow> (([], Some ''mv: cannot stat''), fs)
         | Some c \<Rightarrow> run_lines n ls (fs(ws ! 2 := None, ws ! 3 \<mapsto> c)))
      else if length ws = 3 \<and> take 2 ws = [''rm'', ''-f''] then run_lines n ls (fs(ws ! 2 := None))
      else if length ws = 13 \<and> take 3 ws = [''if'', ''['', ''-f''] then
        (case run_lines n ls fs of
           ((out, e), fs') \<Rightarrow>
             (((case fs (ws ! 3) of
                  Some c \<Rightarrow> encoded_lines c
                | None \<Rightarrow> butlast (ws ! 11) @ nl) @ out, e), fs'))
      else (([], Some ''not found''), fs))"

record guest =
  g_files :: guest_files
  g_dies :: "nat option list"    \<comment> \<open>for each script, after how many commands the guest dies\<close>

definition run_guest :: "guest guest_run" where
  "run_guest d script t w =
     (let n = (case g_dies w of Some k # _ \<Rightarrow> k | _ \<Rightarrow> length script);
          (r, fs) = run_lines n (split_on newline script) (g_files w)
      in (r, w\<lparr>g_files := fs, g_dies := tl (g_dies w)\<rparr>))"

section \<open>The scripts as lines\<close>

lemma split_lines_script:
  "list_all (\<lambda>l. newline \<notin> set l) ls \<Longrightarrow> split_on newline (concat (map (\<lambda>l. l @ nl) ls)) = ls @ [[]]"
  by (induction ls) (simp_all add: split_on_append)

lemma shell_quote_no_newline: "newline \<notin> set p \<Longrightarrow> newline \<notin> set (shell_quote p)"
  by (auto simp: shell_quote_def newline_def)

lemma b64_no_newline: "newline \<notin> set (b64_encode c)"
proof
  assume "newline \<in> set (b64_encode c)"
  then have "is_b64 newline" using b64_encode_chars [of c] by (auto simp: list_all_iff)
  then show False by (simp add: is_b64_def b64_val_def newline_def pad_char_def)
qed

lemma concat_wrapped: "concat (wrapped e) = e"
proof (induction e rule: wrapped.induct)
  case (1 e)
  then show ?case by (subst wrapped.simps) simp
qed

lemma wrapped_in: "l \<in> set (wrapped e) \<Longrightarrow> set l \<subseteq> set e"
  by (metis concat_wrapped UN_upper set_concat)

lemma linux_dir_no_newline: "newline \<notin> set p \<Longrightarrow> newline \<notin> set (linux_dir_of p)"
  by (auto simp: linux_dir_of_def newline_def split: option.splits dest: in_set_takeD)

definition plain_paths :: "string set" where
  "plain_paths = {p. newline \<notin> set p \<and> \<not> has_suffix p ''.wslkit-tmp''}"

lemma read_words:
  "words_of (''if [ -f '' @ shell_quote p @ '' ]; then base64 < '' @ shell_quote p @ ''; else echo '' @ absent_marker @ ''; fi'')
    = [''if'', ''['', ''-f'', p, ''];'', ''then'', ''base64'', ''<'', p @ '';'', ''else'', ''echo'',
       absent_marker @ '';'', ''fi'']"
  by (simp add: words_of_def absent_marker_def)

lemma write_words:
  "words_of ''set -e'' = [''set'', ''-e'']"
  "words_of (''mkdir -p '' @ shell_quote p) = [''mkdir'', ''-p'', p]"
  "words_of (''base64 -d > '' @ shell_quote p @ '' <<'' @ [CHR 0x27] @ heredoc_tag @ [CHR 0x27])
     = [''base64'', ''-d'', ''>'', p, ''<<'' @ heredoc_tag]"
  "list_all is_digit m \<Longrightarrow> m \<noteq> [] \<Longrightarrow> words_of (''chmod '' @ m @ '' '' @ shell_quote p) = [''chmod'', m, p]"
  "words_of (''mv -f '' @ shell_quote p @ '' '' @ shell_quote q) = [''mv'', ''-f'', p, q]"
  "words_of (''rm -f '' @ shell_quote p) = [''rm'', ''-f'', p]"
  "words_of (''rmdir '' @ shell_quote p @ '' 2>/dev/null || true'')
     = [''rmdir'', p, ''2>/dev/null'', ''||'', ''true'']"
  "words_of [] = []"
  by (simp_all add: words_of_def heredoc_tag_def shell_words_plain)

text \<open>The text of a script that writes a file.\<close>

definition file_mode :: "proxy_file \<Rightarrow> string" where
  "file_mode f = (if f_mode f = [] then ''0644'' else f_mode f)"

definition temp_of :: "proxy_file \<Rightarrow> string" where
  "temp_of f = f_path f @ ''.wslkit-tmp''"

definition write_lines :: "proxy_file \<Rightarrow> string \<Rightarrow> string list" where
  "write_lines f c =
     [''set -e'', ''mkdir -p '' @ shell_quote (linux_dir_of (f_path f)),
      ''base64 -d > '' @ shell_quote (temp_of f) @ '' <<'' @ [CHR 0x27] @ heredoc_tag @ [CHR 0x27]]
     @ wrapped (b64_encode c)
     @ [heredoc_tag, ''chmod '' @ file_mode f @ '' '' @ shell_quote (temp_of f),
        ''mv -f '' @ shell_quote (temp_of f) @ '' '' @ shell_quote (f_path f)]"

lemma write_script_lines: "write_script f c = concat (map (\<lambda>l. l @ nl) (write_lines f c))"
  by (simp add: write_script_def write_lines_def Let_def file_mode_def temp_of_def)

lemma no_newline_literals:
  "newline \<notin> set ''set -e''" "newline \<notin> set ''mkdir -p ''" "newline \<notin> set ''base64 -d > ''"
  "newline \<notin> set '' <<''" "newline \<notin> set heredoc_tag" "newline \<notin> set ''chmod ''" "newline \<notin> set '' ''"
  "newline \<notin> set ''mv -f ''" "newline \<notin> set ''rm -f ''" "newline \<notin> set ''rmdir ''"
  "newline \<notin> set '' 2>/dev/null || true''" "newline \<noteq> CHR 0x27" "newline \<notin> set ''.wslkit-tmp''"
  "newline \<notin> set ''if [ -f ''" "newline \<notin> set '' ]; then base64 < ''" "newline \<notin> set ''; else echo ''"
  "newline \<notin> set ''; fi''" "newline \<notin> set absent_marker"
  by (simp_all add: newline_def heredoc_tag_def absent_marker_def)

lemma digits_no_newline: "list_all is_digit m \<Longrightarrow> newline \<notin> set m"
  by (auto simp: list_all_iff is_digit_def newline_def)

lemma file_mode_digits: "list_all is_digit (f_mode f) \<Longrightarrow> list_all is_digit (file_mode f) \<and> file_mode f \<noteq> []"
  by (simp add: file_mode_def is_digit_def)

lemma write_lines_no_newline:
  assumes "usable plain_paths f" shows "list_all (\<lambda>l. newline \<notin> set l) (write_lines f c)"
proof -
  have p: "newline \<notin> set (f_path f)" and m: "list_all is_digit (f_mode f)"
    using assms by (simp_all add: usable_def plain_paths_def)
  have t: "newline \<notin> set (temp_of f)" using p no_newline_literals by (simp add: temp_of_def)
  have e: "\<forall>l \<in> set (wrapped (b64_encode c)). newline \<notin> set l"
    using wrapped_in b64_no_newline by blast
  show ?thesis
    using p t e linux_dir_no_newline [OF p] shell_quote_no_newline [OF p] shell_quote_no_newline [OF t]
      shell_quote_no_newline [OF linux_dir_no_newline [OF p]] digits_no_newline [of "file_mode f"]
      file_mode_digits [OF m] no_newline_literals
    by (simp add: write_lines_def list_all_iff)
qed

lemma heredoc_body:
  "takeWhile (\<lambda>x. x \<noteq> heredoc_tag) (wrapped (b64_encode c) @ heredoc_tag # r) = wrapped (b64_encode c)"
proof (rule takeWhile_append_stop)
  fix l assume l: "l \<in> set (wrapped (b64_encode c))"
  show "l \<noteq> heredoc_tag"
  proof
    assume "l = heredoc_tag"
    then have "CHR ''_'' \<in> set (b64_encode c)"
      using wrapped_in [OF l] by (auto simp: heredoc_tag_def)
    then have "is_b64 CHR ''_''" using b64_encode_chars [of c] by (simp add: list_all_iff)
    then show False by (simp add: is_b64_def b64_val_def pad_char_def)
  qed
qed simp

text \<open>One command of each kind.\<close>

lemma run_one:
  "words_of l = w # ws \<Longrightarrow> w \<in> {''set'', ''mkdir'', ''chmod'', ''rmdir''} \<Longrightarrow>
     run_lines (Suc n) (l # ls) fs = run_lines n ls fs"
  "words_of l = [] \<Longrightarrow> run_lines (Suc n) (l # ls) fs = run_lines n ls fs"
  "words_of l = [''mv'', ''-f'', a, b] \<Longrightarrow> fs a = Some c \<Longrightarrow>
     run_lines (Suc n) (l # ls) fs = run_lines n ls (fs(a := None, b \<mapsto> c))"
  "words_of l = [''rm'', ''-f'', a] \<Longrightarrow>
     run_lines (Suc n) (l # ls) fs = run_lines n ls (fs(a := None))"
  "words_of l = [''base64'', ''-d'', ''>'', a, ''<<'' @ heredoc_tag] \<Longrightarrow>
     run_lines (Suc n) (l # wrapped (b64_encode c) @ heredoc_tag # ls) fs = run_lines n ls (fs(a \<mapsto> c))"
  by (auto simp: Let_def heredoc_body concat_wrapped b64_decode_encode)

lemma run_blank: "run_lines n [[]] fs = (([], if n = 0 then Some ''killed'' else None), fs)"
  by (cases n) (simp_all add: run_one(2) write_words)

lemma run_move:
  assumes m: "list_all is_digit m" "m \<noteq> []" and at: "fs t = Some c"
    and run: "run_lines n [''chmod '' @ m @ '' '' @ shell_quote t,
           ''mv -f '' @ shell_quote t @ '' '' @ shell_quote p, []] fs = ((out, e), fs')"
  shows "fs' = fs(t := None, p \<mapsto> c) \<or> e \<noteq> None \<and> fs' = fs"
proof (cases n)
  case 0 then show ?thesis using run by auto
next
  case (Suc k)
  then have "run_lines k [''mv -f '' @ shell_quote t @ '' '' @ shell_quote p, []] fs = ((out, e), fs')"
    using run run_one(1) [OF write_words(4) [OF m]] by simp
  then show ?thesis using run_one(3) [where a = t and fs = fs, OF write_words(5) at] by (cases k) (auto simp: run_blank)
qed

lemma run_move_steady:
  assumes m: "list_all is_digit m" "m \<noteq> []" and at: "fs t = Some c"
  shows "run_lines (Suc (Suc (Suc k))) [''chmod '' @ m @ '' '' @ shell_quote t,
           ''mv -f '' @ shell_quote t @ '' '' @ shell_quote p, []] fs = (([], None), fs(t := None, p \<mapsto> c))"
proof -
  have "run_lines (Suc (Suc k)) [''mv -f '' @ shell_quote t @ '' '' @ shell_quote p, []] fs
      = (([], None), fs(t := None, p \<mapsto> c))"
    using run_one(3) [where a = t and fs = fs, OF write_words(5) at] by (simp only: run_blank) simp
  then show ?thesis using run_one(1) [OF write_words(4) [OF m]] by simp
qed

lemma write_lines_rest: "write_lines f c @ [[]] =
    ''set -e'' # (''mkdir -p '' @ shell_quote (linux_dir_of (f_path f)))
    # (''base64 -d > '' @ shell_quote (temp_of f) @ '' <<'' @ [CHR 0x27] @ heredoc_tag @ [CHR 0x27])
    # (wrapped (b64_encode c) @ heredoc_tag
       # [''chmod '' @ file_mode f @ '' '' @ shell_quote (temp_of f),
          ''mv -f '' @ shell_quote (temp_of f) @ '' '' @ shell_quote (f_path f), []])"
  by (simp add: write_lines_def)

text \<open>Wherever a guest dies in it, the script has moved the whole content into place or has not
  touched the file.\<close>

lemma run_write_lines:
  assumes m: "list_all is_digit (f_mode f)" and run: "run_lines n (write_lines f c @ [[]]) fs = ((out, e), fs')"
  shows "fs' = fs(temp_of f := None, f_path f \<mapsto> c) \<or> e \<noteq> None \<and> (fs' = fs \<or> fs' = fs(temp_of f \<mapsto> c))"
proof -
  note fm = file_mode_digits [OF m]
  consider "n = 0" | "n = 1" | "n = 2" | k where "n = Suc (Suc (Suc k))"
    by (metis One_nat_def Suc_1 not0_implies_Suc)
  then show ?thesis
  proof cases
    case 4
    have "run_lines k [''chmod '' @ file_mode f @ '' '' @ shell_quote (temp_of f),
        ''mv -f '' @ shell_quote (temp_of f) @ '' '' @ shell_quote (f_path f), []]
        (fs(temp_of f \<mapsto> c)) = ((out, e), fs')"
      using run unfolding 4 write_lines_rest
      by (simp only: run_one(1) [OF write_words(1)] run_one(1) [OF write_words(2)] run_one(5) [OF write_words(3)] simp_thms insert_iff)
    from run_move [OF conjunct1 [OF fm] conjunct2 [OF fm] _ this] show ?thesis by auto
  qed (use run run_one(1) [OF write_words(1)] run_one(1) [OF write_words(2)] in \<open>auto simp: write_lines_def numeral_2_eq_2\<close>)
qed

lemma run_remove:
  assumes "run_lines n ((''rm -f '' @ shell_quote p) # ls @ [[]]) fs = ((out, e), fs')"
    and "ls = [] \<or> ls = [''rmdir '' @ shell_quote q @ '' 2>/dev/null || true'']"
  shows "fs' = fs(p := None) \<or> e \<noteq> None \<and> fs' = fs"
proof (cases n)
  case 0 then show ?thesis using assms(1) by auto
next
  case (Suc k)
  then have "run_lines k (ls @ [[]]) (fs(p := None)) = ((out, e), fs')"
    using assms(1) run_one(4) [OF write_words(6)] by simp
  then show ?thesis using assms(2) run_one(1) [OF write_words(7)] by (cases k) (auto simp: run_blank)
qed

section \<open>The laws of the locale\<close>

lemma strip_dropWhile: "\<forall>c \<in> set s. is_space c \<longrightarrow> c = newline \<Longrightarrow> strip_space (dropWhile is_space s) = strip_space s"
  by (induction s) (auto simp: strip_space_def)

lemma strip_rev: "strip_space (rev s) = rev (strip_space s)"
  by (simp add: strip_space_def rev_filter)

lemma strip_trim_space:
  assumes "\<forall>c \<in> set s. is_space c \<longrightarrow> c = newline"
  shows "strip_space (trim_space s) = strip_space s"
proof -
  have "\<forall>c \<in> set (rev (dropWhile is_space s)). is_space c \<longrightarrow> c = newline"
    using assms by (auto dest: set_dropWhileD)
  from strip_dropWhile [OF this] strip_dropWhile [OF assms] show ?thesis
    by (simp add: trim_space_def trim_right_def trim_left_def strip_rev)
qed

lemma b64_not_space: "c \<in> set (b64_encode s) \<Longrightarrow> \<not> is_space c"
proof
  assume "c \<in> set (b64_encode s)" "is_space c"
  then have "is_b64 c" using b64_encode_chars [of s] by (simp add: list_all_iff)
  then show False using \<open>is_space c\<close> by (auto simp: is_b64_def b64_val_def is_space_def pad_char_def Let_def)
qed

lemma space_chars: "is_space newline" "is_space carriage_return" "is_space CHR '' ''" "is_space tab_char"
  by (simp_all add: is_space_def newline_def carriage_return_def tab_char_def)

lemma strip_b64_lines:
  "\<forall>l \<in> set ls. \<forall>c \<in> set l. \<not> is_space c \<Longrightarrow> strip_space (concat (map (\<lambda>l. l @ nl) ls)) = concat ls"
proof (induction ls)
  case (Cons l ls)
  have "filter (\<lambda>c. c \<notin> {newline, carriage_return, CHR '' '', tab_char}) l = l"
    using Cons.prems space_chars by (intro filter_True) auto
  then show ?case using Cons by (simp add: strip_space_def)
qed (simp add: strip_space_def)

lemma strip_encoded_lines: "strip_space (trim_space (encoded_lines c)) = b64_encode c"
proof -
  have "\<forall>l \<in> set (wrapped (b64_encode c)). \<forall>x \<in> set l. \<not> is_space x"
    using wrapped_in b64_not_space by blast
  then have "\<forall>x \<in> set (encoded_lines c). is_space x \<longrightarrow> x = newline"
    "strip_space (encoded_lines c) = b64_encode c"
    using strip_b64_lines [of "wrapped (b64_encode c)"] by (auto simp: encoded_lines_def concat_wrapped)
  then show ?thesis using strip_trim_space by simp
qed

lemma trim_absent: "trim_space (absent_marker @ nl) = absent_marker"
  by code_simp

lemma run_read:
  assumes "run_lines n [''if [ -f '' @ shell_quote p @ '' ]; then base64 < '' @ shell_quote p
       @ ''; else echo '' @ absent_marker @ ''; fi'', []] fs = ((out, e), fs')"
  shows "fs' = fs" and "e = None \<Longrightarrow>
    (case fs p of None \<Rightarrow> trim_space out = absent_marker
     | Some c \<Rightarrow> strip_space (trim_space out) = b64_encode c)"
    and "2 \<le> n \<Longrightarrow> e = None"
proof -
  have step: "run_lines (Suc k) [''if [ -f '' @ shell_quote p @ '' ]; then base64 < '' @ shell_quote p
       @ ''; else echo '' @ absent_marker @ ''; fi'', []] fs
     = (((case fs p of Some c \<Rightarrow> encoded_lines c | None \<Rightarrow> absent_marker @ nl),
         if k = 0 then Some ''killed'' else None), fs)" for k
    unfolding run_lines.simps read_words Let_def run_blank by (simp split: option.split)
  show "fs' = fs" "2 \<le> n \<Longrightarrow> e = None" using assms step by (cases n; auto)+
  show "e = None \<Longrightarrow>
    (case fs p of None \<Rightarrow> trim_space out = absent_marker
     | Some c \<Rightarrow> strip_space (trim_space out) = b64_encode c)"
    using assms step strip_encoded_lines trim_absent by (cases n) (auto split: option.splits)
qed

lemma run_guest_lines:
  assumes "run_guest d (concat (map (\<lambda>l. l @ nl) ls)) t w = (r, w1)" and "list_all (\<lambda>l. newline \<notin> set l) ls"
  obtains n where "run_lines n (ls @ [[]]) (g_files w) = (r, g_files w1)"
  using assms by (auto simp: run_guest_def Let_def split_lines_script split: prod.splits)

lemma agree_outside: "q \<notin> K \<Longrightarrow> agree K (fs(q := v)) fs" "q \<notin> K \<Longrightarrow> agree K (fs(q := v, p := x)) (fs(p := x))"
  by (auto simp: agree_def)

interpretation guest: guest_shell run_guest d g_files plain_paths for d
proof unfold_locales
  fix p t w out w1 r
  assume p: "p \<in> plain_paths"
  let ?l = "''if [ -f '' @ shell_quote p @ '' ]; then base64 < '' @ shell_quote p
       @ ''; else echo '' @ absent_marker @ ''; fi''"
  have s: "read_script p = concat (map (\<lambda>l. l @ nl) [?l])" by (simp add: read_script_def Let_def)
  have n: "list_all (\<lambda>l. newline \<notin> set l) [?l]"
    using p shell_quote_no_newline [of p] no_newline_literals by (simp add: plain_paths_def)
  have run: "\<exists>n. run_lines n [?l, []] (g_files w) = (x, g_files w1)"
    if "run_guest d (read_script p) t w = (x, w1)" for x
    using run_guest_lines [OF that [unfolded s] n] by auto
  show "case g_files w p of None \<Rightarrow> trim_space out = absent_marker
      | Some c \<Rightarrow> strip_space (trim_space out) = b64_encode c"
    if "run_guest d (read_script p) t w = ((out, None), w1)"
    using run [OF that] run_read(2) by blast
  show "agree plain_paths (g_files w1) (g_files w)" if "run_guest d (read_script p) t w = (r, w1)"
    using run [OF that] run_read(1) by (metis agree_refl prod.collapse)
next
  fix f c t w out e w1
  assume f: "usable plain_paths f"
  then have tmp: "temp_of f \<notin> plain_paths" by (simp add: plain_paths_def temp_of_def)
  have m: "list_all is_digit (f_mode f)" using f by (simp add: usable_def)
  show "agree plain_paths (g_files w1) ((g_files w)(f_path f \<mapsto> c))
      \<or> e \<noteq> None \<and> agree plain_paths (g_files w1) (g_files w)"
    if run: "run_guest d (write_script f c) t w = ((out, e), w1)"
  proof -
    obtain n where "run_lines n (write_lines f c @ [[]]) (g_files w) = ((out, e), g_files w1)"
      using run_guest_lines [OF run [unfolded write_script_lines] write_lines_no_newline [OF f]] .
    from run_write_lines [OF m this] show ?thesis using agree_outside [OF tmp] by fastforce
  qed
  show "agree plain_paths (g_files w1) ((g_files w)(f_path f := None))
      \<or> e \<noteq> None \<and> agree plain_paths (g_files w1) (g_files w)"
    if run: "run_guest d (remove_script f) t w = ((out, e), w1)"
  proof -
    let ?q = "linux_dir_of (f_path f)"
    define ls where "ls = (if f_owns_dir f then [''rmdir '' @ shell_quote ?q @ '' 2>/dev/null || true''] else [])"
    have s: "remove_script f = concat (map (\<lambda>l. l @ nl) ((''rm -f '' @ shell_quote (f_path f)) # ls))"
      by (simp add: remove_script_def ls_def)
    have p: "newline \<notin> set (f_path f)" using f by (simp add: usable_def plain_paths_def)
    have nn: "list_all (\<lambda>l. newline \<notin> set l) ((''rm -f '' @ shell_quote (f_path f)) # ls)"
      using shell_quote_no_newline [OF p] shell_quote_no_newline [OF linux_dir_no_newline [OF p]]
        no_newline_literals by (simp add: ls_def)
    obtain n where r: "run_lines n ((''rm -f '' @ shell_quote (f_path f)) # ls @ [[]]) (g_files w)
        = ((out, e), g_files w1)"
      using run_guest_lines [OF run [unfolded s] nn] by auto
    have "ls = [] \<or> ls = [''rmdir '' @ shell_quote ?q @ '' 2>/dev/null || true'']" by (simp add: ls_def)
    from run_remove [OF r this] show ?thesis by auto
  qed
qed

section \<open>A guest that does not die\<close>

lemma length_script: "length ls \<le> length (concat (map (\<lambda>l. l @ nl) ls))"
  by (induction ls) auto

lemma steady_lines:
  assumes "g_dies w = []" and "list_all (\<lambda>l. newline \<notin> set l) ls"
    and "run_guest d (concat (map (\<lambda>l. l @ nl) ls)) t w = (r, w1)"
  shows "run_lines (length (concat (map (\<lambda>l. l @ nl) ls))) (ls @ [[]]) (g_files w) = (r, g_files w1)"
    and "g_dies w1 = []"
  using assms
  by (auto simp: run_guest_def Let_def split_lines_script split: prod.splits)

lemma steady_read:
  assumes steady: "g_dies w = []" and p: "p \<in> plain_paths" and g: "guest_read run_guest d p t w = (r, w1)"
  shows "g_dies w1 = [] \<and> g_files w1 = g_files w \<and> r = Inr (g_files w p)"
proof -
  let ?l = "''if [ -f '' @ shell_quote p @ '' ]; then base64 < '' @ shell_quote p
       @ ''; else echo '' @ absent_marker @ ''; fi''"
  have s: "read_script p = concat (map (\<lambda>l. l @ nl) [?l])" by (simp add: read_script_def Let_def)
  have nn: "list_all (\<lambda>l. newline \<notin> set l) [?l]"
    using p shell_quote_no_newline [of p] no_newline_literals by (simp add: plain_paths_def)
  obtain out e w2 where run: "run_guest d (read_script p) t w = ((out, e), w2)" by (metis surj_pair)
  note sl = steady_lines [OF steady nn run [unfolded s]]
  have "[?l] @ [[]] = [?l, []]" by (simp only: append_Cons append_Nil)
  note n = sl(1) [unfolded this] and w2 = sl(2)
  have "e = None" by (rule run_read(3) [OF n]) simp
  moreover have "w1 = w2" using g run calculation
    by (auto simp: guest_read_def Let_def split: option.splits if_splits)
  moreover have "r = Inr (g_files w p)"
  proof (cases r)
    case (Inl x)
    then show ?thesis using g run \<open>e = None\<close> guest.guest_read_files(3) [OF p g]
      by (auto simp: guest_read_def Let_def split: option.splits if_splits)
  next
    case (Inr x) then show ?thesis using guest.guest_read_files(2) [OF p g] by simp
  qed
  moreover have "g_files w2 = g_files w" using run_read(1) [OF n] by simp
  ultimately show ?thesis using w2 by simp
qed

lemma steady_write:
  assumes steady: "g_dies w = []" and f: "usable plain_paths f" and run: "run_guest d (write_script f c) t w = ((out, e), w1)"
  shows "g_dies w1 = [] \<and> e = None"
proof -
  obtain n where n: "length (write_lines f c) \<le> n" "run_lines n (write_lines f c @ [[]]) (g_files w) = ((out, e), g_files w1)"
    using steady_lines(1) [OF steady write_lines_no_newline [OF f] run [unfolded write_script_lines]] length_script by blast
  have m: "list_all is_digit (file_mode f)" "file_mode f \<noteq> []"
    using file_mode_digits f by (simp_all add: usable_def)
  have "6 \<le> n" using n(1) by (simp add: write_lines_def)
  then obtain k where k: "n = Suc (Suc (Suc (Suc (Suc (Suc k)))))"
    by (metis add_2_eq_Suc le_Suc_ex numeral_Bit0 add_Suc_right numeral_3_eq_3 add_Suc plus_nat.add_0 add.commute)
  have "e = None"
    using n(2) unfolding k write_lines_rest
    by (simp only: run_one(1) [OF write_words(1)] run_one(1) [OF write_words(2)] run_one(5) [OF write_words(3)]
        run_move_steady [OF m fun_upd_same] simp_thms insert_iff prod.inject)
  then show ?thesis
    using steady_lines(2) [OF steady write_lines_no_newline [OF f] run [unfolded write_script_lines]] by simp
qed

lemma steady_remove:
  assumes steady: "g_dies w = []" and f: "usable plain_paths f" and run: "run_guest d (remove_script f) t w = ((out, e), w1)"
  shows "g_dies w1 = [] \<and> e = None"
proof -
  let ?q = "linux_dir_of (f_path f)"
  define ls where "ls = (if f_owns_dir f then [''rmdir '' @ shell_quote ?q @ '' 2>/dev/null || true''] else [])"
  have s: "remove_script f = concat (map (\<lambda>l. l @ nl) ((''rm -f '' @ shell_quote (f_path f)) # ls))"
    by (simp add: remove_script_def ls_def)
  have p: "newline \<notin> set (f_path f)" using f by (simp add: usable_def plain_paths_def)
  have nn: "list_all (\<lambda>l. newline \<notin> set l) ((''rm -f '' @ shell_quote (f_path f)) # ls)"
    using shell_quote_no_newline [OF p] shell_quote_no_newline [OF linux_dir_no_newline [OF p]]
      no_newline_literals by (simp add: ls_def)
  note sl = steady_lines [OF steady nn run [unfolded s]]
  obtain k where k: "length (concat (map (\<lambda>l. l @ nl) ((''rm -f '' @ shell_quote (f_path f)) # ls))) = Suc (Suc (Suc k))"
    by simp
  have "run_lines (Suc (Suc k)) (ls @ [[]]) ((g_files w)(f_path f := None)) = ((out, e), g_files w1)"
    using sl(1) run_one(4) [OF write_words(6)] unfolding k by simp
  then have "e = None" unfolding ls_def using run_one(1) [OF write_words(7)] run_blank by (auto split: if_splits)
  then show ?thesis using sl(2) by simp
qed

lemma steady_plan:
  assumes "g_dies w = []" and "f_path ` set xs \<subseteq> plain_paths"
  shows "\<exists>cs w1. plan_files run_guest d t f xs w = (Inr cs, w1) \<and> g_dies w1 = [] \<and> g_files w1 = g_files w"
  using assms
proof (induction xs arbitrary: w)
  case (Cons x xs)
  obtain r w1 where g: "guest_read run_guest d (f_path x) t w = (r, w1)" by fastforce
  have s: "g_dies w1 = []" "g_files w1 = g_files w" "r = Inr (g_files w (f_path x))"
    using steady_read [OF Cons.prems(1) _ g] Cons.prems(2) by auto
  obtain cs w2 where "plan_files run_guest d t f xs w1 = (Inr cs, w2)" "g_dies w2 = []" "g_files w2 = g_files w1"
    using Cons.IH [of w1] s(1) Cons.prems(2) by auto
  then show ?case using g s by simp
qed simp

lemma steady_loop:
  assumes "g_dies w = []" and "\<forall>c \<in> set cs. usable plain_paths (c_file c)"
  shows "\<exists>w1. proxy_apply_loop run_guest d cs t w = (None, w1) \<and> g_dies w1 = []"
  using assms
proof (induction cs arbitrary: w)
  case (Cons c cs)
  show ?case
  proof (cases "changed c")
    case False then show ?thesis using Cons by simp
  next
    case True
    have u: "usable plain_paths (c_file c)" using Cons.prems(2) by simp
    show ?thesis
    proof (cases "c_removes c")
      case r: True
      obtain out e w2 where run: "run_guest d (remove_script (c_file c)) t w = ((out, e), w2)" by (metis surj_pair)
      then show ?thesis using steady_remove [OF Cons.prems(1) u run] True r Cons.IH [of w2] Cons.prems(2) by simp
    next
      case r: False
      obtain out e w2 where run: "run_guest d (write_script (c_file c) (c_after c)) t w = ((out, e), w2)"
        by (metis surj_pair)
      then show ?thesis using steady_write [OF Cons.prems(1) u run] True r Cons.IH [of w2] Cons.prems(2)
        by (simp add: guest_write_def)
    qed
  qed
qed simp

section \<open>What applying and reverting do\<close>



text \<open>C29: reverting takes back what applying did. Where none of the files wslkit owns was there and
  /etc/environment held no block of its own, a distribution whose proxy was applied and then reverted
  has every file as before; only /etc/environment may have gained a final newline, or be there and
  empty where it was absent. It holds for every guest whose shell does with the scripts what a shell
  does, and for every proxy and bypass list without a less-than sign in it.\<close>

theorem proxy_revert_undoes_apply:
  assumes "guest_shell run d files K" and "set proxy_paths \<subseteq> K"
    and "\<not> settings_empty s" and "plain_settings s" and "fresh_proxy_files (files w)"
    and "proxy_plan_apply run d s t w = (Inr cs, w1)" and "proxy_apply run d cs t w1 = (None, w2)"
    and "proxy_plan_revert run d t w2 = (Inr cs', w3)" and "proxy_apply run d cs' t w3 = (None, w4)"
    and "p \<in> K"
  shows "files w4 p = (if p = environment_file
     then Some (with_final_newline (content_of (files w environment_file))) else files w p)"
  by (rule guest_shell.apply_then_revert [OF assms])

theorem proxy_revert_undoes_apply_witness:
  "let w = \<lparr>g_files = [environment_file \<mapsto> ''A=1''], g_dies = []\<rparr>
   in \<exists>cs w1 w2 cs' w3 w4.
        proxy_plan_apply run_guest ''Debian'' placeholder 0 w = (Inr cs, w1)
      \<and> proxy_apply run_guest ''Debian'' cs 0 w1 = (None, w2)
      \<and> proxy_plan_revert run_guest ''Debian'' 0 w2 = (Inr cs', w3)
      \<and> proxy_apply run_guest ''Debian'' cs' 0 w3 = (None, w4)
      \<and> g_files w4 environment_file = Some (''A=1'' @ nl) \<and> g_files w4 env_file = None"
proof -
  define w :: guest where "w = \<lparr>g_files = [environment_file \<mapsto> ''A=1''], g_dies = []\<rparr>"
  have K: "set proxy_paths \<subseteq> plain_paths"
    by (simp add: proxy_paths_def environment_file_def env_file_def plain_paths_def newline_def has_suffix_def)
  have plain: "plain_settings placeholder" by (simp add: plain_settings_def placeholder_def)
  have "CHR ''#'' \<in> set begin_marker" "CHR ''#'' \<notin> set ''A=1''" by (simp_all add: begin_marker_def)
  then have "\<not> contains ''A=1'' begin_marker" by (auto simp only: contains_iff set_append)
  then have fresh: "fresh_proxy_files (g_files w)"
    by (simp add: w_def fresh_proxy_files_def content_of_def)
  have fs: "f_path ` set (files_for placeholder) \<subseteq> plain_paths" "files_for placeholder \<noteq> []"
    using K paths_of_files [OF placeholder_nonempty] by (auto simp: proxy_paths_def)
  have use: "usable plain_paths f" if "f \<in> set (files_for placeholder)" for f
    using files_usable [OF placeholder_nonempty K that] .
  obtain cs w1 where p1: "proxy_plan_apply run_guest ''Debian'' placeholder 0 w = (Inr cs, w1)" "g_dies w1 = []"
  proof -
    have "g_dies w = []" by (simp add: w_def)
    from steady_plan [OF this fs(1)] show thesis using that fs(2) by (metis proxy_plan_apply_def)
  qed
  have "\<forall>c \<in> set cs. usable plain_paths (c_file c)"
  proof -
    have "plan_files run_guest ''Debian'' (proxy_timeout 0) (\<lambda>f found. [apply_change f found]) (files_for placeholder) w
        = (Inr cs, w1)" using p1(1) fs(2) by (simp add: proxy_plan_apply_def)
    then have "cs = concat (map (\<lambda>x. [apply_change x (g_files w (f_path x))]) (files_for placeholder))"
      using guest.plan_files_files fs(1) by blast
    then show ?thesis using use by (auto simp: apply_change_def)
  qed
  then obtain w2 where p2: "proxy_apply run_guest ''Debian'' cs 0 w1 = (None, w2)" "g_dies w2 = []"
    using steady_loop [OF p1(2)] by (metis proxy_apply_def)
  obtain cs' w3 where p3: "proxy_plan_revert run_guest ''Debian'' 0 w2 = (Inr cs', w3)" "g_dies w3 = []"
    using steady_plan [OF p2(2) fs(1)] by (metis proxy_plan_revert_def)
  have "\<forall>c \<in> set cs'. usable plain_paths (c_file c)"
  proof
    fix c assume c: "c \<in> set cs'"
    have "cs' = concat (map (\<lambda>x. revert_change x (g_files w2 (f_path x))) (files_for placeholder))"
      using guest.plan_files_files [OF p3(1) [unfolded proxy_plan_revert_def] fs(1)] by simp
    then obtain x where x: "x \<in> set (files_for placeholder)" "c \<in> set (revert_change x (g_files w2 (f_path x)))"
      using c by auto
    then have "c_file c = x" using revert_change_one [of x "g_files w2 (f_path x)"] by auto
    then show "usable plain_paths (c_file c)" using use x(1) by simp
  qed
  then obtain w4 where p4: "proxy_apply run_guest ''Debian'' cs' 0 w3 = (None, w4)"
    using steady_loop [OF p3(2)] by (metis proxy_apply_def)
  note restored = proxy_revert_undoes_apply [OF guest.guest_shell_axioms K placeholder_nonempty plain fresh
      p1(1) p2(1) p3(1) p4]
  have "environment_file \<in> plain_paths" "env_file \<in> plain_paths" using K by (auto simp: proxy_paths_def)
  then have "g_files w4 environment_file = Some (''A=1'' @ nl)" "g_files w4 env_file = None"
    using restored by (auto simp: w_def content_of_def with_final_newline_def has_suffix_def newline_def
        env_file_def environment_file_def)
  then show ?thesis using p1 p2 p3 p4 unfolding Let_def w_def by blast
qed

end
