(* ===== verification/ProxyServe.thy ===== *)
theory ProxyServe
  imports Proxy
begin

text \<open>
  \<open>internal/proxy/serve.go\<close>: the forward proxy. Where a request goes, how a tunnel is opened
  through the proxies a script named, what is read of an upstream's answer, and which headers are
  passed on. The network is a parameter: what answers at an address, as the bytes it sends. The
  HTTP server and transport of the standard library, and the sockets, are not modelled.
\<close>

section \<open>Resolutions\<close>

record resolution =
  r_direct :: bool
  r_proxies :: "string list"

definition strip_scheme :: "string \<Rightarrow> string" where
  "strip_scheme s =
     trim_suffix (case index_sub s ''://'' of Some i \<Rightarrow> drop (i + 3) s | None \<Rightarrow> s) ''/''"

definition static_upstream :: "string \<Rightarrow> string \<Rightarrow> resolution" where
  "static_upstream proxy raw_url =
     (if proxy = [] then \<lparr>r_direct = True, r_proxies = []\<rparr>
      else \<lparr>r_direct = False, r_proxies = [strip_scheme proxy]\<rparr>)"

definition describe_res :: "resolution \<Rightarrow> string" where
  "describe_res res = (if r_direct res \<or> r_proxies res = [] then ''direct'' else hd (r_proxies res))"

definition with_default_port :: "string \<Rightarrow> string \<Rightarrow> string" where
  "with_default_port host_port port =
     (if split_host_port host_port \<noteq> None then host_port
      else join_host_port (trim_brackets host_port) port)"

section \<open>Connections\<close>

text \<open>A connection: where it goes, what the other side will send before it fails or falls silent,
  and what has been written to it. What dialling an address gives is a parameter, and so is
  whether the first write gets through.\<close>

record conn =
  k_addr :: string
  k_in :: string
  k_out :: string

record peer =
  u_takes :: bool
  u_says :: string

type_synonym dialer = "string \<Rightarrow> peer option"

datatype dial_error =
    NoOrigin string               \<comment> \<open>connecting to the target\<close>
  | NoProxy string                \<comment> \<open>connecting to the proxy\<close>
  | SendFailed
  | AnswerCut                     \<comment> \<open>reading the upstream's answer\<close>
  | LineTooLong
  | AuthDemanded string
  | TunnelRefused string
  | NothingTried

definition connect_request :: "string \<Rightarrow> string" where
  "connect_request host_port =
     (let crlf = [carriage_return, newline] in
      ''CONNECT '' @ host_port @ '' HTTP/1.1'' @ crlf @ ''Host: '' @ host_port @ crlf
      @ ''Proxy-Connection: keep-alive'' @ crlf @ crlf)"

text \<open>\<open>readStatusLine\<close>: one byte at a time, the line so far and the first line that was not empty.\<close>

fun read_status :: "string \<Rightarrow> string \<Rightarrow> string \<Rightarrow> (dial_error + string) \<times> string" where
  "read_status line first [] = (Inl AnswerCut, [])"
| "read_status line first (c # s) =
     (if c = newline then
        (let t = trim_right (\<lambda>x. x = carriage_return) line;
             first' = (if first = [] then t else first)
         in if t = [] then (Inr first', s) else read_status [] first' s)
      else if length line + 1 > 8192 then (Inl LineTooLong, s)
      else read_status (line @ [c]) first s)"

definition read_status_line :: "string \<Rightarrow> (dial_error + string) \<times> string" where
  "read_status_line s = read_status [] [] s"

definition negotiate_connect :: "peer \<Rightarrow> string \<Rightarrow> string \<Rightarrow> dial_error + conn" where
  "negotiate_connect p addr target =
     (let host_port = with_default_port target ''443'' in
      if \<not> u_takes p then Inl SendFailed
      else
        (case read_status_line (u_says p) of
           (Inl e, _) \<Rightarrow> Inl e
         | (Inr status, rest) \<Rightarrow>
             if contains status '' 200'' then
               Inr \<lparr>k_addr = addr, k_in = rest, k_out = connect_request host_port\<rparr>
             else if contains status '' 407'' then Inl (AuthDemanded (trim_space status))
             else Inl (TunnelRefused (trim_space status))))"

text \<open>The loop over the upstreams: the last error, and the connections that were closed again.\<close>

fun dial_upstreams :: "dialer \<Rightarrow> string \<Rightarrow> bool \<Rightarrow> string list \<Rightarrow> dial_error
    \<Rightarrow> (dial_error + conn) \<times> string list" where
  "dial_upstreams d target tunnelled [] last_err = (Inl last_err, [])"
| "dial_upstreams d target tunnelled (p # ps) last_err =
     (let addr = with_default_port (strip_scheme p) ''80'' in
      case d addr of
        None \<Rightarrow> dial_upstreams d target tunnelled ps (NoProxy addr)
      | Some peer \<Rightarrow>
          if \<not> tunnelled then (Inr \<lparr>k_addr = addr, k_in = u_says peer, k_out = []\<rparr>, [])
          else
            (case negotiate_connect peer addr target of
               Inl e \<Rightarrow>
                 (case dial_upstreams d target tunnelled ps e of (r, closed) \<Rightarrow> (r, addr # closed))
             | Inr k \<Rightarrow> (Inr k, [])))"

definition dial_for :: "dialer \<Rightarrow> resolution \<Rightarrow> string \<Rightarrow> bool \<Rightarrow> (dial_error + conn) \<times> string list" where
  "dial_for d res target tunnelled =
     (if r_direct res \<or> r_proxies res = [] then
        (let addr = with_default_port target ''443'' in
         case d addr of
           None \<Rightarrow> (Inl (NoOrigin target), [])
         | Some peer \<Rightarrow> (Inr \<lparr>k_addr = addr, k_in = u_says peer, k_out = []\<rparr>, []))
      else dial_upstreams d target tunnelled (r_proxies res) NothingTried)"

section \<open>Requests\<close>

record http_request =
  q_method :: string
  q_host :: string
  q_url_host :: string
  q_url :: string
  q_absolute :: bool
  q_headers :: "(string \<times> string list) list"

datatype served =
    BadRequest
  | BadGateway
  | Tunnelled conn
  | Forwarded "string option" "(string \<times> string list) list"   \<comment> \<open>through which proxy, with which headers\<close>

definition hop_by_hop :: "string list" where
  "hop_by_hop = [''Connection'', ''Proxy-Connection'', ''Keep-Alive'', ''Proxy-Authenticate'',
     ''Proxy-Authorization'', ''Te'', ''Trailer'', ''Transfer-Encoding'', ''Upgrade'']"

definition is_hop_by_hop :: "string \<Rightarrow> bool" where
  "is_hop_by_hop h \<longleftrightarrow> list_ex (\<lambda>v. equal_fold h v) hop_by_hop"

text \<open>The headers of a request have canonical names, so \<open>Del\<close> compares them as they are.\<close>

definition outbound_headers :: "(string \<times> string list) list \<Rightarrow> (string \<times> string list) list" where
  "outbound_headers hs = filter (\<lambda>(k, _). k \<notin> set hop_by_hop) hs"

definition response_headers :: "(string \<times> string list) list \<Rightarrow> (string \<times> string list) list" where
  "response_headers hs = filter (\<lambda>(k, _). \<not> is_hop_by_hop k) hs"

definition http_upstream :: "resolution \<Rightarrow> string option" where
  "http_upstream res =
     (if \<not> r_direct res \<and> r_proxies res \<noteq> [] then Some (''http://'' @ strip_scheme (hd (r_proxies res)))
      else None)"

definition handle_connect :: "(string \<Rightarrow> resolution option) \<Rightarrow> dialer \<Rightarrow> http_request \<Rightarrow> served" where
  "handle_connect resolve d q =
     (let target = (if q_host q = [] then q_url_host q else q_host q) in
      case resolve (''https://'' @ target) of
        None \<Rightarrow> BadGateway
      | Some res \<Rightarrow> (case dial_for d res target True of (Inl e, _) \<Rightarrow> BadGateway | (Inr k, _) \<Rightarrow> Tunnelled k))"

text \<open>\<open>handleHTTP\<close> up to the round trip, which the transport of the standard library makes; whether
  the upstream's address can be read as a URL is a parameter.\<close>

definition handle_http :: "(string \<Rightarrow> resolution option) \<Rightarrow> (string \<Rightarrow> bool) \<Rightarrow> http_request \<Rightarrow> served" where
  "handle_http resolve usable_url q =
     (case resolve (q_url q) of
        None \<Rightarrow> BadGateway
      | Some res \<Rightarrow>
          (case http_upstream res of
             Some up \<Rightarrow>
               if \<not> usable_url up then BadGateway else Forwarded (Some up) (outbound_headers (q_headers q))
           | None \<Rightarrow> Forwarded None (outbound_headers (q_headers q))))"

definition serve_http :: "(string \<Rightarrow> resolution option) \<Rightarrow> (string \<Rightarrow> bool) \<Rightarrow> dialer \<Rightarrow> http_request \<Rightarrow> served" where
  "serve_http resolve usable_url d q =
     (if q_method q = ''CONNECT'' then handle_connect resolve d q
      else if \<not> q_absolute q then BadRequest
      else handle_http resolve usable_url q)"

text \<open>One direction of a tunnel: the deadline for reading is set once, when the copy starts.
  What arrives is given with its time.\<close>

definition tunnel_copy :: "int \<Rightarrow> int \<Rightarrow> (int \<times> string) list \<Rightarrow> string" where
  "tunnel_copy idle start arrivals =
     concat (map snd (takeWhile (\<lambda>(t, _). idle \<le> 0 \<or> t < start + idle) arrivals))"

text \<open>Binding: an address that cannot be bound is a warning, not an error.\<close>

definition listen_all :: "(string \<Rightarrow> string option) \<Rightarrow> string list \<Rightarrow> nat \<Rightarrow> string list \<times> string list" where
  "listen_all bind hosts port =
     (let addrs = map (\<lambda>h. join_host_port h (format_uint port)) hosts in
      (map (the \<circ> bind) (filter (\<lambda>a. bind a \<noteq> None) addrs), filter (\<lambda>a. bind a = None) addrs))"

section \<open>The answer of an upstream\<close>

text \<open>A head is a status line, further lines and an empty line; none too long, each without a
  line break in it, and none but the last empty.\<close>

definition head_line :: "string \<Rightarrow> bool" where
  "head_line l \<longleftrightarrow> newline \<notin> set l \<and> l \<noteq> [] \<and> last l \<noteq> carriage_return \<and> length l < 8192"

definition crlf_lines :: "string list \<Rightarrow> string" where
  "crlf_lines ls = concat (map (\<lambda>l. l @ [carriage_return, newline]) ls)"

lemma read_status_within:
  "newline \<notin> set l \<Longrightarrow> length line + length l \<le> 8192 \<Longrightarrow>
     read_status line first (l @ s) = read_status (line @ l) first s"
  by (induction l arbitrary: line) auto

lemma trim_crs: "l = [] \<or> last l \<noteq> carriage_return \<Longrightarrow>
    trim_right (\<lambda>x. x = carriage_return) (l @ [carriage_return]) = l"
  by (cases l rule: rev_cases) (auto simp: trim_right_def)

lemma cr_not_nl: "carriage_return \<noteq> newline"
  by (simp add: carriage_return_def newline_def)

lemma read_status_line_step:
  assumes "l = [] \<or> head_line l"
  shows "read_status [] first (l @ carriage_return # newline # s)
     = (let first' = (if first = [] then l else first) in
        if l = [] then (Inr first', s) else read_status [] first' s)"
proof -
  have "newline \<notin> set (l @ [carriage_return])" "length (l @ [carriage_return]) \<le> 8192"
    using assms cr_not_nl by (auto simp: head_line_def)
  then have "read_status [] first ((l @ [carriage_return]) @ newline # s)
      = read_status (l @ [carriage_return]) first (newline # s)"
    using read_status_within [of "l @ [carriage_return]" "[]" first "newline # s"] by simp
  moreover have "trim_right (\<lambda>x. x = carriage_return) (l @ [carriage_return]) = l"
    using assms by (intro trim_crs) (auto simp: head_line_def)
  ultimately show ?thesis by (simp add: Let_def)
qed

lemma read_status_rest:
  assumes "\<forall>l \<in> set ls. head_line l" and "first \<noteq> []"
  shows "read_status [] first (crlf_lines ls @ carriage_return # newline # s) = (Inr first, s)"
  using assms
proof (induction ls)
  case Nil
  then show ?case using read_status_line_step [of "[]" first s] by (simp add: crlf_lines_def)
next
  case (Cons l ls)
  then show ?case using read_status_line_step [of l first "crlf_lines ls @ carriage_return # newline # s"]
    by (simp add: crlf_lines_def head_line_def)
qed

lemma read_status_line_head:
  assumes "head_line status" and "\<forall>l \<in> set ls. head_line l"
  shows "read_status_line (crlf_lines (status # ls) @ carriage_return # newline # s) = (Inr status, s)"
  using read_status_line_step [of status "[]" "crlf_lines ls @ carriage_return # newline # s"]
    read_status_rest [OF assms(2), of status s] assms(1)
  by (simp add: read_status_line_def crlf_lines_def head_line_def)

section \<open>Which proxy a tunnel goes through\<close>

definition upstream_addr :: "string \<Rightarrow> string" where
  "upstream_addr p = with_default_port (strip_scheme p) ''80''"

text \<open>What one upstream gives on its own: the tunnel, or nothing.\<close>

definition tunnel_via :: "dialer \<Rightarrow> string \<Rightarrow> string \<Rightarrow> conn option" where
  "tunnel_via d target p =
     (case d (upstream_addr p) of
        None \<Rightarrow> None
      | Some peer \<Rightarrow>
          (case negotiate_connect peer (upstream_addr p) target of Inl e \<Rightarrow> None | Inr k \<Rightarrow> Some k))"

definition dialled :: "dialer \<Rightarrow> string list \<Rightarrow> string list" where
  "dialled d ps = filter (\<lambda>a. d a \<noteq> None) (map upstream_addr ps)"

lemma dial_upstreams_step:
  "dial_upstreams d target True (p # ps) last_err =
     (case d (upstream_addr p) of
        None \<Rightarrow> dial_upstreams d target True ps (NoProxy (upstream_addr p))
      | Some peer \<Rightarrow>
          (case negotiate_connect peer (upstream_addr p) target of
             Inl e \<Rightarrow> (case dial_upstreams d target True ps e of (r, closed) \<Rightarrow> (r, upstream_addr p # closed))
           | Inr k \<Rightarrow> (Inr k, [])))"
  by (auto simp: upstream_addr_def Let_def split: option.split sum.split prod.split)

lemma dialled_Cons:
  "dialled d (p # ps) = (if d (upstream_addr p) = None then [] else [upstream_addr p]) @ dialled d ps"
  by (simp add: dialled_def)

lemma dial_upstreams_spec:
  "\<exists>e. dial_upstreams d target True ps last_err =
     (case find (\<lambda>p. tunnel_via d target p \<noteq> None) ps of
        Some p \<Rightarrow> (Inr (the (tunnel_via d target p)), dialled d (takeWhile (\<lambda>p. tunnel_via d target p = None) ps))
      | None \<Rightarrow> (Inl e, dialled d ps))
     \<and> (e = NothingTried \<longrightarrow> ps = [] \<and> last_err = NothingTried)"
proof (induction ps arbitrary: last_err)
  case (Cons p ps)
  have ne: "negotiate_connect peer a t \<noteq> Inl NothingTried" for peer a t
  proof -
    have "fst (read_status line first s) \<noteq> Inl NothingTried" for line first s
      by (induction line first s rule: read_status.induct) (auto simp: Let_def)
    then show ?thesis unfolding negotiate_connect_def read_status_line_def
      by (auto simp: Let_def split: sum.splits prod.splits if_splits) (metis fst_conv)
  qed
  show ?case
  proof (cases "d (upstream_addr p)")
    case None
    then have "tunnel_via d target p = None" by (simp add: tunnel_via_def)
    then show ?thesis using None Cons.IH [of "NoProxy (upstream_addr p)"]
      by (auto simp del: dial_upstreams.simps simp: dial_upstreams_step dialled_Cons split: option.splits)
  next
    case (Some peer)
    show ?thesis
    proof (cases "negotiate_connect peer (upstream_addr p) target")
      case (Inl e)
      then have "tunnel_via d target p = None" using Some by (simp add: tunnel_via_def)
      moreover have "e \<noteq> NothingTried" using Inl ne by metis
      ultimately show ?thesis using Some Inl Cons.IH [of e]
        by (auto simp del: dial_upstreams.simps simp: dial_upstreams_step dialled_Cons split: option.splits)
    next
      case (Inr k)
      then have "tunnel_via d target p = Some k" using Some by (simp add: tunnel_via_def)
      then show ?thesis using Some Inr
        by (auto simp del: dial_upstreams.simps simp: dial_upstreams_step dialled_def)
    qed
  qed
qed (simp add: dialled_def)

text \<open>a CONNECT that a script sends through proxies uses the first of them that can be dialled
  and agrees to the tunnel. The ones before it that could be dialled are closed again; it fails only
  when every proxy of the list did, and then names the failure of one of them.\<close>

theorem connect_uses_first_willing_proxy:
  assumes "\<not> r_direct res" and "r_proxies res \<noteq> []"
  shows "\<exists>e. e \<noteq> NothingTried \<and> dial_for d res target True =
     (case find (\<lambda>p. tunnel_via d target p \<noteq> None) (r_proxies res) of
        Some p \<Rightarrow> (Inr (the (tunnel_via d target p)),
          dialled d (takeWhile (\<lambda>p. tunnel_via d target p = None) (r_proxies res)))
      | None \<Rightarrow> (Inl e, dialled d (r_proxies res)))"
  using dial_upstreams_spec [of d target "r_proxies res" NothingTried] assms
  by (auto simp: dial_for_def)

text \<open>An upstream that answers with a head whose status line says 200: the tunnel is open, and the
  first byte after the head is the first byte of the tunnel.\<close>

lemma willing_proxy:
  assumes "d (upstream_addr p) = Some \<lparr>u_takes = True,
      u_says = crlf_lines (status # ls) @ carriage_return # newline # rest\<rparr>"
    and "head_line status" and "\<forall>l \<in> set ls. head_line l" and "contains status '' 200''"
  shows "tunnel_via d target p = Some \<lparr>k_addr = upstream_addr p, k_in = rest,
      k_out = connect_request (with_default_port target ''443'')\<rparr>"
  using assms read_status_line_head [OF assms(2,3), of rest]
  by (simp add: tunnel_via_def negotiate_connect_def Let_def)

lemma willing_example:
  "tunnel_via (\<lambda>a. if a = ''good:3128'' then Some \<lparr>u_takes = True,
       u_says = crlf_lines [''HTTP/1.1 200 OK''] @ carriage_return # newline # ''hello''\<rparr> else None) ''h:443'' ''good:3128''
   = Some \<lparr>k_addr = ''good:3128'', k_in = ''hello'', k_out = connect_request ''h:443''\<rparr>"
proof -
  have a: "upstream_addr ''good:3128'' = ''good:3128''" "with_default_port ''h:443'' ''443'' = ''h:443''"
    by code_simp+
  have "head_line ''HTTP/1.1 200 OK''" "contains ''HTTP/1.1 200 OK'' '' 200''" by code_simp+
  from willing_proxy [OF _ this(1) _ this(2), where ls = "[]"] a show ?thesis by simp
qed

theorem connect_uses_first_willing_proxy_witness:
  "\<exists>d. fst (dial_for d \<lparr>r_direct = False, r_proxies = [''bad:3128'', ''good:3128'']\<rparr> ''h:443'' True)
     = Inr \<lparr>k_addr = ''good:3128'', k_in = ''hello'', k_out = connect_request ''h:443''\<rparr>"
proof -
  define d :: dialer where "d = (\<lambda>a. if a = ''good:3128'' then Some \<lparr>u_takes = True,
       u_says = crlf_lines [''HTTP/1.1 200 OK''] @ carriage_return # newline # ''hello''\<rparr> else None)"
  have good: "tunnel_via d ''h:443'' ''good:3128''
      = Some \<lparr>k_addr = ''good:3128'', k_in = ''hello'', k_out = connect_request ''h:443''\<rparr>"
    unfolding d_def by (rule willing_example)
  have "upstream_addr ''bad:3128'' = ''bad:3128''" by code_simp
  then have bad: "tunnel_via d ''h:443'' ''bad:3128'' = None" by (simp add: tunnel_via_def d_def)
  show ?thesis
    using connect_uses_first_willing_proxy
      [of "\<lparr>r_direct = False, r_proxies = [''bad:3128'', ''good:3128'']\<rparr>" d "''h:443''"]
    by (auto simp: good bad intro!: exI [of _ d])
qed

section \<open>Two answers and a clock\<close>

text \<open>A refusal whose text goes on with a number that starts with 200 opens a tunnel.\<close>

lemma refusal_taken_for_consent:
  "contains ''HTTP/1.1 503 Service Unavailable 2001'' '' 200''"
  by code_simp

text \<open>A tunnel that is in use is cut when the idle time has passed since it was opened.\<close>

lemma busy_tunnel_is_cut:
  "idle > 2 \<Longrightarrow> tunnel_copy idle 0 [(1, a), (idle - 1, b), (idle, c), (idle + 1, e)] = a @ b"
  by (simp add: tunnel_copy_def)

text \<open>Nothing that belongs to one connection is passed on.\<close>

lemma hop_by_hop_removed:
  "(k, vs) \<in> set (outbound_headers hs) \<Longrightarrow> k \<notin> set hop_by_hop"
  "(k, vs) \<in> set (response_headers hs) \<Longrightarrow> \<not> is_hop_by_hop k"
  by (auto simp: outbound_headers_def response_headers_def)

lemma listen_all_partition:
  "length (fst (listen_all bind hosts port)) + length (snd (listen_all bind hosts port)) = length hosts"
  using sum_length_filter_compl [of "\<lambda>a. bind a \<noteq> None" "map (\<lambda>h. join_host_port h (format_uint port)) hosts"]
  by (simp add: listen_all_def Let_def)

end
