(* ===== verification/GoFloat.thy ===== *)
theory GoFloat
  imports GoText Complex_Main
begin

text \<open>
  Floating point as Go has it: a finite \<open>float64\<close> is the rational number it stands for, and every
  operation is the exact one followed by rounding to the nearest value with a 53-bit mantissa, ties to
  the even one, down to the smallest exponent. Infinities and NaN are left out: nothing here divides by
  zero, and the counters read never reach them. Also the conversions of \<open>strconv\<close> and \<open>fmt\<close> that
  the program uses, and the arithmetic of \<open>time.Duration\<close>, an \<open>int64\<close> of nanoseconds.
\<close>

section \<open>Rounding\<close>

type_synonym f64 = rat

definition round_half_even :: "rat \<Rightarrow> int" where
  "round_half_even x =
     (let f = \<lfloor>x\<rfloor>; r = x - of_int f
      in if r < 1 / 2 then f else if r > 1 / 2 then f + 1 else if even f then f else f + 1)"

function bit_length :: "int \<Rightarrow> int" where
  "bit_length n = (if n \<le> 0 then 0 else 1 + bit_length (n div 2))"
  by pat_completeness auto
termination by (relation "measure nat") auto

declare bit_length.simps [simp del]

definition pow2 :: "int \<Rightarrow> rat" where
  "pow2 e = (if 0 \<le> e then 2 ^ nat e else 1 / 2 ^ nat (- e))"

text \<open>The exponent at which a positive number has a mantissa of 53 bits, or the smallest one there is.\<close>

definition exponent_of :: "rat \<Rightarrow> int" where
  "exponent_of x =
     (let (a, b) = quotient_of x;
          e = bit_length a - bit_length b - 53;
          e' = (if x \<ge> 2 ^ 53 * pow2 e then e + 1 else e)
      in max e' (- 1074))"

definition to_f64 :: "rat \<Rightarrow> f64" where
  "to_f64 x =
     (if x = 0 then 0
      else let e = exponent_of \<bar>x\<bar>; m = of_int (round_half_even (\<bar>x\<bar> / pow2 e)) * pow2 e
           in if x < 0 then - m else m)"

section \<open>Durations\<close>

definition wrap64 :: "int \<Rightarrow> int" where
  "wrap64 i = sint (of_int i :: u64)"

definition millisecond :: int where "millisecond = 10 ^ 6"
definition second_ns :: int where "second_ns = 10 ^ 9"

text \<open>Division of integers cuts towards zero.\<close>

definition quot :: "int \<Rightarrow> int \<Rightarrow> int" where
  "quot a b = sgn a * sgn b * (\<bar>a\<bar> div \<bar>b\<bar>)"

definition duration_seconds :: "int \<Rightarrow> f64" where
  "duration_seconds d =
     (let s = quot d second_ns; ns = d - s * second_ns
      in to_f64 (to_f64 (of_int s) + to_f64 (to_f64 (of_int ns) / 10 ^ 9)))"

definition duration_microseconds :: "int \<Rightarrow> int" where
  "duration_microseconds d = quot d 1000"

section \<open>Text\<close>

text \<open>\<open>%.1f\<close> rounds the exact value; what is left of the sign stays.\<close>

definition format_1 :: "f64 \<Rightarrow> string" where
  "format_1 x =
     (let n = nat (round_half_even (\<bar>x\<bar> * 10))
      in (if x < 0 then ''-'' else []) @ format_uint (n div 10) @ ''.'' @ format_uint (n mod 10))"

text \<open>\<open>strconv.ParseFloat\<close> on decimal numbers: a sign, digits with a point among them, an exponent.\<close>

definition digit_run :: "string \<Rightarrow> string" where
  "digit_run s = takeWhile is_digit s"

definition sign_of :: "string \<Rightarrow> bool \<times> string" where
  "sign_of s = (case s of c # r \<Rightarrow> if c = CHR ''-'' then (True, r) else if c = CHR ''+'' then (False, r) else (False, s)
                | [] \<Rightarrow> (False, s))"

definition exponent_part :: "string \<Rightarrow> int option" where
  "exponent_part s =
     (case s of
        [] \<Rightarrow> Some 0
      | c # r \<Rightarrow>
          if lower_char c \<noteq> CHR ''e'' then None
          else let (neg, d) = sign_of r
               in if d = [] \<or> \<not> list_all is_digit d then None
                  else Some (if neg then - int (digits_val d) else int (digits_val d)))"

definition pow10 :: "int \<Rightarrow> rat" where
  "pow10 e = (if 0 \<le> e then 10 ^ nat e else 1 / 10 ^ nat (- e))"

definition parse_float :: "string \<Rightarrow> f64 option" where
  "parse_float s =
     (let (neg, t) = sign_of s;
          whole = digit_run t; t1 = drop (length whole) t;
          (frac, t2) = (case t1 of c # r \<Rightarrow> if c = CHR ''.'' then (digit_run r, drop (length (digit_run r)) r) else ([], t1)
                        | [] \<Rightarrow> ([], t1))
      in if whole = [] \<and> frac = [] then None
         else case exponent_part t2 of
                None \<Rightarrow> None
              | Some e \<Rightarrow>
                  let v = to_f64 (of_nat (digits_val (whole @ frac)) * pow10 (e - int (length frac)))
                  in if v \<ge> 2 ^ 1024 then None else Some (if neg then - v else v))"

text \<open>The shortest decimal that reads back as the same number, as \<open>FormatFloat (v, 'f', -1, 64)\<close> writes
  it for numbers up to \<open>2 ^ 53\<close>: the first number of decimals at which rounding loses nothing.\<close>

function shortest_digits :: "f64 \<Rightarrow> nat \<Rightarrow> int \<times> nat" where
  "shortest_digits v p =
     (let n = round_half_even (v * 10 ^ p)
      in if 1100 \<le> p \<or> to_f64 (of_int n / 10 ^ p) = v then (n, p) else shortest_digits v (Suc p))"
  by pat_completeness auto
termination by (relation "measure (\<lambda>(v, p). 1100 - p)") auto

declare shortest_digits.simps [simp del]

definition zero_pad :: "nat \<Rightarrow> string \<Rightarrow> string" where
  "zero_pad n s = replicate (n - length s) (CHR ''0'') @ s"

definition format_shortest :: "f64 \<Rightarrow> string" where
  "format_shortest v =
     (let (n, p) = shortest_digits \<bar>v\<bar> 0
      in (if v < 0 then ''-'' else []) @ format_uint (nat (n div 10 ^ p))
         @ (if p = 0 then [] else ''.'' @ zero_pad p (format_uint (nat (n mod 10 ^ p)))))"

section \<open>Facts\<close>

lemma round_half_even_int [simp]: "round_half_even (of_int i) = i"
  by (simp add: round_half_even_def)

lemma round_half_even_nonneg: "0 \<le> x \<Longrightarrow> 0 \<le> round_half_even x"
  by (simp add: round_half_even_def Let_def)

lemma pow2_pos [simp]: "0 < pow2 e"
  by (simp add: pow2_def)

lemma to_f64_zero [simp]: "to_f64 0 = 0"
  by (simp add: to_f64_def)

lemma to_f64_nonneg: "0 \<le> x \<Longrightarrow> 0 \<le> to_f64 x"
  by (simp add: to_f64_def Let_def round_half_even_nonneg less_imp_le)

lemma quot_nonneg: "0 \<le> a \<Longrightarrow> 0 < b \<Longrightarrow> quot a b = a div b"
  by (cases "a = 0") (simp_all add: quot_def)

lemma duration_seconds_nonneg: "0 \<le> d \<Longrightarrow> 0 \<le> duration_seconds d"
  by (simp add: duration_seconds_def second_ns_def quot_nonneg Let_def to_f64_nonneg
      minus_div_mult_eq_mod)

end
