(* ===== verification/TopParse.thy ===== *)
theory TopParse
  imports GoFloat "HOL-Library.AList"
begin

text \<open>
  \<open>internal/top/top.go\<close>, the first half, and \<open>ParseSession\<close> of \<open>session.go\<close>: what \<open>wslkit top\<close>
  measures, and how it reads the answer of the script that runs inside a distribution. The script
  prints one \<open>key=value\<close> line per counter; the keys of a cgroup that belongs to no distribution
  carry the prefix \<open>g.\<close>, the name of the cgroup and a dot. A counter whose file is not there prints
  no line, and must not be read as zero.
\<close>

section \<open>Data\<close>

datatype attribution = NoMethod | MethodCgroup | MethodProcesses

datatype row_kind = KindDistro | KindWSL | KindCgroup | KindWSLC

record pressure =
  psi_cpu :: f64
  psi_memory :: f64
  psi_io :: f64

record rates =
  ra_cpu :: "f64 option"
  ra_read :: "f64 option"
  ra_write :: "f64 option"
  ra_throttled :: "f64 option"

definition no_rates :: rates where
  "no_rates = \<lparr>ra_cpu = None, ra_read = None, ra_write = None, ra_throttled = None\<rparr>"

datatype top_error =
    NothingRead string
  | MethodNotSaid string
  | GuestFailed string
  | SessionNothingRead string

record sample =
  sm_distro :: string
  sm_kind :: row_kind
  sm_method :: attribution
  sm_memory :: u64
  sm_anon :: "u64 option"
  sm_peak :: "u64 option"
  sm_swap :: "u64 option"
  sm_oom_kills :: "u64 option"
  sm_pids :: "u64 option"
  sm_read :: "u64 option"
  sm_write :: "u64 option"
  sm_pressure :: "pressure option"
  sm_mem_high :: "u64 option"
  sm_mem_max :: "u64 option"
  sm_cpu_limit :: "f64 option"
  sm_throttled :: "u64 option"
  sm_disk_used :: "u64 option"
  sm_disk_size :: "u64 option"
  sm_host_disk :: "u64 option"
  sm_processes :: int
  sm_cpu :: u64
  sm_at :: u64
  sm_init :: string
  sm_cgroup :: string
  sm_image :: string
  sm_err :: "top_error option"
  sm_rates :: rates

text \<open>A struct literal with a name, a kind and a method; every other field has its zero value.\<close>

definition new_sample :: "string \<Rightarrow> row_kind \<Rightarrow> attribution \<Rightarrow> sample" where
  "new_sample name kind m =
     \<lparr>sm_distro = name, sm_kind = kind, sm_method = m, sm_memory = 0, sm_anon = None,
      sm_peak = None, sm_swap = None, sm_oom_kills = None, sm_pids = None, sm_read = None,
      sm_write = None, sm_pressure = None, sm_mem_high = None, sm_mem_max = None,
      sm_cpu_limit = None, sm_throttled = None, sm_disk_used = None, sm_disk_size = None,
      sm_host_disk = None, sm_processes = 0, sm_cpu = 0, sm_at = 0, sm_init = [], sm_cgroup = [],
      sm_image = [], sm_err = None, sm_rates = no_rates\<rparr>"

record vm_rates =
  vr_cpu :: "f64 option"
  vr_net_rx :: "f64 option"
  vr_net_tx :: "f64 option"

definition no_vm_rates :: vm_rates where
  "no_vm_rates = \<lparr>vr_cpu = None, vr_net_rx = None, vr_net_tx = None\<rparr>"

record vm =
  vm_total :: u64
  vm_free :: u64
  vm_available :: u64
  vm_cached :: u64
  vm_anon :: u64
  vm_cpus :: int
  vm_uptime :: u64
  vm_swap_total :: u64
  vm_swap_free :: u64
  vm_cpu :: u64
  vm_net_rx :: u64
  vm_net_tx :: u64
  vm_has_net :: bool
  vm_pressure :: "pressure option"
  vm_at :: u64
  vm_rates :: vm_rates

definition no_vm :: vm where
  "no_vm =
     \<lparr>vm_total = 0, vm_free = 0, vm_available = 0, vm_cached = 0, vm_anon = 0, vm_cpus = 0,
      vm_uptime = 0, vm_swap_total = 0, vm_swap_free = 0, vm_cpu = 0, vm_net_rx = 0, vm_net_tx = 0,
      vm_has_net = False, vm_pressure = None, vm_at = 0, vm_rates = no_vm_rates\<rparr>"

definition used_bytes :: "vm \<Rightarrow> u64" where
  "used_bytes v = (if vm_total v < vm_free v then 0 else vm_total v - vm_free v)"

section \<open>Fields\<close>

text \<open>A Go map is an association list in the order in which its keys came; for the groups that is the
  order \<open>fields\<close> returns beside the map.\<close>

type_synonym key_values = "(string \<times> string) list"

type_synonym field_set = "key_values \<times> (string \<times> key_values) list"

definition dot :: char where "dot = CHR ''.''"

definition eq_sign :: char where "eq_sign = CHR ''=''"

definition group_prefix :: string where "group_prefix = ''g.''"

definition add_group_field :: "string \<Rightarrow> string \<Rightarrow> field_set \<Rightarrow> field_set" where
  "add_group_field rest v fs =
     (case last_index (\<lambda>c. c = dot) rest of
        None \<Rightarrow> fs
      | Some i \<Rightarrow>
          if i = 0 then fs
          else let name = take i rest; k = drop (Suc i) rest;
                   m = (case map_of (snd fs) name of None \<Rightarrow> [] | Some m \<Rightarrow> m)
               in (fst fs, AList.update name (AList.update k v m) (snd fs)))"

definition add_field :: "field_set \<Rightarrow> string \<Rightarrow> field_set" where
  "add_field fs raw =
     (let line = trim_space raw
      in case index_byte line eq_sign of
           None \<Rightarrow> fs
         | Some i \<Rightarrow>
             if i = 0 then fs
             else let key = take i line; v = trim_space (drop (Suc i) line)
                  in if has_prefix key group_prefix
                     then add_group_field (drop (length group_prefix) key) v fs
                     else (AList.update key v (fst fs), snd fs))"

definition top_fields :: "string \<Rightarrow> field_set" where
  "top_fields out =
     foldl add_field ([], []) (split_on newline (crlf_to_lf out))"

section \<open>Numbers\<close>

text \<open>Indexing a Go map with a key it does not have gives the empty string.\<close>

definition fld :: "key_values \<Rightarrow> string \<Rightarrow> string" where
  "fld f key = (case map_of f key of None \<Rightarrow> [] | Some v \<Rightarrow> v)"

definition fld_num :: "key_values \<Rightarrow> string \<Rightarrow> u64" where
  "fld_num f key = (case parse_uint 64 (fld f key) of None \<Rightarrow> 0 | Some n \<Rightarrow> of_nat n)"

definition fld_opt :: "key_values \<Rightarrow> string \<Rightarrow> u64 option" where
  "fld_opt f key =
     (case map_of f key of
        None \<Rightarrow> None
      | Some s \<Rightarrow> if s = [] then None
                  else case parse_uint 64 s of None \<Rightarrow> None | Some n \<Rightarrow> Some (of_nat n))"

definition fld_pressure :: "key_values \<Rightarrow> string \<Rightarrow> pressure option" where
  "fld_pressure f pre =
     (let c = parse_float (fld f (pre @ ''cpu''));
          m = parse_float (fld f (pre @ ''memory''));
          i = parse_float (fld f (pre @ ''io''))
      in if c = None \<and> m = None \<and> i = None then None
         else Some \<lparr>psi_cpu = (case c of None \<Rightarrow> 0 | Some x \<Rightarrow> x),
                    psi_memory = (case m of None \<Rightarrow> 0 | Some x \<Rightarrow> x),
                    psi_io = (case i of None \<Rightarrow> 0 | Some x \<Rightarrow> x)\<rparr>)"

definition fld_limit :: "key_values \<Rightarrow> string \<Rightarrow> u64 option" where
  "fld_limit f key = (if trim_space (fld f key) = ''max'' then None else fld_opt f key)"

definition fld_cpu_limit :: "key_values \<Rightarrow> string \<Rightarrow> f64 option" where
  "fld_cpu_limit f key =
     (case GoStd.fields (fld f key) of
        [q, p] \<Rightarrow>
          if q = ''max'' then None
          else (case (parse_float q, parse_float p) of
                  (Some quota, Some period) \<Rightarrow>
                    if period \<le> 0 then None else Some (to_f64 (quota / period))
                | _ \<Rightarrow> None)
      | _ \<Rightarrow> None)"

definition fld_kib :: "key_values \<Rightarrow> string \<Rightarrow> u64 option" where
  "fld_kib f key = (case fld_opt f key of None \<Rightarrow> None | Some v \<Rightarrow> Some (v * 1024))"

definition cgroup_counters :: "key_values \<Rightarrow> sample \<Rightarrow> sample" where
  "cgroup_counters f s =
     s\<lparr>sm_memory := fld_num f ''memory_bytes'',
       sm_anon := fld_opt f ''anon_bytes'',
       sm_cpu := fld_num f ''cpu_usec'',
       sm_at := fld_num f ''at_csec'',
       sm_peak := fld_opt f ''peak_bytes'',
       sm_swap := fld_opt f ''swap_bytes'',
       sm_oom_kills := fld_opt f ''oom_kills'',
       sm_pids := fld_opt f ''pids'',
       sm_read := fld_opt f ''read_bytes'',
       sm_write := fld_opt f ''write_bytes'',
       sm_pressure := fld_pressure f ''psi_'',
       sm_mem_high := fld_limit f ''mem_high'',
       sm_mem_max := fld_limit f ''mem_max'',
       sm_cpu_limit := fld_cpu_limit f ''cpu_max'',
       sm_throttled := fld_opt f ''throttled_usec''\<rparr>"

definition fld_vm :: "u64 \<Rightarrow> key_values \<Rightarrow> vm" where
  "fld_vm hz f =
     (let net = (case (fld_opt f ''net_rx_bytes'', fld_opt f ''net_tx_bytes'') of
                   (Some rx, Some tx) \<Rightarrow> (rx, tx, True) | _ \<Rightarrow> (0, 0, False))
      in \<lparr>vm_total = fld_num f ''mem_total_kb'' * 1024,
          vm_free = fld_num f ''mem_free_kb'' * 1024,
          vm_available = fld_num f ''mem_available_kb'' * 1024,
          vm_cached = fld_num f ''mem_cached_kb'' * 1024,
          vm_anon = fld_num f ''mem_anon_kb'' * 1024,
          vm_cpus = sint (fld_num f ''cpus''),
          vm_uptime = fld_num f ''uptime_sec'',
          vm_swap_total = fld_num f ''swap_total_kb'' * 1024,
          vm_swap_free = fld_num f ''swap_free_kb'' * 1024,
          vm_cpu = fld_num f ''vm_cpu_ticks'' * 1000000 div hz,
          vm_net_rx = fst net, vm_net_tx = fst (snd net), vm_has_net = snd (snd net),
          vm_pressure = fld_pressure f ''vm_psi_'',
          vm_at = fld_num f ''vm_at_csec'',
          vm_rates = no_vm_rates\<rparr>)"

definition clock_hz :: "key_values \<Rightarrow> u64" where
  "clock_hz f = (let hz = fld_num f ''clock_hz'' in if hz = 0 then 100 else hz)"

section \<open>One distribution, the groups, one session\<close>

text \<open>An answer without any line gives the empty map, which \<open>len(own) == 0\<close> tests.\<close>

definition parse_sample :: "string \<Rightarrow> string \<Rightarrow> sample \<times> vm \<times> top_error option" where
  "parse_sample distro out =
     (case top_fields out of (own, groups) \<Rightarrow>
        if own = [] then (new_sample distro KindDistro NoMethod, no_vm, Some (NothingRead distro))
        else
          let hz = clock_hz own;
              s = (new_sample distro KindDistro NoMethod)
                    \<lparr>sm_processes := sint (fld_num own ''processes''), sm_init := fld own ''init''\<rparr>;
              done_with = (\<lambda>s. (s\<lparr>sm_disk_size := fld_kib own ''disk_size_kb'',
                                  sm_disk_used := fld_kib own ''disk_used_kb''\<rparr>, fld_vm hz own, None))
          in if fld own ''method'' = ''cgroup''
             then done_with (cgroup_counters own
                    (s\<lparr>sm_method := MethodCgroup, sm_cgroup := fld own ''cgroup_path''\<rparr>))
             else if fld own ''method'' = ''processes''
             then done_with (s\<lparr>sm_method := MethodProcesses,
                    sm_memory := fld_num own ''memory_kb'' * 1024,
                    sm_cpu := fld_num own ''cpu_ticks'' * 1000000 div hz,
                    sm_at := fld_num own ''at_csec''\<rparr>)
             else (s, no_vm, Some (MethodNotSaid distro)))"

definition group_row :: "string \<times> key_values \<Rightarrow> sample option" where
  "group_row = (\<lambda>(name, f).
     (if map_of f ''memory_bytes'' = None then None
      else Some (cgroup_counters f
             (if name = ''wsl''
              then (new_sample name KindWSL MethodCgroup)\<lparr>sm_cgroup := ''/wsl-user/non-distro''\<rparr>
              else (new_sample name KindCgroup MethodCgroup)\<lparr>sm_cgroup := ''/'' @ name\<rparr>))))"

definition parse_groups :: "string \<Rightarrow> sample list" where
  "parse_groups out =
     (case top_fields out of (own, groups) \<Rightarrow> List.map_filter group_row groups)"

text \<open>\<open>containerNames\<close>, over the objects the lines of \<open>wslc list\<close> decode to: the id as it prints
  it, the name and the image. The map is a list in the order in which ranging over it goes.\<close>

record container_line =
  cl_id :: string
  cl_names :: string
  cl_image :: string

definition short_id :: "string \<Rightarrow> string" where
  "short_id i = (if length i > 12 then take 12 i else i)"

definition container_line_of :: "(string \<Rightarrow> container_line option) \<Rightarrow> string \<Rightarrow> (string \<times> string \<times> string) option" where
  "container_line_of decode raw =
     (let line = trim_space raw
      in if \<not> has_prefix line ''{'' then None
         else case decode line of
                None \<Rightarrow> None
              | Some c \<Rightarrow>
                  if cl_id c = [] then None
                  else Some (cl_id c, if cl_names c = [] then short_id (cl_id c) else cl_names c, cl_image c))"

definition container_names :: "(string \<Rightarrow> container_line option) \<Rightarrow> string \<Rightarrow> (string \<times> string \<times> string) list" where
  "container_names decode listing = List.map_filter (container_line_of decode) (split_on newline listing)"

definition container_row :: "(string \<times> string \<times> string) list \<Rightarrow> string \<times> key_values \<Rightarrow> sample option" where
  "container_row names = (\<lambda>(i, g).
     (if map_of g ''memory_bytes'' = None then None
      else let c = (new_sample (short_id i) KindWSLC MethodCgroup)\<lparr>sm_cgroup := ''/docker/'' @ i\<rparr>;
               c' = (case find (\<lambda>(short, info). has_prefix i short) names of
                       None \<Rightarrow> c
                     | Some (short, name, img) \<Rightarrow> c\<lparr>sm_distro := name, sm_image := img\<rparr>)
           in Some (cgroup_counters g c')))"

record host_vm =
  hv_pid :: u32
  hv_created :: int
  hv_working_set :: u64

record session =
  se_name :: string
  se_vm :: vm
  se_containers :: "sample list"
  se_host :: "host_vm option"
  se_disk :: "u64 option"
  se_started :: bool
  se_err :: "top_error option"
  se_sampled_at :: "int option"

definition empty_session :: "string \<Rightarrow> session" where
  "empty_session name =
     \<lparr>se_name = name, se_vm = no_vm, se_containers = [], se_host = None, se_disk = None,
      se_started = False, se_err = None, se_sampled_at = None\<rparr>"

definition parse_session ::
  "(string \<Rightarrow> container_line option) \<Rightarrow> string \<Rightarrow> string \<Rightarrow> string \<Rightarrow> session \<times> top_error option"
where
  "parse_session decode name out listing =
     (case top_fields out of (own, groups) \<Rightarrow>
        if own = [] then (empty_session name, Some (SessionNothingRead name))
        else ((empty_session name)
                \<lparr>se_vm := fld_vm (clock_hz own) own,
                 se_containers := List.map_filter (container_row (container_names decode listing)) groups\<rparr>,
              None))"

section \<open>What the script prints is what is read\<close>

definition field_line :: "string \<times> string \<Rightarrow> string" where
  "field_line kv = fst kv @ eq_sign # snd kv"

definition group_line :: "string \<Rightarrow> string \<times> string \<Rightarrow> string" where
  "group_line name kv = group_prefix @ name @ dot # field_line kv"

definition script_lines :: "key_values \<Rightarrow> (string \<times> key_values) list \<Rightarrow> key_values \<Rightarrow> string list" where
  "script_lines own groups vm_kvs =
     map field_line own @ concat (map (\<lambda>(name, kvs). map (group_line name) kvs) groups)
     @ map field_line vm_kvs"

definition script_output :: "string \<Rightarrow> string list \<Rightarrow> string" where
  "script_output nl ls = concat (map (\<lambda>l. l @ nl) ls)"

definition single_line :: "string \<Rightarrow> bool" where
  "single_line s \<longleftrightarrow> newline \<notin> set s \<and> carriage_return \<notin> set s"

definition clean_pair :: "string \<times> string \<Rightarrow> bool" where
  "clean_pair kv \<longleftrightarrow>
     fst kv \<noteq> [] \<and> eq_sign \<notin> set (fst kv) \<and> dot \<notin> set (fst kv) \<and> (\<forall>c \<in> set (fst kv). \<not> is_space c)
     \<and> single_line (snd kv) \<and> trim_space (snd kv) = snd kv"

definition clean_pairs :: "key_values \<Rightarrow> bool" where
  "clean_pairs kvs \<longleftrightarrow> list_all clean_pair kvs \<and> distinct (map fst kvs)"

definition clean_groups :: "(string \<times> key_values) list \<Rightarrow> bool" where
  "clean_groups gs \<longleftrightarrow>
     list_all (\<lambda>(name, kvs). name \<noteq> [] \<and> eq_sign \<notin> set name \<and> single_line name
                             \<and> kvs \<noteq> [] \<and> clean_pairs kvs) gs
     \<and> distinct (map fst gs)"

lemma alist_update_new: "k \<notin> fst ` set al \<Longrightarrow> AList.update k v al = al @ [(k, v)]"
  by (induction al) auto

lemma alist_update_last: "k \<notin> fst ` set al \<Longrightarrow> AList.update k v (al @ [(k, w)]) = al @ [(k, v)]"
  by (induction al) auto

lemma map_of_last: "k \<notin> fst ` set al \<Longrightarrow> map_of (al @ [(k, w)]) k = Some w"
  by (induction al) auto

lemma clean_value_tail:
  assumes "trim_space v = v"
  shows "v = [] \<or> \<not> is_space (last v)" "trim_space v = v"
  using trim_right_last[of is_space "trim_left is_space v"] assms by (auto simp: trim_space_def)

lemma field_line_trimmed:
  assumes c: "clean_pair kv" and p: "pre = [] \<or> \<not> is_space (hd pre)"
  shows "trim_space (pre @ field_line kv) = pre @ field_line kv"
proof -
  have e: "\<not> is_space eq_sign" by (simp add: is_space_def eq_sign_def)
  have "\<not> is_space (hd (pre @ field_line kv))"
    using c p by (cases pre; cases "fst kv") (auto simp: clean_pair_def field_line_def)
  moreover have "\<not> is_space (last (pre @ field_line kv))"
    using clean_value_tail(1)[of "snd kv"] c e by (auto simp: clean_pair_def field_line_def)
  ultimately show ?thesis by (intro trim_space_id) auto
qed

lemma add_own_field:
  assumes "clean_pair kv" and "fst kv \<notin> fst ` set own"
  shows "add_field (own, gs) (field_line kv) = (own @ [kv], gs)"
proof -
  have t: "trim_space (field_line kv) = field_line kv"
    using field_line_trimmed[OF assms(1), of "[]"] by simp
  have "\<not> has_prefix (fst kv) group_prefix"
    using assms(1) by (auto simp: has_prefix_iff clean_pair_def group_prefix_def dot_def)
  then show ?thesis
    using assms
    by (simp add: add_field_def t) (simp add: field_line_def index_byte_append_stop clean_pair_def alist_update_new)
qed

lemma add_group_line:
  assumes "clean_pair kv" and "name \<noteq> []" and "eq_sign \<notin> set name"
  shows "add_field fs (group_line name kv)
         = (fst fs, AList.update name
              (AList.update (fst kv) (snd kv) (case map_of (snd fs) name of None \<Rightarrow> [] | Some m \<Rightarrow> m)) (snd fs))"
proof -
  have t: "trim_space (group_line name kv) = group_line name kv"
    using field_line_trimmed[OF assms(1), of "group_prefix @ name @ [dot]"]
    by (simp add: group_line_def group_prefix_def is_space_def)
  have e: "eq_sign \<notin> set (group_prefix @ name @ dot # fst kv)"
    using assms by (simp add: clean_pair_def group_prefix_def eq_sign_def dot_def)
  have i: "index_byte (group_line name kv) eq_sign = Some (length (group_prefix @ name @ dot # fst kv))"
    using index_byte_append_stop[OF e, of "snd kv"] by (simp add: group_line_def field_line_def)
  have k: "take (length (group_prefix @ name @ dot # fst kv)) (group_line name kv)
           = group_prefix @ name @ dot # fst kv"
    and v: "drop (Suc (length (group_prefix @ name @ dot # fst kv))) (group_line name kv) = snd kv"
    by (simp_all add: group_line_def field_line_def)
  have d: "last_index (\<lambda>c. c = dot) (name @ dot # fst kv) = Some (length name)"
    using assms(1) by (intro last_index_append_stop) (auto simp: clean_pair_def)
  have tv: "trim_space (snd kv) = snd kv" using assms(1) by (simp add: clean_pair_def)
  show ?thesis
    unfolding add_field_def Let_def t i option.case k v tv
    using assms(2) by (simp add: add_group_field_def d)
qed

lemma fold_own:
  "list_all clean_pair kvs \<Longrightarrow> distinct (map fst (own @ kvs)) \<Longrightarrow>
   foldl add_field (own, gs) (map field_line kvs) = (own @ kvs, gs)"
  by (induction kvs arbitrary: own) (auto simp: add_own_field)

lemma fold_group_more:
  "list_all clean_pair kvs \<Longrightarrow> distinct (map fst (m @ kvs)) \<Longrightarrow> name \<noteq> [] \<Longrightarrow> eq_sign \<notin> set name \<Longrightarrow>
   name \<notin> fst ` set gs \<Longrightarrow>
   foldl add_field (own, gs @ [(name, m)]) (map (group_line name) kvs) = (own, gs @ [(name, m @ kvs)])"
  by (induction kvs arbitrary: m)
    (simp_all add: add_group_line alist_update_last alist_update_new map_of_last del: map_of_append)

lemma fold_group:
  assumes "clean_pairs kvs" and "kvs \<noteq> []" and "name \<noteq> []" and "eq_sign \<notin> set name"
    and "name \<notin> fst ` set gs"
  shows "foldl add_field (own, gs) (map (group_line name) kvs) = (own, gs @ [(name, kvs)])"
proof (cases kvs)
  case (Cons kv rest)
  have "map_of gs name = None" using assms(5) by (simp add: map_of_eq_None_iff)
  then have "add_field (own, gs) (group_line name kv) = (own, gs @ [(name, [kv])])"
    using assms Cons by (simp add: add_group_line clean_pairs_def alist_update_new)
  then show ?thesis
    using fold_group_more[of rest "[kv]" name gs own] assms Cons by (simp add: clean_pairs_def)
qed (use assms in simp)

lemma fold_groups:
  "list_all (\<lambda>(name, kvs). name \<noteq> [] \<and> eq_sign \<notin> set name \<and> single_line name \<and> kvs \<noteq> [] \<and> clean_pairs kvs) gs \<Longrightarrow>
   distinct (map fst (gs0 @ gs)) \<Longrightarrow>
   foldl add_field (own, gs0) (concat (map (\<lambda>(name, kvs). map (group_line name) kvs) gs)) = (own, gs0 @ gs)"
proof (induction gs arbitrary: gs0)
  case (Cons g gs)
  obtain name kvs where g: "g = (name, kvs)" by (cases g)
  have "foldl add_field (own, gs0) (map (group_line name) kvs) = (own, gs0 @ [(name, kvs)])"
    using Cons.prems g by (intro fold_group) auto
  then show ?case using Cons.IH[of "gs0 @ [(name, kvs)]"] Cons.prems g by simp
qed simp

lemma field_line_single_line:
  assumes "clean_pair kv"
  shows "single_line (field_line kv)"
proof -
  have "is_space newline" "is_space carriage_return" "newline \<noteq> eq_sign" "carriage_return \<noteq> eq_sign"
    by (simp_all add: is_space_def newline_def carriage_return_def eq_sign_def)
  then show ?thesis
    using assms by (auto simp: clean_pair_def single_line_def field_line_def)
qed

lemma script_lines_single_line:
  assumes "clean_pairs (own @ vm_kvs)" and "clean_groups gs" and "l \<in> set (script_lines own gs vm_kvs)"
  shows "single_line l"
proof -
  have sp: "single_line (group_prefix @ name @ dot # field_line kv)" if "single_line name" "clean_pair kv" for name kv
    using field_line_single_line[OF that(2)] that(1)
    by (simp add: single_line_def group_prefix_def dot_def newline_def carriage_return_def)
  show ?thesis
    using assms field_line_single_line sp
    by (fastforce simp: script_lines_def clean_pairs_def clean_groups_def list_all_iff group_line_def)
qed

lemma crlf_line:
  assumes "carriage_return \<notin> set l"
  shows "crlf_to_lf (l @ carriage_return # newline # s) = l @ newline # crlf_to_lf s"
    and "crlf_to_lf (l @ newline # s) = l @ newline # crlf_to_lf s"
proof -
  have step: "crlf_to_lf (c # t) = c # crlf_to_lf t" if "c \<noteq> carriage_return" for c t
    using that by (cases t) auto
  have nl: "newline \<noteq> carriage_return" by (simp add: newline_def carriage_return_def)
  show "crlf_to_lf (l @ carriage_return # newline # s) = l @ newline # crlf_to_lf s"
    and "crlf_to_lf (l @ newline # s) = l @ newline # crlf_to_lf s"
    using assms by (induction l) (auto simp: step nl)
qed

lemma split_script_output:
  assumes "nl = [newline] \<or> nl = [carriage_return, newline]" and "\<And>l. l \<in> set ls \<Longrightarrow> single_line l"
  shows "split_on newline (crlf_to_lf (script_output nl ls)) = ls @ [[]]"
  using assms(2)
proof (induction ls)
  case (Cons l ls)
  have l: "single_line l" using Cons.prems by simp
  have "crlf_to_lf (script_output nl (l # ls)) = l @ newline # crlf_to_lf (script_output nl ls)"
    using assms(1) l crlf_line[of l "script_output nl ls"] by (auto simp: script_output_def single_line_def)
  then show ?case using Cons l by (simp add: split_on_append single_line_def)
qed (simp add: script_output_def)



text \<open>A counter that was printed is read exactly; one that was not is unknown, not zero.\<close>

lemma fld_opt_printed: "map_of f key = Some (format_uint (unat n)) \<Longrightarrow> fld_opt f key = Some n"
  using parse_format_uint[of "unat n" 64] unsigned_less[of n, where ?'a = nat] by (simp add: fld_opt_def)

lemma fld_opt_missing: "map_of f key = None \<Longrightarrow> fld_opt f key = None"
  by (simp add: fld_opt_def)

text \<open>A cgroup that a program creates at the root under the name \<open>wsl\<close> is printed with the prefix
  of WSL's own group: one row is left, named WSL itself, with the counters of the other.\<close>

lemma cgroup_named_wsl_takes_over:
  "top_fields (script_output [newline] (script_lines []
     [(''wsl'', [(''memory_bytes'', ''100'')]), (''wsl'', [(''memory_bytes'', ''7'')])] []))
   = ([], [(''wsl'', [(''memory_bytes'', ''7'')])])"
  by code_simp

end
