(* ===== verification/TopRates.thy ===== *)
theory TopRates
  imports TopParse
begin

text \<open>
  \<open>internal/top/top.go\<close>, the report and what changed between two of them, and \<open>sessionRates\<close> of
  \<open>session.go\<close>. A rate divides by the guest's own clock where both samples carry it, and by the
  interval that was asked for otherwise.
\<close>

section \<open>The report\<close>

record top_host =
  ho_utility :: "host_vm option"
  ho_others :: "host_vm list"
  ho_err :: "string option"

record sections =
  sec_wsl :: bool
  sec_wslc :: bool

definition wanted_sections :: "sections \<Rightarrow> bool \<times> bool" where
  "wanted_sections s = (if \<not> sec_wsl s \<and> \<not> sec_wslc s then (True, True) else (sec_wsl s, sec_wslc s))"

record top_report =
  tr_vm :: vm
  tr_samples :: "sample list"
  tr_groups :: "sample list"
  tr_interval :: int
  tr_notes :: "string list"
  tr_sampled_at :: "int option"
  tr_started_at :: "int option"
  tr_host :: "top_host option"
  tr_sessions :: "session list"
  tr_wslc_present :: bool
  tr_sections :: sections
  tr_filtered :: bool

definition empty_report :: top_report where
  "empty_report =
     \<lparr>tr_vm = no_vm, tr_samples = [], tr_groups = [], tr_interval = 0, tr_notes = [],
      tr_sampled_at = None, tr_started_at = None, tr_host = None, tr_sessions = [],
      tr_wslc_present = False, tr_sections = \<lparr>sec_wsl = False, sec_wslc = False\<rparr>, tr_filtered = False\<rparr>"

definition total_memory :: "sample list \<Rightarrow> u64" where
  "total_memory ss = foldl (\<lambda>n s. n + sm_memory s) 0 ss"

definition attributed :: "top_report \<Rightarrow> u64" where
  "attributed r = total_memory (tr_samples r)"

definition group_bytes :: "top_report \<Rightarrow> u64" where
  "group_bytes r = total_memory (tr_groups r)"

definition has_rates :: "top_report \<Rightarrow> bool" where
  "has_rates r \<longleftrightarrow> 0 < tr_interval r"

fun method_from :: "attribution \<Rightarrow> sample list \<Rightarrow> attribution" where
  "method_from seen [] = seen"
| "method_from seen (s # ss) =
     (if sm_err s \<noteq> None \<or> sm_method s = NoMethod then method_from seen ss
      else if seen = NoMethod then method_from (sm_method s) ss
      else if seen \<noteq> sm_method s then NoMethod
      else method_from seen ss)"

definition report_method :: "top_report \<Rightarrow> attribution" where
  "report_method r = method_from NoMethod (tr_samples r)"

section \<open>Rates\<close>

definition elapsed :: "u64 \<Rightarrow> u64 \<Rightarrow> int \<Rightarrow> int" where
  "elapsed before after interval =
     (if 0 < before \<and> before < after then sint ((after - before) * 10 * of_int millisecond) else interval)"

definition per_second :: "u64 \<Rightarrow> u64 \<Rightarrow> int \<Rightarrow> f64 option" where
  "per_second before after over =
     (if over \<le> 0 \<or> after < before then None
      else Some (to_f64 (to_f64 (of_int (uint (after - before))) / duration_seconds over)))"

definition opt_per_second :: "u64 option \<Rightarrow> u64 option \<Rightarrow> int \<Rightarrow> f64 option" where
  "opt_per_second before after over =
     (case (before, after) of (Some b, Some a) \<Rightarrow> per_second b a over | _ \<Rightarrow> None)"

text \<open>A count of microseconds per second as a percentage.\<close>

definition percent :: "f64 \<Rightarrow> f64" where
  "percent p = to_f64 (to_f64 (p / 10 ^ 6) * 100)"

definition throttled_percent :: "u64 option \<Rightarrow> u64 option \<Rightarrow> int \<Rightarrow> f64 option" where
  "throttled_percent before after over = map_option percent (opt_per_second before after over)"

definition cpu_percent :: "sample \<Rightarrow> sample \<Rightarrow> int \<Rightarrow> f64 option" where
  "cpu_percent before after interval =
     (let over = elapsed (sm_at before) (sm_at after) interval
      in if duration_microseconds over = 0 then None
         else map_option percent (per_second (sm_cpu before) (sm_cpu after) over))"

definition sample_rates :: "sample \<Rightarrow> sample \<Rightarrow> int \<Rightarrow> rates" where
  "sample_rates before after interval =
     (let over = elapsed (sm_at before) (sm_at after) interval
      in \<lparr>ra_cpu = cpu_percent before after interval,
          ra_read = opt_per_second (sm_read before) (sm_read after) over,
          ra_write = opt_per_second (sm_write before) (sm_write after) over,
          ra_throttled = throttled_percent (sm_throttled before) (sm_throttled after) over\<rparr>)"

definition vm_rates_between :: "vm \<Rightarrow> vm \<Rightarrow> int \<Rightarrow> vm_rates" where
  "vm_rates_between b a interval =
     (if vm_total b = 0 \<or> vm_total a = 0 then no_vm_rates
      else let over = elapsed (vm_at b) (vm_at a) interval;
               net = (vm_has_net b \<and> vm_has_net a)
           in \<lparr>vr_cpu = map_option percent (per_second (vm_cpu b) (vm_cpu a) over),
               vr_net_rx = (if net then per_second (vm_net_rx b) (vm_net_rx a) over else None),
               vr_net_tx = (if net then per_second (vm_net_tx b) (vm_net_tx a) over else None)\<rparr>)"

text \<open>The map of the rows before: of two rows with the same kind and name the later one is in it.\<close>

definition row_key :: "sample \<Rightarrow> row_kind \<times> string" where
  "row_key s = (sm_kind s, sm_distro s)"

definition row_before :: "sample list \<Rightarrow> row_kind \<times> string \<Rightarrow> sample option" where
  "row_before before k = find (\<lambda>s. row_key s = k) (rev before)"

definition rate_row :: "sample list \<Rightarrow> int \<Rightarrow> sample \<Rightarrow> sample" where
  "rate_row before interval s =
     s\<lparr>sm_rates := (case row_before before (row_key s) of
                      None \<Rightarrow> no_rates
                    | Some b \<Rightarrow> if sm_err b = None \<and> sm_err s = None
                                then sample_rates b (s\<lparr>sm_rates := no_rates\<rparr>) interval else no_rates)\<rparr>"

definition rates_for :: "sample list \<Rightarrow> sample list \<Rightarrow> int \<Rightarrow> sample list" where
  "rates_for before after interval = map (rate_row before interval) after"

definition rate_session :: "session list \<Rightarrow> int \<Rightarrow> session \<Rightarrow> session" where
  "rate_session before interval s =
     (case find (\<lambda>b. se_name b = se_name s) (rev before) of
        None \<Rightarrow> s
      | Some b \<Rightarrow>
          if se_err b = None \<and> se_err s = None
          then s\<lparr>se_containers := rates_for (se_containers b) (se_containers s) interval,
                 se_vm := (se_vm s)\<lparr>vm_rates := vm_rates_between (se_vm b) (se_vm s) interval\<rparr>,
                 se_started := (se_started s \<or> se_started b)\<rparr>
          else s)"

definition session_rates :: "session list \<Rightarrow> session list \<Rightarrow> int \<Rightarrow> session list" where
  "session_rates before after interval = map (rate_session before interval) after"

definition with_rates :: "top_report \<Rightarrow> top_report \<Rightarrow> int \<Rightarrow> top_report" where
  "with_rates before after interval =
     after\<lparr>tr_interval := interval,
           tr_samples := rates_for (tr_samples before) (tr_samples after) interval,
           tr_groups := rates_for (tr_groups before) (tr_groups after) interval,
           tr_vm := (tr_vm after)\<lparr>vm_rates := vm_rates_between (tr_vm before) (tr_vm after) interval\<rparr>,
           tr_sessions := session_rates (tr_sessions before) (tr_sessions after) interval\<rparr>"

section \<open>A rate is never invented\<close>

lemma counter_nonneg: "0 \<le> (unsigned (w :: u64) :: rat)"
  by (metis of_int_0_le_iff of_int_uint uint_ge_0)

lemma per_second_Some:
  "per_second b a over = Some v \<Longrightarrow> b \<le> a \<and> 0 < over \<and> 0 \<le> v"
  by (auto simp: per_second_def not_le not_less split: if_splits
      intro!: to_f64_nonneg divide_nonneg_nonneg duration_seconds_nonneg counter_nonneg)

lemma percent_nonneg: "0 \<le> p \<Longrightarrow> 0 \<le> percent p"
  by (simp add: percent_def to_f64_nonneg)

lemma opt_per_second_Some:
  assumes "opt_per_second b a over = Some v"
  shows "\<exists>x y. b = Some x \<and> a = Some y \<and> x \<le> y \<and> 0 < over \<and> 0 \<le> v"
  using assms by (auto simp: opt_per_second_def dest: per_second_Some split: option.splits)

definition all_rates :: "rates \<Rightarrow> f64 option list" where
  "all_rates r = [ra_cpu r, ra_read r, ra_write r, ra_throttled r]"

lemma cpu_percent_Some:
  "cpu_percent b a i = Some v \<Longrightarrow> sm_cpu b \<le> sm_cpu a \<and> 0 \<le> v"
  by (auto simp: cpu_percent_def Let_def percent_nonneg split: if_splits dest!: per_second_Some)

lemma throttled_percent_Some:
  "throttled_percent b a over = Some v \<Longrightarrow> \<exists>x y. b = Some x \<and> a = Some y \<and> x \<le> y \<and> 0 \<le> v"
  by (auto simp: throttled_percent_def percent_nonneg dest!: opt_per_second_Some)

lemma sample_rates_nonneg: "Some v \<in> set (all_rates (sample_rates b a i)) \<Longrightarrow> 0 \<le> v"
  unfolding all_rates_def sample_rates_def Let_def
  by (auto dest!: opt_per_second_Some cpu_percent_Some throttled_percent_Some dest: sym[of "Some v"])

text \<open>A row was measured twice when the report before has a row of the same kind and name, and
  neither failed.\<close>

definition measured_twice :: "sample list \<Rightarrow> sample \<Rightarrow> sample \<Rightarrow> bool" where
  "measured_twice before b s \<longleftrightarrow>
     b \<in> set before \<and> row_key b = row_key s \<and> sm_err b = None \<and> sm_err s = None"

lemma row_before_Some: "row_before before k = Some b \<Longrightarrow> b \<in> set before \<and> row_key b = k"
  by (auto simp: row_before_def find_Some_iff) (metis nth_mem rev_nth set_rev length_rev)

lemma rate_row_cases:
  assumes "Some v \<in> set (all_rates (sm_rates (rate_row before interval s)))"
  obtains b where "measured_twice before b s"
    and "sm_rates (rate_row before interval s) = sample_rates b (s\<lparr>sm_rates := no_rates\<rparr>) interval"
proof -
  have "\<not> Some v \<in> set (all_rates no_rates)" by (simp add: all_rates_def no_rates_def)
  then show ?thesis
    using assms that row_before_Some[of before "row_key s"]
    by (auto simp: rate_row_def measured_twice_def split: option.splits if_splits)
qed

text \<open>C27: a rate is only reported for a row that was measured without error in both sweeps, and
  each rate comes from the counters of its own: the counter was read both times and did not go
  backwards, which would mean that what it counts started again. No rate is negative, and nothing
  else about a row changes.\<close>

theorem rate_is_never_invented:
  assumes "s \<in> set (tr_samples (with_rates before after interval))"
  shows "(\<exists>s0 \<in> set (tr_samples after). s = s0\<lparr>sm_rates := sm_rates s\<rparr>)
       \<and> (\<forall>v. Some v \<in> set (all_rates (sm_rates s)) \<longrightarrow>
             0 \<le> v \<and> (\<exists>b. measured_twice (tr_samples before) b s
               \<and> (ra_cpu (sm_rates s) \<noteq> None \<longrightarrow> sm_cpu b \<le> sm_cpu s)
               \<and> (ra_read (sm_rates s) \<noteq> None \<longrightarrow> (\<exists>x y. sm_read b = Some x \<and> sm_read s = Some y \<and> x \<le> y))
               \<and> (ra_write (sm_rates s) \<noteq> None \<longrightarrow> (\<exists>x y. sm_write b = Some x \<and> sm_write s = Some y \<and> x \<le> y))
               \<and> (ra_throttled (sm_rates s) \<noteq> None \<longrightarrow>
                    (\<exists>x y. sm_throttled b = Some x \<and> sm_throttled s = Some y \<and> x \<le> y))))"
proof -
  obtain s0 where s0: "s0 \<in> set (tr_samples after)" "s = rate_row (tr_samples before) interval s0"
    using assms by (auto simp: with_rates_def rates_for_def)
  have same: "s = s0\<lparr>sm_rates := sm_rates s\<rparr>" by (simp add: s0 rate_row_def)
  have "0 \<le> v \<and> (\<exists>b. measured_twice (tr_samples before) b s
      \<and> (ra_cpu (sm_rates s) \<noteq> None \<longrightarrow> sm_cpu b \<le> sm_cpu s)
      \<and> (ra_read (sm_rates s) \<noteq> None \<longrightarrow> (\<exists>x y. sm_read b = Some x \<and> sm_read s = Some y \<and> x \<le> y))
      \<and> (ra_write (sm_rates s) \<noteq> None \<longrightarrow> (\<exists>x y. sm_write b = Some x \<and> sm_write s = Some y \<and> x \<le> y))
      \<and> (ra_throttled (sm_rates s) \<noteq> None \<longrightarrow>
           (\<exists>x y. sm_throttled b = Some x \<and> sm_throttled s = Some y \<and> x \<le> y)))"
    if v: "Some v \<in> set (all_rates (sm_rates s))" for v
  proof -
    from v obtain b where b: "measured_twice (tr_samples before) b s0"
      and r: "sm_rates s = sample_rates b (s0\<lparr>sm_rates := no_rates\<rparr>) interval"
      unfolding s0 by (rule rate_row_cases)
    have f: "sm_cpu s = sm_cpu s0" "sm_read s = sm_read s0" "sm_write s = sm_write s0"
      "sm_throttled s = sm_throttled s0" "measured_twice (tr_samples before) b s"
      using b by (simp_all add: s0 rate_row_def measured_twice_def row_key_def)
    have "0 \<le> v" using v sample_rates_nonneg unfolding r by blast
    moreover have "ra_cpu (sm_rates s) \<noteq> None \<longrightarrow> sm_cpu b \<le> sm_cpu s"
      unfolding r f by (auto simp: sample_rates_def Let_def dest: cpu_percent_Some)
    moreover have "ra_read (sm_rates s) \<noteq> None \<longrightarrow> (\<exists>x y. sm_read b = Some x \<and> sm_read s = Some y \<and> x \<le> y)"
      unfolding r f by (auto simp: sample_rates_def Let_def dest: opt_per_second_Some)
    moreover have "ra_write (sm_rates s) \<noteq> None \<longrightarrow> (\<exists>x y. sm_write b = Some x \<and> sm_write s = Some y \<and> x \<le> y)"
      unfolding r f by (auto simp: sample_rates_def Let_def dest: opt_per_second_Some)
    moreover have "ra_throttled (sm_rates s) \<noteq> None \<longrightarrow>
        (\<exists>x y. sm_throttled b = Some x \<and> sm_throttled s = Some y \<and> x \<le> y)"
      unfolding r f by (auto simp: sample_rates_def Let_def dest: throttled_percent_Some)
    ultimately show ?thesis using f(5) by blast
  qed
  then show ?thesis using s0(1) same by blast
qed

definition example_row :: "u64 \<Rightarrow> u64 \<Rightarrow> sample" where
  "example_row n t = (new_sample ''Debian'' KindDistro MethodCgroup)\<lparr>sm_read := Some n, sm_at := t\<rparr>"

definition example_report :: "u64 \<Rightarrow> u64 \<Rightarrow> top_report" where
  "example_report n t = empty_report\<lparr>tr_samples := [example_row n t]\<rparr>"

text \<open>A counter that restarted gives no rate.\<close>

lemma example_restarted:
  "rate_row [example_row 9000 100] 1000000000 (example_row 12 300)
   = (example_row 12 300)\<lparr>sm_rates := no_rates\<lparr>ra_cpu := Some 0\<rparr>\<rparr>"
  by (simp add: rate_row_def row_before_def row_key_def example_row_def new_sample_def sample_rates_def
      cpu_percent_def elapsed_def millisecond_def duration_microseconds_def quot_def per_second_def
      percent_def opt_per_second_def throttled_percent_def no_rates_def)

theorem rate_is_never_invented_witness:
  "\<exists>s0 \<in> set (tr_samples (example_report 12 300)).
     (example_row 12 300)\<lparr>sm_rates := no_rates\<lparr>ra_cpu := Some 0\<rparr>\<rparr>
     = s0\<lparr>sm_rates := no_rates\<lparr>ra_cpu := Some 0\<rparr>\<rparr>"
proof -
  let ?s = "(example_row 12 300)\<lparr>sm_rates := no_rates\<lparr>ra_cpu := Some 0\<rparr>\<rparr>"
  have "?s \<in> set (tr_samples (with_rates (example_report 9000 100) (example_report 12 300) 1000000000))"
    by (simp add: with_rates_def rates_for_def example_report_def example_restarted)
  from rate_is_never_invented[OF this] show ?thesis by simp
qed

end
