(* ===== verification/TopHost.thy ===== *)
theory TopHost
  imports TopRates "HOL-Library.Multiset"
begin

text \<open>
  \<open>internal/top/host.go\<close>: the Windows side of a report. Every virtual machine is a \<open>vmmem\<close> process;
  which one belongs to which machine is told by when it was created, which is when the guest booted.
  An instant is a number of nanoseconds since 1970, and \<open>None\<close> is the zero \<open>Time\<close>.
\<close>

section \<open>Claiming a process\<close>

definition match_tolerance :: int where "match_tolerance = 3 * second_ns"

text \<open>The difference saturates, and the absolute value of the smallest one is itself.\<close>

definition near :: "int \<Rightarrow> host_vm \<Rightarrow> bool" where
  "near boot v = (let d = sub_time (hv_created v) boot; d = (if d < 0 then wrap64 (- d) else d)
                  in d \<le> match_tolerance)"

text \<open>The loop: \<open>None\<close> when a second process matches, else where the one that does is.\<close>

fun claim_loop :: "int \<Rightarrow> nat \<Rightarrow> nat option \<Rightarrow> host_vm list \<Rightarrow> nat option option" where
  "claim_loop boot i m [] = Some m"
| "claim_loop boot i m (v # vs) =
     (if near boot v
      then (if m \<noteq> None then None else claim_loop boot (Suc i) (Some i) vs)
      else claim_loop boot (Suc i) m vs)"

definition claim :: "host_vm list \<Rightarrow> int \<Rightarrow> host_vm option \<times> host_vm list" where
  "claim vms boot =
     (case claim_loop boot 0 None vms of
        Some (Some m) \<Rightarrow> (Some (vms ! m), take m vms @ drop (Suc m) vms)
      | _ \<Rightarrow> (None, vms))"

definition match_host :: "host_vm list \<Rightarrow> int \<Rightarrow> top_host" where
  "match_host vms boot = (let c = claim vms boot in \<lparr>ho_utility = fst c, ho_others = snd c, ho_err = None\<rparr>)"

definition boot_of :: "int option \<Rightarrow> u64 \<Rightarrow> int option" where
  "boot_of sampled_at csec =
     (case sampled_at of
        None \<Rightarrow> None
      | Some t \<Rightarrow> if csec = 0 then None else Some (t + sint (- csec * 10 * of_int millisecond)))"

definition session_boot :: "session \<Rightarrow> int option \<Rightarrow> int option" where
  "session_boot s sampled_at = boot_of sampled_at (vm_at (se_vm s))"

definition utility_boot :: "top_report \<Rightarrow> int option" where
  "utility_boot r = boot_of (tr_sampled_at r) (vm_at (tr_vm r))"

definition claim_session :: "int option \<Rightarrow> int option \<Rightarrow> session \<Rightarrow> host_vm list \<Rightarrow> session \<times> host_vm list" where
  "claim_session sampled_at sweep_started s others =
     (let at_time = (if se_sampled_at s = None then sampled_at else se_sampled_at s)
      in case session_boot s at_time of
           None \<Rightarrow> (s, others)
         | Some boot \<Rightarrow>
             if se_err s \<noteq> None then (s, others)
             else case claim others boot of
                    (v, rest) \<Rightarrow>
                      (s\<lparr>se_host := v,
                         se_started := (case (v, sweep_started) of
                                          (Some p, Some t) \<Rightarrow> hv_created p > t | _ \<Rightarrow> se_started s)\<rparr>,
                       rest))"

fun claim_sessions :: "int option \<Rightarrow> int option \<Rightarrow> session list \<Rightarrow> host_vm list \<Rightarrow> session list \<times> host_vm list" where
  "claim_sessions sampled_at started [] others = ([], others)"
| "claim_sessions sampled_at started (s # ss) others =
     (case claim_session sampled_at started s others of
        (s', rest) \<Rightarrow> (case claim_sessions sampled_at started ss rest of (ss', left) \<Rightarrow> (s' # ss', left)))"

text \<open>\<open>readHost\<close>, over what the reader of the host answers; \<open>None\<close> is a runner without one.\<close>

definition read_host :: "(string + host_vm list) option \<Rightarrow> top_report \<Rightarrow> top_report" where
  "read_host answer r =
     (case answer of
        None \<Rightarrow> r
      | Some (Inl e) \<Rightarrow> r\<lparr>tr_host := Some \<lparr>ho_utility = None, ho_others = [], ho_err = Some e\<rparr>\<rparr>
      | Some (Inr vms) \<Rightarrow>
          let h = (case utility_boot r of
                     None \<Rightarrow> \<lparr>ho_utility = None, ho_others = vms, ho_err = None\<rparr>
                   | Some boot \<Rightarrow> match_host vms boot);
              c = claim_sessions (tr_sampled_at r) (tr_started_at r) (tr_sessions r) (ho_others h)
          in r\<lparr>tr_sessions := fst c, tr_host := Some (h\<lparr>ho_others := snd c\<rparr>)\<rparr>)"

section \<open>WMI dates\<close>

definition leap_year :: "int \<Rightarrow> bool" where
  "leap_year y \<longleftrightarrow> y mod 4 = 0 \<and> (y mod 100 \<noteq> 0 \<or> y mod 400 = 0)"

definition days_in :: "int \<Rightarrow> nat \<Rightarrow> int" where
  "days_in y m = (if m = 2 \<and> leap_year y then 29
                  else [31, 28, 31, 30, 31, 30, 31, 31, 30, 31, 30, 31] ! (m - 1))"

definition days_before_year :: "int \<Rightarrow> int" where
  "days_before_year y = 365 * y + (y + 3) div 4 - (y + 99) div 100 + (y + 399) div 400"

definition days_since_1970 :: "int \<Rightarrow> nat \<Rightarrow> int \<Rightarrow> int" where
  "days_since_1970 y m d = days_before_year y + sum_list (map (days_in y) [1..<m]) + d - 1 - 719528"

definition two_digits :: "string \<Rightarrow> nat \<Rightarrow> nat option" where
  "two_digits s i =
     (let t = take 2 (drop i s) in if list_all is_digit t then Some (digits_val t) else None)"

text \<open>\<open>time.Parse\<close> with the layout \<open>20060102150405.000000\<close>, on a text of that length; the fraction is
  read as a number, so it may carry a plus sign.\<close>

definition parse_time_layout :: "string \<Rightarrow> int option" where
  "parse_time_layout s =
     (if \<not> list_all is_digit (take 4 s) then None
      else let y = int (digits_val (take 4 s))
           in case (two_digits s 4, two_digits s 6, two_digits s 8, two_digits s 10, two_digits s 12,
                    atoi (drop 15 s)) of
                (Some mo, Some d, Some h, Some mi, Some sec, Some us) \<Rightarrow>
                  if mo < 1 \<or> 12 < mo \<or> d < 1 \<or> int d > days_in y mo \<or> 24 \<le> h \<or> 60 \<le> mi \<or> 60 \<le> sec \<or> us < 0
                  then None
                  else Some ((((days_since_1970 y mo (int d) * 24 + int h) * 60 + int mi) * 60 + int sec)
                               * second_ns + us * 1000)
              | _ \<Rightarrow> None)"

definition parse_cim_datetime :: "string \<Rightarrow> int option" where
  "parse_cim_datetime s =
     (if length s \<noteq> 25 \<or> s ! 14 \<noteq> dot \<or> (s ! 21 \<noteq> CHR ''+'' \<and> s ! 21 \<noteq> CHR ''-'') then None
      else case (parse_time_layout (take 21 s), atoi (drop 22 s)) of
             (Some t, Some off) \<Rightarrow>
               let off = (if s ! 21 = CHR ''-'' then - off else off) in Some (t - off * 60 * second_ns)
           | _ \<Rightarrow> None)"

section \<open>Every machine is counted once\<close>

lemma claim_loop_found:
  "claim_loop boot i m vs = Some r \<Longrightarrow>
   (case r of
      None \<Rightarrow> m = None \<and> filter (near boot) vs = []
    | Some k \<Rightarrow> (m = Some k \<and> filter (near boot) vs = []) \<or>
                (m = None \<and> i \<le> k \<and> k - i < length vs \<and> filter (near boot) vs = [vs ! (k - i)]))"
proof (induction vs arbitrary: i m)
  case (Cons v vs)
  show ?case
  proof (cases "near boot v")
    case True
    then have "m = None" "claim_loop boot (Suc i) (Some i) vs = Some r"
      using Cons.prems by (auto split: if_splits)
    then show ?thesis using Cons.IH[of "Suc i" "Some i"] True by (auto split: option.splits)
  next
    case False
    then have "claim_loop boot (Suc i) m vs = Some r" using Cons.prems by simp
    then show ?thesis
      using Cons.IH[of "Suc i" m] False
      by (cases r) (auto simp: nth_Cons' Suc_diff_le)
  qed
qed (auto split: option.splits)

lemma claim_loop_ambiguous:
  "claim_loop boot i m vs = None \<Longrightarrow> length (filter (near boot) vs) + (if m = None then 0 else 1) \<ge> 2"
  by (induction boot i m vs rule: claim_loop.induct) (auto split: if_splits)

text \<open>A process is claimed exactly when it is the only one that was created at that moment.\<close>

lemma claim_Some_iff: "fst (claim vms boot) = Some v \<longleftrightarrow> filter (near boot) vms = [v]"
proof (cases "claim_loop boot 0 None vms")
  case None
  then have "length (filter (near boot) vms) \<ge> 2" using claim_loop_ambiguous[of boot 0 None vms] by simp
  then show ?thesis using None by (auto simp: claim_def)
next
  case (Some r)
  then show ?thesis
    using claim_loop_found[OF Some] by (cases r) (auto simp: claim_def)
qed

definition claimed :: "host_vm option \<Rightarrow> host_vm multiset" where
  "claimed v = (case v of None \<Rightarrow> {#} | Some v \<Rightarrow> {#v#})"

lemma claim_keeps: "claimed (fst (claim vms boot)) + mset (snd (claim vms boot)) = mset vms"
proof (cases "claim_loop boot 0 None vms")
  case (Some r)
  show ?thesis
  proof (cases r)
    case (Some k)
    then have k: "k < length vms" using claim_loop_found[OF \<open>claim_loop boot 0 None vms = Some r\<close>] by simp
    then have "vms = take k vms @ vms ! k # drop (Suc k) vms" by (rule id_take_nth_drop)
    then have "mset vms = mset (take k vms @ vms ! k # drop (Suc k) vms)" by simp
    then show ?thesis using Some \<open>claim_loop boot 0 None vms = Some r\<close> by (simp add: claim_def claimed_def)
  qed (use Some in \<open>simp add: claim_def claimed_def\<close>)
qed (simp add: claim_def claimed_def)

definition claimed_by :: "session list \<Rightarrow> host_vm multiset" where
  "claimed_by ss = sum_list (map (\<lambda>s. claimed (se_host s)) ss)"

lemma claim_session_keeps:
  assumes "se_host s = None" and "claim_session t0 t1 s others = (s', rest)"
  shows "claimed (se_host s') + mset rest = mset others"
proof (cases "session_boot s (if se_sampled_at s = None then t0 else se_sampled_at s)")
  case (Some boot)
  obtain v left where c: "claim others boot = (v, left)" by fastforce
  have "claimed v + mset left = mset others" using claim_keeps[of others boot] c by simp
  then show ?thesis
    using assms Some c by (auto simp: claim_session_def Let_def claimed_def[of None] split: if_splits)
qed (use assms in \<open>simp add: claim_session_def Let_def claimed_def\<close>)

lemma claim_sessions_keeps:
  "\<forall>s \<in> set ss. se_host s = None \<Longrightarrow> claim_sessions t0 t1 ss others = (ss', left) \<Longrightarrow>
   claimed_by ss' + mset left = mset others"
proof (induction ss arbitrary: others ss' left)
  case (Cons s ss)
  obtain s1 rest where s1: "claim_session t0 t1 s others = (s1, rest)" by fastforce
  obtain ss1 l1 where ss1: "claim_sessions t0 t1 ss rest = (ss1, l1)" by fastforce
  have "claimed_by ss1 + mset l1 = mset rest" using Cons ss1 by simp
  moreover have "claimed (se_host s1) + mset rest = mset others"
    using Cons.prems s1 by (intro claim_session_keeps) auto
  ultimately show ?case
    using Cons.prems(2) s1 ss1 by (auto simp: claimed_by_def) (metis add.assoc add.commute)
qed (simp add: claimed_by_def)

text \<open>C21: every virtual machine Windows is running is in the report exactly once: as the utility VM,
  as the VM of one wslc session, or among the others; none is shown twice and none is lost. A process
  is taken for the utility VM only if it alone was created within three seconds of the boot.\<close>

theorem every_vm_counted_once:
  assumes "\<forall>s \<in> set (tr_sessions r). se_host s = None"
  shows "\<exists>h. tr_host (read_host (Some (Inr vms)) r) = Some h
           \<and> claimed (ho_utility h) + claimed_by (tr_sessions (read_host (Some (Inr vms)) r))
             + mset (ho_others h) = mset vms
           \<and> (\<forall>v. ho_utility h = Some v \<longleftrightarrow>
                 (\<exists>boot. utility_boot r = Some boot \<and> filter (near boot) vms = [v]))"
proof -
  define h where "h = (case utility_boot r of None \<Rightarrow> \<lparr>ho_utility = None, ho_others = vms, ho_err = None\<rparr>
                   | Some boot \<Rightarrow> match_host vms boot)"
  obtain ss left where c: "claim_sessions (tr_sampled_at r) (tr_started_at r) (tr_sessions r) (ho_others h) = (ss, left)"
    by fastforce
  have h_all: "claimed (ho_utility h) + mset (ho_others h) = mset vms"
    using claim_keeps[of vms] by (auto simp: h_def match_host_def Let_def claimed_def[of None] split: option.splits)
  have h_ut: "ho_utility h = Some v \<longleftrightarrow> (\<exists>boot. utility_boot r = Some boot \<and> filter (near boot) vms = [v])" for v
    by (auto simp: h_def match_host_def Let_def claim_Some_iff split: option.splits)
  have r': "tr_host (read_host (Some (Inr vms)) r) = Some (h\<lparr>ho_others := left\<rparr>)"
    "tr_sessions (read_host (Some (Inr vms)) r) = ss"
    using c by (simp_all add: read_host_def h_def Let_def split: option.splits)
  have "claimed_by ss + mset left = mset (ho_others h)"
    using claim_sessions_keeps[OF assms c] .
  then have "claimed (ho_utility h) + claimed_by ss + mset left = mset vms"
    using h_all by (simp add: union_assoc)
  then show ?thesis using r' h_ut by simp
qed

definition example_vmmem :: "u32 \<Rightarrow> int \<Rightarrow> host_vm" where
  "example_vmmem pid t = \<lparr>hv_pid = pid, hv_created = t * second_ns, hv_working_set = 4096\<rparr>"

definition example_host_report :: top_report where
  "example_host_report =
     empty_report\<lparr>tr_vm := no_vm\<lparr>vm_at := 100\<rparr>, tr_sampled_at := Some (50 * second_ns),
                  tr_started_at := Some (48 * second_ns),
                  tr_sessions := [(empty_session ''dev'')\<lparr>se_vm := no_vm\<lparr>vm_at := 1000\<rparr>\<rparr>]\<rparr>"

theorem every_vm_counted_once_witness:
  "\<exists>h. tr_host (read_host (Some (Inr [example_vmmem 7 49, example_vmmem 8 40])) example_host_report) = Some h
     \<and> claimed (ho_utility h)
       + claimed_by (tr_sessions (read_host (Some (Inr [example_vmmem 7 49, example_vmmem 8 40])) example_host_report))
       + mset (ho_others h) = mset [example_vmmem 7 49, example_vmmem 8 40]"
proof -
  have "\<forall>s \<in> set (tr_sessions example_host_report). se_host s = None"
    by (simp add: example_host_report_def empty_session_def)
  from every_vm_counted_once[OF this, of "[example_vmmem 7 49, example_vmmem 8 40]"] show ?thesis by blast
qed

end
