(* ===== verification/TopCollect.thy ===== *)
theory TopCollect
  imports TopHost
begin

text \<open>
  \<open>internal/top/collect.go\<close> and \<open>sweepSessions\<close> of \<open>session.go\<close>: one sweep over the running
  distributions and wslc sessions, and a report from two sweeps. Every distribution is measured by a
  goroutine of its own that writes its own element of the slice of results, so the order in which they
  end does not show: the slice is the list of the measurements. What the machine answers during a
  sweep is a record of functions, \<open>None\<close> where the runner does not implement the optional interface.
\<close>

record moment =
  mo_started :: int
  mo_sampled :: int
  mo_running :: "string + string list"
  mo_sample :: "string \<Rightarrow> string + string"
  mo_sessions :: "(string + string list option) option"
  mo_session :: "string \<Rightarrow> (string + string) \<times> int"
  mo_containers :: "string \<Rightarrow> string"
  mo_decode :: "string \<Rightarrow> container_line option"
  mo_session_disk :: "(string \<Rightarrow> u64 option) option"
  mo_disk_sizes :: "(string + (string \<Rightarrow> u64 option)) option"
  mo_host_vms :: "(string + host_vm list) option"

record top_options =
  to_interval :: int
  to_only :: "string list"
  to_sections :: sections

definition intersect :: "string list \<Rightarrow> string list \<Rightarrow> string list" where
  "intersect have want = filter (\<lambda>h. list_ex (equal_fold h) want) have"

definition measure_distro :: "moment \<Rightarrow> string \<Rightarrow> sample \<times> vm \<times> sample list" where
  "measure_distro m name =
     (case mo_sample m name of
        Inl e \<Rightarrow> ((new_sample name KindDistro NoMethod)\<lparr>sm_err := Some (GuestFailed e)\<rparr>, no_vm, [])
      | Inr out \<Rightarrow>
          (case parse_sample name out of
             (s, v, Some e) \<Rightarrow> (s\<lparr>sm_err := Some e\<rparr>, no_vm, [])
           | (s, v, None) \<Rightarrow> (s, v, parse_groups out)))"

definition measure_session :: "moment \<Rightarrow> string \<Rightarrow> session" where
  "measure_session m name =
     (case mo_session m name of
        (Inl e, t) \<Rightarrow> (empty_session name)\<lparr>se_err := Some (GuestFailed e)\<rparr>
      | (Inr out, t) \<Rightarrow>
          (case parse_session (mo_decode m) name out (mo_containers m name) of
             (s, e) \<Rightarrow>
               let s1 = s\<lparr>se_err := e,
                          se_disk := (case mo_session_disk m of None \<Rightarrow> None | Some d \<Rightarrow> d name),
                          se_sampled_at := Some t\<rparr>
               in s1\<lparr>se_started := (case session_boot s1 (Some t) of
                                     None \<Rightarrow> False | Some boot \<Rightarrow> boot > mo_started m)\<rparr>))"

definition sweep_sessions :: "moment \<Rightarrow> string + string list option \<Rightarrow> session list \<times> bool \<times> string option" where
  "sweep_sessions m listed =
     (case listed of
        Inl e \<Rightarrow> ([], True, Some e)
      | Inr None \<Rightarrow> ([], False, None)
      | Inr (Some names) \<Rightarrow> (map (measure_session m) names, True, None))"

definition add_result :: "top_report \<Rightarrow> sample \<times> vm \<times> sample list \<Rightarrow> top_report" where
  "add_result r = (\<lambda>(s, v, gs).
     (let r1 = r\<lparr>tr_samples := tr_samples r @ [s]\<rparr>
      in if vm_total (tr_vm r) = 0 \<and> vm_total v \<noteq> 0 then r1\<lparr>tr_vm := v, tr_groups := gs\<rparr> else r1))"

definition add_disk :: "(string \<Rightarrow> u64 option) \<Rightarrow> sample \<Rightarrow> sample" where
  "add_disk sizes s =
     (case sizes (to_lower (sm_distro s)) of None \<Rightarrow> s | Some n \<Rightarrow> s\<lparr>sm_host_disk := Some n\<rparr>)"

definition wanted_names :: "moment \<Rightarrow> top_options \<Rightarrow> string + string list" where
  "wanted_names m opts =
     (if \<not> fst (wanted_sections (to_sections opts)) then Inr []
      else case mo_running m of
             Inl e \<Rightarrow> Inl e
           | Inr names \<Rightarrow> Inr (if to_only opts \<noteq> [] then intersect names (to_only opts) else names))"

definition with_sessions :: "moment \<Rightarrow> top_options \<Rightarrow> top_report \<Rightarrow> top_report" where
  "with_sessions m opts r =
     (case mo_sessions m of
        None \<Rightarrow> r
      | Some listed \<Rightarrow>
          if \<not> snd (wanted_sections (to_sections opts)) then r
          else case sweep_sessions m listed of
                 (ss, present, err) \<Rightarrow>
                   r\<lparr>tr_wslc_present := present, tr_sessions := ss,
                     tr_notes := tr_notes r @ (case err of None \<Rightarrow> []
                       | Some e \<Rightarrow> [''wslc sessions could not be listed: '' @ e])\<rparr>)"

definition with_disks :: "moment \<Rightarrow> top_report \<Rightarrow> top_report" where
  "with_disks m r =
     (case mo_disk_sizes m of
        Some (Inr sizes) \<Rightarrow> r\<lparr>tr_samples := map (add_disk sizes) (tr_samples r)\<rparr>
      | _ \<Rightarrow> r)"

definition sweep_report :: "moment \<Rightarrow> top_options \<Rightarrow> string list \<Rightarrow> top_report" where
  "sweep_report m opts names =
     foldl add_result
       (empty_report\<lparr>tr_sampled_at := Some (mo_sampled m), tr_started_at := Some (mo_started m),
                     tr_sections := to_sections opts, tr_filtered := (to_only opts \<noteq> [])\<rparr>)
       (map (measure_distro m) names)"

definition sweep_machine :: "moment \<Rightarrow> top_options \<Rightarrow> string + top_report" where
  "sweep_machine m opts =
     (case wanted_names m opts of
        Inl e \<Rightarrow> Inl e
      | Inr names \<Rightarrow>
          Inr (read_host (mo_host_vms m) (with_disks m (with_sessions m opts (sweep_report m opts names)))))"

text \<open>\<open>Collect\<close>: what the machine answers in the first sweep and in the second, and whether the
  caller gave up while it waited between them.\<close>

definition collect :: "moment \<Rightarrow> bool \<Rightarrow> moment \<Rightarrow> top_options \<Rightarrow> top_report \<times> string option" where
  "collect m1 cancelled m2 opts =
     (case sweep_machine m1 opts of
        Inl e \<Rightarrow> (empty_report, Some e)
      | Inr first \<Rightarrow>
          if to_interval opts \<le> 0 \<or> (tr_samples first = [] \<and> tr_sessions first = []) then (first, None)
          else if cancelled then (first, Some ''context canceled'')
          else case sweep_machine m2 opts of
                 Inl e \<Rightarrow> (first, Some e)
               | Inr second \<Rightarrow>
                   let second = (if vm_total (tr_vm second) = 0 then second\<lparr>tr_vm := tr_vm first\<rparr> else second)
                   in (with_rates first second (to_interval opts), None))"

section \<open>One distribution does not hide another\<close>

lemma parse_sample_distro: "parse_sample d out = (s, v, e) \<Longrightarrow> sm_distro s = d"
  by (auto simp: parse_sample_def new_sample_def cgroup_counters_def Let_def split: prod.splits if_splits)

lemma measure_distro_named: "sm_distro (fst (measure_distro m d)) = d"
  by (auto simp: measure_distro_def new_sample_def dest: parse_sample_distro split: sum.splits prod.splits option.splits)

definition first_vm :: "(sample \<times> vm \<times> sample list) list \<Rightarrow> vm \<times> sample list" where
  "first_vm rs = (case find (\<lambda>(s, v, gs). vm_total v \<noteq> 0) rs of
                    None \<Rightarrow> (no_vm, []) | Some (s, v, gs) \<Rightarrow> (v, gs))"

lemma add_results:
  "tr_samples (foldl add_result r rs) = tr_samples r @ map fst rs"
  "tr_sections (foldl add_result r rs) = tr_sections r"
  "(tr_vm (foldl add_result r rs), tr_groups (foldl add_result r rs))
   = (if vm_total (tr_vm r) \<noteq> 0 \<or> (\<forall>x \<in> set rs. vm_total (fst (snd x)) = 0) then (tr_vm r, tr_groups r)
      else first_vm rs)"
  by (induction rs arbitrary: r) (auto simp: add_result_def Let_def first_vm_def split: prod.splits)

lemma read_host_rest:
  "tr_samples (read_host a r) = tr_samples r" "tr_vm (read_host a r) = tr_vm r"
  "tr_groups (read_host a r) = tr_groups r" "tr_interval (read_host a r) = tr_interval r"
  by (auto simp: read_host_def Let_def split: option.splits sum.splits)

lemma with_sessions_rest:
  "tr_samples (with_sessions m opts r) = tr_samples r" "tr_vm (with_sessions m opts r) = tr_vm r"
  "tr_groups (with_sessions m opts r) = tr_groups r"
  by (auto simp: with_sessions_def split: option.splits prod.splits)

definition with_disk_of :: "moment \<Rightarrow> sample \<Rightarrow> sample" where
  "with_disk_of m s = (case mo_disk_sizes m of Some (Inr sizes) \<Rightarrow> add_disk sizes s | _ \<Rightarrow> s)"

lemma with_disks_rest:
  "tr_samples (with_disks m r) = map (with_disk_of m) (tr_samples r)" "tr_vm (with_disks m r) = tr_vm r"
  "tr_groups (with_disks m r) = tr_groups r"
  by (cases "mo_disk_sizes m"; auto simp: with_disks_def with_disk_of_def[abs_def] split: sum.splits)+

text \<open>a sweep has one row for every distribution it was asked for, in their order, and each row
  depends only on what that distribution answered: one that fails, prints nothing or is shutting down
  hides no other. The figures of the VM and of the cgroups outside the distributions, which all of
  them report, are those of the first distribution that gave any.\<close>

theorem sweep_measures_each_alone:
  assumes "wanted_names m opts = Inr names"
  shows "\<exists>r. sweep_machine m opts = Inr r
           \<and> tr_samples r = map (\<lambda>d. with_disk_of m (fst (measure_distro m d))) names
           \<and> map sm_distro (tr_samples r) = names
           \<and> (tr_vm r, tr_groups r) = first_vm (map (measure_distro m) names)"
proof -
  define r where "r = read_host (mo_host_vms m) (with_disks m (with_sessions m opts (sweep_report m opts names)))"
  have s: "tr_samples r = map (\<lambda>d. with_disk_of m (fst (measure_distro m d))) names"
    by (simp add: r_def read_host_rest with_disks_rest with_sessions_rest sweep_report_def add_results
        empty_report_def)
  have "sm_distro (with_disk_of m x) = sm_distro x" for x
    by (auto simp: with_disk_of_def add_disk_def split: option.splits sum.splits)
  then have n: "map sm_distro (tr_samples r) = names"
    by (simp add: s o_def measure_distro_named)
  have "first_vm rs = (no_vm, [])" if "\<forall>x \<in> set rs. vm_total (fst (snd x)) = 0" for rs
    using that by (auto simp: first_vm_def find_Some_iff split: option.splits) (metis fst_conv nth_mem snd_conv)+
  then have "(tr_vm r, tr_groups r) = first_vm (map (measure_distro m) names)"
    using add_results(3)[of "empty_report\<lparr>tr_sampled_at := Some (mo_sampled m), tr_started_at := Some (mo_started m),
        tr_sections := to_sections opts, tr_filtered := (to_only opts \<noteq> [])\<rparr>" "map (measure_distro m) names"]
    by (simp add: r_def read_host_rest with_disks_rest with_sessions_rest sweep_report_def empty_report_def no_vm_def)
  moreover have "sweep_machine m opts = Inr r" by (simp add: sweep_machine_def assms r_def)
  ultimately show ?thesis using s n by blast
qed

definition quiet_moment :: moment where
  "quiet_moment =
     \<lparr>mo_started = 0, mo_sampled = 1, mo_running = Inr [''Debian'', ''Alpine''],
      mo_sample = (\<lambda>d. if d = ''Debian'' then Inl ''timed out'' else Inr ''method=cgroup''),
      mo_sessions = None, mo_session = (\<lambda>s. (Inl ''none'', 0)), mo_containers = (\<lambda>s. []),
      mo_decode = (\<lambda>s. None), mo_session_disk = None, mo_disk_sizes = None, mo_host_vms = None\<rparr>"

definition plain_options :: top_options where
  "plain_options = \<lparr>to_interval = 10 ^ 9, to_only = [], to_sections = \<lparr>sec_wsl = False, sec_wslc = False\<rparr>\<rparr>"

theorem sweep_measures_each_alone_witness:
  "\<exists>r. sweep_machine quiet_moment plain_options = Inr r
     \<and> map sm_distro (tr_samples r) = [''Debian'', ''Alpine'']"
proof -
  have "wanted_names quiet_moment plain_options = Inr [''Debian'', ''Alpine'']"
    by (simp add: wanted_names_def quiet_moment_def plain_options_def wanted_sections_def)
  then show ?thesis using sweep_measures_each_alone by metis
qed

section \<open>A VM that stopped answering\<close>

text \<open>When the second sweep reads nothing of the VM, the report keeps the first sweep's figures and
  compares them with themselves: it shows a VM that used no processor and moved no data, where nothing
  was measured.\<close>

lemma per_second_same: "0 < over \<Longrightarrow> per_second n n over = Some 0"
  by (simp add: per_second_def)

lemma unread_vm_reads_idle:
  assumes "sweep_machine m1 opts = Inr first" and "sweep_machine m2 opts = Inr second"
    and "0 < to_interval opts" and "tr_samples first \<noteq> []"
    and "vm_total (tr_vm first) \<noteq> 0" and "vm_has_net (tr_vm first)" and "vm_total (tr_vm second) = 0"
  shows "vm_rates (tr_vm (fst (collect m1 False m2 opts)))
         = \<lparr>vr_cpu = Some 0, vr_net_rx = Some 0, vr_net_tx = Some 0\<rparr>"
  using assms
  by (simp add: collect_def with_rates_def vm_rates_between_def elapsed_def per_second_same percent_def Let_def)

end
