(* ===== verification/TopRender.thy ===== *)
theory TopRender
  imports TopRates
begin

text \<open>
  \<open>internal/top/top.go\<close>, the second half, and \<open>renderSessions\<close> of \<open>session.go\<close>: the report as text.
  A string is its UTF-8 bytes; where the code counts or cuts runes, \<open>rune_list\<close> breaks the bytes up as
  Go's conversion to \<open>[]rune\<close> does. Printing can panic in two ways, an index past the end of a slice
  and a negative count of spaces; the table is an option for that reason.
\<close>

section \<open>Runes\<close>

definition byte_in :: "nat \<Rightarrow> char \<Rightarrow> nat \<Rightarrow> bool" where
  "byte_in a c b \<longleftrightarrow> a \<le> of_char c \<and> of_char c \<le> b"

definition continuation :: "char \<Rightarrow> bool" where
  "continuation c \<longleftrightarrow> byte_in 0x80 c 0xBF"

text \<open>How many bytes the first rune has; a byte that starts no well-formed rune counts as one.\<close>

definition rune_size :: "string \<Rightarrow> nat" where
  "rune_size s =
     (case s of
        a # b # c # d # _ \<Rightarrow>
          if byte_in 0xC2 a 0xDF \<and> continuation b then 2
          else if byte_in 0xE0 a 0xEF
                  \<and> byte_in (if of_char a = (0xE0 :: nat) then 0xA0 else 0x80) b (if of_char a = (0xED :: nat) then 0x9F else 0xBF)
                  \<and> continuation c then 3
          else if byte_in 0xF0 a 0xF4
                  \<and> byte_in (if of_char a = (0xF0 :: nat) then 0x90 else 0x80) b (if of_char a = (0xF4 :: nat) then 0x8F else 0xBF)
                  \<and> continuation c \<and> continuation d then 4
          else 1
      | [a, b, c] \<Rightarrow>
          if byte_in 0xC2 a 0xDF \<and> continuation b then 2
          else if byte_in 0xE0 a 0xEF
                  \<and> byte_in (if of_char a = (0xE0 :: nat) then 0xA0 else 0x80) b (if of_char a = (0xED :: nat) then 0x9F else 0xBF)
                  \<and> continuation c then 3
          else 1
      | [a, b] \<Rightarrow> if byte_in 0xC2 a 0xDF \<and> continuation b then 2 else 1
      | _ \<Rightarrow> 1)"

lemma rune_size_pos [simp]: "0 < rune_size s"
  by (auto simp: rune_size_def split: list.splits)

function rune_list :: "string \<Rightarrow> string list" where
  "rune_list s = (if s = [] then [] else take (rune_size s) s # rune_list (drop (rune_size s) s))"
  by pat_completeness auto
termination by (relation "measure length") (use rune_size_pos in \<open>auto simp: diff_less\<close>)

declare rune_list.simps [simp del]

definition rune_count :: "string \<Rightarrow> nat" where
  "rune_count s = length (rune_list s)"

section \<open>Numbers\<close>

text \<open>The loop of \<open>FormatSize\<close>; the last unit takes whatever is left.\<close>

function size_loop :: "nat \<Rightarrow> nat \<Rightarrow> nat \<times> nat" where
  "size_loop v idx = (if idx < 4 \<and> 1048576 \<le> v then size_loop (v div 1024) (Suc idx) else (v, idx))"
  by pat_completeness auto
termination by (relation "measure (\<lambda>(v, idx). 4 - idx)") auto

declare size_loop.simps [simp del]

definition size_units :: "string list" where
  "size_units = [''KiB'', ''MiB'', ''GiB'', ''TiB'', ''PiB'']"

definition format_size :: "u64 \<Rightarrow> string" where
  "format_size b =
     (if unat b < 1024 then format_uint (unat b) @ '' B''
      else case size_loop (unat b) 0 of
             (v, idx) \<Rightarrow> format_uint (v div 1024) @ ''.'' @ format_uint (v mod 1024 * 10 div 1024) @ '' ''
                         @ size_units ! idx)"

definition opt_size :: "u64 option \<Rightarrow> string" where
  "opt_size p = (case p of None \<Rightarrow> ''-'' | Some n \<Rightarrow> format_size n)"

definition format_rate :: "f64 option \<Rightarrow> string" where
  "format_rate p = (case p of None \<Rightarrow> ''-'' | Some x \<Rightarrow> format_size (of_int \<lfloor>x\<rfloor>) @ ''/s'')"

definition format_percent :: "f64 option \<Rightarrow> string" where
  "format_percent p = (case p of None \<Rightarrow> ''-'' | Some x \<Rightarrow> format_1 x @ ''%'')"

definition format_uptime :: "u64 \<Rightarrow> string" where
  "format_uptime sec =
     (let d = unat sec div 86400; h = unat sec mod 86400 div 3600; m = unat sec mod 3600 div 60
      in if d > 0 then format_uint d @ '' d '' @ format_uint h @ '' h''
         else if h > 0 then format_uint h @ '' h '' @ format_uint m @ '' m''
         else if m > 0 then format_uint m @ '' m''
         else format_uint (unat sec) @ '' s'')"

text \<open>The memory limit that bites first, and the quota of processors.\<close>

definition format_limits :: "sample \<Rightarrow> string" where
  "format_limits s =
     (let mem = (case (sm_mem_high s, sm_mem_max s) of
                   (None, mx) \<Rightarrow> mx
                 | (Some hi, Some mx) \<Rightarrow> if mx < hi then Some mx else Some hi
                 | (Some hi, None) \<Rightarrow> Some hi);
          parts = (case mem of None \<Rightarrow> [] | Some n \<Rightarrow> [format_size n])
                  @ (case sm_cpu_limit s of None \<Rightarrow> [] | Some c \<Rightarrow> [format_shortest c @ '' CPU''])
      in if parts = [] then ''-'' else join_with '', '' parts)"

definition format_disk :: "sample \<Rightarrow> string" where
  "format_disk s =
     (let used = opt_size (sm_disk_used s); vhdx = opt_size (sm_host_disk s)
      in if used = ''-'' \<and> vhdx = ''-'' then ''-'' else used @ '' / '' @ vhdx)"

definition ellipsis :: string where "ellipsis = [CHR 0xE2, CHR 0x80, CHR 0xA6]"

definition short_image :: "string \<Rightarrow> string" where
  "short_image img =
     (let r = rune_list img
      in if r = [] then ''-'' else if length r \<le> 30 then img
         else ellipsis @ concat (drop (length r - 30 + 1) r))"

definition kind_name :: "row_kind \<Rightarrow> string" where
  "kind_name k = (case k of KindDistro \<Rightarrow> ''distribution'' | KindWSL \<Rightarrow> ''wsl''
                  | KindCgroup \<Rightarrow> ''cgroup'' | KindWSLC \<Rightarrow> ''wslc'')"

definition display_name :: "sample \<Rightarrow> string" where
  "display_name s = (if sm_kind s = KindWSL then ''WSL itself'' else sm_distro s)"

section \<open>The order of the rows\<close>

definition row_first :: "sample \<Rightarrow> sample \<Rightarrow> bool" where
  "row_first a b =
     (if (sm_err a \<noteq> None) \<noteq> (sm_err b \<noteq> None) then sm_err b \<noteq> None
      else sm_memory a > sm_memory b)"

definition sorted_rows :: "sample list \<Rightarrow> sample list" where
  "sorted_rows ss = stable_sort_by row_first ss"

section \<open>The table\<close>

record table =
  tb_headers :: "string list"
  tb_rows :: "string list list"

record columns =
  co_cgroup :: bool
  co_rates :: bool
  co_swap :: bool
  co_init :: bool
  co_limit :: bool
  co_cpu_limit :: bool
  co_disk :: bool
  co_containers :: bool

definition columns_of :: "sample list \<Rightarrow> bool \<Rightarrow> bool \<Rightarrow> columns" where
  "columns_of rows cg rated =
     \<lparr>co_cgroup = cg, co_rates = rated,
      co_swap = list_ex (\<lambda>s. case sm_swap s of None \<Rightarrow> False | Some n \<Rightarrow> 0 < n) rows,
      co_init = list_ex (\<lambda>s. sm_kind s = KindDistro \<and> sm_init s \<noteq> []) rows,
      co_limit = list_ex (\<lambda>s. sm_mem_high s \<noteq> None \<or> sm_mem_max s \<noteq> None \<or> sm_cpu_limit s \<noteq> None) rows,
      co_cpu_limit = list_ex (\<lambda>s. sm_cpu_limit s \<noteq> None) rows,
      co_disk = list_ex (\<lambda>s. sm_disk_used s \<noteq> None \<or> sm_host_disk s \<noteq> None) rows,
      co_containers = (rows \<noteq> [] \<and> list_all (\<lambda>s. sm_kind s = KindWSLC) rows)\<rparr>"

abbreviation opt_cells :: "bool \<Rightarrow> string list \<Rightarrow> string list" where
  "opt_cells b cs \<equiv> (if b then cs else [])"

definition table_headers :: "columns \<Rightarrow> string list" where
  "table_headers c =
     [''NAME'', if co_containers c then ''IMAGE'' else ''KIND'', ''MEMORY'']
     @ opt_cells (co_cgroup c) [''ANON'']
     @ opt_cells (co_swap c) [''SWAP'']
     @ opt_cells (co_rates c) (''CPU'' # opt_cells (co_cgroup c) [''READ'', ''WRITE''])
     @ (if co_cgroup c then [''PIDS'', ''STALL MEM/IO''] else [''PROCESSES''])
     @ opt_cells (co_limit c) [''LIMIT'']
     @ opt_cells (co_cpu_limit c \<and> co_rates c) [''THROTTLED'']
     @ opt_cells (co_disk c) [''DISK USED/FILE'']
     @ opt_cells (co_init c) [''INIT'']"

definition row_kind_cell :: "columns \<Rightarrow> sample \<Rightarrow> string" where
  "row_kind_cell c s =
     (if co_containers c then short_image (sm_image s)
      else if sm_kind s \<noteq> KindDistro then kind_name (sm_kind s) else ''distro'')"

definition stall_cell :: "sample \<Rightarrow> string" where
  "stall_cell s =
     (case sm_pressure s of None \<Rightarrow> ''-''
      | Some p \<Rightarrow> format_1 (psi_memory p) @ ''% / '' @ format_1 (psi_io p) @ ''%'')"

definition table_row :: "columns \<Rightarrow> nat \<Rightarrow> sample \<Rightarrow> string list" where
  "table_row c headers s =
     (if sm_err s \<noteq> None
      then [display_name s, row_kind_cell c s] @ replicate (headers - 3) ''-'' @ [''could not be measured'']
      else [display_name s, row_kind_cell c s, format_size (sm_memory s)]
           @ opt_cells (co_cgroup c) [opt_size (sm_anon s)]
           @ opt_cells (co_swap c) [opt_size (sm_swap s)]
           @ opt_cells (co_rates c)
               (format_percent (ra_cpu (sm_rates s))
                # opt_cells (co_cgroup c) [format_rate (ra_read (sm_rates s)), format_rate (ra_write (sm_rates s))])
           @ (if co_cgroup c
              then [case sm_pids s of None \<Rightarrow> ''-'' | Some n \<Rightarrow> format_uint (unat n), stall_cell s]
              else [format_int (sm_processes s)])
           @ opt_cells (co_limit c) [format_limits s]
           @ opt_cells (co_cpu_limit c \<and> co_rates c)
               [if sm_cpu_limit s \<noteq> None then format_percent (ra_throttled (sm_rates s)) else ''-'']
           @ opt_cells (co_disk c) [format_disk s]
           @ opt_cells (co_init c) [if sm_kind s = KindDistro then sm_init s else []])"

definition rows_table :: "sample list \<Rightarrow> bool \<Rightarrow> bool \<Rightarrow> table" where
  "rows_table rows cg rated =
     (let c = columns_of rows cg rated; hs = table_headers c
      in \<lparr>tb_headers = hs, tb_rows = map (table_row c (length hs)) rows\<rparr>)"

definition column_width :: "table \<Rightarrow> nat \<Rightarrow> nat" where
  "column_width t i =
     foldl (\<lambda>w row. if i < length row then max w (rune_count (row ! i)) else w)
           (rune_count (tb_headers t ! i)) (tb_rows t)"

definition column_widths :: "table \<Rightarrow> nat list" where
  "column_widths t = map (column_width t) [0..<length (tb_headers t)]"

definition cut_empty :: "string list \<Rightarrow> string list" where
  "cut_empty cells = rev (dropWhile (\<lambda>c. c = []) (rev cells))"

definition blank :: char where "blank = CHR '' ''"

fun pad_cells :: "nat list \<Rightarrow> string list \<Rightarrow> string option" where
  "pad_cells ws [] = Some []"
| "pad_cells ws [c] = Some c"
| "pad_cells [] (c # d # cs) = None"
| "pad_cells (w # ws) (c # d # cs) =
     (if w + 2 < rune_count c then None
      else map_option (\<lambda>r. c @ replicate (w + 2 - rune_count c) blank @ r) (pad_cells ws (d # cs)))"

definition table_lines :: "table \<Rightarrow> string list option" where
  "table_lines t = those (map (\<lambda>cells. pad_cells (column_widths t) (cut_empty cells)) (tb_headers t # tb_rows t))"

definition table_string :: "table \<Rightarrow> string option" where
  "table_string t = map_option (\<lambda>ls. concat (map (\<lambda>l. l @ [newline]) ls)) (table_lines t)"

section \<open>Sizes are never rounded up\<close>

lemma size_loop_div:
  "i \<le> 4 \<Longrightarrow> v = n div 1024 ^ i \<Longrightarrow> size_loop v i = (w, j) \<Longrightarrow> w = n div 1024 ^ j \<and> j \<le> 4"
proof (induction v i rule: size_loop.induct)
  case (1 v i)
  show ?case
  proof (cases "i < 4 \<and> 1048576 \<le> v")
    case True
    then have "size_loop (v div 1024) (Suc i) = (w, j)" using 1(4) size_loop.simps[of v i] by simp
    moreover have "v div 1024 = n div 1024 ^ Suc i" using 1(3) by (simp add: div_mult2_eq[symmetric] mult.commute)
    ultimately show ?thesis using 1(1) True by auto
  next
    case False
    then show ?thesis using 1(2,3,4) size_loop.simps[of v i] by auto
  qed
qed

lemma tenths: "10 * (w div 1024) + w mod 1024 * 10 div 1024 = 10 * w div (1024 :: nat)"
proof -
  have "w * 10 = (w div 1024 * 1024 + w mod 1024) * 10" by simp
  then have "10 * w = w mod 1024 * 10 + 10 * (w div 1024) * 1024" by (simp only: algebra_simps)
  then show ?thesis by simp
qed

lemma scaled_bounds:
  assumes "q = 10 * w div 1024" and "w * u \<le> b" and "b < (w + 1) * u"
  shows "q * (1024 * u) \<le> 10 * b \<and> 10 * b < (q + 1) * (1024 * u) + 10 * (u :: nat)"
proof -
  have "q * 1024 \<le> 10 * w" "10 * w + 1 \<le> (q + 1) * 1024" by (simp_all add: assms(1))
  then have "q * 1024 * u \<le> 10 * w * u" "10 * w * u + u \<le> (q + 1) * 1024 * u"
    by (metis mult_le_mono1, metis mult_le_mono1 distrib_right mult_1)
  moreover have "b + 1 \<le> w * u + u" using assms(3) by simp
  moreover have "q * (1024 * u) = q * 1024 * u" "(q + 1) * (1024 * u) = (q + 1) * 1024 * u"
    "10 * w * u = 10 * (w * u)" by (simp_all only: mult.assoc)
  ultimately show ?thesis using assms(2) by linarith
qed

text \<open>a size is printed with one decimal in a binary unit, and cut twice, never rounded up: the
  number shown is at most the size, and the size is less than a tenth of the unit and one of the next
  smaller units above it.\<close>

theorem format_size_truncates:
  assumes "1024 \<le> unat b"
  shows "\<exists>n d i. format_size b = format_uint n @ ''.'' @ format_uint d @ '' '' @ size_units ! i
           \<and> i < length size_units \<and> d < 10
           \<and> (10 * n + d) * 1024 ^ Suc i \<le> 10 * unat b
           \<and> 10 * unat b < (10 * n + d + 1) * 1024 ^ Suc i + 10 * 1024 ^ i"
proof -
  obtain w i where l: "size_loop (unat b) 0 = (w, i)" by fastforce
  then have w: "w = unat b div 1024 ^ i" and i: "i \<le> 4" using size_loop_div[of 0 "unat b" "unat b"] by auto
  define q where "q = 10 * w div 1024"
  have w_bounds: "w * 1024 ^ i \<le> unat b" "unat b < (w + 1) * 1024 ^ i"
    using div_times_less_eq_dividend[of "unat b" "1024 ^ i"] dividend_less_div_times[of "1024 ^ i" "unat b"]
    by (simp_all add: w)
  have "q * 1024 ^ Suc i \<le> 10 * unat b \<and> 10 * unat b < (q + 1) * 1024 ^ Suc i + 10 * 1024 ^ i"
    using scaled_bounds[of q w "1024 ^ i" "unat b"] w_bounds by (simp add: q_def)
  moreover have "w mod 1024 * 10 div 1024 < 10" by (simp add: less_mult_imp_div_less)
  moreover have "format_size b = format_uint (w div 1024) @ ''.'' @ format_uint (w mod 1024 * 10 div 1024)
                 @ '' '' @ size_units ! i"
    using assms l by (simp add: format_size_def)
  moreover have "i < length size_units" using i by (simp add: size_units_def)
  ultimately show ?thesis using tenths[of w] unfolding q_def by metis
qed

theorem format_size_truncates_witness:
  "\<exists>n d i. format_size 1154048 = format_uint n @ ''.'' @ format_uint d @ '' '' @ size_units ! i
     \<and> i < length size_units \<and> d < 10 \<and> (10 * n + d) * 1024 ^ Suc i \<le> 11540480"
  using format_size_truncates[of 1154048] by fastforce

section \<open>The rows are sorted, and stay as they were otherwise\<close>

definition row_rank :: "sample \<Rightarrow> int" where
  "row_rank s = (if sm_err s \<noteq> None then 2 ^ 64 else 0) - uint (sm_memory s)"

lemma row_first_rank: "row_first a b \<longleftrightarrow> row_rank a < row_rank b"
proof -
  have r: "0 \<le> uint (sm_memory c) \<and> uint (sm_memory c) < 2 ^ 64" for c :: sample
    using uint_bounded[of "sm_memory c"] by simp
  show ?thesis
    using r[of a] r[of b] unfolding row_first_def row_rank_def word_less_def
    by (cases "sm_err a = None"; cases "sm_err b = None"; simp; linarith)
qed

lemma sorted_rows_key: "sorted_rows ss = sort_key row_rank ss"
  unfolding sorted_rows_def by (rule stable_sort_by_key) (rule row_first_rank)

section \<open>The columns line up\<close>

lemma space_not_continuation: "\<not> continuation blank" "\<not> byte_in 0xA0 blank n" "\<not> byte_in 0x80 blank n"
    "\<not> byte_in 0x90 blank n"
  by (simp_all add: continuation_def byte_in_def blank_def)

lemma list_shapes:
  obtains "s = []" | a where "s = [a]" | a b where "s = [a, b]" | a b c where "s = [a, b, c]"
    | a b c d r where "s = a # b # c # d # r"
  by (metis list.exhaust)

lemma rune_size_before_space:
  assumes "s \<noteq> []"
  shows "rune_size (s @ blank # t) = rune_size s"
proof (cases s rule: list_shapes)
  case (2 a)
  then show ?thesis by (cases t rule: list_shapes) (simp_all add: rune_size_def space_not_continuation)
next
  case (3 a b)
  then show ?thesis by (cases t) (simp_all add: rune_size_def space_not_continuation)
qed (use assms in \<open>simp_all add: rune_size_def space_not_continuation\<close>)

lemma rune_size_le: "s \<noteq> [] \<Longrightarrow> rune_size s \<le> length s"
  by (auto simp: rune_size_def split: list.splits)

lemma runes_before_blank: "rune_list (s @ blank # t) = rune_list s @ rune_list (blank # t)"
proof (induction s rule: length_induct)
  case (1 s)
  show ?case
  proof (cases "s = []")
    case False
    let ?n = "rune_size s"
    have "rune_list (s @ blank # t) = take ?n s # rune_list (drop ?n s @ blank # t)"
      using False rune_size_before_space[OF False] rune_size_le[OF False] rune_list.simps[of "s @ blank # t"] by simp
    moreover have "length (drop ?n s) < length s" using False by simp
    ultimately show ?thesis using 1 False rune_list.simps[of s] by simp
  qed (simp add: rune_list.simps[of "[]"])
qed

lemma rune_count_space: "rune_count (blank # t) = Suc (rune_count t)"
proof -
  have "rune_size (blank # t) = 1"
    by (auto simp: rune_size_def byte_in_def blank_def split: list.splits)
  then show ?thesis by (simp add: rune_count_def rune_list.simps[of "blank # t"])
qed

lemma rune_count_spaces: "rune_count (replicate n blank @ t) = n + rune_count t"
  by (induction n) (simp_all add: rune_count_space)

lemma rune_count_padded: "0 < n \<Longrightarrow> rune_count (c @ replicate n blank @ t) = rune_count c + n + rune_count t"
proof (cases n)
  case (Suc k)
  have "rune_count (c @ blank # replicate k blank @ t)
        = rune_count c + rune_count (blank # replicate k blank @ t)"
    by (simp add: rune_count_def runes_before_blank)
  then show ?thesis using Suc by (simp add: rune_count_space rune_count_spaces)
qed simp

definition column_start :: "nat list \<Rightarrow> nat \<Rightarrow> nat" where
  "column_start ws i = sum_list (map (\<lambda>w. w + 2) (take i ws))"

definition fits :: "nat list \<Rightarrow> string list \<Rightarrow> bool" where
  "fits ws cells \<longleftrightarrow> length cells \<le> length ws \<and> (\<forall>i < length cells. rune_count (cells ! i) \<le> ws ! i)"

lemma fits_Cons: "fits (w # ws) (c # cs) \<longleftrightarrow> rune_count c \<le> w \<and> fits ws cs"
  by (auto simp: fits_def nth_Cons' less_Suc_eq_0_disj)

lemma pad_cells_aligned:
  "fits ws cells \<Longrightarrow>
   \<exists>l. pad_cells ws cells = Some l \<and>
       (\<forall>i < length cells. \<exists>pre post. l = pre @ cells ! i @ post \<and> rune_count pre = column_start ws i)"
proof (induction ws cells rule: pad_cells.induct)
  case (1 ws)
  show ?case by simp
next
  case (2 ws c)
  show ?case by (auto simp: column_start_def rune_count_def rune_list.simps[of "[]"] intro: exI[of _ "[]"])
next
  case (3 c d cs)
  then show ?case by (simp add: fits_def)
next
  case (4 w ws c d cs)
  then have cw: "rune_count c \<le> w" and f: "fits ws (d # cs)" by (simp_all add: fits_Cons)
  then obtain l where l: "pad_cells ws (d # cs) = Some l"
    and al: "\<forall>i < length (d # cs). \<exists>pre post. l = pre @ (d # cs) ! i @ post \<and> rune_count pre = column_start ws i"
    using 4 by auto
  let ?pad = "replicate (w + 2 - rune_count c) blank"
  have "\<exists>pre post. c @ ?pad @ l = pre @ (c # d # cs) ! i @ post \<and> rune_count pre = column_start (w # ws) i"
    if i: "i < length (c # d # cs)" for i
  proof (cases i)
    case 0
    then show ?thesis
      by (auto simp: column_start_def rune_count_def rune_list.simps[of "[]"] intro: exI[of _ "[]"])
  next
    case (Suc j)
    then obtain pre post where p: "l = pre @ (d # cs) ! j @ post" "rune_count pre = column_start ws j"
      using al i by auto
    have "rune_count (c @ ?pad @ pre) = column_start (w # ws) i"
      using cw p(2) Suc by (simp add: rune_count_padded column_start_def)
    moreover have "c @ ?pad @ l = (c @ ?pad @ pre) @ (c # d # cs) ! i @ post" using p Suc by simp
    ultimately show ?thesis by blast
  qed
  then show ?case using l cw by auto
qed

lemma cut_empty_prefix: "\<exists>k. cut_empty cells = take k cells"
proof -
  have "cells = rev (takeWhile (\<lambda>c. c = []) (rev cells) @ dropWhile (\<lambda>c. c = []) (rev cells))" by simp
  then have "cells = cut_empty cells @ rev (takeWhile (\<lambda>c. c = []) (rev cells))"
    unfolding cut_empty_def rev_append .
  then show ?thesis by (metis append_eq_conv_conj)
qed

lemma cut_empty_nth: "length (cut_empty cells) \<le> length cells
    \<and> (\<forall>i < length (cut_empty cells). cut_empty cells ! i = cells ! i)"
  using cut_empty_prefix[of cells] by auto

lemma widest: "w \<le> foldl (\<lambda>w row. if i < length row then max w (rune_count (row ! i)) else w) w rows
    \<and> (\<forall>row \<in> set rows. i < length row \<longrightarrow>
         rune_count (row ! i) \<le> foldl (\<lambda>w row. if i < length row then max w (rune_count (row ! i)) else w) w rows)"
proof (induction rows arbitrary: w)
  case (Cons row rows)
  show ?case
    using Cons.IH[of "if i < length row then max w (rune_count (row ! i)) else w"]
    by (auto split: if_splits)
qed simp

lemma table_line_fits:
  assumes "\<forall>row \<in> set (tb_rows t). length row \<le> length (tb_headers t)"
    and "cells \<in> set (tb_headers t # tb_rows t)"
  shows "fits (column_widths t) (cut_empty cells)"
proof -
  have "rune_count (cells ! i) \<le> column_width t i" if "i < length cells" for i
    using assms(2) that widest[of "rune_count (tb_headers t ! i)" i "tb_rows t"] by (auto simp: column_width_def)
  moreover have "length cells \<le> length (tb_headers t)" using assms by auto
  ultimately show ?thesis
    using cut_empty_nth[of cells] by (auto simp: fits_def column_widths_def)
qed

lemma those_all: "\<forall>x \<in> set xs. f x \<noteq> None \<Longrightarrow> those (map f xs) = Some (map (\<lambda>x. the (f x)) xs)"
  by (induction xs) auto

lemma table_rows_full: "\<forall>row \<in> set (tb_rows (rows_table rows cg rated)). length row = length (tb_headers (rows_table rows cg rated))"
  by (auto simp: rows_table_def Let_def table_row_def table_headers_def)



end
