(* ===== verification/TopText.thy ===== *)
theory TopText
  imports TopRender TopHost
begin

text \<open>
  \<open>internal/top/top.go\<close> and \<open>session.go\<close>: the report as a whole, for a reader and as JSON. A JSON
  object is an association list; what prints it sorts the keys. How an instant is formatted is a
  parameter.
\<close>

section \<open>For a reader\<close>

definition top_error_text :: "top_error \<Rightarrow> string" where
  "top_error_text e =
     (case e of
        NothingRead d \<Rightarrow> ''top: '' @ d @ '' printed nothing that could be read''
      | MethodNotSaid d \<Rightarrow> ''top: '' @ d @ '' did not say how it measured itself''
      | SessionNothingRead d \<Rightarrow> ''top: wslc session '' @ d @ '' printed nothing that could be read''
      | GuestFailed t \<Rightarrow> t)"

definition bar :: string where "bar = [CHR 0xE2, CHR 0x94, CHR 0x80]"

definition section_rule :: "string \<Rightarrow> string" where
  "section_rule label =
     (let head = bar @ bar @ '' '' @ label @ '' '';
          n = max 3 (78 - int (rune_count head))
      in head @ concat (replicate (nat n) bar))"

definition ln :: "string \<Rightarrow> string" where "ln s = s @ [newline]"

definition working_sets :: "host_vm list \<Rightarrow> u64" where
  "working_sets vs = foldl (\<lambda>n v. n + hv_working_set v) 0 vs"

definition render_others :: "top_host option \<Rightarrow> string" where
  "render_others h =
     (case h of
        None \<Rightarrow> []
      | Some h \<Rightarrow>
          if ho_others h = [] then []
          else let n = format_uint (length (ho_others h)); held = format_size (working_sets (ho_others h))
               in if ho_utility h = None
                  then ln (n @ '' VM(s) hold '' @ held @ '': the utility VM, a wslc session, or any other Hyper-V VM'')
                  else ln (n @ '' other VM(s) hold '' @ held @ '' more: a wslc session, or any other Hyper-V VM''))"

definition render_vm :: "vm \<Rightarrow> top_host option \<Rightarrow> string" where
  "render_vm v h =
     ln (format_size (used_bytes v) @ '' of '' @ format_size (vm_total v) @ '' in use, ''
         @ format_size (vm_free v) @ '' free, '' @ format_int (vm_cpus v) @ '' CPUs''
         @ (if vr_cpu (vm_rates v) \<noteq> None then '', CPU '' @ format_percent (vr_cpu (vm_rates v)) else [])
         @ (if 0 < vm_uptime v then '', up '' @ format_uptime (vm_uptime v) else []))
     @ (if 0 < vm_cached v \<or> 0 < vm_anon v
        then ln (format_size (vm_cached v) @ '' page cache (reclaimable), ''
                 @ format_size (vm_anon v) @ '' anonymous (unreclaimable)''
                 @ (if 0 < vm_swap_total v
                    then '', swap ''
                         @ format_size (if vm_swap_free v < vm_swap_total v then vm_swap_total v - vm_swap_free v else 0)
                         @ '' of '' @ format_size (vm_swap_total v)
                    else []))
        else [])
     @ (case vm_pressure v of None \<Rightarrow> []
        | Some p \<Rightarrow> ln (''stalled over the last 10 s: memory '' @ format_1 (psi_memory p) @ ''%, I/O ''
                       @ format_1 (psi_io p) @ ''%, CPU '' @ format_1 (psi_cpu p) @ ''%''))
     @ (if vr_net_rx (vm_rates v) \<noteq> None \<and> vr_net_tx (vm_rates v) \<noteq> None
        then ln (''network: '' @ format_rate (vr_net_rx (vm_rates v)) @ '' in, ''
                 @ format_rate (vr_net_tx (vm_rates v)) @ '' out'')
        else [])
     @ (case Option.bind h ho_utility of None \<Rightarrow> []
        | Some u \<Rightarrow> ln (''Windows charges it '' @ format_size (hv_working_set u) @ '' (vmmem pid ''
                       @ format_uint (unat (hv_pid u)) @ '')''))
     @ render_others h"

definition row_notes :: "sample \<Rightarrow> string list" where
  "row_notes s =
     (case sm_err s of None \<Rightarrow> [] | Some e \<Rightarrow> [sm_distro s @ '': '' @ top_error_text e])
     @ (case sm_oom_kills s of
          None \<Rightarrow> []
        | Some n \<Rightarrow>
            if n = 0 then []
            else [sm_distro s @ '': the kernel has killed '' @ format_uint (unat n)
                  @ '' process(es) for running out of memory''])"

definition session_notes :: "session \<Rightarrow> string list" where
  "session_notes s =
     (case se_err s of
        Some e \<Rightarrow> [''wslc session '' @ se_name s @ '' could not be measured: '' @ top_error_text e]
      | None \<Rightarrow>
          (if se_started s
           then [''wslc session '' @ se_name s
                 @ '': its VM was not running, and asking wslc started it. It stops again once idle.'']
           else [])
          @ concat (map row_notes (se_containers s)))"

definition report_notes :: "top_report \<Rightarrow> string list" where
  "report_notes r =
     concat (map row_notes (sorted_rows (tr_samples r) @ sorted_rows (tr_groups r)))
     @ concat (map session_notes (tr_sessions r))
     @ (case Option.bind (tr_host r) ho_err of None \<Rightarrow> []
        | Some e \<Rightarrow> [''what Windows charges each VM could not be read: '' @ e])
     @ tr_notes r"

definition render_notes :: "top_report \<Rightarrow> string" where
  "render_notes r =
     (if report_notes r = [] then []
      else [newline] @ ln (section_rule ''notes'') @ concat (map (\<lambda>n. ln (''note: '' @ n)) (report_notes r)))"

definition render_session :: "bool \<Rightarrow> session \<Rightarrow> string option" where
  "render_session rated s =
     (let head = [newline] @ ln (section_rule (''wslc session '' @ se_name s))
      in if se_err s \<noteq> None then Some (head @ ln ''could not be measured; see the notes'')
         else let h = map_option (\<lambda>v. \<lparr>ho_utility = Some v, ho_others = [], ho_err = None\<rparr>) (se_host s);
                  body = head @ render_vm (se_vm s) h
                         @ (case se_disk s of None \<Rightarrow> []
                            | Some n \<Rightarrow> ln (''disk: '' @ format_size n @ '', shared by its containers (storage.vhdx)''))
                         @ [newline]
              in if se_containers s = [] then Some (body @ ln ''no containers are running'')
                 else map_option (\<lambda>t. body @ t) (table_string (rows_table (sorted_rows (se_containers s)) True rated)))"

definition render_sessions :: "top_report \<Rightarrow> string option" where
  "render_sessions r = map_option concat (those (map (render_session (has_rates r)) (tr_sessions r)))"

definition show_wslc :: "top_report \<Rightarrow> bool" where
  "show_wslc r \<longleftrightarrow>
     snd (wanted_sections (tr_sections r))
     \<and> (sec_wslc (tr_sections r) \<or> tr_sessions r \<noteq> [] \<or> tr_wslc_present r)"

definition render_wsl :: "top_report \<Rightarrow> string option" where
  "render_wsl r =
     (if \<not> fst (wanted_sections (tr_sections r)) then Some []
      else let head = ln (section_rule ''utility VM'')
           in if tr_samples r = [] \<and> tr_filtered r
              then Some (head @ ln ''none of the named distributions is running'' @ render_others (tr_host r))
              else if tr_samples r = []
              then Some (head @ ln ''no distributions are running, so it is not up'' @ render_others (tr_host r))
              else map_option (\<lambda>t. head @ render_vm (tr_vm r) (tr_host r) @ [newline] @ t)
                     (table_string (rows_table (sorted_rows (tr_samples r) @ sorted_rows (tr_groups r))
                        (report_method r = MethodCgroup) (has_rates r))))"

definition render_wslc :: "top_report \<Rightarrow> string option" where
  "render_wslc r =
     (if \<not> show_wslc r then Some []
      else map_option
             (\<lambda>ss. let out = ss @ (if tr_sessions r = []
                                  then [newline] @ ln (section_rule ''wslc'')
                                       @ ln ''no wslc session VM is running, and top does not start one''
                                  else [])
                   in if \<not> fst (wanted_sections (tr_sections r)) then trim_prefix out [newline] else out)
             (render_sessions r))"

definition render_report :: "top_report \<Rightarrow> string option" where
  "render_report r =
     (case (render_wsl r, render_wslc r) of
        (Some a, Some b) \<Rightarrow> Some (a @ b @ render_notes r)
      | _ \<Rightarrow> None)"

section \<open>As JSON\<close>

datatype json = JNum int | JFloat f64 | JText string | JBool bool | JList "json list" | JObj "(string \<times> json) list"

definition opt_key :: "string \<Rightarrow> ('a \<Rightarrow> json) \<Rightarrow> 'a option \<Rightarrow> (string \<times> json) list" where
  "opt_key k f p = (case p of None \<Rightarrow> [] | Some x \<Rightarrow> [(k, f x)])"

definition jword :: "u64 \<Rightarrow> json" where "jword w = JNum (uint w)"

definition pressure_json :: "pressure \<Rightarrow> json" where
  "pressure_json p =
     JObj [(''cpu'', JFloat (psi_cpu p)), (''memory'', JFloat (psi_memory p)), (''io'', JFloat (psi_io p))]"

definition method_name :: "attribution \<Rightarrow> string" where
  "method_name m = (case m of NoMethod \<Rightarrow> [] | MethodCgroup \<Rightarrow> ''cgroup'' | MethodProcesses \<Rightarrow> ''processes'')"

definition sample_json :: "sample \<Rightarrow> string \<Rightarrow> (string \<times> json) list" where
  "sample_json s name_key =
     (name_key, JText (sm_distro s)) #
     (case sm_err s of
        Some e \<Rightarrow> [(''error'', JText (top_error_text e))]
      | None \<Rightarrow>
          [(''memory_bytes'', jword (sm_memory s)), (''method'', JText (method_name (sm_method s)))]
          @ opt_key ''anon_bytes'' jword (sm_anon s)
          @ (if sm_cgroup s \<noteq> [] then [(''cgroup_path'', JText (sm_cgroup s))] else [])
          @ (if sm_image s \<noteq> [] then [(''image'', JText (sm_image s))] else [])
          @ opt_key ''peak_bytes'' jword (sm_peak s)
          @ opt_key ''swap_bytes'' jword (sm_swap s)
          @ opt_key ''oom_kills'' jword (sm_oom_kills s)
          @ opt_key ''pids'' jword (sm_pids s)
          @ opt_key ''read_bytes'' jword (sm_read s)
          @ opt_key ''write_bytes'' jword (sm_write s)
          @ opt_key ''memory_high_bytes'' jword (sm_mem_high s)
          @ opt_key ''memory_max_bytes'' jword (sm_mem_max s)
          @ opt_key ''throttled_usec'' jword (sm_throttled s)
          @ opt_key ''disk_used_bytes'' jword (sm_disk_used s)
          @ opt_key ''disk_size_bytes'' jword (sm_disk_size s)
          @ opt_key ''vhdx_bytes'' jword (sm_host_disk s)
          @ opt_key ''pressure'' pressure_json (sm_pressure s)
          @ opt_key ''cpu_percent'' JFloat (ra_cpu (sm_rates s))
          @ opt_key ''read_bytes_per_second'' JFloat (ra_read (sm_rates s))
          @ opt_key ''write_bytes_per_second'' JFloat (ra_write (sm_rates s))
          @ opt_key ''cpu_limit'' JFloat (sm_cpu_limit s)
          @ opt_key ''throttled_percent'' JFloat (ra_throttled (sm_rates s)))"

definition host_vm_json :: "(int \<Rightarrow> string) \<Rightarrow> host_vm \<Rightarrow> json" where
  "host_vm_json rfc3339 v =
     JObj [(''pid'', JNum (uint (hv_pid v))), (''working_set_bytes'', jword (hv_working_set v)),
           (''created'', JText (rfc3339 (hv_created v)))]"

definition host_json :: "(int \<Rightarrow> string) \<Rightarrow> top_host option \<Rightarrow> json option" where
  "host_json rfc3339 h =
     (case h of
        None \<Rightarrow> None
      | Some h \<Rightarrow>
          Some (JObj (case ho_err h of
                  Some e \<Rightarrow> [(''error'', JText e)]
                | None \<Rightarrow> (''other_vms'', JList (map (host_vm_json rfc3339) (ho_others h)))
                          # opt_key ''utility_vm'' (host_vm_json rfc3339) (ho_utility h))))"

definition vm_json :: "vm \<Rightarrow> json" where
  "vm_json v =
     JObj ([(''total_bytes'', jword (vm_total v)), (''free_bytes'', jword (vm_free v)),
            (''available_bytes'', jword (vm_available v)), (''used_bytes'', jword (used_bytes v)),
            (''cached_bytes'', jword (vm_cached v)), (''anon_bytes'', jword (vm_anon v)),
            (''cpus'', JNum (vm_cpus v)), (''uptime_seconds'', jword (vm_uptime v))]
           @ (if 0 < vm_swap_total v
              then [(''swap_total_bytes'', jword (vm_swap_total v)), (''swap_free_bytes'', jword (vm_swap_free v))]
              else [])
           @ (if vm_has_net v
              then [(''net_rx_bytes'', jword (vm_net_rx v)), (''net_tx_bytes'', jword (vm_net_tx v))] else [])
           @ opt_key ''pressure'' pressure_json (vm_pressure v)
           @ opt_key ''cpu_percent'' JFloat (vr_cpu (vm_rates v))
           @ opt_key ''net_rx_bytes_per_second'' JFloat (vr_net_rx (vm_rates v))
           @ opt_key ''net_tx_bytes_per_second'' JFloat (vr_net_tx (vm_rates v)))"

definition session_json :: "(int \<Rightarrow> string) \<Rightarrow> session \<Rightarrow> json" where
  "session_json rfc3339 s =
     JObj ((''name'', JText (se_name s)) #
       (case se_err s of
          Some e \<Rightarrow> [(''error'', JText (top_error_text e))]
        | None \<Rightarrow>
            [(''vm'', vm_json (se_vm s)),
             (''containers'', JList (map (\<lambda>c. JObj (sample_json c ''name'')) (sorted_rows (se_containers s)))),
             (''started_by_measurement'', JBool (se_started s))]
            @ opt_key ''host'' (host_vm_json rfc3339) (se_host s)
            @ opt_key ''storage_vhdx_bytes'' jword (se_disk s)))"

definition text_less :: "string \<Rightarrow> string \<Rightarrow> bool" where
  "text_less a b \<longleftrightarrow> ord_class.lexordp (map (of_char :: char \<Rightarrow> nat) a) (map of_char b)"

text \<open>The list is sorted by name after it is made; sorting the sessions first gives the same.\<close>

definition sessions_json :: "(int \<Rightarrow> string) \<Rightarrow> session list \<Rightarrow> json" where
  "sessions_json rfc3339 ss =
     JList (map (session_json rfc3339) (stable_sort_by (\<lambda>a b. text_less (se_name a) (se_name b)) ss))"

definition method_note :: "attribution \<Rightarrow> string" where
  "method_note m =
     (case m of
        MethodCgroup \<Rightarrow> ''per-distribution figures come from each distribution's own cgroup, which accounts for it alone. They still do not sum to the VM total: page cache and kernel memory belong to the VM.''
      | MethodProcesses \<Rightarrow> ''this WSL has no per-distribution cgroup, so per-distribution memory is the resident set of the processes each distribution can see. Shared pages are counted once per process that maps them, and page cache and kernel memory are not counted at all.''
      | NoMethod \<Rightarrow> [])"

definition notes_json :: "top_report \<Rightarrow> (string \<times> json) list" where
  "notes_json r = (if tr_notes r = [] then [] else [(''notes'', JList (map JText (tr_notes r)))])"

definition report_json :: "(int \<Rightarrow> string) \<Rightarrow> top_report \<Rightarrow> json" where
  "report_json rfc3339 r =
     JObj (if \<not> fst (wanted_sections (tr_sections r))
       then (''wslc_sessions'', sessions_json rfc3339 (tr_sessions r))
            # opt_key ''host'' (\<lambda>h. h) (host_json rfc3339 (tr_host r)) @ notes_json r
       else if tr_samples r = []
       then [(''distributions'', JList []), (''note'', JText ''no distributions are running'')]
            @ opt_key ''host'' (\<lambda>h. h) (host_json rfc3339 (tr_host r))
            @ (if show_wslc r then [(''wslc_sessions'', sessions_json rfc3339 (tr_sessions r))] else [])
            @ notes_json r
       else [(''vm'', vm_json (tr_vm r)),
             (''distributions'', JList (map (\<lambda>s. JObj (sample_json s ''distribution''
                @ (if sm_err s = None
                   then [(''processes'', JNum (sm_processes s)), (''init'', JText (sm_init s))] else [])))
                (sorted_rows (tr_samples r)))),
             (''groups'', JList (map (\<lambda>g. JObj (sample_json g ''name''
                @ [(''kind'', JText (kind_name (sm_kind g)))])) (sorted_rows (tr_groups r)))),
             (''attributed_bytes'', jword (attributed r)), (''group_bytes'', jword (group_bytes r))]
            @ (if 0 < tr_interval r then [(''interval_seconds'', JFloat (duration_seconds (tr_interval r)))] else [])
            @ opt_key ''host'' (\<lambda>h. h) (host_json rfc3339 (tr_host r))
            @ (if show_wslc r then [(''wslc_sessions'', sessions_json rfc3339 (tr_sessions r))] else [])
            @ notes_json r
            @ (if report_method r \<noteq> NoMethod
               then [(''method'', JText (method_name (report_method r))),
                     (''note'', JText (method_note (report_method r)))] else []))"

section \<open>Facts\<close>

text \<open>Printing a report never panics.\<close>

lemma table_string_total: "table_string (rows_table rows cg rated) \<noteq> None"
proof -
  let ?t = "rows_table rows cg rated"
  have "fits (column_widths ?t) (cut_empty cells)" if "cells \<in> set (tb_headers ?t # tb_rows ?t)" for cells
    using that table_rows_full[of rows cg rated] table_line_fits[of ?t cells] by simp
  then have "\<forall>cells \<in> set (tb_headers ?t # tb_rows ?t). pad_cells (column_widths ?t) (cut_empty cells) \<noteq> None"
    using pad_cells_aligned by fastforce
  from those_all[OF this] show ?thesis by (simp add: table_string_def table_lines_def)
qed

lemma render_session_total: "render_session rated s \<noteq> None"
  using table_string_total[of "sorted_rows (se_containers s)" True rated]
  by (auto simp: render_session_def Let_def)

lemma render_report_total: "render_report r \<noteq> None"
proof -
  have "render_sessions r \<noteq> None"
    using those_all[of "tr_sessions r" "render_session (has_rates r)"] render_session_total
    by (simp add: render_sessions_def)
  moreover have "render_wsl r \<noteq> None"
    using table_string_total by (simp add: render_wsl_def Let_def)
  ultimately show ?thesis by (auto simp: render_report_def render_wslc_def split: option.splits)
qed

text \<open>A row that could not be measured has its error in the JSON and no number.\<close>

lemma failed_row_json:
  "sm_err s = Some e \<Longrightarrow> sample_json s k = [(k, JText (sm_distro s)), (''error'', JText (top_error_text e))]"
  by (simp add: sample_json_def)

end
