(* ===== verification/EnvData.thy ===== *)
theory EnvData
  imports Ext4
begin

text \<open>
  \<open>internal/env/env.go\<close>: the snapshot of the machine that the collectors fill and the checks read.
  Every collected value carries where it came from and, when there is none, why. A Go map is a list of
  pairs in the order in which ranging over it goes, an instant is a number of nanoseconds, and an
  \<open>int\<close> that only holds small numbers is an \<open>int\<close>.
\<close>

section \<open>A collected value\<close>

datatype err_kind =
  ErrNone | ErrNotPresent | ErrNeedsElevation | ErrVMWakeRefused | ErrTimeout | ErrUnsupported | ErrOther

record 'a collected =
  fd_value :: 'a
  fd_source :: string
  fd_kind :: err_kind
  fd_err :: string

definition collected_value :: "'a \<Rightarrow> string \<Rightarrow> 'a collected" where
  "collected_value v src = \<lparr>fd_value = v, fd_source = src, fd_kind = ErrNone, fd_err = []\<rparr>"

text \<open>\<open>z\<close> is the zero value of the type.\<close>

definition failed_value :: "'a \<Rightarrow> err_kind \<Rightarrow> string \<Rightarrow> string option \<Rightarrow> 'a collected" where
  "failed_value z kind src err =
     \<lparr>fd_value = z, fd_source = src, fd_kind = (if kind = ErrNone then ErrOther else kind),
      fd_err = (case err of None \<Rightarrow> [] | Some e \<Rightarrow> e)\<rparr>"

definition absent_value :: "'a \<Rightarrow> string \<Rightarrow> 'a collected" where
  "absent_value z src = \<lparr>fd_value = z, fd_source = src, fd_kind = ErrNotPresent, fd_err = []\<rparr>"

definition fd_ok :: "'a collected \<Rightarrow> bool" where "fd_ok f \<longleftrightarrow> fd_kind f = ErrNone"
definition fd_absent :: "'a collected \<Rightarrow> bool" where "fd_absent f \<longleftrightarrow> fd_kind f = ErrNotPresent"
definition fd_needs_elevation :: "'a collected \<Rightarrow> bool" where
  "fd_needs_elevation f \<longleftrightarrow> fd_kind f = ErrNeedsElevation"
definition fd_collected :: "'a collected \<Rightarrow> bool" where
  "fd_collected f \<longleftrightarrow> fd_source f \<noteq> [] \<or> fd_kind f \<noteq> ErrNone"

definition err_kind_text :: "err_kind \<Rightarrow> string" where
  "err_kind_text k =
     (case k of ErrNone \<Rightarrow> [] | ErrNotPresent \<Rightarrow> ''not_present'' | ErrNeedsElevation \<Rightarrow> ''needs_elevation''
      | ErrVMWakeRefused \<Rightarrow> ''vm_wake_refused'' | ErrTimeout \<Rightarrow> ''timeout''
      | ErrUnsupported \<Rightarrow> ''unsupported'' | ErrOther \<Rightarrow> ''error'')"

section \<open>The host and its network\<close>

record os_build =
  ob_major :: int
  ob_minor :: int
  ob_build :: int
  ob_ubr :: int
  ob_product_name :: string
  ob_display_version :: string
  ob_edition_id :: string

definition is_windows_11 :: "os_build \<Rightarrow> bool" where
  "is_windows_11 b \<longleftrightarrow> 22000 \<le> ob_build b"

record service =
  sv_exists :: bool
  sv_state :: string
  sv_start_type :: string
  sv_display :: string

record host_facts =
  hf_arch :: string
  hf_os :: "os_build collected"
  hf_hypervisor_present :: "bool collected"
  hf_total_memory :: "u64 collected"
  hf_features :: "(string \<times> int) list collected"
  hf_services :: "(string \<times> service) list collected"
  hf_pending_reboot :: "bool collected"
  hf_ipv6_disabled :: "u32 collected"

text \<open>\<open>equalFold\<close> compares lengths and then byte by byte; on bytes that is \<open>equal_fold\<close>.\<close>

definition feature :: "host_facts \<Rightarrow> string \<Rightarrow> int" where
  "feature h name =
     (if \<not> fd_ok (hf_features h) then 0
      else case find (\<lambda>(k, v). equal_fold k name) (fd_value (hf_features h)) of
             None \<Rightarrow> 0 | Some (k, v) \<Rightarrow> v)"

record adapter =
  ad_name :: string
  ad_description :: string
  ad_if_type :: u32
  ad_up :: bool
  ad_vpn :: bool
  ad_loopback :: bool
  ad_tunnel :: bool
  ad_dns_servers :: "string list"
  ad_dns_suffix :: string
  ad_has_ipv4 :: bool
  ad_has_ipv6 :: bool

record firewall_support =
  fw_disabled_by_registry :: bool
  fw_v1 :: bool
  fw_v2 :: bool

record port_span =
  ps_start :: int
  ps_end :: int

record port_pool =
  pl_dynamic :: port_span
  pl_excluded :: "port_span list"

record net_facts =
  nf_adapters :: "adapter list collected"
  nf_hyperv_firewall :: "firewall_support collected"
  nf_tcp_ports :: "port_pool collected"
  nf_udp_ports :: "port_pool collected"
  nf_hotfixes :: "(string \<times> bool) list collected"
  nf_policy :: "(string \<times> string) list collected"

definition vpn_adapters :: "net_facts \<Rightarrow> adapter list" where
  "vpn_adapters n =
     (if \<not> fd_ok (nf_adapters n) then []
      else filter (\<lambda>a. ad_up a \<and> ad_vpn a) (fd_value (nf_adapters n)))"

section \<open>The runtime and the distributions\<close>

record runtime_facts =
  rt_version :: "string collected"
  rt_install_location :: "string collected"
  rt_appx_full_name :: "string collected"
  rt_msi_version :: "string collected"
  rt_inbox_version :: "string collected"
  rt_kernel_version :: "string collected"
  rt_nat_network :: "string collected"
  rt_com_class :: "bool collected"
  rt_latest_stable :: "string collected"
  rt_latest_stable_source :: string
  rt_latest_prerelease :: string

record systemd_state =
  sy_pid1 :: string
  sy_system :: string
  sy_failed :: "string list"
  sy_uid :: int
  sy_user_known :: bool
  sy_user_service :: string
  sy_run_user_exists :: bool
  sy_run_user_owner :: int
  sy_run_user_mode :: string
  sy_pam_systemd :: bool
  sy_user_procs :: int
  sy_user_procs_xdg :: int
  sy_xdg :: string

record watch_proc =
  wp_name :: string
  wp_dir :: string

record zone_facts =
  zs_count :: int
  zs_paths :: "string list"
  zs_truncated :: bool

record vhd_facts =
  vd_path :: string
  vd_file_size :: u64
  vd_magic_ok :: bool
  vd_header_ok :: bool
  vd_virtual_size :: u64
  vd_block_size :: u32
  vd_allocated :: u64
  vd_sparse :: bool
  vd_compressed :: bool
  vd_encrypted :: bool
  vd_owner_sid :: string
  vd_owner :: string
  vd_parse_err :: string

record distro =
  di_guid :: string
  di_name :: string
  di_is_default :: bool
  di_base_path :: string
  di_vhd_file_name :: string
  di_version :: int
  di_state :: int
  di_flags :: int
  di_default_uid :: int
  di_run_oobe :: int
  di_modern :: int
  di_flavor :: string
  di_os_version :: string
  di_package_family :: string
  di_value_names :: "string list"
  di_vhd :: "vhd_facts collected"
  di_ext4 :: "super collected"
  di_volume_free :: "u64 collected"
  di_running :: "bool collected"
  di_wsl_conf :: "string collected"
  di_zone_files :: "zone_facts collected"
  di_watchers :: "watch_proc list collected"
  di_systemd :: "systemd_state collected"

section \<open>The rest of the snapshot\<close>

record config_facts =
  cf_path :: string
  cf_wslconfig :: "string collected"
  cf_paths_exist :: "(string \<times> bool) list"

record exclusions =
  ex_paths :: "string list"
  ex_processes :: "string list"
  ex_extensions :: "string list"

record defender_facts =
  df_present :: "bool collected"
  df_realtime :: "bool collected"
  df_running_mode :: "string collected"
  df_exclusions :: "exclusions collected"

record logged_event =
  lg_channel :: string
  lg_provider :: string
  lg_id :: int
  lg_level :: int
  lg_time :: int
  lg_message :: string

record events_facts =
  es_window :: int
  es_channels :: "(string \<times> u64 collected) list"
  es_recent :: "logged_event list collected"

record procs_facts =
  pr_vmmem_name :: string
  pr_vmmem_working_set :: "u64 collected"
  pr_service_running :: "bool collected"

record plugin =
  pg_name :: string
  pg_path :: string
  pg_value_type :: string
  pg_exists :: bool
  pg_version :: string
  pg_duplicate :: bool
  pg_signature :: string
  pg_entry_point :: bool
  pg_exports_err :: string

record agent_info =
  ai_pid :: int
  ai_alive :: bool
  ai_version :: string
  ai_vm_id :: string
  ai_updated_at :: int
  ai_guests :: "string list"
  ai_last_error :: string
  ai_autostart :: bool
  ai_allowed_num :: int

record wslc_resolver =
  wr_addr :: string
  wr_status :: string

record wslc_session =
  ws_name :: string
  ws_running :: bool
  ws_resolvers :: "wslc_resolver list"
  ws_public :: wslc_resolver
  ws_err :: string

record wslc_info =
  wi_version :: string
  wi_sessions :: "wslc_session list"

record binfmt_entry =
  bf_name :: string
  bf_enabled :: bool
  bf_interpreter :: string
  bf_flags :: string
  bf_offset :: int
  bf_magic :: string
  bf_extension :: string

record vm_facts =
  vf_read_from :: string
  vf_kvm :: bool
  vf_virt_flags :: bool
  vf_cpu_vendor :: string
  vf_binfmt_mounted :: bool
  vf_binfmt :: "binfmt_entry list"

record snapshot =
  sn_schema :: string
  sn_tool :: string
  sn_collected_at :: int
  sn_elevated :: bool
  sn_vm_wake_ok :: bool
  sn_user_profile :: string
  sn_hostname :: string
  sn_host :: host_facts
  sn_net :: net_facts
  sn_runtime :: runtime_facts
  sn_distros :: "distro list collected"
  sn_config :: config_facts
  sn_defender :: defender_facts
  sn_events :: events_facts
  sn_procs :: procs_facts
  sn_plugins :: "plugin list collected"
  sn_agent :: "agent_info collected"
  sn_wslc :: "wslc_info collected"
  sn_vm :: "vm_facts collected"

definition distro_list :: "snapshot \<Rightarrow> distro list" where
  "distro_list e = (if \<not> fd_ok (sn_distros e) then [] else fd_value (sn_distros e))"

definition find_service :: "snapshot \<Rightarrow> string \<Rightarrow> service option" where
  "find_service e name =
     (if \<not> fd_ok (hf_services (sn_host e)) then None
      else map_option snd (find (\<lambda>(k, v). equal_fold k name) (fd_value (hf_services (sn_host e)))))"

section \<open>A snapshot nothing was collected into\<close>

text \<open>The zero values of the types. A collected value that no collector filled reads as being there.\<close>

definition zero_value :: "'a \<Rightarrow> 'a collected" where
  "zero_value z = \<lparr>fd_value = z, fd_source = [], fd_kind = ErrNone, fd_err = []\<rparr>"

definition zero_os_build :: os_build where
  "zero_os_build =
     \<lparr>ob_major = 0, ob_minor = 0, ob_build = 0, ob_ubr = 0, ob_product_name = [],
      ob_display_version = [], ob_edition_id = []\<rparr>"

definition zero_host_facts :: host_facts where
  "zero_host_facts =
     \<lparr>hf_arch = [], hf_os = zero_value zero_os_build, hf_hypervisor_present = zero_value False,
      hf_total_memory = zero_value 0, hf_features = zero_value [], hf_services = zero_value [],
      hf_pending_reboot = zero_value False, hf_ipv6_disabled = zero_value 0\<rparr>"

definition zero_firewall_support :: firewall_support where
  "zero_firewall_support =
     \<lparr>fw_disabled_by_registry = False, fw_v1 = False, fw_v2 = False\<rparr>"

definition zero_port_span :: port_span where
  "zero_port_span =
     \<lparr>ps_start = 0, ps_end = 0\<rparr>"

definition zero_port_pool :: port_pool where
  "zero_port_pool =
     \<lparr>pl_dynamic = zero_port_span, pl_excluded = []\<rparr>"

definition zero_net_facts :: net_facts where
  "zero_net_facts =
     \<lparr>nf_adapters = zero_value [], nf_hyperv_firewall = zero_value zero_firewall_support,
      nf_tcp_ports = zero_value zero_port_pool, nf_udp_ports = zero_value zero_port_pool,
      nf_hotfixes = zero_value [], nf_policy = zero_value []\<rparr>"

definition zero_runtime_facts :: runtime_facts where
  "zero_runtime_facts =
     \<lparr>rt_version = zero_value [], rt_install_location = zero_value [],
      rt_appx_full_name = zero_value [], rt_msi_version = zero_value [], rt_inbox_version = zero_value [],
      rt_kernel_version = zero_value [], rt_nat_network = zero_value [], rt_com_class = zero_value False,
      rt_latest_stable = zero_value [], rt_latest_stable_source = [], rt_latest_prerelease = []\<rparr>"

definition zero_config_facts :: config_facts where
  "zero_config_facts =
     \<lparr>cf_path = [], cf_wslconfig = zero_value [], cf_paths_exist = []\<rparr>"

definition zero_exclusions :: exclusions where
  "zero_exclusions =
     \<lparr>ex_paths = [], ex_processes = [], ex_extensions = []\<rparr>"

definition zero_defender_facts :: defender_facts where
  "zero_defender_facts =
     \<lparr>df_present = zero_value False, df_realtime = zero_value False, df_running_mode = zero_value [],
      df_exclusions = zero_value zero_exclusions\<rparr>"

definition zero_events_facts :: events_facts where
  "zero_events_facts =
     \<lparr>es_window = 0, es_channels = [], es_recent = zero_value []\<rparr>"

definition zero_procs_facts :: procs_facts where
  "zero_procs_facts =
     \<lparr>pr_vmmem_name = [], pr_vmmem_working_set = zero_value 0,
      pr_service_running = zero_value False\<rparr>"

definition zero_agent_info :: agent_info where
  "zero_agent_info =
     \<lparr>ai_pid = 0, ai_alive = False, ai_version = [], ai_vm_id = [], ai_updated_at = 0,
      ai_guests = [], ai_last_error = [], ai_autostart = False, ai_allowed_num = 0\<rparr>"

definition zero_wslc_info :: wslc_info where
  "zero_wslc_info =
     \<lparr>wi_version = [], wi_sessions = []\<rparr>"

definition zero_vm_facts :: vm_facts where
  "zero_vm_facts =
     \<lparr>vf_read_from = [], vf_kvm = False, vf_virt_flags = False, vf_cpu_vendor = [],
      vf_binfmt_mounted = False, vf_binfmt = []\<rparr>"

definition zero_snapshot :: snapshot where
  "zero_snapshot =
     \<lparr>sn_schema = [], sn_tool = [], sn_collected_at = 0, sn_elevated = False, sn_vm_wake_ok = False,
      sn_user_profile = [], sn_hostname = [], sn_host = zero_host_facts, sn_net = zero_net_facts,
      sn_runtime = zero_runtime_facts, sn_distros = zero_value [], sn_config = zero_config_facts,
      sn_defender = zero_defender_facts, sn_events = zero_events_facts, sn_procs = zero_procs_facts,
      sn_plugins = zero_value [], sn_agent = zero_value zero_agent_info,
      sn_wslc = zero_value zero_wslc_info, sn_vm = zero_value zero_vm_facts\<rparr>"

definition zero_vhd_facts :: vhd_facts where
  "zero_vhd_facts =
     \<lparr>vd_path = [], vd_file_size = 0, vd_magic_ok = False, vd_header_ok = False, vd_virtual_size = 0,
      vd_block_size = 0, vd_allocated = 0, vd_sparse = False, vd_compressed = False, vd_encrypted = False,
      vd_owner_sid = [], vd_owner = [], vd_parse_err = []\<rparr>"

definition zero_zone_facts :: zone_facts where
  "zero_zone_facts =
     \<lparr>zs_count = 0, zs_paths = [], zs_truncated = False\<rparr>"

definition zero_systemd_state :: systemd_state where
  "zero_systemd_state =
     \<lparr>sy_pid1 = [], sy_system = [], sy_failed = [], sy_uid = 0, sy_user_known = False,
      sy_user_service = [], sy_run_user_exists = False, sy_run_user_owner = 0, sy_run_user_mode = [],
      sy_pam_systemd = False, sy_user_procs = 0, sy_user_procs_xdg = 0, sy_xdg = []\<rparr>"

definition zero_distro :: distro where
  "zero_distro =
     \<lparr>di_guid = [], di_name = [], di_is_default = False, di_base_path = [], di_vhd_file_name = [],
      di_version = 0, di_state = 0, di_flags = 0, di_default_uid = 0, di_run_oobe = 0, di_modern = 0,
      di_flavor = [], di_os_version = [], di_package_family = [], di_value_names = [],
      di_vhd = zero_value zero_vhd_facts, di_ext4 = zero_value no_super, di_volume_free = zero_value 0,
      di_running = zero_value False, di_wsl_conf = zero_value [],
      di_zone_files = zero_value zero_zone_facts, di_watchers = zero_value [],
      di_systemd = zero_value zero_systemd_state\<rparr>"

lemma zero_value_ok: "fd_ok (zero_value z) \<and> \<not> fd_collected (zero_value z)"
  by (simp add: zero_value_def fd_ok_def fd_collected_def)

lemma failed_never_ok: "\<not> fd_ok (failed_value z k src e) \<and> fd_collected (failed_value z k src e)"
  by (simp add: failed_value_def fd_ok_def fd_collected_def)

lemma absent_never_ok: "\<not> fd_ok (absent_value z src) \<and> fd_absent (absent_value z src)"
  by (simp add: absent_value_def fd_ok_def fd_absent_def)

end
