(* ===== verification/Collect.thy ===== *)
theory Collect
  imports EnvData GoNet GoFloat WslPath
begin

text \<open>
  \<open>internal/env/collect\<close>, its portable half: the scripts that ask a running distribution, and reading
  what they print (\<open>systemd.go\<close>, \<open>vm.go\<close>, \<open>wslc.go\<close>), the tables of \<open>netsh\<close> (\<open>ports.go\<close>), the walk
  for files a saved download leaves (\<open>zone.go\<close>), the processes that watch files (\<open>watchers.go\<close>), and
  the deadlines (\<open>collect.go\<close>).
\<close>

section \<open>Deadlines\<close>

record collect_options =
  co_tool :: string
  co_allow_wake :: bool
  co_online :: bool
  co_timeout :: int
  co_event_window :: int

definition with_defaults :: "collect_options \<Rightarrow> collect_options" where
  "with_defaults o1 =
     (let o2 = (if co_timeout o1 = 0 then o1\<lparr>co_timeout := 5 * second_ns\<rparr> else o1);
          o3 = (if co_event_window o2 = 0 then o2\<lparr>co_event_window := 7 * 24 * 3600 * second_ns\<rparr> else o2)
      in if co_tool o3 = [] then o3\<lparr>co_tool := ''wslkit''\<rparr> else o3)"

text \<open>\<open>time.Until\<close> is a difference of instants; the deadline may be absent.\<close>

definition budget_margin :: int where "budget_margin = 250 * millisecond"

definition remaining_budget :: "int option \<Rightarrow> int \<Rightarrow> int \<Rightarrow> int" where
  "remaining_budget deadline now timeout =
     (case deadline of
        None \<Rightarrow> timeout
      | Some dl \<Rightarrow> (let left = wrap64 (sub_time dl now - budget_margin) in if left < timeout then left else timeout))"

definition collector_limit :: "collect_options \<Rightarrow> string \<Rightarrow> int" where
  "collector_limit opts name = (if name = ''wslc'' then 15 * second_ns else co_timeout opts)"

text \<open>How a collector ends: with its error, by a panic, or abandoned at its limit.\<close>

datatype collector_end = Returned "string option" | Panicked string | Abandoned

record collector_stat =
  cs_duration_ms :: int
  cs_timed_out :: bool
  cs_err :: string

definition stat_of :: "(int \<Rightarrow> string) \<Rightarrow> int \<Rightarrow> int \<Rightarrow> collector_end \<Rightarrow> collector_stat" where
  "stat_of duration_text limit elapsed ended =
     (let ms = quot elapsed millisecond
      in case ended of
           Returned None \<Rightarrow> \<lparr>cs_duration_ms = ms, cs_timed_out = False, cs_err = []\<rparr>
         | Returned (Some e) \<Rightarrow> \<lparr>cs_duration_ms = ms, cs_timed_out = False, cs_err = e\<rparr>
         | Panicked m \<Rightarrow> \<lparr>cs_duration_ms = ms, cs_timed_out = False, cs_err = ''panic: '' @ m\<rparr>
         | Abandoned \<Rightarrow>
             \<lparr>cs_duration_ms = ms, cs_timed_out = True, cs_err = ''timed out after '' @ duration_text limit\<rparr>)"

text \<open>The collectors run side by side, and each writes its own entry: the order in which they end does
  not show.\<close>

definition run_collectors ::
    "(int \<Rightarrow> string) \<Rightarrow> collect_options \<Rightarrow> (string \<Rightarrow> int \<times> collector_end) \<Rightarrow> string list \<Rightarrow> (string \<rightharpoonup> collector_stat)" where
  "run_collectors duration_text opts run names =
     foldl (\<lambda>m name. case run name of
              (elapsed, ended) \<Rightarrow> m(name \<mapsto> stat_of duration_text (collector_limit opts name) elapsed ended))
       Map.empty names"

section \<open>systemd\<close>

text \<open>The lines of a script, with \<open>?\<close> for the double quote, \<open>,\<close> for the single one and \<open>`\<close> for the
  backslash.\<close>

definition guest_text :: "string list \<Rightarrow> string" where
  "guest_text ls =
     concat (map (\<lambda>l. replace_char (CHR ''?'') (CHR 0x22) (replace_char (CHR '','') (CHR 0x27)
       (replace_char (CHR 0x60) (CHR 0x5C) l)) @ [newline]) ls)"

definition max_failed_units :: nat where "max_failed_units = 10"

definition systemd_script :: "int \<Rightarrow> string" where
  "systemd_script uid = guest_text
    [''uid='' @ format_int uid,
     ''echo ?pid1=$(cat /proc/1/comm 2>/dev/null)?'',
     ''if command -v systemctl >/dev/null 2>&1 && [ ?$(cat /proc/1/comm 2>/dev/null)? = systemd ]; then'',
     ''  echo ?system=$(timeout 3 systemctl is-system-running 2>/dev/null)?'',
     ''  timeout 3 systemctl list-units --state=failed --no-legend --plain 2>/dev/null | awk ,NF{print ?failed=? $1}, | head -'' @ format_uint max_failed_units,
     ''  echo ?user_service=$(timeout 3 systemctl is-active user@$uid.service 2>/dev/null)?'',
     ''fi'',
     ''grep -q ?^[^:]*:[^:]*:$uid:? /etc/passwd 2>/dev/null && echo ?user_known=yes?'',
     ''if [ -d /run/user/$uid ]; then echo ?run_user=$(stat -c ,%u %a, /run/user/$uid 2>/dev/null)?; fi'',
     ''grep -ls ,^[^#]*pam_systemd, /etc/pam.d/* >/dev/null 2>&1 && echo ?pam_systemd=yes?'',
     ''procs=0; withxdg=0; xdg=??'',
     ''for p in /proc/[0-9]*; do'',
     ''  u=$(awk ,/^Uid:/{print $2; exit}, ?$p/status? 2>/dev/null)'',
     ''  [ ?$u? = ?$uid? ] || continue'',
     ''  procs=$((procs+1))'',
     ''  v=$(tr ,`0, ,`n, < ?$p/environ? 2>/dev/null | sed -n ,s/^XDG_RUNTIME_DIR=//p, | head -1)'',
     ''  if [ -n ?$v? ]; then withxdg=$((withxdg+1)); [ -z ?$xdg? ] && xdg=$v; fi'',
     ''done'',
     ''echo ?user_procs=$procs?'',
     ''echo ?user_procs_xdg=$withxdg?'',
     ''echo ?xdg=$xdg?'']"

text \<open>The lines of what a script printed.\<close>

definition out_lines :: "string \<Rightarrow> string list" where
  "out_lines out = split_on newline (crlf_to_lf out)"

text \<open>\<open>Atoi\<close> without its error: the nearest value where the number is out of range, else 0.\<close>

definition atoi_lenient :: "string \<Rightarrow> int" where
  "atoi_lenient s =
     (case atoi s of Some n \<Rightarrow> n
      | None \<Rightarrow>
          (let body = (if s \<noteq> [] \<and> (hd s = CHR ''-'' \<or> hd s = CHR ''+'') then tl s else s)
           in if body \<noteq> [] \<and> list_all is_digit body
              then (if hd s = CHR ''-'' then - (2 ^ 63) else 2 ^ 63 - 1) else 0))"

definition empty_systemd :: "int \<Rightarrow> systemd_state" where
  "empty_systemd uid =
     \<lparr>sy_pid1 = [], sy_system = [], sy_failed = [], sy_uid = uid, sy_user_known = False, sy_user_service = [],
      sy_run_user_exists = False, sy_run_user_owner = 0, sy_run_user_mode = [], sy_pam_systemd = False,
      sy_user_procs = 0, sy_user_procs_xdg = 0, sy_xdg = []\<rparr>"

definition systemd_field :: "string \<Rightarrow> string \<Rightarrow> systemd_state \<Rightarrow> systemd_state" where
  "systemd_field k v s =
     (if k = ''pid1'' then s\<lparr>sy_pid1 := v\<rparr>
      else if k = ''system'' then s\<lparr>sy_system := v\<rparr>
      else if k = ''failed'' then (if v \<noteq> [] then s\<lparr>sy_failed := sy_failed s @ [v]\<rparr> else s)
      else if k = ''user_service'' then s\<lparr>sy_user_service := v\<rparr>
      else if k = ''user_known'' then s\<lparr>sy_user_known := v = ''yes''\<rparr>
      else if k = ''run_user''
      then (case cut_byte (CHR '' '') v of
              (owner, mode, found) \<Rightarrow>
                (case atoi owner of
                   Some n \<Rightarrow> if found then s\<lparr>sy_run_user_exists := True, sy_run_user_owner := n, sy_run_user_mode := mode\<rparr> else s
                 | None \<Rightarrow> s))
      else if k = ''pam_systemd'' then s\<lparr>sy_pam_systemd := v = ''yes''\<rparr>
      else if k = ''user_procs'' then s\<lparr>sy_user_procs := atoi_lenient v\<rparr>
      else if k = ''user_procs_xdg'' then s\<lparr>sy_user_procs_xdg := atoi_lenient v\<rparr>
      else if k = ''xdg'' then s\<lparr>sy_xdg := v\<rparr>
      else s)"

definition systemd_line :: "bool \<times> systemd_state \<Rightarrow> string \<Rightarrow> bool \<times> systemd_state" where
  "systemd_line st line =
     (case cut_byte (CHR ''='') (trim_space line) of
        (k, v, found) \<Rightarrow> if found then (True, systemd_field k v (snd st)) else st)"

definition unreadable_output :: string where
  "unreadable_output = ''the distribution printed nothing that could be read''"

definition parse_systemd :: "string \<Rightarrow> int \<Rightarrow> systemd_state \<times> string option" where
  "parse_systemd out uid =
     (case foldl systemd_line (False, empty_systemd uid) (out_lines out) of
        (seen, s) \<Rightarrow> (s, if \<not> seen \<or> sy_pid1 s = [] then Some unreadable_output else None))"

definition systemd_source :: "string \<Rightarrow> string" where
  "systemd_source name = ''wsl.exe -d '' @ name @ '' -u root --exec /bin/sh (systemd state script)''"

section \<open>The virtual machine\<close>

definition vm_script :: string where
  "vm_script = guest_text
    [''[ -e /dev/kvm ] && echo ?kvm=yes?'',
     ''grep -qwE ,vmx|svm, /proc/cpuinfo 2>/dev/null && echo ?virt=yes?'',
     ''echo ?vendor=$(awk -F,: , ,/^vendor_id/{print $2; exit}, /proc/cpuinfo 2>/dev/null)?'',
     ''d=/proc/sys/fs/binfmt_misc'',
     ''if [ -e ?$d/register? ]; then'',
     ''  echo ?binfmt=mounted?'',
     ''  for f in ?$d?/*; do'',
     ''    n=${f##*/}'',
     ''    case ?$n? in register|status) continue ;; esac'',
     ''    [ -f ?$f? ] || continue'',
     ''    echo ?entry=$n?'',
     ''    sed ,s/^/e:/, ?$f? 2>/dev/null'',
     ''  done'',
     ''fi'']"

definition binfmt_line :: "binfmt_entry \<Rightarrow> string \<Rightarrow> binfmt_entry" where
  "binfmt_line b line =
     (if line = ''enabled'' then b\<lparr>bf_enabled := True\<rparr>
      else if line = ''disabled'' then b\<lparr>bf_enabled := False\<rparr>
      else if has_prefix line ''interpreter '' then b\<lparr>bf_interpreter := trim_prefix line ''interpreter ''\<rparr>
      else if has_prefix line ''flags:'' then b\<lparr>bf_flags := trim_space (trim_prefix line ''flags:'')\<rparr>
      else if has_prefix line ''offset '' then b\<lparr>bf_offset := atoi_lenient (trim_prefix line ''offset '')\<rparr>
      else if has_prefix line ''magic '' then b\<lparr>bf_magic := to_lower (trim_prefix line ''magic '')\<rparr>
      else if has_prefix line ''extension '' then b\<lparr>bf_extension := trim_prefix line ''extension ''\<rparr>
      else b)"

definition new_entry :: "string \<Rightarrow> binfmt_entry" where
  "new_entry name =
     \<lparr>bf_name = name, bf_enabled = False, bf_interpreter = [], bf_flags = [], bf_offset = 0, bf_magic = [],
      bf_extension = []\<rparr>"

text \<open>The entry that lines with the prefix belong to is the last one of the list, if there is one.\<close>

definition vm_line :: "bool \<times> vm_facts \<Rightarrow> string \<Rightarrow> bool \<times> vm_facts" where
  "vm_line st raw =
     (case st of (seen, v) \<Rightarrow>
        let line = trim_right (\<lambda>c. c = CHR '' '' \<or> c = tab_char) raw
        in if has_prefix line ''e:''
           then (seen, if vf_binfmt v = [] then v
                       else v\<lparr>vf_binfmt := butlast (vf_binfmt v)
                               @ [binfmt_line (last (vf_binfmt v)) (trim_space (trim_prefix line ''e:''))]\<rparr>)
           else (case cut_byte (CHR ''='') line of
                   (k, w, found) \<Rightarrow>
                     if \<not> found then (seen, v)
                     else (True,
                           if k = ''kvm'' then v\<lparr>vf_kvm := w = ''yes''\<rparr>
                           else if k = ''virt'' then v\<lparr>vf_virt_flags := w = ''yes''\<rparr>
                           else if k = ''vendor'' then v\<lparr>vf_cpu_vendor := w\<rparr>
                           else if k = ''binfmt'' then v\<lparr>vf_binfmt_mounted := w = ''mounted''\<rparr>
                           else if k = ''entry'' then v\<lparr>vf_binfmt := vf_binfmt v @ [new_entry w]\<rparr>
                           else v)))"

definition parse_vm :: "string \<Rightarrow> string \<Rightarrow> vm_facts \<times> string option" where
  "parse_vm out distro =
     (case foldl vm_line (False, zero_vm_facts\<lparr>vf_read_from := distro\<rparr>) (out_lines out) of
        (seen, v) \<Rightarrow> (v, if seen then None else Some unreadable_output))"

definition vm_source :: "string \<Rightarrow> string" where
  "vm_source name = ''wsl.exe -d '' @ name @ '' -u root --exec /bin/sh (VM facts script)''"

definition is_up :: "distro \<Rightarrow> bool" where
  "is_up d \<longleftrightarrow> di_version d = 2 \<and> fd_ok (di_running d) \<and> fd_value (di_running d)"

text \<open>The default distribution when it is up, else the first that is. The code takes the empty name of
  \<open>first\<close> for none.\<close>

definition pick_vm_distro :: "distro list \<Rightarrow> (err_kind \<times> string) + string" where
  "pick_vm_distro ds =
     (case find (\<lambda>d. is_up d \<and> di_is_default d) ds of
        Some d \<Rightarrow> Inr (di_name d)
      | None \<Rightarrow>
          (case find (\<lambda>d. is_up d \<and> di_name d \<noteq> []) ds of
             Some d \<Rightarrow> Inr (di_name d)
           | None \<Rightarrow>
               (case find (\<lambda>d. di_version d = 2 \<and> \<not> fd_ok (di_running d)) ds of
                  Some d \<Rightarrow> Inl (fd_kind (di_running d), ''not read: whether any distribution is running could not be determined'')
                | None \<Rightarrow> Inl (ErrVMWakeRefused, ''not read: no WSL 2 distribution is running, and starting one would start the VM''))))"

section \<open>The container sessions\<close>

definition wslc_script :: string where
  "wslc_script = guest_text
    [''q() {'',
     ''  s=$(dig +time=3 +tries=1 example.com ?@$1? 2>&1 | sed -n ,s/.*status: `([A-Z]*`).*/`1/p, | head -n 1)'',
     ''  echo ?$2 $1 ${s:-timeout}?'',
     ''}'',
     ''if ! command -v dig >/dev/null 2>&1; then echo ?error dig is not in the session VM?; exit 0; fi'',
     ''for ns in $(awk ,$1 == ?nameserver? && $2 ~ /^[0-9.]+$/ {print $2}, /etc/resolv.conf 2>/dev/null); do'',
     ''  q ?$ns? resolver'',
     ''done'']
     @ ''q 1.1.1.1 public'' @ [newline]"

definition wslc_line :: "wslc_session \<Rightarrow> string \<Rightarrow> wslc_session" where
  "wslc_line s line =
     (let f = GoStd.fields line
      in case f of
           [] \<Rightarrow> s
         | k # rest \<Rightarrow>
             if k = ''resolver'' \<or> k = ''public''
             then (case rest of
                     [addr, st] \<Rightarrow>
                       (let r = \<lparr>wr_addr = addr, wr_status = st\<rparr>
                        in if k = ''public'' then s\<lparr>ws_public := r\<rparr> else s\<lparr>ws_resolvers := ws_resolvers s @ [r]\<rparr>)
                   | _ \<Rightarrow> s)
             else if k = ''error'' then s\<lparr>ws_err := trim_space (trim_prefix line ''error'')\<rparr>
             else s)"

definition no_resolver :: wslc_resolver where "no_resolver = \<lparr>wr_addr = [], wr_status = []\<rparr>"

definition parse_wslc :: "string \<Rightarrow> string \<Rightarrow> wslc_session" where
  "parse_wslc name out =
     (let s = foldl wslc_line
                \<lparr>ws_name = name, ws_running = False, ws_resolvers = [], ws_public = no_resolver, ws_err = []\<rparr>
                (out_lines out)
      in if ws_err s = [] \<and> wr_addr (ws_public s) = []
         then s\<lparr>ws_err := ''the session VM printed no DNS results''\<rparr> else s)"

section \<open>The port ranges\<close>

text \<open>What \<open>\\s\<close> matches in a regular expression.\<close>

definition re_space :: "char \<Rightarrow> bool" where
  "re_space c \<longleftrightarrow> c \<in> {CHR '' '', tab_char, newline, carriage_return, CHR 0x0C}"

definition re_trim :: "string \<Rightarrow> string" where
  "re_trim s = trim_right re_space (trim_left re_space s)"

text \<open>A number at the end of the line after a colon.\<close>

definition colon_number :: "string \<Rightarrow> string option" where
  "colon_number line =
     (case last_index (\<lambda>c. c = CHR '':'') line of
        None \<Rightarrow> None
      | Some i \<Rightarrow>
          (let m = re_trim (drop (Suc i) line)
           in if m \<noteq> [] \<and> list_all is_digit m then Some m else None))"

text \<open>Two numbers and nothing else but an asterisk.\<close>

definition exclusion_line :: "string \<Rightarrow> (string \<times> string) option" where
  "exclusion_line line =
     (let t = re_trim line;
          u = (if t \<noteq> [] \<and> last t = CHR ''*'' then trim_right re_space (butlast t) else t);
          a = takeWhile is_digit u; r = dropWhile is_digit u; b = dropWhile re_space r
      in if a \<noteq> [] \<and> b \<noteq> r \<and> b \<noteq> [] \<and> list_all is_digit b then Some (a, b) else None)"

definition parse_dynamic_ports :: "string \<Rightarrow> port_span option" where
  "parse_dynamic_ports out =
     (case map atoi_lenient (List.map_filter colon_number (out_lines out)) of
        a # b # _ \<Rightarrow>
          (let e = wrap64 (wrap64 (a + b) - 1)
           in if a < 1 \<or> b < 1 \<or> e > 65535 then None else Some \<lparr>ps_start = a, ps_end = e\<rparr>)
      | _ \<Rightarrow> None)"

definition exclusion_span :: "string \<Rightarrow> port_span option" where
  "exclusion_span line =
     (case exclusion_line line of
        None \<Rightarrow> None
      | Some (s, t) \<Rightarrow>
          (let a = atoi_lenient s; b = atoi_lenient t
           in if 1 \<le> a \<and> a \<le> b \<and> b \<le> 65535 then Some \<lparr>ps_start = a, ps_end = b\<rparr> else None))"

definition parse_excluded_ports :: "string \<Rightarrow> port_span list" where
  "parse_excluded_ports out = List.map_filter exclusion_span (out_lines out)"

section \<open>Files left by saved downloads\<close>

text \<open>A directory as the walk sees it: files, and directories with their entries in order, or unreadable.
  Names are runes, as Windows spells them.\<close>

datatype fs_node = Leaf runes | Folder runes "fs_node list option"

primrec node_name :: "fs_node \<Rightarrow> runes" where
  "node_name (Leaf n) = n"
| "node_name (Folder n es) = n"

definition rune_text :: "string \<Rightarrow> runes" where "rune_text s = map of_char s"

definition zone_suffix :: runes where "zone_suffix = rune_text '':Zone.Identifier''"

definition zone_max_depth :: nat where "zone_max_depth = 6"
definition zone_max_entries :: nat where "zone_max_entries = 200000"
definition zone_max_paths :: nat where "zone_max_paths = 500"

definition zone_skip :: "runes list" where
  "zone_skip = map rune_text
     [''node_modules'', ''.git'', ''.cache'', ''.cargo'', ''.rustup'', ''.nvm'', ''venv'', ''.venv'',
      ''__pycache__'', ''vendor'', ''target'']"

record zone_walk =
  zw_count :: nat
  zw_paths :: "runes list"
  zw_truncated :: bool
  zw_entries :: nat
  zw_calls :: nat

definition zone_found :: "runes \<Rightarrow> zone_walk \<Rightarrow> zone_walk" where
  "zone_found p w =
     w\<lparr>zw_count := Suc (zw_count w),
       zw_paths := (if length (zw_paths w) < zone_max_paths then zw_paths w @ [p] else zw_paths w)\<rparr>"

definition zone_truncate :: "zone_walk \<Rightarrow> zone_walk" where
  "zone_truncate w = w\<lparr>zw_truncated := True\<rparr>"

definition zone_step :: "zone_walk \<Rightarrow> bool \<times> zone_walk" where
  "zone_step w0 =
     (let w = w0\<lparr>zw_entries := Suc (zw_entries w0)\<rparr>
      in if zw_entries w > zone_max_entries then (False, zone_truncate w) else (True, w))"

definition runes_suffix :: "runes \<Rightarrow> runes \<Rightarrow> bool" where
  "runes_suffix s p \<longleftrightarrow> length p \<le> length s \<and> drop (length s - length p) s = p"

text \<open>A path is the names from the root on, joined by slashes; that of the root is empty (\<open>.\<close> in the
  code).\<close>

definition join_path :: "runes \<Rightarrow> runes \<Rightarrow> runes" where
  "join_path p n = (if p = [] then n else p @ [slash] @ n)"

definition too_deep :: "runes \<Rightarrow> bool" where
  "too_deep p \<longleftrightarrow> length (filter (\<lambda>r. r = slash) p) + 1 > zone_max_depth"

datatype walk_signal = GoOn | SkipDir | StopWalk

text \<open>The function called on each entry. \<open>ended n\<close> is whether the context has ended by the call \<open>n\<close>.\<close>

definition zone_visit ::
    "(nat \<Rightarrow> bool) \<Rightarrow> runes \<Rightarrow> runes \<Rightarrow> fs_node \<Rightarrow> zone_walk \<Rightarrow> walk_signal \<times> zone_walk" where
  "zone_visit ended base p d w0 =
     (let w1 = w0\<lparr>zw_calls := Suc (zw_calls w0)\<rparr>
      in if ended (zw_calls w0) then (StopWalk, w1)
         else case zone_step w1 of
                (False, w) \<Rightarrow> (StopWalk, w)
              | (True, w) \<Rightarrow>
                  (case d of
                     Folder n es \<Rightarrow>
                       if p \<noteq> [] \<and> (n \<in> set zone_skip \<or> too_deep p) then (SkipDir, w) else (GoOn, w)
                   | Leaf n \<Rightarrow>
                       (GoOn, if runes_suffix (to_linux n) zone_suffix
                              then zone_found ([slash] @ base @ [slash] @ to_linux p) w else w)))"

text \<open>The second call on a directory that cannot be read: it is skipped.\<close>

definition zone_unreadable :: "(nat \<Rightarrow> bool) \<Rightarrow> zone_walk \<Rightarrow> walk_signal \<times> zone_walk" where
  "zone_unreadable ended w =
     (if ended (zw_calls w) then StopWalk else GoOn, w\<lparr>zw_calls := Suc (zw_calls w)\<rparr>)"

text \<open>\<open>fs.WalkDir\<close>; it ends with whether to go on.\<close>

fun walk_node :: "(nat \<Rightarrow> bool) \<Rightarrow> runes \<Rightarrow> runes \<Rightarrow> fs_node \<Rightarrow> zone_walk \<Rightarrow> bool \<times> zone_walk"
  and walk_nodes :: "(nat \<Rightarrow> bool) \<Rightarrow> runes \<Rightarrow> runes \<Rightarrow> fs_node list \<Rightarrow> zone_walk \<Rightarrow> bool \<times> zone_walk" where
  "walk_node ended base p (Leaf n) w =
     (case zone_visit ended base p (Leaf n) w of (sig, w1) \<Rightarrow> (sig \<noteq> StopWalk, w1))"
| "walk_node ended base p (Folder n None) w =
     (case zone_visit ended base p (Folder n None) w of
        (GoOn, w1) \<Rightarrow> (case zone_unreadable ended w1 of (sig, w2) \<Rightarrow> (sig \<noteq> StopWalk, w2))
      | (sig, w1) \<Rightarrow> (sig \<noteq> StopWalk, w1))"
| "walk_node ended base p (Folder n (Some es)) w =
     (case zone_visit ended base p (Folder n (Some es)) w of
        (GoOn, w1) \<Rightarrow> walk_nodes ended base p es w1
      | (sig, w1) \<Rightarrow> (sig \<noteq> StopWalk, w1))"
| "walk_nodes ended base p [] w = (True, w)"
| "walk_nodes ended base p (d # ds) w =
     (case walk_node ended base (join_path p (node_name d)) d w of
        (True, w1) \<Rightarrow> walk_nodes ended base p ds w1
      | (False, w1) \<Rightarrow> (False, w1))"

definition empty_walk :: zone_walk where
  "empty_walk = \<lparr>zw_count = 0, zw_paths = [], zw_truncated = False, zw_entries = 0, zw_calls = 0\<rparr>"

definition walk_zone_root :: "(nat \<Rightarrow> bool) \<Rightarrow> runes \<Rightarrow> fs_node \<Rightarrow> zone_walk \<Rightarrow> zone_walk" where
  "walk_zone_root ended base tree w = snd (walk_node ended base [] tree w)"

text \<open>What there is to find: the files of a tree, outside the skipped directories and within the depth,
  whose Linux name has the suffix, by their path in the distribution.\<close>

fun zone_files :: "runes \<Rightarrow> runes \<Rightarrow> fs_node \<Rightarrow> runes list" where
  "zone_files base p (Leaf n) =
     (if runes_suffix (to_linux n) zone_suffix then [[slash] @ base @ [slash] @ to_linux p] else [])"
| "zone_files base p (Folder n None) = []"
| "zone_files base p (Folder n (Some es)) =
     (if p \<noteq> [] \<and> (n \<in> set zone_skip \<or> too_deep p) then []
      else concat (map (\<lambda>d. zone_files base (join_path p (node_name d)) d) es))"

definition sees :: "zone_walk \<Rightarrow> runes list \<Rightarrow> zone_walk \<Rightarrow> bool" where
  "sees w fs w' \<longleftrightarrow>
     zw_count w' = zw_count w + length fs
     \<and> zw_paths w' = zw_paths w @ take (zone_max_paths - length (zw_paths w)) fs"

lemma sees_trans:
  assumes "sees w fs w1" and "sees w1 gs w2"
  shows "sees w (fs @ gs) w2"
proof -
  have "m - (l + min f (m - l)) = m - (l + f)" for m l f :: nat by (simp add: min_def)
  then show ?thesis using assms by (simp add: sees_def)
qed

text \<open>A walk was stopped: by the context, or at its limit of entries, which leaves its mark.\<close>

definition stopped :: "(nat \<Rightarrow> bool) \<Rightarrow> zone_walk \<Rightarrow> bool" where
  "stopped ended w \<longleftrightarrow> zw_truncated w \<or> (\<exists>n < zw_calls w. ended n)"

text \<open>What a walk that has \<open>fs\<close> to find does: it finds them in order, all of them unless it was stopped.\<close>

definition walk_finds :: "(nat \<Rightarrow> bool) \<Rightarrow> zone_walk \<Rightarrow> runes list \<Rightarrow> bool \<Rightarrow> zone_walk \<Rightarrow> bool" where
  "walk_finds ended w fs b w' \<longleftrightarrow>
     (\<exists>gs hs. fs = gs @ hs \<and> sees w gs w'
        \<and> (if b then hs = [] \<and> zw_truncated w' = zw_truncated w else stopped ended w'))"

lemma finds_trans:
  assumes "walk_finds ended w fs True w1" and "walk_finds ended w1 gs b w2"
  shows "walk_finds ended w (fs @ gs) b w2"
proof -
  obtain gs1 gs2 where g: "gs = gs1 @ gs2" "sees w1 gs1 w2"
    "if b then gs2 = [] \<and> zw_truncated w2 = zw_truncated w1 else stopped ended w2"
    using assms(2) by (auto simp: walk_finds_def)
  have f: "sees w fs w1" "zw_truncated w1 = zw_truncated w" using assms(1) by (auto simp: walk_finds_def)
  have "fs @ gs = (fs @ gs1) @ gs2" using g(1) by simp
  then show ?thesis
    unfolding walk_finds_def using sees_trans[OF f(1) g(2)] g(3) f(2) by metis
qed

lemma finds_more: "walk_finds ended w fs False w' \<Longrightarrow> walk_finds ended w (fs @ gs) False w'"
  unfolding walk_finds_def by (metis append.assoc)

lemma finds_none:
  "sees w [] w' \<Longrightarrow> (if b then fs = [] \<and> zw_truncated w' = zw_truncated w else stopped ended w') \<Longrightarrow>
   walk_finds ended w fs b w'"
  by (auto simp: walk_finds_def)

lemma visit_stopped:
  "zone_visit ended base p d w = (StopWalk, w') \<Longrightarrow> sees w [] w' \<and> stopped ended w'"
  by (auto simp: zone_visit_def zone_step_def zone_truncate_def Let_def stopped_def sees_def
      split: if_splits fs_node.splits)

lemma visit_leaf:
  "zone_visit ended base p (Leaf n) w = (sig, w') \<Longrightarrow> sig \<noteq> StopWalk \<Longrightarrow>
   sees w (zone_files base p (Leaf n)) w' \<and> zw_truncated w' = zw_truncated w"
  by (auto simp: zone_visit_def zone_step_def zone_found_def Let_def sees_def split: if_splits)

lemma visit_folder:
  assumes "zone_visit ended base p (Folder n es) w = (sig, w')" and "sig \<noteq> StopWalk"
  shows "sees w [] w' \<and> zw_truncated w' = zw_truncated w \<and> (sig = SkipDir \<longleftrightarrow> p \<noteq> [] \<and> (n \<in> set zone_skip \<or> too_deep p))"
  using assms by (auto simp: zone_visit_def zone_step_def Let_def sees_def split: if_splits)

lemma walk_finds:
  "walk_node ended base p d w = (b, w') \<Longrightarrow> walk_finds ended w (zone_files base p d) b w'"
  "walk_nodes ended base p ds w = (b, w') \<Longrightarrow>
   walk_finds ended w (concat (map (\<lambda>d. zone_files base (join_path p (node_name d)) d) ds)) b w'"
proof (induction ended base p d w and ended base p ds w arbitrary: b w' and b w' rule: walk_node_walk_nodes.induct)
  case (1 ended base p n w)
  obtain sig w1 where v: "zone_visit ended base p (Leaf n) w = (sig, w1)" by fastforce
  then have r: "b = (sig \<noteq> StopWalk)" "w' = w1" using 1 by auto
  show ?case
  proof (cases "sig = StopWalk")
    case True
    then show ?thesis using r v visit_stopped[of ended base p "Leaf n" w w1] by (intro finds_none) auto
  next
    case False
    then have "sees w (zone_files base p (Leaf n)) w1 \<and> zw_truncated w1 = zw_truncated w"
      using visit_leaf[OF v] by simp
    then show ?thesis using r False by (auto simp: walk_finds_def simp del: zone_files.simps)
  qed
next
  case (2 ended base p n w)
  obtain sig w1 where v: "zone_visit ended base p (Folder n None) w = (sig, w1)" by fastforce
  show ?case
  proof (cases sig)
    case GoOn
    then show ?thesis
      using 2 v visit_folder[OF v]
      by (intro finds_none) (auto simp: zone_unreadable_def stopped_def sees_def split: prod.splits if_splits)
  next
    case SkipDir
    then show ?thesis using 2 v visit_folder[OF v] by (intro finds_none) auto
  next
    case StopWalk
    then show ?thesis
      using 2 v visit_stopped[of ended base p "Folder n None" w w1] by (intro finds_none) auto
  qed
next
  case (3 ended base p n es w)
  obtain sig w1 where v: "zone_visit ended base p (Folder n (Some es)) w = (sig, w1)" by fastforce
  show ?case
  proof (cases sig)
    case GoOn
    then have s: "walk_finds ended w [] True w1" "\<not> (p \<noteq> [] \<and> (n \<in> set zone_skip \<or> too_deep p))"
      using visit_folder[OF v] by (auto simp: walk_finds_def)
    have "walk_nodes ended base p es w1 = (b, w')" using "3.prems" v GoOn by simp
    then show ?thesis
      using "3.IH"[OF v[symmetric] GoOn] s(2) finds_trans[OF s(1)] by auto
  next
    case SkipDir
    then show ?thesis using "3.prems" v visit_folder[OF v] by (intro finds_none) auto
  next
    case StopWalk
    then show ?thesis
      using "3.prems" v visit_stopped[of ended base p "Folder n (Some es)" w w1] by (intro finds_none) auto
  qed
next
  case (4 ended base p w)
  then show ?case by (auto simp: walk_finds_def sees_def)
next
  case (5 ended base p d ds w)
  obtain g w1 where n: "walk_node ended base (join_path p (node_name d)) d w = (g, w1)" by fastforce
  have s: "walk_finds ended w (zone_files base (join_path p (node_name d)) d) g w1" using "5.IH"(1)[OF n] .
  show ?case
  proof (cases g)
    case True
    have "walk_nodes ended base p ds w1 = (b, w')" using "5.prems" n True by simp
    then show ?thesis
      using "5.IH"(2)[OF n[symmetric]] s True finds_trans by auto
  next
    case False
    then show ?thesis using s "5.prems" n finds_more by auto
  qed
qed

text \<open>C14: walking a home directory for the files saved downloads leave counts every file it could have
  found, and records the first 500 of them in order, by the path they have inside the distribution,
  unless the context ended or the walk reached its limit of entries and says so; and even then what it
  counted and recorded is there: the count is a floor.\<close>

theorem zone_walk_finds_every_file:
  shows "case (zone_files base [] tree, walk_zone_root ended base tree empty_walk) of
     (fs, w) \<Rightarrow> zw_count w \<le> length fs \<and> zw_paths w = take (min zone_max_paths (zw_count w)) fs
       \<and> (stopped ended w \<or> zw_count w = length fs)"
proof -
  obtain b w where r: "walk_node ended base [] tree empty_walk = (b, w)" by fastforce
  obtain gs hs where "zone_files base [] tree = gs @ hs" "sees empty_walk gs w"
    "if b then hs = [] else stopped ended w"
    using walk_finds(1)[OF r] unfolding walk_finds_def by meson
  then show ?thesis using r by (cases b) (auto simp: walk_zone_root_def sees_def empty_walk_def min_def)
qed

text \<open>A context that ends stops the walk without a mark in the walk itself: only the caller adds it, when
  it sees the deadline before the walk returns.\<close>

lemma ended_walk_leaves_no_mark:
  "walk_zone_root (\<lambda>n. True) base (Folder [] (Some [Leaf (rune_text ''a'' @ zone_suffix)])) empty_walk
     = empty_walk\<lparr>zw_calls := 1\<rparr>"
  by (simp add: walk_zone_root_def zone_visit_def empty_walk_def)

end
