(* ===== verification/Inventory.thy ===== *)
theory Inventory
  imports Collect WslOut DiskPaths Vhdx "HOL-Library.List_Lexorder"
begin

text \<open>
  \<open>internal/env/collect\<close>, the collector of the distributions: the registry (\<open>collectDistros\<close>), which of
  them run (\<open>running_windows.go\<close>), their disks (\<open>inspectVhd\<close>), and what is read inside the ones that run
  (\<open>wslconf_windows.go\<close>, \<open>zone_windows.go\<close>, \<open>watchers_windows.go\<close>, \<open>systemd_windows.go\<close>, \<open>vm_windows.go\<close>).
  What the machine answers is a parameter, \<open>inventory_host\<close>; what the collector reaches into, by the
  reader and the name of the distribution, is a trace it returns. The readers run side by side and each
  writes its own field, so their order does not show.
\<close>

section \<open>Errors of the host\<close>

datatype host_error = NotExist string | AccessDenied string | DeadlinePassed string | OtherError string

definition kind_of :: "host_error \<Rightarrow> err_kind" where
  "kind_of e = (case e of NotExist t \<Rightarrow> ErrNotPresent | AccessDenied t \<Rightarrow> ErrNeedsElevation
                | DeadlinePassed t \<Rightarrow> ErrTimeout | OtherError t \<Rightarrow> ErrOther)"

definition error_text :: "host_error \<Rightarrow> string" where
  "error_text e = (case e of NotExist t \<Rightarrow> t | AccessDenied t \<Rightarrow> t | DeadlinePassed t \<Rightarrow> t | OtherError t \<Rightarrow> t)"

section \<open>Processes that watch files\<close>

record watcher =
  wt_match :: string
  wt_knob :: string
  wt_note :: string

datatype watcher_error = NoWatchers | IncompleteWatcher nat | DoubleWatcher string

fun check_watchers :: "nat \<Rightarrow> string list \<Rightarrow> watcher list \<Rightarrow> watcher_error option" where
  "check_watchers i seen [] = None"
| "check_watchers i seen (w # ws) =
     (if wt_match w = [] \<or> wt_knob w = [] then Some (IncompleteWatcher (Suc i))
      else if wt_match w \<in> set seen then Some (DoubleWatcher (wt_match w))
      else check_watchers (Suc i) (wt_match w # seen) ws)"

definition validate_watchers :: "watcher list \<Rightarrow> watcher_error option" where
  "validate_watchers ws = (if ws = [] then Some NoWatchers else check_watchers 0 [] ws)"

definition lookup_watcher :: "watcher list \<Rightarrow> string \<Rightarrow> watcher option" where
  "lookup_watcher ws name = find (\<lambda>w. wt_match w = name) ws"

definition nul :: char where "nul = CHR 0x00"

definition split_nul :: "string \<Rightarrow> string list" where
  "split_nul s = filter (\<lambda>f. f \<noteq> []) (split_on nul s)"

definition env_value :: "string \<Rightarrow> string \<Rightarrow> string" where
  "env_value environ key =
     (case find (\<lambda>kv. has_prefix kv (key @ ''='')) (split_on nul environ) of
        None \<Rightarrow> [] | Some kv \<Rightarrow> trim_prefix kv (key @ ''=''))"

definition on_windows_drive :: "string \<Rightarrow> bool" where
  "on_windows_drive p \<longleftrightarrow>
     has_prefix p ''/mnt/'' \<and> 7 \<le> length p \<and> p ! 5 \<in> set ''abcdefghijklmnopqrstuvwxyz'' \<and> p ! 6 = CHR ''/''"

definition is_pid :: "string \<Rightarrow> bool" where "is_pid s \<longleftrightarrow> s \<noteq> [] \<and> list_all is_digit s"

text \<open>A directory of \<open>/proc\<close>: its name, whether it is one, and the files that can be read in it.\<close>

record proc_dir =
  pd_name :: string
  pd_is_dir :: bool
  pd_files :: "string \<rightharpoonup> string"

definition proc_file :: "proc_dir \<Rightarrow> string \<Rightarrow> string" where
  "proc_file p name = (case pd_files p name of None \<Rightarrow> [] | Some t \<Rightarrow> t)"

definition watcher_name :: "string list \<Rightarrow> string \<Rightarrow> watcher list \<Rightarrow> string option" where
  "watcher_name args comm ws =
     find (\<lambda>n. lookup_watcher ws n \<noteq> None)
       ((if 1 < length args then [base_name (trim_space (args ! 1))] else [])
        @ (if args \<noteq> [] then [base_name (trim_space (hd args))] else []) @ [comm])"

definition read_watch_proc :: "watcher list \<Rightarrow> proc_dir \<Rightarrow> watch_proc option" where
  "read_watch_proc ws p =
     (let comm = trim_space (proc_file p ''comm'')
      in if comm = [] then None
         else let args = split_nul (proc_file p ''cmdline'')
              in case watcher_name args comm ws of
                   None \<Rightarrow> None
                 | Some name \<Rightarrow>
                     (let dir = env_value (proc_file p ''environ'') ''PWD''
                      in if on_windows_drive dir then Some \<lparr>wp_name = name, wp_dir = dir\<rparr>
                         else map_option (\<lambda>a. \<lparr>wp_name = name, wp_dir = dir_rooted a\<rparr>) (find on_windows_drive args)))"

definition watch_max_procs :: int where "watch_max_procs = 4000"
definition watch_max_findings :: nat where "watch_max_findings = 20"

text \<open>The loop: the processes so far, and what was found, which is what the keys seen stand for.\<close>

fun scan_procs :: "(nat \<Rightarrow> bool) \<Rightarrow> watcher list \<Rightarrow> nat \<Rightarrow> int \<Rightarrow> watch_proc list \<Rightarrow> proc_dir list \<Rightarrow> watch_proc list" where
  "scan_procs ended ws i n found [] = found"
| "scan_procs ended ws i n found (p # ps) =
     (if ended i \<or> watch_max_findings \<le> length found then found
      else if \<not> pd_is_dir p \<or> \<not> is_pid (pd_name p) then scan_procs ended ws (Suc i) n found ps
      else if n + 1 > watch_max_procs then found
      else case read_watch_proc ws p of
             None \<Rightarrow> scan_procs ended ws (Suc i) (n + 1) found ps
           | Some w \<Rightarrow>
               scan_procs ended ws (Suc i) (n + 1) (if w \<in> set found then found else found @ [w]) ps)"

definition watch_before :: "watch_proc \<Rightarrow> watch_proc \<Rightarrow> bool" where
  "watch_before a b \<longleftrightarrow> (if wp_dir a \<noteq> wp_dir b then wp_dir a < wp_dir b else wp_name a < wp_name b)"

definition scan_watchers :: "(nat \<Rightarrow> bool) \<Rightarrow> watcher list option \<Rightarrow> proc_dir list option \<Rightarrow> watch_proc list" where
  "scan_watchers ended tbl procs =
     (case (tbl, procs) of
        (Some ws, Some ps) \<Rightarrow> stable_sort_by watch_before (scan_procs ended ws 0 0 [] ps)
      | _ \<Rightarrow> [])"

section \<open>Which distributions run\<close>

record list_reply =
  lr_out :: bytes
  lr_err :: "host_error option"
  lr_ctx :: "host_error option"
  lr_stderr :: bytes

definition running_distros :: "list_reply \<Rightarrow> host_error + string list" where
  "running_distros r =
     (let names = filter (\<lambda>t. t \<noteq> []) (map trim_space (out_lines (decode (lr_out r))))
      in if lr_err r \<noteq> None \<and> names = []
         then (case lr_ctx r of
                 Some e \<Rightarrow> Inl e
               | None \<Rightarrow>
                   (let msg = trim_space (decode (lr_stderr r))
                    in if msg \<noteq> [] then Inl (OtherError (''wsl --list --running: '' @ msg)) else Inr names))
         else Inr names)"

section \<open>Disks\<close>

record disk_file =
  dk_size :: int
  dk_attributes :: "(bool \<times> bool \<times> bool) option"
  dk_owner_sid :: "string option"
  dk_content :: "host_error + bytes"

definition classify_owner :: "string option \<Rightarrow> string \<Rightarrow> string" where
  "classify_owner user sid =
     (if sid = ''S-1-5-32-544'' then ''administrators''
      else if sid = ''S-1-5-18'' then ''system''
      else case user of
             Some u \<Rightarrow> if equal_fold u sid then ''current_user'' else ''other''
           | None \<Rightarrow> ''other'')"

text \<open>How the errors of the two formats read is left to \<open>vhdx_text\<close> and \<open>ext4_text\<close>.\<close>

definition read_superblock ::
    "(vhdx_error \<Rightarrow> string) \<Rightarrow> (ext4_error \<Rightarrow> string) \<Rightarrow> reader \<Rightarrow> string \<Rightarrow> super collected" where
  "read_superblock vhdx_text ext4_text disk path =
     (let src = path @ '' (ext4 superblock)''
      in case read_at disk super_size 1024 of
           (buf, Some e) \<Rightarrow> failed_value no_super ErrOther src (Some (vhdx_text e))
         | (buf, None) \<Rightarrow>
             (case parse_super buf of
                (s, None) \<Rightarrow> collected_value s src
              | (s, Some e) \<Rightarrow>
                  failed_value no_super (if e = NotExt4 then ErrNotPresent else ErrOther) src (Some (ext4_text e))))"

definition zero_vhd :: "string \<Rightarrow> vhd_facts" where
  "zero_vhd path = zero_vhd_facts\<lparr>vd_path := path\<rparr>"

definition inspect_vhd ::
    "(vhdx_error \<Rightarrow> string) \<Rightarrow> (ext4_error \<Rightarrow> string) \<Rightarrow> string option \<Rightarrow> (string \<Rightarrow> host_error + disk_file) \<Rightarrow> string \<Rightarrow>
     vhd_facts collected \<times> super collected" where
  "inspect_vhd vhdx_text ext4_text user disks path =
     (case disks path of
        Inl e \<Rightarrow> (failed_value zero_vhd_facts (kind_of e) path (Some (error_text e)), zero_value no_super)
      | Inr f \<Rightarrow>
          (let i0 = (zero_vhd path)\<lparr>vd_file_size := of_int (dk_size f)\<rparr>;
               i1 = (case dk_attributes f of
                       Some (sp, co, en) \<Rightarrow> i0\<lparr>vd_sparse := sp, vd_compressed := co, vd_encrypted := en\<rparr>
                     | None \<Rightarrow> i0);
               i2 = (case dk_owner_sid f of
                       Some sid \<Rightarrow> i1\<lparr>vd_owner_sid := sid, vd_owner := classify_owner user sid\<rparr> | None \<Rightarrow> i1)
           in case dk_content f of
                Inl e \<Rightarrow>
                  if kind_of e = ErrNeedsElevation
                  then (failed_value zero_vhd_facts ErrNeedsElevation path (Some (error_text e)), zero_value no_super)
                  else (collected_value (i2\<lparr>vd_parse_err := ''open: '' @ error_text e\<rparr>) path, zero_value no_super)
              | Inr content \<Rightarrow>
                  (case open_vhdx content (dk_size f) of
                     (disk, perr) \<Rightarrow>
                       (let p = rd_info disk;
                            i3 = i2\<lparr>vd_magic_ok := vi_magic_ok p, vd_header_ok := vi_header_ok p,
                                    vd_virtual_size := vi_virtual_size p, vd_block_size := vi_block_size p,
                                    vd_allocated := vi_allocated_bytes p\<rparr>
                        in case perr of
                             Some e \<Rightarrow> (collected_value (i3\<lparr>vd_parse_err := vhdx_text e\<rparr>) path, zero_value no_super)
                           | None \<Rightarrow> (collected_value i3 path, read_superblock vhdx_text ext4_text disk path)))))"

section \<open>What is read inside a distribution\<close>

definition host_path :: "string \<Rightarrow> string" where
  "host_path name = bs ''||wsl.localhost|'' @ name"

definition wsl_conf_path :: "string \<Rightarrow> string" where
  "wsl_conf_path name = host_path name @ bs ''|etc|wsl.conf''"

text \<open>A read that may take longer than it is given; \<open>duration_text\<close> prints a timeout.\<close>

datatype 'a timed = InTime "host_error + 'a" | TooLate

definition read_wsl_conf :: "(int \<Rightarrow> string) \<Rightarrow> string timed \<Rightarrow> int \<Rightarrow> string \<Rightarrow> string collected" where
  "read_wsl_conf duration_text reply timeout name =
     (let path = wsl_conf_path name; t = (if timeout \<le> 0 then 3 * second_ns else timeout)
      in case reply of
           TooLate \<Rightarrow>
             failed_value [] ErrTimeout path
               (Some (''reading it took longer than '' @ duration_text t
                  @ '', which usually means the distribution'' @ [CHR 0x27] @ ''s file server is wedged''))
         | InTime (Inr conf) \<Rightarrow> collected_value conf path
         | InTime (Inl (NotExist e)) \<Rightarrow> absent_value [] path
         | InTime (Inl (AccessDenied e)) \<Rightarrow> failed_value [] ErrNeedsElevation path (Some e)
         | InTime (Inl e) \<Rightarrow> failed_value [] ErrOther path (Some (error_text e)))"

text \<open>The two roots that are walked, where they are there; if the deadline is seen first, the result says
  that it was cut.\<close>

definition rune_string :: "runes \<Rightarrow> string" where
  "rune_string r = bytes_string (utf8_encode r)"

definition walk_roots :: "(nat \<Rightarrow> bool) \<Rightarrow> (string \<Rightarrow> fs_node option) \<Rightarrow> zone_walk" where
  "walk_roots ended trees =
     foldl (\<lambda>w r. case trees r of None \<Rightarrow> w | Some tree \<Rightarrow> walk_zone_root ended (rune_text r) tree w)
       empty_walk [''home'', ''root'']"

definition zone_result :: "zone_walk \<Rightarrow> zone_facts" where
  "zone_result w =
     \<lparr>zs_count = int (zw_count w), zs_paths = map rune_string (zw_paths w), zs_truncated = zw_truncated w\<rparr>"

record zone_reply =
  zr_ended :: "nat \<Rightarrow> bool"
  zr_trees :: "string \<Rightarrow> fs_node option"
  zr_late :: bool

definition scan_zone_files :: "zone_reply \<Rightarrow> string \<Rightarrow> zone_facts collected" where
  "scan_zone_files r name =
     (let w = walk_roots (zr_ended r) (zr_trees r)
      in collected_value (zone_result (if zr_late r then zone_truncate w else w)) (host_path name))"

definition read_watchers ::
    "(int \<Rightarrow> string) \<Rightarrow> watcher list option \<Rightarrow> (proc_dir list option) timed \<Rightarrow> int \<Rightarrow> string \<Rightarrow> watch_proc list collected" where
  "read_watchers duration_text tbl reply timeout name =
     (let src = host_path name @ bs ''|proc''
      in case reply of
           TooLate \<Rightarrow> failed_value [] ErrTimeout src (Some (''reading /proc took longer than '' @ duration_text timeout))
         | InTime (Inl e) \<Rightarrow> failed_value [] (kind_of e) src (Some (error_text e))
         | InTime (Inr procs) \<Rightarrow> collected_value (scan_watchers (\<lambda>n. False) tbl procs) src)"

text \<open>What running a script gives: its output, and its error with whether the deadline was why.\<close>

type_synonym script_reply = "string \<times> (string \<times> bool) option"

definition read_systemd :: "script_reply \<Rightarrow> int \<Rightarrow> string \<Rightarrow> systemd_state collected" where
  "read_systemd reply uid name =
     (let src = systemd_source name; z = empty_systemd 0
      in case reply of
           (out, Some (err, late)) \<Rightarrow> failed_value z (if late then ErrTimeout else ErrOther) src (Some err)
         | (out, None) \<Rightarrow>
             (case parse_systemd out uid of
                (s, Some err) \<Rightarrow> failed_value z ErrOther src (Some err)
              | (s, None) \<Rightarrow> collected_value s src))"

text \<open>What every reader asks first: only a WSL 2 distribution that is known to run is read. The texts are
  of a distribution of another version, of one that may run, of a stopped one.\<close>

definition reading_inside ::
    "'a \<Rightarrow> string \<Rightarrow> string \<times> string \<times> string \<Rightarrow> (int \<times> string) option \<Rightarrow> (string \<Rightarrow> 'a collected) \<Rightarrow> distro \<Rightarrow>
     'a collected \<times> string list" where
  "reading_inside z src msgs budget read d =
     (case msgs of (m1, m2, m3) \<Rightarrow>
        if di_version d \<noteq> 2 then (failed_value z ErrUnsupported src (Some m1), [])
        else if fd_kind (di_running d) \<noteq> ErrNone
        then (failed_value z (fd_kind (di_running d)) src (Some m2), [])
        else if \<not> fd_value (di_running d) then (failed_value z ErrVMWakeRefused src (Some m3), [])
        else case budget of
               Some (left, m4) \<Rightarrow>
                 if left \<le> 0 then (failed_value z ErrTimeout src (Some m4), [])
                 else (read (di_name d), [di_name d])
             | None \<Rightarrow> (read (di_name d), [di_name d]))"

definition no_time :: string where "no_time = ''not read: no time left in the collector deadline''"

section \<open>The collector\<close>

datatype reg_value = RegText string | RegNumber int

record inventory_host =
  ih_open :: "host_error option"
  ih_default :: string
  ih_subkeys :: "host_error + string list"
  ih_key :: "string \<Rightarrow> (string \<rightharpoonup> reg_value) option"
  ih_value_names :: "string \<Rightarrow> string list"
  ih_list :: list_reply
  ih_user :: "string option"
  ih_disks :: "string \<Rightarrow> host_error + disk_file"
  ih_free :: "string \<Rightarrow> host_error + u64"
  ih_volume :: "string \<Rightarrow> string"
  ih_conf :: "string \<Rightarrow> string timed"
  ih_zone :: "string \<Rightarrow> zone_reply"
  ih_procs :: "string \<Rightarrow> (proc_dir list option) timed"
  ih_script :: "string \<Rightarrow> string \<Rightarrow> script_reply"
  ih_deadline :: "int option"
  ih_now :: int
  ih_vhdx_text :: "vhdx_error \<Rightarrow> string"
  ih_ext4_text :: "ext4_error \<Rightarrow> string"
  ih_duration_text :: "int \<Rightarrow> string"
  ih_watchers :: "watcher list option"

definition reg_text :: "(string \<rightharpoonup> reg_value) \<Rightarrow> string \<Rightarrow> string" where
  "reg_text k name = (case k name of Some (RegText t) \<Rightarrow> t | _ \<Rightarrow> [])"

definition reg_int :: "(string \<rightharpoonup> reg_value) \<Rightarrow> string \<Rightarrow> int" where
  "reg_int k name = (case k name of Some (RegNumber n) \<Rightarrow> n | _ \<Rightarrow> - 1)"

definition running_source :: string where "running_source = ''wsl --list --running --quiet''"

definition registry_distro :: "inventory_host \<Rightarrow> host_error + string list \<Rightarrow> string \<Rightarrow> (string \<rightharpoonup> reg_value) \<Rightarrow> distro" where
  "registry_distro h running guid k =
     (let d = zero_distro\<lparr>di_guid := guid, di_is_default := equal_fold guid (ih_default h),
                di_name := reg_text k ''DistributionName'', di_base_path := reg_text k ''BasePath'',
                di_vhd_file_name := reg_text k ''VhdFileName'', di_flavor := reg_text k ''Flavor'',
                di_os_version := reg_text k ''OsVersion'', di_package_family := reg_text k ''PackageFamilyName'',
                di_version := reg_int k ''Version'', di_state := reg_int k ''State'', di_flags := reg_int k ''Flags'',
                di_default_uid := reg_int k ''DefaultUid'', di_run_oobe := reg_int k ''RunOOBE'',
                di_modern := reg_int k ''Modern'', di_value_names := ih_value_names h guid,
                di_running := (case running of
                                 Inl e \<Rightarrow> failed_value False (kind_of e) running_source (Some (error_text e))
                               | Inr names \<Rightarrow> collected_value (reg_text k ''DistributionName'' \<in> set names) running_source)\<rparr>
      in if di_version d = 2 \<and> di_base_path d \<noteq> []
         then let base = trim_prefix (di_base_path d) (bs ''||?|'');
                  vhd = (if di_vhd_file_name d = [] then ''ext4.vhdx'' else di_vhd_file_name d)
              in (case inspect_vhd (ih_vhdx_text h) (ih_ext4_text h) (ih_user h) (ih_disks h) (join_windows base vhd) of
                    (disk, super) \<Rightarrow>
                      d\<lparr>di_vhd := disk, di_ext4 := super,
                        di_volume_free :=
                          (case ih_free h base of
                             Inr free \<Rightarrow> collected_value free (''GetDiskFreeSpaceEx '' @ ih_volume h base)
                           | Inl e \<Rightarrow> failed_value 0 (kind_of e) base (Some (error_text e)))\<rparr>)
         else d)"

fun registered :: "inventory_host \<Rightarrow> host_error + string list \<Rightarrow> string list \<Rightarrow> distro list" where
  "registered h running [] = []"
| "registered h running (guid # guids) =
     (if \<not> has_prefix guid ''{'' then registered h running guids
      else case ih_key h guid of
             None \<Rightarrow> registered h running guids
           | Some k \<Rightarrow> registry_distro h running guid k # registered h running guids)"

text \<open>The four readers over the distributions: each sets its field, and reports what it reached into.\<close>

definition reader_of :: "('a collected \<Rightarrow> distro \<Rightarrow> distro) \<Rightarrow> (distro \<Rightarrow> 'a collected \<times> string list) \<Rightarrow> distro \<Rightarrow> distro \<times> string list" where
  "reader_of upd rd d = (case rd d of (f, reached) \<Rightarrow> (upd f d, reached))"

definition read_confs :: "inventory_host \<Rightarrow> int \<Rightarrow> distro \<Rightarrow> distro \<times> string list" where
  "read_confs h timeout =
     reader_of (\<lambda>f d. d\<lparr>di_wsl_conf := f\<rparr>) (\<lambda>d. reading_inside [] (wsl_conf_path (di_name d))
             (''only read for WSL 2 distributions'',
              ''not read: whether the distribution is running could not be determined'',
              ''not read: the distribution is stopped, and reading this path would start it'') None
             (\<lambda>n. read_wsl_conf (ih_duration_text h) (ih_conf h n) timeout n) d)"

definition scan_zones :: "inventory_host \<Rightarrow> int \<Rightarrow> distro \<Rightarrow> distro \<times> string list" where
  "scan_zones h timeout =
     reader_of (\<lambda>f d. d\<lparr>di_zone_files := f\<rparr>) (\<lambda>d. reading_inside zero_zone_facts (host_path (di_name d))
             (''only scanned for WSL 2 distributions'',
              ''not scanned: whether the distribution is running could not be determined'',
              ''not scanned: the distribution is stopped, and reading this path would start it'')
             (Some (remaining_budget (ih_deadline h) (ih_now h) timeout, ''not scanned: no time left in the collector deadline''))
             (\<lambda>n. scan_zone_files (ih_zone h n) n) d)"

definition read_all_watchers :: "inventory_host \<Rightarrow> int \<Rightarrow> distro \<Rightarrow> distro \<times> string list" where
  "read_all_watchers h timeout =
     (let budget = remaining_budget (ih_deadline h) (ih_now h) timeout
      in reader_of (\<lambda>f d. d\<lparr>di_watchers := f\<rparr>) (\<lambda>d. reading_inside [] (host_path (di_name d))
             (''only read for WSL 2 distributions'',
              ''not read: whether the distribution is running could not be determined'',
              ''not read: the distribution is stopped, and nothing is running in it to report'')
             (Some (budget, no_time))
             (\<lambda>n. read_watchers (ih_duration_text h) (ih_watchers h) (ih_procs h n) budget n) d))"

definition read_all_systemd :: "inventory_host \<Rightarrow> int \<Rightarrow> distro \<Rightarrow> distro \<times> string list" where
  "read_all_systemd h timeout =
     reader_of (\<lambda>f d. d\<lparr>di_systemd := f\<rparr>) (\<lambda>d. reading_inside (empty_systemd 0) (systemd_source (di_name d))
             (''only read for WSL 2 distributions'',
              ''not read: whether the distribution is running could not be determined'',
              ''not read: the distribution is stopped, and starting it would start systemd'')
             (Some (remaining_budget (ih_deadline h) (ih_now h) timeout, no_time))
             (\<lambda>n. read_systemd (ih_script h n (systemd_script (di_default_uid d))) (di_default_uid d) n) d)"

definition read_vm :: "inventory_host \<Rightarrow> int \<Rightarrow> distro list \<Rightarrow> vm_facts collected \<times> string list" where
  "read_vm h timeout ds =
     (case pick_vm_distro ds of
        Inl (kind, reason) \<Rightarrow> (failed_value zero_vm_facts kind ''wsl.exe (VM facts script)'' (Some reason), [])
      | Inr name \<Rightarrow>
          if remaining_budget (ih_deadline h) (ih_now h) timeout \<le> 0
          then (failed_value zero_vm_facts ErrTimeout (vm_source name) (Some no_time), [])
          else (case ih_script h name vm_script of
                  (out, Some (err, late)) \<Rightarrow>
                    failed_value zero_vm_facts (if late then ErrTimeout else ErrOther) (vm_source name) (Some err)
                | (out, None) \<Rightarrow>
                    (case parse_vm out name of
                       (v, Some err) \<Rightarrow> failed_value zero_vm_facts ErrOther (vm_source name) (Some err)
                     | (v, None) \<Rightarrow> collected_value v (vm_source name)),
                [name]))"

definition over_all :: "(distro \<Rightarrow> distro \<times> string list) \<Rightarrow> distro list \<times> string list \<Rightarrow> distro list \<times> string list" where
  "over_all f st = (case st of (ds, reached) \<Rightarrow> (map (fst \<circ> f) ds, reached @ concat (map (snd \<circ> f) ds)))"

definition lxss_source :: string where
  "lxss_source = bs ''HKCU|Software|Microsoft|Windows|CurrentVersion|Lxss''"

definition no_vm_source :: string where
  "no_vm_source = ''wsl.exe (VM facts script): no distribution is registered''"

definition collect_distros :: "inventory_host \<Rightarrow> int \<Rightarrow> snapshot \<Rightarrow> snapshot \<times> string list" where
  "collect_distros h timeout e =
     (case ih_open h of
        Some (NotExist t) \<Rightarrow>
          (e\<lparr>sn_distros := absent_value [] lxss_source, sn_vm := absent_value zero_vm_facts no_vm_source\<rparr>, [])
      | Some err \<Rightarrow> (e\<lparr>sn_distros := failed_value [] (kind_of err) lxss_source (Some (error_text err))\<rparr>, [])
      | None \<Rightarrow>
          (case ih_subkeys h of
             Inl err \<Rightarrow> (e\<lparr>sn_distros := failed_value [] (kind_of err) lxss_source (Some (error_text err))\<rparr>, [])
           | Inr guids \<Rightarrow>
               (let ds = registered h (running_distros (ih_list h)) guids
                in if ds = []
                   then (e\<lparr>sn_distros := collected_value [] lxss_source, sn_vm := absent_value zero_vm_facts no_vm_source\<rparr>, [])
                   else case over_all (read_all_systemd h timeout)
                               (over_all (read_all_watchers h timeout)
                                 (over_all (scan_zones h timeout) (over_all (read_confs h timeout) (ds, [])))) of
                          (ds', reached) \<Rightarrow>
                            (case read_vm h timeout ds of
                               (vm, reached') \<Rightarrow>
                                 (e\<lparr>sn_vm := vm, sn_distros := collected_value ds' lxss_source\<rparr>, reached @ reached')))))"

section \<open>Nothing is started\<close>

lemma reading_inside_up:
  "reading_inside z src msgs budget read d = (f, reached) \<Longrightarrow>
   (reached = [] \<and> \<not> fd_ok f) \<or> (is_up d \<and> reached = [di_name d])"
  by (auto simp: reading_inside_def is_up_def fd_ok_def failed_value_def split: prod.splits if_splits option.splits)

text \<open>What a reader keeps of a distribution.\<close>

definition same_place :: "distro \<Rightarrow> distro \<Rightarrow> bool" where
  "same_place d d' \<longleftrightarrow> di_name d' = di_name d \<and> di_version d' = di_version d \<and> di_running d' = di_running d"

definition careful_reader :: "(distro \<Rightarrow> distro \<times> string list) \<Rightarrow> bool" where
  "careful_reader f \<longleftrightarrow> (\<forall>d. same_place d (fst (f d)) \<and> (\<forall>n \<in> set (snd (f d)). is_up d \<and> n = di_name d))"

lemma same_place_up: "same_place d d' \<Longrightarrow> is_up d' = is_up d"
  by (simp add: same_place_def is_up_def)

lemma careful_reader:
  assumes "\<And>f d. same_place d (upd f d)"
    and "\<And>d f reached. rd d = (f, reached) \<Longrightarrow> (reached = [] \<and> \<not> fd_ok f) \<or> (is_up d \<and> reached = [di_name d])"
  shows "careful_reader (reader_of upd rd)"
  unfolding careful_reader_def reader_of_def using assms by (fastforce split: prod.splits)

lemma same_place_update:
  "same_place d (d\<lparr>di_wsl_conf := f1\<rparr>)" "same_place d (d\<lparr>di_zone_files := f2\<rparr>)"
  "same_place d (d\<lparr>di_watchers := f3\<rparr>)" "same_place d (d\<lparr>di_systemd := f4\<rparr>)"
  by (simp_all add: same_place_def)

lemma readers_careful:
  "careful_reader (read_confs h t)" "careful_reader (scan_zones h t)" "careful_reader (read_all_watchers h t)" "careful_reader (read_all_systemd h t)"
  unfolding read_confs_def scan_zones_def read_all_watchers_def read_all_systemd_def Let_def
  by (rule careful_reader, rule same_place_update, erule reading_inside_up)+

definition up_names :: "distro list \<Rightarrow> string set" where
  "up_names ds = di_name ` {d \<in> set ds. is_up d}"

lemma over_all_careful:
  assumes "careful_reader f" and "over_all f (ds, reached) = (ds', reached')"
  shows "up_names ds' = up_names ds \<and> set reached' \<subseteq> set reached \<union> up_names ds"
proof -
  have d: "ds' = map (fst \<circ> f) ds" "reached' = reached @ concat (map (snd \<circ> f) ds)"
    using assms(2) by (auto simp: over_all_def)
  have s: "same_place d (fst (f d))" for d using assms(1) by (simp add: careful_reader_def)
  have n: "di_name (fst (f d)) = di_name d" for d using s[of d] by (simp add: same_place_def)
  have u: "is_up (fst (f d)) = is_up d" for d using s[of d] by (rule same_place_up)
  have "{x \<in> set ds'. is_up x} = (\<lambda>d. fst (f d)) ` {x \<in> set ds. is_up x}" by (auto simp: d u)
  then have "up_names ds' = up_names ds" by (simp add: up_names_def image_image n)
  moreover have "set reached' \<subseteq> set reached \<union> up_names ds"
  proof
    fix x assume "x \<in> set reached'"
    then consider "x \<in> set reached" | y where "y \<in> set ds" "x \<in> set (snd (f y))" by (auto simp: d)
    then show "x \<in> set reached \<union> up_names ds"
    proof cases
      case 2
      then have "is_up y \<and> x = di_name y" using assms(1) by (simp add: careful_reader_def)
      then show ?thesis using 2 by (auto simp: up_names_def)
    qed simp
  qed
  ultimately show ?thesis by simp
qed

lemma pick_up: "pick_vm_distro ds = Inr name \<Longrightarrow> name \<in> up_names ds"
  by (auto simp: pick_vm_distro_def up_names_def find_Some_iff split: option.splits)

lemma read_vm_up: "read_vm h t ds = (vm, reached) \<Longrightarrow> set reached \<subseteq> up_names ds"
  using pick_up by (auto simp: read_vm_def split: sum.splits if_splits prod.splits)

lemma registered_listed:
  assumes "d \<in> set (registered h running guids)" and "is_up d"
  shows "\<exists>names. running = Inr names \<and> di_name d \<in> set names"
proof -
  have "\<exists>guid k. d = registry_distro h running guid k"
    using assms(1) by (induction guids) (auto split: if_splits option.splits)
  then show ?thesis
    using assms(2)
    by (auto simp: registry_distro_def Let_def is_up_def fd_ok_def failed_value_def collected_value_def zero_distro_def
        split: if_splits prod.splits sum.splits)
qed

text \<open>C11: taking the inventory starts no distribution: whatever the machine answers, the collector reaches
  into, to read a file, walk a directory or run a script, only distributions that the list of running ones
  named, and into none when that list could not be had.\<close>

theorem inventory_starts_nothing:
  shows "case collect_distros h timeout e of
     (e', reached) \<Rightarrow> set reached \<subseteq> (case running_distros (ih_list h) of Inl err \<Rightarrow> {} | Inr names \<Rightarrow> set names)"
proof -
  let ?running = "running_distros (ih_list h)"
  let ?listed = "case ?running of Inl err \<Rightarrow> {} | Inr names \<Rightarrow> set names"
  have listed: "up_names (registered h ?running guids) \<subseteq> ?listed" for guids
    using registered_listed[of _ h ?running guids] by (fastforce simp: up_names_def split: sum.splits)
  show ?thesis
  proof (cases "ih_open h = None \<and> (\<exists>guids. ih_subkeys h = Inr guids \<and> registered h ?running guids \<noteq> [])")
    case False
    then show ?thesis
      by (auto simp: collect_distros_def Let_def split: option.splits host_error.splits sum.splits)
  next
    case True
    then obtain guids where g: "ih_open h = None" "ih_subkeys h = Inr guids" "registered h ?running guids \<noteq> []" by auto
    let ?ds = "registered h ?running guids"
    obtain d1 r1 where 1: "over_all (read_confs h timeout) (?ds, []) = (d1, r1)" by fastforce
    obtain d2 r2 where 2: "over_all (scan_zones h timeout) (d1, r1) = (d2, r2)" by fastforce
    obtain d3 r3 where 3: "over_all (read_all_watchers h timeout) (d2, r2) = (d3, r3)" by fastforce
    obtain d4 r4 where 4: "over_all (read_all_systemd h timeout) (d3, r3) = (d4, r4)" by fastforce
    obtain vm r5 where 5: "read_vm h timeout ?ds = (vm, r5)" by fastforce
    have "up_names d1 = up_names ?ds" "set r1 \<subseteq> up_names ?ds"
      using over_all_careful[OF readers_careful(1) 1] by simp_all
    moreover from this have "up_names d2 = up_names ?ds" "set r2 \<subseteq> up_names ?ds"
      using over_all_careful[OF readers_careful(2) 2] by auto
    moreover from this have "up_names d3 = up_names ?ds" "set r3 \<subseteq> up_names ?ds"
      using over_all_careful[OF readers_careful(3) 3] by auto
    ultimately have "set r4 \<subseteq> up_names ?ds"
      using over_all_careful[OF readers_careful(4) 4] by auto
    moreover have "set r5 \<subseteq> up_names ?ds" using read_vm_up[OF 5] .
    ultimately have "set (r4 @ r5) \<subseteq> ?listed" using listed[of guids] by auto
    then show ?thesis using g 1 2 3 4 5 by (simp add: collect_distros_def Let_def)
  qed
qed

end
