(* ===== verification/DistroCompat.thy ===== *)
theory DistroCompat
  imports EnvData Probe WslVer
begin

text \<open>
  \<open>internal/data/data.go\<close> and \<open>internal/probe/wsl/wsl.go\<close>: the table that says which runtime a
  distribution needs, and the checks of the runtime and of the distributions that read it. The table is
  a parameter, as it is read from a file; \<open>valid_compat\<close> is what the tool checks when it loads it.
\<close>

section \<open>The table\<close>

record capability =
  ca_since :: string
  ca_title :: string
  ca_description :: string
  ca_refs :: "string list"

record distro_compat =
  dc_flavor :: string
  dc_os_version :: string
  dc_format :: string
  dc_requires :: "string list"
  dc_min_runtime :: string
  dc_known_bad_max :: string
  dc_known_good_min :: string
  dc_symptom :: string
  dc_cause :: string
  dc_refs :: "string list"

record compat =
  cm_schema :: string
  cm_latest_stable :: string
  cm_latest_prerelease :: string
  cm_modern_min :: string
  cm_modern_recommended :: string
  cm_capabilities :: "(string \<times> capability) list"
  cm_distros :: "distro_compat list"
  cm_refs :: "(string \<times> string) list"

datatype compat_error =
    BadSchema string
  | BadVersion string
  | NoTitle string
  | BadSince string
  | NoFlavor nat
  | BadBound nat string
  | UnknownCapability nat string
  | NoBound nat

definition unparsed :: "string \<Rightarrow> bool" where
  "unparsed v \<longleftrightarrow> parse_version v = None"

fun check_named :: "(string \<times> string) list \<Rightarrow> (string \<Rightarrow> compat_error) \<Rightarrow> compat_error option" where
  "check_named [] err = None"
| "check_named ((name, v) # vs) err = (if unparsed v then Some (err name) else check_named vs err)"

fun check_capabilities :: "(string \<times> capability) list \<Rightarrow> compat_error option" where
  "check_capabilities [] = None"
| "check_capabilities ((name, c) # cs) =
     (if ca_title c = [] then Some (NoTitle name)
      else if unparsed (ca_since c) then Some (BadSince name)
      else check_capabilities cs)"

definition check_row :: "(string \<times> capability) list \<Rightarrow> nat \<Rightarrow> distro_compat \<Rightarrow> compat_error option" where
  "check_row caps i d =
     (if dc_flavor d = [] \<or> dc_os_version d = [] then Some (NoFlavor i)
      else case check_named (filter (\<lambda>(name, v). v \<noteq> [])
                  [(''known_bad_max'', dc_known_bad_max d), (''known_good_min'', dc_known_good_min d),
                   (''min_runtime'', dc_min_runtime d)]) (BadBound i) of
             Some e \<Rightarrow> Some e
           | None \<Rightarrow>
               (case find (\<lambda>r. map_of caps r = None) (dc_requires d) of
                  Some r \<Rightarrow> Some (UnknownCapability i r)
                | None \<Rightarrow>
                    if dc_min_runtime d = [] \<and> dc_requires d = [] \<and> dc_known_bad_max d = []
                       \<and> dc_known_good_min d = [] then Some (NoBound i) else None))"

fun check_rows :: "(string \<times> capability) list \<Rightarrow> nat \<Rightarrow> distro_compat list \<Rightarrow> compat_error option" where
  "check_rows caps i [] = None"
| "check_rows caps i (d # ds) =
     (case check_row caps i d of Some e \<Rightarrow> Some e | None \<Rightarrow> check_rows caps (Suc i) ds)"

definition validate_compat :: "compat \<Rightarrow> compat_error option" where
  "validate_compat c =
     (if cm_schema c \<noteq> ''wslkit/compat/v1'' then Some (BadSchema (cm_schema c))
      else case check_named
             [(''latest_stable'', cm_latest_stable c), (''latest_prerelease'', cm_latest_prerelease c),
              (''modern_format_min'', cm_modern_min c), (''modern_format_recommended'', cm_modern_recommended c)]
             BadVersion of
             Some e \<Rightarrow> Some e
           | None \<Rightarrow>
               (case check_capabilities (cm_capabilities c) of
                  Some e \<Rightarrow> Some e
                | None \<Rightarrow> check_rows (cm_capabilities c) 0 (cm_distros c)))"

fun lookup_loop :: "string \<Rightarrow> string \<Rightarrow> distro_compat option \<Rightarrow> distro_compat list \<Rightarrow> distro_compat option" where
  "lookup_loop flavor version pre [] = pre"
| "lookup_loop flavor version pre (d # ds) =
     (if \<not> equal_fold (dc_flavor d) flavor then lookup_loop flavor version pre ds
      else if dc_os_version d = version then Some d
      else if has_prefix version (dc_os_version d @ ''.'') \<and> pre = None
      then lookup_loop flavor version (Some d) ds
      else lookup_loop flavor version pre ds)"

definition lookup_row :: "compat \<Rightarrow> string \<Rightarrow> string \<Rightarrow> distro_compat option" where
  "lookup_row c flavor version = lookup_loop flavor version None (cm_distros c)"

record requirement =
  rq_min :: version
  rq_capability :: string
  rq_title :: string
  rq_refs :: "string list"

text \<open>\<open>MustParse\<close> panics on a text that is no version; a valid table has none where it is called.\<close>

definition must_parse :: "string \<Rightarrow> version" where
  "must_parse s = (case parse_version s of Some v \<Rightarrow> v | None \<Rightarrow> no_version)"

definition requirements :: "compat \<Rightarrow> distro_compat \<Rightarrow> requirement list" where
  "requirements c d =
     (if dc_min_runtime d \<noteq> []
      then [\<lparr>rq_min = must_parse (dc_min_runtime d), rq_capability = [],
             rq_title = ''explicit minimum for this distro release'', rq_refs = dc_refs d\<rparr>] else [])
     @ List.map_filter (\<lambda>name. map_option
         (\<lambda>cap. \<lparr>rq_min = must_parse (ca_since cap), rq_capability = name, rq_title = ca_title cap,
                 rq_refs = ca_refs cap\<rparr>) (map_of (cm_capabilities c) name)) (dc_requires d)"

definition minimum_runtime :: "compat \<Rightarrow> distro_compat \<Rightarrow> version \<times> requirement list" where
  "minimum_runtime c d =
     (case stable_sort_by (\<lambda>a b. version_less (rq_min b) (rq_min a)) (requirements c d) of
        [] \<Rightarrow> (no_version, [])
      | r # rs \<Rightarrow> (rq_min r, r # rs))"

section \<open>Runtime against distributions\<close>

definition update_hint :: string where
  "update_hint = ''wslkit doctor fix update      (runs wsl --update)''"

definition row_name :: "distro_compat \<Rightarrow> string" where
  "row_name row = dc_flavor row @ '' '' @ dc_os_version row"

definition compat_res :: "status \<Rightarrow> rat \<Rightarrow> string \<Rightarrow> result" where
  "compat_res = plain_result ''WSL001'' ''Runtime version vs distro version compatibility''"

definition symptom_of :: "distro_compat \<Rightarrow> string" where
  "symptom_of row = (if dc_symptom row = [] then ''launch failures'' else dc_symptom row)"

definition too_old_result :: "compat \<Rightarrow> version \<Rightarrow> distro \<Rightarrow> distro_compat \<Rightarrow> version \<Rightarrow> requirement list \<Rightarrow> result" where
  "too_old_result c rt d row least reqs =
     (let unmet = filter (\<lambda>q. version_less rt (rq_min q)) reqs
      in (compat_res StFail (9 / 10)
            (''Runtime '' @ version_string rt @ '' is too old for '' @ di_name d @ '' ('' @ row_name row
             @ '' needs >= '' @ version_string least @ '')''))
         \<lparr>rs_detail := ''This will present as: '' @ symptom_of row
            @ concat (map (\<lambda>q. [newline] @ ''Needs: '' @ rq_title q @ '' (runtime >= ''
                              @ version_string (rq_min q) @ '')'') unmet)
            @ (if dc_cause row \<noteq> [] then [newline] @ ''Cause: '' @ dc_cause row else []),
          rs_fix_id := ''update'', rs_fix_hint := update_hint,
          rs_refs := concat (map rq_refs unmet) @ dc_refs row\<rparr>)"

definition known_bad_result :: "version \<Rightarrow> distro \<Rightarrow> distro_compat \<Rightarrow> result" where
  "known_bad_result rt d row =
     (compat_res StFail (9 / 10)
        (''Runtime '' @ version_string rt @ '' is known to fail with '' @ di_name d @ '' ('' @ row_name row @ '')''))
     \<lparr>rs_detail := ''Runtimes up to '' @ version_string (must_parse (dc_known_bad_max row))
        @ '' fail to boot this distro. This presents as: '' @ symptom_of row
        @ (if dc_known_good_min row \<noteq> []
           then [newline] @ ''Runtime '' @ dc_known_good_min row @ '' and later are known to work.'' else []),
      rs_fix_id := ''update'', rs_fix_hint := update_hint, rs_refs := dc_refs row\<rparr>"

definition untested_result :: "version \<Rightarrow> distro \<Rightarrow> distro_compat \<Rightarrow> result" where
  "untested_result rt d row =
     (compat_res StWarn (1 / 2)
        (''Runtime '' @ version_string rt @ '' is in an untested range for '' @ di_name d @ '' ('' @ row_name row @ '')''))
     \<lparr>rs_detail := ''Known to fail up to '' @ dc_known_bad_max row @ '', known to work from ''
        @ version_string (must_parse (dc_known_good_min row)) @ ''. If launches fail with '' @ [CHR 0x22]
        @ symptom_of row @ [CHR 0x22] @ '', updating is the first thing to try.'',
      rs_fix_id := ''update'', rs_fix_hint := update_hint, rs_refs := dc_refs row\<rparr>"

definition judge :: "compat \<Rightarrow> version \<Rightarrow> distro \<Rightarrow> distro_compat \<Rightarrow> result \<times> nat" where
  "judge c rt d row =
     (case minimum_runtime c row of (least, reqs) \<Rightarrow>
        if \<not> is_zero least
        then (if version_less rt least then (too_old_result c rt d row least reqs, 2)
              else (compat_res StOK (8 / 10) [], 0))
        else if dc_known_bad_max row \<noteq> [] \<and> \<not> version_less (must_parse (dc_known_bad_max row)) rt
        then (known_bad_result rt d row, 2)
        else if dc_known_good_min row \<noteq> [] \<and> version_less rt (must_parse (dc_known_good_min row))
        then (untested_result rt d row, 1)
        else (compat_res StOK (8 / 10) [], 0))"

definition result_severity :: "result \<Rightarrow> nat" where
  "result_severity r = (case rs_status r of StFail \<Rightarrow> 2 | StWarn \<Rightarrow> 1 | _ \<Rightarrow> 0)"

definition modern_unloadable :: "compat \<Rightarrow> version \<Rightarrow> distro \<Rightarrow> result" where
  "modern_unloadable c rt d =
     (let least = must_parse (cm_modern_min c)
      in (compat_res StFail (95 / 100)
            (''Runtime '' @ version_string rt @ '' cannot load modern-format distro '' @ di_name d
             @ '' at all (needs >= '' @ version_string least @ '')''))
         \<lparr>rs_detail := di_name d @ '' is a modern/tar-format distro (Modern=1, '' @ di_flavor d @ '' ''
            @ di_os_version d @ ''). Modern-format support arrived in WSL '' @ version_string least @ ''.'',
          rs_fix_id := ''update'', rs_fix_hint := update_hint,
          rs_refs := [case map_of (cm_refs c) ''modern_format'' of None \<Rightarrow> [] | Some u \<Rightarrow> u]\<rparr>)"

text \<open>The loop over the distributions: the worst result so far, the ones that are fine, or the result
  the loop ends with at once.\<close>

fun judge_all :: "compat \<Rightarrow> version \<Rightarrow> result option \<Rightarrow> string list \<Rightarrow> distro list \<Rightarrow> result + result option \<times> string list" where
  "judge_all c rt worst names [] = Inr (worst, names)"
| "judge_all c rt worst names (d # ds) =
     (if di_modern d = 1 \<and> version_less rt (must_parse (cm_modern_min c)) then Inl (modern_unloadable c rt d)
      else case lookup_row c (di_flavor d) (di_os_version d) of
             None \<Rightarrow>
               judge_all c rt worst
                 (names @ [di_name d @ '' ('' @ di_flavor d @ '' '' @ di_os_version d @ '', no matrix row)'']) ds
           | Some row \<Rightarrow>
               (case judge c rt d row of (r, sev) \<Rightarrow>
                  judge_all c rt
                    (if sev > (case worst of None \<Rightarrow> 0 | Some w \<Rightarrow> result_severity w) then Some r else worst)
                    (if sev = 0 then names @ [di_name d @ '' ('' @ di_flavor d @ '' '' @ di_os_version d @ '')''] else names)
                    ds))"

text \<open>\<open>worst\<close> starts as an empty result with the status OK; it is \<open>None\<close> here.\<close>

definition compat_check :: "string + compat \<Rightarrow> snapshot \<Rightarrow> result" where
  "compat_check table e =
     (if \<not> fd_ok (rt_version (sn_runtime e)) then compat_res StSkipped 0 ''skipped: runtime version unknown''
      else case parse_version (fd_value (rt_version (sn_runtime e))) of
             None \<Rightarrow> compat_res StUnknown (1 / 10)
                       (''could not parse runtime version '' @ fd_value (rt_version (sn_runtime e)))
           | Some rt \<Rightarrow>
               (case table of
                  Inl err \<Rightarrow> compat_res StUnknown (1 / 10) (''compat matrix failed to load: '' @ err)
                | Inr c \<Rightarrow>
                    if distro_list e = [] then compat_res StSkipped 0 ''skipped: no distributions registered''
                    else case judge_all c rt None [] (distro_list e) of
                           Inl r \<Rightarrow> r
                         | Inr (Some w, names) \<Rightarrow> w
                         | Inr (None, names) \<Rightarrow>
                             (compat_res StOK (6 / 10)
                                (''Runtime '' @ version_string rt @ '' is compatible with all ''
                                 @ format_uint (length (distro_list e)) @ '' registered distro(s)''))
                             \<lparr>rs_detail := join_with [newline] names\<rparr>))"

section \<open>The other checks of the runtime\<close>

definition trim_version :: "string \<Rightarrow> string" where
  "trim_version v = (case parse_version v of Some p \<Rightarrow> version_string p | None \<Rightarrow> v)"

definition field_error :: "string \<Rightarrow> 'a collected \<Rightarrow> string" where
  "field_error name f =
     (if fd_ok f then name @ '': ok''
      else name @ '': '' @ err_kind_text (fd_kind f) @ '' ('' @ fd_err f @ '')'')"

definition legacy_inbox_present :: "snapshot \<Rightarrow> bool" where
  "legacy_inbox_present e = (case find_service e ''LxssManager'' of None \<Rightarrow> False | Some s \<Rightarrow> sv_exists s)"

definition needs_elevation_result :: "(status \<Rightarrow> rat \<Rightarrow> string \<Rightarrow> result) \<Rightarrow> string \<Rightarrow> result" where
  "needs_elevation_result res what =
     (res StUnknown (1 / 10) (what @ '' cannot be read without elevation''))
     \<lparr>rs_fix_hint := ''run wslkit doctor from an elevated terminal (elevation is detected; no flag needed)'',
      rs_elevate := True\<rparr>"

definition installed_res :: "status \<Rightarrow> rat \<Rightarrow> string \<Rightarrow> result" where
  "installed_res = plain_result ''WSL002'' ''WSL runtime installed''"

text \<open>A text with \<open>|\<close> for the backslash.\<close>

definition win :: "string \<Rightarrow> string" where "win s = replace_char (CHR ''|'') (CHR 0x5C) s"

definition install_refs :: "string list" where
  "install_refs = [''https://learn.microsoft.com/en-us/windows/wsl/install'']"

definition installed_check :: "snapshot \<Rightarrow> result" where
  "installed_check e =
     (let rt = sn_runtime e; policy = nf_policy (sn_net e)
      in if fd_ok policy \<and> map_of (fd_value policy) ''AllowWSL'' = Some ''0''
         then (installed_res StFail (95 / 100) ''WSL is disabled by group policy (AllowWSL=0)'')
              \<lparr>rs_detail := win ''HKLM|Software|Policies|WSL|AllowWSL is 0. wsl.exe refuses to run regardless of what is installed. This is set by your organisation (Intune / GPO), not by a bug.'',
               rs_fix_hint := ''ask your IT administrator to allow WSL (policy AllowWSL); nothing on this machine can override it'',
               rs_refs := [''https://learn.microsoft.com/en-us/windows/wsl/enterprise'']\<rparr>
         else if fd_ok (rt_version rt)
         then (installed_res StOK 1 (''WSL '' @ trim_version (fd_value (rt_version rt)) @ '' installed''))
              \<lparr>rs_detail := join_with [newline]
                 ((if fd_ok (rt_install_location rt) then [''location '' @ fd_value (rt_install_location rt)] else [])
                  @ (if fd_ok (rt_appx_full_name rt) then [''package '' @ fd_value (rt_appx_full_name rt)]
                     else if fd_ok (rt_msi_version rt) then [''MSI '' @ fd_value (rt_msi_version rt)] else []))\<rparr>
         else if fd_needs_elevation (rt_version rt)
         then needs_elevation_result installed_res ''WSL runtime version''
         else if fd_ok (rt_inbox_version rt) \<and> legacy_inbox_present e
         then (installed_res StFail (85 / 100)
                 ''Only the in-box (legacy) WSL is present; the Store/MSI runtime is not installed'')
              \<lparr>rs_detail := win ''C:|Windows|System32|wsl.exe is version '' @ fd_value (rt_inbox_version rt)
                 @ '' (an OS build number, not a WSL release) and the'' @ [newline]
                 @ ''legacy LxssManager service is registered. Modern WSL 2, systemd, mirrored networking and every fix'' @ [newline]
                 @ ''in this tool need the Store runtime.'',
               rs_fix_id := ''update'',
               rs_fix_hint := ''wsl --install --no-distribution     (or: wslkit doctor fix update)'',
               rs_refs := install_refs\<rparr>
         else if fd_ok (rt_inbox_version rt)
         then (installed_res StFail (9 / 10) ''WSL is not installed; only the in-box installer stub wsl.exe is present'')
              \<lparr>rs_detail := win ''C:|Windows|System32|wsl.exe '' @ fd_value (rt_inbox_version rt)
                 @ '' is the stub Windows ships to bootstrap WSL from the Store. No runtime is installed.'',
               rs_fix_hint := ''wsl --install --no-distribution     then     wsl --install -d Ubuntu'',
               rs_refs := install_refs\<rparr>
         else (installed_res StFail (9 / 10) ''WSL is not installed'')
              \<lparr>rs_detail := field_error ''runtime version'' (rt_version rt) @ [newline]
                 @ field_error ''inbox wsl.exe'' (rt_inbox_version rt),
               rs_fix_hint := ''wsl --install'', rs_refs := install_refs\<rparr>)"

definition update_res :: "status \<Rightarrow> rat \<Rightarrow> string \<Rightarrow> result" where
  "update_res = plain_result ''WSL003'' ''WSL update available''"

definition prerelease_note :: "runtime_facts \<Rightarrow> version \<Rightarrow> string" where
  "prerelease_note rt latest =
     (if rt_latest_prerelease rt = [] then []
      else case parse_version (rt_latest_prerelease rt) of
             None \<Rightarrow> []
           | Some pv \<Rightarrow>
               if version_less latest pv
               then [newline] @ ''Pre-release '' @ version_string pv
                    @ '' is also published (wsl --update --pre-release). Worth trying only for a bug fixed in it.''
               else [])"

definition update_check :: "snapshot \<Rightarrow> result" where
  "update_check e =
     (let rt = sn_runtime e
      in if \<not> fd_ok (rt_version rt) then update_res StSkipped 0 ''skipped: runtime version unknown''
         else if \<not> fd_ok (rt_latest_stable rt)
         then update_res StUnknown (5 / 100) ''latest stable version unknown (no embedded data and not --online)''
         else case (parse_version (fd_value (rt_version rt)), parse_version (fd_value (rt_latest_stable rt))) of
                (Some cur, Some latest) \<Rightarrow>
                  let src = (if rt_latest_stable_source rt = [] then ''embedded data'' else rt_latest_stable_source rt);
                      pre = prerelease_note rt latest
                  in if version_less cur latest
                     then (update_res StWarn (3 / 10)
                             (''WSL '' @ version_string cur @ '' installed; '' @ version_string latest
                              @ '' is the latest stable ('' @ src @ '')''))
                          \<lparr>rs_detail := ''Not a root cause by itself, but most launch failures on old runtimes are fixed by updating.'' @ pre,
                           rs_fix_id := ''update'', rs_fix_hint := update_hint\<rparr>
                     else if version_less latest cur
                     then (update_res StOK (1 / 2)
                             (''WSL '' @ version_string cur @ '' is newer than the latest stable this tool knows (''
                              @ version_string latest @ ''); pre-release channel or newer data needed''))
                          \<lparr>rs_detail := trim_prefix pre [newline]\<rparr>
                     else (update_res StOK (7 / 10)
                             (''WSL '' @ version_string cur @ '' is the latest stable ('' @ src @ '')''))
                          \<lparr>rs_detail := trim_prefix pre [newline]\<rparr>
              | _ \<Rightarrow> update_res StUnknown (5 / 100) ''could not compare versions'')"

definition inventory_res :: "status \<Rightarrow> rat \<Rightarrow> string \<Rightarrow> result" where
  "inventory_res = plain_result ''WSL004'' ''Distribution inventory and state''"

definition inventory_line :: "distro \<Rightarrow> string" where
  "inventory_line d =
     di_name d @ (if di_is_default d then '' (default)'' else []) @ ''  WSL'' @ format_int (di_version d) @ ''  ''
     @ (if di_modern d = 1 then ''modern'' else ''appx'') @ ''  '' @ di_flavor d @ '' '' @ di_os_version d
     @ ''  uid='' @ format_int (di_default_uid d) @ ''  state='' @ format_int (di_state d)
     @ '' flags='' @ format_int (di_flags d)"

definition inventory_warning :: "distro \<Rightarrow> string option" where
  "inventory_warning d =
     (if di_state d \<noteq> 1
      then Some (di_name d @ '' is in state '' @ format_int (di_state d)
                 @ '' (1 = normal; 3 = install in progress; 4 = uninstall in progress). An interrupted install or uninstall leaves this.'')
      else if di_run_oobe d = 1 \<and> di_default_uid d = 0
      then Some (di_name d @ '': first-run setup never completed (RunOOBE=1, DefaultUid=0). Launch it once interactively to create the user.'')
      else if di_version d = 1
      then Some (di_name d @ '' runs as WSL 1. .wslconfig does not apply to it; convert with: wsl --set-version ''
                 @ di_name d @ '' 2'')
      else None)"

definition inventory_check :: "snapshot \<Rightarrow> result" where
  "inventory_check e =
     (if fd_needs_elevation (sn_distros e) then needs_elevation_result inventory_res ''distro registry''
      else if \<not> fd_ok (sn_distros e) \<and> \<not> fd_absent (sn_distros e)
      then inventory_res StUnknown (1 / 10) (''could not read distro inventory: '' @ fd_err (sn_distros e))
      else let ds = distro_list e; ls = map inventory_line ds; ws = List.map_filter inventory_warning ds;
               n = format_uint (length ds)
           in if ds = []
              then (inventory_res StWarn (4 / 10) ''No distributions are registered for this user'')
                   \<lparr>rs_detail := ''WSL is installed but there is nothing to run. If you expected a distro here, check you are logged in as the same Windows user who installed it.'',
                    rs_fix_hint := ''wsl --list --online    then    wsl --install -d <Name>''\<rparr>
              else if ws \<noteq> []
              then (inventory_res StWarn (45 / 100)
                      (n @ '' distro(s) registered; '' @ format_uint (length ws) @ '' need attention''))
                   \<lparr>rs_detail := join_with [newline] ls @ [newline, newline] @ join_with [newline] ws,
                    rs_fix_hint := ''wsl --list --verbose''\<rparr>
              else (inventory_res StOK (1 / 2) (n @ '' distro(s) registered, all in normal state''))
                   \<lparr>rs_detail := join_with [newline] ls\<rparr>)"

section \<open>What the verdict means\<close>

lemma compat_res_simps [simp]: "rs_status (compat_res st c t) = st"
  by (simp add: compat_res_def)

lemma check_named_None: "check_named vs err = None \<Longrightarrow> (name, v) \<in> set vs \<Longrightarrow> parse_version v \<noteq> None"
  by (induction vs) (auto simp: unparsed_def split: if_splits)

lemma check_rows_None: "check_rows caps i ds = None \<Longrightarrow> d \<in> set ds \<Longrightarrow> \<exists>j. check_row caps j d = None"
  by (induction ds arbitrary: i) (auto split: option.splits)

lemma lookup_loop_in:
  "lookup_loop f v pre ds = Some d \<Longrightarrow> pre = Some d \<or> d \<in> set ds"
  by (induction ds arbitrary: pre) (auto split: if_splits)

lemma lookup_row_in: "lookup_row c f v = Some d \<Longrightarrow> d \<in> set (cm_distros c)"
  using lookup_loop_in by (fastforce simp: lookup_row_def)

text \<open>The minimum of a row is the largest of its requirements: a runtime meets it exactly when it
  meets every one of them.\<close>

lemma minimum_runtime_meets_all:
  assumes "minimum_runtime c d = (least, reqs)" and "requirements c d \<noteq> []"
  shows "\<not> version_less rt least \<longleftrightarrow> (\<forall>q \<in> set (requirements c d). \<not> version_less rt (rq_min q))"
proof -
  let ?s = "stable_sort_by (\<lambda>a b. version_less (rq_min b) (rq_min a)) (requirements c d)"
  have ms: "set ?s = set (requirements c d)" using mset_stable_sort_by by (metis set_mset_mset)
  have srt: "sorted_wrt (\<lambda>a b. rq_min b \<le> rq_min a) ?s"
    by (rule stable_sort_falling) (simp add: version_less_iff)
  obtain r rs where r: "?s = r # rs" using ms assms(2) by (cases ?s) auto
  then have "least = rq_min r" using assms(1) by (simp add: minimum_runtime_def)
  moreover have "\<forall>q \<in> set (r # rs). rq_min q \<le> rq_min r" using srt r by auto
  ultimately show ?thesis using ms r by (auto simp: version_less_iff not_less intro: order.trans)
qed

definition supports :: "compat \<Rightarrow> version \<Rightarrow> distro \<Rightarrow> bool" where
  "supports c rt d \<longleftrightarrow>
     (di_modern d = 1 \<longrightarrow> \<not> version_less rt (must_parse (cm_modern_min c)))
     \<and> (\<forall>row. lookup_row c (di_flavor d) (di_os_version d) = Some row \<longrightarrow>
          (\<forall>q \<in> set (requirements c row). \<not> version_less rt (rq_min q))
          \<and> (requirements c row = [] \<longrightarrow>
               (dc_known_bad_max row \<noteq> [] \<longrightarrow> version_less (must_parse (dc_known_bad_max row)) rt)
               \<and> (dc_known_good_min row \<noteq> [] \<longrightarrow> \<not> version_less rt (must_parse (dc_known_good_min row)))))"

lemma judge_zero:
  assumes "judge c rt d row = (r, 0)" and z: "\<And>q. q \<in> set (requirements c row) \<Longrightarrow> \<not> is_zero (rq_min q)"
  shows "(\<forall>q \<in> set (requirements c row). \<not> version_less rt (rq_min q))
       \<and> (requirements c row = [] \<longrightarrow>
            (dc_known_bad_max row \<noteq> [] \<longrightarrow> version_less (must_parse (dc_known_bad_max row)) rt)
            \<and> (dc_known_good_min row \<noteq> [] \<longrightarrow> \<not> version_less rt (must_parse (dc_known_good_min row))))"
proof -
  obtain least reqs where m: "minimum_runtime c row = (least, reqs)" by fastforce
  show ?thesis
  proof (cases "requirements c row = []")
    case True
    then have "is_zero least" using m by (auto simp: minimum_runtime_def stable_sort_by_def is_zero_def)
    then show ?thesis using assms(1) m True by (auto simp: judge_def split: if_splits)
  next
    case False
    let ?s = "stable_sort_by (\<lambda>a b. version_less (rq_min b) (rq_min a)) (requirements c row)"
    have ms: "set ?s = set (requirements c row)" using mset_stable_sort_by by (metis set_mset_mset)
    then obtain q qs where s: "?s = q # qs" using False by (cases ?s) auto
    have "least = rq_min q" using m s by (simp add: minimum_runtime_def)
    moreover have "q \<in> set (requirements c row)" using ms s by (metis list.set_intros(1))
    ultimately have "\<not> is_zero least" using z by simp
    then have "\<not> version_less rt least" using assms(1) m by (auto simp: judge_def split: if_splits)
    then show ?thesis using minimum_runtime_meets_all[OF m False] False by simp
  qed
qed

lemma row_results_status [simp]:
  "rs_status (too_old_result c rt d row least reqs) = StFail"
  "rs_status (known_bad_result rt d row) = StFail"
  "rs_status (untested_result rt d row) = StWarn"
  "rs_status (modern_unloadable c rt d) = StFail"
  by (simp_all add: too_old_result_def known_bad_result_def untested_result_def modern_unloadable_def Let_def)

lemma judge_severity: "judge c rt d row = (r, sev) \<Longrightarrow> result_severity r = sev"
  by (auto simp: judge_def result_severity_def split: prod.splits if_splits)

lemma judge_all_none:
  "judge_all c rt worst names ds = Inr (None, names') \<Longrightarrow>
   worst = None \<and> (\<forall>d \<in> set ds.
     (di_modern d = 1 \<longrightarrow> \<not> version_less rt (must_parse (cm_modern_min c)))
     \<and> (\<forall>row. lookup_row c (di_flavor d) (di_os_version d) = Some row \<longrightarrow> (\<exists>r. judge c rt d row = (r, 0))))"
proof (induction ds arbitrary: worst names)
  case (Cons d ds)
  show ?case
  proof (cases "lookup_row c (di_flavor d) (di_os_version d)")
    case None
    then show ?thesis using Cons by (auto split: if_splits)
  next
    case (Some row)
    obtain r sev where j: "judge c rt d row = (r, sev)" by fastforce
    have m: "\<not> (di_modern d = 1 \<and> version_less rt (must_parse (cm_modern_min c)))"
      using Cons.prems by (auto split: if_splits)
    let ?w = "if sev > (case worst of None \<Rightarrow> 0 | Some w \<Rightarrow> result_severity w) then Some r else worst"
    have "?w = None" and rest: "\<forall>d \<in> set ds.
        (di_modern d = 1 \<longrightarrow> \<not> version_less rt (must_parse (cm_modern_min c)))
        \<and> (\<forall>row. lookup_row c (di_flavor d) (di_os_version d) = Some row \<longrightarrow> (\<exists>r. judge c rt d row = (r, 0)))"
      using Cons.IH[of ?w] Cons.prems m Some j by (auto split: if_splits)
    then have "worst = None \<and> sev = 0" by (auto split: if_splits)
    then show ?thesis using m Some j rest by auto
  qed
qed simp

lemma judge_all_worst:
  "judge_all c rt worst names ds = Inr (Some w, names') \<Longrightarrow> (\<And>x. worst = Some x \<Longrightarrow> 0 < result_severity x) \<Longrightarrow> 0 < result_severity w"
proof (induction ds arbitrary: worst names)
  case (Cons d ds)
  show ?case
  proof (cases "lookup_row c (di_flavor d) (di_os_version d)")
    case None
    then show ?thesis using Cons by (auto split: if_splits)
  next
    case (Some row)
    obtain r sev where j: "judge c rt d row = (r, sev)" by fastforce
    let ?w = "if sev > (case worst of None \<Rightarrow> 0 | Some w \<Rightarrow> result_severity w) then Some r else worst"
    have "0 < result_severity x" if "?w = Some x" for x
      using that Cons.prems(2) judge_severity[OF j] by (auto split: if_splits)
    then show ?thesis using Cons.IH[of ?w] Cons.prems(1) Some j by (auto split: if_splits)
  qed
qed simp

text \<open>C12: when the check of the runtime against the distributions says OK, the runtime is known and
  supports every registered distribution: it can load the modern format where that is used, and meets
  every requirement of the distribution's row in the table, or, where the row only records what was
  observed, is above what is known to fail and not below what is known to work. Requirements are taken
  not to be version zero, which would read as none.\<close>

theorem compat_ok_means_supported:
  assumes "rs_status (compat_check (Inr c) e) = StOK"
    and "\<forall>row \<in> set (cm_distros c). \<forall>q \<in> set (requirements c row). \<not> is_zero (rq_min q)"
  shows "\<exists>rt. fd_ok (rt_version (sn_runtime e)) \<and> parse_version (fd_value (rt_version (sn_runtime e))) = Some rt
           \<and> distro_list e \<noteq> [] \<and> (\<forall>d \<in> set (distro_list e). supports c rt d)"
proof -
  have ok: "fd_ok (rt_version (sn_runtime e))"
    using assms(1) by (auto simp: compat_check_def split: if_splits)
  obtain rt where rt: "parse_version (fd_value (rt_version (sn_runtime e))) = Some rt"
    using assms(1) ok by (cases "parse_version (fd_value (rt_version (sn_runtime e)))") (simp_all add: compat_check_def)
  have ds: "distro_list e \<noteq> []"
    using assms(1) ok rt by (auto simp: compat_check_def split: if_splits)
  obtain names where j: "judge_all c rt None [] (distro_list e) = Inr (None, names)"
  proof (cases "judge_all c rt None [] (distro_list e)")
    case (Inl r)
    have "judge_all c rt w n xs = Inl r \<Longrightarrow> rs_status r = StFail" for w n xs
      by (induction c rt w n xs rule: judge_all.induct)
        (auto split: if_splits option.splits prod.splits)
    then have "rs_status r = StFail" using Inl by blast
    then show ?thesis using assms(1) ok rt ds Inl by (simp add: compat_check_def)
  next
    case (Inr p)
    obtain w names where p: "p = (w, names)" by fastforce
    show ?thesis
    proof (cases w)
      case None
      then show ?thesis using that Inr p by simp
    next
      case (Some x)
      then have "0 < result_severity x" using judge_all_worst[of c rt None "[]" "distro_list e" x names] Inr p by simp
      then have "rs_status x \<noteq> StOK" by (auto simp: result_severity_def)
      then show ?thesis using assms(1) ok rt ds Inr p Some by (simp add: compat_check_def)
    qed
  qed
  have "supports c rt d" if d: "d \<in> set (distro_list e)" for d
  proof -
    have m: "di_modern d = 1 \<longrightarrow> \<not> version_less rt (must_parse (cm_modern_min c))"
      and r: "\<And>row. lookup_row c (di_flavor d) (di_os_version d) = Some row \<Longrightarrow> \<exists>r. judge c rt d row = (r, 0)"
      using judge_all_none[OF j] d by blast+
    show ?thesis
      unfolding supports_def
    proof (intro conjI allI m impI)
      fix row assume "lookup_row c (di_flavor d) (di_os_version d) = Some row"
      then show "\<forall>q \<in> set (requirements c row). \<not> version_less rt (rq_min q)"
        and "requirements c row = [] \<Longrightarrow> dc_known_bad_max row \<noteq> [] \<Longrightarrow> version_less (must_parse (dc_known_bad_max row)) rt"
        and "requirements c row = [] \<Longrightarrow> dc_known_good_min row \<noteq> [] \<Longrightarrow> \<not> version_less rt (must_parse (dc_known_good_min row))"
        using r judge_zero[of c rt d row] assms(2) lookup_row_in by blast+
    qed
  qed
  then show ?thesis using ok rt ds by blast
qed


definition sample_row :: distro_compat where
  "sample_row =
     \<lparr>dc_flavor = ''ubuntu'', dc_os_version = ''26.04'', dc_format = ''modern'', dc_requires = [''cgroup_v2''],
      dc_min_runtime = [], dc_known_bad_max = ''2.4.13'', dc_known_good_min = ''2.7.13'', dc_symptom = [],
      dc_cause = [], dc_refs = []\<rparr>"

definition sample_compat :: compat where
  "sample_compat =
     \<lparr>cm_schema = ''wslkit/compat/v1'', cm_latest_stable = ''2.7.13'', cm_latest_prerelease = ''2.9.4'',
      cm_modern_min = ''2.4.4'', cm_modern_recommended = ''2.4.10'',
      cm_capabilities =
        [(''cgroup_v2'', \<lparr>ca_since = ''2.5.7'', ca_title = ''cgroup v2'', ca_description = [], ca_refs = []\<rparr>)],
      cm_distros = [sample_row], cm_refs = []\<rparr>"

definition sample_snapshot :: "string \<Rightarrow> snapshot" where
  "sample_snapshot v =
     zero_snapshot
       \<lparr>sn_runtime := zero_runtime_facts\<lparr>rt_version := collected_value v ''wslservice.exe''\<rparr>,
        sn_distros := collected_value
          [zero_distro\<lparr>di_name := ''Ubuntu'', di_modern := 1, di_flavor := ''ubuntu'', di_os_version := ''26.04''\<rparr>] ''Lxss''\<rparr>"

lemmas version_eval =
  parse_version_def trim_space_def trim_left_def trim_right_def trim_prefix_def has_prefix_def
  is_space_def is_digit_def atoi_def digits_val_def digit_val_def version_of_def

lemma sample_versions:
  "parse_version ''2.6.0'' = Some (Version 2 6 0 0)" "must_parse ''2.5.7'' = Version 2 5 7 0"
  "must_parse ''2.4.4'' = Version 2 4 4 0"
  by (simp_all add: version_eval must_parse_def)

lemma sample_lookup: "lookup_row sample_compat ''ubuntu'' ''26.04'' = Some sample_row"
  by code_simp

lemma sample_requirements: "map rq_min (requirements sample_compat sample_row) = [Version 2 5 7 0]"
  by (simp add: requirements_def sample_row_def sample_compat_def sample_versions)

lemma sample_ok: "rs_status (compat_check (Inr sample_compat) (sample_snapshot ''2.6.0'')) = StOK"
proof -
  let ?reqs = "requirements sample_compat sample_row"
  obtain q where q: "?reqs = [q]" "rq_min q = Version 2 5 7 0"
    using sample_requirements by (cases ?reqs) auto
  have j: "judge sample_compat (Version 2 6 0 0) d sample_row = (compat_res StOK (8 / 10) [], 0)" for d
    by (simp add: judge_def minimum_runtime_def q stable_sort_by_def is_zero_def no_version_def
        version_less_def compare_def components_def)
  have m: "\<not> version_less (Version 2 6 0 0) (must_parse (cm_modern_min sample_compat))"
    by (simp add: sample_compat_def sample_versions version_less_def compare_def components_def)
  show ?thesis
    by (simp add: compat_check_def sample_snapshot_def zero_snapshot_def zero_runtime_facts_def zero_distro_def
        collected_value_def fd_ok_def distro_list_def sample_versions sample_lookup m j)
qed

theorem compat_ok_means_supported_witness:
  "\<exists>rt. fd_ok (rt_version (sn_runtime (sample_snapshot ''2.6.0'')))
     \<and> parse_version (fd_value (rt_version (sn_runtime (sample_snapshot ''2.6.0'')))) = Some rt
     \<and> distro_list (sample_snapshot ''2.6.0'') \<noteq> []
     \<and> (\<forall>d \<in> set (distro_list (sample_snapshot ''2.6.0'')). supports sample_compat rt d)"
proof (rule compat_ok_means_supported [OF sample_ok])
  have "cm_distros sample_compat = [sample_row]" by (simp add: sample_compat_def)
  moreover obtain q where "requirements sample_compat sample_row = [q]" "rq_min q = Version 2 5 7 0"
    using sample_requirements by (cases "requirements sample_compat sample_row") auto
  ultimately show "\<forall>row \<in> set (cm_distros sample_compat). \<forall>q \<in> set (requirements sample_compat row). \<not> is_zero (rq_min q)"
    by (simp add: is_zero_def no_version_def)
qed

text \<open>Once a row has a requirement that is met, what was observed of it is not looked at: with the row for
  Ubuntu 26.04, runtime 2.6.0 is in the range between known to fail and known to work, and passes.\<close>

lemma minimum_hides_observations:
  assumes "minimum_runtime c row = (least, reqs)" and "\<not> is_zero least" and "\<not> version_less rt least"
  shows "judge c rt d row = (compat_res StOK (8 / 10) [], 0)"
  using assms by (simp add: judge_def)

lemma untested_range_passes:
  "rs_status (compat_check (Inr sample_compat) (sample_snapshot ''2.6.0'')) = StOK
     \<and> version_less (Version 2 6 0 0) (must_parse (dc_known_good_min sample_row))"
  by (simp add: sample_ok) (simp add: sample_row_def must_parse_def version_eval version_less_def compare_def components_def)

text \<open>A version that could not be read for any reason but missing elevation is reported as WSL not being
  installed.\<close>

lemma unread_version_fails:
  assumes "fd_kind (rt_version (sn_runtime e)) \<notin> {ErrNone, ErrNeedsElevation}"
    and "\<not> fd_ok (nf_policy (sn_net e))"
  shows "rs_status (installed_check e) = StFail"
proof -
  have k: "\<not> fd_ok (rt_version (sn_runtime e))" "\<not> fd_needs_elevation (rt_version (sn_runtime e))"
    using assms(1) by (simp_all add: fd_ok_def fd_needs_elevation_def)
  show ?thesis
    unfolding installed_check_def Let_def using assms(2) k
    by (simp only: if_False simp_thms) (simp add: installed_res_def)
qed

end
