(* ===== verification/ChecksGuest.thy ===== *)
theory ChecksGuest
  imports Inventory DistroCompat WslConfig
begin

text \<open>
  \<open>internal/probe/wsl\<close>: the checks that read what was found inside the distributions: systemd and the
  user's session (\<open>systemd.go\<close>), processes that watch files where nothing is reported (\<open>watchers.go\<close>),
  files saved downloads leave (\<open>zone.go\<close>), nested virtualization and the handler of Windows programs
  (\<open>vm.go\<close>).
\<close>

text \<open>A text with \<open>`\<close> for the apostrophe and \<open>^\<close> for the double quote.\<close>

definition said :: "string \<Rightarrow> string" where
  "said s = replace_char (CHR ''^'') (CHR 0x22) (replace_char (CHR 0x60) (CHR 0x27) s)"

definition or_unset :: "string \<Rightarrow> string" where
  "or_unset s = (if s = [] then ''unset'' else s)"

text \<open>What the checks of distributions do first: they need the inventory, and a distribution.\<close>

definition over_distros :: "(status \<Rightarrow> rat \<Rightarrow> string \<Rightarrow> result) \<Rightarrow> string \<Rightarrow> snapshot \<Rightarrow> (distro list \<Rightarrow> result) \<Rightarrow> result" where
  "over_distros res none e check =
     (if \<not> fd_ok (sn_distros e) \<and> \<not> fd_absent (sn_distros e)
      then res StUnknown (1 / 10) (''could not read the distribution inventory: '' @ fd_err (sn_distros e))
      else if distro_list e = [] then res StOK 0 none
      else check (distro_list e))"

definition wsl2_distros :: "distro list \<Rightarrow> distro list" where
  "wsl2_distros ds = filter (\<lambda>d. di_version d = 2) ds"

definition and_skipped :: "string list \<Rightarrow> string" where
  "and_skipped sk = (if sk \<noteq> [] then ''; '' @ format_uint (length sk) @ '' not running'' else [])"

section \<open>SYS001\<close>

datatype report_part = Finding string string | Line string

definition findings_of :: "report_part list \<Rightarrow> string list" where
  "findings_of rs = List.map_filter (\<lambda>r. case r of Finding f d \<Rightarrow> Some f | Line l \<Rightarrow> None) rs"

definition details_of :: "report_part list \<Rightarrow> string list" where
  "details_of rs = List.map_filter (\<lambda>r. case r of Finding f d \<Rightarrow> Some d | Line l \<Rightarrow> None) rs"

definition lines_of :: "report_part list \<Rightarrow> string list" where
  "lines_of rs = List.map_filter (\<lambda>r. case r of Finding f d \<Rightarrow> None | Line l \<Rightarrow> Some l) rs"

definition add_finding :: "string \<Rightarrow> string \<Rightarrow> string \<Rightarrow> report_part" where
  "add_finding name f d = Finding (name @ '': '' @ f) (name @ '': '' @ d)"

definition systemd_wanted :: "distro \<Rightarrow> bool" where
  "systemd_wanted d \<longleftrightarrow>
     fd_ok (di_wsl_conf d)
     \<and> (case get (parse (fd_value (di_wsl_conf d))) ''boot'' ''systemd'' of
          None \<Rightarrow> False | Some v \<Rightarrow> parse_bool v = Some True)"

definition benign_under_wsl :: "(string \<times> string) list" where
  "benign_under_wsl = [(''systemd-binfmt.service'', ''WSL registers its own binfmt handler for Windows executables'')]"

definition unit_list :: "string list \<Rightarrow> string" where
  "unit_list units = (if units = [] then ''(none listed)'' else join_with '', '' units)"

definition judge_system :: "string \<Rightarrow> systemd_state \<Rightarrow> report_part list" where
  "judge_system name s =
     (let failed = filter (\<lambda>u. map_of benign_under_wsl u = None) (sy_failed s);
          benign = map (\<lambda>u. u @ '' ('' @ the (map_of benign_under_wsl u) @ '')'')
                     (filter (\<lambda>u. map_of benign_under_wsl u \<noteq> None) (sy_failed s))
      in if sy_system s = ''running'' then [Line (name @ '': systemd is running'')]
         else if sy_system s = ''starting'' \<or> sy_system s = ''initializing''
         then [Line (name @ '': systemd is still starting; checked again on the next run it will have settled'')]
         else if sy_system s = ''degraded'' \<and> failed = [] \<and> benign \<noteq> []
         then [Line (name @ '': systemd says degraded, only because of '' @ join_with '', '' benign)]
         else if sy_system s = ''degraded''
         then add_finding name (''systemd is degraded, '' @ format_uint (length failed) @ '' failed unit(s)'')
                (''systemctl is-system-running says degraded. Failed: '' @ unit_list failed
                 @ ''. See systemctl status <unit> inside the distribution; a unit that cannot work under WSL can be masked with systemctl mask <unit>.'')
              # (if benign \<noteq> [] then [Line (name @ '': also failed, and harmless under WSL: '' @ join_with '', '' benign)] else [])
         else [add_finding name (''systemd reports '' @ go_quote (or_unset (sy_system s)))
                 (''systemctl is-system-running says '' @ go_quote (or_unset (sy_system s))
                  @ '', which is neither running nor degraded.'')])"

definition run_user :: "systemd_state \<Rightarrow> string" where
  "run_user s = ''/run/user/'' @ format_int (sy_uid s)"

definition judge_runtime_dir :: "string \<Rightarrow> systemd_state \<Rightarrow> report_part list" where
  "judge_runtime_dir name s =
     (let uid = format_int (sy_uid s); dir = run_user s
      in (if \<not> sy_run_user_exists s
          then [add_finding name (dir @ '' does not exist'')
                  (''user@'' @ uid @ ''.service is active but '' @ dir @ '' is missing, so nothing can put its sockets there.'')]
          else if sy_run_user_owner s \<noteq> sy_uid s \<or> sy_run_user_mode s \<noteq> ''700''
          then [add_finding name (dir @ '' is owned by uid '' @ format_int (sy_run_user_owner s) @ '' with mode '' @ sy_run_user_mode s)
                  (dir @ '' should belong to uid '' @ uid @ said '' with mode 700; anything else and the session`s own services refuse to use it.'')]
          else [])
         @ (if sy_user_procs_xdg s > 0 \<and> sy_xdg s \<noteq> dir
            then [add_finding name (''XDG_RUNTIME_DIR is '' @ sy_xdg s @ '', not '' @ dir)
                    (''Processes of uid '' @ uid @ '' have XDG_RUNTIME_DIR='' @ sy_xdg s
                     @ '', so anything looking for the session bus or an agent socket looks in the wrong place. A shell profile that sets it is the usual cause.'')]
            else if sy_user_procs_xdg s = 0
            then [add_finding name ''XDG_RUNTIME_DIR is not set''
                    (''None of the '' @ format_int (sy_user_procs s) @ '' process(es) of uid '' @ uid
                     @ '' has XDG_RUNTIME_DIR set, although its session is running (microsoft/WSL#13562).'')]
            else [Line (name @ '': the user session for uid '' @ uid @ '' is running, with XDG_RUNTIME_DIR='' @ dir)]))"

definition judge_session :: "string \<Rightarrow> systemd_state \<Rightarrow> report_part list" where
  "judge_session name s =
     (let uid = format_int (sy_uid s)
      in if sy_uid s = 0
         then [Line (name @ '': the default user is root, so there is no user session to check'')]
         else if \<not> sy_user_known s
         then [add_finding name (''default uid '' @ uid @ '' is not in /etc/passwd'')
                 (said ''The registration`s DefaultUid is '' @ uid
                  @ '', and no user in /etc/passwd has it, so WSL starts sessions as a user that does not exist. wsl --manage ''
                  @ name @ '' --set-default-user <name> sets a real one.'')]
         else if sy_user_procs s = 0
         then [Line (name @ '': no process of uid '' @ uid @ '' is running, so whether its session starts cannot be told yet'')]
         else if sy_user_service s \<noteq> ''active''
         then [add_finding name (''the systemd user session for uid '' @ uid @ '' is not running'')
                 (''uid '' @ uid @ '' has '' @ format_int (sy_user_procs s) @ '' process(es), but user@'' @ uid
                  @ ''.service is '' @ or_unset (sy_user_service s)
                  @ said ''. This is ^Failed to start the systemd user session^ (microsoft/WSL#13826): systemctl --user, the session bus and ''
                  @ run_user s @ '' are missing for that user.''
                  @ (if \<not> sy_pam_systemd s
                     then '' No file in /etc/pam.d loads pam_systemd, which is what starts the session at login.'' else []))]
         else judge_runtime_dir name s)"

definition judge_systemd :: "string \<Rightarrow> systemd_state \<Rightarrow> bool \<Rightarrow> report_part list" where
  "judge_systemd name s wanted =
     (if sy_pid1 s \<noteq> ''systemd''
      then (if wanted
            then [add_finding name (''boot.systemd=true, but PID 1 is '' @ or_unset (sy_pid1 s))
                    (''wsl.conf asks for systemd and PID 1 is '' @ or_unset (sy_pid1 s)
                     @ ''. wsl.conf is read when the distribution starts, so a change needs wsl --terminate '' @ name
                     @ ''; if it is already restarted, the image may not have systemd installed at all.'')]
            else [Line (name @ '': systemd is not enabled (PID 1 is '' @ or_unset (sy_pid1 s)
                    @ ''); boot.systemd=true in wsl.conf turns it on'')])
      else judge_system name s @ judge_session name s)"

definition reason_for_systemd :: "systemd_state collected \<Rightarrow> string" where
  "reason_for_systemd f =
     (if \<not> fd_collected f then ''not collected''
      else case fd_kind f of
             ErrVMWakeRefused \<Rightarrow> ''not running''
           | ErrTimeout \<Rightarrow> ''timed out''
           | ErrUnsupported \<Rightarrow> ''not applicable''
           | ErrNone \<Rightarrow> ''not collected''
           | _ \<Rightarrow> if fd_err f = [] then ''not collected'' else fd_err f)"

definition systemd_readable :: "distro \<Rightarrow> bool" where
  "systemd_readable d \<longleftrightarrow> fd_collected (di_systemd d) \<and> fd_ok (di_systemd d)"

definition systemd_reports :: "distro \<Rightarrow> report_part list" where
  "systemd_reports d = judge_systemd (di_name d) (fd_value (di_systemd d)) (systemd_wanted d)"

definition systemd_check :: "snapshot \<Rightarrow> result" where
  "systemd_check e =
     (let res = plain_result ''SYS001'' ''systemd health, the user session and XDG_RUNTIME_DIR''
      in over_distros res ''No distributions are registered'' e (\<lambda>all.
           let ds = wsl2_distros all;
               skipped = map (\<lambda>d. di_name d @ '' ('' @ reason_for_systemd (di_systemd d) @ '')'')
                           (filter (\<lambda>d. \<not> systemd_readable d) ds);
               checked = filter systemd_readable ds;
               reports = concat (map systemd_reports checked)
           in if checked = []
              then (res StSkipped 0 (''No running distribution to check''
                      @ (if skipped \<noteq> [] then '' ('' @ join_with ''; '' skipped @ '')'' else [])))
                   \<lparr>rs_detail := ''systemd is only asked about in a distribution that is already running: starting one to check would start systemd, which is the thing being checked.''\<rparr>
              else if findings_of reports = []
              then (res StOK (5 / 10) (''systemd and the user session are healthy in '' @ format_uint (length checked)
                      @ '' distribution(s)'' @ and_skipped skipped))
                   \<lparr>rs_detail := join_with [newline] (lines_of reports)\<rparr>
              else (res StWarn (5 / 10) (join_with ''; '' (findings_of reports)))
                   \<lparr>rs_detail := join_with [newline] (details_of reports @ lines_of reports),
                    rs_refs := [''https://github.com/microsoft/WSL/issues/13826'', ''https://github.com/microsoft/WSL/issues/13562'']\<rparr>))"

section \<open>MNT001\<close>

definition reason_inside :: "'a collected \<Rightarrow> string" where
  "reason_inside f =
     (case fd_kind f of
        ErrVMWakeRefused \<Rightarrow> ''not running''
      | ErrTimeout \<Rightarrow> ''timed out''
      | ErrNeedsElevation \<Rightarrow> ''access denied''
      | ErrUnsupported \<Rightarrow> ''not applicable''
      | _ \<Rightarrow> fd_err f)"

definition watch_finding :: "distro \<Rightarrow> watch_proc \<Rightarrow> string" where
  "watch_finding d w = di_name d @ '': '' @ wp_name w @ '' is watching '' @ wp_dir w"

definition watch_detail :: "watcher list \<Rightarrow> distro \<Rightarrow> watch_proc \<Rightarrow> string" where
  "watch_detail tbl d w =
     di_name d @ '': '' @ wp_name w @ '' in '' @ wp_dir w
     @ (case lookup_watcher tbl (wp_name w) of
          None \<Rightarrow> []
        | Some t \<Rightarrow>
            [newline] @ ''    Switch it to polling: '' @ wt_knob t
            @ (if wt_note t \<noteq> [] then [newline] @ ''    '' @ wt_note t else []))"

definition first_three :: "string list \<Rightarrow> string list" where
  "first_three fs = (if length fs > 3 then take 3 fs @ [''and '' @ format_uint (length fs - 3) @ '' more''] else fs)"

definition watchers_check :: "string + watcher list \<Rightarrow> snapshot \<Rightarrow> result" where
  "watchers_check table e =
     (let res = plain_result ''MNT001'' ''File watchers working on the Windows filesystem''
      in over_distros res ''No distributions are registered, so nothing is watching anything'' e (\<lambda>all.
           case table of
             Inl err \<Rightarrow> res StUnknown (1 / 10) (''the watcher table could not be loaded: '' @ err)
           | Inr tbl \<Rightarrow>
               (let ds = wsl2_distros all;
                    skipped = map (\<lambda>d. di_name d @ '' ('' @ reason_inside (di_watchers d) @ '')'')
                                (filter (\<lambda>d. \<not> fd_ok (di_watchers d)) ds);
                    checked = filter (\<lambda>d. fd_ok (di_watchers d)) ds;
                    findings = concat (map (\<lambda>d. map (watch_finding d) (fd_value (di_watchers d))) checked);
                    details = concat (map (\<lambda>d. map (watch_detail tbl d) (fd_value (di_watchers d))) checked)
                in if checked = [] \<and> skipped \<noteq> []
                   then (res StSkipped 0 (''No running distribution to look in ('' @ join_with ''; '' skipped @ '')''))
                        \<lparr>rs_detail := ''What is running inside a distribution can only be read while it is running. Start one and run the check again.''\<rparr>
                   else if findings = []
                   then res StOK 0 (''No file watchers are working on a Windows drive in '' @ format_uint (length checked)
                          @ '' distribution(s)'' @ and_skipped skipped)
                   else (res StWarn (6 / 10) (join_with ''; '' (first_three findings)))
                        \<lparr>rs_detail := join_with [newline] details @ [newline, newline]
                           @ said ''A watch on /mnt never fires. inotify is a kernel facility over a Linux filesystem; the Windows drives are served over a protocol that does not report_part changes, so the watch is accepted and then silently does nothing. This cannot be fixed from inside the distribution (microsoft/WSL#4739). Either switch the tool to polling, which costs CPU but works, or move the tree onto the distribution`s own filesystem, which is faster as well.'',
                         rs_fix_hint := ''move the project into the distribution (~/), or set the polling option listed above''\<rparr>)))"

section \<open>ZON001\<close>

definition examples :: "string list \<Rightarrow> string" where
  "examples paths =
     (if paths = [] then []
      else '', for example '' @ join_with '', '' (take 3 paths)
           @ (if length paths > 3 then '', and '' @ format_uint (length paths - 3) @ '' more'' else []))"

definition zone_count :: "zone_facts \<Rightarrow> string" where
  "zone_count s = (if zs_truncated s then ''at least '' else []) @ format_int (zs_count s)"

definition zone_check :: "snapshot \<Rightarrow> result" where
  "zone_check e =
     (let res = plain_result ''ZON001'' ''Zone.Identifier files left by saved downloads''
      in over_distros res ''No distributions are registered, so there is nothing to scan'' e (\<lambda>all.
           let ds = wsl2_distros all;
               skipped = map (\<lambda>d. di_name d @ '' ('' @ reason_inside (di_zone_files d) @ '')'')
                           (filter (\<lambda>d. \<not> fd_ok (di_zone_files d)) ds);
               scanned = filter (\<lambda>d. fd_ok (di_zone_files d)) ds;
               cut = list_ex (\<lambda>d. zs_truncated (fd_value (di_zone_files d))) scanned;
               found = filter (\<lambda>d. zs_count (fd_value (di_zone_files d)) \<noteq> 0) scanned;
               count_all = foldl (\<lambda>n d. wrap64 (n + zs_count (fd_value (di_zone_files d)))) 0 found
           in if scanned = [] \<and> skipped \<noteq> []
              then (res StSkipped 0 (''No running distribution to scan ('' @ join_with ''; '' skipped @ '')''))
                   \<lparr>rs_detail := ''These files can only be found by reading the distribution from Windows, which starts it if it is stopped. Start one and run the check again, or use --allow-vm-wake.''\<rparr>
              else if found = []
              then (let r = res StOK 0 (''No Zone.Identifier files under /home or /root in '' @ format_uint (length scanned)
                                @ '' distribution(s)'' @ and_skipped skipped)
                    in if cut then r\<lparr>rs_confidence := 5 / 10,
                            rs_detail := ''The scan reached its own limit before it finished, so a file deeper in the tree could have been missed.''\<rparr>
                       else r)
              else (res StWarn (5 / 10) (join_with ''; '' (map (\<lambda>d. di_name d @ '': ''
                       @ zone_count (fd_value (di_zone_files d)) @ '' Zone.Identifier file(s)'') found)))
                   \<lparr>rs_detail := join_with [newline] (map (\<lambda>d. di_name d @ '': '' @ zone_count (fd_value (di_zone_files d))
                          @ '' file(s) under /home and /root'' @ examples (zs_paths (fd_value (di_zone_files d)))) found)
                      @ [newline] @ ''Windows records where a downloaded file came from in an alternate data stream. The file server behind ''
                      @ bs ''||wsl.localhost''
                      @ '' has no streams, so saving a download into the distribution writes that record as a second ordinary file. Deleting them loses only that record; the downloads themselves are untouched.'',
                    rs_fix_hint := ''wslkit fix zone --distro <name> ('' @ format_int count_all @ '' file(s) found)''\<rparr>))"

section \<open>KVM001\<close>

definition policy_value :: "snapshot \<Rightarrow> string \<Rightarrow> string" where
  "policy_value e name =
     (case map_of (fd_value (nf_policy (sn_net e))) name of None \<Rightarrow> [] | Some v \<Rightarrow> v)"

definition config_of :: "snapshot \<Rightarrow> ini" where
  "config_of e = (if fd_ok (cf_wslconfig (sn_config e)) then parse (fd_value (cf_wslconfig (sn_config e))) else parse [])"

definition host_build :: "snapshot \<Rightarrow> int" where
  "host_build e = (if fd_ok (hf_os (sn_host e)) then ob_build (fd_value (hf_os (sn_host e))) else 0)"

definition config_flag :: "ini \<Rightarrow> string \<Rightarrow> string \<Rightarrow> bool option" where
  "config_flag cfg sec key = (case get cfg sec key of None \<Rightarrow> None | Some v \<Rightarrow> parse_bool v)"

definition nested_setting :: "snapshot \<Rightarrow> bool \<times> string" where
  "nested_setting e =
     (case config_flag (config_of e) ''wsl2'' ''nestedVirtualization'' of
        Some on \<Rightarrow>
          (on, ''nestedVirtualization='' @ the (get (config_of e) ''wsl2'' ''nestedVirtualization'') @ '' in .wslconfig'')
      | None \<Rightarrow>
          if hf_arch (sn_host e) = ''arm64'' then (False, ''off by default on arm64'')
          else (True, ''the default on Windows 11''))"

definition nested_wanted :: "snapshot \<Rightarrow> bool \<times> string" where
  "nested_wanted e =
     (if 0 < host_build e \<and> host_build e < 22000
      then (False, ''WSL never offers it on Windows 10 (build '' @ format_int (host_build e) @ '')'')
      else if config_flag (config_of e) ''wsl2'' ''safeMode'' = Some True
      then (False, ''safeMode=true in .wslconfig turns it off'')
      else case nested_setting e of
             (wanted, why) \<Rightarrow>
               if wanted \<and> fd_ok (nf_policy (sn_net e)) \<and> policy_value e ''AllowNestedVirtualization'' = ''0''
               then (False, ''group policy AllowNestedVirtualization=0 turns it off'')
               else (wanted, why))"

definition october_update :: "snapshot \<Rightarrow> vm_facts \<Rightarrow> string option" where
  "october_update e v =
     (if \<not> fd_ok (hf_os (sn_host e)) \<or> vf_cpu_vendor v \<noteq> ''AuthenticAMD'' then None
      else let os = fd_value (hf_os (sn_host e))
           in if 26100 \<le> ob_build os \<and> 9711 \<le> ob_ubr os
              then Some (format_int (ob_build os) @ ''.'' @ format_int (ob_ubr os)) else None)"

definition present :: "bool \<Rightarrow> string" where
  "present b = (if b then ''present'' else ''absent'')"

definition nested_check :: "snapshot \<Rightarrow> result" where
  "nested_check e =
     (let res = plain_result ''KVM001'' ''Nested virtualization reaches the VM''
      in case nested_wanted e of
           (False, why) \<Rightarrow> res StOK 0 (''Nested virtualization is not asked for: '' @ why)
         | (True, why) \<Rightarrow>
             if \<not> fd_collected (sn_vm e) then res StSkipped 0 ''skipped: the VM was not asked (older snapshot)''
             else if \<not> fd_ok (sn_vm e)
             then (res StSkipped 0 (''Nested virtualization is on ('' @ why @ ''), but no running distribution was asked whether it arrived''))
                  \<lparr>rs_detail := fd_err (sn_vm e)\<rparr>
             else let v = fd_value (sn_vm e);
                      ls = [''asked for: '' @ why,
                            ''read from '' @ vf_read_from v @ '': /dev/kvm '' @ present (vf_kvm v) @ '', vmx/svm ''
                              @ present (vf_virt_flags v) @ '', CPU '' @ or_unset (vf_cpu_vendor v)]
                  in if vf_kvm v
                     then (res StOK (3 / 10) ''Nested virtualization is on and /dev/kvm exists in the VM'')
                          \<lparr>rs_detail := join_with [newline] ls\<rparr>
                     else if vf_virt_flags v
                     then (res StWarn (5 / 10) (said ''The VM has the processor`s virtualization extensions, but no /dev/kvm''))
                          \<lparr>rs_detail := join_with [newline] (ls @ [said ''The extensions reached the VM, so WSL`s side worked. /dev/kvm is created by the kernel`s KVM driver: a custom kernel without KVM, or kvm_intel / kvm_amd not loaded, leaves it missing.'']),
                           rs_fix_hint := ''inside the distribution: sudo modprobe kvm_amd   (or kvm_intel); with a custom .wslconfig kernel=, build it with CONFIG_KVM''\<rparr>
                     else (case october_update e v of
                             Some build \<Rightarrow>
                               (res StWarn (8 / 10) (''Nested virtualization is on, but the VM did not get it: build '' @ build
                                  @ '' on an AMD processor is the October 2026 update that breaks it''))
                               \<lparr>rs_detail := join_with [newline] (ls @ [said ''KB5127648 (October 2026, builds ending .9711) makes the processor capability query fail on AMD hosts, and WSL then starts the VM without nested virtualization (microsoft/WSL#41917). WSL 3.0.4 says so: ^Failed to detect nested virtualization support, error: ERROR_INVALID_DATA^. The fix has to come from a Windows update; nothing in WSL or the distribution changes it, and downgrading WSL does not either.'']),
                                rs_refs := [''https://github.com/microsoft/WSL/issues/41917'', ''https://github.com/microsoft/WSL/pull/41942''],
                                rs_fix_hint := ''watch for the Windows update that fixes microsoft/WSL#41917; until then nested virtualization is not available on this host''\<rparr>
                           | None \<Rightarrow>
                               (res StWarn (6 / 10) ''Nested virtualization is on, but the VM did not get it: no vmx/svm, no /dev/kvm'')
                               \<lparr>rs_detail := join_with [newline] (ls @ [said ''WSL drops nested virtualization when the host cannot provide it. When the host says so, wsl.exe prints ^Nested virtualization is not supported on this machine.^ as the VM starts; when the question itself fails, WSL up to 3.0.3 said nothing, and 3.0.4 prints ^Failed to detect nested virtualization support^.'']),
                                rs_fix_hint := said ''wsl --shutdown, start a distribution and read what wsl.exe prints first; the processor`s virtualization support must be on in the firmware''\<rparr>))"

section \<open>BIN001\<close>

text \<open>\<open>runtimeVersion\<close> of \<open>wslconf.go\<close>: the first of three fields that has a version in it.\<close>

definition runtime_version :: "snapshot \<Rightarrow> version option" where
  "runtime_version e =
     (let rt = sn_runtime e
      in case List.map_filter (\<lambda>f. if \<not> fd_ok f \<or> fd_value f = [] then None
                                   else case parse_version (fd_value f) of
                                          None \<Rightarrow> None | Some v \<Rightarrow> if is_zero v then None else Some v)
                [rt_version rt, rt_msi_version rt, rt_inbox_version rt] of
           [] \<Rightarrow> None | v # _ \<Rightarrow> Some v)"

definition interop_name :: string where "interop_name = ''WSLInterop''"

definition claims_windows_exe :: "binfmt_entry \<Rightarrow> bool" where
  "claims_windows_exe x \<longleftrightarrow>
     bf_offset x = 0 \<and> has_prefix (bf_magic x) ''4d5a'' \<or> equal_fold (trim_prefix (bf_extension x) ''.'') ''exe''"

definition describe_binfmt :: "binfmt_entry \<Rightarrow> string" where
  "describe_binfmt x =
     bf_name x @ '': '' @ (if bf_enabled x then ''enabled'' else ''disabled'') @ '', ''
     @ (if bf_extension x \<noteq> [] then ''extension '' @ bf_extension x else ''magic '' @ bf_magic x)
     @ '', interpreter '' @ or_unset (bf_interpreter x)"

text \<open>The loop returns at the first distribution of the name whose file was read.\<close>

definition interop_off :: "snapshot \<Rightarrow> string \<Rightarrow> bool" where
  "interop_off e name =
     (case find (\<lambda>d. di_name d = name \<and> fd_ok (di_wsl_conf d)) (distro_list e) of
        None \<Rightarrow> False
      | Some d \<Rightarrow> config_flag (parse (fd_value (di_wsl_conf d))) ''interop'' ''enabled'' = Some False)"

text \<open>The last entry of WSL's name, and the enabled entries of other names that match what it matches.\<close>

definition own_entry :: "binfmt_entry list \<Rightarrow> binfmt_entry option" where
  "own_entry xs = find (\<lambda>x. bf_name x = interop_name) (rev xs)"

definition rivals :: "binfmt_entry list \<Rightarrow> binfmt_entry list" where
  "rivals xs = filter (\<lambda>x. bf_name x \<noteq> interop_name \<and> bf_enabled x \<and> claims_windows_exe x) xs"

definition interop_refs :: "string list" where
  "interop_refs = [''https://github.com/microsoft/WSL/issues/41739'']"

definition interop_res :: "status \<Rightarrow> rat \<Rightarrow> string \<Rightarrow> result" where
  "interop_res = plain_result ''BIN001'' ''Windows programs launch from Linux (binfmt_misc)''"

definition handler_lost :: "string list \<Rightarrow> bool \<Rightarrow> result" where
  "handler_lost ls there =
     (interop_res StFail (7 / 10) (said ''WSL`s handler for Windows programs '' @ (if there then ''is disabled'' else ''is missing'')
        @ '': running notepad.exe or code from Linux fails''))
     \<lparr>rs_detail := join_with [newline] (ls @ [''WSL registers WSLInterop once, when the VM starts, and the table is shared by every distribution. A systemd distribution clearing the table as it shuts down, or systemd-binfmt / update-binfmts rewriting it, removes it for all of them.'']),
      rs_fix_hint := (if there then ''for this boot: echo 1 | sudo tee /proc/sys/fs/binfmt_misc/WSLInterop; for good, find what disables it''
                      else ''wsl --shutdown re-registers it when the VM starts again; keep [boot] protectBinfmt=true (the default) in wsl.conf of systemd distributions''),
      rs_refs := interop_refs\<rparr>"

definition handler_contested :: "string list \<Rightarrow> binfmt_entry list \<Rightarrow> version option \<Rightarrow> result" where
  "handler_contested ls rs runtime =
     (let again = (case runtime of Some v \<Rightarrow> at_least v (Version 3 0 2 0) | None \<Rightarrow> False);
          first = bf_name (hd rs)
      in (interop_res StWarn (if again then 5 / 10 else 6 / 10) (''Another handler also claims Windows executables: ''
            @ join_with '', '' (map (\<lambda>x. bf_name x @ '' ('' @ or_unset (bf_interpreter x) @ '')'') rs)))
         \<lparr>rs_detail := join_with [newline] (ls
            @ [said ''Windows programs start with ^MZ^, and so do .NET assemblies, which is why mono and wine register a handler for the same bytes. When theirs is picked, notepad.exe fails with ^run-detectors: unable to find an interpreter^ or starts under mono or wine.'',
               ''The kernel tries the most recently registered handler first, and /proc does not show the order, so whichever was registered last wins.''
               @ (if again
                  then '' WSL '' @ version_string (the runtime) @ '' registers WSLInterop again after systemd-binfmt in a systemd distribution with protectBinfmt on (the default), which puts it back in front of what systemd-binfmt loaded; a handler registered after that, by binfmt-support or by hand, still takes over. Measured on 3.0.3: one registered by hand made cmd.exe run under its interpreter.''
                  else [])]),
          rs_fix_hint := ''for this boot: echo 0 | sudo tee /proc/sys/fs/binfmt_misc/'' @ first
            @ ''; for good: sudo update-binfmts --disable '' @ first @ '' (binfmt-support), or remove its file from /usr/lib/binfmt.d'',
          rs_refs := interop_refs\<rparr>)"

definition interop_check :: "snapshot \<Rightarrow> result" where
  "interop_check e =
     (if \<not> fd_collected (sn_vm e) then interop_res StSkipped 0 ''skipped: the VM was not asked (older snapshot)''
      else if \<not> fd_ok (sn_vm e)
      then (interop_res StSkipped 0 ''No running distribution was asked'')\<lparr>rs_detail := fd_err (sn_vm e)\<rparr>
      else let v = fd_value (sn_vm e)
           in if interop_off e (vf_read_from v)
              then interop_res StOK 0 (''Interop is turned off in '' @ vf_read_from v
                     @ said ''`s wsl.conf, so Windows programs are not expected to launch'')
              else if \<not> vf_binfmt_mounted v
              then (interop_res StFail (6 / 10) ''binfmt_misc is not mounted, so Linux cannot hand a Windows program to WSL'')
                   \<lparr>rs_detail := ''Read from '' @ vf_read_from v @ '': /proc/sys/fs/binfmt_misc has no register file. WSL mounts it when the VM starts; something in the distribution unmounted it.'',
                    rs_fix_hint := ''wsl --shutdown, then start the distribution again''\<rparr>
              else let ls = (''Read from '' @ vf_read_from v @ ''; '' @ format_uint (length (vf_binfmt v))
                              @ '' binfmt_misc handler(s) registered'')
                            # map (\<lambda>x. ''  '' @ describe_binfmt x) (vf_binfmt v)
                   in case own_entry (vf_binfmt v) of
                        None \<Rightarrow> handler_lost ls False
                      | Some own \<Rightarrow>
                          if \<not> bf_enabled own then handler_lost ls True
                          else if rivals (vf_binfmt v) = []
                          then (interop_res StOK (3 / 10) ''WSLInterop is registered and no other handler claims Windows executables'')
                               \<lparr>rs_detail := join_with [newline] ls\<rparr>
                          else handler_contested ls (rivals (vf_binfmt v)) (runtime_version e))"

section \<open>What could not be read is not judged\<close>

text \<open>The rule of \<open>env.go\<close>: a value that could not be had must not be reported as fine or as failing.\<close>

definition judged :: "result \<Rightarrow> bool" where
  "judged r \<longleftrightarrow> rs_status r \<in> {StOK, StWarn, StFail}"

lemma over_distros_unread:
  "fd_kind (sn_distros e) \<notin> {ErrNone, ErrNotPresent} \<Longrightarrow>
   over_distros (plain_result i t) none e check = plain_result i t StUnknown (1 / 10)
     (''could not read the distribution inventory: '' @ fd_err (sn_distros e))"
  by (simp add: over_distros_def fd_ok_def fd_absent_def)

lemma over_distros_some:
  "fd_ok (sn_distros e) \<Longrightarrow> distro_list e \<noteq> [] \<Longrightarrow> over_distros res none e check = check (distro_list e)"
  by (simp add: over_distros_def)

lemma filter_unread: "\<forall>d \<in> set ds. di_version d = 2 \<longrightarrow> \<not> P d \<Longrightarrow> filter P (wsl2_distros ds) = []"
  by (auto simp: wsl2_distros_def filter_empty_conv)

lemma wsl2_some: "d \<in> set ds \<Longrightarrow> di_version d = 2 \<Longrightarrow> wsl2_distros ds \<noteq> []"
  by (auto simp: wsl2_distros_def filter_empty_conv)

definition unread :: "(distro \<Rightarrow> 'a collected) \<Rightarrow> snapshot \<Rightarrow> bool" where
  "unread f e \<longleftrightarrow>
     fd_kind (sn_distros e) \<notin> {ErrNone, ErrNotPresent}
     \<or> fd_ok (sn_distros e) \<and> (\<exists>d \<in> set (distro_list e). di_version d = 2)
        \<and> (\<forall>d \<in> set (distro_list e). di_version d = 2 \<longrightarrow> \<not> fd_ok (f d))"

lemma systemd_unread: "unread di_systemd e \<Longrightarrow> \<not> judged (systemd_check e)"
  unfolding unread_def
proof (elim disjE conjE bexE)
  assume "fd_kind (sn_distros e) \<notin> {ErrNone, ErrNotPresent}"
  then show ?thesis by (simp add: systemd_check_def Let_def over_distros_unread judged_def)
next
  fix d assume d: "fd_ok (sn_distros e)" "d \<in> set (distro_list e)"
    "\<forall>d \<in> set (distro_list e). di_version d = 2 \<longrightarrow> \<not> fd_ok (di_systemd d)"
  then have "filter systemd_readable (wsl2_distros (distro_list e)) = []"
    by (intro filter_unread) (simp add: systemd_readable_def)
  moreover have "distro_list e \<noteq> []" using d(2) by auto
  ultimately show ?thesis using d(1) by (simp add: systemd_check_def Let_def over_distros_some judged_def)
qed

lemma inside_unread:
  assumes "\<exists>d \<in> set (distro_list e). di_version d = 2"
    and "\<forall>d \<in> set (distro_list e). di_version d = 2 \<longrightarrow> \<not> fd_ok (f d)"
  shows "filter (\<lambda>d. fd_ok (f d)) (wsl2_distros (distro_list e)) = []"
    and "filter (\<lambda>d. \<not> fd_ok (f d)) (wsl2_distros (distro_list e)) \<noteq> []"
    and "distro_list e \<noteq> []"
  using assms by (auto simp: wsl2_distros_def filter_empty_conv)

lemma watchers_unread: "unread di_watchers e \<Longrightarrow> \<not> judged (watchers_check (Inr tbl) e)"
  unfolding unread_def
proof (elim disjE conjE)
  assume "fd_kind (sn_distros e) \<notin> {ErrNone, ErrNotPresent}"
  then show ?thesis by (simp add: watchers_check_def Let_def over_distros_unread judged_def)
next
  assume "fd_ok (sn_distros e)" and d: "\<exists>d \<in> set (distro_list e). di_version d = 2"
    "\<forall>d \<in> set (distro_list e). di_version d = 2 \<longrightarrow> \<not> fd_ok (di_watchers d)"
  then show ?thesis
    using inside_unread[of e di_watchers, OF d]
    by (simp add: watchers_check_def Let_def over_distros_some judged_def)
qed

lemma zone_unread: "unread di_zone_files e \<Longrightarrow> \<not> judged (zone_check e)"
  unfolding unread_def
proof (elim disjE conjE)
  assume "fd_kind (sn_distros e) \<notin> {ErrNone, ErrNotPresent}"
  then show ?thesis by (simp add: zone_check_def Let_def over_distros_unread judged_def)
next
  assume "fd_ok (sn_distros e)" and d: "\<exists>d \<in> set (distro_list e). di_version d = 2"
    "\<forall>d \<in> set (distro_list e). di_version d = 2 \<longrightarrow> \<not> fd_ok (di_zone_files d)"
  then show ?thesis
    using inside_unread[of e di_zone_files, OF d]
    by (simp add: zone_check_def Let_def over_distros_some judged_def)
qed

lemma interop_unread: "\<not> fd_ok (sn_vm e) \<Longrightarrow> \<not> judged (interop_check e)"
  by (simp add: interop_check_def interop_res_def judged_def)

lemma nested_unread:
  assumes "\<not> fd_ok (sn_vm e)" and "fst (nested_wanted e)"
  shows "\<not> judged (nested_check e)"
proof -
  obtain why where "nested_wanted e = (True, why)" using assms(2) by (cases "nested_wanted e") auto
  then show ?thesis using assms(1) by (simp add: nested_check_def judged_def Let_def)
qed


definition lost_snapshot :: snapshot where
  "lost_snapshot =
     zero_snapshot\<lparr>sn_distros := failed_value [] ErrTimeout ''Lxss'' None,
                   sn_vm := failed_value zero_vm_facts ErrTimeout ''script'' None\<rparr>"

lemma lost_unread: "unread f lost_snapshot"
  by (simp add: unread_def lost_snapshot_def failed_value_def)


text \<open>The version of the program in the Windows directory is that of Windows, and passes for one of WSL
  newer than any there is.\<close>

lemma inbox_version_taken:
  assumes "\<not> fd_ok (rt_version (sn_runtime e))" and "\<not> fd_ok (rt_msi_version (sn_runtime e))"
    and "fd_ok (rt_inbox_version (sn_runtime e))" and "fd_value (rt_inbox_version (sn_runtime e)) = ''10.0.1.1''"
  shows "runtime_version e = Some (Version 10 0 1 1)"
  using assms
  by (simp add: runtime_version_def List.map_filter_def version_eval is_zero_def no_version_def)

end
