(* ===== verification/HostMatch.thy ===== *)
theory HostMatch
  imports Collect DiskPaths
begin

text \<open>
  Two of the checks of the host rest on an algorithm: whether an exclusion of the antivirus covers a disk
  (\<open>internal/probe/host/defender_match.go\<close>), and the longest run of ports that no exclusion covers
  (\<open>largestFree\<close> of \<open>internal/probe/net/ports.go\<close>).
\<close>

section \<open>Exclusions\<close>

definition to_backslashes :: "string \<Rightarrow> string" where
  "to_backslashes s = replace_char (CHR ''/'') backslash s"

definition normalize_path :: "string \<Rightarrow> string" where
  "normalize_path p0 =
     (let p = to_backslashes (to_lower (trim_prefix (trim_space p0) (bs ''||?|'')))
      in if length p > 3 then trim_suffix p [backslash] else p)"

function replace_fold :: "string \<Rightarrow> string \<Rightarrow> string \<Rightarrow> string" where
  "replace_fold s old sub =
     (if old = [] then s
      else case index_sub (to_lower s) (to_lower old) of
             None \<Rightarrow> s
           | Some i \<Rightarrow> take i s @ sub @ replace_fold (drop (i + length old) s) old sub)"
  by pat_completeness auto
termination
proof (relation "measure (\<lambda>(s, old, sub). length s)")
  fix s old sub :: string and i
  assume "old \<noteq> []" and "index_sub (to_lower s) (to_lower old) = Some i"
  then have "s \<noteq> []" by (cases s) (auto simp: to_lower_def has_prefix_def)
  then show "((drop (i + length old) s, old, sub), (s, old, sub)) \<in> measure (\<lambda>(s, old, sub). length s)"
    using \<open>old \<noteq> []\<close> by simp
qed simp

declare replace_fold.simps [simp del]

definition expand_vars :: "string \<Rightarrow> string \<Rightarrow> string" where
  "expand_vars s profile =
     (if \<not> contains s ''%'' \<or> profile = [] then s
      else let up = trim_suffix profile [backslash];
               drive = (if 2 \<le> length up \<and> up ! 1 = CHR '':'' then take 2 up else [])
           in foldl (\<lambda>t (k, v). if v = [] then t else replace_fold t k v) s
                [(''%userprofile%'', up), (''%localappdata%'', up @ bs ''|AppData|Local''),
                 (''%appdata%'', up @ bs ''|AppData|Roaming''), (''%homepath%'', trim_prefix up drive),
                 (''%systemdrive%'', drive)])"

definition star :: char where "star = CHR ''*''"
definition question :: char where "question = CHR ''?''"

fun wild_match :: "string \<Rightarrow> string \<Rightarrow> bool" where
  "wild_match [] v = (v = [])"
| "wild_match (c # p) v =
     (if c = star then list_ex (\<lambda>i. wild_match p (drop i v)) [0..<Suc (length v)]
      else case v of
             [] \<Rightarrow> False
           | d # w \<Rightarrow> (c = question \<or> c = d) \<and> wild_match p w)"

definition match_segment :: "string \<Rightarrow> string \<Rightarrow> bool" where
  "match_segment pattern s =
     (if pattern = [star] then True
      else if star \<notin> set pattern \<and> question \<notin> set pattern then pattern = s
      else wild_match pattern s)"

fun match_segments :: "string list \<Rightarrow> string list \<Rightarrow> bool" where
  "match_segments [] sp = True"
| "match_segments (p # pp) [] = False"
| "match_segments (p # pp) (s # sp) = (match_segment p s \<and> match_segments pp sp)"

definition match_windows_path :: "string \<Rightarrow> string \<Rightarrow> bool" where
  "match_windows_path pattern path =
     (let pp = split_on backslash pattern; sp = split_on backslash path
      in length pp \<le> length sp \<and> match_segments pp sp)"

definition extension_of :: "string \<Rightarrow> string" where
  "extension_of e = to_lower (trim_space (trim_prefix (trim_space e) ''.''))"

definition rule_pattern :: "string \<Rightarrow> string \<Rightarrow> string" where
  "rule_pattern profile rule = normalize_path (expand_vars rule profile)"

definition folder_pattern :: "string \<Rightarrow> string" where
  "folder_pattern x = trim_suffix (trim_suffix x (bs ''|*'')) [backslash]"

definition covered_by_extension :: "string \<Rightarrow> string \<Rightarrow> bool" where
  "covered_by_extension p e \<longleftrightarrow> extension_of e \<noteq> [] \<and> has_suffix p (''.'' @ extension_of e)"

definition covered_by_rule :: "string \<Rightarrow> string \<Rightarrow> string \<Rightarrow> bool" where
  "covered_by_rule profile p rule \<longleftrightarrow>
     rule_pattern profile rule \<noteq> [] \<and> match_windows_path (folder_pattern (rule_pattern profile rule)) p"

definition excluded_by :: "string \<Rightarrow> exclusions \<Rightarrow> string \<Rightarrow> string option" where
  "excluded_by path ex profile =
     (let p = normalize_path path
      in if p = [] then None
         else case find (covered_by_extension p) (ex_extensions ex) of
                Some e \<Rightarrow> Some (''extension '' @ extension_of e)
              | None \<Rightarrow> find (covered_by_rule profile p) (ex_paths ex))"

text \<open>What a wildcard stands for: a star for any run of characters of one name, a question mark for one.\<close>

inductive segment_glob :: "string \<Rightarrow> string \<Rightarrow> bool" where
  glob_nil: "segment_glob [] []"
| glob_star: "segment_glob p (drop i v) \<Longrightarrow> segment_glob (star # p) v"
| glob_one: "segment_glob p v \<Longrightarrow> segment_glob (question # p) (d # v)"
| glob_char: "c \<noteq> star \<Longrightarrow> segment_glob p v \<Longrightarrow> segment_glob (c # p) (c # v)"

inductive_cases segment_glob_cases: "segment_glob [] v" "segment_glob (c # p) v"

lemma star_question: "star \<noteq> question" "question \<noteq> star"
  by (simp_all add: star_def question_def)

lemma wild_match_glob: "wild_match p v \<longleftrightarrow> segment_glob p v"
proof (induction p arbitrary: v)
  case Nil
  then show ?case by (auto intro: glob_nil elim: segment_glob_cases)
next
  case (Cons c p)
  show ?case
  proof (cases "c = star")
    case True
    have "wild_match (c # p) v \<longleftrightarrow> (\<exists>i \<le> length v. segment_glob p (drop i v))"
      using True Cons by (auto simp: list_ex_iff less_Suc_eq_le simp del: upt_Suc)
    also have "\<dots> \<longleftrightarrow> (\<exists>i. segment_glob p (drop i v))"
      by (metis drop_all linorder_le_cases order_refl)
    also have "\<dots> \<longleftrightarrow> segment_glob (c # p) v"
      using True star_question glob_star by (auto elim!: segment_glob_cases(2))
    finally show ?thesis .
  next
    case False
    then show ?thesis
      using Cons by (cases v) (auto intro: glob_one glob_char elim!: segment_glob_cases(2))
  qed
qed

lemma glob_plain: "star \<notin> set p \<Longrightarrow> question \<notin> set p \<Longrightarrow> segment_glob p v \<longleftrightarrow> p = v"
proof (induction p arbitrary: v)
  case Nil
  then show ?case by (auto intro: glob_nil elim: segment_glob_cases)
next
  case (Cons c p)
  then show ?case by (auto intro: glob_char elim!: segment_glob_cases(2))
qed

lemma segment_star_all: "segment_glob [star] v"
  by (rule glob_star[of "[]" "length v"]) (simp add: glob_nil)

lemma match_segment_glob: "match_segment p s \<longleftrightarrow> segment_glob p s"
  by (simp add: match_segment_def wild_match_glob glob_plain segment_star_all)

definition leads_to :: "string \<Rightarrow> string \<Rightarrow> bool" where
  "leads_to pattern path \<longleftrightarrow>
     (\<exists>names below. split_on backslash path = names @ below \<and> list_all2 segment_glob (split_on backslash pattern) names)"

lemma match_segments_glob:
  "match_segments pp sp \<longleftrightarrow> (\<exists>names below. sp = names @ below \<and> list_all2 segment_glob pp names)"
proof (induction pp sp rule: match_segments.induct)
  case (3 p pp s sp)
  have "(\<exists>names below. s # sp = names @ below \<and> list_all2 segment_glob (p # pp) names)
      \<longleftrightarrow> segment_glob p s \<and> (\<exists>names below. sp = names @ below \<and> list_all2 segment_glob pp names)"
    by (auto simp: list_all2_Cons1 Cons_eq_append_conv)
  then show ?case using 3 by (simp add: match_segment_glob)
qed auto

lemma match_path_leads: "match_windows_path pattern path \<longleftrightarrow> leads_to pattern path"
proof -
  have "list_all2 segment_glob pp names \<Longrightarrow> length pp \<le> length (names @ below)" for pp names below
    using list_all2_lengthD by fastforce
  then show ?thesis by (auto simp: match_windows_path_def leads_to_def match_segments_glob Let_def)
qed

lemma find_some: "find P xs \<noteq> None \<longleftrightarrow> (\<exists>x \<in> set xs. P x)"
  unfolding find_None_iff by blast

text \<open>C23: a disk counts as excluded from scanning exactly where a rule says so: an extension rule with the
  extension of its path, or a path rule whose names, with wildcards that stand for part of one name, are
  those of the path from its start, so that a folder covers what is below it and a wildcard never
  reaches across folders.\<close>

theorem excluded_exactly_when_covered:
  shows "excluded_by path ex profile \<noteq> None \<longleftrightarrow>
     normalize_path path \<noteq> []
     \<and> ((\<exists>e \<in> set (ex_extensions ex). extension_of e \<noteq> [] \<and> has_suffix (normalize_path path) (''.'' @ extension_of e))
        \<or> (\<exists>rule \<in> set (ex_paths ex). rule_pattern profile rule \<noteq> []
              \<and> leads_to (folder_pattern (rule_pattern profile rule)) (normalize_path path)))"
proof (cases "normalize_path path = []")
  case True
  then show ?thesis by (simp add: excluded_by_def)
next
  case False
  let ?p = "normalize_path path"
  have "excluded_by path ex profile \<noteq> None \<longleftrightarrow>
      find (covered_by_extension ?p) (ex_extensions ex) \<noteq> None \<or> find (covered_by_rule profile ?p) (ex_paths ex) \<noteq> None"
    using False by (simp add: excluded_by_def Let_def split: option.split)
  then show ?thesis
    unfolding find_some covered_by_extension_def covered_by_rule_def match_path_leads using False by simp
qed

section \<open>Ports\<close>

text \<open>The empty run before anything is found, and the loop over the exclusions: the best run, and the
  first port after those seen.\<close>

definition no_run :: port_span where "no_run = \<lparr>ps_start = 1, ps_end = 0\<rparr>"

definition consider_run :: "port_span \<Rightarrow> int \<Rightarrow> int \<Rightarrow> port_span" where
  "consider_run best from_port to_port =
     (if to_port \<ge> from_port \<and> to_port - from_port > ps_end best - ps_start best
      then \<lparr>ps_start = from_port, ps_end = to_port\<rparr> else best)"

fun free_loop :: "int \<Rightarrow> port_span \<Rightarrow> int \<Rightarrow> port_span list \<Rightarrow> port_span \<times> int" where
  "free_loop limit best from_port [] = (best, from_port)"
| "free_loop limit best from_port (x # xs) =
     (if ps_end x < from_port \<or> ps_start x > limit then free_loop limit best from_port xs
      else free_loop limit (consider_run best from_port (min (ps_start x - 1) limit))
             (if ps_end x + 1 > from_port then ps_end x + 1 else from_port) xs)"

definition largest_free :: "port_pool \<Rightarrow> port_span" where
  "largest_free p =
     (case free_loop (ps_end (pl_dynamic p)) no_run (ps_start (pl_dynamic p))
             (stable_sort_by (\<lambda>a b. ps_start a < ps_start b) (pl_excluded p)) of
        (best, from_port) \<Rightarrow> consider_run best from_port (ps_end (pl_dynamic p)))"

definition describe_pool :: "string \<Rightarrow> port_pool \<Rightarrow> port_span \<Rightarrow> string" where
  "describe_pool proto p free =
     (let dyn = pl_dynamic p;
          inside = length (filter (\<lambda>x. ps_end x \<ge> ps_start dyn \<and> ps_start x \<le> ps_end dyn) (pl_excluded p))
      in proto @ '' dynamic range '' @ format_int (ps_start dyn) @ ''-'' @ format_int (ps_end dyn) @ '', ''
         @ format_uint inside @ '' exclusion(s) inside it, longest free run ''
         @ (if ps_end free \<ge> ps_start free
            then format_int (ps_end free - ps_start free + 1) @ '' ports ('' @ format_int (ps_start free) @ ''-''
                 @ format_int (ps_end free) @ '')''
            else ''none''))"

text \<open>A run of the dynamic range with no port of an exclusion.\<close>

definition free_run :: "port_pool \<Rightarrow> int \<Rightarrow> int \<Rightarrow> bool" where
  "free_run p a b \<longleftrightarrow>
     ps_start (pl_dynamic p) \<le> a \<and> b \<le> ps_end (pl_dynamic p)
     \<and> (\<forall>q. a \<le> q \<and> q \<le> b \<longrightarrow> (\<forall>x \<in> set (pl_excluded p). \<not> (ps_start x \<le> q \<and> q \<le> ps_end x)))"

definition clear_of :: "port_span list \<Rightarrow> int \<Rightarrow> int \<Rightarrow> bool" where
  "clear_of xs a b \<longleftrightarrow> (\<forall>x \<in> set xs. ps_end x < a \<or> b < ps_start x)"

lemma free_loop_sound:
  assumes "free_loop limit best from_port xs = (best', from')"
    and "sorted_wrt (\<lambda>a b. ps_start a \<le> ps_start b) xs" and "low \<le> from_port"
    and "\<forall>x \<in> set seen. ps_end x < from_port \<or> limit < ps_start x"
    and "ps_end best < ps_start best
       \<or> low \<le> ps_start best \<and> ps_end best \<le> limit \<and> clear_of (seen @ xs) (ps_start best) (ps_end best)"
  shows "low \<le> from' \<and> (\<forall>x \<in> set (seen @ xs). ps_end x < from' \<or> limit < ps_start x)
     \<and> (ps_end best' < ps_start best'
        \<or> low \<le> ps_start best' \<and> ps_end best' \<le> limit \<and> clear_of (seen @ xs) (ps_start best') (ps_end best'))"
  using assms
proof (induction limit best from_port xs arbitrary: seen rule: free_loop.induct)
  case (2 limit best from_port x xs)
  show ?case
  proof (cases "ps_end x < from_port \<or> ps_start x > limit")
    case True
    then have "free_loop limit best from_port xs = (best', from')" using 2(3) by simp
    then show ?thesis using 2(1)[OF True, of "seen @ [x]"] 2(4-7) True by simp
  next
    case False
    let ?b = "consider_run best from_port (min (ps_start x - 1) limit)"
    let ?n = "if ps_end x + 1 > from_port then ps_end x + 1 else from_port"
    have l: "free_loop limit ?b ?n xs = (best', from')" using 2(3) False by simp
    have s: "sorted_wrt (\<lambda>a b. ps_start a \<le> ps_start b) xs" and le: "\<forall>y \<in> set xs. ps_start x \<le> ps_start y"
      using 2(4) by auto
    have seen: "\<forall>y \<in> set (seen @ [x]). ps_end y < ?n \<or> limit < ps_start y" using 2(6) False by auto
    have "ps_end ?b < ps_start ?b
       \<or> low \<le> ps_start ?b \<and> ps_end ?b \<le> limit \<and> clear_of ((seen @ [x]) @ xs) (ps_start ?b) (ps_end ?b)"
      using 2(5-7) le by (fastforce simp: consider_run_def clear_of_def)
    then show ?thesis using 2(2)[OF False l s _ seen] 2(5) by simp
  qed
qed auto

lemma free_loop_complete:
  assumes "free_loop limit best from_port xs = (best', from')"
    and "a \<le> b" and "b \<le> limit" and "clear_of xs a b" and "from_port \<le> a \<or> b - a \<le> ps_end best - ps_start best"
  shows "from' \<le> a \<or> b - a \<le> ps_end best' - ps_start best'"
  using assms
proof (induction limit best from_port xs rule: free_loop.induct)
  case (2 limit best from_port x xs)
  show ?case
  proof (cases "ps_end x < from_port \<or> ps_start x > limit")
    case True
    then show ?thesis using 2 by (simp add: clear_of_def)
  next
    case False
    let ?b = "consider_run best from_port (min (ps_start x - 1) limit)"
    let ?n = "if ps_end x + 1 > from_port then ps_end x + 1 else from_port"
    have l: "free_loop limit ?b ?n xs = (best', from')" using 2(3) False by simp
    have c: "clear_of xs a b" and x: "ps_end x < a \<or> b < ps_start x" using 2(6) by (auto simp: clear_of_def)
    have "?n \<le> a \<or> b - a \<le> ps_end ?b - ps_start ?b"
      using x 2(4,5,7) by (auto simp: consider_run_def)
    then show ?thesis using 2(2)[OF False l 2(4,5) c] by simp
  qed
qed simp

lemma parsed_spans_proper: "x \<in> set (parse_excluded_ports out) \<Longrightarrow> ps_start x \<le> ps_end x"
proof -
  have "exclusion_span l = Some x \<Longrightarrow> ps_start x \<le> ps_end x" for l
    by (auto simp: exclusion_span_def Let_def split: option.splits prod.splits if_splits)
  then show "x \<in> set (parse_excluded_ports out) \<Longrightarrow> ps_start x \<le> ps_end x"
    by (auto simp: parse_excluded_ports_def map_filter_def split: option.splits)
qed

lemma clear_of_ports:
  assumes "\<forall>x \<in> set xs. ps_start x \<le> ps_end x" and "a \<le> b"
  shows "clear_of xs a b \<longleftrightarrow> (\<forall>q. a \<le> q \<and> q \<le> b \<longrightarrow> (\<forall>x \<in> set xs. \<not> (ps_start x \<le> q \<and> q \<le> ps_end x)))"
proof
  assume r: "\<forall>q. a \<le> q \<and> q \<le> b \<longrightarrow> (\<forall>x \<in> set xs. \<not> (ps_start x \<le> q \<and> q \<le> ps_end x))"
  show "clear_of xs a b"
    unfolding clear_of_def
  proof
    fix x assume x: "x \<in> set xs"
    then show "ps_end x < a \<or> b < ps_start x"
      using r[rule_format, of "max a (ps_start x)" x] assms by force
  qed
qed (fastforce simp: clear_of_def)

lemma largest_free_run:
  fixes dyn :: port_span and out :: string
  defines "p \<equiv> \<lparr>pl_dynamic = dyn, pl_excluded = parse_excluded_ports out\<rparr>"
  shows "(ps_end (largest_free p) < ps_start (largest_free p) \<or> free_run p (ps_start (largest_free p)) (ps_end (largest_free p)))
     \<and> (\<forall>a b. a \<le> b \<and> free_run p a b \<longrightarrow> b - a \<le> ps_end (largest_free p) - ps_start (largest_free p))"
proof -
  let ?xs = "stable_sort_by (\<lambda>a b. ps_start a < ps_start b) (pl_excluded p)"
  have set_xs: "set ?xs = set (pl_excluded p)" using mset_stable_sort_by by (metis set_mset_mset)
  have sorted: "sorted_wrt (\<lambda>a b. ps_start a \<le> ps_start b) ?xs"
    using stable_sort_by_key[of "\<lambda>a b. ps_start a < ps_start b" ps_start "pl_excluded p"]
      sorted_sort_key[of ps_start "pl_excluded p"] by (simp add: sorted_map)
  obtain best from_port where l: "free_loop (ps_end dyn) no_run (ps_start dyn) ?xs = (best, from_port)" by fastforce
  have lf: "largest_free p = consider_run best from_port (ps_end dyn)"
    using l by (simp add: largest_free_def p_def)
  have sound: "ps_start dyn \<le> from_port" "\<forall>x \<in> set ?xs. ps_end x < from_port \<or> ps_end dyn < ps_start x"
    "ps_end best < ps_start best \<or> ps_start dyn \<le> ps_start best \<and> ps_end best \<le> ps_end dyn
       \<and> clear_of ?xs (ps_start best) (ps_end best)"
    using free_loop_sound[OF l sorted order_refl, of "[]"] by (auto simp: no_run_def)
  have proper: "\<forall>x \<in> set ?xs. ps_start x \<le> ps_end x" using set_xs parsed_spans_proper by (simp add: p_def)
  have free: "free_run p a b \<longleftrightarrow> ps_start dyn \<le> a \<and> b \<le> ps_end dyn \<and> clear_of ?xs a b" if "a \<le> b" for a b
    using clear_of_ports[OF proper that] set_xs by (simp add: free_run_def p_def)
  have "ps_end (largest_free p) < ps_start (largest_free p) \<or> free_run p (ps_start (largest_free p)) (ps_end (largest_free p))"
  proof (cases "ps_end dyn \<ge> from_port \<and> ps_end dyn - from_port > ps_end best - ps_start best")
    case True
    then have "largest_free p = \<lparr>ps_start = from_port, ps_end = ps_end dyn\<rparr>" by (simp add: lf consider_run_def)
    moreover have "clear_of ?xs from_port (ps_end dyn)" using sound(2) by (simp add: clear_of_def)
    ultimately show ?thesis using sound(1) True free by simp
  next
    case False
    then have "largest_free p = best" by (auto simp: lf consider_run_def)
    then show ?thesis using sound(3) free[of "ps_start best" "ps_end best"] by (cases "ps_start best \<le> ps_end best") auto
  qed
  moreover have "b - a \<le> ps_end (largest_free p) - ps_start (largest_free p)" if r: "a \<le> b" "free_run p a b" for a b
  proof -
    have "clear_of ?xs a b" "ps_start dyn \<le> a" "b \<le> ps_end dyn" using r free by simp_all
    then have "from_port \<le> a \<or> b - a \<le> ps_end best - ps_start best"
      using free_loop_complete[OF l r(1)] by auto
    then show ?thesis using \<open>b \<le> ps_end dyn\<close> r(1) by (auto simp: lf consider_run_def)
  qed
  ultimately show ?thesis by simp
qed

lemma run_is_free:
  "ps_start (largest_free \<lparr>pl_dynamic = dyn, pl_excluded = parse_excluded_ports out\<rparr>)
     \<le> ps_end (largest_free \<lparr>pl_dynamic = dyn, pl_excluded = parse_excluded_ports out\<rparr>) \<Longrightarrow>
   free_run \<lparr>pl_dynamic = dyn, pl_excluded = parse_excluded_ports out\<rparr>
     (ps_start (largest_free \<lparr>pl_dynamic = dyn, pl_excluded = parse_excluded_ports out\<rparr>))
     (ps_end (largest_free \<lparr>pl_dynamic = dyn, pl_excluded = parse_excluded_ports out\<rparr>))"
  using largest_free_run[of dyn out] by simp

lemma longest_run:
  "a \<le> b \<Longrightarrow> free_run \<lparr>pl_dynamic = dyn, pl_excluded = parse_excluded_ports out\<rparr> a b \<Longrightarrow>
   b - a \<le> ps_end (largest_free \<lparr>pl_dynamic = dyn, pl_excluded = parse_excluded_ports out\<rparr>)
          - ps_start (largest_free \<lparr>pl_dynamic = dyn, pl_excluded = parse_excluded_ports out\<rparr>)"
  using largest_free_run[of dyn out] by simp

text \<open>the longest free run of ports is one, and is the longest: of what \<open>netsh\<close> printed, whatever it
  is, the run found lies in the dynamic range and touches no exclusion, and no run with those properties
  is longer; where it is empty, there is none.\<close>

theorem largest_free_is_longest:
  fixes dyn :: port_span and out :: string
  shows "case (\<lparr>pl_dynamic = dyn, pl_excluded = parse_excluded_ports out\<rparr>) of p \<Rightarrow>
     (ps_end (largest_free p) < ps_start (largest_free p) \<or> free_run p (ps_start (largest_free p)) (ps_end (largest_free p)))
     \<and> (\<forall>a b. a \<le> b \<and> free_run p a b \<longrightarrow> b - a \<le> ps_end (largest_free p) - ps_start (largest_free p))"
  using largest_free_run by simp

text \<open>An exclusion in the middle of a small range: the longer side is found.\<close>

theorem largest_free_is_longest_witness:
  "80 - 20 \<le> ps_end (largest_free \<lparr>pl_dynamic = \<lparr>ps_start = 1, ps_end = 100\<rparr>,
       pl_excluded = parse_excluded_ports ''  11   19  *''\<rparr>)
     - ps_start (largest_free \<lparr>pl_dynamic = \<lparr>ps_start = 1, ps_end = 100\<rparr>,
       pl_excluded = parse_excluded_ports ''  11   19  *''\<rparr>)"
proof -
  have e: "parse_excluded_ports ''  11   19  *'' = [\<lparr>ps_start = 11, ps_end = 19\<rparr>]"
    by (simp add: parse_excluded_ports_def out_lines_def exclusion_span_def exclusion_line_def re_trim_def
        trim_left_def trim_right_def re_space_def is_digit_def atoi_lenient_def atoi_def digits_val_def digit_val_def
        newline_def carriage_return_def tab_char_def map_filter_def)
  have "free_run \<lparr>pl_dynamic = \<lparr>ps_start = 1, ps_end = 100\<rparr>, pl_excluded = parse_excluded_ports ''  11   19  *''\<rparr> 20 80"
    by (simp add: free_run_def e)
  then show ?thesis
    using largest_free_is_longest[of "\<lparr>ps_start = 1, ps_end = 100\<rparr>" "''  11   19  *''",
        THEN conjunct2, rule_format, of 20 80] by simp
qed

end
