(* ===== verification/ChecksHost.thy ===== *)
theory ChecksHost
  imports ChecksGuest HostMatch
begin

text \<open>
  The checks of the host: \<open>internal/probe/host\<close> (features, services, the hypervisor, the antivirus,
  plugins, the build, the COM class, the agent), \<open>internal/probe/net\<close> (networking mode, port ranges,
  DNS), \<open>internal/probe/perf\<close> (memory) and \<open>internal/probe/wslc\<close> (names in containers).
\<close>

definition service_of :: "snapshot \<Rightarrow> string \<Rightarrow> service option" where
  "service_of e name = find_service e name"

text \<open>A text with \<open>|\<close> for the backslash, and the marks of \<open>said\<close>.\<close>

definition said_path :: "string \<Rightarrow> string" where
  "said_path s = bs (said s)"

text \<open>\<open>%-12s\<close>; the width is in bytes, which is that of the names it is used for.\<close>

definition pad_to :: "nat \<Rightarrow> string \<Rightarrow> string" where
  "pad_to n s = s @ replicate (n - length s) (CHR '' '')"

section \<open>HST001\<close>

definition feature_text :: "int \<Rightarrow> string" where
  "feature_text n = (if n = 1 then ''enabled'' else if n = 2 then ''disabled'' else if n = 3 then ''absent''
     else ''not returned by WMI'')"

definition features_check :: "snapshot \<Rightarrow> result" where
  "features_check e =
     (let res = plain_result ''HST001'' ''Windows optional features''; h = sn_host e; f = hf_features h
      in if \<not> fd_ok f
         then (if fd_needs_elevation f then needs_elevation_result res ''optional feature state''
               else res StUnknown (1 / 10) (''could not read optional features via WMI: '' @ fd_err f))
         else let vmp = feature h ''VirtualMachinePlatform''; wslf = feature h ''Microsoft-Windows-Subsystem-Linux'';
                  detail = ''VirtualMachinePlatform: '' @ feature_text vmp @ [newline]
                    @ ''Microsoft-Windows-Subsystem-Linux: '' @ feature_text wslf @ [newline]
                    @ ''Microsoft-Hyper-V-All: '' @ feature_text (feature h ''Microsoft-Hyper-V-All'') @ '' (optional)''
              in if vmp = 0
                 then (res StUnknown (2 / 10) ''WMI did not report the VirtualMachinePlatform feature; state unknown'')
                      \<lparr>rs_detail := detail,
                       rs_fix_hint := ''re-run wslkit doctor check; or: dism.exe /online /get-featureinfo /featurename:VirtualMachinePlatform   (admin)''\<rparr>
                 else if vmp \<noteq> 1
                 then (res StFail (9 / 10) ''VirtualMachinePlatform is not enabled; WSL 2 cannot start a VM'')
                      \<lparr>rs_detail := detail @ [newline] @ ''This presents as: Wsl/Service/CreateInstance/CreateVm/HCS/HCS_E_HYPERV_NOT_INSTALLED or error 0x80370102.'',
                       rs_fix_hint := ''dism.exe /online /enable-feature /featurename:VirtualMachinePlatform /all /norestart   (admin, then reboot)'',
                       rs_refs := [''https://learn.microsoft.com/en-us/windows/wsl/troubleshooting'']\<rparr>
                 else if wslf \<noteq> 1 \<and> \<not> fd_ok (rt_version (sn_runtime e))
                 then (res StWarn (6 / 10) ''Microsoft-Windows-Subsystem-Linux feature is not enabled and no Store runtime found'')
                      \<lparr>rs_detail := detail, rs_fix_hint := ''wsl --install --no-distribution''\<rparr>
                 else (res StOK (7 / 10) ''VirtualMachinePlatform enabled'')\<lparr>rs_detail := detail\<rparr>)"

section \<open>HST002\<close>

definition wanted_services :: "snapshot \<Rightarrow> (string \<times> string \<times> bool) list" where
  "wanted_services e =
     [(''WSLService'', ''Store/MSI WSL runtime service'', fd_ok (rt_version (sn_runtime e))),
      (''LxssManager'', ''in-box WSL service (legacy)'', False),
      (''vmcompute'', ''Hyper-V Host Compute Service; creates the WSL VM'', True),
      (''HvHost'', ''Hyper-V host service'', True)]"

text \<open>A line of the report, and what is wrong.\<close>

definition service_line :: "snapshot \<Rightarrow> string \<times> string \<times> bool \<Rightarrow> string \<times> string list" where
  "service_line e rq =
     (case rq of (name, why, required) \<Rightarrow>
        (case service_of e name of
           Some s \<Rightarrow>
             if sv_exists s
             then (pad_to 12 name @ '' '' @ pad_to 8 (sv_state s) @ '' start='' @ sv_start_type s,
                   if required \<and> equal_fold (sv_start_type s) ''Disabled'' then [name @ '' is Disabled ('' @ why @ '')''] else [])
             else (pad_to 12 name @ '' missing'', if required then [name @ '' is missing ('' @ why @ '')''] else [])
         | None \<Rightarrow> (pad_to 12 name @ '' missing'', if required then [name @ '' is missing ('' @ why @ '')''] else [])))"

definition services_check :: "snapshot \<Rightarrow> result" where
  "services_check e =
     (let res = plain_result ''HST002'' ''WSL and Hyper-V services''; f = hf_services (sn_host e)
      in if \<not> fd_ok f then res StUnknown (1 / 10) (''could not query services: '' @ fd_err f)
         else let rows = map (service_line e) (wanted_services e);
                  ls = sort (map fst rows); fails = concat (map snd rows)
              in if fails \<noteq> []
                 then (res StFail (85 / 100) (hd fails))
                      \<lparr>rs_detail := join_with [newline] ls @ [newline, newline] @ join_with [newline] fails,
                       rs_fix_hint := ''sc.exe config <service> start= demand   (admin); if missing, repair with: wsl --install --no-distribution''\<rparr>
                 else (res StOK (6 / 10) ''WSL and Hyper-V services present and not disabled'')
                      \<lparr>rs_detail := join_with [newline] ls\<rparr>)"

section \<open>HST003\<close>

definition service_there :: "snapshot \<Rightarrow> string \<Rightarrow> bool" where
  "service_there e name = (case service_of e name of None \<Rightarrow> False | Some s \<Rightarrow> sv_exists s)"

definition virtualization_check :: "snapshot \<Rightarrow> result" where
  "virtualization_check e =
     (let res = plain_result ''HST003'' ''Hardware virtualization / hypervisor''; hv = hf_hypervisor_present (sn_host e)
      in if \<not> fd_ok hv then res StUnknown (1 / 10) (''could not determine hypervisor state: '' @ fd_err hv)
         else if fd_value hv then res StOK (7 / 10) ''Windows hypervisor is running (HypervisorPresent=true)''
         else (res StFail (9 / 10) ''No hypervisor is running; WSL 2 cannot start'')
              \<lparr>rs_detail := ''Win32_ComputerSystem.HypervisorPresent is false. Either virtualization (VT-x / AMD-V / SVM) is disabled in firmware, or the Windows hypervisor launch type is off, or a competing hypervisor (VMware, VirtualBox in non-Hyper-V mode) owns the CPU.''
                 @ [newline] @ said ''This presents as: error 0x80370102 `The virtual machine could not be started because a required feature is not installed`.''
                 @ (if service_there e ''vmx86'' then [newline] @ ''VMware driver service (vmx86) is present.'' else [])
                 @ (if service_there e ''VBoxSup'' then [newline] @ ''VirtualBox driver service (VBoxSup) is present.'' else []),
               rs_fix_hint := ''bcdedit /set hypervisorlaunchtype auto   (admin, reboot) and enable virtualization in firmware'',
               rs_refs := [''https://learn.microsoft.com/en-us/windows/wsl/troubleshooting#error-0x80370102-the-virtual-machine-could-not-be-started-because-a-required-feature-is-not-installed'']\<rparr>)"

section \<open>DEF001\<close>

definition defender_res :: "status \<Rightarrow> rat \<Rightarrow> string \<Rightarrow> result" where
  "defender_res = plain_result ''DEF001'' ''Windows Defender exclusions for WSL''"

definition unexcluded_processes :: "exclusions \<Rightarrow> string list" where
  "unexcluded_processes ex =
     filter (\<lambda>p. \<not> list_ex (\<lambda>v. equal_fold v p) (ex_processes ex)) [''vmmem'', ''vmmemWSL'', ''wslservice.exe'', ''wsl.exe'']"

text \<open>Of each disk that could be read: the distribution and the rule that covers it, or the path.\<close>

definition disk_cover :: "exclusions \<Rightarrow> string \<Rightarrow> distro \<Rightarrow> (string + string) list" where
  "disk_cover ex profile d =
     (if \<not> fd_ok (di_vhd d) then []
      else case excluded_by (vd_path (fd_value (di_vhd d))) ex profile of
             Some rule \<Rightarrow> [Inl (di_name d @ '' ('' @ rule @ '')'')]
           | None \<Rightarrow> [Inr (vd_path (fd_value (di_vhd d)))])"

definition covered_disks :: "exclusions \<Rightarrow> string \<Rightarrow> distro list \<Rightarrow> string list" where
  "covered_disks ex profile ds =
     List.map_filter (\<lambda>x. case x of Inl c \<Rightarrow> Some c | Inr m \<Rightarrow> None) (concat (map (disk_cover ex profile) ds))"

definition missing_disks :: "exclusions \<Rightarrow> string \<Rightarrow> distro list \<Rightarrow> string list" where
  "missing_disks ex profile ds =
     List.map_filter (\<lambda>x. case x of Inl c \<Rightarrow> None | Inr m \<Rightarrow> Some m) (concat (map (disk_cover ex profile) ds))"

definition indented :: "string list \<Rightarrow> string" where
  "indented xs = [newline] @ ''  '' @ join_with ([newline] @ ''  '') xs"

definition defender_check :: "snapshot \<Rightarrow> result" where
  "defender_check e =
     (let d = sn_defender e; ds = distro_list e
      in if fd_absent (df_present d) \<or> fd_ok (df_present d) \<and> \<not> fd_value (df_present d)
         then defender_res StSkipped 0 ''skipped: Microsoft Defender is not the active antivirus''
         else if fd_ok (df_realtime d) \<and> \<not> fd_value (df_realtime d)
         then defender_res StOK (5 / 10) ''Defender real-time protection is off; exclusions are moot''
         else if ds = [] then defender_res StSkipped 0 ''skipped: no distributions to protect''
         else if fd_needs_elevation (df_exclusions d)
         then (needs_elevation_result defender_res ''Defender exclusion list'')
              \<lparr>rs_summary := ''Defender real-time protection is on; exclusions cannot be verified without elevation'',
               rs_detail := format_uint (length ds) @ '' distro VHDX file(s) may be scanned on every write. Reading the exclusion list needs admin on this Windows build.'',
               rs_fix_id := ''defender''\<rparr>
         else if \<not> fd_ok (df_exclusions d)
         then defender_res StUnknown (1 / 10) (''could not read Defender exclusions: '' @ fd_err (df_exclusions d))
         else let ex = fd_value (df_exclusions d); profile = sn_user_profile e;
                  missing = missing_disks ex profile ds; covered = covered_disks ex profile ds;
                  procs = unexcluded_processes ex
              in if missing = []
                 then (defender_res StOK (6 / 10) ''All distro disks are excluded from Defender real-time scanning'')
                      \<lparr>rs_detail := (if covered \<noteq> [] then ''Excluded by:'' @ indented covered else [])
                         @ (if procs \<noteq> []
                            then (if covered \<noteq> [] then [newline] else []) @ ''Process exclusions not set for: ''
                                 @ join_with '', '' procs @ '' (optional)'' else [])\<rparr>
                 else (defender_res StWarn (55 / 100) (''Defender scans '' @ format_uint (length missing) @ '' WSL disk(s) on every write''))
                      \<lparr>rs_detail := ''No exclusion for:'' @ indented missing
                         @ (if procs \<noteq> [] then [newline] @ ''Process exclusions not set for: '' @ join_with '', '' procs else []),
                       rs_fix_id := ''defender'',
                       rs_fix_hint := ''wslkit doctor fix defender --apply     (from an elevated terminal; dry run without --apply)'',
                       rs_refs := [''https://github.com/microsoft/WSL/issues/8995'']\<rparr>)"

section \<open>PLG001\<close>

definition not_reg_text :: "plugin \<Rightarrow> bool" where
  "not_reg_text pl \<longleftrightarrow> pg_value_type pl \<noteq> [] \<and> pg_value_type pl \<noteq> ''REG_SZ'' \<and> pg_value_type pl \<noteq> ''REG_EXPAND_SZ''"

definition plugin_problem :: "plugin \<Rightarrow> string" where
  "plugin_problem pl =
     (if not_reg_text pl then ''registry value is '' @ pg_value_type pl @ '', not REG_SZ''
      else if pg_duplicate pl then ''same DLL as an earlier plugin value; duplicate skipped''
      else if \<not> pg_exists pl then ''DLL missing: '' @ pg_path pl
      else if pg_signature pl = ''unsigned'' then ''DLL is not Authenticode-signed; official WSL builds refuse to load it (TRUST_E_NOSIGNATURE)''
      else if pg_signature pl = ''bad_digest'' then ''DLL signature does not match the file (TRUST_E_BAD_DIGEST); the file was modified or corrupted''
      else if pg_signature pl = ''untrusted_root'' \<or> pg_signature pl = ''distrusted''
      then ''DLL signature chains to an untrusted root ('' @ pg_signature pl @ '')''
      else if pg_exports_err pl \<noteq> [] then said ''cannot read the DLL`s export table: '' @ pg_exports_err pl
      else if pg_exists pl \<and> pg_signature pl \<noteq> [] \<and> \<not> pg_entry_point pl
      then ''DLL does not export WSLPluginAPI_EntryPointV1; it is not a WSL plugin''
      else [])"

definition known_bad_plugin :: "snapshot \<Rightarrow> plugin \<Rightarrow> string" where
  "known_bad_plugin e pl =
     (if \<not> fd_ok (rt_version (sn_runtime e)) then []
      else let lower = to_lower (pg_name pl @ '' '' @ pg_path pl)
           in if contains lower ''mde'' \<or> contains lower ''defender'' \<or> contains lower ''sense''
              then (case parse_version (fd_value (rt_version (sn_runtime e))) of
                      None \<Rightarrow> []
                    | Some rt \<Rightarrow>
                        if version_less rt (Version 2 7 13 0)
                        then pg_name pl @ '' looks like the Defender for Endpoint plugin; WSL '' @ version_string rt
                             @ '' had a startup failure with it that 2.7.13 fixed (wsl --update)''
                        else [])
              else [])"

definition plugin_line :: "plugin \<Rightarrow> string" where
  "plugin_line pl =
     pad_to 28 (pg_name pl) @ '' '' @ pad_to 10 (pg_version pl) @ '' '' @ pg_path pl @ ''  ''
     @ (if plugin_problem pl = [] then ''ok'' else plugin_problem pl)"

definition plugin_fatal :: "plugin \<Rightarrow> string list" where
  "plugin_fatal pl =
     (if plugin_problem pl = [] \<or> not_reg_text pl \<or> pg_duplicate pl then []
      else [pg_name pl @ '': '' @ plugin_problem pl])"

definition plugin_warns :: "snapshot \<Rightarrow> plugin \<Rightarrow> string list" where
  "plugin_warns e pl =
     (if plugin_problem pl \<noteq> [] \<and> (not_reg_text pl \<or> pg_duplicate pl)
      then [pg_name pl @ '': '' @ plugin_problem pl @ '' (WSL skips it; the owning product will not work)''] else [])
     @ (if known_bad_plugin e pl \<noteq> [] then [known_bad_plugin e pl] else [])"

definition plugins_check :: "snapshot \<Rightarrow> result" where
  "plugins_check e =
     (let res = plain_result ''PLG001'' ''WSL host plugins''; f = sn_plugins e
      in if fd_absent f then res StOK (5 / 10) ''No WSL host plugins registered''
         else if \<not> fd_ok f then res StUnknown (1 / 10) (''could not read plugin registry: '' @ fd_err f)
         else if fd_value f = [] then res StOK (5 / 10) ''No WSL host plugins registered''
         else let pls = fd_value f; ls = map plugin_line pls; fatal = concat (map plugin_fatal pls);
                  warns = concat (map (plugin_warns e) pls)
              in if fatal \<noteq> []
                 then (res StFail (85 / 100) (hd fatal))
                      \<lparr>rs_detail := join_with [newline] ls @ [newline, newline] @ join_with [newline] (fatal @ warns) @ [newline]
                         @ said ''WSL reports a failed plugin as: ^A fatal error was returned by plugin `<name>`^ (or, for an outdated API, ^The plugin `<name>` requires a newer version of WSL. Please run: wsl.exe --update^). wslservice does not start until the plugin loads.'',
                       rs_fix_hint := bs ''reinstall or update the product that registered the plugin (Docker Desktop, Defender for Endpoint, ...), or remove its value under HKLM|SOFTWARE|Microsoft|Windows|CurrentVersion|Lxss|Plugins (admin)'',
                       rs_refs := [''https://github.com/microsoft/WSL/blob/master/src/windows/service/exe/PluginManager.cpp'']\<rparr>
                 else if warns \<noteq> []
                 then (res StWarn (5 / 10) (hd warns))
                      \<lparr>rs_detail := join_with [newline] ls @ [newline, newline] @ join_with [newline] warns,
                       rs_fix_hint := bs ''reinstall the owning product, or clean the value under HKLM|SOFTWARE|Microsoft|Windows|CurrentVersion|Lxss|Plugins (admin)''\<rparr>
                 else (res StOK (5 / 10) (format_uint (length pls) @ '' WSL host plugin(s) registered, all present, signed and exporting the entry point''))
                      \<lparr>rs_detail := join_with [newline] ls\<rparr>)"

section \<open>HST004 and HST005\<close>

definition build_line :: "os_build \<Rightarrow> string" where
  "build_line os =
     ''Windows '' @ format_int (ob_major os) @ ''.'' @ format_int (ob_minor os) @ ''.'' @ format_int (ob_build os) @ ''.''
     @ format_int (ob_ubr os) @ '' '' @ ob_display_version os @ '' '' @ ob_edition_id os"

definition build_check :: "snapshot \<Rightarrow> result" where
  "build_check e =
     (let res = plain_result ''HST004'' ''Windows build and pending reboot''; f = hf_os (sn_host e); os = fd_value f
      in if \<not> fd_collected f \<or> \<not> fd_ok f \<or> ob_build os = 0
         then res StUnknown (1 / 10) (''could not read the Windows version: '' @ fd_err f)
         else if ob_build os < 19041
         then (res StFail (9 / 10) (''Windows build '' @ format_int (ob_build os)
                 @ '' is too old for WSL 2 (needs 19041, Windows 10 version 2004)''))
              \<lparr>rs_detail := build_line os,
               rs_fix_hint := ''install Windows updates (Settings > Windows Update); WSL 2 requires build 19041 or later'',
               rs_refs := [''https://learn.microsoft.com/en-us/windows/wsl/install-manual'']\<rparr>
         else let pending = fd_ok (hf_pending_reboot (sn_host e)) \<and> fd_value (hf_pending_reboot (sn_host e));
                  ls = [build_line os]
                    @ (if pending then [''A reboot is pending (Component Based Servicing / Windows Update marker present).''] else [])
                    @ (if ob_build os < 22000
                       then [''Windows 10 left mainstream support on 2025-10-14. WSL 2.7.x still runs here, but mirrored networking, Hyper-V firewall and several [wsl2] keys need Windows 11.'']
                       else if ob_build os < 22621
                       then [''Windows 11 before 22H2: mirrored networking, dnsTunneling and firewall settings need build 22621 or later.''] else [])
              in if pending
                 then let fresh = \<not> fd_ok (rt_version (sn_runtime e)) \<or> distro_list e = []
                      in (res StWarn (if fresh then 6 / 10 else 45 / 100)
                            (if fresh then ''A reboot is pending; WSL refuses to install distributions until you reboot (WSL 2.6.1+)''
                             else ''A reboot is pending; enabled features (VirtualMachinePlatform, Hyper-V) do not take effect until then''))
                         \<lparr>rs_detail := join_with [newline] ls,
                          rs_fix_hint := ''shutdown /r /t 0     (reboot, then re-run wslkit doctor check)'',
                          rs_refs := [''https://github.com/microsoft/WSL/releases/tag/2.6.1'']\<rparr>
                 else (res StOK (5 / 10) (''Windows build '' @ format_int (ob_build os) @ '' supports WSL 2; no reboot pending''))
                      \<lparr>rs_detail := join_with [newline] ls\<rparr>)"

definition com_class_check :: "snapshot \<Rightarrow> result" where
  "com_class_check e =
     (let res = plain_result ''HST005'' ''WSL service COM registration''; rt = sn_runtime e; f = rt_com_class rt
      in if \<not> fd_collected f then res StSkipped 0 ''skipped: COM registration not collected (older snapshot)''
         else if \<not> fd_ok (rt_version rt) then res StSkipped 0 ''skipped: no Store/MSI runtime installed''
         else if \<not> fd_ok f then res StUnknown (1 / 10) (''could not read the CLSID key: '' @ fd_err f)
         else if fd_value f then res StOK (6 / 10) ''CLSID_LxssUserSession is registered for the installed runtime''
         else (res StFail (8 / 10) (''WSL '' @ fd_value (rt_version rt) @ '' is installed but its COM class is not registered''))
              \<lparr>rs_detail := bs ''HKCR|CLSID|{a9b7a1b9-0671-405c-95f1-e0612cb4ce7e} (CLSID_LxssUserSession) is missing. wsl.exe cannot reach wslservice and reports''
                 @ [newline] @ ''Error code: Wsl/CallMsi/REGDB_E_CLASSNOTREG or 0x80040154. Typical after a Windows feature update or an interrupted Store update.'',
               rs_fix_id := ''update'',
               rs_fix_hint := ''wsl --update      (re-registers the package; or repair Windows Subsystem for Linux in Settings > Apps)'',
               rs_refs := [''https://learn.microsoft.com/en-us/windows/wsl/troubleshooting#error-0x80040154-after-windows-update'']\<rparr>)"

section \<open>AGT001\<close>

text \<open>\<open>age\<close> prints how long ago the status was written.\<close>

definition agent_check :: "(int \<Rightarrow> string) \<Rightarrow> snapshot \<Rightarrow> result" where
  "agent_check age e =
     (let res = plain_result ''AGT001'' ''wslkit guest agent daemon''; f = sn_agent e
      in if \<not> fd_collected f then res StSkipped 0 ''skipped: agent status not collected (older snapshot)''
         else if fd_absent f then res StSkipped 0 ''skipped: the guest agent daemon has never run on this machine''
         else if \<not> fd_ok f then res StUnknown (1 / 10) (''could not read the agent status file: '' @ fd_err f)
         else let a = fd_value f; yn = (\<lambda>b. if b then ''true'' else ''false'');
                  detail = ''pid '' @ format_int (ai_pid a) @ '' alive='' @ yn (ai_alive a) @ '', version '' @ ai_version a
                    @ '', vm '' @ (if ai_vm_id a = [] then ''-'' else ai_vm_id a) @ '', '' @ format_int (ai_allowed_num a)
                    @ '' allowed target(s), autostart='' @ yn (ai_autostart a)
                    @ (if ai_last_error a \<noteq> [] then [newline] @ ''last error: '' @ ai_last_error a else [])
              in if \<not> ai_alive a
                 then (res StWarn (5 / 10) ''The wslkit agent daemon is not running; bridged sockets (ssh-agent, ...) will refuse connections'')
                      \<lparr>rs_detail := detail, rs_fix_hint := ''wslkit agent start      (wslkit agent autostart on to start it at logon)''\<rparr>
                 else if ai_guests a = []
                 then (res StWarn (4 / 10) ''The wslkit agent daemon is running but no distribution is connected'')
                      \<lparr>rs_detail := detail @ [newline] @ ''status last updated '' @ age (ai_updated_at a) @ '' ago'' @ [newline]
                         @ (if ai_vm_id a = [] then ''No running WSL VM was found: the daemon binds when a distro starts.''
                            else ''Inside the distro: systemctl status wslkit-agent   (install with: wslkit agent install -d <distro>)''),
                       rs_fix_hint := ''wslkit agent status; wslkit agent install -d <distro>''\<rparr>
                 else (res StOK (5 / 10) (''Agent daemon running; '' @ format_uint (length (ai_guests a)) @ '' guest(s) connected: ''
                         @ join_with '', '' (ai_guests a)))\<lparr>rs_detail := detail\<rparr>)"

section \<open>NET004\<close>

definition network_mode :: "snapshot \<Rightarrow> string \<times> bool \<times> bool" where
  "network_mode e =
     networking_mode (if fd_ok (cf_wslconfig (sn_config e)) then fd_value (cf_wslconfig (sn_config e)) else [])
       (if fd_ok (nf_policy (sn_net e)) then policy_value e ''DefaultNetworkingMode'' else [])"

definition net_runtime :: "snapshot \<Rightarrow> version option" where
  "net_runtime e =
     (if \<not> fd_ok (rt_version (sn_runtime e)) then None
      else case parse_version (fd_value (rt_version (sn_runtime e))) of
             None \<Rightarrow> None | Some v \<Rightarrow> if is_zero v then None else Some v)"

text \<open>The value of a flag and whether it is set, in the first of the two sections that has it.\<close>

definition flag_of :: "snapshot \<Rightarrow> string \<Rightarrow> bool \<times> bool" where
  "flag_of e key =
     (if \<not> fd_ok (cf_wslconfig (sn_config e)) then (False, False)
      else case List.map_filter (\<lambda>sec. get (config_of e) sec key) [''wsl2'', ''experimental''] of
             [] \<Rightarrow> (False, False)
           | v # _ \<Rightarrow> (case parse_bool v of Some b \<Rightarrow> (b, True) | None \<Rightarrow> (False, False)))"

definition fw_level :: "firewall_support \<Rightarrow> string" where
  "fw_level f =
     (if fw_disabled_by_registry f then ''disabled by registry''
      else if fw_v2 f then ''v2 (mirrored and NAT)'' else if fw_v1 f then ''v1 (mirrored only)'' else ''none'')"

definition adapter_names :: "adapter list \<Rightarrow> string" where
  "adapter_names as =
     join_with '', '' (map (\<lambda>a. ad_name a @ (if ad_description a \<noteq> [] \<and> \<not> equal_fold (ad_description a) (ad_name a)
                                         then '' / '' @ ad_description a else [])) as)"

definition mirrored_fails :: "snapshot \<Rightarrow> string list" where
  "mirrored_fails e =
     (let build = host_build e; v6 = hf_ipv6_disabled (sn_host e)
      in (if 0 < build \<and> build < 22621
          then [said ''mirrored networking needs Windows 11 22H2 (build 22621); this host is build '' @ format_int build
                @ said ''. WSL prints ^Mirrored networking mode is not supported^ and falls back to NAT''] else [])
         @ (if fd_ok v6 \<and> fd_value v6 = 0xFF
            then [bs ''IPv6 is disabled through the registry (Tcpip6|Parameters|DisabledComponents = 0xFF); WSL refuses mirrored mode on such hosts and falls back to NAT. Disabling IPv6 per adapter (Set-NetAdapterBinding) is fine''] else []))"

definition vpn_broken :: "snapshot \<Rightarrow> bool" where
  "vpn_broken e \<longleftrightarrow> fd_ok (nf_hotfixes (sn_net e)) \<and> map_of (fd_value (nf_hotfixes (sn_net e))) ''KB5068861'' = Some True"

definition mirrored_warns :: "snapshot \<Rightarrow> string list" where
  "mirrored_warns e =
     (let fw = nf_hyperv_firewall (sn_net e); vpns = vpn_adapters (sn_net e)
      in (if fd_ok fw \<and> \<not> fw_v1 (fd_value fw) \<and> \<not> fw_v2 (fd_value fw)
          then [''Hyper-V firewall is not available on this host, so firewall= is ignored and mirrored traffic is not filtered by Windows Firewall rules''] else [])
         @ (if fd_ok fw \<and> fw_disabled_by_registry (fd_value fw)
            then [bs ''Hyper-V firewall is disabled by MpsSvc|Parameters|HyperVFirewallDisable''] else [])
         @ (if vpns \<noteq> [] \<and> vpn_broken e
            then [''VPN adapter up ('' @ adapter_names vpns @ '') with KB5068861 installed: this update broke access to VPN resources from mirrored mode (microsoft/WSL#13724). Workarounds: uninstall the KB, or switch to NAT with dnsTunneling''] else []))"

definition mode_since :: "(string \<times> version) list" where
  "mode_since = [(''virtioproxy'', Version 2 9 0 0), (''consomme'', Version 2 9 3 0)]"

definition nat_warns :: "snapshot \<Rightarrow> string \<Rightarrow> string list" where
  "nat_warns e mode =
     (let fw = nf_hyperv_firewall (sn_net e)
      in (case (map_of mode_since mode, net_runtime e) of
            (Some since, Some rt) \<Rightarrow>
              if version_less rt since
              then [''networkingMode='' @ mode @ '' needs WSL '' @ version_string since @ '' or newer; WSL ''
                    @ version_string rt @ '' does not know it and uses NAT''] else []
          | _ \<Rightarrow> [])
         @ (if flag_of e ''firewall'' = (True, True) \<and> fd_ok fw \<and> \<not> fw_v2 (fd_value fw)
            then [''firewall=true with NAT needs the enterprise Hyper-V firewall (MSFT_NetFirewallHyperVProfile); this host only has ''
                  @ fw_level (fd_value fw) @ said '', so WSL prints ^Hyper-V firewall is not supported^''] else []))"

definition mode_warns :: "snapshot \<Rightarrow> string \<Rightarrow> string list" where
  "mode_warns e mode =
     (if mode = ''mirrored'' then mirrored_warns e
      else if mode = ''bridged'' then [''bridged networking is deprecated since WSL 2.4.5; use mirrored (Windows 11 22H2+) or NAT'']
      else if mode = ''none'' then [''networkingMode=none: the VM has no network at all (this is a deliberate setting, or a leftover from a failed mirrored configuration)'']
      else if mode \<in> {''nat'', ''consomme'', ''virtioproxy''} then nat_warns e mode
      else [''networkingMode='' @ go_quote mode @ '' is not a known value; WSL falls back to NAT''])"

definition mode_lines :: "snapshot \<Rightarrow> string list" where
  "mode_lines e =
     (case network_mode e of (mode, explicit, from_policy) \<Rightarrow>
        let fw = nf_hyperv_firewall (sn_net e); vpns = vpn_adapters (sn_net e)
        in [''networkingMode='' @ mode @ '' ('' @ (if from_policy then ''group policy (DefaultNetworkingMode); .wslconfig cannot override it''
              else if explicit then ''.wslconfig'' else ''default'') @ '')'']
           @ (if mode = ''mirrored'' \<and> vpns \<noteq> [] \<and> \<not> vpn_broken e
              then [''VPN adapter up: '' @ adapter_names vpns @ ''; if VPN resources are unreachable from WSL, see microsoft/WSL#13724 and #13454''] else [])
           @ (if fd_ok fw then [''Hyper-V firewall support: '' @ fw_level (fd_value fw)]
              else if fd_needs_elevation fw then [''Hyper-V firewall support: needs elevation to query''] else []))"

definition mirrored_check :: "snapshot \<Rightarrow> result" where
  "mirrored_check e =
     (let res = plain_result ''NET004'' ''Networking mode preconditions (mirrored, Hyper-V firewall)''
      in case network_mode e of (mode, explicit, from_policy) \<Rightarrow>
           let detail = join_with [newline] (mode_lines e);
               fails = (if mode = ''mirrored'' then mirrored_fails e else []);
               warns = (if from_policy then [''A policy sets DefaultNetworkingMode; whatever .wslconfig says, WSL uses '' @ mode] else [])
                       @ mode_warns e mode
           in if fails \<noteq> []
              then (res StFail (8 / 10) (hd fails))
                   \<lparr>rs_detail := detail @ [newline] @ join_with [newline] (fails @ warns), rs_fix_id := ''wslconfig'',
                    rs_fix_hint := ''set networkingMode=nat (or remove the key) in .wslconfig, then wsl --shutdown; or fix the listed precondition'',
                    rs_refs := [''https://github.com/microsoft/WSL/issues/10495'', ''https://learn.microsoft.com/en-us/windows/wsl/networking#mirrored-mode-networking'']\<rparr>
              else if warns \<noteq> []
              then (res StWarn (5 / 10) (hd warns))
                   \<lparr>rs_detail := detail @ [newline] @ join_with [newline] warns,
                    rs_fix_hint := ''review [wsl2] networkingMode / firewall in .wslconfig; wslkit doctor fix wslconfig comments out ignored keys'',
                    rs_refs := (if contains (hd warns) ''KB5068861'' then [''https://github.com/microsoft/WSL/issues/13724''] else [])\<rparr>
              else (res StOK (45 / 100) (''networkingMode='' @ mode @ '' and its host preconditions hold''))\<lparr>rs_detail := detail\<rparr>)"

section \<open>NET005\<close>

definition ports_wanted :: int where "ports_wanted = 4096"
definition ports_minimum :: int where "ports_minimum = 512"

definition run_size :: "port_span \<Rightarrow> int" where
  "run_size r = ps_end r - ps_start r + 1"

definition free_ports :: "snapshot \<Rightarrow> int" where
  "free_ports e =
     (let tcp = largest_free (fd_value (nf_tcp_ports (sn_net e))); udp = largest_free (fd_value (nf_udp_ports (sn_net e)))
      in if ps_end tcp < ps_start tcp \<or> ps_end udp < ps_start udp then 0 else min (run_size tcp) (run_size udp))"

definition retries_ports :: "snapshot \<Rightarrow> bool" where
  "retries_ports e \<longleftrightarrow> (case net_runtime e of None \<Rightarrow> False | Some rt \<Rightarrow> at_least rt (Version 3 0 4 0))"

definition ports_lines :: "snapshot \<Rightarrow> string list" where
  "ports_lines e =
     [describe_pool ''TCP'' (fd_value (nf_tcp_ports (sn_net e))) (largest_free (fd_value (nf_tcp_ports (sn_net e)))),
      describe_pool ''UDP'' (fd_value (nf_udp_ports (sn_net e))) (largest_free (fd_value (nf_udp_ports (sn_net e)))),
      said ''HNS`s choice of range is not documented: this measures the fragmentation the report in microsoft/WSL#41812 traced, and cannot see ports merely in use. If this is clear and mirrored mode still falls back, look there.'']"

definition ports_hint :: string where
  "ports_hint = ''the exclusions without an asterisk were added at runtime, by WinNAT and Hyper-V; the usual way to release them is net stop winnat then net start winnat from an elevated prompt, then wsl --shutdown and start WSL again''"

definition ports_check :: "snapshot \<Rightarrow> result" where
  "ports_check e =
     (let res = plain_result ''NET005'' ''Mirrored networking can reserve its port range'';
          mode = fst (network_mode e); tcp = nf_tcp_ports (sn_net e); udp = nf_udp_ports (sn_net e); free = free_ports e;
          refs = [''https://github.com/microsoft/WSL/issues/41812'', ''https://github.com/microsoft/WSL/pull/41880'']
      in if mode \<noteq> ''mirrored'' then res StSkipped 0 (''Only matters with networkingMode=mirrored; this host uses '' @ mode)
         else if \<not> fd_collected tcp \<or> \<not> fd_collected udp then res StSkipped 0 ''skipped: port ranges not collected (older snapshot)''
         else if \<not> fd_ok tcp then res StUnknown (1 / 10) (''could not read the port ranges: '' @ fd_err tcp)
         else if \<not> fd_ok udp then res StUnknown (1 / 10) (''could not read the port ranges: '' @ fd_err udp)
         else if free \<ge> ports_wanted
         then (res StOK (3 / 10) (''The dynamic port ranges have a free run of '' @ format_int free
                 @ '' ports; mirrored networking asks for '' @ format_int ports_wanted))
              \<lparr>rs_detail := join_with [newline] (ports_lines e)\<rparr>
         else if retries_ports e \<and> free \<ge> ports_minimum
         then (res StWarn (45 / 100) (''The longest free run of ports is '' @ format_int free
                 @ '': WSL falls back to a smaller range than the '' @ format_int ports_wanted @ '' it asks for''))
              \<lparr>rs_detail := join_with [newline] (ports_lines e @ [said ''WSL 3.0.4 and later halve the request until it fits, down to 512, and print ^Mirrored networking is using a smaller ephemeral port range^. Fewer ports means fewer connections the guest can open at once.'']),
               rs_fix_hint := ports_hint, rs_refs := refs\<rparr>
         else (res StFail (65 / 100) (''The longest free run of ports is '' @ format_int free @ '', short of the ''
                 @ format_int (if retries_ports e then ports_minimum else ports_wanted)
                 @ '' mirrored networking needs: it is likely to fail and leave the VM without network''))
              \<lparr>rs_detail := join_with [newline] (ports_lines e
                 @ [if retries_ports e
                    then said ''WSL 3.0.4 and later print ^Mirrored networking could not reserve the minimum contiguous range of 512 TCP and UDP ports^ and the configuration fails.''
                    else ''Up to WSL 3.0.3 the reservation is all or nothing: it fails with CreateInstance/CreateVm/ConfigureNetworking/0x8007054f and the VM starts with networkingMode=None.'']),
               rs_fix_hint := ports_hint, rs_refs := refs\<rparr>)"

section \<open>NET002\<close>

definition flag_text :: "bool \<Rightarrow> bool \<Rightarrow> string" where
  "flag_text on explicit = (if on then ''on'' else ''off'') @ (if explicit then [] else '' (default)'')"

definition tunnel_on :: "snapshot \<Rightarrow> bool" where
  "tunnel_on e \<longleftrightarrow>
     (case flag_of e ''dnsTunneling'' of (tunnel, explicit) \<Rightarrow> \<not> explicit \<or> tunnel)
     \<and> \<not> (0 < host_build e \<and> host_build e < 22621)"

definition dns_check :: "snapshot \<Rightarrow> result" where
  "dns_check e =
     (let res = plain_result ''NET002'' ''DNS and VPN interplay''; f = nf_adapters (sn_net e); vpns = vpn_adapters (sn_net e)
      in if \<not> fd_collected f then res StSkipped 0 ''skipped: adapters not collected (older snapshot)''
         else if \<not> fd_ok f then res StUnknown (1 / 10) (''could not enumerate adapters: '' @ fd_err f)
         else let mode = fst (network_mode e); up = filter (\<lambda>a. ad_up a \<and> \<not> ad_loopback a) (fd_value f);
                  ls = map (\<lambda>a. ad_name a @ '' (type '' @ format_uint (unat (ad_if_type a)) @ '')''
                               @ (if ad_vpn a then ''  [VPN]'' else []) @ '' DNS '' @ join_with '','' (ad_dns_servers a)) up
                       @ [''networkingMode='' @ mode @ '', dnsTunneling '' @ flag_text (tunnel_on e) (snd (flag_of e ''dnsTunneling''))]
              in if vpns \<noteq> [] \<and> mode = ''nat'' \<and> \<not> tunnel_on e
                 then (res StWarn (55 / 100) (''VPN adapter up ('' @ adapter_names vpns
                         @ said '') with NAT networking and DNS tunneling off: WSL`s DNS usually breaks on this combination''))
                      \<lparr>rs_detail := join_with [newline] ls @ [newline] @ ''In NAT mode the Linux resolver points at the WSL gateway; many VPN clients drop that traffic. DNS tunneling proxies queries through Windows instead (Windows 11 22H2+). For older hosts use wsl-vpnkit.'',
                       rs_fix_id := ''wslconfig'',
                       rs_fix_hint := ''add to .wslconfig: [wsl2] dnsTunneling=true   (Windows 11 22H2+), else https://github.com/sakai135/wsl-vpnkit'',
                       rs_refs := [''https://github.com/microsoft/WSL/issues/8365'', ''https://learn.microsoft.com/en-us/windows/wsl/troubleshooting#wsl-has-no-network-connectivity-once-connected-to-a-vpn'']\<rparr>
                 else if up = []
                 then (res StWarn (4 / 10) ''No network adapter is up on the host'')
                      \<lparr>rs_detail := join_with [newline] ls,
                       rs_fix_hint := ''connect the host to a network; WSL inherits its connectivity''\<rparr>
                 else (res StOK (4 / 10) (format_uint (length up) @ '' adapter(s) up, '' @ format_uint (length vpns) @ '' VPN''))
                      \<lparr>rs_detail := join_with [newline] ls\<rparr>)"

section \<open>MEM001\<close>

definition format_0 :: "f64 \<Rightarrow> string" where
  "format_0 x = (if x < 0 then ''-'' else []) @ format_uint (nat (round_half_even \<bar>x\<bar>))"

definition human :: "u64 \<Rightarrow> string" where
  "human b =
     (if 0x40000000 \<le> b then format_1 (to_f64 (to_f64 (of_nat (unat b)) / 0x40000000)) @ '' GB''
      else format_0 (to_f64 (to_f64 (of_nat (unat b)) / 0x100000)) @ '' MB'')"

text \<open>The cap and where it is from, or the value that is no size.\<close>

definition memory_cap :: "snapshot \<Rightarrow> string + u64 \<times> string" where
  "memory_cap e =
     (let half = (if fd_ok (hf_total_memory (sn_host e)) then fd_value (hf_total_memory (sn_host e)) div 2 else 0)
      in case (if fd_ok (cf_wslconfig (sn_config e)) then get (config_of e) ''wsl2'' ''memory'' else None) of
           None \<Rightarrow> Inr (half, ''default (50% of host RAM)'')
         | Some v \<Rightarrow>
             (case parse_wsl_size v of
                None \<Rightarrow> Inl v
              | Some n \<Rightarrow> Inr (if n = 0 then half else n, ''.wslconfig memory='' @ v)))"

definition memory_detail :: "snapshot \<Rightarrow> u64 \<Rightarrow> string \<Rightarrow> string" where
  "memory_detail e cap src =
     (let ws = pr_vmmem_working_set (sn_procs e); mem = hf_total_memory (sn_host e);
          reclaim = (if fd_ok (cf_wslconfig (sn_config e))
                     then (case get (config_of e) ''experimental'' ''autoMemoryReclaim'' of None \<Rightarrow> [] | Some v \<Rightarrow> v) else [])
      in ''Cap: '' @ human cap @ '' ('' @ src @ '')''
         @ (if fd_ok mem then [newline] @ ''Host RAM: '' @ human (fd_value mem) else [])
         @ (if fd_ok ws then [newline] @ pr_vmmem_name (sn_procs e) @ '' working set now: '' @ human (fd_value ws)
            else if fd_absent ws then [newline] @ ''WSL VM is not running''
            else if fd_needs_elevation ws then [newline] @ ''VM working set needs elevation to read'' else [])
         @ (if reclaim \<noteq> [] then [newline] @ ''autoMemoryReclaim='' @ reclaim else []))"

definition memory_check :: "snapshot \<Rightarrow> result" where
  "memory_check e =
     (let res = plain_result ''MEM001'' ''WSL VM memory cap vs host RAM''; mem = hf_total_memory (sn_host e);
          ws = pr_vmmem_working_set (sn_procs e)
      in case memory_cap e of
           Inl v \<Rightarrow>
             (res StWarn (5 / 10) (''.wslconfig memory='' @ go_quote v @ '' is not a valid size; WSL ignores it and uses the default''))
             \<lparr>rs_fix_id := ''wslconfig'', rs_fix_hint := ''use e.g. memory=4GB''\<rparr>
         | Inr (cap, src) \<Rightarrow>
             if fd_ok ws \<and> 0 < cap \<and> fd_value ws > cap * 9 div 10
             then (res StWarn (5 / 10) (''WSL VM is using '' @ human (fd_value ws) @ '' of its '' @ human cap @ '' cap''))
                  \<lparr>rs_detail := memory_detail e cap src @ [newline] @ ''Linux page cache counts against the cap and is not returned to Windows until the VM idles or autoMemoryReclaim runs.'',
                   rs_fix_id := ''wslconfig'',
                   rs_fix_hint := ''add to .wslconfig: [experimental] autoMemoryReclaim=gradual   or lower [wsl2] memory='',
                   rs_refs := [''https://github.com/microsoft/WSL/issues/4166'']\<rparr>
             else if fd_ok mem \<and> fd_value mem \<le> 0x200000000 \<and> take 7 src = ''default''
             then (res StWarn (3 / 10) (''Low-RAM host ('' @ human (fd_value mem) @ '') with the default cap of '' @ human cap))
                  \<lparr>rs_detail := memory_detail e cap src @ [newline] @ ''On small machines the 50% default leaves Windows starved when WSL fills its page cache.'',
                   rs_fix_id := ''wslconfig'',
                   rs_fix_hint := ''add to .wslconfig: [wsl2] memory=3GB and [experimental] autoMemoryReclaim=gradual''\<rparr>
             else (res StOK (4 / 10) (''VM memory cap '' @ human cap))\<lparr>rs_detail := memory_detail e cap src\<rparr>)"

section \<open>WSC001\<close>

definition answered :: "wslc_resolver \<Rightarrow> bool" where
  "answered r \<longleftrightarrow> wr_status r = ''NOERROR'' \<or> wr_status r = ''NXDOMAIN''"

text \<open>\<open>verdict\<close>: what is wrong, if something is.\<close>

definition session_verdict :: "wslc_session \<Rightarrow> string option" where
  "session_verdict s =
     (if ws_resolvers s = [] then Some (''session '' @ ws_name s @ '' gives containers no IPv4 resolver'')
      else if list_ex answered (ws_resolvers s) then None
      else Some (''in session '' @ ws_name s @ '', ''
             @ join_with '', '' (map (\<lambda>r. wr_addr r @ '' answers '' @ wr_status r) (ws_resolvers s))
             @ (if \<not> answered (ws_public s)
                then '', and '' @ wr_addr (ws_public s) @ '' does not answer either, so the session VM may have no network at all'' else [])))"

definition describe_session :: "wslc_session \<Rightarrow> string" where
  "describe_session s =
     ''session '' @ ws_name s @ '': containers get ''
     @ (if ws_resolvers s = [] then ''none'' else join_with '', '' (map (\<lambda>r. wr_addr r @ '' '' @ wr_status r) (ws_resolvers s)))
     @ ''; '' @ wr_addr (ws_public s) @ '' '' @ wr_status (ws_public s)"

definition public_addr :: "wslc_session list \<Rightarrow> string" where
  "public_addr ss = (case find (\<lambda>s. answered (ws_public s)) ss of None \<Rightarrow> ''1.1.1.1'' | Some s \<Rightarrow> wr_addr (ws_public s))"

definition public_of :: "wslc_session list \<Rightarrow> string" where
  "public_of ss =
     ''a public resolver'' @ (case find (\<lambda>s. wr_addr (ws_public s) \<noteq> []) ss of
                                None \<Rightarrow> [] | Some s \<Rightarrow> '' ('' @ wr_addr (ws_public s) @ '')'')"

definition wslc_check :: "snapshot \<Rightarrow> result" where
  "wslc_check e =
     (let res = plain_result ''WSC001'' ''wslc containers can resolve names''; f = sn_wslc e
      in if \<not> fd_collected f then res StSkipped 0 ''skipped: wslc was not checked (older snapshot)''
         else if fd_absent f then res StSkipped 0 ''skipped: wslc is not installed; it ships with the WSL 2.9 pre-releases''
         else if \<not> fd_ok f then res StUnknown (1 / 10) (''could not ask wslc about its sessions: '' @ fd_err f)
         else if wi_sessions (fd_value f) = []
         then res StSkipped 0 ''skipped: no wslc session exists yet, so there are no containers to check''
         else let ss = filter (\<lambda>s. ws_running s \<or> ws_err s \<noteq> []) (wi_sessions (fd_value f));
                  asked = filter (\<lambda>s. ws_err s = []) ss;
                  unknown = map (\<lambda>s. ws_name s @ '': '' @ ws_err s) (filter (\<lambda>s. ws_err s \<noteq> []) ss);
                  broken = List.map_filter session_verdict asked;
                  detail = join_with [newline] (map describe_session asked)
              in if ss = []
                 then (res StSkipped 0 ''skipped: no wslc session VM is running, and doctor does not start one'')
                      \<lparr>rs_detail := ''Testing a session means running a command in its VM, which would start it. Run doctor while a wslc container is up to check its DNS.''\<rparr>
                 else if broken \<noteq> []
                 then let r = (res StWarn (8 / 10) (''wslc containers cannot resolve names: '' @ join_with ''; '' broken))
                             \<lparr>rs_refs := [''https://github.com/wslkit/wslkit/blob/main/docs/research/2026-09-wslc-session.md'']\<rparr>
                      in if list_ex (\<lambda>s. answered (ws_public s)) ss
                         then r\<lparr>rs_detail := detail @ [newline, newline]
                                  @ said ''A container is given the session VM`s IPv4 resolvers, and those failed while '' @ public_of ss
                                  @ said '' answered from the same VM. On Windows 10 with WSL 2.9.12 this was measured as a SERVFAIL made on the PC itself: the query to the host`s resolver never reached the network card. Distributions, and Docker inside them, are not affected: they use WSL`s own DNS proxy.'',
                                rs_fix_hint := ''give the container a resolver that works: wslc run --dns '' @ public_addr ss @ '' ...''\<rparr>
                         else r\<lparr>rs_confidence := 5 / 10,
                                rs_detail := detail @ [newline, newline] @ ''No resolver answered from the session VM, not even a public one, so this looks like no network in the session VM rather than a DNS fault.'',
                                rs_fix_hint := said ''check the host`s own connection first; wslc`s VM shares it''\<rparr>
                 else if unknown \<noteq> []
                 then (res StUnknown (2 / 10) (''could not test DNS in '' @ join_with ''; '' unknown))\<lparr>rs_detail := detail\<rparr>
                 else (res StOK (6 / 10) (''DNS works for containers in '' @ format_uint (length ss) @ '' wslc session(s)''))
                      \<lparr>rs_detail := detail\<rparr>)"

section \<open>Two values that pass for good\<close>

text \<open>Where no disk of a distribution could be read, the antivirus is reported as excluding them all.\<close>

lemma unread_disks_pass_for_excluded:
  assumes "\<forall>d \<in> set (distro_list e). \<not> fd_ok (di_vhd d)" and "distro_list e \<noteq> []"
    and "fd_ok (df_present (sn_defender e))" and "fd_value (df_present (sn_defender e))"
    and "fd_ok (df_realtime (sn_defender e))" and "fd_value (df_realtime (sn_defender e))"
    and "fd_ok (df_exclusions (sn_defender e))"
  shows "rs_status (defender_check e) = StOK"
proof -
  have "concat (map (disk_cover ex profile) (distro_list e)) = []" for ex profile
    using assms(1) by (simp add: disk_cover_def)
  then have "missing_disks ex profile (distro_list e) = []" for ex profile by (simp add: missing_disks_def map_filter_def)
  then show ?thesis
    using assms(2-7) by (simp add: defender_check_def defender_res_def Let_def fd_ok_def fd_absent_def fd_needs_elevation_def)
qed

text \<open>A cap of 2 EiB makes \<open>cap * 9\<close> wrap around: a machine that uses a tenth of it and a
  little is warned.\<close>

lemma huge_cap_wraps:
  assumes "memory_cap e = Inr (0x2000000000000000, src)"
    and "fd_ok (pr_vmmem_working_set (sn_procs e))"
    and "fd_value (pr_vmmem_working_set (sn_procs e)) = 0x3333333333333334 div 16 + 1"
  shows "rs_status (memory_check e) = StWarn"
proof -
  have "(0x2000000000000000 :: u64) * 9 div 10 < 0x3333333333333334 div 16 + 1" by simp
  then show ?thesis using assms by (simp add: memory_check_def Let_def)
qed

text \<open>C16: mirrored networking is said to be able to reserve its ports exactly where it can: with mirrored
  mode and both port tables read, the check says OK when both protocols have a free run of the 4096 ports
  WSL asks for, and fails when one of them has no run of what the runtime takes at least, 512 from 3.0.4
  on and 4096 before.\<close>

theorem ports_check_tells_what_fits:
  assumes "fst (network_mode e) = ''mirrored''"
    and "fd_collected (nf_tcp_ports (sn_net e))" and "fd_collected (nf_udp_ports (sn_net e))"
    and "fd_ok (nf_tcp_ports (sn_net e))" and "fd_ok (nf_udp_ports (sn_net e))"
    and "fd_value (nf_tcp_ports (sn_net e)) = \<lparr>pl_dynamic = dyn1, pl_excluded = parse_excluded_ports out1\<rparr>"
    and "fd_value (nf_udp_ports (sn_net e)) = \<lparr>pl_dynamic = dyn2, pl_excluded = parse_excluded_ports out2\<rparr>"
  shows "(rs_status (ports_check e) = StOK \<longleftrightarrow>
            (\<forall>p \<in> {fd_value (nf_tcp_ports (sn_net e)), fd_value (nf_udp_ports (sn_net e))}.
               \<exists>a b. b - a + 1 = ports_wanted \<and> free_run p a b))
       \<and> (rs_status (ports_check e) = StFail \<longleftrightarrow>
            (\<exists>p \<in> {fd_value (nf_tcp_ports (sn_net e)), fd_value (nf_udp_ports (sn_net e))}.
               \<forall>a b. b - a + 1 = (if retries_ports e then ports_minimum else ports_wanted) \<longrightarrow> \<not> free_run p a b))"
proof -
  have fits: "(\<exists>a b. b - a + 1 = n \<and> free_run p a b) \<longleftrightarrow> n \<le> run_size (largest_free p)"
    if n: "0 < n" and p: "p = \<lparr>pl_dynamic = dyn, pl_excluded = parse_excluded_ports out\<rparr>" for n p dyn out
  proof
    assume "\<exists>a b. b - a + 1 = n \<and> free_run p a b"
    then obtain a b where ab: "b - a + 1 = n" "free_run p a b" by auto
    then have "b - a \<le> ps_end (largest_free p) - ps_start (largest_free p)"
      using longest_run[of a b dyn out] n p by simp
    then show "n \<le> run_size (largest_free p)" using ab(1) by (simp add: run_size_def)
  next
    assume le: "n \<le> run_size (largest_free p)"
    let ?a = "ps_start (largest_free p)"
    have "free_run p ?a (ps_end (largest_free p))"
      using run_is_free[of dyn out] le n p by (simp add: run_size_def)
    then have "free_run p ?a (?a + n - 1)" using le by (auto simp: free_run_def run_size_def)
    then show "\<exists>a b. b - a + 1 = n \<and> free_run p a b" by (metis add_diff_cancel_left' diff_add_cancel diff_diff_eq2)
  qed
  let ?t = "fd_value (nf_tcp_ports (sn_net e))"
  let ?u = "fd_value (nf_udp_ports (sn_net e))"
  have free: "n \<le> free_ports e \<longleftrightarrow> n \<le> run_size (largest_free ?t) \<and> n \<le> run_size (largest_free ?u)" if "0 < n" for n
    using that by (auto simp: free_ports_def Let_def run_size_def)
  have both: "n \<le> free_ports e \<longleftrightarrow> (\<forall>p \<in> {?t, ?u}. \<exists>a b. b - a + 1 = n \<and> free_run p a b)" if "0 < n" for n
    using free[OF that] fits[OF that assms(6)] fits[OF that assms(7)] by simp
  have pos: "0 < ports_wanted" "0 < ports_minimum" "ports_minimum \<le> ports_wanted"
    by (simp_all add: ports_wanted_def ports_minimum_def)
  have ok: "rs_status (ports_check e) = StOK \<longleftrightarrow> ports_wanted \<le> free_ports e"
    using assms(1-5) by (simp add: ports_check_def Let_def)
  have bad: "rs_status (ports_check e) = StFail \<longleftrightarrow>
      \<not> (if retries_ports e then ports_minimum else ports_wanted) \<le> free_ports e"
    using assms(1-5) pos(3) by (simp add: ports_check_def Let_def)
  have "0 < (if retries_ports e then ports_minimum else ports_wanted)" using pos by simp
  then show ?thesis unfolding ok bad both[OF pos(1)] using both by auto
qed

text \<open>A host in mirrored mode whose dynamic range has a hundred ports.\<close>

definition small_pool :: port_pool where
  "small_pool = \<lparr>pl_dynamic = \<lparr>ps_start = 1, ps_end = 100\<rparr>, pl_excluded = parse_excluded_ports []\<rparr>"

definition mirrored_snapshot :: snapshot where
  "mirrored_snapshot =
     zero_snapshot\<lparr>sn_net := zero_net_facts
       \<lparr>nf_tcp_ports := collected_value small_pool ''netsh'', nf_udp_ports := collected_value small_pool ''netsh'',
        nf_policy := collected_value [(''DefaultNetworkingMode'', ''mirrored'')] ''registry''\<rparr>\<rparr>"

theorem ports_check_tells_what_fits_witness:
  "rs_status (ports_check mirrored_snapshot) = StFail"
proof -
  have "to_lower (trim_space ''mirrored'') = ''mirrored''" and "trim_space ''mirrored'' \<noteq> []" by code_simp+
  then have mode: "fst (network_mode mirrored_snapshot) = ''mirrored''"
    by (simp add: network_mode_def mirrored_snapshot_def zero_snapshot_def zero_config_facts_def zero_value_def
        fd_ok_def collected_value_def policy_value_def networking_mode_def)
  have pools: "nf_tcp_ports (sn_net mirrored_snapshot) = collected_value small_pool ''netsh''"
      "nf_udp_ports (sn_net mirrored_snapshot) = collected_value small_pool ''netsh''"
    by (simp_all add: mirrored_snapshot_def zero_snapshot_def zero_net_facts_def)
  have ok: "fd_collected (collected_value small_pool ''netsh'')" "fd_ok (collected_value small_pool ''netsh'')"
    "fd_value (collected_value small_pool ''netsh'') = small_pool"
    by (simp_all add: fd_collected_def fd_ok_def collected_value_def)
  have none: "\<not> free_run small_pool a b" if "b - a + 1 = (if r then ports_minimum else ports_wanted)" for a b r
    using that by (simp add: free_run_def small_pool_def ports_minimum_def ports_wanted_def split: if_splits)
  have "rs_status (ports_check mirrored_snapshot) = StFail \<longleftrightarrow>
      (\<exists>p \<in> {small_pool, small_pool}.
         \<forall>a b. b - a + 1 = (if retries_ports mirrored_snapshot then ports_minimum else ports_wanted)
           \<longrightarrow> \<not> free_run p a b)"
    by (rule conjunct2[OF ports_check_tells_what_fits[OF mode, unfolded pools ok(3), OF ok(1) ok(1) ok(2) ok(2)
          small_pool_def small_pool_def]])
  then show ?thesis using none by blast
qed

end
