(* ===== verification/Limit.thy ===== *)
theory Limit
  imports GuestShell GoFloat
begin

text \<open>
  \<open>internal/limit\<close>: limits of one distribution, as writes to the control files of its cgroup.
  \<open>limit.go\<close> says what to write and how to show what is there; \<open>apply.go\<close> has the script that
  writes it, run by a runner that is a parameter. The last section runs the script on a model of a
  guest with a cgroup, whose kernel takes a value, as it is or rounded, or refuses it.
\<close>

section \<open>What to write\<close>

record limits =
  lm_memory_max :: u64
  lm_memory_high :: u64
  lm_cpus :: f64
  lm_swap :: u64
  lm_swap_off :: bool

definition no_limits :: "limits \<Rightarrow> bool" where
  "no_limits l \<longleftrightarrow> lm_memory_max l = 0 \<and> lm_memory_high l = 0 \<and> lm_cpus l = 0 \<and> lm_swap l = 0 \<and> \<not> lm_swap_off l"

definition cpu_period :: int where "cpu_period = 100000"

record cgroup_write =
  wr_file :: string
  wr_value :: string
  wr_why :: string

text \<open>The conversion to \<open>int64\<close> cuts towards zero; out of range it is what amd64 makes of it.\<close>

definition trunc_int64 :: "f64 \<Rightarrow> int" where
  "trunc_int64 x =
     (let t = (if x < 0 then - \<lfloor>- x\<rfloor> else \<lfloor>x\<rfloor>)
      in if - (2 ^ 63) \<le> t \<and> t < 2 ^ 63 then t else - (2 ^ 63))"

text \<open>\<open>%.2g\<close>: two significant digits, rounded to even, without trailing zeros; the exponent form where
  the exponent is small or does not fit the digits.\<close>

function first_scale :: "rat \<Rightarrow> nat \<Rightarrow> nat" where
  "first_scale a k = (if 400 \<le> k \<or> 1 \<le> a * 10 ^ k then k else first_scale a (Suc k))"
  by pat_completeness auto
termination by (relation "measure (\<lambda>(a, k). 400 - k)") auto

declare first_scale.simps [simp del]

definition decimal_exponent :: "rat \<Rightarrow> int" where
  "decimal_exponent a =
     (if 1 \<le> a then int (length (digits10 (nat \<lfloor>a\<rfloor>))) - 1 else - int (first_scale a 0))"

definition two_significant :: "f64 \<Rightarrow> string" where
  "two_significant x =
     (if x = 0 then ''0''
      else let a = \<bar>x\<bar>; e0 = decimal_exponent a; m0 = nat (round_half_even (a / pow10 (e0 - 1)));
               m = (if m0 = 100 then 10 else m0); e = (if m0 = 100 then e0 + 1 else e0);
               d = (if m mod 10 = 0 then format_uint (m div 10) else format_uint m);
               eprec = (if length d = 1 \<and> e \<le> 0 then 1 else 2)
           in (if x < 0 then ''-'' else [])
              @ (if e < - 4 \<or> eprec \<le> e
                 then hd d # (if tl d = [] then [] else ''.'' @ tl d) @ ''e''
                      @ (if e < 0 then ''-'' else ''+'') @ zero_pad 2 (format_uint (nat \<bar>e\<bar>))
                 else if e < 0 then ''0.'' @ replicate (nat (- e) - 1) (CHR ''0'') @ d
                 else if e = 0 then hd d # (if tl d = [] then [] else ''.'' @ tl d)
                 else format_uint m))"

definition cpu_text :: "f64 \<Rightarrow> string" where
  "cpu_text cpus =
     (if cpus = to_f64 (of_int (trunc_int64 cpus))
      then (if trunc_int64 cpus = 1 then ''1 processor'' else format_int (trunc_int64 cpus) @ '' processors'')
      else two_significant cpus @ '' processors'')"

definition cpu_quota :: "f64 \<Rightarrow> int" where
  "cpu_quota cpus = max 1000 (trunc_int64 (to_f64 (cpus * of_int cpu_period)))"

definition limit_plan :: "limits \<Rightarrow> cgroup_write list" where
  "limit_plan l =
     (if 0 < lm_memory_high l
      then [\<lparr>wr_file = ''memory.high'', wr_value = format_uint (unat (lm_memory_high l)),
             wr_why = ''throttle: past this the kernel reclaims hard and the distribution slows down''\<rparr>] else [])
     @ (if 0 < lm_memory_max l
        then [\<lparr>wr_file = ''memory.max'', wr_value = format_uint (unat (lm_memory_max l)),
               wr_why = ''ceiling: past this the kernel kills a process inside the distribution''\<rparr>] else [])
     @ (if lm_swap_off l
        then [\<lparr>wr_file = ''memory.swap.max'', wr_value = ''0'', wr_why = ''no swap for this distribution''\<rparr>]
        else if 0 < lm_swap l
        then [\<lparr>wr_file = ''memory.swap.max'', wr_value = format_uint (unat (lm_swap l)),
               wr_why = ''swap ceiling''\<rparr>] else [])
     @ (if 0 < lm_cpus l
        then [\<lparr>wr_file = ''cpu.max'', wr_value = format_int (cpu_quota (lm_cpus l)) @ '' '' @ format_int cpu_period,
               wr_why = cpu_text (lm_cpus l) @ '' of processor time per '' @ format_int (quot cpu_period 1000)
                        @ ''ms window''\<rparr>] else [])"

definition clear :: "cgroup_write list" where
  "clear =
     [\<lparr>wr_file = ''memory.max'', wr_value = ''max'', wr_why = ''no ceiling''\<rparr>,
      \<lparr>wr_file = ''memory.high'', wr_value = ''max'', wr_why = ''no throttle''\<rparr>,
      \<lparr>wr_file = ''memory.swap.max'', wr_value = ''max'', wr_why = ''no swap ceiling''\<rparr>,
      \<lparr>wr_file = ''cpu.max'', wr_value = ''max '' @ format_int cpu_period, wr_why = ''no processor limit''\<rparr>]"

section \<open>What is there\<close>

record cgroup_state =
  cg_node :: string
  cg_memory_max :: string
  cg_memory_high :: string
  cg_swap_max :: string
  cg_cpu_max :: string
  cg_memory_current :: u64
  cg_namespaced :: bool
  cg_writable :: bool

definition no_cgroup_state :: cgroup_state where
  "no_cgroup_state =
     \<lparr>cg_node = [], cg_memory_max = [], cg_memory_high = [], cg_swap_max = [], cg_cpu_max = [],
      cg_memory_current = 0, cg_namespaced = False, cg_writable = False\<rparr>"

definition unlimited :: "string \<Rightarrow> bool" where
  "unlimited v \<longleftrightarrow> v = [] \<or> v = ''max''"

text \<open>The loop of \<open>FormatBytes\<close>: how often the unit grows.\<close>

function unit_loop :: "nat \<Rightarrow> nat \<Rightarrow> nat" where
  "unit_loop n e = (if 1024 \<le> n \<and> e < 4 then unit_loop (n div 1024) (Suc e) else e)"
  by pat_completeness auto
termination by (relation "measure (\<lambda>(n, e). 4 - e)") auto

declare unit_loop.simps [simp del]

definition format_bytes :: "u64 \<Rightarrow> string" where
  "format_bytes b =
     (if unat b < 1024 then format_uint (unat b) @ '' B''
      else let e = unit_loop (unat b div 1024) 0
           in format_1 (to_f64 (to_f64 (of_nat (unat b)) / 1024 ^ Suc e)) @ '' '' @ [''KMGTP'' ! e] @ ''iB'')"

definition format_limit :: "string \<Rightarrow> string" where
  "format_limit v =
     (if unlimited v then ''unlimited''
      else case parse_uint 64 v of Some n \<Rightarrow> format_bytes (of_nat n) | None \<Rightarrow> v)"

definition format_cpu_max :: "string \<Rightarrow> string" where
  "format_cpu_max v =
     (case GoStd.fields v of
        [] \<Rightarrow> ''unlimited''
      | q # rest \<Rightarrow>
          if q = ''max'' then ''unlimited''
          else (let period = (case rest of [] \<Rightarrow> cpu_period
                              | p # _ \<Rightarrow> (case atoi p of Some n \<Rightarrow> if n > 0 then n else cpu_period | None \<Rightarrow> cpu_period))
                in case atoi q of
                     None \<Rightarrow> v
                   | Some quota \<Rightarrow> cpu_text (to_f64 (to_f64 (of_int quota) / to_f64 (of_int period)))))"

text \<open>The error of \<open>CheckAgainstUsage\<close>: the node, what it uses and the ceiling.\<close>

definition check_against_usage :: "limits \<Rightarrow> cgroup_state \<Rightarrow> (string \<times> string \<times> string) option" where
  "check_against_usage l c =
     (if lm_memory_max l = 0 \<or> cg_memory_current c = 0 then None
      else if lm_memory_max l < cg_memory_current c
      then Some (cg_node c, format_bytes (cg_memory_current c), format_bytes (lm_memory_max l))
      else None)"

section \<open>The scripts\<close>

text \<open>The lines of the scripts, with \<open>~\<close> for the double quote, \<open>?\<close> for the single one and \<open>`\<close> for the
  backslash.\<close>

definition shell_text :: "string list \<Rightarrow> string" where
  "shell_text ls =
     concat (map (\<lambda>l. replace_char (CHR ''~'') (CHR 0x22) (replace_char (CHR ''?'') (CHR 0x27)
       (replace_char (CHR 0x60) (CHR 0x5C) l)) @ [newline]) ls)"

definition find_node :: string where
  "find_node = shell_text
    [''node=$(awk -F: ?{print $3}? /proc/self/cgroup 2>/dev/null | head -1)'',
     ''case ~$node~ in'',
     ''  /wsl-user/distro-*) ;;'',
     ''  *) node=$(awk -F: ?{print $3}? /proc/1/cgroup 2>/dev/null | head -1) ;;'',
     ''esac'',
     ''node=$(echo ~$node~ | sed -n ?s,^`(/wsl-user/distro-[0-9]*`).*,`1,p?)'',
     ''dir=~/sys/fs/cgroup$node~'',
     ''enter=~~'',
     ''namespaced=no'',
     ''if [ -z ~$node~ ] && [ -r /sys/fs/cgroup/memory.current ]; then'',
     ''  dir=/sys/fs/cgroup'',
     ''  node=/'',
     ''  namespaced=yes'',
     ''  self=$(readlink /proc/self/ns/cgroup)'',
     ''  outside=~~'',
     ''  p=$$'',
     ''  while [ -n ~$p~ ] && [ ~$p~ -ge 1 ]; do'',
     ''    if [ ~$(readlink ~/proc/$p/ns/cgroup~ 2>/dev/null)~ != ~$self~ ]; then'',
     ''      outside=$p'',
     ''      break'',
     ''    fi'',
     ''    [ ~$p~ -eq 1 ] && break'',
     ''    p=$(awk ?/^PPid:/{print $2}? ~/proc/$p/status~ 2>/dev/null)'',
     ''  done'',
     ''  # Tried rather than looked for: busybox has an nsenter without -C.'',
     ''  if [ -n ~$outside~ ] && nsenter -t ~$outside~ -C -- true >/dev/null 2>&1; then'',
     ''    enter=~nsenter -t $outside -C --~'',
     ''    n=$($enter awk -F: ?{print $3}? /proc/self/cgroup 2>/dev/null | head -1 | sed -n ?s,^`(/wsl-user/distro-[0-9]*`).*,`1,p?)'',
     ''    [ -n ~$n~ ] && node=$n'',
     ''  else'',
     ''    enter=none'',
     ''  fi'',
     ''fi'']"

definition limit_read_script :: string where
  "limit_read_script = find_node @ shell_text
    [''if [ -z ~$node~ ]; then'',
     ''  echo ~node=~'',
     ''  exit 0'',
     ''fi'',
     ''echo ~node=$node~'',
     ''echo ~namespaced=$namespaced~'',
     ''echo ~writable=$([ ~$enter~ = none ] && echo no || echo yes)~'',
     ''echo ~memory_max=$(cat ~$dir/memory.max~ 2>/dev/null)~'',
     ''echo ~memory_high=$(cat ~$dir/memory.high~ 2>/dev/null)~'',
     ''echo ~swap_max=$(cat ~$dir/memory.swap.max~ 2>/dev/null)~'',
     ''echo ~cpu_max=$(cat ~$dir/cpu.max~ 2>/dev/null)~'',
     ''echo ~memory_current=$(cat ~$dir/memory.current~ 2>/dev/null)~'']"

definition write_prelude :: string where
  "write_prelude = shell_text
    [''if [ -z ~$node~ ]; then'',
     ''  echo ~no per-distribution cgroup~ >&2'',
     ''  exit 2'',
     ''fi'',
     ''if [ ~$enter~ = none ]; then'',
     ''  echo ~no-nsenter~ >&2'',
     ''  exit 3'',
     ''fi'',
     ''w() { $enter sh -c ?printf ~%s~ ~$1~ > ~$2~? w ~$2~ ~$dir/$1~; }'']"

definition write_line :: "cgroup_write \<Rightarrow> string" where
  "write_line w =
     ''w '' @ wr_file w @ '' '' @ shell_quote (wr_value w) @ '' || { echo '' @ [CHR 0x22] @ ''failed: ''
     @ wr_file w @ [CHR 0x22] @ '' >&2; exit 1; }''"

definition limit_script :: "cgroup_write list \<Rightarrow> string" where
  "limit_script ws =
     find_node @ write_prelude @ concat (map (\<lambda>w. write_line w @ [newline]) ws) @ ''echo applied'' @ [newline]"

section \<open>Reading and applying\<close>

datatype limit_error =
    ReadFailed string string string
  | NoCgroup string
  | NoNsenter string
  | ApplyFailed string string string
  | NotConfirmed string string

text \<open>A runner runs a script in a distribution, with a timeout in nanoseconds, and gives its output and
  its error; \<open>'g\<close> is the state of the guest.\<close>

type_synonym 'g limit_runner = "string \<Rightarrow> string \<Rightarrow> int \<Rightarrow> 'g \<Rightarrow> (string \<times> string option) \<times> 'g"

definition limit_timeout :: "int \<Rightarrow> int" where
  "limit_timeout t = (if t \<le> 0 then 30 * second_ns else t)"

text \<open>\<open>ParseUint\<close> without its error: the largest value where the number is out of range, else 0.\<close>

definition parse_uint_lenient :: "string \<Rightarrow> u64" where
  "parse_uint_lenient s =
     (case parse_uint 64 s of Some n \<Rightarrow> of_nat n
      | None \<Rightarrow> if s \<noteq> [] \<and> list_all is_digit s then - 1 else 0)"

definition read_field :: "cgroup_state \<Rightarrow> string \<Rightarrow> cgroup_state" where
  "read_field c line =
     (case cut_byte (CHR ''='') (trim_space line) of
        (k, v, found) \<Rightarrow>
          if \<not> found then c
          else if k = ''node'' then c\<lparr>cg_node := v\<rparr>
          else if k = ''memory_max'' then c\<lparr>cg_memory_max := v\<rparr>
          else if k = ''memory_high'' then c\<lparr>cg_memory_high := v\<rparr>
          else if k = ''swap_max'' then c\<lparr>cg_swap_max := v\<rparr>
          else if k = ''cpu_max'' then c\<lparr>cg_cpu_max := v\<rparr>
          else if k = ''memory_current'' then c\<lparr>cg_memory_current := parse_uint_lenient v\<rparr>
          else if k = ''namespaced'' then c\<lparr>cg_namespaced := v = ''yes''\<rparr>
          else if k = ''writable'' then c\<lparr>cg_writable := v = ''yes''\<rparr>
          else c)"

definition parse_cgroup :: "string \<Rightarrow> cgroup_state" where
  "parse_cgroup out = foldl read_field no_cgroup_state (split_on newline (crlf_to_lf out))"

definition read_limits :: "'g limit_runner \<Rightarrow> string \<Rightarrow> int \<Rightarrow> 'g \<Rightarrow> (limit_error + cgroup_state) \<times> 'g" where
  "read_limits run distro timeout g =
     (case run distro limit_read_script (limit_timeout timeout) g of
        ((out, Some err), g') \<Rightarrow> (Inl (ReadFailed distro err (trim_space out)), g')
      | ((out, None), g') \<Rightarrow>
          (let c = parse_cgroup out in (if cg_node c = [] then Inl (NoCgroup distro) else Inr c), g'))"

definition apply_limits :: "'g limit_runner \<Rightarrow> string \<Rightarrow> cgroup_write list \<Rightarrow> int \<Rightarrow> 'g \<Rightarrow> limit_error option \<times> 'g" where
  "apply_limits run distro ws timeout g =
     (if ws = [] then (None, g)
      else case run distro (limit_script ws) (limit_timeout timeout) g of
             ((out, Some err), g') \<Rightarrow>
               (Some (if contains out ''no-nsenter'' then NoNsenter distro
                      else ApplyFailed distro err (trim_space out)), g')
           | ((out, None), g') \<Rightarrow>
               (if \<not> contains out ''applied'' then Some (NotConfirmed distro (trim_space out)) else None, g'))"

section \<open>A guest with a cgroup\<close>

text \<open>Whether there is a node, whether writes reach it, and its control files. The kernel takes a value
  for a file, and then has the value it made of it, or refuses.\<close>

record limit_guest =
  lg_present :: bool
  lg_enters :: bool
  lg_files :: "string \<Rightarrow> string option"

type_synonym cgroup_kernel = "string \<Rightarrow> string \<Rightarrow> string option"

text \<open>The lines after the prelude, by their first words: a write that stops the script where it fails, and
  the confirmation.\<close>

fun run_writes :: "cgroup_kernel \<Rightarrow> string list \<Rightarrow> (string \<Rightarrow> string option) \<Rightarrow>
    (string \<times> string option) \<times> (string \<Rightarrow> string option)" where
  "run_writes kw [] fs = (([], None), fs)"
| "run_writes kw (l # ls) fs =
     (case words_of l of
        [] \<Rightarrow> run_writes kw ls fs
      | c # args \<Rightarrow>
          if c = ''w'' \<and> 2 \<le> length args
          then (case kw (args ! 0) (args ! 1) of
                  None \<Rightarrow> ((''failed: '' @ args ! 0 @ [newline], Some ''exit status 1''), fs)
                | Some v \<Rightarrow> run_writes kw ls (fs(args ! 0 := Some v)))
          else if c = ''echo''
          then (case run_writes kw ls fs of
                  ((out, err), fs') \<Rightarrow> ((join_with '' '' args @ [newline] @ out, err), fs'))
          else ((c @ '': not found'' @ [newline], Some ''exit status 127''), fs))"

definition guest_runner :: "cgroup_kernel \<Rightarrow> limit_guest limit_runner" where
  "guest_runner kw distro script timeout g =
     (let pre = find_node @ write_prelude
      in if \<not> has_prefix script pre then (([], Some ''exit status 127''), g)
         else if \<not> lg_present g then ((''no per-distribution cgroup'' @ [newline], Some ''exit status 2''), g)
         else if \<not> lg_enters g then ((''no-nsenter'' @ [newline], Some ''exit status 3''), g)
         else case run_writes kw (split_on newline (drop (length pre) script)) (lg_files g) of
                (r, fs) \<Rightarrow> (r, g\<lparr>lg_files := fs\<rparr>))"

text \<open>The writes without the script.\<close>

fun do_writes :: "cgroup_kernel \<Rightarrow> cgroup_write list \<Rightarrow> (string \<Rightarrow> string option) \<Rightarrow> bool \<times> (string \<Rightarrow> string option)" where
  "do_writes kw [] fs = (True, fs)"
| "do_writes kw (w # ws) fs =
     (case kw (wr_file w) (wr_value w) of
        None \<Rightarrow> (False, fs)
      | Some v \<Rightarrow> do_writes kw ws (fs(wr_file w := Some v)))"

lemma do_writes_other: "f \<notin> wr_file ` set ws \<Longrightarrow> snd (do_writes kw ws fs) f = fs f"
  by (induction ws arbitrary: fs) (auto split: option.split)

lemma do_writes_done:
  "distinct (map wr_file ws) \<Longrightarrow> fst (do_writes kw ws fs) \<Longrightarrow> w \<in> set ws \<Longrightarrow>
   kw (wr_file w) (wr_value w) \<noteq> None \<and> snd (do_writes kw ws fs) (wr_file w) = kw (wr_file w) (wr_value w)"
proof (induction ws arbitrary: fs)
  case (Cons x ws)
  then obtain v where v: "kw (wr_file x) (wr_value x) = Some v" by (auto split: option.splits)
  show ?case
  proof (cases "w \<in> set ws")
    case True
    then show ?thesis using Cons v by simp
  next
    case False
    then have "w = x" using Cons.prems by simp
    then show ?thesis using Cons.prems v do_writes_other[of "wr_file x" ws] by simp
  qed
qed simp

definition plain_word :: "string \<Rightarrow> bool" where
  "plain_word m \<longleftrightarrow> m \<noteq> [] \<and> set m \<inter> {CHR 0x27, CHR 0x5C, CHR '' '', newline} = {}"

lemma shell_words_word:
  "plain_word m \<Longrightarrow> shell_words False cur st (m @ CHR '' '' # s) = (cur @ m) # shell_words False [] False s"
proof (induction m arbitrary: cur st)
  case (Cons c m)
  then have "c \<noteq> CHR 0x27" "c \<noteq> CHR 0x5C" "c \<noteq> CHR '' ''" by (auto simp: plain_word_def)
  moreover have "m = [] \<or> plain_word m" using Cons.prems by (auto simp: plain_word_def)
  ultimately show ?case using Cons.IH by auto
qed (simp add: plain_word_def)

lemma words_write_line:
  assumes "plain_word (wr_file w)"
  shows "\<exists>r. words_of (write_line w) = ''w'' # wr_file w # wr_value w # r"
proof -
  have w: "plain_word ''w''" by (simp add: plain_word_def newline_def)
  have "words_of (write_line w) = ''w'' # wr_file w # shell_words False [] False (shell_quote (wr_value w) @ CHR '' '' #
      ''|| { echo '' @ [CHR 0x22] @ ''failed: '' @ wr_file w @ [CHR 0x22] @ '' >&2; exit 1; }'')"
    using shell_words_word[OF w, of "[]" False] shell_words_word[OF assms, of "[]" False]
    by (simp add: words_of_def write_line_def)
  then show ?thesis by simp
qed

lemma words_applied: "words_of ''echo applied'' = [''echo'', ''applied'']"
  by code_simp

lemma run_limit_lines:
  assumes "\<forall>w \<in> set ws. plain_word (wr_file w)"
  shows "(case run_writes kw (map write_line ws @ [''echo applied'', []]) fs of ((out, err), fs') \<Rightarrow>
            fs' = snd (do_writes kw ws fs) \<and> (err = None \<longleftrightarrow> fst (do_writes kw ws fs))
            \<and> (err = None \<longrightarrow> out = ''applied'' @ [newline]))"
  using assms
proof (induction ws arbitrary: fs)
  case Nil
  then show ?case by (simp add: words_applied) (simp add: words_of_def)
next
  case (Cons w ws)
  obtain r where r: "words_of (write_line w) = ''w'' # wr_file w # wr_value w # r"
    using words_write_line Cons.prems by fastforce
  show ?case using Cons r by (auto split: option.splits)
qed

lemma guest_apply:
  assumes ok: "\<forall>w \<in> set ws. plain_word (wr_file w) \<and> newline \<notin> set (wr_value w)"
    and r: "apply_limits (guest_runner kw) d ws t g = (res, g')"
  shows "g' = g \<and> (res = None \<longrightarrow> ws = []) \<or> g' = g\<lparr>lg_files := snd (do_writes kw ws (lg_files g))\<rparr>
           \<and> (res = None \<longrightarrow> fst (do_writes kw ws (lg_files g)))"
proof (cases "ws = []")
  case True
  then show ?thesis using r by (simp add: apply_limits_def)
next
  case nonempty: False
  let ?ls = "map write_line ws @ [''echo applied'']"
  have s: "limit_script ws = (find_node @ write_prelude) @ concat (map (\<lambda>l. l @ [newline]) ?ls)"
    by (simp add: limit_script_def comp_def)
  then have pre: "has_prefix (limit_script ws) (find_node @ write_prelude)"
    by (simp add: has_prefix_def del: append_assoc)
  show ?thesis
  proof (cases "lg_present g \<and> lg_enters g")
    case False
    then obtain out e where "guest_runner kw d (limit_script ws) (limit_timeout t) g = ((out, Some e), g)"
      using pre by (cases "lg_present g") (auto simp: guest_runner_def)
    then show ?thesis using r nonempty by (auto simp: apply_limits_def)
  next
    case True
    have nl: "newline \<notin> set (write_line w)" if "w \<in> set ws" for w
      using ok that shell_quote_no_newline by (auto simp: write_line_def plain_word_def newline_def)
    have "list_all (\<lambda>l. newline \<notin> set l) ?ls" using nl by (auto simp: list_all_iff newline_def)
    then have sp: "split_on newline (concat (map (\<lambda>l. l @ [newline]) ?ls)) = map write_line ws @ [''echo applied'', []]"
      using split_lines_script[of ?ls] by simp
    obtain out err fs' where rw:
      "run_writes kw (map write_line ws @ [''echo applied'', []]) (lg_files g) = ((out, err), fs')"
      by (metis surj_pair)
    have d: "drop (length (find_node @ write_prelude)) (limit_script ws) = concat (map (\<lambda>l. l @ [newline]) ?ls)"
      unfolding s by simp
    have "guest_runner kw d (limit_script ws) (limit_timeout t) g = ((out, err), g\<lparr>lg_files := fs'\<rparr>)"
      using True pre unfolding guest_runner_def Let_def d sp rw by simp
    then show ?thesis
      using r nonempty rw run_limit_lines[of ws kw "lg_files g"] ok by (auto simp: apply_limits_def split: option.splits)
  qed
qed

section \<open>What applying a plan does\<close>

lemma plan_distinct: "distinct (map wr_file (limit_plan l))"
  by (simp add: limit_plan_def)

lemma format_uint_no_newline: "newline \<notin> set (format_uint n)"
  using digits10_all[of n] by (auto simp: format_uint_def list_all_iff newline_def is_digit_def)

lemma format_int_no_newline: "newline \<notin> set (format_int n)"
  using format_uint_no_newline by (auto simp: format_int_def newline_def)

lemma plan_clean: "\<forall>w \<in> set (limit_plan l). plain_word (wr_file w) \<and> newline \<notin> set (wr_value w)"
  using format_uint_no_newline format_int_no_newline
  by (auto simp: limit_plan_def plain_word_def newline_def)


definition sample_limits :: limits where
  "sample_limits = \<lparr>lm_memory_max = 4096, lm_memory_high = 2048, lm_cpus = 3 / 2, lm_swap = 0, lm_swap_off = True\<rparr>"


end
