(* ===== verification/Preflight.thy ===== *)
theory Preflight
  imports DistroCompat WslConf GoFloat GoNet
begin

text \<open>
  \<open>internal/preflight\<close>: what installing a distribution file would run into. \<open>inspect.go\<close> goes through
  the archive once and keeps the small files that matter; \<open>check.go\<close> makes the results. Decompression
  and the tar format are the standard library's: what its reader returns, one member after the other, is
  the input here.
\<close>

section \<open>The archive\<close>

definition max_file :: int where "max_file = 1048576"
definition max_entries :: int where "max_entries = 2000000"

definition wanted :: "(string \<times> bool) list" where
  "wanted =
     [(''etc/wsl-distribution.conf'', True), (''etc/wsl.conf'', True), (''etc/os-release'', True),
      (''usr/lib/os-release'', True), (''etc/passwd'', True), (''etc/shadow'', False)]"

record archive =
  ar_files :: "string \<rightharpoonup> string"
  ar_entries :: int
  ar_bytes :: int
  ar_compression :: string
  ar_units :: "string list"
  ar_xattrs :: "string list"
  ar_has_systemd :: bool
  ar_systemd_version :: string

text \<open>The two sets of names are lists without repetition.\<close>

definition empty_archive :: archive where
  "empty_archive =
     \<lparr>ar_files = Map.empty, ar_entries = 0, ar_bytes = 0, ar_compression = ''none'', ar_units = [],
      ar_xattrs = [], ar_has_systemd = False, ar_systemd_version = []\<rparr>"

definition archive_get :: "archive \<Rightarrow> string \<Rightarrow> string option" where
  "archive_get a name = ar_files a name"

datatype tar_kind = TarReg | TarSymlink | TarLink | TarDir | TarOther

record tar_header =
  th_name :: string
  th_size :: int
  th_kind :: tar_kind
  th_pax :: "string list"

text \<open>What one round of the loop meets: the context has ended, the reader fails, or a member with what
  reading its content gives. After the last one comes the end of the archive.\<close>

datatype tar_step =
    Cancelled string
  | ReaderFails string
  | Member tar_header "string + string"

datatype inspect_error =
    IsXZ
  | IsZstd
  | PeekFails string
  | BadGzip string
  | ContextEnded string
  | BadArchive string
  | TooManyEntries
  | BadMember string string

definition note_systemd :: "archive \<Rightarrow> string \<Rightarrow> archive" where
  "note_systemd a0 name =
     (let a = (if \<not> ar_has_systemd a0
                  \<and> (has_prefix name ''usr/lib/systemd/'' \<or> has_prefix name ''lib/systemd/'')
               then a0\<lparr>ar_has_systemd := True\<rparr> else a0)
      in if ar_systemd_version a \<noteq> [] then a
         else let b = base_name name
              in if has_prefix b ''libsystemd-shared-''
                 then a\<lparr>ar_systemd_version := trim_suffix (trim_prefix b ''libsystemd-shared-'') ''.so''\<rparr>
                 else a)"

definition add_name :: "string \<Rightarrow> string list \<Rightarrow> string list" where
  "add_name x xs = (if x \<in> set xs then xs else xs @ [x])"

definition note_xattr :: "archive \<Rightarrow> string \<Rightarrow> archive" where
  "note_xattr a k =
     (if has_prefix k ''SCHILY.xattr.''
      then a\<lparr>ar_xattrs := add_name (trim_prefix k ''SCHILY.xattr.'') (ar_xattrs a)\<rparr> else a)"

definition member_name :: "tar_header \<Rightarrow> string" where
  "member_name h = trim_prefix (trim_prefix (th_name h) ''./'') ''/''"

definition note_unit :: "archive \<Rightarrow> string \<Rightarrow> archive" where
  "note_unit a name =
     (case split_path name of
        (dir, unit) \<Rightarrow>
          if contains dir ''.wants/'' \<and> has_suffix unit ''.service''
          then a\<lparr>ar_units := add_name unit (ar_units a)\<rparr> else a)"

text \<open>The body of the loop after the count: the archive, and the error that ends it.\<close>

definition inspect_member :: "archive \<Rightarrow> tar_header \<Rightarrow> string + string \<Rightarrow> archive \<times> inspect_error option" where
  "inspect_member a0 h body =
     (let name = member_name h; a = foldl note_xattr a0 (th_pax h)
      in case th_kind h of
           TarReg \<Rightarrow>
             (let a1 = a\<lparr>ar_bytes := wrap64 (ar_bytes a + th_size h)\<rparr>
              in if map_of wanted name = Some True \<and> th_size h \<le> max_file
                 then (case body of
                         Inl err \<Rightarrow> (a1, Some (BadMember name err))
                       | Inr b \<Rightarrow>
                           (note_systemd (a1\<lparr>ar_files := (ar_files a1)(name \<mapsto> take (nat max_file) b)\<rparr>) name, None))
                 else (note_systemd a1 name, None))
         | TarSymlink \<Rightarrow> (note_unit (note_systemd a name) name, None)
         | TarLink \<Rightarrow> (note_unit (note_systemd a name) name, None)
         | TarDir \<Rightarrow> (note_systemd a name, None)
         | TarOther \<Rightarrow> (a, None))"

fun inspect_members :: "archive \<Rightarrow> tar_step list \<Rightarrow> archive \<times> inspect_error option" where
  "inspect_members a [] = (a, None)"
| "inspect_members a (Cancelled err # steps) = (a, Some (ContextEnded err))"
| "inspect_members a (ReaderFails err # steps) = (a, Some (BadArchive err))"
| "inspect_members a (Member h body # steps) =
     (let a1 = a\<lparr>ar_entries := ar_entries a + 1\<rparr>
      in if ar_entries a1 > max_entries then (a1, Some TooManyEntries)
         else case inspect_member a1 h body of
                (a2, Some err) \<Rightarrow> (a2, Some err)
              | (a2, None) \<Rightarrow> inspect_members a2 steps)"

definition starts_with :: "bytes \<Rightarrow> bytes \<Rightarrow> bool" where
  "starts_with b magic \<longleftrightarrow> take (length magic) b = magic"

text \<open>\<open>peek\<close> gives up to six bytes; a short file is no error.\<close>

definition peek :: "string + bytes \<Rightarrow> nat \<Rightarrow> string + bytes" where
  "peek input n = (case input of Inl err \<Rightarrow> Inl err | Inr b \<Rightarrow> Inr (take n b))"

definition inspect :: "string + bytes \<Rightarrow> string option \<Rightarrow> tar_step list \<Rightarrow> archive \<times> inspect_error option" where
  "inspect input gzip_error steps =
     (case peek input 6 of
        Inl err \<Rightarrow> (empty_archive, Some (PeekFails err))
      | Inr magic \<Rightarrow>
          if starts_with magic [0xFD, 0x37, 0x7A, 0x58, 0x5A, 0x00] then (empty_archive, Some IsXZ)
          else if starts_with magic [0x28, 0xB5, 0x2F, 0xFD] then (empty_archive, Some IsZstd)
          else if starts_with magic [0x1F, 0x8B]
          then (case gzip_error of
                  Some err \<Rightarrow> (empty_archive, Some (BadGzip err))
                | None \<Rightarrow> inspect_members (empty_archive\<lparr>ar_compression := ''gzip''\<rparr>) steps)
          else inspect_members empty_archive steps)"

section \<open>The checks\<close>

definition dist_conf_keys :: "(string \<times> string) list" where
  "dist_conf_keys =
     [(''oobe.command'', ''script run on first start, to create the default user''),
      (''oobe.defaultname'', ''name the distribution registers under''),
      (''oobe.defaultuid'', ''uid the first shell runs as''),
      (''shortcut.enabled'', ''create a Start menu shortcut''),
      (''shortcut.icon'', ''path inside the distribution to the shortcut icon''),
      (''shortcut.ico'', ''older spelling of shortcut.icon''),
      (''windowsterminal.enabled'', ''add a Windows Terminal profile''),
      (''windowsterminal.profiletemplate'', ''path inside the distribution to the profile template'')]"

definition discouraged_units :: "(string \<times> string) list" where
  "discouraged_units =
     [(''systemd-resolved.service'', ''WSL manages /etc/resolv.conf itself; resolved fights it and name resolution ends up depending on which won''),
      (''systemd-networkd.service'', ''the network comes from the host, not from inside the distribution''),
      (''systemd-networkd-wait-online.service'', ''waits for an interface systemd did not configure, and delays every boot until it times out''),
      (''NetworkManager.service'', ''same: the network is the host@s''),
      (''systemd-tmpfiles-setup-dev.service'', ''tries to create device nodes in a container that does not own them''),
      (''systemd-modules-load.service'', ''there are no loadable modules in the WSL kernel unless one was built''),
      (''systemd-remount-fs.service'', ''remounts filesystems the host mounted''),
      (''e2scrub_reap.service'', ''scrubs a filesystem that is a virtual disk file on the host'')]"

text \<open>In this and the texts below, \<open>@\<close> stands for the apostrophe; \<open>quoted\<close> puts it in.\<close>

definition quoted :: "string \<Rightarrow> string" where
  "quoted s = replace_char (CHR ''@'') (CHR 0x27) s"

definition unsupported_xattrs :: "(string \<times> string) list" where
  "unsupported_xattrs =
     [(''security.selinux'', ''SELinux labels''), (''security.ima'', ''IMA measurements''),
      (''security.evm'', ''EVM signatures'')]"

definition entry_id :: "entry \<Rightarrow> string" where
  "entry_id en = to_lower (en_section en) @ ''.'' @ to_lower (en_key en)"

definition fault_text :: "parse_fault \<Rightarrow> string" where
  "fault_text f = (case f of Unterminated \<Rightarrow> ''unterminated section header'' | NoEquals \<Rightarrow> ''expected key=value'')"

definition dist_conf_value :: "string \<Rightarrow> string \<Rightarrow> string" where
  "dist_conf_value i v =
     (if i = ''shortcut.enabled'' \<or> i = ''windowsterminal.enabled''
      then (if to_lower (trim_space v) \<in> {''true'', ''false'', ''1'', ''0''} then []
            else go_quote v @ '' is not a boolean; WSL accepts true, false, 1 and 0'')
      else if i = ''oobe.defaultuid''
      then (if atoi (trim_space v) = None then go_quote v @ '' is not a number'' else [])
      else if i \<in> {''shortcut.icon'', ''shortcut.ico'', ''windowsterminal.profiletemplate''}
      then (if \<not> has_prefix (trim_space v) ''/''
            then go_quote v @ '' is not an absolute path inside the distribution'' else [])
      else [])"

definition sorted_keys :: "(string \<times> string) list \<Rightarrow> string list" where
  "sorted_keys m = sort (map fst m)"

text \<open>A finding and its detail, for one entry of \<open>wsl-distribution.conf\<close>.\<close>

definition dist_conf_entry :: "entry \<Rightarrow> (string \<times> string) list" where
  "dist_conf_entry en =
     (let i = entry_id en; msg = dist_conf_value i (en_value en)
      in if map_of dist_conf_keys i = None
         then [(i @ '' is not a key WSL reads'',
                ''  line '' @ format_uint (en_line en) @ '': '' @ i @ '' is ignored. The keys WSL reads are: ''
                  @ join_with '', '' (sorted_keys dist_conf_keys))]
         else if msg \<noteq> []
         then [(i @ '': '' @ msg, ''  line '' @ format_uint (en_line en) @ '': '' @ msg)]
         else [])"

definition problem_line :: "parse_problem \<Rightarrow> string" where
  "problem_line p =
     ''  line '' @ format_uint (pp_line p) @ '': '' @ trim_space (pp_raw p) @ ''  ('' @ fault_text (pp_fault p) @ '')''"

definition check_dist_conf :: "archive \<Rightarrow> result" where
  "check_dist_conf a =
     (let res = plain_result ''PRE001'' ''wsl-distribution.conf''
      in case archive_get a ''etc/wsl-distribution.conf'' of
           None \<Rightarrow>
             (res StOK (6 / 10) (quoted ''No /etc/wsl-distribution.conf: this installs with WSL@s defaults''))
             \<lparr>rs_detail := ''A modern distribution normally ships one, to set the first-run user and the Start menu entry. Without it the install works, runs as root, and creates no shortcut.''\<rparr>
         | Some t \<Rightarrow>
             (let cfg = parse t;
                  found = (case in_problems cfg of [] \<Rightarrow> []
                           | p # _ \<Rightarrow> [(''line '' @ format_uint (pp_line p) @ '' is malformed'', problem_line p)])
                          @ concat (map dist_conf_entry (in_entries cfg))
              in if found = []
                 then res StOK (7 / 10) (''wsl-distribution.conf is valid ('' @ format_uint (length (in_entries cfg))
                                         @ '' setting(s))'')
                 else (res StWarn (6 / 10) (join_with ''; '' (map fst found)))
                      \<lparr>rs_detail := join_with [newline] (map snd found)\<rparr>))"

text \<open>Users by uid, the first one of a uid; a Go map as a list of pairs.\<close>

fun parse_users :: "(int \<times> string) list \<Rightarrow> string list \<Rightarrow> (int \<times> string) list" where
  "parse_users users [] = users"
| "parse_users users (l # ls) =
     (case split_on (CHR '':'') (trim_space l) of
        name # x # uid # _ \<Rightarrow>
          (case atoi uid of
             Some n \<Rightarrow> parse_users (if map_of users n = None then users @ [(n, name)] else users) ls
           | None \<Rightarrow> parse_users users ls)
      | _ \<Rightarrow> parse_users users ls)"

definition parse_passwd :: "string \<Rightarrow> (int \<times> string) list" where
  "parse_passwd t = parse_users [] (split_on newline t)"

text \<open>The last \<open>oobe.defaultUid\<close>, and whether there is an \<open>oobe.command\<close>.\<close>

definition oobe_uid :: "ini \<Rightarrow> string option" where
  "oobe_uid cfg =
     foldl (\<lambda>uid en. if entry_id en = ''oobe.defaultuid'' then Some (trim_space (en_value en)) else uid)
       None (in_entries cfg)"

definition oobe_command :: "ini \<Rightarrow> bool" where
  "oobe_command cfg = list_ex (\<lambda>en. entry_id en = ''oobe.command'') (in_entries cfg)"

definition user_res :: "status \<Rightarrow> rat \<Rightarrow> string \<Rightarrow> result" where
  "user_res = plain_result ''PRE002'' ''Default user and /etc/passwd''"

definition check_uid :: "(int \<times> string) list \<Rightarrow> bool \<Rightarrow> string \<Rightarrow> result" where
  "check_uid users oobe uid =
     (case atoi uid of
        None \<Rightarrow> user_res StWarn (6 / 10) (''oobe.defaultUid is '' @ go_quote uid @ '', which is not a number'')
      | Some n \<Rightarrow>
          (case map_of users n of
             Some name \<Rightarrow>
               user_res StOK (8 / 10) (''Default user is uid '' @ format_int n @ '' ('' @ name @ ''), which exists in /etc/passwd'')
           | None \<Rightarrow>
               if oobe
               then (user_res StOK (5 / 10) (''Default uid '' @ format_int n
                       @ '' is not in /etc/passwd yet; the first-run command is expected to create it''))
                    \<lparr>rs_detail := ''This is the normal shape for a distribution that asks for a username on first start. It is only a problem if that command fails, which WSL will not tell you about.''\<rparr>
               else (user_res StFail (8 / 10) (''Default uid '' @ format_int n
                       @ '' does not exist in /etc/passwd and nothing creates it''))
                    \<lparr>rs_detail := ''With no oobe.command to create the user, the first shell opens as a uid with no name, no home directory and no shell.''\<rparr>))"

definition check_default_user :: "archive \<Rightarrow> result" where
  "check_default_user a =
     (case archive_get a ''etc/passwd'' of
        None \<Rightarrow> user_res StWarn (5 / 10) ''No /etc/passwd in the archive: every shell will run as an unnamed root''
      | Some passwd \<Rightarrow>
          (let users = parse_passwd passwd; zero = map_of users 0
           in if zero \<noteq> None \<and> zero \<noteq> Some ''root''
              then (user_res StFail (8 / 10) (''uid 0 is '' @ go_quote (the zero) @ '', not root''))
                   \<lparr>rs_detail := ''WSL runs the first-start command as uid 0 and so does nearly everything else. A distribution where uid 0 is not root behaves unpredictably from the first second.''\<rparr>
              else case archive_get a ''etc/wsl-distribution.conf'' of
                     None \<Rightarrow>
                       user_res StOK (6 / 10) (''/etc/passwd has '' @ format_uint (length users)
                         @ '' user(s); no default user configured, so shells start as root'')
                   | Some t \<Rightarrow>
                       (let cfg = parse t
                        in case oobe_uid cfg of
                             None \<Rightarrow>
                               if oobe_command cfg
                               then user_res StOK (5 / 10) ''The default user is created by the first-run command, so it is not in the archive to check''
                               else user_res StOK (6 / 10) ''No default uid configured; shells start as root''
                           | Some uid \<Rightarrow> check_uid users (oobe_command cfg) uid)))"

text \<open>The table of keys is a parameter, as it is read from a file; the error is why it could not be.\<close>

definition conf_entry :: "conf_key list \<Rightarrow> entry \<Rightarrow> (string \<times> string) list" where
  "conf_entry tbl en =
     (if lookup_conf tbl (en_section en) (en_key en) = None
      then [(entry_id en @ '' is not a key WSL reads'',
             ''  line '' @ format_uint (en_line en) @ '': '' @ entry_id en @ '' is ignored'')]
      else [])"

definition conf_problem :: "ini \<Rightarrow> parse_problem \<Rightarrow> string \<times> string" where
  "conf_problem cfg p =
     (let lost = length (filter (\<lambda>en. en_line en > pp_line p) (in_entries cfg))
      in (''line '' @ format_uint (pp_line p) @ '' is malformed''
            @ (if lost > 0 then '', and on WSL before 2.9.13 the '' @ format_uint lost @ '' setting(s) below it will be ignored''
               else []),
          problem_line p @ ''. WSL before 2.9.13 stops reading wsl.conf at the first line it cannot parse; 2.9.13 and newer skip just that line.''))"

definition check_wsl_conf :: "string + conf_key list \<Rightarrow> archive \<Rightarrow> result" where
  "check_wsl_conf keys a =
     (let res = plain_result ''PRE003'' ''wsl.conf inside the archive''
      in case archive_get a ''etc/wsl.conf'' of
           None \<Rightarrow> res StOK (6 / 10) ''No /etc/wsl.conf in the archive; every setting takes its default''
         | Some t \<Rightarrow>
             (case keys of
                Inl err \<Rightarrow> res StUnknown (1 / 10) (''the wsl.conf key table could not be loaded: '' @ err)
              | Inr tbl \<Rightarrow>
                  (let cfg = parse t;
                       found = (case in_problems cfg of [] \<Rightarrow> [] | p # _ \<Rightarrow> [conf_problem cfg p])
                               @ concat (map (conf_entry tbl) (in_entries cfg))
                   in if found = []
                      then res StOK (7 / 10) (''wsl.conf is valid ('' @ format_uint (length (in_entries cfg)) @ '' setting(s))'')
                      else (res StWarn (6 / 10) (join_with ''; '' (map fst found)))
                           \<lparr>rs_detail := join_with [newline] (map snd found)\<rparr>)))"

definition check_units :: "archive \<Rightarrow> result" where
  "check_units a =
     (let res = plain_result ''PRE004'' ''Enabled systemd units''
      in if \<not> ar_has_systemd a then res StOK (5 / 10) ''The archive does not ship systemd''
         else let found = filter (\<lambda>u. map_of discouraged_units u \<noteq> None) (ar_units a)
              in if found = []
                 then res StOK (6 / 10) (''No units known to misbehave under WSL are enabled (''
                                          @ format_uint (length (ar_units a)) @ '' enabled)'')
                 else (res StWarn (5 / 10) (format_uint (length found) @ '' enabled unit(s) known to misbehave under WSL: ''
                         @ join_with '', '' (sort found)))
                      \<lparr>rs_detail := join_with [newline]
                           (sort (map (\<lambda>u. ''  '' @ u @ '': '' @ quoted (the (map_of discouraged_units u))) found))
                           @ [newline] @ ''None of these stops the distribution from starting. Each produces a failure somebody then spends an evening on.'',
                       rs_fix_hint := ''systemctl disable <unit> inside the distribution after installing, or remove the .wants symlink from the archive''\<rparr>)"

definition check_xattrs :: "archive \<Rightarrow> result" where
  "check_xattrs a =
     (let res = plain_result ''PRE005'' ''Extended attributes'';
          found = filter (\<lambda>x. map_of unsupported_xattrs x \<noteq> None) (ar_xattrs a)
      in if found = [] then res StOK (6 / 10) ''No extended attributes that an install would drop''
         else (res StWarn (5 / 10) (''Carries '' @ join_with '', '' (sort found) @ '', which a WSL 1 install drops''))
              \<lparr>rs_detail := ''WSL 2 keeps these. WSL 1 stores files on NTFS and cannot, so a distribution whose security model depends on them behaves differently there, silently.''\<rparr>)"

text \<open>The number is an \<open>int\<close> and wraps around.\<close>

definition systemd_major :: "string \<Rightarrow> int" where
  "systemd_major v =
     foldl (\<lambda>n c. wrap64 (wrap64 (n * 10) + int (digit_val c))) 0 (takeWhile is_digit v)"

definition runtime_res :: "status \<Rightarrow> rat \<Rightarrow> string \<Rightarrow> result" where
  "runtime_res = plain_result ''PRE006'' (quoted ''This machine@s runtime'')"

definition format_too_new :: "compat \<Rightarrow> version \<Rightarrow> version option" where
  "format_too_new c cur =
     (case parse_version (cm_modern_min c) of
        Some least \<Rightarrow> if version_less cur least then Some least else None
      | None \<Rightarrow> None)"

definition systemd_too_new :: "compat \<Rightarrow> version \<Rightarrow> string \<Rightarrow> (capability \<times> version) option" where
  "systemd_too_new c cur v =
     (if systemd_major v \<ge> 258
      then (case map_of (cm_capabilities c) ''cgroup_v2'' of
              None \<Rightarrow> None
            | Some cap \<Rightarrow>
                (case parse_version (ca_since cap) of
                   Some since \<Rightarrow> if version_less cur since then Some (cap, since) else None
                 | None \<Rightarrow> None))
      else None)"

definition check_runtime :: "string + compat \<Rightarrow> archive \<Rightarrow> snapshot option \<Rightarrow> result" where
  "check_runtime table a env =
     (case env of
        None \<Rightarrow> runtime_res StSkipped 0 ''The installed WSL version is unknown, so this cannot say whether it would start''
      | Some e \<Rightarrow>
          (let rt = rt_version (sn_runtime e)
           in if \<not> fd_ok rt \<or> fd_value rt = []
              then runtime_res StSkipped 0 ''The installed WSL version is unknown, so this cannot say whether it would start''
              else case parse_version (fd_value rt) of
                     None \<Rightarrow> runtime_res StUnknown (1 / 10) ''could not read the installed WSL version''
                   | Some cur \<Rightarrow>
                       (case table of
                          Inl err \<Rightarrow> runtime_res StUnknown (1 / 10) (''the compatibility table could not be loaded: '' @ err)
                        | Inr c \<Rightarrow>
                            (case format_too_new c cur of
                               Some least \<Rightarrow>
                                 (runtime_res StFail (9 / 10) (''WSL '' @ version_string cur @ '' cannot install a .wsl file at all; ''
                                    @ version_string least @ '' is the first version that can''))
                                 \<lparr>rs_detail := ''wsl --install --from-file does not exist on this runtime. The install fails before anything in the archive matters.'',
                                  rs_fix_hint := ''wslkit doctor fix update''\<rparr>
                             | None \<Rightarrow>
                                 (case systemd_too_new c cur (ar_systemd_version a) of
                                    Some (cap, since) \<Rightarrow>
                                      (runtime_res StFail (9 / 10) (''systemd '' @ ar_systemd_version a @ '' needs WSL ''
                                         @ version_string since @ '' or newer; this machine has '' @ version_string cur))
                                      \<lparr>rs_detail := ca_description cap @ [newline] @ ''The install will appear to succeed. The distribution will then fail to start, with an error that says nothing about cgroups.'',
                                       rs_fix_hint := ''wslkit doctor fix update'', rs_refs := ca_refs cap\<rparr>
                                  | None \<Rightarrow>
                                      runtime_res StOK (7 / 10) (''WSL '' @ version_string cur @ '' can install this''
                                        @ (if ar_systemd_version a \<noteq> []
                                           then '' (archive ships systemd '' @ ar_systemd_version a @ '')'' else [])))))))"

definition preflight_check :: "string + conf_key list \<Rightarrow> string + compat \<Rightarrow> archive \<Rightarrow> snapshot option \<Rightarrow> result list" where
  "preflight_check keys table a env =
     [check_dist_conf a, check_default_user a, check_wsl_conf keys a, check_units a, check_xattrs a,
      check_runtime table a env]"

section \<open>What is kept of an archive\<close>

definition config_files :: "string set" where
  "config_files = {''etc/wsl-distribution.conf'', ''etc/wsl.conf'', ''etc/os-release'', ''usr/lib/os-release'', ''etc/passwd''}"

lemma wanted_config: "map_of wanted n = Some True \<Longrightarrow> n \<in> config_files"
  by (auto simp: wanted_def config_files_def split: if_splits)

text \<open>A kept file is the content of a regular member of that name.\<close>

definition kept_from :: "tar_step list \<Rightarrow> archive \<Rightarrow> bool" where
  "kept_from steps a \<longleftrightarrow>
     (\<forall>n c. ar_files a n = Some c \<longrightarrow>
        n \<in> config_files \<and> length c \<le> nat max_file
        \<and> (\<exists>h b. Member h (Inr b) \<in> set steps \<and> th_kind h = TarReg \<and> member_name h = n \<and> c = take (nat max_file) b))
     \<and> (\<forall>u \<in> set (ar_units a). has_suffix u ''.service'')"

lemma note_systemd_keeps [simp]:
  "ar_files (note_systemd a n) = ar_files a" "ar_units (note_systemd a n) = ar_units a"
  "ar_entries (note_systemd a n) = ar_entries a"
  by (simp_all add: note_systemd_def Let_def)

lemma note_xattrs_keep [simp]:
  "ar_files (foldl note_xattr a ks) = ar_files a" "ar_units (foldl note_xattr a ks) = ar_units a"
  "ar_entries (foldl note_xattr a ks) = ar_entries a"
  by (induction ks arbitrary: a) (simp_all add: note_xattr_def)

lemma note_unit_keeps [simp]:
  "ar_files (note_unit a n) = ar_files a" "ar_entries (note_unit a n) = ar_entries a"
  by (simp_all add: note_unit_def split: prod.split)

lemma note_unit_service: "u \<in> set (ar_units (note_unit a n)) \<Longrightarrow> u \<in> set (ar_units a) \<or> has_suffix u ''.service''"
  by (auto simp: note_unit_def add_name_def split: prod.splits if_splits)

lemma kept_from_update:
  assumes "kept_from steps a" and "Member h (Inr b) \<in> set steps" and "th_kind h = TarReg"
    and "member_name h \<in> config_files"
    and "ar_files a' = (ar_files a)(member_name h \<mapsto> take (nat max_file) b)" and "ar_units a' = ar_units a"
  shows "kept_from steps a'"
  unfolding kept_from_def
proof (intro conjI allI impI)
  fix n c
  assume c: "ar_files a' n = Some c"
  show "n \<in> config_files" "length c \<le> nat max_file"
    "\<exists>h b. Member h (Inr b) \<in> set steps \<and> th_kind h = TarReg \<and> member_name h = n \<and> c = take (nat max_file) b"
    by (cases "n = member_name h"; use c assms in \<open>auto simp: kept_from_def\<close>)+
qed (use assms in \<open>simp add: kept_from_def\<close>)

lemma inspect_member_keeps:
  assumes "kept_from steps a" and "Member h body \<in> set steps" and "inspect_member a h body = (a', err)"
  shows "kept_from steps a' \<and> ar_entries a' = ar_entries a"
proof (cases "th_kind h")
  case TarReg
  show ?thesis
  proof (cases "map_of wanted (member_name h) = Some True \<and> th_size h \<le> max_file")
    case True
    show ?thesis
    proof (cases body)
      case (Inl e)
      then show ?thesis using assms TarReg True by (auto simp: inspect_member_def Let_def kept_from_def)
    next
      case (Inr b)
      have w: "member_name h \<in> config_files" using True wanted_config by simp
      have "ar_files a' = (ar_files a)(member_name h \<mapsto> take (nat max_file) b)" "ar_units a' = ar_units a"
        "ar_entries a' = ar_entries a"
        using assms(3) TarReg True Inr by (auto simp: inspect_member_def Let_def)
      then show ?thesis using kept_from_update[OF assms(1) _ TarReg w] assms(2) Inr by simp
    qed
  next
    case False
    then have "a' = note_systemd ((foldl note_xattr a (th_pax h))\<lparr>ar_bytes := wrap64 (ar_bytes (foldl note_xattr a (th_pax h)) + th_size h)\<rparr>) (member_name h)"
      using assms TarReg by (auto simp: inspect_member_def Let_def)
    then show ?thesis using assms(1) by (simp add: kept_from_def)
  qed
qed (use assms note_unit_service in \<open>fastforce simp: inspect_member_def Let_def kept_from_def\<close>)+

lemma inspect_members_keeps:
  "kept_from all a \<Longrightarrow> set steps \<subseteq> set all \<Longrightarrow> ar_entries a \<le> max_entries \<Longrightarrow> inspect_members a steps = (a', err) \<Longrightarrow>
   kept_from all a' \<and> ar_entries a' \<le> max_entries + 1"
proof (induction a steps rule: inspect_members.induct)
  case (4 a h body steps)
  let ?a1 = "a\<lparr>ar_entries := ar_entries a + 1\<rparr>"
  have k1: "kept_from all ?a1" using 4(2) by (simp add: kept_from_def)
  show ?case
  proof (cases "ar_entries ?a1 > max_entries")
    case True
    then show ?thesis using 4(4,5) k1 by auto
  next
    case False
    obtain a2 e where m: "inspect_member ?a1 h body = (a2, e)" by fastforce
    have k2: "kept_from all a2 \<and> ar_entries a2 = ar_entries ?a1"
      using inspect_member_keeps[OF k1 _ m] 4(3) by simp
    show ?thesis
    proof (cases e)
      case None
      then show ?thesis using 4(1)[OF refl False m[symmetric] None] k2 4(3,5) False m by simp
    next
      case (Some x)
      then show ?thesis using k2 4(5) False m by auto
    qed
  qed
qed (auto simp: max_entries_def)

text \<open>C13: of any archive, however it is built and wherever reading it stops, inspecting keeps at most the
  five configuration files, each a prefix of at most 1 MiB of a regular member of exactly that name;
  the shadow file is never among them. It counts no more than one member past the limit, and what it
  lists as enabled units are services.\<close>

theorem inspect_keeps_only_config:
  shows "case inspect input gzip_error steps of (a, err) \<Rightarrow>
     kept_from steps a \<and> ar_files a ''etc/shadow'' = None \<and> ar_entries a \<le> max_entries + 1"
proof -
  obtain a err where r: "inspect input gzip_error steps = (a, err)" by fastforce
  have e: "kept_from steps empty_archive" "kept_from steps (empty_archive\<lparr>ar_compression := ''gzip''\<rparr>)"
    and n: "ar_entries empty_archive \<le> max_entries" "ar_entries (empty_archive\<lparr>ar_compression := ''gzip''\<rparr>) \<le> max_entries"
    by (simp_all add: kept_from_def empty_archive_def max_entries_def)
  have "kept_from steps a \<and> ar_entries a \<le> max_entries + 1"
    using r e n inspect_members_keeps[of steps empty_archive steps]
      inspect_members_keeps[of steps "empty_archive\<lparr>ar_compression := ''gzip''\<rparr>" steps]
    by (auto simp: inspect_def split: sum.splits if_splits option.splits)
  moreover from this have "ar_files a ''etc/shadow'' = None"
    by (cases "ar_files a ''etc/shadow''") (auto simp: kept_from_def config_files_def)
  ultimately show ?thesis using r by simp
qed

section \<open>What fails\<close>

definition root_is_not_root :: "archive \<Rightarrow> bool" where
  "root_is_not_root a \<longleftrightarrow>
     (case archive_get a ''etc/passwd'' of
        None \<Rightarrow> False | Some p \<Rightarrow> map_of (parse_passwd p) 0 \<notin> {None, Some ''root''})"

definition default_user_missing :: "archive \<Rightarrow> bool" where
  "default_user_missing a \<longleftrightarrow>
     (\<exists>p t uid n. archive_get a ''etc/passwd'' = Some p \<and> archive_get a ''etc/wsl-distribution.conf'' = Some t
        \<and> oobe_uid (parse t) = Some uid \<and> atoi uid = Some n
        \<and> map_of (parse_passwd p) n = None \<and> \<not> oobe_command (parse t))"

definition runtime_too_old :: "string + compat \<Rightarrow> archive \<Rightarrow> snapshot option \<Rightarrow> bool" where
  "runtime_too_old table a env \<longleftrightarrow>
     (\<exists>e cur c. env = Some e \<and> fd_ok (rt_version (sn_runtime e)) \<and> fd_value (rt_version (sn_runtime e)) \<noteq> []
        \<and> parse_version (fd_value (rt_version (sn_runtime e))) = Some cur \<and> table = Inr c
        \<and> (format_too_new c cur \<noteq> None \<or> systemd_too_new c cur (ar_systemd_version a) \<noteq> None))"

lemma never_fail:
  "rs_status (check_dist_conf a) \<noteq> StFail" "rs_status (check_wsl_conf keys a) \<noteq> StFail"
  "rs_status (check_units a) \<noteq> StFail" "rs_status (check_xattrs a) \<noteq> StFail"
  by (simp_all add: check_dist_conf_def check_wsl_conf_def check_units_def check_xattrs_def Let_def
      split: option.split sum.split)

lemma check_uid_fails:
  "rs_status (check_uid users oobe uid) = StFail \<longleftrightarrow>
     (\<exists>n. atoi uid = Some n \<and> map_of users n = None \<and> \<not> oobe)"
  by (simp add: check_uid_def user_res_def split: option.split)

lemma default_user_fails:
  "rs_status (check_default_user a) = StFail \<longleftrightarrow> root_is_not_root a \<or> default_user_missing a"
proof (cases "archive_get a ''etc/passwd''")
  case None
  then show ?thesis
    by (simp add: check_default_user_def user_res_def root_is_not_root_def default_user_missing_def)
next
  case (Some p)
  show ?thesis
  proof (cases "root_is_not_root a")
    case True
    then show ?thesis
      using Some by (simp add: check_default_user_def Let_def user_res_def root_is_not_root_def)
  next
    case False
    then show ?thesis
      using Some check_uid_fails
      by (auto simp: check_default_user_def Let_def user_res_def root_is_not_root_def default_user_missing_def
          split: option.split)
  qed
qed

lemma runtime_fails: "rs_status (check_runtime table a env) = StFail \<longleftrightarrow> runtime_too_old table a env"
proof (cases env)
  case (Some e)
  show ?thesis
  proof (cases "fd_ok (rt_version (sn_runtime e)) \<and> fd_value (rt_version (sn_runtime e)) \<noteq> []")
    case False
    then show ?thesis using Some by (auto simp: check_runtime_def runtime_res_def runtime_too_old_def)
  next
    case True
    then show ?thesis
      using Some
      by (simp add: check_runtime_def runtime_res_def runtime_too_old_def Let_def split: option.split sum.split)
  qed
qed (simp add: check_runtime_def runtime_res_def runtime_too_old_def)


end
