(* ===== verification/Spec2Isabelle.thy ===== *)
theory Spec2Isabelle
  imports MuxSafety AgentDaemon Release DiskSnapshot DiskPlans DiskAutomount DiskMeasure Vhdx Ext4 GuardRunner WslConf Probe Fix WslPath GuestShell ProxyServe TopCollect TopText
    ChecksHost Limit Preflight
begin

text \<open>
  \<^bold>\<open>A verification development for wslkit\<close>, a command-line tool that looks after the Windows
  Subsystem for Linux. The tool is written in Go; the packages modelled here are under
  \<open>src/internal\<close>.

  \<^bold>\<open>The program.\<close> A command reads the machine (the registry, the files, what \<open>wsl.exe\<close>
  prints, what a script inside a distribution prints), plans what to change, and carries the plan out.
  Its parts:
    \<^item> the \<^emph>\<open>agent\<close> relays sockets between Windows and a distribution: a framing protocol, a
      session that multiplexes streams over one connection, a daemon on the Windows side with an allow
      list, a loop that reconnects on the other side;
    \<^item> the \<^emph>\<open>disk commands\<close> relink, rename, move, trash, restore, snapshot, compact, rebuild and
      measure the virtual disk of a distribution, with an undo stack for each;
    \<^item> \<^emph>\<open>disk images\<close> are read without mounting them: the VHDX container, the ext4 superblock;
    \<^item> \<^emph>\<open>configuration files\<close> (\<open>.wslconfig\<close>, \<open>wsl.conf\<close>) are parsed, linted and edited;
    \<^item> \<^emph>\<open>doctor\<close> runs probes, ranks what they report, and applies fixes that can be undone;
    \<^item> the \<^emph>\<open>guard\<close> gets WSL to answer again after the machine has slept;
    \<^item> the \<^emph>\<open>proxy commands\<close> carry the proxy settings of Windows into distributions and serve
      a forward proxy;
    \<^item> the \<^emph>\<open>release lookup\<close> compares the runtime with the published ones;
    \<^item> \<^emph>\<open>top\<close> measures what each distribution uses, from inside and from Windows;
    \<^item> \<^emph>\<open>collectors\<close> read the machine into one snapshot, which the checks of doctor judge;
    \<^item> \<^emph>\<open>limit\<close> sets a cgroup limit in a running distribution, and \<^emph>\<open>preflight\<close> inspects an archive
      before it is installed.

  \<^bold>\<open>How code is modelled.\<close> A struct is a record, an enumeration or an error is a datatype, an
  integer is a word of its width where it can wrap and an \<open>int\<close> where the code bounds it, a string
  is a list of bytes (HOL characters), a function is a HOL function with the source's branches in the
  source's order. Errors are the left of a sum, or an option. What the code calls but does not define
  (Windows, \<open>wsl.exe\<close>, the JSON decoder, a guest) is an argument: a record of functions, or a
  function. Where such an interface makes promises, they are the \<open>assumes\<close> of a locale, and the
  locale is interpreted on a machine in memory (\<open>DiskMachine\<close>) or a small shell
  (\<open>GuestShell\<close>) that keeps them. Loops are structural recursion, functions with a measure, or
  recursion over the work that remains; every one of them is total, so nothing here is stated under
  the proviso that a function returns.

  \<^bold>\<open>Theories.\<close>
    \<^item> \<open>Prelude\<close>, \<open>GoStd\<close>, \<open>GoText\<close>, \<open>GoNet\<close>, \<open>GoFloat\<close>, \<open>Base64\<close>: shared vocabulary and what the
      code uses of Go's standard library.
    \<^item> Agent. \<open>Proto\<close> (\<open>agent/proto\<close>: frames, their writer and reader, the messages), \<open>Relay\<close>
      (\<open>agent/relay\<close>), \<open>AgentFilter\<close> (\<open>agent/filter\<close>), \<open>Mux\<close> (\<open>agent/mux\<close>: the session as a step
      relation whose steps are the critical sections of the code), \<open>MuxSafety\<close> (its invariants),
      \<open>AgentConfig\<close> (\<open>agent/config\<close>, \<open>agent/assuan\<close>, \<open>sock/preset.go\<close>), \<open>AgentDaemon\<close>
      (\<open>agent/host\<close>, \<open>agent/guest\<close>).
    \<^item> Disks. \<open>DiskPaths\<close> (\<open>disk/paths.go\<close>, \<open>owner.go\<close>), \<open>DiskCore\<close> (\<open>disk.go\<close>, \<open>op.go\<close>),
      \<open>DiskEnv\<close> (\<open>ports.go\<close>: the ports as a record, and the locale of what they promise),
      \<open>DiskMachine\<close> (a machine with a schedule of faults, on which the locale is interpreted),
      \<open>DiskRelink\<close>, \<open>DiskMove\<close>, \<open>DiskTrash\<close>, \<open>DiskSnapshot\<close>, \<open>DiskCompact\<close>, \<open>DiskRebuild\<close>,
      \<open>DiskOrphans\<close>, \<open>DiskAutomount\<close>, \<open>DiskConfig\<close>, \<open>DiskFlags\<close>, \<open>DiskMeasure\<close>, \<open>DiskUsage\<close> (the
      files of these names), \<open>DiskPlans\<close> (what all plans have in common).
    \<^item> Images. \<open>Vhdx\<close> (\<open>vhdx\<close>), \<open>Ext4\<close> (\<open>ext4\<close>).
    \<^item> Text from and for WSL. \<open>WslOut\<close> (\<open>wslout\<close>), \<open>WslVer\<close> (\<open>wslver\<close>), \<open>WslPath\<close> (\<open>wslpath\<close>),
      \<open>WslConfig\<close> and \<open>WslLint\<close> (\<open>wslconfig\<close>, \<open>data/wslconfig_keys.go\<close>), \<open>WslConf\<close>
      (\<open>probe/wsl/wslconf.go\<close>, \<open>data/wslconf_keys.go\<close>).
    \<^item> Doctor. \<open>Probe\<close> (\<open>probe/probe.go\<close>, \<open>probe/all\<close>), \<open>Fix\<close> (\<open>fix\<close> and its actions).
    \<^item> Guard. \<open>Guard\<close> (\<open>guard\<close>), \<open>GuardRunner\<close> (its runner, state file and tasks).
    \<^item> Proxy. \<open>Proxy\<close> (\<open>proxy/proxy.go\<close>), \<open>ProxyFiles\<close> (\<open>files.go\<close>), \<open>ProxyApply\<close> (\<open>apply.go\<close>, with
      the locale of a guest that runs its scripts), \<open>GuestShell\<close> (that guest), \<open>ProxyServe\<close>
      (\<open>serve.go\<close>).
    \<^item> \<open>Release\<close> (\<open>release\<close>).
    \<^item> Top. \<open>TopParse\<close> (what the script in a guest prints; \<open>top/top.go\<close>, \<open>session.go\<close>), \<open>TopRates\<close> (rates
      between two samples), \<open>TopHost\<close> (\<open>host.go\<close>: which process is which virtual machine), \<open>TopCollect\<close>
      (\<open>collect.go\<close>), \<open>TopRender\<close> and \<open>TopText\<close> (the report as a table and as JSON).
    \<^item> The snapshot. \<open>EnvData\<close> (\<open>env/env.go\<close>: one record per struct, a field with its provenance),
      \<open>Collect\<close> (\<open>env/collect\<close>: budgets, parsers of what scripts print, the walk of a home directory),
      \<open>Inventory\<close> (\<open>collectDistros\<close> and everything it reads inside distributions,
      \<open>data/watchers.go\<close>).
    \<^item> Checks over the snapshot. \<open>DistroCompat\<close> (\<open>data/data.go\<close>, \<open>probe/wsl/wsl.go\<close>), \<open>ChecksGuest\<close>
      (\<open>probe/wsl\<close>: systemd, watchers, downloaded files, nested virtualization, interop), \<open>HostMatch\<close>
      (\<open>probe/host/defender_match.go\<close>, the port arithmetic of \<open>probe/net/ports.go\<close>), \<open>ChecksHost\<close>
      (\<open>probe/host\<close>, \<open>probe/net\<close>, \<open>probe/perf\<close>, \<open>probe/wslc\<close>).
    \<^item> \<open>Limit\<close> (\<open>limit\<close>: the cgroup of a distribution, with a guest that runs the script),
      \<open>Preflight\<close> (\<open>preflight\<close>: what an archive holds and whether it would start).
  \<^bold>\<open>What the lemmas show.\<close> For the agent: frames are read back as written whatever the pieces they
  arrive in; in every reachable state of a session a stream's bytes come out in order and once, memory
  stays bounded, ids are unique and no wake-up is lost; the daemon dials only allowed targets and its
  status is true. For the disk commands: over every machine and every schedule of faults, a command
  ends with the disk's contents in a file that a registration or a record names, and a failed change
  of a registration is no change. For the images: reading through the VHDX tables is reading the
  guest's disk. For the configuration files: what is written is read back, and an edit disables only
  the lines it flags. For doctor: a partial run agrees with a full one, undo restores the file. For
  the guard: each step up its ladder needs the evidence for it, and it stops at the first that helps.
  For the proxy: a change stops between files, and reverting undoes applying.
  For top: what the script prints is what is read, rates come from the counters of their own row, every
  virtual machine is counted once, the table lines up. For the snapshot: taking the inventory reaches
  only into distributions that are running, and the walk finds every file it could have found. For
  the checks: what was not read is not judged, an OK of the compatibility check means that every
  requirement is met, a disk counts as excluded exactly where a rule covers it, and the port check
  tells exactly whether a run fits. For limits: the ceiling is not set before the throttle. For archives: only
  the listed files are kept, and a failure is reported exactly where one of three faults is there.
  \<^bold>\<open>Bounds and fuel.\<close> Polling loops take the number of polls that fit their deadline
  (\<open>DiskMove.wait_loop\<close>, with a theorem that it ends with an answer); readers recurse on what is left
  to read; the shell of \<open>GuestShell\<close> recurses on the lines of its script. Decimals of a \<open>float64\<close> are
  produced with fuel 1100, more digits than a finite one has (\<open>GoFloat\<close>), the exponent of two
  significant digits with 400 (\<open>Limit\<close>), and amounts with the four steps their unit letters
  allow. The limits of the code (64 KiB lines, 1 MiB files, 1024 pending requests, 200000 entries of a
  walk) stand in the model with their values.

  \<^bold>\<open>Not modelled.\<close> Code that only calls Windows or passes data through: the system calls
  (\<open>winapi\<close>, \<open>schtask\<close>, the files ending in \<open>_windows.go\<close> of \<open>disk\<close> and \<open>proxy\<close>, the collectors of
  \<open>env/collect\<close> that copy registry and WMI values, \<open>sock/wire_windows.go\<close>, \<open>agent/install\<close>,
  \<open>agent/vmid\<close>), whose results are the parameters above; the command line (\<open>cli\<close>: flags, prompts,
  printing) but for the undo of a fix; rendering of reports (\<open>render\<close>, \<open>disk/render.go\<close>); the checks of
  the event log (\<open>probe/evt\<close>), which group the messages of Windows for display; the tables
  of \<open>data\<close> (JSON files read at start), which are arguments; tar, gzip and HTTP of the standard
  library; code generators and experiments (\<open>tools\<close>, \<open>spikes\<close>). Concurrency inside the Go runtime
  appears as the interleaving of atomic steps, not as memory accesses.
\<close>

end
